(* ===== verification/Zoltar_Prelude.thy ===== *)
theory Zoltar_Prelude
  imports Main "HOL-Library.Signed_Division" "HOL-Library.Multiset" "HOL-Library.Sublist"
begin

text \<open>
  Shared vocabulary of the development: JavaScript bigint division, thrown errors as values,
  stable sorting by a comparator, the string operations the modelled code uses, and the
  interfaces (locales) that several components implement.

  A bigint is an \<open>int\<close>. Its \<open>/\<close> and \<open>%\<close> truncate towards zero, which is
  \<open>sdiv\<close> and \<open>smod\<close> of \<open>HOL-Library.Signed_Division\<close>, and throw on a zero
  divisor: where the code does not rule a zero divisor out, the model uses \<open>bigDiv\<close>; where
  the divisor is a positive literal it uses \<open>sdiv\<close> directly. A \<open>number\<close> that the
  code only uses as an integer is an \<open>int\<close> too. \<open>undefined\<close> is \<open>None\<close>.
\<close>

section \<open>Thrown errors as values\<close>

text \<open>
  \<open>Error\<close> carries the message of a \<open>throw new Error(...)\<close>; \<open>RangeError\<close> that of a
  \<open>RangeError\<close>; \<open>DivisionByZero\<close> and
  \<open>SyntaxError\<close> (of \<open>BigInt(text)\<close>) are those the language raises itself.
\<close>

datatype js_error = DivisionByZero | SyntaxError string | RangeError string | Error string

type_synonym 'a result = "js_error + 'a"

abbreviation ok :: "'a \<Rightarrow> 'a result" where
  "ok \<equiv> Inr"

abbreviation throw :: "string \<Rightarrow> 'a result" where
  "throw msg \<equiv> Inl (Error msg)"

definition bindR :: "'a result \<Rightarrow> ('a \<Rightarrow> 'b result) \<Rightarrow> 'b result" where
  "bindR m f = (case m of Inl e \<Rightarrow> Inl e | Inr x \<Rightarrow> f x)"

lemma bindR_simps [simp]:
  "bindR (Inl e) f = Inl e"
  "bindR (Inr x) f = f x"
  by (simp_all add: bindR_def)

lemma bindR_eq_Inr_iff: "bindR m f = Inr y \<longleftrightarrow> (\<exists>x. m = Inr x \<and> f x = Inr y)"
  by (cases m) auto

lemma bindR_eq_Inl_iff: "bindR m f = Inl e \<longleftrightarrow> m = Inl e \<or> (\<exists>x. m = Inr x \<and> f x = Inl e)"
  by (cases m) auto

lemma bindR_assoc: "bindR (bindR m f) g = bindR m (\<lambda>x. bindR (f x) g)"
  by (cases m) simp_all

lemma bindR_cong [fundef_cong]:
  assumes "m = m'" and "\<And>x. m' = Inr x \<Longrightarrow> f x = f' x"
  shows "bindR m f = bindR m' f'"
  using assms by (cases m') simp_all

text \<open>Peeling a successful run: every step before the result succeeded, every guard was passed.\<close>

lemma bindR_okE:
  assumes "bindR m f = Inr y"
  obtains x where "m = Inr x" and "f x = Inr y"
  using assms by (auto simp: bindR_eq_Inr_iff)

lemma Let_okE:
  assumes "(let x = a in f x) = Inr y"
  obtains x where "a = x" and "f x = Inr y"
  using assms by (auto simp: Let_def)

lemma guard_okE:
  assumes "(if b then Inr None else m) = Inr (Some y)"
  obtains "\<not> b" and "m = Inr (Some y)"
  using assms by (auto split: if_splits)

lemma default_okE:
  assumes "(if b then Inr z else m) = Inr y" and "y \<noteq> z"
  obtains "\<not> b" and "m = Inr y"
  using assms by (auto split: if_splits)

lemma check_okE:
  assumes "(if b then Inl e else m) = Inr y"
  obtains "\<not> b" and "m = Inr y"
  using assms by (auto split: if_splits)

definition succeeds :: "'a result \<Rightarrow> bool" where
  "succeeds r \<longleftrightarrow> (case r of Inl _ \<Rightarrow> False | Inr _ \<Rightarrow> True)"

lemma succeeds_simps [simp]: "succeeds (Inr x)" "\<not> succeeds (Inl e)"
  by (simp_all add: succeeds_def)

lemma succeeds_iff: "succeeds r \<longleftrightarrow> (\<exists>x. r = Inr x)"
  by (cases r) simp_all

text \<open>\<open>xs.map(f)\<close> where \<open>f\<close> may throw: the first error ends the loop.\<close>

fun mapR :: "('a \<Rightarrow> 'b result) \<Rightarrow> 'a list \<Rightarrow> 'b list result" where
  "mapR f [] = ok []"
| "mapR f (x # xs) = bindR (f x) (\<lambda>y. bindR (mapR f xs) (\<lambda>ys. ok (y # ys)))"

section \<open>Bigint division\<close>

text \<open>The greatest safe integer of a number.\<close>

definition MAX_SAFE_INTEGER :: int where "MAX_SAFE_INTEGER = 2 ^ 53 - 1"

definition bigDiv :: "int \<Rightarrow> int \<Rightarrow> int result" where
  "bigDiv a b = (if b = 0 then Inl DivisionByZero else ok (a sdiv b))"

named_theorems bigint_simps \<open>truncating division on the operands the code meets\<close>

lemma sdiv_nonneg [bigint_simps]: "0 \<le> a \<Longrightarrow> 0 \<le> b \<Longrightarrow> (a::int) sdiv b = a div b"
  by (cases "a = 0"; cases "b = 0") (auto simp: signed_divide_int_def sgn_if)

lemma smod_nonneg [bigint_simps]: "0 \<le> a \<Longrightarrow> 0 \<le> b \<Longrightarrow> (a::int) smod b = a mod b"
  by (cases "a = 0"; cases "b = 0") (auto simp: signed_modulo_int_def sgn_if)

lemma bigDiv_pos [bigint_simps]: "0 \<le> a \<Longrightarrow> 0 < b \<Longrightarrow> bigDiv a b = ok (a div b)"
  by (simp add: bigDiv_def sdiv_nonneg)

lemma bigDiv_zero [simp]: "bigDiv a 0 = Inl DivisionByZero"
  by (simp add: bigDiv_def)

lemma sdiv_zero_left [simp]: "(0::int) sdiv b = 0"
  by (simp add: signed_divide_int_def)

lemma sdiv_neg_num: "(a::int) < 0 \<Longrightarrow> 0 < b \<Longrightarrow> a sdiv b = - ((- a) div b)"
  by (simp add: signed_divide_int_def sgn_if)

lemma sdiv_nonpos: "(a::int) \<le> 0 \<Longrightarrow> 0 < b \<Longrightarrow> a sdiv b \<le> 0"
  by (cases "a = 0") (simp_all add: sdiv_neg_num pos_imp_zdiv_nonneg_iff)

text \<open>The Galois connection of the floored quotient with multiplication.\<close>

lemma div_mult_le_self:
  fixes n d :: int
  assumes "0 < d"
  shows "n div d * d \<le> n"
proof -
  have "n div d * d + n mod d = n" by simp
  moreover have "0 \<le> n mod d" using assms by simp
  ultimately show ?thesis by linarith
qed

lemma le_div_iff:
  fixes n d q :: int
  assumes "0 < d"
  shows "q \<le> n div d \<longleftrightarrow> q * d \<le> n"
proof
  assume "q \<le> n div d"
  then have "q * d \<le> n div d * d" using assms by (simp add: mult_right_mono)
  also have "\<dots> \<le> n" using assms by (rule div_mult_le_self)
  finally show "q * d \<le> n" .
next
  assume "q * d \<le> n"
  then have "q * d div d \<le> n div d" using assms by (rule zdiv_mono1)
  then show "q \<le> n div d" using assms by simp
qed

lemma div_less_iff:
  fixes n d q :: int
  assumes "0 < d"
  shows "n div d < q \<longleftrightarrow> n < q * d"
  using le_div_iff [OF assms, of q n] by linarith

lemma less_div_succ_mult:
  fixes n d :: int
  assumes "0 < d"
  shows "n < (n div d + 1) * d"
  using div_less_iff [OF assms, of n "n div d + 1"] by simp

text \<open>The midpoint of a bisection, rounded towards zero, stays inside the interval.\<close>

lemma bisect_up_bounds:
  fixes low high :: int
  assumes "low < high"
  shows "low < (low + high + 1) sdiv 2" and "(low + high + 1) sdiv 2 \<le> high"
proof -
  have "low < (low + high + 1) sdiv 2 \<and> (low + high + 1) sdiv 2 \<le> high"
  proof (cases "0 \<le> low + high + 1")
    case True
    with assms show ?thesis by (simp add: sdiv_nonneg) presburger
  next
    case False
    with assms show ?thesis by (simp add: sdiv_neg_num) presburger
  qed
  then show "low < (low + high + 1) sdiv 2" and "(low + high + 1) sdiv 2 \<le> high" by auto
qed

lemma bisect_mid_bounds:
  fixes low high :: int
  assumes "low \<le> high"
  shows "low \<le> (low + high) sdiv 2" and "(low + high) sdiv 2 \<le> high"
proof -
  have "low \<le> (low + high) sdiv 2 \<and> (low + high) sdiv 2 \<le> high"
  proof (cases "0 \<le> low + high")
    case True
    with assms show ?thesis by (simp add: sdiv_nonneg) presburger
  next
    case False
    with assms show ?thesis by (simp add: sdiv_neg_num) presburger
  qed
  then show "low \<le> (low + high) sdiv 2" and "(low + high) sdiv 2 \<le> high" by auto
qed

text \<open>The code writes minima and maxima as conditional expressions.\<close>

named_theorems minmax_simps \<open>conditional expressions that are a minimum or a maximum\<close>

lemma if_minmax [minmax_simps]:
  fixes a b :: "'a::linorder"
  shows "(if a < b then a else b) = min a b" "(if b < a then a else b) = max a b"
    "(if a \<le> b then a else b) = min a b" "(if b \<le> a then a else b) = max a b"
  by (auto simp: min_def max_def)

lemma if_monus [minmax_simps]: "(if b < a then a - b else 0) = max 0 (a - (b::int))"
  by auto

text \<open>A pro-rata share of a non-negative whole.\<close>

lemma prorata_bounds:
  fixes c x d :: int
  assumes "0 \<le> c" and "0 < d" and "0 \<le> x" and "x \<le> d"
  shows "0 \<le> (c * x) div d" and "(c * x) div d \<le> c"
proof -
  show "0 \<le> (c * x) div d" using assms by (simp add: pos_imp_zdiv_nonneg_iff)
  have "c * x \<le> c * d" using assms by (intro mult_left_mono)
  then have "(c * x) div d \<le> (c * d) div d" using \<open>0 < d\<close> by (rule zdiv_mono1)
  with \<open>0 < d\<close> show "(c * x) div d \<le> c" by simp
qed

section \<open>Rounding up\<close>

text \<open>
  \<open>ceil_quot n d\<close> is the quotient rounded up, the specification of the code base's six
  rounding-up divisions. Two idioms compute it: \<open>(n + d - 1) / d\<close> and
  \<open>(n - 1) / d + 1\<close> with the case \<open>n = 0\<close> apart.
\<close>

definition ceil_quot :: "int \<Rightarrow> int \<Rightarrow> int" where
  "ceil_quot n d = (n + d - 1) div d"

lemma ceil_quot_le_iff:
  assumes "0 < d"
  shows "ceil_quot n d \<le> q \<longleftrightarrow> n \<le> q * d"
proof -
  have "ceil_quot n d \<le> q \<longleftrightarrow> (n + d - 1) div d < q + 1"
    by (simp add: ceil_quot_def)
  also have "\<dots> \<longleftrightarrow> n + d - 1 < (q + 1) * d"
    using assms by (rule div_less_iff)
  also have "\<dots> \<longleftrightarrow> n \<le> q * d"
    by (simp add: distrib_right) linarith
  finally show ?thesis .
qed

lemma less_ceil_quot_iff: "0 < d \<Longrightarrow> q < ceil_quot n d \<longleftrightarrow> q * d < n"
  using ceil_quot_le_iff [of d n q] by linarith

lemma ceil_quot_upper: "0 < d \<Longrightarrow> n \<le> ceil_quot n d * d"
  using ceil_quot_le_iff [of d n "ceil_quot n d"] by simp

lemma ceil_quot_lower: "0 < d \<Longrightarrow> ceil_quot n d * d < n + d"
  using less_ceil_quot_iff [of d "ceil_quot n d - 1" n] by (simp add: algebra_simps)

lemma ceil_quot_mono: "0 < d \<Longrightarrow> m \<le> n \<Longrightarrow> ceil_quot m d \<le> ceil_quot n d"
  by (simp add: ceil_quot_def zdiv_mono1)

lemma ceil_quot_zero [simp]: "0 < d \<Longrightarrow> ceil_quot 0 d = 0"
  by (simp add: ceil_quot_def)

lemma ceil_quot_nonneg: "0 < d \<Longrightarrow> 0 \<le> n \<Longrightarrow> 0 \<le> ceil_quot n d"
  by (simp add: ceil_quot_def pos_imp_zdiv_nonneg_iff)

lemma ceil_quot_pos_iff: "0 < d \<Longrightarrow> 0 < ceil_quot n d \<longleftrightarrow> 0 < n"
  by (simp add: less_ceil_quot_iff)

lemma ceil_quot_exact: "0 < d \<Longrightarrow> ceil_quot (q * d) d = q"
  using ceil_quot_le_iff [of d "q * d" q] less_ceil_quot_iff [of d "q - 1" "q * d"]
  by (auto simp: algebra_simps)

lemma floor_le_ceil_quot: "0 < d \<Longrightarrow> n div d \<le> ceil_quot n d"
  by (simp add: ceil_quot_def zdiv_mono1)

lemma ceil_quot_le_floor_succ: "0 < d \<Longrightarrow> ceil_quot n d \<le> n div d + 1"
  using less_div_succ_mult [of d n] by (simp add: ceil_quot_le_iff)

lemma ceil_quot_add_idiom: "0 \<le> n \<Longrightarrow> 0 < d \<Longrightarrow> (n + d - 1) sdiv d = ceil_quot n d"
  by (simp add: ceil_quot_def sdiv_nonneg)

lemma ceil_quot_pred_idiom: "0 < n \<Longrightarrow> 0 < d \<Longrightarrow> (n - 1) sdiv d + 1 = ceil_quot n d"
proof -
  assume n: "0 < n" and d: "0 < d"
  have "ceil_quot n d = ((n - 1) + 1 * d) div d"
    by (simp add: ceil_quot_def algebra_simps)
  also have "\<dots> = (n - 1) div d + 1"
    using d by (subst div_mult_self1) simp_all
  finally show ?thesis using n d by (simp add: sdiv_nonneg)
qed

lemma ceil_quot_if_idiom: "0 \<le> n \<Longrightarrow> 0 < d \<Longrightarrow> (if n = 0 then 0 else (n - 1) sdiv d + 1) = ceil_quot n d"
  by (cases "n = 0") (simp_all add: ceil_quot_pred_idiom)

text \<open>
  The contract of a rounding-up division: on a non-negative numerator and a positive divisor
  it returns the quotient rounded up. What its clients use is proved once from it.
\<close>

locale ceil_division =
  fixes cdiv :: "int \<Rightarrow> int \<Rightarrow> int result"
  assumes cdiv_spec: "0 \<le> n \<Longrightarrow> 0 < d \<Longrightarrow> cdiv n d = ok (ceil_quot n d)"
begin

lemma succeeds: "0 \<le> n \<Longrightarrow> 0 < d \<Longrightarrow> succeeds (cdiv n d)"
  by (simp add: cdiv_spec)

lemma covers: "0 \<le> n \<Longrightarrow> 0 < d \<Longrightarrow> cdiv n d = ok q \<Longrightarrow> n \<le> q * d"
  using ceil_quot_upper by (auto simp: cdiv_spec)

lemma least: "0 \<le> n \<Longrightarrow> 0 < d \<Longrightarrow> cdiv n d = ok q \<Longrightarrow> n \<le> q' * d \<Longrightarrow> q \<le> q'"
  by (auto simp: cdiv_spec ceil_quot_le_iff)

lemma nonneg: "0 \<le> n \<Longrightarrow> 0 < d \<Longrightarrow> cdiv n d = ok q \<Longrightarrow> 0 \<le> q"
  by (auto simp: cdiv_spec ceil_quot_nonneg)

lemma mono:
  "0 \<le> m \<Longrightarrow> m \<le> n \<Longrightarrow> 0 < d \<Longrightarrow> cdiv m d = ok p \<Longrightarrow> cdiv n d = ok q \<Longrightarrow> p \<le> q"
  by (auto simp: cdiv_spec ceil_quot_mono)

end

text \<open>Two implementations of the contract agree wherever it speaks.\<close>

lemma ceil_division_unique:
  assumes "ceil_division f" and "ceil_division g" and "0 \<le> n" and "0 < d"
  shows "f n d = g n d"
  using assms by (simp add: ceil_division.cdiv_spec)

section \<open>Sorting by a comparator\<close>

text \<open>
  \<open>Array.prototype.sort\<close> is stable. For a comparator that is a total preorder the sorted
  array is determined by that, so any stable sort is a model of it: here insertion.
\<close>

fun insert_by :: "('a \<Rightarrow> 'a \<Rightarrow> int) \<Rightarrow> 'a \<Rightarrow> 'a list \<Rightarrow> 'a list" where
  "insert_by cmp x [] = [x]"
| "insert_by cmp x (y # ys) = (if cmp x y \<le> 0 then x # y # ys else y # insert_by cmp x ys)"

fun js_sort :: "('a \<Rightarrow> 'a \<Rightarrow> int) \<Rightarrow> 'a list \<Rightarrow> 'a list" where
  "js_sort cmp [] = []"
| "js_sort cmp (x # xs) = insert_by cmp x (js_sort cmp xs)"

lemma mset_insert_by [simp]: "mset (insert_by cmp x xs) = add_mset x (mset xs)"
  by (induction xs) auto

lemma mset_js_sort [simp]: "mset (js_sort cmp xs) = mset xs"
  by (induction xs) auto

lemma set_insert_by [simp]: "set (insert_by cmp x xs) = insert x (set xs)"
  by (induction xs) auto

lemma set_js_sort [simp]: "set (js_sort cmp xs) = set xs"
  by (induction xs) auto

lemma length_js_sort [simp]: "length (js_sort cmp xs) = length xs"
  by (metis mset_js_sort size_mset)

lemma js_sort_eq_Nil_iff [simp]: "js_sort cmp xs = [] \<longleftrightarrow> xs = []"
  by (metis length_0_conv length_js_sort)

lemma insert_by_cong: "(\<And>y. y \<in> set xs \<Longrightarrow> cmp x y = cmp' x y) \<Longrightarrow> insert_by cmp x xs = insert_by cmp' x xs"
  by (induction xs) auto

lemma js_sort_cong: "(\<And>x y. x \<in> set xs \<Longrightarrow> y \<in> set xs \<Longrightarrow> cmp x y = cmp' x y) \<Longrightarrow> js_sort cmp xs = js_sort cmp' xs"
proof (induction xs)
  case (Cons x xs)
  then have "js_sort cmp xs = js_sort cmp' xs" by simp
  moreover have "insert_by cmp x (js_sort cmp' xs) = insert_by cmp' x (js_sort cmp' xs)"
    using Cons.prems by (intro insert_by_cong) simp
  ultimately show ?case by simp
qed simp

text \<open>A comparator the sort may rely on: total and transitive.\<close>

locale comparator =
  fixes cmp :: "'a \<Rightarrow> 'a \<Rightarrow> int"
  assumes total: "cmp x y \<le> 0 \<or> cmp y x \<le> 0"
    and trans: "cmp x y \<le> 0 \<Longrightarrow> cmp y z \<le> 0 \<Longrightarrow> cmp x z \<le> 0"
begin

lemma refl: "cmp x x \<le> 0"
  using total [of x x] by simp

lemma sorted_insert_by:
  "sorted_wrt (\<lambda>x y. cmp x y \<le> 0) xs \<Longrightarrow> sorted_wrt (\<lambda>x y. cmp x y \<le> 0) (insert_by cmp x xs)"
proof (induction xs)
  case Nil
  then show ?case by simp
next
  case (Cons y ys)
  then show ?case using total [of x y] by (auto intro: trans)
qed

lemma sorted_js_sort: "sorted_wrt (\<lambda>x y. cmp x y \<le> 0) (js_sort cmp xs)"
  by (induction xs) (auto intro: sorted_insert_by)

lemma js_sort_sorted: "sorted_wrt (\<lambda>x y. cmp x y \<le> 0) xs \<Longrightarrow> js_sort cmp xs = xs"
proof (induction xs)
  case Nil
  then show ?case by simp
next
  case (Cons x xs)
  then have "js_sort cmp xs = xs" by simp
  with Cons.prems show ?case by (cases xs) auto
qed

lemma js_sort_idem: "js_sort cmp (js_sort cmp xs) = js_sort cmp xs"
  by (rule js_sort_sorted) (rule sorted_js_sort)

text \<open>The head of a sorted array is a minimum of the unsorted one.\<close>

lemma js_sort_hd_min: "js_sort cmp xs = y # ys \<Longrightarrow> x \<in> set xs \<Longrightarrow> cmp y x \<le> 0"
  using sorted_js_sort [of xs] set_js_sort [of cmp xs] refl by fastforce

end

text \<open>A comparator that orders by a key into a linear order.\<close>

lemma comparator_by_key:
  fixes key :: "'a \<Rightarrow> 'k::linorder"
  assumes "\<And>x y. cmp x y \<le> 0 \<longleftrightarrow> key x \<le> key y"
  shows "comparator cmp"
  by unfold_locales (auto simp: assms)

text \<open>\<open>left < right ? -1 : left > right ? 1 : 0\<close>.\<close>

definition order_sign :: "'a::linorder \<Rightarrow> 'a \<Rightarrow> int" where
  "order_sign x y = (if x < y then -1 else if y < x then 1 else 0)"

lemma comparator_order_sign: "comparator (\<lambda>x y. order_sign (key x) (key y))"
  by (rule comparator_by_key [where key = key]) (auto simp: order_sign_def)

lemma order_sign_simps [simp]:
  "order_sign x y \<le> 0 \<longleftrightarrow> x \<le> y" "order_sign x y = 0 \<longleftrightarrow> x = y" "order_sign x x = 0"
  by (auto simp: order_sign_def)

text \<open>\<open>xs.find(p)\<close> is \<open>List.find\<close>: what it returns satisfies the predicate, and nothing before it does.\<close>

lemma find_Some_iff_split: "List.find P xs = Some x \<longleftrightarrow> (\<exists>ys zs. xs = ys @ x # zs \<and> P x \<and> (\<forall>y \<in> set ys. \<not> P y))"
proof
  show "List.find P xs = Some x \<Longrightarrow> \<exists>ys zs. xs = ys @ x # zs \<and> P x \<and> (\<forall>y \<in> set ys. \<not> P y)"
  proof (induction xs)
    case (Cons a xs)
    show ?case
    proof (cases "P a")
      case True
      with Cons.prems have "a # xs = [] @ x # xs \<and> P x" by simp
      then show ?thesis by (intro exI [of _ "[]"] exI [of _ xs]) simp
    next
      case False
      with Cons obtain ys zs where "xs = ys @ x # zs" "P x" "\<forall>y \<in> set ys. \<not> P y" by auto
      with False show ?thesis by (intro exI [of _ "a # ys"] exI [of _ zs]) simp
    qed
  qed simp
next
  assume "\<exists>ys zs. xs = ys @ x # zs \<and> P x \<and> (\<forall>y \<in> set ys. \<not> P y)"
  then obtain ys zs where "xs = ys @ x # zs" "P x" "\<forall>y \<in> set ys. \<not> P y" by blast
  then show "List.find P xs = Some x" by (induction ys arbitrary: xs) auto
qed

lemma find_Some_in: "List.find P xs = Some x \<Longrightarrow> x \<in> set xs \<and> P x"
  by (auto simp: find_Some_iff_split)

end
