(* ===== verification/Amm_Curve.thy ===== *)
theory Amm_Curve
  imports Zoltar_Prelude
begin

text \<open>
  The contract shared by the constant-product quotes of the code base: the trading AMM
  (\<open>shared/ts/trading/math.ts\<close>), the Uniswap V2 quote of the arbitrager
  (\<open>core/venue-strategy.ts\<close>) and the pair probe of the market monitor
  (\<open>monitoring/constant-product-markets.ts\<close>). A quote may fail; when it succeeds the output
  never exceeds what the fee-free curve gives. Solvency, the growth of the product and the
  absence of a profitable round trip follow once here.
\<close>

locale swap_curve =
  fixes valid_fee :: "'fee \<Rightarrow> bool"
    and swap :: "'fee \<Rightarrow> int \<Rightarrow> int \<Rightarrow> int \<Rightarrow> int result"
  assumes swap_bound:
    "valid_fee f \<Longrightarrow> 0 < rin \<Longrightarrow> 0 < rout \<Longrightarrow> 0 < a \<Longrightarrow> swap f rin rout a = ok b \<Longrightarrow>
      0 \<le> b \<and> b * (rin + a) \<le> rout * a"
begin

lemma solvent:
  assumes "valid_fee f" and "0 < rin" and "0 < rout" and "0 < a" and "swap f rin rout a = ok b"
  shows "b < rout"
proof (rule ccontr)
  assume "\<not> b < rout"
  then have "rout * (rin + a) \<le> b * (rin + a)"
    using assms by (intro mult_right_mono) auto
  also have "\<dots> \<le> rout * a" using swap_bound [OF assms] by simp
  finally have "rout * rin \<le> 0" by (simp add: algebra_simps)
  moreover have "0 < rout * rin" using assms by simp
  ultimately show False by linarith
qed

lemma product_grows:
  assumes "valid_fee f" and "0 < rin" and "0 < rout" and "0 < a" and "swap f rin rout a = ok b"
  shows "rin * rout \<le> (rin + a) * (rout - b)"
  using swap_bound [OF assms] by (simp add: algebra_simps)

lemma no_round_trip_profit:
  assumes "valid_fee f" and "valid_fee g" and "0 < rin" and "0 < rout" and "0 < a"
    and outward: "swap f rin rout a = ok b" and "0 < b"
    and homeward: "swap g (rout - b) (rin + a) b = ok c"
  shows "c \<le> a"
proof -
  have b: "b < rout" by (rule solvent [OF assms(1,3-6)])
  have "b * (rin + a) \<le> rout * a"
    using swap_bound [OF assms(1,3-6)] by simp
  moreover have "c * (rout - b + b) \<le> (rin + a) * b"
    using swap_bound [OF assms(2) _ _ assms(7,8)] assms(3,5) b by simp
  then have "c * rout \<le> b * (rin + a)"
    by (simp add: mult.commute [of "rin + a"])
  ultimately have "rout * c \<le> rout * a"
    by (simp add: mult.commute [of c])
  with \<open>0 < rout\<close> show ?thesis by simp
qed

end

end
