(* ===== verification/Bisection.thy ===== *)
theory Bisection
  imports Zoltar_Prelude
begin

text \<open>
  The contract of a bisection for the greatest accepted candidate: one round of the loop, and a
  test that stays true below an accepted candidate. Whatever the loop body does to compute the
  test, it finds the greatest candidate of the interval that passes, and always returns.
\<close>

locale bisection =
  fixes valid :: "'p \<Rightarrow> int \<Rightarrow> bool"
    and accepts :: "'p \<Rightarrow> int \<Rightarrow> bool"
    and search :: "'p \<Rightarrow> int \<Rightarrow> int \<Rightarrow> int result"
  assumes valid_below: "valid p c \<Longrightarrow> 0 < d \<Longrightarrow> d \<le> c \<Longrightarrow> valid p d"
    and accepts_below: "valid p c \<Longrightarrow> accepts p c \<Longrightarrow> 0 < d \<Longrightarrow> d \<le> c \<Longrightarrow> accepts p d"
    and search_stop: "high \<le> low \<Longrightarrow> search p low high = ok low"
    and search_step: "0 \<le> low \<Longrightarrow> low < high \<Longrightarrow> valid p high \<Longrightarrow>
      search p low high =
        (if accepts p ((low + high + 1) sdiv 2) then search p ((low + high + 1) sdiv 2) high
         else search p low ((low + high + 1) sdiv 2 - 1))"
begin

lemma finds_greatest:
  "0 \<le> low \<Longrightarrow> low \<le> high \<Longrightarrow> (0 < high \<longrightarrow> valid p high) \<Longrightarrow> (0 < low \<longrightarrow> accepts p low) \<Longrightarrow>
    \<exists>r. search p low high = ok r \<and> low \<le> r \<and> r \<le> high \<and> (0 < r \<longrightarrow> accepts p r) \<and>
        (\<forall>c. r < c \<and> c \<le> high \<longrightarrow> \<not> accepts p c)"
proof (induction "nat (high - low)" arbitrary: low high rule: less_induct)
  case less
  show ?case
  proof (cases "low < high")
    case False
    with less.prems search_stop [of high low p] show ?thesis by auto
  next
    case True
    let ?m = "(low + high + 1) sdiv 2"
    note mid = bisect_up_bounds [OF True]
    have valid: "valid p high" using True less.prems by auto
    then have validm: "valid p ?m" using mid less.prems by (auto intro: valid_below)
    show ?thesis
    proof (cases "accepts p ?m")
      case acc: True
      have "\<exists>r. search p ?m high = ok r \<and> ?m \<le> r \<and> r \<le> high \<and> (0 < r \<longrightarrow> accepts p r) \<and>
          (\<forall>c. r < c \<and> c \<le> high \<longrightarrow> \<not> accepts p c)"
        using mid acc valid less.prems by (intro less.hyps) auto
      then show ?thesis
        using search_step [OF less.prems(1) True valid] acc mid by force
    next
      case rej: False
      have "\<exists>r. search p low (?m - 1) = ok r \<and> low \<le> r \<and> r \<le> ?m - 1 \<and> (0 < r \<longrightarrow> accepts p r) \<and>
          (\<forall>c. r < c \<and> c \<le> ?m - 1 \<longrightarrow> \<not> accepts p c)"
        using mid validm less.prems by (intro less.hyps) (auto intro: valid_below)
      then obtain r where r: "search p low (?m - 1) = ok r" "low \<le> r" "r \<le> ?m - 1"
        "0 < r \<longrightarrow> accepts p r" "\<forall>c. r < c \<and> c \<le> ?m - 1 \<longrightarrow> \<not> accepts p c"
        by blast
      have "\<not> accepts p c" if "?m \<le> c" and "c \<le> high" for c
      proof
        assume "accepts p c"
        moreover have "valid p c" using valid that mid less.prems by (auto intro: valid_below)
        ultimately have "accepts p ?m"
          using that mid less.prems by (auto intro: accepts_below)
        with rej show False by contradiction
      qed
      moreover have "\<not> accepts p c" if "r < c" and "c < ?m" for c
        using r that by auto
      ultimately have "\<forall>c. r < c \<and> c \<le> high \<longrightarrow> \<not> accepts p c"
        by (meson not_le)
      with r mid show ?thesis
        using search_step [OF less.prems(1) True valid] rej by (intro exI [of _ r]) auto
    qed
  qed
qed

end

end
