(* ===== verification/Trading_Math.thy ===== *)
theory Trading_Math
  imports Amm_Curve Bisection
begin

text \<open>
  The trading AMM: \<open>shared/ts/trading/math.ts\<close> (swap and liquidity quotes) and
  \<open>shared/ts/trading/positions.ts\<close> (entering and leaving an insured position, the largest
  exit a holder can afford, slippage bounds). A position trades a complete set
  (Invalid, Yes, No): entering swaps the opposite outcome for the long one, leaving buys it back.
\<close>

section \<open>Swap and liquidity quotes (\<open>math.ts\<close>)\<close>

definition BPS_DENOMINATOR :: int where
  [simp]: "BPS_DENOMINATOR = 10000"

record SwapQuote =
  quoteAmountIn :: int
  quoteAmountOut :: int
  quoteNetInput :: int
  quoteFeeAmount :: int

definition requirePositive :: "int \<Rightarrow> string \<Rightarrow> unit result" where
  "requirePositive value label = (if value \<le> 0 then throw (label @ '' must be positive'') else ok ())"

definition ceilDiv :: "int \<Rightarrow> int \<Rightarrow> int result" where
  "ceilDiv numerator denominator =
     (if numerator < 0 \<or> denominator \<le> 0
      then throw ''ceilDiv requires a nonnegative numerator and positive denominator''
      else ok (if numerator = 0 then 0 else (numerator - 1) sdiv denominator + 1))"

definition quoteExactInput :: "int \<Rightarrow> int \<Rightarrow> int \<Rightarrow> int \<Rightarrow> SwapQuote result" where
  "quoteExactInput reserveIn reserveOut amountIn feeBps =
     bindR (requirePositive reserveIn ''reserveIn'') (\<lambda>_.
     bindR (requirePositive reserveOut ''reserveOut'') (\<lambda>_.
     bindR (requirePositive amountIn ''amountIn'') (\<lambda>_.
     if feeBps < 0 \<or> feeBps \<ge> BPS_DENOMINATOR then throw ''feeBps is out of range''
     else let netInput = (amountIn * (BPS_DENOMINATOR - feeBps)) sdiv BPS_DENOMINATOR in
       bindR (requirePositive netInput ''netInput'') (\<lambda>_.
       bindR (bigDiv (reserveOut * netInput) (reserveIn + netInput)) (\<lambda>amountOut.
       if amountOut \<le> 0 \<or> amountOut \<ge> reserveOut then throw ''amountOut is out of range''
       else ok \<lparr>quoteAmountIn = amountIn, quoteAmountOut = amountOut, quoteNetInput = netInput,
                quoteFeeAmount = amountIn - netInput\<rparr>)))))"

definition quoteExactOutput :: "int \<Rightarrow> int \<Rightarrow> int \<Rightarrow> int \<Rightarrow> SwapQuote result" where
  "quoteExactOutput reserveIn reserveOut amountOut feeBps =
     bindR (requirePositive reserveIn ''reserveIn'') (\<lambda>_.
     bindR (requirePositive reserveOut ''reserveOut'') (\<lambda>_.
     if amountOut \<le> 0 \<or> amountOut \<ge> reserveOut then throw ''amountOut is out of range''
     else if feeBps < 0 \<or> feeBps \<ge> BPS_DENOMINATOR then throw ''feeBps is out of range''
     else
       bindR (ceilDiv (reserveIn * amountOut) (reserveOut - amountOut)) (\<lambda>netInput.
       bindR (ceilDiv (netInput * BPS_DENOMINATOR) (BPS_DENOMINATOR - feeBps)) (\<lambda>amountIn.
       ok \<lparr>quoteAmountIn = amountIn, quoteAmountOut = amountOut, quoteNetInput = netInput,
           quoteFeeAmount = amountIn - netInput\<rparr>))))"

record Probability =
  probNumerator :: int
  probDenominator :: int

definition conditionalYesProbability :: "int \<Rightarrow> int \<Rightarrow> Probability result" where
  "conditionalYesProbability yesReserve noReserve =
     bindR (requirePositive (yesReserve + noReserve) ''reserve sum'') (\<lambda>_.
     ok \<lparr>probNumerator = noReserve, probDenominator = yesReserve + noReserve\<rparr>)"

definition conditionalNoProbability :: "int \<Rightarrow> int \<Rightarrow> Probability result" where
  "conditionalNoProbability yesReserve noReserve =
     bindR (requirePositive (yesReserve + noReserve) ''reserve sum'') (\<lambda>_.
     ok \<lparr>probNumerator = yesReserve, probDenominator = yesReserve + noReserve\<rparr>)"

record InitialLiquidityQuote =
  initYesUsed :: int
  initNoUsed :: int
  initInvalidReturned :: int
  initYesReturned :: int
  initNoReturned :: int

definition quoteInitialLiquidity :: "int \<Rightarrow> int \<Rightarrow> InitialLiquidityQuote result" where
  "quoteInitialLiquidity completeSets conditionalYesBps =
     bindR (requirePositive completeSets ''completeSets'') (\<lambda>_.
     if conditionalYesBps \<le> 0 \<or> conditionalYesBps \<ge> BPS_DENOMINATOR
     then throw ''conditionalYesBps is out of range''
     else
       let (yesUsed, noUsed) =
             (if conditionalYesBps \<ge> 5000
              then ((completeSets * (BPS_DENOMINATOR - conditionalYesBps)) sdiv conditionalYesBps, completeSets)
              else (completeSets, (completeSets * conditionalYesBps) sdiv (BPS_DENOMINATOR - conditionalYesBps)))
       in if yesUsed = 0 \<or> noUsed = 0 then throw ''initial reserves round to zero''
          else ok \<lparr>initYesUsed = yesUsed, initNoUsed = noUsed, initInvalidReturned = completeSets,
                   initYesReturned = completeSets - yesUsed, initNoReturned = completeSets - noUsed\<rparr>)"

record AddLiquidityQuote =
  addYesUsed :: int
  addNoUsed :: int
  addYesReturned :: int
  addNoReturned :: int

definition quoteAddLiquidity :: "int \<Rightarrow> int \<Rightarrow> int \<Rightarrow> int \<Rightarrow> AddLiquidityQuote result" where
  "quoteAddLiquidity yesReserve noReserve maxYes maxNo =
     bindR (requirePositive yesReserve ''yesReserve'') (\<lambda>_.
     bindR (requirePositive noReserve ''noReserve'') (\<lambda>_.
     let yesLimited = maxYes * noReserve \<le> maxNo * yesReserve;
         yesUsed = (if yesLimited then maxYes else (maxNo * yesReserve) sdiv noReserve);
         noUsed = (if yesLimited then (maxYes * noReserve) sdiv yesReserve else maxNo)
     in ok \<lparr>addYesUsed = yesUsed, addNoUsed = noUsed,
            addYesReturned = maxYes - yesUsed, addNoReturned = maxNo - noUsed\<rparr>))"

definition quoteRemoveLiquidity :: "int \<Rightarrow> int \<Rightarrow> int \<Rightarrow> int \<Rightarrow> (int \<times> int) result" where
  "quoteRemoveLiquidity yesReserve noReserve liquidity totalSupply =
     bindR (requirePositive totalSupply ''totalSupply'') (\<lambda>_.
     ok ((yesReserve * liquidity) sdiv totalSupply, (noReserve * liquidity) sdiv totalSupply))"

section \<open>Positions (\<open>positions.ts\<close>)\<close>

datatype LongOutcome = YES | NO

record EnterPositionQuote =
  enterLongOutcome :: LongOutcome
  enterCompleteSetShares :: int
  enterOppositeSharesSwapped :: int
  enterAdditionalLongShares :: int
  enterTotalLongShares :: int
  enterInvalidInsurance :: int
  enterFeeAmount :: int

record ExitPositionQuote =
  exitLongOutcome :: LongOutcome
  exitCompleteSetShares :: int
  exitLongSharesSwapped :: int
  exitTotalLongShares :: int
  exitInvalidRequired :: int
  exitFeeAmount :: int

definition quoteEnterPosition :: "LongOutcome \<Rightarrow> int \<Rightarrow> int \<Rightarrow> int \<Rightarrow> int \<Rightarrow> EnterPositionQuote result" where
  "quoteEnterPosition longOutcome completeSetShares yesReserve noReserve feeBps =
     bindR (if longOutcome = YES then quoteExactInput noReserve yesReserve completeSetShares feeBps
            else quoteExactInput yesReserve noReserve completeSetShares feeBps) (\<lambda>swap.
     ok \<lparr>enterLongOutcome = longOutcome, enterCompleteSetShares = completeSetShares,
         enterOppositeSharesSwapped = completeSetShares,
         enterAdditionalLongShares = quoteAmountOut swap,
         enterTotalLongShares = completeSetShares + quoteAmountOut swap,
         enterInvalidInsurance = completeSetShares, enterFeeAmount = quoteFeeAmount swap\<rparr>)"

definition quoteExitPosition :: "LongOutcome \<Rightarrow> int \<Rightarrow> int \<Rightarrow> int \<Rightarrow> int \<Rightarrow> ExitPositionQuote result" where
  "quoteExitPosition longOutcome completeSetShares yesReserve noReserve feeBps =
     bindR (if longOutcome = YES then quoteExactOutput yesReserve noReserve completeSetShares feeBps
            else quoteExactOutput noReserve yesReserve completeSetShares feeBps) (\<lambda>swap.
     ok \<lparr>exitLongOutcome = longOutcome, exitCompleteSetShares = completeSetShares,
         exitLongSharesSwapped = quoteAmountIn swap,
         exitTotalLongShares = completeSetShares + quoteAmountIn swap,
         exitInvalidRequired = completeSetShares, exitFeeAmount = quoteFeeAmount swap\<rparr>)"

record MaximumExitParameters =
  maxLongOutcome :: LongOutcome
  longBalance :: int
  invalidBalance :: int
  exitYesReserve :: int
  exitNoReserve :: int
  exitFeeBps :: int
  maximumLongInput :: "int option"

text \<open>
  The bisection loop of \<open>maximumInsuredExit\<close>; a quote that throws ends it. The interval
  shrinks in every round, so the recursion ends.
\<close>

function exit_search :: "MaximumExitParameters \<Rightarrow> int \<Rightarrow> int \<Rightarrow> int \<Rightarrow> int result" where
  "exit_search parameters maximumLong low high =
     (if low < high then
        let candidate = (low + high + 1) sdiv 2 in
        bindR (quoteExitPosition (maxLongOutcome parameters) candidate (exitYesReserve parameters)
                 (exitNoReserve parameters) (exitFeeBps parameters)) (\<lambda>exitQuote.
        if exitTotalLongShares exitQuote \<le> maximumLong
        then exit_search parameters maximumLong candidate high
        else exit_search parameters maximumLong low (candidate - 1))
      else ok low)"
  by pat_completeness auto
termination
  by (relation "measure (\<lambda>(p, m, low, high). nat (high - low))")
    (auto dest: bisect_up_bounds)

declare exit_search.simps [simp del]

definition maximum_long :: "MaximumExitParameters \<Rightarrow> int" where
  "maximum_long parameters =
     (case maximumLongInput parameters of
        None \<Rightarrow> longBalance parameters
      | Some m \<Rightarrow> if m > longBalance parameters then longBalance parameters else m)"

definition maximumInsuredExit :: "MaximumExitParameters \<Rightarrow> int result" where
  "maximumInsuredExit parameters =
     (let oppositeReserve = (if maxLongOutcome parameters = YES then exitNoReserve parameters
                             else exitYesReserve parameters)
      in if exitYesReserve parameters \<le> 0 \<or> exitNoReserve parameters \<le> 0 then ok 0
      else
        let high = (if invalidBalance parameters < oppositeReserve then invalidBalance parameters
                    else oppositeReserve - 1)
        in if high < 0 then ok 0
        else exit_search parameters (maximum_long parameters) 0 high)"

definition minimumAfterSlippage :: "int \<Rightarrow> int \<Rightarrow> int result" where
  "minimumAfterSlippage amount slippageBps =
     (if slippageBps < 0 \<or> slippageBps \<ge> BPS_DENOMINATOR then throw ''slippageBps is out of range''
      else ok ((amount * (BPS_DENOMINATOR - slippageBps)) sdiv BPS_DENOMINATOR))"

definition maximumAfterSlippage :: "int \<Rightarrow> int \<Rightarrow> int result" where
  "maximumAfterSlippage amount slippageBps =
     (if slippageBps < 0 \<or> slippageBps \<ge> BPS_DENOMINATOR then throw ''slippageBps is out of range''
      else ok ((amount * (BPS_DENOMINATOR + slippageBps) + BPS_DENOMINATOR - 1) sdiv BPS_DENOMINATOR))"

record PriceImpact =
  impactInputOutcome :: LongOutcome
  impactBefore :: Probability
  impactAfter :: Probability

definition inputOutcomeConditionalPriceImpact :: "LongOutcome \<Rightarrow> int \<Rightarrow> int \<Rightarrow> SwapQuote \<Rightarrow> PriceImpact" where
  "inputOutcomeConditionalPriceImpact inputOutcome beforeInputReserve beforeOutputReserve swapQuote =
     (let beforeNumerator = beforeOutputReserve;
          beforeDenominator = beforeInputReserve + beforeOutputReserve;
          afterIn = beforeInputReserve + quoteAmountIn swapQuote;
          afterOut = beforeOutputReserve - quoteAmountOut swapQuote
      in \<lparr>impactInputOutcome = inputOutcome,
         impactBefore = \<lparr>probNumerator = beforeNumerator, probDenominator = beforeDenominator\<rparr>,
         impactAfter = \<lparr>probNumerator = afterOut, probDenominator = afterIn + afterOut\<rparr>\<rparr>)"

section \<open>When the quotes succeed\<close>

lemma requirePositive_simps [simp]:
  "requirePositive v l = ok u \<longleftrightarrow> 0 < v"
  "0 < v \<Longrightarrow> requirePositive v l = ok ()"
  "v \<le> 0 \<Longrightarrow> requirePositive v l = throw (l @ '' must be positive'')"
  by (auto simp: requirePositive_def)

interpretation trading_ceil: ceil_division ceilDiv
  by unfold_locales (auto simp: ceilDiv_def ceil_quot_pred_idiom)

definition net_input :: "int \<Rightarrow> int \<Rightarrow> int" where
  "net_input a feeBps = a * (10000 - feeBps) div 10000"

definition curve_output :: "int \<Rightarrow> int \<Rightarrow> int \<Rightarrow> int" where
  "curve_output rin rout net = rout * net div (rin + net)"

lemma quoteExactInput_ok_iff:
  "quoteExactInput rin rout a f = ok q \<longleftrightarrow>
     0 < rin \<and> 0 < rout \<and> 0 < a \<and> 0 \<le> f \<and> f < 10000 \<and> 0 < net_input a f \<and>
     0 < curve_output rin rout (net_input a f) \<and> curve_output rin rout (net_input a f) < rout \<and>
     q = \<lparr>quoteAmountIn = a, quoteAmountOut = curve_output rin rout (net_input a f),
          quoteNetInput = net_input a f, quoteFeeAmount = a - net_input a f\<rparr>"
proof (cases "0 < rin \<and> 0 < rout \<and> 0 < a \<and> 0 \<le> f \<and> f < 10000")
  case True
  then have net: "(a * (10000 - f)) sdiv 10000 = net_input a f"
    by (simp add: net_input_def sdiv_nonneg)
  show ?thesis
  proof (cases "0 < net_input a f")
    case pos: True
    with True have "bigDiv (rout * net_input a f) (rin + net_input a f)
        = ok (curve_output rin rout (net_input a f))"
      by (simp add: curve_output_def bigDiv_pos)
    with True pos net show ?thesis by (auto simp: quoteExactInput_def Let_def)
  next
    case False
    with True net show ?thesis by (simp add: quoteExactInput_def Let_def)
  qed
next
  case False
  then show ?thesis
    by (auto simp: quoteExactInput_def bindR_eq_Inr_iff split: if_splits)
qed

definition net_required :: "int \<Rightarrow> int \<Rightarrow> int \<Rightarrow> int" where
  "net_required rin rout out = ceil_quot (rin * out) (rout - out)"

definition input_required :: "int \<Rightarrow> int \<Rightarrow> int" where
  "input_required net feeBps = ceil_quot (net * 10000) (10000 - feeBps)"

lemma quoteExactOutput_ok_iff:
  "quoteExactOutput rin rout out f = ok q \<longleftrightarrow>
     0 < rin \<and> 0 < rout \<and> 0 < out \<and> out < rout \<and> 0 \<le> f \<and> f < 10000 \<and>
     q = \<lparr>quoteAmountIn = input_required (net_required rin rout out) f, quoteAmountOut = out,
          quoteNetInput = net_required rin rout out,
          quoteFeeAmount = input_required (net_required rin rout out) f - net_required rin rout out\<rparr>"
proof (cases "0 < rin \<and> 0 < rout \<and> 0 < out \<and> out < rout \<and> 0 \<le> f \<and> f < 10000")
  case True
  then have "ceilDiv (rin * out) (rout - out) = ok (net_required rin rout out)"
    by (simp add: net_required_def trading_ceil.cdiv_spec)
  moreover from True have "0 \<le> net_required rin rout out"
    by (simp add: net_required_def ceil_quot_nonneg)
  moreover from this True have "ceilDiv (net_required rin rout out * 10000) (10000 - f)
      = ok (input_required (net_required rin rout out) f)"
    by (simp add: input_required_def trading_ceil.cdiv_spec)
  ultimately show ?thesis using True by (auto simp: quoteExactOutput_def)
next
  case False
  then show ?thesis
    by (auto simp: quoteExactOutput_def bindR_eq_Inr_iff split: if_splits)
qed

lemma net_input_bounds:
  assumes "0 \<le> a" and "0 \<le> f" and "f < 10000"
  shows "0 \<le> net_input a f" and "net_input a f \<le> a"
proof -
  show "0 \<le> net_input a f"
    using assms by (simp add: net_input_def pos_imp_zdiv_nonneg_iff)
  have "a * (10000 - f) \<le> a * 10000"
    using assms by (intro mult_left_mono) auto
  then show "net_input a f \<le> a"
    using zdiv_mono1 [of "a * (10000 - f)" "a * 10000" 10000] by (simp add: net_input_def)
qed

lemma curve_output_bound: "0 < rin + net \<Longrightarrow> curve_output rin rout net * (rin + net) \<le> rout * net"
  by (simp add: curve_output_def div_mult_le_self)

text \<open>
  \<open>net_input\<close>/\<open>input_required\<close> and \<open>curve_output\<close>/\<open>net_required\<close> are the
  two adjoint pairs behind the quotes.
\<close>

lemma input_required_le_iff:
  assumes "0 \<le> f" and "f < 10000"
  shows "input_required net f \<le> a \<longleftrightarrow> net \<le> net_input a f"
proof -
  have "input_required net f \<le> a \<longleftrightarrow> net * 10000 \<le> a * (10000 - f)"
    using assms by (simp add: input_required_def ceil_quot_le_iff)
  also have "\<dots> \<longleftrightarrow> net \<le> net_input a f"
    by (simp add: net_input_def le_div_iff)
  finally show ?thesis .
qed

lemma net_required_le_iff:
  assumes "0 < rin" and "0 \<le> net" and "out < rout"
  shows "net_required rin rout out \<le> net \<longleftrightarrow> out \<le> curve_output rin rout net"
proof -
  have "net_required rin rout out \<le> net \<longleftrightarrow> rin * out \<le> net * (rout - out)"
    using assms by (simp add: net_required_def ceil_quot_le_iff)
  also have "\<dots> \<longleftrightarrow> out * (rin + net) \<le> rout * net"
    by (simp add: algebra_simps)
  also have "\<dots> \<longleftrightarrow> out \<le> curve_output rin rout net"
    using assms by (simp add: curve_output_def le_div_iff)
  finally show ?thesis .
qed

lemma required_le_iff:
  assumes "0 < rin" and "0 \<le> a" and "0 \<le> f" and "f < 10000" and "out < rout"
  shows "input_required (net_required rin rout out) f \<le> a
     \<longleftrightarrow> out \<le> curve_output rin rout (net_input a f)"
  using assms net_input_bounds [of a f] by (simp add: input_required_le_iff net_required_le_iff)

lemma curve_output_less:
  assumes "0 < rin" and "0 < rout" and "0 \<le> net"
  shows "curve_output rin rout net < rout"
proof -
  have "rout * net < rout * (rin + net)" using assms by simp
  then show ?thesis using assms by (simp add: curve_output_def div_less_iff)
qed

interpretation trading_swap: swap_curve "\<lambda>f::int. True"
  "\<lambda>f rin rout a. bindR (quoteExactInput rin rout a f) (\<lambda>q. ok (quoteAmountOut q))"
proof unfold_locales
  fix f rin rout a b :: int
  assume pos: "0 < rin" "0 < rout" "0 < a"
    and "bindR (quoteExactInput rin rout a f) (\<lambda>q. ok (quoteAmountOut q)) = ok b"
  then have f: "0 \<le> f" "f < 10000" and b: "b = curve_output rin rout (net_input a f)" "0 < b"
    by (auto simp: bindR_eq_Inr_iff quoteExactInput_ok_iff)
  have net: "0 \<le> net_input a f" "net_input a f \<le> a"
    using pos f net_input_bounds [of a f] by auto
  have "net_required rin rout b \<le> a"
    using net net_required_le_iff [of rin "net_input a f" b rout] b pos
      curve_output_less [of rin rout "net_input a f"] by simp
  then have "b \<le> curve_output rin rout a"
    using net_required_le_iff [of rin a b rout] pos b
      curve_output_less [of rin rout "net_input a f"] net by simp
  then have "b * (rin + a) \<le> curve_output rin rout a * (rin + a)"
    using pos by (intro mult_right_mono) auto
  also have "\<dots> \<le> rout * a"
    using pos by (intro curve_output_bound) simp
  finally show "0 \<le> b \<and> b * (rin + a) \<le> rout * a" using b by simp
qed

section \<open>Exits\<close>

definition exit_reserves :: "LongOutcome \<Rightarrow> int \<Rightarrow> int \<Rightarrow> int \<times> int" where
  "exit_reserves longOutcome yes no = (if longOutcome = YES then (yes, no) else (no, yes))"

definition exit_cost :: "LongOutcome \<Rightarrow> int \<Rightarrow> int \<Rightarrow> int \<Rightarrow> int \<Rightarrow> int" where
  "exit_cost longOutcome yes no f c =
     (let (rin, rout) = exit_reserves longOutcome yes no
      in c + input_required (net_required rin rout c) f)"

lemma quoteExitPosition_ok_iff:
  "quoteExitPosition lo c yes no f = ok q \<longleftrightarrow>
     0 < yes \<and> 0 < no \<and> 0 < c \<and> c < snd (exit_reserves lo yes no) \<and> 0 \<le> f \<and> f < 10000 \<and>
     q = \<lparr>exitLongOutcome = lo, exitCompleteSetShares = c,
          exitLongSharesSwapped = exit_cost lo yes no f c - c,
          exitTotalLongShares = exit_cost lo yes no f c,
          exitInvalidRequired = c,
          exitFeeAmount = exit_cost lo yes no f c - c
            - net_required (fst (exit_reserves lo yes no)) (snd (exit_reserves lo yes no)) c\<rparr>"
  by (cases lo)
    (auto simp: quoteExitPosition_def bindR_eq_Inr_iff quoteExactOutput_ok_iff exit_cost_def exit_reserves_def)

lemma net_required_mono:
  assumes "0 < rin" and "0 \<le> c" and "c \<le> d" and "d < rout"
  shows "net_required rin rout c \<le> net_required rin rout d"
proof -
  have "0 \<le> net_required rin rout d"
    using assms by (simp add: net_required_def ceil_quot_nonneg)
  moreover from this have "d \<le> curve_output rin rout (net_required rin rout d)"
    using assms net_required_le_iff [of rin "net_required rin rout d" d rout] by simp
  ultimately show ?thesis
    using assms net_required_le_iff [of rin "net_required rin rout d" c rout] by simp
qed

lemma input_required_mono: "m \<le> n \<Longrightarrow> f < 10000 \<Longrightarrow> input_required m f \<le> input_required n f"
  by (simp add: input_required_def ceil_quot_mono)

lemma exit_cost_mono:
  assumes "0 < yes" and "0 < no" and "0 < c" and "c \<le> d" and "d < snd (exit_reserves lo yes no)"
    and "f < 10000"
  shows "exit_cost lo yes no f c \<le> exit_cost lo yes no f d"
proof -
  obtain rin rout where r: "exit_reserves lo yes no = (rin, rout)" by fastforce
  then have "0 < rin" using assms by (auto simp: exit_reserves_def split: if_splits)
  then have "net_required rin rout c \<le> net_required rin rout d"
    using assms r by (intro net_required_mono) auto
  then have "input_required (net_required rin rout c) f \<le> input_required (net_required rin rout d) f"
    using assms by (intro input_required_mono) auto
  with assms r show ?thesis by (simp add: exit_cost_def)
qed

definition exit_valid :: "MaximumExitParameters \<times> int \<Rightarrow> int \<Rightarrow> bool" where
  "exit_valid p c \<longleftrightarrow> 0 < exitYesReserve (fst p) \<and> 0 < exitNoReserve (fst p)
     \<and> 0 \<le> exitFeeBps (fst p) \<and> exitFeeBps (fst p) < 10000
     \<and> c < snd (exit_reserves (maxLongOutcome (fst p)) (exitYesReserve (fst p)) (exitNoReserve (fst p)))"

definition exit_affordable :: "MaximumExitParameters \<times> int \<Rightarrow> int \<Rightarrow> bool" where
  "exit_affordable p c \<longleftrightarrow>
     exit_cost (maxLongOutcome (fst p)) (exitYesReserve (fst p)) (exitNoReserve (fst p)) (exitFeeBps (fst p)) c
       \<le> snd p"

interpretation exit_bisection: bisection exit_valid exit_affordable
  "\<lambda>p low high. exit_search (fst p) (snd p) low high"
proof unfold_locales
  fix p low high
  assume "0 \<le> low" "low < high" "exit_valid p high"
  let ?m = "(low + high + 1) sdiv 2"
  have m: "low < ?m" "?m \<le> high" using bisect_up_bounds [OF \<open>low < high\<close>] by auto
  have "quoteExitPosition (maxLongOutcome (fst p)) ?m (exitYesReserve (fst p)) (exitNoReserve (fst p))
          (exitFeeBps (fst p)) \<noteq> Inl e" for e
  proof
    assume e: "quoteExitPosition (maxLongOutcome (fst p)) ?m (exitYesReserve (fst p))
      (exitNoReserve (fst p)) (exitFeeBps (fst p)) = Inl e"
    show False
      using e m \<open>exit_valid p high\<close> \<open>0 \<le> low\<close>
        quoteExitPosition_ok_iff [of "maxLongOutcome (fst p)" ?m "exitYesReserve (fst p)"
          "exitNoReserve (fst p)" "exitFeeBps (fst p)"]
      by (auto simp: exit_valid_def)
  qed
  then obtain q where q: "quoteExitPosition (maxLongOutcome (fst p)) ?m (exitYesReserve (fst p))
      (exitNoReserve (fst p)) (exitFeeBps (fst p)) = ok q"
    by (meson sumE)
  then have "exitTotalLongShares q \<le> snd p \<longleftrightarrow> exit_affordable p ?m"
    by (auto simp: quoteExitPosition_ok_iff exit_affordable_def)
  with q \<open>low < high\<close> show "exit_search (fst p) (snd p) low high =
      (if exit_affordable p ?m then exit_search (fst p) (snd p) ?m high
       else exit_search (fst p) (snd p) low (?m - 1))"
    by (subst exit_search.simps) (simp add: Let_def)
next
  fix p c d
  assume "exit_valid p c" "exit_affordable p c" "0 < d" "d \<le> c"
  then show "exit_affordable p d"
    using exit_cost_mono [of "exitYesReserve (fst p)" "exitNoReserve (fst p)" d c
      "maxLongOutcome (fst p)" "exitFeeBps (fst p)"]
    by (auto simp: exit_valid_def exit_affordable_def)
qed (auto simp: exit_valid_def exit_search.simps)

lemma input_required_ge: "0 \<le> net \<Longrightarrow> 0 \<le> f \<Longrightarrow> f < 10000 \<Longrightarrow> net \<le> input_required net f"
  using input_required_le_iff [of f net "input_required net f"] net_input_bounds [of "input_required net f" f]
  by (auto simp: input_required_def ceil_quot_nonneg)

text \<open>The reserves a swap of \<open>a\<close> for \<open>b\<close> leaves, as (yes, no).\<close>

definition after_enter :: "LongOutcome \<Rightarrow> int \<Rightarrow> int \<Rightarrow> EnterPositionQuote \<Rightarrow> int \<times> int" where
  "after_enter lo yes no e =
     (if lo = YES then (yes - enterAdditionalLongShares e, no + enterOppositeSharesSwapped e)
      else (yes + enterOppositeSharesSwapped e, no - enterAdditionalLongShares e))"

lemma net_required_after_swap:
  assumes "0 < rin" and "0 < c" and "b * (rin + c) \<le> rout * c"
  shows "b \<le> net_required (rout - b) (rin + c) c"
proof -
  have "b * rin \<le> (rout - b) * c" using assms(3) by (simp add: algebra_simps)
  moreover have "(b - 1) * rin < b * rin" using assms(1) by simp
  ultimately have "(b - 1) * rin < (rout - b) * c" by linarith
  then have "b - 1 < ceil_quot ((rout - b) * c) rin"
    using assms(1) by (simp add: less_ceil_quot_iff)
  then show ?thesis by (simp add: net_required_def)
qed

section \<open>Properties\<close>

text \<open>
  An exact-input quote takes out of the pool the largest amount that keeps the product of
  the reserves over the net input, splits the input into net input and fee, and never empties
  the pool.
\<close>

lemma exact_input_quote_correct:
  assumes "quoteExactInput reserveIn reserveOut amountIn feeBps = ok q"
  shows "0 < quoteAmountOut q \<and> quoteAmountOut q < reserveOut
    \<and> reserveIn * reserveOut \<le> (reserveIn + quoteNetInput q) * (reserveOut - quoteAmountOut q)
    \<and> (reserveIn + quoteNetInput q) * (reserveOut - (quoteAmountOut q + 1)) < reserveIn * reserveOut
    \<and> 0 < quoteNetInput q \<and> 0 \<le> quoteFeeAmount q
    \<and> quoteNetInput q + quoteFeeAmount q = amountIn \<and> quoteAmountIn q = amountIn"
proof -
  note a = assms [unfolded quoteExactInput_ok_iff]
  let ?net = "quoteNetInput q" and ?out = "quoteAmountOut q"
  have pos: "0 < reserveIn + ?net" using a by auto
  have "?out * (reserveIn + ?net) \<le> reserveOut * ?net"
    using a curve_output_bound [of reserveIn ?net reserveOut] by auto
  moreover have "reserveOut * ?net < (?out + 1) * (reserveIn + ?net)"
    using a less_div_succ_mult [OF pos, of "reserveOut * ?net"] by (auto simp: curve_output_def)
  moreover have "?net \<le> amountIn" using a net_input_bounds [of amountIn feeBps] by auto
  ultimately show ?thesis using a by (auto simp: algebra_simps)
qed

lemma exact_input_quote_example:
  "quoteExactInput 1000 2000 100 30 = ok \<lparr>quoteAmountIn = 100, quoteAmountOut = 180,
     quoteNetInput = 99, quoteFeeAmount = 1\<rparr>"
  by (simp add: quoteExactInput_ok_iff net_input_def curve_output_def)

lemma exact_input_quote_correct_example:
  "(1000::int) * 2000 \<le> (1000 + 99) * (2000 - 180) \<and> (1000 + 99) * (2000 - (180 + 1)) < (1000::int) * 2000"
  using exact_input_quote_correct [OF exact_input_quote_example] by simp

text \<open>
  C16: the exact-output quote is the least input whose exact-input quote yields at least the
  requested output, fee and both roundings included.
\<close>

theorem exact_output_is_least_input:
  assumes "quoteExactOutput reserveIn reserveOut amountOut feeBps = ok q" and "0 < a"
  shows "(\<exists>q'. quoteExactInput reserveIn reserveOut a feeBps = ok q' \<and> amountOut \<le> quoteAmountOut q')
     \<longleftrightarrow> quoteAmountIn q \<le> a"
proof -
  note q = assms(1) [unfolded quoteExactOutput_ok_iff]
  have net: "0 \<le> net_input a feeBps" using q assms(2) net_input_bounds [of a feeBps] by auto
  have out: "0 < curve_output reserveIn reserveOut n \<Longrightarrow> 0 \<le> n \<Longrightarrow> 0 < n" for n
    by (cases "n = 0") (auto simp: curve_output_def)
  have "quoteAmountIn q \<le> a \<longleftrightarrow> amountOut \<le> curve_output reserveIn reserveOut (net_input a feeBps)"
    using q assms(2) required_le_iff [of reserveIn a feeBps amountOut reserveOut] by auto
  then show ?thesis
    using q assms(2) net curve_output_less [of reserveIn reserveOut "net_input a feeBps"]
      out [of "net_input a feeBps"]
    by (auto simp: quoteExactInput_ok_iff)
qed

theorem exact_output_is_least_input_witness:
  "\<not> (\<exists>q'. quoteExactInput 1000 2000 99 30 = ok q' \<and> 180 \<le> quoteAmountOut q')"
proof -
  have q: "quoteExactOutput 1000 2000 180 30 = ok \<lparr>quoteAmountIn = 100, quoteAmountOut = 180,
      quoteNetInput = 99, quoteFeeAmount = 1\<rparr>"
    by (simp add: quoteExactOutput_ok_iff net_required_def input_required_def ceil_quot_def)
  show ?thesis using exact_output_is_least_input [OF q, of 99] by simp
qed

text \<open>
  C17: with valid reserves and fee, \<open>maximumInsuredExit\<close> always returns, and returns the
  largest number of complete sets the holder can leave with: the Invalid balance and the
  available long shares pay for it, and for no larger number.
\<close>

theorem maximum_insured_exit_greatest:
  assumes "0 < exitYesReserve p" and "0 < exitNoReserve p" and "0 \<le> exitFeeBps p" and "exitFeeBps p < 10000"
  shows "\<exists>r. maximumInsuredExit p = ok r \<and> 0 \<le> r
    \<and> (0 < r \<longrightarrow> r \<le> invalidBalance p
        \<and> (\<exists>q. quoteExitPosition (maxLongOutcome p) r (exitYesReserve p) (exitNoReserve p) (exitFeeBps p) = ok q
               \<and> exitTotalLongShares q \<le> maximum_long p))
    \<and> (\<forall>c q. r < c \<and> c \<le> invalidBalance p
          \<and> quoteExitPosition (maxLongOutcome p) c (exitYesReserve p) (exitNoReserve p) (exitFeeBps p) = ok q
        \<longrightarrow> maximum_long p < exitTotalLongShares q)"
proof -
  let ?opp = "snd (exit_reserves (maxLongOutcome p) (exitYesReserve p) (exitNoReserve p))"
  let ?high = "if invalidBalance p < ?opp then invalidBalance p else ?opp - 1"
  have opp: "?opp = (if maxLongOutcome p = YES then exitNoReserve p else exitYesReserve p)"
    by (simp add: exit_reserves_def)
  have run: "maximumInsuredExit p = (if ?high < 0 then ok 0 else exit_search p (maximum_long p) 0 ?high)"
    using assms opp by (auto simp: maximumInsuredExit_def Let_def)
  show ?thesis
  proof (cases "?high < 0")
    case True
    with run have "maximumInsuredExit p = ok 0" by simp
    with True assms opp show ?thesis
      by (auto simp: quoteExitPosition_ok_iff split: if_splits)
  next
    case False
    have "exit_valid (p, maximum_long p) ?high"
      using assms by (auto simp: exit_valid_def)
    then obtain r where r: "exit_search p (maximum_long p) 0 ?high = ok r" "0 \<le> r" "r \<le> ?high"
      "0 < r \<longrightarrow> exit_affordable (p, maximum_long p) r"
      "\<forall>c. r < c \<and> c \<le> ?high \<longrightarrow> \<not> exit_affordable (p, maximum_long p) c"
      using exit_bisection.finds_greatest [of 0 ?high "(p, maximum_long p)"] False by auto
    moreover have "c \<le> ?high" if "c < ?opp" "c \<le> invalidBalance p" for c
      using that by auto
    ultimately show ?thesis
      using assms run False
      by (intro exI [of _ r]) (auto simp: quoteExitPosition_ok_iff exit_affordable_def split: if_splits)
  qed
qed

definition exit_example :: MaximumExitParameters where
  "exit_example = \<lparr>maxLongOutcome = YES, longBalance = 100, invalidBalance = 80,
     exitYesReserve = 1000, exitNoReserve = 1000, exitFeeBps = 30, maximumLongInput = None\<rparr>"

theorem maximum_insured_exit_greatest_witness:
  "\<exists>r. maximumInsuredExit exit_example = ok r \<and> 0 \<le> r"
  using maximum_insured_exit_greatest [of exit_example] by (auto simp: exit_example_def)

text \<open>
  Entering a position and leaving it again with the same number of complete sets, in the
  pool the entry left behind and at any fee, costs at least the long shares the entry gave: the
  round trip never pays.
\<close>

lemma enter_exit_no_profit:
  assumes enter: "quoteEnterPosition lo c yes no f = ok e"
    and leave: "quoteExitPosition lo c (fst (after_enter lo yes no e)) (snd (after_enter lo yes no e)) g = ok x"
  shows "enterTotalLongShares e \<le> exitTotalLongShares x"
proof -
  obtain rin rout where r: "exit_reserves lo yes no = (rout, rin)" by fastforce
  from enter r obtain q where q: "quoteExactInput rin rout c f = ok q"
    and e: "enterAdditionalLongShares e = quoteAmountOut q" "enterTotalLongShares e = c + quoteAmountOut q"
      "enterOppositeSharesSwapped e = c"
    by (cases lo) (auto simp: quoteEnterPosition_def bindR_eq_Inr_iff exit_reserves_def)
  let ?b = "quoteAmountOut q"
  have pos: "0 < rin" "0 < rout" "0 < c" using q by (auto simp: quoteExactInput_ok_iff)
  then have "?b * (rin + c) \<le> rout * c"
    using trading_swap.swap_bound [where f = f and rin = rin and rout = rout and a = c and b = ?b] q by simp
  then have b: "?b \<le> net_required (rout - ?b) (rin + c) c"
    using pos by (intro net_required_after_swap)
  have "exit_reserves lo (fst (after_enter lo yes no e)) (snd (after_enter lo yes no e)) = (rout - ?b, rin + c)"
    using r e by (cases lo) (auto simp: exit_reserves_def after_enter_def)
  then have "exitTotalLongShares x = c + input_required (net_required (rout - ?b) (rin + c) c) g"
    and g: "0 \<le> g" "g < 10000"
    using leave by (auto simp: quoteExitPosition_ok_iff exit_cost_def)
  moreover have "0 \<le> ?b" using q by (auto simp: quoteExactInput_ok_iff)
  ultimately show ?thesis
    using b e input_required_ge [of "net_required (rout - ?b) (rin + c) c" g] by simp
qed

lemma enter_exit_no_profit_example:
  "\<exists>e x. quoteEnterPosition YES 100 2000 1000 30 = ok e
     \<and> quoteExitPosition YES 100 (fst (after_enter YES 2000 1000 e)) (snd (after_enter YES 2000 1000 e)) 30 = ok x
     \<and> enterTotalLongShares e \<le> exitTotalLongShares x"
proof -
  obtain e where e: "quoteEnterPosition YES 100 2000 1000 30 = ok e"
    and a: "after_enter YES 2000 1000 e = (1820, 1100)"
    using exact_input_quote_example by (auto simp: quoteEnterPosition_def after_enter_def)
  obtain x where x: "quoteExitPosition YES 100 1820 1100 30 = ok x"
    by (auto simp: quoteExitPosition_ok_iff exit_reserves_def)
  from e x a enter_exit_no_profit [OF e, of 30 x] show ?thesis by auto
qed

text \<open>
  Liquidity quotes never use more than the depositor offered and keep the pool's ratio from
  above; a withdrawal of at most the LP supply pays out at most the reserves; initial liquidity
  returns every share it does not use and the full Invalid insurance.
\<close>

lemma liquidity_quotes_bounded:
  assumes "quoteAddLiquidity yes no maxYes maxNo = ok q" and "0 \<le> maxYes" and "0 \<le> maxNo"
    and "quoteRemoveLiquidity yes no liquidity lpTotal = ok (yesOut, noOut)" and "0 \<le> liquidity" and "liquidity \<le> lpTotal"
    and "quoteInitialLiquidity sets bps = ok i"
  shows "0 \<le> addYesUsed q \<and> addYesUsed q \<le> maxYes \<and> 0 \<le> addNoUsed q \<and> addNoUsed q \<le> maxNo
    \<and> addYesUsed q + addYesReturned q = maxYes \<and> addNoUsed q + addNoReturned q = maxNo
    \<and> (addYesUsed q = maxYes \<and> addNoUsed q * yes \<le> addYesUsed q * no
       \<or> addNoUsed q = maxNo \<and> addYesUsed q * no \<le> addNoUsed q * yes)
    \<and> 0 \<le> yesOut \<and> yesOut \<le> yes \<and> 0 \<le> noOut \<and> noOut \<le> no
    \<and> yesOut * lpTotal \<le> yes * liquidity \<and> noOut * lpTotal \<le> no * liquidity
    \<and> 0 < initYesUsed i \<and> initYesUsed i \<le> sets \<and> 0 < initNoUsed i \<and> initNoUsed i \<le> sets
    \<and> initYesUsed i + initYesReturned i = sets \<and> initNoUsed i + initNoReturned i = sets
    \<and> initInvalidReturned i = sets"
proof -
  have pos: "0 < yes" "0 < no" and q: "q = (let yesLimited = maxYes * no \<le> maxNo * yes;
         yesUsed = (if yesLimited then maxYes else (maxNo * yes) sdiv no);
         noUsed = (if yesLimited then (maxYes * no) sdiv yes else maxNo)
     in \<lparr>addYesUsed = yesUsed, addNoUsed = noUsed, addYesReturned = maxYes - yesUsed, addNoReturned = maxNo - noUsed\<rparr>)"
    using assms(1) by (auto simp: quoteAddLiquidity_def bindR_eq_Inr_iff Let_def)
  have add: "0 \<le> a * c div b \<and> (a * c div b) * b \<le> a * c" if "0 \<le> a" "0 < b" "0 < c" for a b c :: int
    using that by (simp add: pos_imp_zdiv_nonneg_iff div_mult_le_self)
  have "0 \<le> addYesUsed q \<and> addYesUsed q \<le> maxYes \<and> 0 \<le> addNoUsed q \<and> addNoUsed q \<le> maxNo
    \<and> addYesUsed q + addYesReturned q = maxYes \<and> addNoUsed q + addNoReturned q = maxNo
    \<and> (addYesUsed q = maxYes \<and> addNoUsed q * yes \<le> addYesUsed q * no
       \<or> addNoUsed q = maxNo \<and> addYesUsed q * no \<le> addNoUsed q * yes)"
  proof (cases "maxYes * no \<le> maxNo * yes")
    case True
    then have "maxYes * no div yes \<le> maxNo"
      using pos zdiv_mono1 [of "maxYes * no" "maxNo * yes" yes] by simp
    with True pos assms(2,3) q add [of maxYes yes no] show ?thesis
      by (simp add: Let_def sdiv_nonneg)
  next
    case False
    then have "maxNo * yes div no \<le> maxYes"
      using pos zdiv_mono1 [of "maxNo * yes" "maxYes * no" no] by simp
    with False pos assms(2,3) q add [of maxNo no yes] show ?thesis
      by (simp add: Let_def sdiv_nonneg)
  qed
  moreover
  have s: "0 < lpTotal" and out: "yesOut = (yes * liquidity) div lpTotal" "noOut = (no * liquidity) div lpTotal"
    using assms(4,5) pos by (auto simp: quoteRemoveLiquidity_def bindR_eq_Inr_iff sdiv_nonneg)
  have part: "r * liquidity div lpTotal \<le> r" if "0 < r" for r :: int
  proof -
    have "r * liquidity \<le> r * lpTotal" using that assms(6) by simp
    then show ?thesis using s zdiv_mono1 [of "r * liquidity" "r * lpTotal" lpTotal] by simp
  qed
  have "0 \<le> yesOut \<and> yesOut \<le> yes \<and> 0 \<le> noOut \<and> noOut \<le> no
    \<and> yesOut * lpTotal \<le> yes * liquidity \<and> noOut * lpTotal \<le> no * liquidity"
    using out s pos assms(5) part [of yes] part [of no] by (simp add: pos_imp_zdiv_nonneg_iff div_mult_le_self)
  moreover
  have scaled: "0 \<le> a * c div b \<and> a * c div b \<le> a" if "0 < a" "0 \<le> c" "c \<le> b" "0 < b" for a b c :: int
  proof -
    have "a * c \<le> a * b" using that by simp
    then show ?thesis using that zdiv_mono1 [of "a * c" "a * b" b] by (simp add: pos_imp_zdiv_nonneg_iff)
  qed
  have "0 < initYesUsed i \<and> initYesUsed i \<le> sets \<and> 0 < initNoUsed i \<and> initNoUsed i \<le> sets
    \<and> initYesUsed i + initYesReturned i = sets \<and> initNoUsed i + initNoReturned i = sets
    \<and> initInvalidReturned i = sets"
    using assms(7) scaled [of sets "10000 - bps" bps] scaled [of sets bps "10000 - bps"]
    by (auto simp: quoteInitialLiquidity_def bindR_eq_Inr_iff Let_def sdiv_nonneg split: if_splits)
  ultimately show ?thesis by simp
qed

lemma liquidity_quotes_bounded_example:
  "\<exists>q i. quoteAddLiquidity 300 200 60 50 = ok q \<and> quoteRemoveLiquidity 300 200 10 100 = ok (30, 20)
     \<and> quoteInitialLiquidity 100 6000 = ok i \<and> addNoUsed q \<le> 50 \<and> initYesUsed i \<le> 100"
proof -
  obtain q where q: "quoteAddLiquidity 300 200 60 50 = ok q"
    by (simp add: quoteAddLiquidity_def Let_def)
  have r: "quoteRemoveLiquidity 300 200 10 100 = ok (30, 20)"
    by (simp add: quoteRemoveLiquidity_def sdiv_nonneg)
  obtain i where i: "quoteInitialLiquidity 100 6000 = ok i"
    by (auto simp: quoteInitialLiquidity_def Let_def sdiv_nonneg)
  from liquidity_quotes_bounded [OF q _ _ r _ _ i] q r i show ?thesis by auto
qed

end
