(* ===== verification/Js_Strings.thy ===== *)
theory Js_Strings
  imports Zoltar_Prelude "HOL-Library.List_Lexorder" "HOL-Library.Product_Lexorder"
begin

text \<open>
  The string operations of the modelled code, on ASCII strings: \<open>toLowerCase\<close>,
  \<open>BigInt.prototype.toString\<close>, \<open>padStart\<close>, \<open>padEnd\<close> and the removal of
  trailing zeros by \<open>replace(/0+$/, '')\<close>. Addresses, hashes and source identifiers are
  ASCII in the system, so a string is a \<open>char list\<close>.
\<close>

section \<open>Lower case\<close>

definition lower_char :: "char \<Rightarrow> char" where
  "lower_char c = (if 65 \<le> (of_char c :: nat) \<and> (of_char c :: nat) \<le> 90 then char_of (of_char c + (32::nat)) else c)"

definition toLowerCase :: "string \<Rightarrow> string" where
  "toLowerCase s = map lower_char s"

lemma of_char_less_256: "(of_char c :: nat) < 256"
  by (metis of_char_mod_256 mod_less_divisor zero_less_numeral)

lemma lower_char_idem [simp]: "lower_char (lower_char c) = lower_char c"
proof (cases "65 \<le> (of_char c :: nat) \<and> (of_char c :: nat) \<le> 90")
  case True
  then have "(of_char (lower_char c) :: nat) = of_char c + 32"
    by (simp add: lower_char_def)
  with True show ?thesis by (subst lower_char_def) simp
next
  case False
  then have "lower_char c = c" by (auto simp: lower_char_def)
  then show ?thesis by simp
qed

lemma toLowerCase_idem [simp]: "toLowerCase (toLowerCase s) = toLowerCase s"
  by (simp add: toLowerCase_def)

lemma toLowerCase_Nil [simp]: "toLowerCase [] = []"
  by (simp add: toLowerCase_def)

lemma length_toLowerCase [simp]: "length (toLowerCase s) = length s"
  by (simp add: toLowerCase_def)

text \<open>Case-insensitive equality, the comparison of addresses all over the code base.\<close>

definition sameText :: "string \<Rightarrow> string \<Rightarrow> bool" where
  "sameText a b \<longleftrightarrow> toLowerCase a = toLowerCase b"

lemma sameText_refl [simp]: "sameText a a"
  and sameText_sym: "sameText a b \<Longrightarrow> sameText b a"
  and sameText_trans: "sameText a b \<Longrightarrow> sameText b c \<Longrightarrow> sameText a c"
  by (simp_all add: sameText_def)

section \<open>Decimal digits\<close>

definition digit_char :: "nat \<Rightarrow> char" where
  "digit_char d = char_of (48 + d)"

definition digit_value :: "char \<Rightarrow> nat" where
  "digit_value c = of_char c - 48"

definition is_digit :: "char \<Rightarrow> bool" where
  "is_digit c \<longleftrightarrow> 48 \<le> (of_char c :: nat) \<and> (of_char c :: nat) \<le> 57"

lemma digit_value_char [simp]: "d < 10 \<Longrightarrow> digit_value (digit_char d) = d"
  by (simp add: digit_value_def digit_char_def)

lemma is_digit_char [simp]: "d < 10 \<Longrightarrow> is_digit (digit_char d)"
  by (simp add: is_digit_def digit_char_def)

lemma digit_char_inject: "a < 10 \<Longrightarrow> b < 10 \<Longrightarrow> digit_char a = digit_char b \<longleftrightarrow> a = b"
  by (metis digit_value_char)

fun nat_digits :: "nat \<Rightarrow> string" where
  "nat_digits n = (if n < 10 then [digit_char n] else nat_digits (n div 10) @ [digit_char (n mod 10)])"

declare nat_digits.simps [simp del]

definition digits_value :: "string \<Rightarrow> nat" where
  "digits_value s = foldl (\<lambda>v c. 10 * v + digit_value c) 0 s"

lemma digits_value_Nil [simp]: "digits_value [] = 0"
  by (simp add: digits_value_def)

lemma digits_value_snoc [simp]: "digits_value (s @ [c]) = 10 * digits_value s + digit_value c"
  by (simp add: digits_value_def)

lemma digits_value_nat_digits [simp]: "digits_value (nat_digits n) = n"
proof (induction n rule: nat_digits.induct)
  case (1 n)
  show ?case
  proof (cases "n < 10")
    case True
    then show ?thesis
      using digits_value_snoc [of "[]" "digit_char n"] by (subst nat_digits.simps) simp
  next
    case False
    with "1.IH" have "digits_value (nat_digits (n div 10)) = n div 10" by simp
    with False show ?thesis by (subst nat_digits.simps) simp
  qed
qed

lemma nat_digits_not_Nil [simp]: "nat_digits n \<noteq> []"
  by (subst nat_digits.simps) simp

lemma nat_digits_digits: "c \<in> set (nat_digits n) \<Longrightarrow> is_digit c"
proof (induction n rule: nat_digits.induct)
  case (1 n)
  then show ?case by (subst (asm) (2) nat_digits.simps) (auto split: if_splits)
qed

lemma digits_value_append:
  "digits_value (s @ t) = digits_value s * 10 ^ length t + digits_value t"
proof (induction t rule: rev_induct)
  case Nil
  then show ?case by simp
next
  case (snoc c t)
  have "digits_value (s @ t @ [c]) = 10 * digits_value (s @ t) + digit_value c"
    using digits_value_snoc [of "s @ t" c] by simp
  with snoc show ?case by (simp add: algebra_simps)
qed

text \<open>\<open>String(value)\<close> of a bigint.\<close>

definition bigint_to_string :: "int \<Rightarrow> string" where
  "bigint_to_string i = (if i < 0 then ''-'' @ nat_digits (nat (- i)) else nat_digits (nat i))"

section \<open>Padding and trimming\<close>

definition padStart :: "nat \<Rightarrow> char \<Rightarrow> string \<Rightarrow> string" where
  "padStart n c s = replicate (n - length s) c @ s"

definition padEnd :: "nat \<Rightarrow> char \<Rightarrow> string \<Rightarrow> string" where
  "padEnd n c s = s @ replicate (n - length s) c"

definition strip_trailing :: "char \<Rightarrow> string \<Rightarrow> string" where
  "strip_trailing z s = rev (dropWhile (\<lambda>c. c = z) (rev s))"

abbreviation strip_trailing_zeros :: "string \<Rightarrow> string" where
  "strip_trailing_zeros \<equiv> strip_trailing (CHR ''0'')"

lemma digit_value_zero [simp]: "digit_value (CHR ''0'') = 0"
  by (simp add: digit_value_def)

lemma digits_value_replicate_zero [simp]: "digits_value (replicate n (CHR ''0'')) = 0"
proof (induction n)
  case (Suc n)
  then show ?case
    using digits_value_snoc [of "replicate n (CHR ''0'')" "CHR ''0''"]
    by (simp add: replicate_append_same [symmetric])
qed simp

lemma digits_value_padStart [simp]: "digits_value (padStart n (CHR ''0'') s) = digits_value s"
  by (simp add: padStart_def digits_value_append)

lemma length_padStart: "length (padStart n c s) = max n (length s)"
  by (simp add: padStart_def)

lemma digits_value_padEnd: "digits_value (padEnd n (CHR ''0'') s) = digits_value s * 10 ^ (n - length s)"
  by (simp add: padEnd_def digits_value_append)

lemma length_padEnd: "length (padEnd n c s) = max n (length s)"
  by (simp add: padEnd_def)

lemma dropWhile_zeros: "\<exists>k. s = replicate k c @ dropWhile (\<lambda>x. x = c) s"
proof (induction s)
  case (Cons x s)
  then obtain k where "s = replicate k c @ dropWhile (\<lambda>x. x = c) s" by blast
  then show ?case
    by (cases "x = c") (auto intro: exI [of _ "Suc k"] exI [of _ 0])
qed simp

text \<open>Padding a trimmed fraction back to its width restores it.\<close>

lemma strip_trailing_decomp: "\<exists>k. s = strip_trailing z s @ replicate k z"
proof -
  obtain k where "rev s = replicate k z @ dropWhile (\<lambda>c. c = z) (rev s)"
    using dropWhile_zeros [of "rev s" z] by blast
  then have "rev (rev s) = rev (replicate k z @ dropWhile (\<lambda>c. c = z) (rev s))"
    by (rule arg_cong)
  then show ?thesis by (auto simp: strip_trailing_def)
qed

lemma padEnd_strip_trailing: "padEnd (length s) z (strip_trailing z s) = s"
proof -
  obtain k where k: "s = strip_trailing z s @ replicate k z"
    using strip_trailing_decomp [of s z] by blast
  then have "length s = length (strip_trailing z s) + k"
    by (metis length_append length_replicate)
  with k show ?thesis by (simp add: padEnd_def)
qed

lemma strip_trailing_last:
  assumes "strip_trailing z s \<noteq> []"
  shows "last (strip_trailing z s) \<noteq> z"
proof -
  let ?d = "dropWhile (\<lambda>c. c = z) (rev s)"
  from assms have "?d \<noteq> []" by (simp add: strip_trailing_def)
  then have "hd ?d \<noteq> z" by (rule hd_dropWhile)
  with \<open>?d \<noteq> []\<close> show ?thesis by (simp add: strip_trailing_def last_rev)
qed

lemma length_nat_digits_le: "n < 10 ^ k \<Longrightarrow> 0 < k \<Longrightarrow> length (nat_digits n) \<le> k"
proof (induction k arbitrary: n)
  case (Suc k)
  show ?case
  proof (cases "n < 10")
    case True
    then show ?thesis by (subst nat_digits.simps) simp
  next
    case False
    with Suc.prems have "0 < k" and "n div 10 < 10 ^ k"
      by (auto intro: Nat.gr0I simp: div_less_iff_less_mult mult.commute)
    then have "length (nat_digits (n div 10)) \<le> k" by (rule Suc.IH [rotated])
    with False show ?thesis by (subst nat_digits.simps) simp
  qed
qed simp

section \<open>Collation\<close>

text \<open>
  \<open>localeCompare\<close> on strings of digits and letters (the addresses and identifiers it is
  applied to): digits before letters, letters without regard to case; equal so far, the first
  difference in case decides, lower case first.
\<close>

definition is_upper_char :: "char \<Rightarrow> bool" where
  "is_upper_char c \<longleftrightarrow> 65 \<le> (of_char c :: nat) \<and> (of_char c :: nat) \<le> 90"

definition collation_key :: "string \<Rightarrow> nat list \<times> bool list" where
  "collation_key s = (map (\<lambda>c. of_char (lower_char c)) s, map is_upper_char s)"

definition localeCompare :: "string \<Rightarrow> string \<Rightarrow> int" where
  "localeCompare a b = order_sign (collation_key a) (collation_key b)"

lemma localeCompare_le_iff: "localeCompare a b \<le> 0 \<longleftrightarrow> collation_key a \<le> collation_key b"
  by (simp add: localeCompare_def)

interpretation locale_compare: comparator localeCompare
  by (rule comparator_by_key [of _ collation_key]) (rule localeCompare_le_iff)

section \<open>White space and parsing\<close>

text \<open>\<open>trim()\<close> removes white space and line terminators at both ends.\<close>

definition is_space :: "char \<Rightarrow> bool" where
  "is_space c \<longleftrightarrow> (of_char c :: nat) \<in> {9, 10, 11, 12, 13, 32, 160}"

definition trim :: "string \<Rightarrow> string" where
  "trim s = rev (dropWhile is_space (rev (dropWhile is_space s)))"

lemma trim_Nil [simp]: "trim [] = []"
  by (simp add: trim_def)

definition is_hex_digit :: "char \<Rightarrow> bool" where
  "is_hex_digit c \<longleftrightarrow> is_digit c \<or> (97 \<le> (of_char (lower_char c) :: nat) \<and> (of_char (lower_char c) :: nat) \<le> 102)"

definition hex_digit_value :: "char \<Rightarrow> nat" where
  "hex_digit_value c = (if is_digit c then digit_value c else of_char (lower_char c) - 87)"

text \<open>The value of a digit string in a base, the digits' values given.\<close>

definition radix_value :: "nat \<Rightarrow> string \<Rightarrow> nat" where
  "radix_value base s = foldl (\<lambda>v c. base * v + hex_digit_value c) 0 s"

text \<open>
  \<open>BigInt(text)\<close>: optional white space, then nothing (zero), a decimal integer with an
  optional sign, or an unsigned hexadecimal, octal or binary literal; anything else throws.
\<close>

definition all_digits :: "string \<Rightarrow> bool" where
  "all_digits s \<longleftrightarrow> s \<noteq> [] \<and> list_all is_digit s"

definition bigint_of_string :: "string \<Rightarrow> int result" where
  "bigint_of_string text =
     (let s = trim text; low = toLowerCase (take 2 s); body = drop 2 s in
      if s = [] then ok 0
      else if all_digits s then ok (int (digits_value s))
      else if hd s = CHR ''-'' \<and> all_digits (tl s) then ok (- int (digits_value (tl s)))
      else if hd s = CHR ''+'' \<and> all_digits (tl s) then ok (int (digits_value (tl s)))
      else if low = ''0x'' \<and> body \<noteq> [] \<and> list_all is_hex_digit body then ok (int (radix_value 16 body))
      else if low = ''0o'' \<and> body \<noteq> [] \<and> list_all (\<lambda>c. is_digit c \<and> digit_value c < 8) body then ok (int (radix_value 8 body))
      else if low = ''0b'' \<and> body \<noteq> [] \<and> list_all (\<lambda>c. is_digit c \<and> digit_value c < 2) body then ok (int (radix_value 2 body))
      else Inl (SyntaxError text))"

lemma not_space_digit: "is_digit c \<Longrightarrow> \<not> is_space c"
  by (auto simp: is_digit_def is_space_def)

lemma trim_digits: "all_digits s \<Longrightarrow> trim s = s"
proof -
  assume s: "all_digits s"
  then have "dropWhile is_space s = s"
    by (cases s) (auto simp: all_digits_def not_space_digit)
  moreover from s have "dropWhile is_space (rev s) = rev s"
    by (cases s rule: rev_cases) (auto simp: all_digits_def not_space_digit)
  ultimately show ?thesis by (simp add: trim_def)
qed

lemma all_digits_nat_digits [simp]: "all_digits (nat_digits n)"
  by (auto simp: all_digits_def list_all_iff nat_digits_digits)

text \<open>Printing a non-negative bigint and reading it back.\<close>

lemma bigint_of_string_nat_digits [simp]: "bigint_of_string (nat_digits n) = ok (int n)"
  by (simp add: bigint_of_string_def trim_digits Let_def)

text \<open>
  A decimal number with at most the given count of fractional digits, as the code's patterns
  \<open>/^\d+(?:\.\d{1,n})?$/\<close> accept it, split at the point.
\<close>

definition whole_part :: "string \<Rightarrow> string" where
  "whole_part s = takeWhile (\<lambda>c. c \<noteq> CHR ''.'') s"

definition fraction_part :: "string \<Rightarrow> string" where
  "fraction_part s = takeWhile (\<lambda>c. c \<noteq> CHR ''.'') (drop 1 (dropWhile (\<lambda>c. c \<noteq> CHR ''.'') s))"

definition is_decimal :: "nat \<Rightarrow> string \<Rightarrow> bool" where
  "is_decimal n s \<longleftrightarrow> all_digits (whole_part s) \<and>
     (s = whole_part s \<or>
      (all_digits (fraction_part s) \<and> length (fraction_part s) \<le> n \<and> s = whole_part s @ ''.'' @ fraction_part s))"

section \<open>Parts of a text\<close>

text \<open>\<open>text.includes(part)\<close>.\<close>

fun text_includes :: "string \<Rightarrow> string \<Rightarrow> bool" where
  "text_includes [] part \<longleftrightarrow> part = []"
| "text_includes (c # cs) part \<longleftrightarrow> take (length part) (c # cs) = part \<or> text_includes cs part"

definition has_prefix :: "string \<Rightarrow> string \<Rightarrow> bool" where
  "has_prefix part s \<longleftrightarrow> take (length part) s = part"

definition strip_prefix :: "string \<Rightarrow> string \<Rightarrow> string" where
  "strip_prefix part s = (if has_prefix part s then drop (length part) s else s)"

text \<open>\<open>text.split(part).join(replacement)\<close>, for a part that is not empty.\<close>

function replace_all :: "string \<Rightarrow> string \<Rightarrow> string \<Rightarrow> string" where
  "replace_all part replacement s =
     (if part = [] then s else
      case s of [] \<Rightarrow> []
      | c # cs \<Rightarrow>
          if has_prefix part s then replacement @ replace_all part replacement (drop (length part) s)
          else c # replace_all part replacement cs)"
  by pat_completeness auto
termination by (relation "measure (\<lambda>(_, _, s). length s)") auto

declare replace_all.simps [simp del]

definition join_with :: "string \<Rightarrow> string list \<Rightarrow> string" where
  "join_with separator parts = (case parts of [] \<Rightarrow> [] | part # rest \<Rightarrow> part @ concat (map ((@) separator) rest))"

end
