(* ===== verification/Escalation_Math.thy ===== *)
theory Escalation_Math
  imports Zoltar_Prelude
begin

text \<open>
  The escalation game's arithmetic, \<open>shared/ts/escalationMath.ts\<close>: the attrition cost curve
  (a fixed-point exponential between the start bond and the non-decision threshold), its inverse,
  the projection of a deposit onto the three outcome balances, and the claim of a winning deposit.
  A balance tuple is \<open>(invalid, yes, no)\<close>. The normalisation loop of the logarithm does not
  end for every argument, so it is a \<open>partial_function (option)\<close>, where \<open>None\<close> is
  non-termination.
\<close>

section \<open>Balances and the cost curve\<close>

datatype EscalationOutcomeKey = OutcomeInvalid | OutcomeYes | OutcomeNo

type_synonym EscalationBalanceTuple = "int \<times> int \<times> int"

definition ESCALATION_TIME_LENGTH :: int where
  [simp]: "ESCALATION_TIME_LENGTH = 4233600"

definition SCALE :: int where
  [simp]: "SCALE = 1000000"

definition LN2_SCALED :: int where
  [simp]: "LN2_SCALED = 693147"

definition MAX_ATANH_ITERATIONS :: int where
  [simp]: "MAX_ATANH_ITERATIONS = 16"

fun getEscalationBindingCapitalAttoRep :: "EscalationBalanceTuple \<Rightarrow> int" where
  "getEscalationBindingCapitalAttoRep (invalid, yes, no) =
     (if (invalid \<ge> yes \<and> invalid \<le> no) \<or> (invalid \<ge> no \<and> invalid \<le> yes) then invalid
      else if (yes \<ge> invalid \<and> yes \<le> no) \<or> (yes \<ge> no \<and> yes \<le> invalid) then yes
      else no)"

function atanh_loop :: "int \<Rightarrow> int \<Rightarrow> int \<Rightarrow> int \<Rightarrow> int" where
  "atanh_loop z2 iteration term atanhScaled =
     (if iteration < MAX_ATANH_ITERATIONS then
        let term' = (term * z2 * (2 * iteration - 1)) sdiv ((2 * iteration + 1) * SCALE) in
        if term' = 0 then atanhScaled
        else atanh_loop z2 (iteration + 1) term' (atanhScaled + term')
      else atanhScaled)"
  by pat_completeness auto
termination
  by (relation "measure (\<lambda>(z2, iteration, t, a). nat (MAX_ATANH_ITERATIONS - iteration))") auto

declare atanh_loop.simps [simp del]

definition computeAtanhScaled :: "int \<Rightarrow> int" where
  "computeAtanhScaled z = (let z2 = (z * z) sdiv SCALE in atanh_loop z2 1 z z)"

partial_function (option) normalize_low :: "int \<Rightarrow> int \<Rightarrow> int \<Rightarrow> (int \<times> int) option" where
  "normalize_low highValue normalizedLow log2Count =
     (if highValue \<ge> normalizedLow * 2 then normalize_low highValue (normalizedLow * 2) (log2Count + 1)
      else Some (normalizedLow, log2Count))"

definition computeLnRatioScaled :: "int \<Rightarrow> int \<Rightarrow> int result option" where
  "computeLnRatioScaled lowValue highValue =
     map_option (\<lambda>(normalizedLow, log2Count).
       let diff = highValue - normalizedLow; total = highValue + normalizedLow in
       bindR (bigDiv (diff * SCALE) total) (\<lambda>z.
       if z = 0 then ok (log2Count * LN2_SCALED)
       else ok (log2Count * LN2_SCALED + 2 * computeAtanhScaled z)))
     (normalize_low highValue lowValue 0)"

function exp_loop :: "int \<Rightarrow> int \<Rightarrow> int \<Rightarrow> int \<Rightarrow> int" where
  "exp_loop exponentRemainder iteration term expScaled =
     (if iteration < MAX_ATANH_ITERATIONS then
        let term' = (term * exponentRemainder) sdiv (iteration * SCALE) in
        if term' = 0 then expScaled
        else exp_loop exponentRemainder (iteration + 1) term' (expScaled + term')
      else expScaled)"
  by pat_completeness auto
termination
  by (relation "measure (\<lambda>(e, iteration, t, a). nat (MAX_ATANH_ITERATIONS - iteration))") auto

declare exp_loop.simps [simp del]

text \<open>
  \<open>x << n\<close> on bigints multiplies by \<open>2^n\<close>; for a negative \<open>n\<close> it shifts right,
  rounding down.
\<close>

definition shift_left :: "int \<Rightarrow> int \<Rightarrow> int" where
  "shift_left x n = (if 0 \<le> n then x * 2 ^ nat n else x div 2 ^ nat (- n))"

definition computeIterativeAttritionCostAttoRep :: "int \<Rightarrow> int \<Rightarrow> int \<Rightarrow> int \<Rightarrow> int" where
  "computeIterativeAttritionCostAttoRep startBond nonDecisionThreshold lnRatioScaled timeSinceStart =
     (if timeSinceStart \<le> 0 then startBond
      else if timeSinceStart \<ge> ESCALATION_TIME_LENGTH then nonDecisionThreshold
      else
        let exponent = (lnRatioScaled * timeSinceStart) sdiv ESCALATION_TIME_LENGTH;
            exponentPow2 = exponent sdiv LN2_SCALED;
            exponentRemainder = exponent - exponentPow2 * LN2_SCALED;
            expScaled = exp_loop exponentRemainder 2 exponentRemainder (SCALE + exponentRemainder);
            cost = (startBond * shift_left expScaled exponentPow2) sdiv SCALE
        in if cost > nonDecisionThreshold then nonDecisionThreshold else cost)"

definition computeEscalationBindingCapitalAttoRep :: "int \<Rightarrow> int \<Rightarrow> int \<Rightarrow> int result option" where
  "computeEscalationBindingCapitalAttoRep startBond nonDecisionThreshold timeSinceStart =
     (if startBond \<le> 0 \<or> nonDecisionThreshold \<le> startBond
      then Some (throw ''Escalation threshold must exceed the start bond'')
      else map_option (\<lambda>r. bindR r (\<lambda>lnRatioScaled.
        ok (computeIterativeAttritionCostAttoRep startBond nonDecisionThreshold lnRatioScaled timeSinceStart)))
        (computeLnRatioScaled startBond nonDecisionThreshold))"

definition computeEscalationTimeSinceStartFromAttritionCostAttoRep :: "int \<Rightarrow> int \<Rightarrow> int \<Rightarrow> int result option" where
  "computeEscalationTimeSinceStartFromAttritionCostAttoRep startBond nonDecisionThreshold attritionCost =
     (if attritionCost \<le> startBond then Some (ok 0)
      else if attritionCost \<ge> nonDecisionThreshold then Some (ok ESCALATION_TIME_LENGTH)
      else
        case computeLnRatioScaled startBond nonDecisionThreshold of
          None \<Rightarrow> None
        | Some (Inl e) \<Rightarrow> Some (Inl e)
        | Some (Inr lnRatioScaled) \<Rightarrow>
            if lnRatioScaled = 0 then Some (ok 0)
            else map_option (\<lambda>r. bindR r (\<lambda>lnCostRatioScaled.
                   bigDiv (lnCostRatioScaled * ESCALATION_TIME_LENGTH) lnRatioScaled))
                 (computeLnRatioScaled startBond attritionCost))"

section \<open>Deposits\<close>

fun getEscalationOutcomeIndex :: "EscalationOutcomeKey \<Rightarrow> nat" where
  "getEscalationOutcomeIndex OutcomeInvalid = 0"
| "getEscalationOutcomeIndex OutcomeYes = 1"
| "getEscalationOutcomeIndex OutcomeNo = 2"

fun getMaxEscalationBalanceAttoRep :: "EscalationBalanceTuple \<Rightarrow> int" where
  "getMaxEscalationBalanceAttoRep (invalid, yes, no) =
     (if invalid > yes then (if invalid > no then invalid else no)
      else if yes > no then yes else no)"

text \<open>Reading \<open>balances[index]\<close> for the three indices of the tuple.\<close>

fun balanceAt :: "EscalationBalanceTuple \<Rightarrow> nat \<Rightarrow> int" where
  "balanceAt (invalid, yes, no) index = (if index = 0 then invalid else if index = 1 then yes else no)"

fun hasReachedNonDecision :: "EscalationBalanceTuple \<Rightarrow> int \<Rightarrow> bool" where
  "hasReachedNonDecision (invalid, yes, no) nonDecisionThreshold =
     ((if invalid \<ge> nonDecisionThreshold then 1 else 0)
      + (if yes \<ge> nonDecisionThreshold then 1 else 0)
      + (if no \<ge> nonDecisionThreshold then 1 else (0::int)) \<ge> 2)"

fun setBalanceAtIndex :: "EscalationBalanceTuple \<Rightarrow> nat \<Rightarrow> int \<Rightarrow> EscalationBalanceTuple result" where
  "setBalanceAtIndex (invalid, yes, no) index value =
     (if index = 0 then ok (value, yes, no)
      else if index = 1 then ok (invalid, value, no)
      else if index = 2 then ok (invalid, yes, value)
      else Inl (RangeError ''Unknown escalation balance index''))"

record ProjectedEscalationDeposit =
  acceptedAmountAttoRep :: int
  projectedBalancesAttoRep :: EscalationBalanceTuple
  reachesNonDecision :: bool
  tieAdjusted :: bool

definition projectEscalationDeposit ::
  "int \<Rightarrow> EscalationBalanceTuple \<Rightarrow> int \<Rightarrow> EscalationOutcomeKey \<Rightarrow> int \<Rightarrow> ProjectedEscalationDeposit option result" where
  "projectEscalationDeposit amount balances nonDecisionThreshold outcome startBond =
     (let outcomeIndex = getEscalationOutcomeIndex outcome;
          currentBalance = balanceAt balances outcomeIndex
      in if currentBalance \<ge> nonDecisionThreshold then ok None
      else
        let room = nonDecisionThreshold - currentBalance;
            accepted0 = (if amount > room then room else amount);
            newBalance0 = currentBalance + accepted0;
            maxBalance = getMaxEscalationBalanceAttoRep balances;
            otherHasMax =
              (if outcomeIndex = 0 then balanceAt balances 1 = maxBalance \<or> balanceAt balances 2 = maxBalance
               else if outcomeIndex = 1 then balanceAt balances 0 = maxBalance \<or> balanceAt balances 2 = maxBalance
               else balanceAt balances 0 = maxBalance \<or> balanceAt balances 1 = maxBalance);
            tie = (newBalance0 = maxBalance \<and> otherHasMax \<and> maxBalance < nonDecisionThreshold);
            accepted = (if tie then accepted0 - 1 else accepted0);
            newBalance = (if tie then currentBalance + accepted else newBalance0)
        in if accepted < startBond \<and> newBalance \<noteq> nonDecisionThreshold then ok None
        else bindR (setBalanceAtIndex balances outcomeIndex newBalance) (\<lambda>projected.
          ok (Some \<lparr>acceptedAmountAttoRep = accepted, projectedBalancesAttoRep = projected,
                    reachesNonDecision = hasReachedNonDecision projected nonDecisionThreshold,
                    tieAdjusted = tie\<rparr>)))"

section \<open>Claims\<close>

definition getWinningWithdrawalAmount :: "int \<Rightarrow> int \<Rightarrow> int \<Rightarrow> int \<Rightarrow> int \<Rightarrow> int \<Rightarrow> int \<Rightarrow> int result" where
  "getWinningWithdrawalAmount bindingCapital depositAmount depositEnd depositStart forkThreshold
       nonDecisionThreshold winningOutcomeBalance =
     (let rewardEligibleCap = bindingCapital + bindingCapital sdiv 2;
          rewardEligiblePrincipal = (if winningOutcomeBalance < rewardEligibleCap
                                     then winningOutcomeBalance else rewardEligibleCap);
          amountToWithdraw =
            (if rewardEligiblePrincipal = 0 then depositAmount
             else
               let eligibleEnd = (if depositEnd < rewardEligibleCap then depositEnd else rewardEligibleCap);
                   rewardEligibleDeposit = (if eligibleEnd > depositStart then eligibleEnd - depositStart else 0);
                   cappedRewardEligibleDeposit = (if rewardEligibleDeposit > depositAmount
                                                  then depositAmount else rewardEligibleDeposit);
                   rewardBonusPool = (bindingCapital * 3) sdiv 5;
                   bonus = (cappedRewardEligibleDeposit * rewardBonusPool) sdiv rewardEligiblePrincipal
               in depositAmount + bonus)
      in if forkThreshold < nonDecisionThreshold
         then bigDiv (amountToWithdraw * forkThreshold) nonDecisionThreshold
         else ok amountToWithdraw)"

definition getWinningEscalationDepositClaimAmount :: "int \<Rightarrow> int \<Rightarrow> int \<Rightarrow> int \<Rightarrow> int \<Rightarrow> int \<Rightarrow> int result" where
  "getWinningEscalationDepositClaimAmount bindingCapital depositAmount cumulativeAmount forkThreshold
       nonDecisionThreshold winningOutcomeBalance =
     getWinningWithdrawalAmount bindingCapital depositAmount cumulativeAmount (cumulativeAmount - depositAmount)
       forkThreshold nonDecisionThreshold winningOutcomeBalance"

definition getWinningImportedEscalationDepositClaimAmount :: "int \<Rightarrow> int \<Rightarrow> int \<Rightarrow> int \<Rightarrow> int \<Rightarrow> int \<Rightarrow> int result" where
  "getWinningImportedEscalationDepositClaimAmount bindingCapital depositAmount postDepositCumulativeAmount
       forkThreshold nonDecisionThreshold winningOutcomeBalance =
     getWinningWithdrawalAmount bindingCapital depositAmount postDepositCumulativeAmount
       (postDepositCumulativeAmount - depositAmount) forkThreshold nonDecisionThreshold winningOutcomeBalance"

section \<open>The logarithm and the exponential\<close>

text \<open>
  The normalisation loop returns for a positive low value, and leaves the high value between the
  normalised low value and its double.
\<close>

lemma normalize_low_returns:
  assumes "0 < low" and "low \<le> high"
  shows "\<exists>n. normalize_low high low k = Some (low * 2 ^ n, k + int n) \<and>
             low * 2 ^ n \<le> high \<and> high < low * 2 ^ Suc n"
  using assms
proof (induction "nat (high - low)" arbitrary: low k rule: less_induct)
  case less
  show ?case
  proof (cases "high \<ge> low * 2")
    case True
    with less.prems have "\<exists>n. normalize_low high (low * 2) (k + 1) = Some (low * 2 * 2 ^ n, k + 1 + int n) \<and>
        low * 2 * 2 ^ n \<le> high \<and> high < low * 2 * 2 ^ Suc n"
      by (intro less.hyps) auto
    then obtain n where n: "normalize_low high (low * 2) (k + 1) = Some (low * 2 * 2 ^ n, k + 1 + int n)"
      "low * 2 * 2 ^ n \<le> high" "high < low * 2 * 2 ^ Suc n" by blast
    with True show ?thesis
      by (intro exI [of _ "Suc n"], subst normalize_low.simps) (simp add: mult_ac add_ac)
  next
    case False
    with less.prems show ?thesis
      by (intro exI [of _ 0], subst normalize_low.simps) simp
  qed
qed

text \<open>It does not return when the low value is not positive and the high value is not below it.\<close>

lemma normalize_low_diverges:
  assumes "low \<le> 0" and "low \<le> high"
  shows "normalize_low high low k = None"
proof -
  have "\<not> (low \<le> 0 \<and> low \<le> high)" if "normalize_low high low k = Some r" for r
  proof (rule normalize_low.raw_induct [of "\<lambda>h l k r. \<not> (l \<le> 0 \<and> l \<le> h)", OF _ that])
    fix f :: "int \<Rightarrow> int \<Rightarrow> int \<Rightarrow> (int \<times> int) option" and h l c r
    assume "\<And>h l k r. f h l k = Some r \<Longrightarrow> \<not> (l \<le> 0 \<and> l \<le> h)"
      and "(if l * 2 \<le> h then f h (l * 2) (c + 1) else Some (l, c)) = Some r"
    then show "\<not> (l \<le> 0 \<and> l \<le> h)" by (fastforce split: if_splits)
  qed
  with assms show ?thesis by (cases "normalize_low high low k") auto
qed

text \<open>
  Both series stop at the first zero term. On non-negative arguments they only add, and they are
  monotone in every argument.
\<close>

lemma sdiv_mono: "0 \<le> (a::int) \<Longrightarrow> a \<le> b \<Longrightarrow> 0 < d \<Longrightarrow> a sdiv d \<le> b sdiv d"
  by (simp add: sdiv_nonneg zdiv_mono1)

lemma sdiv_nonneg_nonneg: "0 \<le> (a::int) \<Longrightarrow> 0 < d \<Longrightarrow> 0 \<le> a sdiv d"
  by (simp add: sdiv_nonneg pos_imp_zdiv_nonneg_iff)

lemma exp_loop_ge:
  "0 \<le> e \<Longrightarrow> 0 \<le> t \<Longrightarrow> 0 < i \<Longrightarrow> a \<le> exp_loop e i t a"
proof (induction e i t a rule: exp_loop.induct)
  case (1 e i t a)
  let ?t = "(t * e) sdiv (i * SCALE)"
  have t: "0 \<le> ?t" using "1.prems" by (intro sdiv_nonneg_nonneg) auto
  show ?case
  proof (cases "i < MAX_ATANH_ITERATIONS \<and> ?t \<noteq> 0")
    case True
    with "1.IH" [OF _ refl] "1.prems" t have "a + ?t \<le> exp_loop e (i + 1) ?t (a + ?t)" by simp
    with True t show ?thesis by (subst exp_loop.simps) (simp add: Let_def)
  next
    case False
    then show ?thesis by (subst exp_loop.simps) (auto simp: Let_def)
  qed
qed

lemma exp_loop_mono:
  "0 \<le> e \<Longrightarrow> e \<le> e' \<Longrightarrow> 0 \<le> t \<Longrightarrow> t \<le> t' \<Longrightarrow> 0 < i \<Longrightarrow> a \<le> a' \<Longrightarrow>
    exp_loop e i t a \<le> exp_loop e' i t' a'"
proof (induction e i t a arbitrary: t' a' rule: exp_loop.induct)
  case (1 e i t a)
  let ?t = "(t * e) sdiv (i * SCALE)" and ?u = "(t' * e') sdiv (i * SCALE)"
  have le: "t * e \<le> t' * e'" using "1.prems" by (intro mult_mono) auto
  have t: "0 \<le> ?t" using "1.prems" by (intro sdiv_nonneg_nonneg) auto
  have tu: "?t \<le> ?u" using "1.prems" le by (intro sdiv_mono) auto
  show ?case
  proof (cases "i < MAX_ATANH_ITERATIONS")
    case lt: True
    show ?thesis
    proof (cases "?t = 0")
      case True
      have "a' \<le> exp_loop e' i t' a'" using "1.prems" by (intro exp_loop_ge) auto
      with True lt "1.prems" show ?thesis by (subst exp_loop.simps) (simp add: Let_def)
    next
      case False
      then have "exp_loop e (i + 1) ?t (a + ?t) \<le> exp_loop e' (i + 1) ?u (a' + ?u)"
        using "1.prems" t tu lt by (intro "1.IH" [OF lt refl False]) auto
      moreover have "?u \<noteq> 0" using False t tu by linarith
      ultimately show ?thesis using lt False
        by (subst exp_loop.simps, subst (2) exp_loop.simps) (simp add: Let_def)
    qed
  next
    case False
    with "1.prems" show ?thesis by (subst exp_loop.simps, subst (2) exp_loop.simps) simp
  qed
qed

lemma atanh_loop_ge:
  "0 \<le> z2 \<Longrightarrow> 0 \<le> t \<Longrightarrow> 0 < i \<Longrightarrow> a \<le> atanh_loop z2 i t a"
proof (induction z2 i t a rule: atanh_loop.induct)
  case (1 z2 i t a)
  let ?t = "(t * z2 * (2 * i - 1)) sdiv ((2 * i + 1) * SCALE)"
  have t: "0 \<le> ?t" using "1.prems" by (intro sdiv_nonneg_nonneg) auto
  show ?case
  proof (cases "i < MAX_ATANH_ITERATIONS \<and> ?t \<noteq> 0")
    case True
    with "1.IH" [OF _ refl] "1.prems" t have "a + ?t \<le> atanh_loop z2 (i + 1) ?t (a + ?t)" by simp
    with True t show ?thesis by (subst atanh_loop.simps) (simp add: Let_def)
  next
    case False
    then show ?thesis by (subst atanh_loop.simps) (auto simp: Let_def)
  qed
qed

lemma atanh_loop_mono:
  "0 \<le> z2 \<Longrightarrow> z2 \<le> z2' \<Longrightarrow> 0 \<le> t \<Longrightarrow> t \<le> t' \<Longrightarrow> 0 < i \<Longrightarrow> a \<le> a' \<Longrightarrow>
    atanh_loop z2 i t a \<le> atanh_loop z2' i t' a'"
proof (induction z2 i t a arbitrary: t' a' rule: atanh_loop.induct)
  case (1 z2 i t a)
  let ?t = "(t * z2 * (2 * i - 1)) sdiv ((2 * i + 1) * SCALE)"
  let ?u = "(t' * z2' * (2 * i - 1)) sdiv ((2 * i + 1) * SCALE)"
  have le: "t * z2 * (2 * i - 1) \<le> t' * z2' * (2 * i - 1)"
    using "1.prems" by (intro mult_mono) auto
  have t: "0 \<le> ?t" using "1.prems" by (intro sdiv_nonneg_nonneg) auto
  have tu: "?t \<le> ?u" using "1.prems" le by (intro sdiv_mono) auto
  show ?case
  proof (cases "i < MAX_ATANH_ITERATIONS")
    case lt: True
    show ?thesis
    proof (cases "?t = 0")
      case True
      have "a' \<le> atanh_loop z2' i t' a'" using "1.prems" by (intro atanh_loop_ge) auto
      with True lt "1.prems" show ?thesis by (subst atanh_loop.simps) (simp add: Let_def)
    next
      case False
      then have "atanh_loop z2 (i + 1) ?t (a + ?t) \<le> atanh_loop z2' (i + 1) ?u (a' + ?u)"
        using "1.prems" t tu lt by (intro "1.IH" [OF lt refl False]) auto
      moreover have "?u \<noteq> 0" using False t tu by linarith
      ultimately show ?thesis using lt False
        by (subst atanh_loop.simps, subst (2) atanh_loop.simps) (simp add: Let_def)
    qed
  next
    case False
    with "1.prems" show ?thesis by (subst atanh_loop.simps, subst (2) atanh_loop.simps) simp
  qed
qed

lemma computeAtanhScaled_nonneg: "0 \<le> z \<Longrightarrow> 0 \<le> computeAtanhScaled z"
  using atanh_loop_ge [of "(z * z) sdiv SCALE" z 1 z]
  by (simp add: computeAtanhScaled_def Let_def sdiv_nonneg_nonneg)

lemma computeAtanhScaled_mono:
  assumes "0 \<le> y" and "y \<le> z"
  shows "computeAtanhScaled y \<le> computeAtanhScaled z"
proof -
  have "y * y \<le> z * z" using assms by (intro mult_mono) auto
  with assms show ?thesis unfolding computeAtanhScaled_def Let_def
    by (intro atanh_loop_mono sdiv_mono sdiv_nonneg_nonneg) auto
qed

lemma computeAtanhScaled_zero [simp]: "computeAtanhScaled 0 = 0"
  by (simp add: computeAtanhScaled_def atanh_loop.simps Let_def)

text \<open>One third, the largest argument the normalisation leaves, yields at most half of ln 2.\<close>

lemma atanh_third: "2 * computeAtanhScaled 333333 \<le> LN2_SCALED"
  by (simp add: computeAtanhScaled_def atanh_loop.simps Let_def bigint_simps)

text \<open>The exponential of a remainder below ln 2 stays below two.\<close>

lemma exp_below_two: "exp_loop 693147 2 693147 (SCALE + 693147) \<le> 2 * SCALE"
  by (simp add: exp_loop.simps Let_def bigint_simps)

text \<open>The argument of the area tangent, for a high value between the normalised low and its double.\<close>

definition ratioArgument :: "int \<Rightarrow> int \<Rightarrow> int" where
  "ratioArgument low high = ((high - low) * SCALE) sdiv (high + low)"

lemma ratioArgument_div:
  "0 < low \<Longrightarrow> low \<le> high \<Longrightarrow> ratioArgument low high = ((high - low) * SCALE) div (high + low)"
  by (simp add: ratioArgument_def sdiv_nonneg)

lemma ratioArgument_bounds:
  assumes "0 < low" and "low \<le> high" and "high < low * 2"
  shows "0 \<le> ratioArgument low high" and "ratioArgument low high \<le> 333333"
proof -
  show "0 \<le> ratioArgument low high"
    using assms by (simp add: ratioArgument_div pos_imp_zdiv_nonneg_iff)
  have "(high - low) * 1000000 < 333334 * (high + low)" using assms by simp
  then have "((high - low) * SCALE) div (high + low) < 333334"
    using assms by (subst div_less_iff) auto
  then show "ratioArgument low high \<le> 333333"
    using assms by (simp add: ratioArgument_div)
qed

lemma ratioArgument_mono:
  assumes "0 < low" and "low \<le> h" and "h \<le> h'"
  shows "ratioArgument low h \<le> ratioArgument low h'"
proof -
  let ?z = "ratioArgument low h"
  have z: "?z * (h + low) \<le> (h - low) * SCALE"
    using assms div_mult_le_self [of "h + low" "(h - low) * SCALE"] by (simp add: ratioArgument_div)
  have "?z \<le> SCALE"
  proof -
    have "((h - low) * SCALE) div (h + low) < SCALE + 1"
      using assms by (subst div_less_iff) (auto simp: algebra_simps)
    then show ?thesis using assms by (simp add: ratioArgument_div)
  qed
  then have "?z * (h' - h) \<le> SCALE * (h' - h)"
    using assms by (intro mult_right_mono) auto
  with z have "?z * (h' + low) \<le> (h' - low) * SCALE"
    by (simp add: algebra_simps)
  then have "?z \<le> ((h' - low) * SCALE) div (h' + low)"
    using assms by (subst le_div_iff) auto
  then show ?thesis using assms by (simp add: ratioArgument_div)
qed

lemma ln_ratio_value:
  assumes "0 < low" and "low \<le> high"
  shows "\<exists>n. low * 2 ^ n \<le> high \<and> high < low * 2 ^ Suc n \<and>
             computeLnRatioScaled low high =
               Some (ok (int n * LN2_SCALED + 2 * computeAtanhScaled (ratioArgument (low * 2 ^ n) high)))"
proof -
  obtain n where n: "normalize_low high low 0 = Some (low * 2 ^ n, int n)"
    "low * 2 ^ n \<le> high" "high < low * 2 ^ Suc n"
    using normalize_low_returns [OF assms, of 0] by auto
  have pos: "0 < high + low * 2 ^ n" using assms by (simp add: add_pos_pos)
  have "computeLnRatioScaled low high =
      Some (ok (int n * LN2_SCALED + 2 * computeAtanhScaled (ratioArgument (low * 2 ^ n) high)))"
    using n pos by (auto simp: computeLnRatioScaled_def Let_def bigDiv_def ratioArgument_def)
  with n show ?thesis by blast
qed

lemma ln_ratio_nonneg:
  assumes "0 < low" and "low \<le> high"
  shows "\<exists>r. computeLnRatioScaled low high = Some (ok r) \<and> 0 \<le> r"
proof -
  obtain n where n: "low * 2 ^ n \<le> high" "high < low * 2 ^ Suc n"
    "computeLnRatioScaled low high =
      Some (ok (int n * LN2_SCALED + 2 * computeAtanhScaled (ratioArgument (low * 2 ^ n) high)))"
    using ln_ratio_value [OF assms] by blast
  with assms have "0 \<le> computeAtanhScaled (ratioArgument (low * 2 ^ n) high)"
    by (intro computeAtanhScaled_nonneg ratioArgument_bounds) auto
  with n show ?thesis by simp
qed

lemma ln_ratio_mono:
  assumes "0 < low" and "low \<le> h" and "h \<le> h'"
    and r: "computeLnRatioScaled low h = Some (ok r)" and r': "computeLnRatioScaled low h' = Some (ok r')"
  shows "r \<le> r'"
proof -
  obtain n where n: "low * 2 ^ n \<le> h" "h < low * 2 ^ Suc n"
    "r = int n * LN2_SCALED + 2 * computeAtanhScaled (ratioArgument (low * 2 ^ n) h)"
    using ln_ratio_value [OF assms(1,2)] r by auto
  obtain m where m: "low * 2 ^ m \<le> h'" "h' < low * 2 ^ Suc m"
    "r' = int m * LN2_SCALED + 2 * computeAtanhScaled (ratioArgument (low * 2 ^ m) h')"
    using ln_ratio_value [of low h'] assms by auto
  note z = ratioArgument_bounds [of "low * 2 ^ n" h]
  note z' = ratioArgument_bounds [of "low * 2 ^ m" h']
  have "low * 2 ^ n < low * 2 ^ Suc m" using n m assms by linarith
  then have "(2::int) ^ n < 2 ^ Suc m" using \<open>0 < low\<close> by simp
  then have "n < Suc m" by (simp only: power_strict_increasing_iff)
  show ?thesis
  proof (cases "n = m")
    case True
    have "computeAtanhScaled (ratioArgument (low * 2 ^ n) h) \<le> computeAtanhScaled (ratioArgument (low * 2 ^ n) h')"
      using assms n z by (intro computeAtanhScaled_mono ratioArgument_mono) auto
    with True n m show ?thesis by simp
  next
    case False
    with \<open>n < Suc m\<close> have "int n + 1 \<le> int m" by simp
    then have "(int n + 1) * LN2_SCALED \<le> int m * LN2_SCALED" by simp
    moreover have "2 * computeAtanhScaled (ratioArgument (low * 2 ^ n) h) \<le> LN2_SCALED"
      using computeAtanhScaled_mono [of "ratioArgument (low * 2 ^ n) h" 333333] z atanh_third n assms by auto
    moreover have "0 \<le> computeAtanhScaled (ratioArgument (low * 2 ^ m) h')"
      using z' m assms by (intro computeAtanhScaled_nonneg) auto
    ultimately show ?thesis using n m by (simp add: algebra_simps)
  qed
qed

section \<open>The cost curve\<close>

text \<open>\<open>2^p * exp(r)\<close> of a fixed-point exponent \<open>p * ln 2 + r\<close>.\<close>

definition expOfExponent :: "int \<Rightarrow> int" where
  "expOfExponent x = exp_loop (x mod LN2_SCALED) 2 (x mod LN2_SCALED) (SCALE + x mod LN2_SCALED)
                     * 2 ^ nat (x div LN2_SCALED)"

lemma exp_remainder_bounds:
  "SCALE \<le> exp_loop (x mod LN2_SCALED) 2 (x mod LN2_SCALED) (SCALE + x mod LN2_SCALED)"
  "exp_loop (x mod LN2_SCALED) 2 (x mod LN2_SCALED) (SCALE + x mod LN2_SCALED) \<le> 2 * SCALE"
proof -
  let ?r = "x mod LN2_SCALED"
  have r: "0 \<le> ?r" "?r \<le> 693147"
    using pos_mod_sign [of 693147 x] pos_mod_bound [of 693147 x] by simp_all
  have "SCALE + ?r \<le> exp_loop ?r 2 ?r (SCALE + ?r)" using r by (intro exp_loop_ge) auto
  with r show "SCALE \<le> exp_loop ?r 2 ?r (SCALE + ?r)" by simp
  have "exp_loop ?r 2 ?r (SCALE + ?r) \<le> exp_loop 693147 2 693147 (SCALE + 693147)"
    using r by (intro exp_loop_mono) auto
  with exp_below_two show "exp_loop ?r 2 ?r (SCALE + ?r) \<le> 2 * SCALE" by linarith
qed

lemma expOfExponent_ge: "SCALE \<le> expOfExponent x"
proof -
  have "SCALE * 1 \<le> exp_loop (x mod LN2_SCALED) 2 (x mod LN2_SCALED) (SCALE + x mod LN2_SCALED)
      * 2 ^ nat (x div LN2_SCALED)"
    using exp_remainder_bounds(1) [of x] by (intro mult_mono) auto
  then show ?thesis by (simp add: expOfExponent_def)
qed

lemma expOfExponent_mono:
  assumes "0 \<le> x" and "x \<le> y"
  shows "expOfExponent x \<le> expOfExponent y"
proof -
  have q: "x div LN2_SCALED \<le> y div LN2_SCALED" using assms by (simp add: zdiv_mono1)
  show ?thesis
  proof (cases "x div LN2_SCALED = y div LN2_SCALED")
    case True
    then have "x mod LN2_SCALED \<le> y mod LN2_SCALED"
      using assms by (simp only: minus_mult_div_eq_mod [symmetric])
    moreover have "0 \<le> x mod LN2_SCALED" by simp
    ultimately have "exp_loop (x mod LN2_SCALED) 2 (x mod LN2_SCALED) (SCALE + x mod LN2_SCALED)
        \<le> exp_loop (y mod LN2_SCALED) 2 (y mod LN2_SCALED) (SCALE + y mod LN2_SCALED)"
      by (intro exp_loop_mono) auto
    with True show ?thesis by (simp add: expOfExponent_def)
  next
    case False
    let ?p = "nat (x div LN2_SCALED)" and ?q = "nat (y div LN2_SCALED)"
    have "0 \<le> x div LN2_SCALED" using assms by (simp add: pos_imp_zdiv_nonneg_iff)
    with q False have "Suc ?p \<le> ?q" by linarith
    then have pow: "(2::int) ^ Suc ?p \<le> 2 ^ ?q" by (intro power_increasing) auto
    have "expOfExponent x \<le> 2 * SCALE * 2 ^ ?p"
      unfolding expOfExponent_def using exp_remainder_bounds(2) [of x] by (intro mult_right_mono) auto
    also have "\<dots> = SCALE * 2 ^ Suc ?p" by simp
    also have "\<dots> \<le> SCALE * 2 ^ ?q" using pow by (intro mult_left_mono) auto
    also have "\<dots> \<le> expOfExponent y"
      unfolding expOfExponent_def using exp_remainder_bounds(1) [of y] by (intro mult_right_mono) auto
    finally show ?thesis .
  qed
qed

lemma cost_as_exponential:
  assumes "0 < s" and "0 \<le> ln" and "0 < time" and "time < ESCALATION_TIME_LENGTH"
  shows "computeIterativeAttritionCostAttoRep s t ln time =
           min t ((s * expOfExponent ((ln * time) div ESCALATION_TIME_LENGTH)) div SCALE)"
proof -
  let ?x = "(ln * time) div ESCALATION_TIME_LENGTH"
  have x: "0 \<le> ?x" using assms by (simp add: pos_imp_zdiv_nonneg_iff)
  have exponent: "(ln * time) sdiv ESCALATION_TIME_LENGTH = ?x"
    using assms by (intro sdiv_nonneg) auto
  have pow: "?x sdiv LN2_SCALED = ?x div LN2_SCALED"
    using x by (intro sdiv_nonneg) auto
  have quot: "0 \<le> ?x div LN2_SCALED" using x by (simp add: pos_imp_zdiv_nonneg_iff)
  have "0 \<le> s * expOfExponent ?x" using expOfExponent_ge [of ?x] assms by simp
  then have cost: "(s * expOfExponent ?x) sdiv SCALE = (s * expOfExponent ?x) div SCALE"
    by (intro sdiv_nonneg) auto
  have shift: "shift_left (exp_loop (?x - ?x div LN2_SCALED * LN2_SCALED) 2 (?x - ?x div LN2_SCALED * LN2_SCALED)
      (SCALE + (?x - ?x div LN2_SCALED * LN2_SCALED))) (?x div LN2_SCALED) = expOfExponent ?x"
    using quot by (simp only: shift_left_def expOfExponent_def minus_div_mult_eq_mod if_True)
  have "\<not> time \<le> 0" and "\<not> time \<ge> ESCALATION_TIME_LENGTH" using assms by auto
  then show ?thesis
    by (simp only: computeIterativeAttritionCostAttoRep_def Let_def exponent pow shift cost if_False)
      (simp only: min_def not_less [symmetric] if_not_P split: if_splits, auto)
qed

lemma cost_within:
  assumes "0 < s" and "s < t" and "0 \<le> ln"
  shows "s \<le> computeIterativeAttritionCostAttoRep s t ln time"
    and "computeIterativeAttritionCostAttoRep s t ln time \<le> t"
proof -
  have "s \<le> computeIterativeAttritionCostAttoRep s t ln time \<and> computeIterativeAttritionCostAttoRep s t ln time \<le> t"
  proof (cases "0 < time \<and> time < ESCALATION_TIME_LENGTH")
    case True
    let ?e = "expOfExponent ((ln * time) div ESCALATION_TIME_LENGTH)"
    have "s * SCALE \<le> s * ?e" using assms expOfExponent_ge by (intro mult_left_mono) auto
    then have "s \<le> (s * ?e) div SCALE" by (subst le_div_iff) auto
    with True assms show ?thesis by (simp add: cost_as_exponential)
  next
    case False
    with assms show ?thesis by (auto simp: computeIterativeAttritionCostAttoRep_def)
  qed
  then show "s \<le> computeIterativeAttritionCostAttoRep s t ln time"
    and "computeIterativeAttritionCostAttoRep s t ln time \<le> t" by auto
qed

lemma cost_mono:
  assumes "0 < s" and "s < t" and "0 \<le> ln"
  shows "mono (computeIterativeAttritionCostAttoRep s t ln)"
proof (rule monoI)
  fix x y :: int
  assume xy: "x \<le> y"
  consider "x \<le> 0" | "ESCALATION_TIME_LENGTH \<le> y" | "0 < x" "y < ESCALATION_TIME_LENGTH" by linarith
  then show "computeIterativeAttritionCostAttoRep s t ln x \<le> computeIterativeAttritionCostAttoRep s t ln y"
  proof cases
    case 1
    then have "computeIterativeAttritionCostAttoRep s t ln x = s"
      by (simp add: computeIterativeAttritionCostAttoRep_def)
    with cost_within(1) [OF assms] show ?thesis by simp
  next
    case 2
    then have "computeIterativeAttritionCostAttoRep s t ln y = t"
      by (simp add: computeIterativeAttritionCostAttoRep_def)
    with cost_within(2) [OF assms] show ?thesis by simp
  next
    case 3
    have "(ln * x) div ESCALATION_TIME_LENGTH \<le> (ln * y) div ESCALATION_TIME_LENGTH"
      using assms xy by (intro zdiv_mono1 mult_left_mono) auto
    moreover have "0 \<le> (ln * x) div ESCALATION_TIME_LENGTH"
      using 3 assms by (simp add: pos_imp_zdiv_nonneg_iff)
    ultimately have "s * expOfExponent ((ln * x) div ESCALATION_TIME_LENGTH)
        \<le> s * expOfExponent ((ln * y) div ESCALATION_TIME_LENGTH)"
      using assms by (intro mult_left_mono expOfExponent_mono) auto
    then have "(s * expOfExponent ((ln * x) div ESCALATION_TIME_LENGTH)) div SCALE
        \<le> (s * expOfExponent ((ln * y) div ESCALATION_TIME_LENGTH)) div SCALE"
      by (rule zdiv_mono1) simp
    with 3 xy assms show ?thesis by (simp add: cost_as_exponential min_le_iff_disj)
  qed
qed

text \<open>
  C28: for a positive start bond below the non-decision threshold, the escalation game's binding
  capital is defined at every time (the normalisation loop returns and no division is by zero), it
  starts at the start bond, never decreases with time, never leaves the interval from start bond to
  threshold, and is the threshold from the end of the game on.
\<close>

theorem escalation_cost_curve:
  assumes "0 < startBond" and "startBond < threshold"
  shows "\<exists>cost. mono cost \<and> (\<forall>time.
      computeEscalationBindingCapitalAttoRep startBond threshold time = Some (ok (cost time)) \<and>
      startBond \<le> cost time \<and> cost time \<le> threshold \<and>
      (time \<le> 0 \<longrightarrow> cost time = startBond) \<and>
      (ESCALATION_TIME_LENGTH \<le> time \<longrightarrow> cost time = threshold))"
proof -
  obtain ln where ln: "computeLnRatioScaled startBond threshold = Some (ok ln)" "0 \<le> ln"
    using ln_ratio_nonneg [of startBond threshold] assms by auto
  let ?cost = "computeIterativeAttritionCostAttoRep startBond threshold ln"
  have "computeEscalationBindingCapitalAttoRep startBond threshold time = Some (ok (?cost time))" for time
    using assms ln by (simp add: computeEscalationBindingCapitalAttoRep_def)
  moreover have "?cost time = startBond" if "time \<le> 0" for time
    using that by (simp add: computeIterativeAttritionCostAttoRep_def)
  moreover have "?cost time = threshold" if "ESCALATION_TIME_LENGTH \<le> time" for time
    using that by (simp add: computeIterativeAttritionCostAttoRep_def)
  ultimately show ?thesis
    using cost_within [OF assms ln(2)] cost_mono [OF assms ln(2)] by (intro exI [of _ ?cost]) auto
qed

lemma escalation_cost_curve_witness:
  "\<exists>v. computeEscalationBindingCapitalAttoRep 1000 16000 5000000 = Some (ok v) \<and> v = 16000"
  using escalation_cost_curve [of 1000 16000] by auto

section \<open>The inverse of the cost curve\<close>

lemma time_curve:
  assumes "0 < startBond" and "startBond < threshold"
  obtains time where "mono time"
    and "\<forall>cost. computeEscalationTimeSinceStartFromAttritionCostAttoRep startBond threshold cost = Some (ok (time cost))"
    and "\<forall>cost. 0 \<le> time cost \<and> time cost \<le> ESCALATION_TIME_LENGTH"
proof -
  obtain ln where ln: "computeLnRatioScaled startBond threshold = Some (ok ln)" "0 \<le> ln"
    using ln_ratio_nonneg [of startBond threshold] assms by auto
  have "\<exists>f. \<forall>c. startBond \<le> c \<longrightarrow> computeLnRatioScaled startBond c = Some (ok (f c)) \<and> 0 \<le> f c"
    using ln_ratio_nonneg [OF assms(1)] by metis
  then obtain f where f: "\<And>c. startBond \<le> c \<Longrightarrow> computeLnRatioScaled startBond c = Some (ok (f c)) \<and> 0 \<le> f c"
    by blast
  have fmono: "f c \<le> f d" if "startBond \<le> c" and "c \<le> d" for c d
    using ln_ratio_mono [OF assms(1) that] f that by auto
  have fln: "f threshold = ln" using f [of threshold] ln assms by simp
  let ?time = "\<lambda>c. if c \<le> startBond then 0 else if threshold \<le> c then ESCALATION_TIME_LENGTH
    else if ln = 0 then 0 else (f c * ESCALATION_TIME_LENGTH) div ln"
  have returns: "computeEscalationTimeSinceStartFromAttritionCostAttoRep startBond threshold c = Some (ok (?time c))" for c
    using ln f [of c]
    by (auto simp: computeEscalationTimeSinceStartFromAttritionCostAttoRep_def bigDiv_pos)
  have mid: "0 \<le> (f c * ESCALATION_TIME_LENGTH) div ln \<and> (f c * ESCALATION_TIME_LENGTH) div ln \<le> ESCALATION_TIME_LENGTH"
    if "startBond < c" and "c < threshold" and "ln \<noteq> 0" for c
  proof -
    have "0 \<le> f c" and "f c \<le> ln" using f [of c] fmono [of c threshold] fln that by auto
    moreover have "(f c * ESCALATION_TIME_LENGTH) div ln < ESCALATION_TIME_LENGTH + 1"
      using ln that \<open>f c \<le> ln\<close> by (subst div_less_iff) (auto simp: algebra_simps)
    ultimately show ?thesis using ln that by (simp add: pos_imp_zdiv_nonneg_iff)
  qed
  have "mono ?time"
  proof (rule monoI)
    fix c d :: int
    assume cd: "c \<le> d"
    show "?time c \<le> ?time d"
    proof (cases "startBond < c \<and> d < threshold \<and> ln \<noteq> 0")
      case True
      then have "(f c * ESCALATION_TIME_LENGTH) div ln \<le> (f d * ESCALATION_TIME_LENGTH) div ln"
        using ln cd fmono [of c d] by (intro zdiv_mono1 mult_right_mono) auto
      with True cd show ?thesis by auto
    next
      case False
      with cd mid [of c] mid [of d] assms show ?thesis by auto
    qed
  qed
  moreover have "0 \<le> ?time c \<and> ?time c \<le> ESCALATION_TIME_LENGTH" for c
    using mid [of c] by auto
  ultimately show ?thesis using returns that [of ?time] by blast
qed

text \<open>
  The time at which the cost curve reaches an attrition cost is computed for every cost when
  the start bond is positive: it lies between zero and the length of the game, and a higher cost is
  never reached earlier.
\<close>

lemma escalation_time_of_cost:
  assumes "0 < startBond" and "startBond < threshold"
  shows "\<exists>time. mono time \<and> (\<forall>cost.
      computeEscalationTimeSinceStartFromAttritionCostAttoRep startBond threshold cost = Some (ok (time cost)) \<and>
      0 \<le> time cost \<and> time cost \<le> ESCALATION_TIME_LENGTH)"
proof -
  obtain time where "mono time"
    and "\<forall>cost. computeEscalationTimeSinceStartFromAttritionCostAttoRep startBond threshold cost = Some (ok (time cost))"
    and "\<forall>cost. 0 \<le> time cost \<and> time cost \<le> ESCALATION_TIME_LENGTH"
    using time_curve [OF assms] by blast
  then show ?thesis by blast
qed

lemma escalation_time_of_cost_example:
  "\<exists>v. computeEscalationTimeSinceStartFromAttritionCostAttoRep 1000 16000 4000 = Some (ok v) \<and> 0 \<le> v \<and> v \<le> 4233600"
  using escalation_time_of_cost [of 1000 16000] by auto

text \<open>
  C26: the inverse returns exactly when the cost is outside the open interval between start bond and
  threshold, or the start bond is positive: unlike the cost curve it does not check the start bond,
  and for one that is zero or negative its normalisation loop never ends.
\<close>

theorem escalation_time_returns_iff:
  "computeEscalationTimeSinceStartFromAttritionCostAttoRep startBond threshold cost \<noteq> None \<longleftrightarrow>
     cost \<le> startBond \<or> threshold \<le> cost \<or> 0 < startBond"
proof (cases "startBond < cost \<and> cost < threshold")
  case inside: True
  show ?thesis
  proof (cases "0 < startBond")
    case True
    with inside obtain x y where "computeLnRatioScaled startBond threshold = Some (ok x)"
      and "computeLnRatioScaled startBond cost = Some (ok y)"
      using ln_ratio_nonneg [of startBond threshold] ln_ratio_nonneg [of startBond cost] by auto
    with inside True show ?thesis
      by (simp add: computeEscalationTimeSinceStartFromAttritionCostAttoRep_def)
  next
    case False
    with inside have "computeLnRatioScaled startBond threshold = None"
      by (simp add: computeLnRatioScaled_def normalize_low_diverges)
    with inside False show ?thesis
      by (simp add: computeEscalationTimeSinceStartFromAttritionCostAttoRep_def)
  qed
next
  case False
  then show ?thesis
    by (auto simp: computeEscalationTimeSinceStartFromAttritionCostAttoRep_def)
qed

section \<open>Projected deposits\<close>

text \<open>
  What is accepted, from the current balance \<open>c\<close> and the other two; and what it implies about
  the lead. The three outcomes are the three ways to read a balance tuple so.
\<close>

definition tieOf :: "int \<Rightarrow> int \<Rightarrow> int \<Rightarrow> int \<Rightarrow> int \<Rightarrow> bool" where
  "tieOf amount c x y t \<longleftrightarrow> c + min amount (t - c) = max c (max x y) \<and>
     (x = max c (max x y) \<or> y = max c (max x y)) \<and> max c (max x y) < t"

definition acceptedOf :: "int \<Rightarrow> int \<Rightarrow> int \<Rightarrow> int \<Rightarrow> int \<Rightarrow> int" where
  "acceptedOf amount c x y t = (if tieOf amount c x y t then min amount (t - c) - 1 else min amount (t - c))"

lemma hasReachedNonDecision_card:
  "hasReachedNonDecision b t \<longleftrightarrow> 2 \<le> card {j \<in> {0, 1, 2}. t \<le> balanceAt b j}"
proof -
  have filter_insert: "{j \<in> insert a A. P j} = (if P a then insert a {j \<in> A. P j} else {j \<in> A. P j})"
    for a A and P :: "nat \<Rightarrow> bool" by auto
  show ?thesis
    by (cases b) (simp only: filter_insert balanceAt.simps hasReachedNonDecision.simps, simp add: card_insert_if)
qed

lemma getMax_max: "getMaxEscalationBalanceAttoRep (a, b, c) = max a (max b c)"
  by (simp add: max_def)

lemma accepted_bounds:
  assumes "0 \<le> amount" and "c < t"
  shows "acceptedOf amount c x y t \<le> amount" and "c + acceptedOf amount c x y t \<le> t"
  using assms by (auto simp: acceptedOf_def)

lemma accepted_no_tied_lead:
  assumes "0 \<le> amount" and "c + acceptedOf amount c x y t < t"
    and "max x y \<le> c + acceptedOf amount c x y t"
  shows "max x y < c + acceptedOf amount c x y t"
proof (cases "tieOf amount c x y t")
  case True
  then have "acceptedOf amount c x y t = min amount (t - c) - 1" by (simp add: acceptedOf_def)
  moreover from True have "c + min amount (t - c) = max c (max x y)"
    and "x = max c (max x y) \<or> y = max c (max x y)" unfolding tieOf_def by auto
  ultimately show ?thesis using assms(3) by linarith
next
  case False
  then have acc: "acceptedOf amount c x y t = min amount (t - c)" by (simp add: acceptedOf_def)
  have "c \<le> c + min amount (t - c)" using assms acc by linarith
  show ?thesis
  proof (rule ccontr)
    assume "\<not> ?thesis"
    with assms acc have "c + min amount (t - c) = max x y" by linarith
    moreover have "x = max x y \<or> y = max x y" by linarith
    ultimately have "tieOf amount c x y t"
      unfolding tieOf_def using assms acc \<open>c \<le> c + min amount (t - c)\<close> by linarith
    with False show False by contradiction
  qed
qed

lemma projection_value:
  assumes c: "c = balanceAt balances (getEscalationOutcomeIndex outcome)"
    and xy: "(outcome = OutcomeInvalid \<and> balances = (c, x, y)) \<or> (outcome = OutcomeYes \<and> balances = (x, c, y)) \<or>
      (outcome = OutcomeNo \<and> balances = (x, y, c))"
  shows "projectEscalationDeposit amount balances t outcome startBond =
    (if t \<le> c then ok None
     else if acceptedOf amount c x y t < startBond \<and> c + acceptedOf amount c x y t \<noteq> t then ok None
     else bindR (setBalanceAtIndex balances (getEscalationOutcomeIndex outcome) (c + acceptedOf amount c x y t))
       (\<lambda>new. ok (Some \<lparr>acceptedAmountAttoRep = acceptedOf amount c x y t, projectedBalancesAttoRep = new,
          reachesNonDecision = hasReachedNonDecision new t, tieAdjusted = tieOf amount c x y t\<rparr>)))"
proof -
  have m: "getMaxEscalationBalanceAttoRep balances = max c (max x y)"
    using xy by (auto simp: getMax_max simp del: getMaxEscalationBalanceAttoRep.simps)
  have room: "(if amount > t - c then t - c else amount) = min amount (t - c)" by auto
  have other: "(if getEscalationOutcomeIndex outcome = 0
        then balanceAt balances 1 = max c (max x y) \<or> balanceAt balances 2 = max c (max x y)
      else if getEscalationOutcomeIndex outcome = 1
        then balanceAt balances 0 = max c (max x y) \<or> balanceAt balances 2 = max c (max x y)
      else balanceAt balances 0 = max c (max x y) \<or> balanceAt balances 1 = max c (max x y))
    \<longleftrightarrow> x = max c (max x y) \<or> y = max c (max x y)"
    using xy by (elim disjE) simp_all
  show ?thesis
    by (cases "tieOf amount c x y t")
      (simp_all only: projectEscalationDeposit_def Let_def c [symmetric] m room other
        tieOf_def [symmetric] acceptedOf_def if_True if_False)
qed

text \<open>
  A projected deposit never raises an error. It takes at most what is offered and never lifts
  the chosen outcome above the non-decision threshold; it is at least the start bond unless it
  completes the threshold; the other two balances stay as they were; the non-decision flag says that
  two balances have reached the threshold; and the deposit leaves the chosen outcome tied for the
  lead only when two balances have reached the threshold.
\<close>

lemma escalation_deposit_projection:
  assumes "0 \<le> amount"
  shows "\<exists>r. projectEscalationDeposit amount balances threshold outcome startBond = ok r \<and>
    (\<forall>d. r = Some d \<longrightarrow>
      (let i = getEscalationOutcomeIndex outcome; new = projectedBalancesAttoRep d in
        acceptedAmountAttoRep d \<le> amount \<and>
        balanceAt new i = balanceAt balances i + acceptedAmountAttoRep d \<and>
        balanceAt balances i < threshold \<and> balanceAt new i \<le> threshold \<and>
        (startBond \<le> acceptedAmountAttoRep d \<or> balanceAt new i = threshold) \<and>
        (\<forall>j \<in> {0, 1, 2}. j \<noteq> i \<longrightarrow> balanceAt new j = balanceAt balances j) \<and>
        (reachesNonDecision d \<longleftrightarrow> 2 \<le> card {j \<in> {0, 1, 2}. threshold \<le> balanceAt new j}) \<and>
        (\<not> reachesNonDecision d \<and> balanceAt new i = getMaxEscalationBalanceAttoRep new \<longrightarrow>
          (\<forall>j \<in> {0, 1, 2}. j \<noteq> i \<longrightarrow> balanceAt new j < balanceAt new i))))"
proof -
  let ?i = "getEscalationOutcomeIndex outcome"
  define c where "c = balanceAt balances ?i"
  obtain x y where xy: "(outcome = OutcomeInvalid \<and> balances = (c, x, y)) \<or>
      (outcome = OutcomeYes \<and> balances = (x, c, y)) \<or> (outcome = OutcomeNo \<and> balances = (x, y, c))"
    by (cases outcome; cases balances) (auto simp: c_def)
  let ?new = "c + acceptedOf amount c x y threshold"
  show ?thesis
  proof (cases "c < threshold \<and> (startBond \<le> acceptedOf amount c x y threshold \<or> ?new = threshold)")
    case True
    then have bounds: "acceptedOf amount c x y threshold \<le> amount" "?new \<le> threshold"
      using accepted_bounds [OF assms] by auto
    have lead: "?new < threshold \<longrightarrow> max x y \<le> ?new \<longrightarrow> x < ?new \<and> y < ?new"
      using accepted_no_tied_lead [OF assms, of c x y threshold] by simp
    obtain new where new: "setBalanceAtIndex balances ?i ?new = ok new"
      and shape: "(outcome = OutcomeInvalid \<and> new = (?new, x, y)) \<or>
        (outcome = OutcomeYes \<and> new = (x, ?new, y)) \<or> (outcome = OutcomeNo \<and> new = (x, y, ?new))"
      using xy by auto
    have "projectEscalationDeposit amount balances threshold outcome startBond =
        ok (Some \<lparr>acceptedAmountAttoRep = acceptedOf amount c x y threshold, projectedBalancesAttoRep = new,
          reachesNonDecision = hasReachedNonDecision new threshold, tieAdjusted = tieOf amount c x y threshold\<rparr>)"
      using True new by (auto simp: projection_value [OF c_def xy])
    moreover have "\<not> hasReachedNonDecision new threshold \<and> x \<le> ?new \<and> y \<le> ?new \<longrightarrow> x < ?new \<and> y < ?new"
      using lead bounds(2) shape by (auto split: if_splits)
    then have "\<not> hasReachedNonDecision new threshold \<and> balanceAt new ?i = getMaxEscalationBalanceAttoRep new \<longrightarrow>
        (\<forall>j \<in> {0, 1, 2}. j \<noteq> ?i \<longrightarrow> balanceAt new j < balanceAt new ?i)"
      using shape by (elim disjE conjE)
        (auto simp: getMax_max max_def simp del: getMaxEscalationBalanceAttoRep.simps hasReachedNonDecision.simps split: if_splits)
    moreover have "balanceAt new ?i = ?new" "balanceAt balances ?i = c" "\<forall>j \<in> {0, 1, 2}. j \<noteq> ?i \<longrightarrow> balanceAt new j = balanceAt balances j"
      using shape xy by auto
    ultimately show ?thesis using True bounds hasReachedNonDecision_card [of new threshold]
      by (auto simp only: Let_def sum.inject option.inject ProjectedEscalationDeposit.simps simp_thms)
  next
    case False
    then show ?thesis by (auto simp: projection_value [OF c_def xy])
  qed
qed

lemma projection_total:
  "\<exists>r. projectEscalationDeposit amount balances threshold outcome startBond = ok r"
proof -
  have "\<exists>new. setBalanceAtIndex balances (getEscalationOutcomeIndex outcome) v = ok new" for v
    by (cases outcome; cases balances) simp_all
  then obtain new where "\<And>v. setBalanceAtIndex balances (getEscalationOutcomeIndex outcome) v = ok (new v)" by metis
  then show ?thesis by (simp add: projectEscalationDeposit_def Let_def)
qed

lemma escalation_deposit_projection_example:
  "\<exists>d. projectEscalationDeposit 60 (30, 80, 0) 100 OutcomeInvalid 10 = ok (Some d) \<and> acceptedAmountAttoRep d \<le> 60 \<and>
    \<not> reachesNonDecision d \<and> 80 < balanceAt (projectedBalancesAttoRep d) 0"
proof -
  have "case projectEscalationDeposit 60 (30, 80, 0) 100 OutcomeInvalid 10 of
      Inr (Some d) \<Rightarrow> \<not> reachesNonDecision d \<and> balanceAt (projectedBalancesAttoRep d) 0 = getMaxEscalationBalanceAttoRep (projectedBalancesAttoRep d) \<and>
        balanceAt (projectedBalancesAttoRep d) 1 = 80
    | _ \<Rightarrow> False" by code_simp
  then obtain d where d: "projectEscalationDeposit 60 (30, 80, 0) 100 OutcomeInvalid 10 = ok (Some d)" "\<not> reachesNonDecision d"
      "balanceAt (projectedBalancesAttoRep d) 0 = getMaxEscalationBalanceAttoRep (projectedBalancesAttoRep d)"
      "balanceAt (projectedBalancesAttoRep d) 1 = 80"
    by (auto split: sum.splits option.splits)
  with escalation_deposit_projection [of 60 "(30, 80, 0)" 100 OutcomeInvalid 10] show ?thesis by (auto simp: Let_def)
qed

section \<open>The claims of the winning side\<close>

text \<open>The claims of consecutive winning deposits, the first starting at the cumulative amount given.\<close>

fun totalWinningClaims :: "int \<Rightarrow> int \<Rightarrow> int \<Rightarrow> int \<Rightarrow> int \<Rightarrow> int list \<Rightarrow> int result" where
  "totalWinningClaims bindingCapital forkThreshold threshold winning start [] = ok 0"
| "totalWinningClaims bindingCapital forkThreshold threshold winning start (a # as) =
     bindR (getWinningEscalationDepositClaimAmount bindingCapital a (start + a) forkThreshold threshold winning)
       (\<lambda>x. bindR (totalWinningClaims bindingCapital forkThreshold threshold winning (start + a) as)
         (\<lambda>y. ok (x + y)))"

text \<open>The scaling of a claim after a fork below the non-decision threshold.\<close>

definition forkScale :: "int \<Rightarrow> int \<Rightarrow> int \<Rightarrow> int" where
  "forkScale ft nt x = (if ft < nt then (x * ft) div nt else x)"

lemma forkScale_mono: "0 \<le> ft \<Longrightarrow> 0 < nt \<Longrightarrow> x \<le> y \<Longrightarrow> forkScale ft nt x \<le> forkScale ft nt y"
  by (simp add: forkScale_def zdiv_mono1 mult_right_mono)

lemma div_superadditive:
  fixes x y d :: int
  assumes "0 < d"
  shows "x div d + y div d \<le> (x + y) div d"
  using div_mult_le_self [OF assms, of x] div_mult_le_self [OF assms, of y] assms
  by (simp add: le_div_iff distrib_right)

lemma forkScale_superadditive: "0 < nt \<Longrightarrow> forkScale ft nt x + forkScale ft nt y \<le> forkScale ft nt (x + y)"
  by (simp add: forkScale_def div_superadditive distrib_right)

text \<open>The reward-eligible part of the interval from \<open>start\<close> to \<open>end\<close>.\<close>

definition eligiblePart :: "int \<Rightarrow> int \<Rightarrow> int \<Rightarrow> int" where
  "eligiblePart cap s e = max 0 (min e cap - s)"

lemma eligiblePart_split: "s \<le> m \<Longrightarrow> m \<le> e \<Longrightarrow> eligiblePart cap s m + eligiblePart cap m e = eligiblePart cap s e"
  by (auto simp: eligiblePart_def)

lemma claim_value:
  assumes "0 \<le> bc" and "0 \<le> a" and "0 \<le> s" and "0 \<le> ft" and "0 < nt" and "0 \<le> w"
  shows "getWinningEscalationDepositClaimAmount bc a (s + a) ft nt w =
    ok (forkScale ft nt (a + (if min w (bc + bc div 2) = 0 then 0
        else (eligiblePart (bc + bc div 2) s (s + a) * ((bc * 3) div 5)) div min w (bc + bc div 2))))"
proof -
  let ?cap = "bc + bc div 2" and ?e = "eligiblePart (bc + bc div 2) s (s + a)"
  have cap: "0 \<le> ?cap" using assms by (simp add: pos_imp_zdiv_nonneg_iff)
  have half: "bc sdiv 2 = bc div 2" and pool: "(bc * 3) sdiv 5 = (bc * 3) div 5"
    using assms by (simp_all add: sdiv_nonneg)
  have pool0: "0 \<le> (bc * 3) div 5" using assms by (simp add: pos_imp_zdiv_nonneg_iff)
  have e0: "0 \<le> ?e" by (simp add: eligiblePart_def)
  have bonus: "(?e * ((bc * 3) div 5)) sdiv min w ?cap = (?e * ((bc * 3) div 5)) div min w ?cap"
    using assms cap pool0 e0 by (intro sdiv_nonneg) auto
  have bonus0: "0 \<le> (?e * ((bc * 3) div 5)) div min w ?cap" if "min w ?cap \<noteq> 0"
    using that assms cap pool0 e0 by (subst pos_imp_zdiv_nonneg_iff) (auto simp: min_def)
  have el: "(let eligibleEnd = (if s + a < ?cap then s + a else ?cap);
         r = (if eligibleEnd > s + a - a then eligibleEnd - (s + a - a) else 0)
       in if r > a then a else r) = ?e"
    using assms by (auto simp: eligiblePart_def Let_def)
  have minw: "(if w < ?cap then w else ?cap) = min w ?cap" by auto
  have scale: "(if ft < nt then bigDiv (x * ft) nt else ok x) = ok (forkScale ft nt x)" if "0 \<le> x" for x
    using that assms by (simp add: forkScale_def bigDiv_pos)
  show ?thesis
  proof (cases "min w ?cap = 0")
    case True
    then show ?thesis
      by (simp only: getWinningEscalationDepositClaimAmount_def getWinningWithdrawalAmount_def half minw
          Let_def if_True scale [OF assms(2)] add_0_right simp_thms)
  next
    case False
    have "0 \<le> a + (?e * ((bc * 3) div 5)) div min w ?cap" using bonus0 [OF False] assms by simp
    with False show ?thesis
      by (simp only: getWinningEscalationDepositClaimAmount_def getWinningWithdrawalAmount_def half pool minw
          Let_def if_False el [unfolded Let_def] bonus scale)
  qed
qed

lemma total_claims_bound:
  assumes "0 \<le> bc" and "0 \<le> ft" and "0 < nt" and "0 \<le> w"
  shows "\<forall>a \<in> set ds. 0 \<le> a \<Longrightarrow> 0 \<le> s \<Longrightarrow>
    \<exists>t. totalWinningClaims bc ft nt w s ds = ok t \<and>
      t \<le> forkScale ft nt (sum_list ds + (if min w (bc + bc div 2) = 0 then 0
        else (eligiblePart (bc + bc div 2) s (s + sum_list ds) * ((bc * 3) div 5)) div min w (bc + bc div 2)))"
proof (induction ds arbitrary: s)
  case Nil
  then show ?case by (simp add: forkScale_def eligiblePart_def)
next
  case (Cons a ds)
  let ?cap = "bc + bc div 2"
  let ?P = "min w ?cap" and ?pool = "(bc * 3) div 5"
  let ?bonus = "\<lambda>s e. if ?P = 0 then 0 else (eligiblePart ?cap s e * ?pool) div ?P"
  have nonneg: "0 \<le> a" "0 \<le> s" "0 \<le> s + a" and ds: "\<forall>a \<in> set ds. 0 \<le> a" using Cons.prems by auto
  have sum0: "0 \<le> sum_list ds" using ds by (simp add: sum_list_nonneg)
  obtain t where t: "totalWinningClaims bc ft nt w (s + a) ds = ok t"
    "t \<le> forkScale ft nt (sum_list ds + ?bonus (s + a) (s + a + sum_list ds))"
    using Cons.IH [OF ds nonneg(3)] by auto
  have "0 \<le> ?P" using assms by (simp add: pos_imp_zdiv_nonneg_iff)
  then have bonus: "?bonus s (s + a) + ?bonus (s + a) (s + a + sum_list ds) \<le> ?bonus s (s + sum_list (a # ds))"
  proof (cases "?P = 0")
    case False
    with \<open>0 \<le> ?P\<close> have P: "0 < ?P" by linarith
    have "eligiblePart ?cap s (s + a) * ?pool + eligiblePart ?cap (s + a) (s + a + sum_list ds) * ?pool
        = eligiblePart ?cap s (s + sum_list (a # ds)) * ?pool"
      using eligiblePart_split [of s "s + a" "s + a + sum_list ds" ?cap] nonneg sum0
      by (simp add: distrib_right [symmetric] add.assoc)
    with div_superadditive [OF P, of "eligiblePart ?cap s (s + a) * ?pool"
        "eligiblePart ?cap (s + a) (s + a + sum_list ds) * ?pool"] False
    show ?thesis by simp
  qed simp
  have "forkScale ft nt (a + ?bonus s (s + a)) + t
      \<le> forkScale ft nt ((a + ?bonus s (s + a)) + (sum_list ds + ?bonus (s + a) (s + a + sum_list ds)))"
    using t(2) forkScale_superadditive [OF assms(3)] by (meson add_left_mono order_trans)
  also have "\<dots> \<le> forkScale ft nt (sum_list (a # ds) + ?bonus s (s + sum_list (a # ds)))"
    using bonus by (intro forkScale_mono [OF assms(2,3)]) simp
  finally show ?case
    using claim_value [OF assms(1) nonneg(1,2) assms(2-4)] t(1) by simp
qed

text \<open>
  C29: when the deposits of the winning outcome are claimed, every claim is computed, and together
  the claims never pay more than the deposits and the reward pool of three fifths of the binding
  capital, scaled down by the fork threshold when that is below the non-decision threshold.
\<close>

theorem winning_claims_within_pool:
  assumes "0 \<le> bindingCapital" and "0 \<le> forkThreshold" and "0 < threshold"
    and "\<forall>a \<in> set deposits. 0 \<le> a" and "sum_list deposits = winning"
  shows "\<exists>claims. totalWinningClaims bindingCapital forkThreshold threshold winning 0 deposits = ok claims \<and>
    claims \<le> forkScale forkThreshold threshold (winning + (bindingCapital * 3) div 5)"
proof -
  let ?cap = "bindingCapital + bindingCapital div 2" and ?pool = "(bindingCapital * 3) div 5"
  have w: "0 \<le> winning" using assms by (auto simp: sum_list_nonneg)
  have cap: "0 \<le> ?cap" and pool: "0 \<le> ?pool"
    using assms by (simp_all add: pos_imp_zdiv_nonneg_iff)
  obtain t where t: "totalWinningClaims bindingCapital forkThreshold threshold winning 0 deposits = ok t"
    "t \<le> forkScale forkThreshold threshold (winning + (if min winning ?cap = 0 then 0
        else (eligiblePart ?cap 0 winning * ?pool) div min winning ?cap))"
    using total_claims_bound [OF assms(1-3) w assms(4) order_refl] unfolding assms(5) add_0 by blast
  have "eligiblePart ?cap 0 winning = min winning ?cap" using w cap by (simp add: eligiblePart_def)
  then have "(if min winning ?cap = 0 then 0
        else (eligiblePart ?cap 0 winning * ?pool) div min winning ?cap) \<le> ?pool"
    using pool by simp
  with t(2) have "t \<le> forkScale forkThreshold threshold (winning + ?pool)"
    by (meson add_left_mono assms(2,3) forkScale_mono order_trans)
  with t(1) show ?thesis by blast
qed

lemma winning_claims_within_pool_witness:
  "\<exists>claims. totalWinningClaims 100 1000 500 160 0 [100, 60] = ok claims \<and> claims \<le> 220"
  using winning_claims_within_pool [of 100 1000 500 "[100, 60]" 160] by (simp add: forkScale_def)

end
