(* ===== verification/Liquidation.thy ===== *)
theory Liquidation
  imports Js_Strings
begin

text \<open>
  Liquidations: the funding formulas of \<open>shared/ts/liquidation.ts\<close> and the liquidator bot's
  strategy, \<open>bots/liquidator/src/core/strategy.ts\<close>: vault health, the transfer a liquidation
  makes, the evaluation of a candidate, the order of candidates, and the withdrawal of surplus. All
  amounts are bigints; every division that can meet a zero divisor is a \<open>result\<close>.
\<close>

section \<open>Shared funding formulas\<close>

definition LIQUIDATION_PRICE_PRECISION :: int where
  [simp]: "LIQUIDATION_PRICE_PRECISION = 10 ^ 18"

definition LIQUIDATION_BPS_DENOMINATOR :: int where
  [simp]: "LIQUIDATION_BPS_DENOMINATOR = 10000"

definition LIQUIDATION_REP_BONUS_BPS :: int where
  [simp]: "LIQUIDATION_REP_BONUS_BPS = 500"

definition getLiquidationVaultRepBackingToTransfer :: "int \<Rightarrow> int \<Rightarrow> int" where
  "getLiquidationVaultRepBackingToTransfer debtMoved repPerEthPrice =
     (let numerator = debtMoved * repPerEthPrice * (LIQUIDATION_BPS_DENOMINATOR + LIQUIDATION_REP_BONUS_BPS);
          denominator = LIQUIDATION_PRICE_PRECISION * LIQUIDATION_BPS_DENOMINATOR
      in (numerator + denominator - 1) sdiv denominator)"

definition getMaximumFundedDebtAttoEth :: "int \<Rightarrow> int \<Rightarrow> int" where
  "getMaximumFundedDebtAttoEth transferableRepBacking repPerEthPrice =
     (if transferableRepBacking \<le> 0 \<or> repPerEthPrice \<le> 0 then 0
      else (transferableRepBacking * LIQUIDATION_PRICE_PRECISION * LIQUIDATION_BPS_DENOMINATOR)
        sdiv (repPerEthPrice * (LIQUIDATION_BPS_DENOMINATOR + LIQUIDATION_REP_BONUS_BPS)))"

section \<open>Rounding and units of the bot\<close>

definition PRICE_PRECISION :: int where
  [simp]: "PRICE_PRECISION = 10 ^ 18"

definition BPS_DENOMINATOR_bot :: int where
  [simp]: "BPS_DENOMINATOR_bot = 10000"

definition LIQUIDATION_REP_BONUS_BPS_bot :: int where
  [simp]: "LIQUIDATION_REP_BONUS_BPS_bot = 500"

definition liquidationExecutionAllowed :: "int \<Rightarrow> bool \<Rightarrow> bool" where
  "liquidationExecutionAllowed coordinatorPrice centralizedPriceAllowed \<longleftrightarrow>
     coordinatorPrice > 0 \<and> centralizedPriceAllowed"

definition ceilDiv_bot :: "int \<Rightarrow> int \<Rightarrow> int result" where
  "ceilDiv_bot numerator denominator =
     (if denominator \<le> 0 then throw ''Division denominator must be positive''
      else if numerator = 0 then ok 0
      else ok ((numerator - 1) sdiv denominator + 1))"

definition mulDivUp :: "int \<Rightarrow> int \<Rightarrow> int \<Rightarrow> int result" where
  "mulDivUp left right denominator = ceilDiv_bot (left * right) denominator"

definition migrationMultiplierBps :: "int \<Rightarrow> int" where
  "migrationMultiplierBps multiplierBps =
     (let migrationMultiplier = BPS_DENOMINATOR_bot + (multiplierBps - BPS_DENOMINATOR_bot) sdiv 2
      in if migrationMultiplier > BPS_DENOMINATOR_bot + LIQUIDATION_REP_BONUS_BPS_bot then migrationMultiplier
         else BPS_DENOMINATOR_bot + LIQUIDATION_REP_BONUS_BPS_bot)"

definition repForBackingUnits :: "int \<Rightarrow> int \<Rightarrow> int \<Rightarrow> int" where
  "repForBackingUnits units totalAttoRep denominator =
     (if units = 0 \<or> denominator = 0 then 0 else (units * totalAttoRep) sdiv denominator)"

definition backingUnitsForRep :: "int \<Rightarrow> int \<Rightarrow> int \<Rightarrow> bool \<Rightarrow> int result" where
  "backingUnitsForRep backing totalAttoRep denominator roundUp =
     (if denominator = 0 \<or> totalAttoRep = 0 then ok (backing * PRICE_PRECISION)
      else if roundUp then mulDivUp backing denominator totalAttoRep
      else ok ((backing * denominator) sdiv totalAttoRep))"

section \<open>Vault health\<close>

text \<open>\<open>disputeStakedAttoRep\<close> is 0 and \<open>healthBps\<close> is 10000 where the caller leaves them out.\<close>

definition requiredRepForOpenInterest :: "int \<Rightarrow> int \<Rightarrow> int \<Rightarrow> int \<Rightarrow> int \<Rightarrow> int result" where
  "requiredRepForOpenInterest openInterest multiplierBps price healthBps disputeStaked =
     (if openInterest = 0 then ok 0
      else
        bindR (mulDivUp openInterest price PRICE_PRECISION) (\<lambda>baseRequired.
        bindR (mulDivUp baseRequired multiplierBps BPS_DENOMINATOR_bot) (\<lambda>associatedMinimum.
        bindR (mulDivUp associatedMinimum healthBps BPS_DENOMINATOR_bot) (\<lambda>totalAssociatedRequired.
        let associatedRequired = (if totalAssociatedRequired > disputeStaked
                                  then totalAssociatedRequired - disputeStaked else 0) in
        bindR (mulDivUp baseRequired (migrationMultiplierBps multiplierBps) BPS_DENOMINATOR_bot) (\<lambda>freeMinimum.
        bindR (mulDivUp freeMinimum healthBps BPS_DENOMINATOR_bot) (\<lambda>freeRequired.
        ok (if associatedRequired > freeRequired then associatedRequired else freeRequired)))))))"

definition vaultHealthBps :: "int \<Rightarrow> int \<Rightarrow> int \<Rightarrow> int \<Rightarrow> int \<Rightarrow> int option result" where
  "vaultHealthBps backing openInterest multiplierBps price disputeStaked =
     (if openInterest = 0 \<or> price = 0 then ok None
      else
        bindR (mulDivUp openInterest price PRICE_PRECISION) (\<lambda>baseRequired.
        bindR (mulDivUp baseRequired multiplierBps BPS_DENOMINATOR_bot) (\<lambda>associatedMinimum.
        bindR (mulDivUp baseRequired (migrationMultiplierBps multiplierBps) BPS_DENOMINATOR_bot) (\<lambda>freeMinimum.
        let associatedHealth = (if associatedMinimum = 0 then BPS_DENOMINATOR_bot
              else ((backing + disputeStaked) * BPS_DENOMINATOR_bot) sdiv associatedMinimum);
            freeHealth = (if freeMinimum = 0 then BPS_DENOMINATOR_bot
              else (backing * BPS_DENOMINATOR_bot) sdiv freeMinimum)
        in ok (Some (if associatedHealth < freeHealth then associatedHealth else freeHealth))))))"

definition liquidationPriceDistanceBps :: "int \<Rightarrow> int \<Rightarrow> int \<Rightarrow> int \<Rightarrow> int \<Rightarrow> int result" where
  "liquidationPriceDistanceBps targetBacking openInterest multiplierBps price disputeStaked =
     (if openInterest = 0 \<or> price = 0 then ok 0
      else
        let valueScale = PRICE_PRECISION * BPS_DENOMINATOR_bot in
        bindR (bigDiv ((targetBacking + disputeStaked) * valueScale) (openInterest * multiplierBps)) (\<lambda>associatedThreshold.
        bindR (bigDiv (targetBacking * valueScale) (openInterest * migrationMultiplierBps multiplierBps)) (\<lambda>freeThreshold.
        let thresholdPrice = (if associatedThreshold < freeThreshold then associatedThreshold else freeThreshold) in
        if price \<le> thresholdPrice then ok 0
        else bigDiv ((price - thresholdPrice) * BPS_DENOMINATOR_bot) price)))"

definition isUnsafeVault :: "int \<Rightarrow> int \<Rightarrow> int \<Rightarrow> int \<Rightarrow> int \<Rightarrow> bool result" where
  "isUnsafeVault backing openInterest multiplierBps price disputeStaked =
     bindR (vaultHealthBps backing openInterest multiplierBps price disputeStaked) (\<lambda>health.
       ok (case health of None \<Rightarrow> False | Some h \<Rightarrow> h < BPS_DENOMINATOR_bot))"

section \<open>Liquidation transfer\<close>

record LiquidationTransferParameters =
  currentPoolHeldAttoRepBalance :: int
  currentTargetBackingUnits :: int
  currentTotalRepBackingUnits :: int
  minimumRemainingAttoRep :: int
  transferPrice :: int
  transferRequestedDebt :: int
  snapshotTargetCapacityOwnership :: int
  snapshotTargetOpenInterest :: int

record LiquidationTransfer =
  backingUnitsToTransfer :: int
  transferCapacityOwnershipToMove :: int
  transferDebtToMove :: int
  transferBackingToTransfer :: int

definition zeroTransfer :: LiquidationTransfer where
  "zeroTransfer = \<lparr>backingUnitsToTransfer = 0, transferCapacityOwnershipToMove = 0,
     transferDebtToMove = 0, transferBackingToTransfer = 0\<rparr>"

definition calculateLiquidationTransfer :: "LiquidationTransferParameters \<Rightarrow> LiquidationTransfer result" where
  "calculateLiquidationTransfer p =
     (if snapshotTargetCapacityOwnership p = 0 \<or> snapshotTargetOpenInterest p = 0
         \<or> transferRequestedDebt p = 0 \<or> transferPrice p = 0
      then ok zeroTransfer
      else
        bindR (backingUnitsForRep (minimumRemainingAttoRep p) (currentPoolHeldAttoRepBalance p)
                 (currentTotalRepBackingUnits p) True) (\<lambda>reservedBackingUnits.
        if reservedBackingUnits \<ge> currentTargetBackingUnits p then ok zeroTransfer
        else
          let transferableBackingUnits = currentTargetBackingUnits p - reservedBackingUnits;
              transferableAttoRep = (if currentTotalRepBackingUnits p = 0
                then transferableBackingUnits sdiv PRICE_PRECISION
                else repForBackingUnits transferableBackingUnits (currentPoolHeldAttoRepBalance p) (currentTotalRepBackingUnits p))
          in
          bindR (bigDiv (transferableAttoRep * PRICE_PRECISION * BPS_DENOMINATOR_bot)
                   (transferPrice p * (BPS_DENOMINATOR_bot + LIQUIDATION_REP_BONUS_BPS_bot))) (\<lambda>maximumFundedDebt.
          let boundedRequest = (if transferRequestedDebt p < snapshotTargetOpenInterest p
                then transferRequestedDebt p else snapshotTargetOpenInterest p);
              debtToMove = (if boundedRequest < maximumFundedDebt then boundedRequest else maximumFundedDebt)
          in
          if debtToMove = 0 then ok zeroTransfer
          else
            let capacityOwnershipToMove = (if debtToMove = snapshotTargetOpenInterest p
                  then snapshotTargetCapacityOwnership p
                  else (snapshotTargetCapacityOwnership p * debtToMove) sdiv snapshotTargetOpenInterest p)
            in
            if capacityOwnershipToMove = 0 then ok zeroTransfer
            else
              bindR (mulDivUp debtToMove (transferPrice p * (BPS_DENOMINATOR_bot + LIQUIDATION_REP_BONUS_BPS_bot))
                       (PRICE_PRECISION * BPS_DENOMINATOR_bot)) (\<lambda>grossRepAward.
              bindR (backingUnitsForRep grossRepAward (currentPoolHeldAttoRepBalance p)
                       (currentTotalRepBackingUnits p) True) (\<lambda>units.
              if units > transferableBackingUnits then throw ''Liquidation award exceeds funded backing''
              else
                let backing = (if currentTotalRepBackingUnits p = 0 then units sdiv PRICE_PRECISION
                      else repForBackingUnits units (currentPoolHeldAttoRepBalance p) (currentTotalRepBackingUnits p))
                in ok \<lparr>backingUnitsToTransfer = units, transferCapacityOwnershipToMove = capacityOwnershipToMove,
                       transferDebtToMove = debtToMove, transferBackingToTransfer = backing\<rparr>)))))"

section \<open>Candidates\<close>

record VaultPosition =
  vp_address :: string
  vp_backingUnits :: int
  vp_badDebtAttoEth :: int
  vp_capacityOwnershipAttoRep :: int
  vp_claimableFeesAttoEth :: int
  vp_disputeStakedAttoRep :: int
  vp_openInterestAttoEth :: int
  vp_vaultAttoRepBacking :: int

record PoolRiskContext =
  pr_address :: string
  pr_denominator :: int
  pr_feeEligibleCapacityOwnershipAttoRep :: int
  pr_manager :: string
  pr_minimumSecurityBondDebtAttoEth :: int
  pr_minimumVaultRepDepositAttoRep :: int
  pr_minLiquidationPriceDistanceBps :: int
  pr_multiplierBps :: int
  pr_price :: int
  pr_settlementCollateralAttoEth :: int
  pr_totalAttoRep :: int
  pr_totalCapacityOwnershipAttoRep :: int

record LiquidationCandidate =
  lc_bonusValueAttoEth :: int
  lc_capacityOwnershipToMoveAttoRep :: int
  lc_debtToMoveAttoEth :: int
  lc_pool :: PoolRiskContext
  lc_priceDistanceBps :: int
  lc_requestedDebtAttoEth :: int
  lc_resultingHealthBps :: int
  lc_target :: VaultPosition
  lc_topUpAttoRep :: int
  lc_vaultAttoRepBackingToTransfer :: int

datatype CandidatePriority = LargestBonus | LargestDebt | LowestTopUp

record StrategySettings =
  ss_allowAutomaticDeposits :: bool
  ss_allowAutomaticPoolCreation :: bool
  ss_allowAutomaticVaultMigrations :: bool
  ss_allowAutomaticWithdrawals :: bool
  ss_candidatePriority :: CandidatePriority
  ss_fallbackRepPerEthPrice :: int
  ss_maximumGasCostAttoEth :: int
  ss_maximumLiquidationDebtAttoEth :: int
  ss_maximumOracleRequestCostAttoEth :: int
  ss_maximumAttoRepPerPool :: int
  ss_maximumTotalDeployedRep :: int
  ss_minimumLiquidationDebtAttoEth :: int
  ss_minimumRepWithdrawalAttoRep :: int
  ss_minimumRewardValueAttoEth :: int
  ss_redeemFeesAboveAttoEth :: int
  ss_stalePriceFundingBufferBps :: int
  ss_stagedOperationValidForSeconds :: int
  ss_vaultTargetHealthBps :: int
  ss_vaultTopUpHealthBps :: int
  ss_vaultWithdrawHealthBps :: int
  ss_walletAttoRepReserve :: int

definition conservativeLiquidationRep :: "int \<Rightarrow> VaultPosition \<Rightarrow> int \<Rightarrow> int result" where
  "conservativeLiquidationRep debtToMove target price =
     bindR (mulDivUp debtToMove (price * (BPS_DENOMINATOR_bot + LIQUIDATION_REP_BONUS_BPS_bot))
              (PRICE_PRECISION * BPS_DENOMINATOR_bot)) (\<lambda>nominalAttoRep.
       ok (if debtToMove = vp_openInterestAttoEth target \<and> vp_vaultAttoRepBacking target > nominalAttoRep
           then vp_vaultAttoRepBacking target else nominalAttoRep))"

definition evaluateCandidate ::
  "PoolRiskContext \<Rightarrow> VaultPosition \<Rightarrow> VaultPosition \<Rightarrow> StrategySettings \<Rightarrow> LiquidationCandidate option result" where
  "evaluateCandidate pool target caller strategy =
     (if pr_price pool = 0 then ok None else
      bindR (isUnsafeVault (vp_vaultAttoRepBacking target) (vp_openInterestAttoEth target)
               (pr_multiplierBps pool) (pr_price pool) (vp_disputeStakedAttoRep target)) (\<lambda>unsafe.
      if \<not> unsafe then ok None else
      bindR (liquidationPriceDistanceBps (vp_vaultAttoRepBacking target) (vp_openInterestAttoEth target)
               (pr_multiplierBps pool) (pr_price pool) (vp_disputeStakedAttoRep target)) (\<lambda>priceDistance.
      if priceDistance < pr_minLiquidationPriceDistanceBps pool then ok None else
      let requestedDebt = (if ss_maximumLiquidationDebtAttoEth strategy < vp_openInterestAttoEth target
            then ss_maximumLiquidationDebtAttoEth strategy else vp_openInterestAttoEth target) in
      bindR (calculateLiquidationTransfer
        \<lparr>currentPoolHeldAttoRepBalance = pr_totalAttoRep pool,
         currentTargetBackingUnits = vp_backingUnits target,
         currentTotalRepBackingUnits = pr_denominator pool,
         minimumRemainingAttoRep = (if requestedDebt \<ge> vp_openInterestAttoEth target then 0
                                    else pr_minimumVaultRepDepositAttoRep pool),
         transferPrice = pr_price pool,
         transferRequestedDebt = requestedDebt,
         snapshotTargetCapacityOwnership = vp_capacityOwnershipAttoRep target,
         snapshotTargetOpenInterest = vp_openInterestAttoEth target\<rparr>) (\<lambda>transfer.
      let resultingCapacity = vp_capacityOwnershipAttoRep caller + transferCapacityOwnershipToMove transfer in
      bindR (if resultingCapacity = 0 \<or> pr_totalCapacityOwnershipAttoRep pool = 0 then ok 0
             else mulDivUp (pr_settlementCollateralAttoEth pool) resultingCapacity (pr_totalCapacityOwnershipAttoRep pool))
        (\<lambda>grossOpenInterest.
      let resultingOpenInterest = (if grossOpenInterest > vp_badDebtAttoEth caller
            then grossOpenInterest - vp_badDebtAttoEth caller else 0) in
      if resultingOpenInterest < vp_openInterestAttoEth caller then ok None else
      let debtToMove = resultingOpenInterest - vp_openInterestAttoEth caller in
      if debtToMove < ss_minimumLiquidationDebtAttoEth strategy \<or> debtToMove > transferDebtToMove transfer then ok None else
      if resultingOpenInterest < pr_minimumSecurityBondDebtAttoEth pool then ok None else
      bindR (mulDivUp debtToMove (pr_price pool * (BPS_DENOMINATOR_bot + LIQUIDATION_REP_BONUS_BPS_bot))
               (PRICE_PRECISION * BPS_DENOMINATOR_bot)) (\<lambda>grossRepAward.
      bindR (backingUnitsForRep grossRepAward (pr_totalAttoRep pool) (pr_denominator pool) True) (\<lambda>units.
      if units > backingUnitsToTransfer transfer then ok None else
      let backing = (if pr_denominator pool = 0 then units sdiv PRICE_PRECISION
            else repForBackingUnits units (pr_totalAttoRep pool) (pr_denominator pool)) in
      bindR (requiredRepForOpenInterest resultingOpenInterest (pr_multiplierBps pool) (pr_price pool)
               (ss_vaultTargetHealthBps strategy) (vp_disputeStakedAttoRep caller)) (\<lambda>healthRequired.
      let requiredResulting = (if healthRequired > pr_minimumVaultRepDepositAttoRep pool then healthRequired
            else pr_minimumVaultRepDepositAttoRep pool);
          beforeTopUp = vp_vaultAttoRepBacking caller + backing;
          finalHealthTopUp = (if requiredResulting > beforeTopUp then requiredResulting - beforeTopUp else 0);
          standaloneTopUp = (if pr_minimumVaultRepDepositAttoRep pool > vp_vaultAttoRepBacking caller
            then pr_minimumVaultRepDepositAttoRep pool - vp_vaultAttoRepBacking caller else 0);
          topUp = (if standaloneTopUp > finalHealthTopUp then standaloneTopUp else finalHealthTopUp)
      in
      if beforeTopUp + topUp > ss_maximumAttoRepPerPool strategy then ok None else
      bindR (bigDiv (backing * PRICE_PRECISION) (pr_price pool)) (\<lambda>awardValue.
      let bonusValue = (if awardValue > debtToMove then awardValue - debtToMove else 0) in
      if bonusValue < ss_minimumRewardValueAttoEth strategy then ok None else
      bindR (vaultHealthBps (beforeTopUp + topUp) resultingOpenInterest (pr_multiplierBps pool)
               (pr_price pool) (vp_disputeStakedAttoRep caller)) (\<lambda>health.
      ok (Some
        \<lparr>lc_bonusValueAttoEth = bonusValue,
         lc_capacityOwnershipToMoveAttoRep = transferCapacityOwnershipToMove transfer,
         lc_debtToMoveAttoEth = debtToMove,
         lc_pool = pool,
         lc_priceDistanceBps = priceDistance,
         lc_requestedDebtAttoEth = requestedDebt,
         lc_resultingHealthBps = (case health of None \<Rightarrow> ss_vaultTargetHealthBps strategy | Some h \<Rightarrow> h),
         lc_target = target,
         lc_topUpAttoRep = topUp,
         lc_vaultAttoRepBackingToTransfer = backing\<rparr>)))))))))))"

definition candidateValue :: "CandidatePriority \<Rightarrow> LiquidationCandidate \<Rightarrow> int" where
  "candidateValue priority c =
     (if priority = LargestDebt then lc_debtToMoveAttoEth c
      else if priority = LowestTopUp then - lc_topUpAttoRep c
      else lc_bonusValueAttoEth c)"

definition compareCandidates :: "CandidatePriority \<Rightarrow> LiquidationCandidate \<Rightarrow> LiquidationCandidate \<Rightarrow> int" where
  "compareCandidates priority left right =
     (if candidateValue priority left = candidateValue priority right
      then localeCompare (vp_address (lc_target left)) (vp_address (lc_target right))
      else if candidateValue priority left > candidateValue priority right then -1 else 1)"

definition sortCandidates :: "LiquidationCandidate list \<Rightarrow> CandidatePriority \<Rightarrow> LiquidationCandidate list" where
  "sortCandidates candidates priority = js_sort (compareCandidates priority) candidates"

definition selectAllowedCandidate ::
  "LiquidationCandidate list \<Rightarrow> CandidatePriority \<Rightarrow> (LiquidationCandidate \<Rightarrow> bool) \<Rightarrow> LiquidationCandidate option" where
  "selectAllowedCandidate candidates priority allowed = List.find allowed (sortCandidates candidates priority)"

definition surplusRepForWithdrawal :: "VaultPosition \<Rightarrow> PoolRiskContext \<Rightarrow> StrategySettings \<Rightarrow> int result" where
  "surplusRepForWithdrawal caller pool strategy =
     (if vp_vaultAttoRepBacking caller = 0 then ok 0
      else
        bindR (requiredRepForOpenInterest (vp_openInterestAttoEth caller) (pr_multiplierBps pool) (pr_price pool)
                 (ss_vaultTargetHealthBps strategy) (vp_disputeStakedAttoRep caller)) (\<lambda>healthRequired.
        let retained = (if vp_openInterestAttoEth caller > 0 \<and> pr_minimumVaultRepDepositAttoRep pool > healthRequired
              then pr_minimumVaultRepDepositAttoRep pool else healthRequired);
            surplus = (if vp_vaultAttoRepBacking caller > retained then vp_vaultAttoRepBacking caller - retained else 0);
            answer = (if surplus \<ge> ss_minimumRepWithdrawalAttoRep strategy then surplus else 0)
        in
        if vp_openInterestAttoEth caller > 0 then
          bindR (vaultHealthBps (vp_vaultAttoRepBacking caller) (vp_openInterestAttoEth caller) (pr_multiplierBps pool)
                   (pr_price pool) (vp_disputeStakedAttoRep caller)) (\<lambda>health.
          case health of
            None \<Rightarrow> ok 0
          | Some h \<Rightarrow> if h < ss_vaultWithdrawHealthBps strategy then ok 0 else ok answer)
        else ok answer))"

section \<open>Rounding up\<close>

lemma ceilDiv_bot_value: "0 \<le> n \<Longrightarrow> 0 < d \<Longrightarrow> ceilDiv_bot n d = ok (ceil_quot n d)"
  by (cases "n = 0") (simp_all add: ceilDiv_bot_def ceil_quot_pred_idiom)

interpretation bot_ceil: ceil_division ceilDiv_bot
  by unfold_locales (rule ceilDiv_bot_value)

lemma mulDivUp_value: "0 \<le> a * b \<Longrightarrow> 0 < d \<Longrightarrow> mulDivUp a b d = ok (ceil_quot (a * b) d)"
  by (simp add: mulDivUp_def ceilDiv_bot_value)

lemma migrationMultiplierBps_ge: "10500 \<le> migrationMultiplierBps m"
  by (simp add: migrationMultiplierBps_def Let_def)

section \<open>Health and required backing\<close>

text \<open>The backing at health 10000: with and without the stake in disputes counted.\<close>

definition baseRequirement :: "int \<Rightarrow> int \<Rightarrow> int" where
  "baseRequirement openInterest price = ceil_quot (openInterest * price) (10 ^ 18)"

definition associatedMinimum :: "int \<Rightarrow> int \<Rightarrow> int \<Rightarrow> int" where
  "associatedMinimum openInterest multiplier price = ceil_quot (baseRequirement openInterest price * multiplier) 10000"

definition freeMinimum :: "int \<Rightarrow> int \<Rightarrow> int \<Rightarrow> int" where
  "freeMinimum openInterest multiplier price =
     ceil_quot (baseRequirement openInterest price * migrationMultiplierBps multiplier) 10000"

lemma minimum_pos:
  assumes "0 < openInterest" and "0 < price"
  shows "0 < baseRequirement openInterest price"
    and "0 < freeMinimum openInterest multiplier price"
    and "0 < multiplier \<Longrightarrow> 0 < associatedMinimum openInterest multiplier price"
proof -
  show base: "0 < baseRequirement openInterest price"
    using assms by (simp add: baseRequirement_def ceil_quot_pos_iff)
  have "0 < migrationMultiplierBps multiplier" using migrationMultiplierBps_ge [of multiplier] by simp
  with base show "0 < freeMinimum openInterest multiplier price"
    by (simp add: freeMinimum_def ceil_quot_pos_iff)
  show "0 < associatedMinimum openInterest multiplier price" if "0 < multiplier"
    using base that by (simp add: associatedMinimum_def ceil_quot_pos_iff)
qed

lemma required_value:
  assumes "0 < oi" and "0 < price" and "0 < m" and "0 \<le> h"
  shows "requiredRepForOpenInterest oi m price h disp =
    ok (max (max 0 (ceil_quot (associatedMinimum oi m price * h) 10000 - disp))
            (ceil_quot (freeMinimum oi m price * h) 10000))"
proof -
  note pos = minimum_pos [OF assms(1,2)]
  have mig: "0 < migrationMultiplierBps m" using migrationMultiplierBps_ge [of m] by simp
  have 1: "mulDivUp oi price PRICE_PRECISION = ok (baseRequirement oi price)"
    using assms by (simp add: mulDivUp_value baseRequirement_def)
  have 2: "mulDivUp (baseRequirement oi price) m BPS_DENOMINATOR_bot = ok (associatedMinimum oi m price)"
    using assms pos(1) by (simp add: mulDivUp_value associatedMinimum_def)
  have 3: "mulDivUp (baseRequirement oi price) (migrationMultiplierBps m) BPS_DENOMINATOR_bot = ok (freeMinimum oi m price)"
    using pos(1) mig by (simp add: mulDivUp_value freeMinimum_def)
  have 4: "mulDivUp (associatedMinimum oi m price) h BPS_DENOMINATOR_bot = ok (ceil_quot (associatedMinimum oi m price * h) 10000)"
    using assms pos(3) [of m] by (simp add: mulDivUp_value)
  have 5: "mulDivUp (freeMinimum oi m price) h BPS_DENOMINATOR_bot = ok (ceil_quot (freeMinimum oi m price * h) 10000)"
    using assms pos(2) [of m] by (simp add: mulDivUp_value)
  show ?thesis
    using assms(1) by (simp add: requiredRepForOpenInterest_def 1 2 3 4 5 Let_def max_def
        del: PRICE_PRECISION_def BPS_DENOMINATOR_bot_def)
qed

lemma backing_required_le_iff:
  assumes "0 \<le> q"
  shows "max (max 0 (ceil_quot (a * h) 10000 - disp)) (ceil_quot (f * h) 10000) \<le> q \<longleftrightarrow>
    a * h \<le> (q + disp) * 10000 \<and> f * h \<le> q * 10000"
proof -
  have "ceil_quot (a * h) 10000 - disp \<le> q \<longleftrightarrow> a * h \<le> (q + disp) * 10000"
    using ceil_quot_le_iff [of 10000 "a * h" "q + disp"] by (simp add: diff_le_eq)
  moreover have "ceil_quot (f * h) 10000 \<le> q \<longleftrightarrow> f * h \<le> q * 10000"
    using ceil_quot_le_iff [of 10000 "f * h" q] by simp
  ultimately show ?thesis using assms by auto
qed

lemma health_value:
  assumes "0 < oi" and "0 < price" and "0 < m" and "0 \<le> backing" and "0 \<le> disp"
  shows "vaultHealthBps backing oi m price disp =
    ok (Some (min (((backing + disp) * 10000) div associatedMinimum oi m price)
                  ((backing * 10000) div freeMinimum oi m price)))"
proof -
  note pos = minimum_pos [OF assms(1,2)]
  have mig: "0 < migrationMultiplierBps m" using migrationMultiplierBps_ge [of m] by simp
  have 1: "mulDivUp oi price PRICE_PRECISION = ok (baseRequirement oi price)"
    using assms by (simp add: mulDivUp_value baseRequirement_def)
  have 2: "mulDivUp (baseRequirement oi price) m BPS_DENOMINATOR_bot = ok (associatedMinimum oi m price)"
    using assms pos(1) by (simp add: mulDivUp_value associatedMinimum_def)
  have 3: "mulDivUp (baseRequirement oi price) (migrationMultiplierBps m) BPS_DENOMINATOR_bot = ok (freeMinimum oi m price)"
    using pos(1) mig by (simp add: mulDivUp_value freeMinimum_def)
  have 4: "((backing + disp) * BPS_DENOMINATOR_bot) sdiv associatedMinimum oi m price =
      ((backing + disp) * 10000) div associatedMinimum oi m price"
    using assms pos(3) [of m] by (simp add: sdiv_nonneg)
  have 5: "(backing * BPS_DENOMINATOR_bot) sdiv freeMinimum oi m price = (backing * 10000) div freeMinimum oi m price"
    using assms pos(2) [of m] by (simp add: sdiv_nonneg)
  have nz: "associatedMinimum oi m price \<noteq> 0" "freeMinimum oi m price \<noteq> 0" "oi \<noteq> 0" "price \<noteq> 0"
    using assms pos(2) [of m] pos(3) [of m] by auto
  have "vaultHealthBps backing oi m price disp =
      ok (Some (if ((backing + disp) * 10000) div associatedMinimum oi m price < (backing * 10000) div freeMinimum oi m price
                then ((backing + disp) * 10000) div associatedMinimum oi m price
                else (backing * 10000) div freeMinimum oi m price))"
    by (simp only: vaultHealthBps_def 1 2 3 4 5 nz bindR_simps Let_def if_False simp_thms)
  then show ?thesis by (simp only: min_def not_less [symmetric] if_not_P) (simp add: not_less)
qed

text \<open>
  For a vault with open interest, the health the bot computes is at least a given factor
  exactly when the vault's backing covers the requirement the bot computes for that factor: the two
  formulas, which round in opposite directions, agree on every input.
\<close>

lemma vault_health_iff_required_backing:
  assumes "0 < openInterest" and "0 < price" and "0 < multiplier"
    and "0 \<le> backing" and "0 \<le> disputeStaked" and "0 \<le> healthBps"
  shows "\<exists>health required. vaultHealthBps backing openInterest multiplier price disputeStaked = ok (Some health) \<and>
    requiredRepForOpenInterest openInterest multiplier price healthBps disputeStaked = ok required \<and>
    (healthBps \<le> health \<longleftrightarrow> required \<le> backing)"
proof -
  let ?a = "associatedMinimum openInterest multiplier price" and ?f = "freeMinimum openInterest multiplier price"
  note pos = minimum_pos [OF assms(1,2)]
  have "healthBps \<le> min (((backing + disputeStaked) * 10000) div ?a) ((backing * 10000) div ?f) \<longleftrightarrow>
      ?a * healthBps \<le> (backing + disputeStaked) * 10000 \<and> ?f * healthBps \<le> backing * 10000"
    using pos(2) pos(3) [OF assms(3)] by (simp add: le_div_iff mult.commute)
  with backing_required_le_iff [OF assms(4), of ?a healthBps disputeStaked ?f]
  show ?thesis by (simp add: health_value required_value assms)
qed

lemma vault_health_iff_required_backing_example:
  "\<exists>health required. vaultHealthBps 300 100 20000 (10 ^ 18) 0 = ok (Some health) \<and>
    requiredRepForOpenInterest 100 20000 (10 ^ 18) 15000 0 = ok required \<and> (15000 \<le> health \<longleftrightarrow> required \<le> 300)"
  using vault_health_iff_required_backing [of 100 "10 ^ 18" 20000 300 0 15000] by simp

section \<open>Funded transfers\<close>

text \<open>The units that fund an award: those of the award's value rounded up, never more than its source.\<close>

definition unitsFor :: "int \<Rightarrow> int \<Rightarrow> int \<Rightarrow> int" where
  "unitsFor backing totalRep denominator =
     (if denominator = 0 \<or> totalRep = 0 then backing * 10 ^ 18 else ceil_quot (backing * denominator) totalRep)"

definition repOf :: "int \<Rightarrow> int \<Rightarrow> int \<Rightarrow> int" where
  "repOf units totalRep denominator =
     (if denominator = 0 then units div 10 ^ 18 else (units * totalRep) div denominator)"

lemma backingUnitsForRep_value:
  assumes "0 \<le> backing" and "0 \<le> totalRep" and "0 \<le> denominator"
  shows "backingUnitsForRep backing totalRep denominator True = ok (unitsFor backing totalRep denominator)"
  using assms by (simp add: backingUnitsForRep_def unitsFor_def mulDivUp_value)

lemma unitsFor_nonneg: "0 \<le> backing \<Longrightarrow> 0 \<le> totalRep \<Longrightarrow> 0 \<le> denominator \<Longrightarrow> 0 \<le> unitsFor backing totalRep denominator"
  by (simp add: unitsFor_def ceil_quot_nonneg)

lemma repForBackingUnits_value:
  assumes "0 \<le> units" and "0 \<le> totalRep" and "0 \<le> denominator"
  shows "(if denominator = 0 then units sdiv PRICE_PRECISION else repForBackingUnits units totalRep denominator)
    = repOf units totalRep denominator"
  using assms by (simp add: repOf_def repForBackingUnits_def sdiv_nonneg)

lemma repOf_nonneg: "0 \<le> units \<Longrightarrow> 0 \<le> totalRep \<Longrightarrow> 0 \<le> denominator \<Longrightarrow> 0 \<le> repOf units totalRep denominator"
  by (simp add: repOf_def pos_imp_zdiv_nonneg_iff)

lemma unitsFor_le:
  assumes "0 \<le> units" and "0 \<le> totalRep" and "0 \<le> denominator" and "0 < award"
    and "award \<le> repOf units totalRep denominator"
  shows "unitsFor award totalRep denominator \<le> units"
proof (cases "denominator = 0")
  case True
  with assms show ?thesis by (simp add: repOf_def unitsFor_def le_div_iff)
next
  case False
  with assms have "totalRep \<noteq> 0" by (auto simp: repOf_def)
  moreover from False assms have "award * denominator \<le> units * totalRep"
    by (simp add: repOf_def le_div_iff)
  ultimately show ?thesis using False assms by (simp add: unitsFor_def ceil_quot_le_iff)
qed

definition nonneg_transfer :: "LiquidationTransferParameters \<Rightarrow> bool" where
  "nonneg_transfer p \<longleftrightarrow> 0 \<le> currentPoolHeldAttoRepBalance p \<and> 0 \<le> currentTargetBackingUnits p \<and>
     0 \<le> currentTotalRepBackingUnits p \<and> 0 \<le> minimumRemainingAttoRep p \<and> 0 \<le> transferPrice p \<and>
     0 \<le> transferRequestedDebt p \<and> 0 \<le> snapshotTargetCapacityOwnership p \<and> 0 \<le> snapshotTargetOpenInterest p"

text \<open>The award of a debt within the funded maximum is covered by the transferable backing.\<close>

lemma award_funded:
  assumes "0 < price" and "0 < debt" and "debt \<le> (rep * 10 ^ 18 * 10000) div (price * 10500)"
  shows "0 < ceil_quot (debt * (price * 10500)) (10 ^ 18 * 10000)"
    and "ceil_quot (debt * (price * 10500)) (10 ^ 18 * 10000) \<le> rep"
proof -
  have "debt * (price * 10500) \<le> rep * 10 ^ 18 * 10000"
    using assms by (simp add: le_div_iff)
  then show "ceil_quot (debt * (price * 10500)) (10 ^ 18 * 10000) \<le> rep"
    by (subst ceil_quot_le_iff) (simp_all add: mult.assoc)
  show "0 < ceil_quot (debt * (price * 10500)) (10 ^ 18 * 10000)"
    using assms by (simp add: ceil_quot_pos_iff)
qed

lemma transfer_value:
  assumes nonneg: "nonneg_transfer p"
    and pos: "0 < snapshotTargetCapacityOwnership p" "0 < snapshotTargetOpenInterest p"
      "0 < transferRequestedDebt p" "0 < transferPrice p"
  defines "reserved \<equiv> unitsFor (minimumRemainingAttoRep p) (currentPoolHeldAttoRepBalance p) (currentTotalRepBackingUnits p)"
  defines "rep \<equiv> repOf (currentTargetBackingUnits p - reserved) (currentPoolHeldAttoRepBalance p) (currentTotalRepBackingUnits p)"
  defines "debt \<equiv> min (min (transferRequestedDebt p) (snapshotTargetOpenInterest p))
                     ((rep * 10 ^ 18 * 10000) div (transferPrice p * 10500))"
  defines "capacity \<equiv> (if debt = snapshotTargetOpenInterest p then snapshotTargetCapacityOwnership p
                       else (snapshotTargetCapacityOwnership p * debt) div snapshotTargetOpenInterest p)"
  defines "units \<equiv> unitsFor (ceil_quot (debt * (transferPrice p * 10500)) (10 ^ 18 * 10000))
                     (currentPoolHeldAttoRepBalance p) (currentTotalRepBackingUnits p)"
  shows "calculateLiquidationTransfer p =
    (if reserved \<ge> currentTargetBackingUnits p \<or> debt = 0 \<or> capacity = 0 then ok zeroTransfer
     else ok \<lparr>backingUnitsToTransfer = units, transferCapacityOwnershipToMove = capacity, transferDebtToMove = debt,
       transferBackingToTransfer = repOf units (currentPoolHeldAttoRepBalance p) (currentTotalRepBackingUnits p)\<rparr>)"
    and "\<not> reserved \<ge> currentTargetBackingUnits p \<Longrightarrow> debt \<noteq> 0 \<Longrightarrow>
      0 < debt \<and> 0 \<le> units \<and> units \<le> currentTargetBackingUnits p - reserved"
proof -
  note n = nonneg [unfolded nonneg_transfer_def]
  have res: "backingUnitsForRep (minimumRemainingAttoRep p) (currentPoolHeldAttoRepBalance p)
      (currentTotalRepBackingUnits p) True = ok reserved"
    using n by (simp add: reserved_def backingUnitsForRep_value)
  have nz: "snapshotTargetCapacityOwnership p \<noteq> 0" "snapshotTargetOpenInterest p \<noteq> 0"
    "transferRequestedDebt p \<noteq> 0" "transferPrice p \<noteq> 0" using pos by auto
  show bounds: "0 < debt \<and> 0 \<le> units \<and> units \<le> currentTargetBackingUnits p - reserved"
    if enough: "\<not> reserved \<ge> currentTargetBackingUnits p" and "debt \<noteq> 0"
  proof -
    have "0 \<le> rep" using n enough by (auto simp: rep_def intro: repOf_nonneg)
    then have "0 \<le> debt" using n pos by (simp add: debt_def pos_imp_zdiv_nonneg_iff)
    with that have debt: "0 < debt" by simp
    moreover have "debt \<le> (rep * 10 ^ 18 * 10000) div (transferPrice p * 10500)" by (simp add: debt_def)
    ultimately have award: "0 < ceil_quot (debt * (transferPrice p * 10500)) (10 ^ 18 * 10000)"
      "ceil_quot (debt * (transferPrice p * 10500)) (10 ^ 18 * 10000) \<le> rep"
      using award_funded [OF pos(4)] by auto
    then have "0 \<le> units" using n by (simp add: units_def unitsFor_nonneg)
    moreover have "units \<le> currentTargetBackingUnits p - reserved"
      unfolding units_def using n enough award by (intro unitsFor_le) (auto simp: rep_def)
    ultimately show ?thesis using debt by simp
  qed
  show "calculateLiquidationTransfer p =
    (if reserved \<ge> currentTargetBackingUnits p \<or> debt = 0 \<or> capacity = 0 then ok zeroTransfer
     else ok \<lparr>backingUnitsToTransfer = units, transferCapacityOwnershipToMove = capacity, transferDebtToMove = debt,
       transferBackingToTransfer = repOf units (currentPoolHeldAttoRepBalance p) (currentTotalRepBackingUnits p)\<rparr>)"
  proof (cases "reserved \<ge> currentTargetBackingUnits p")
    case True
    then show ?thesis by (simp add: calculateLiquidationTransfer_def res nz)
  next
    case enough: False
    have rep: "(if currentTotalRepBackingUnits p = 0 then (currentTargetBackingUnits p - reserved) sdiv PRICE_PRECISION
        else repForBackingUnits (currentTargetBackingUnits p - reserved) (currentPoolHeldAttoRepBalance p)
          (currentTotalRepBackingUnits p)) = rep"
      unfolding rep_def using n enough by (intro repForBackingUnits_value) auto
    have "0 \<le> rep" using n enough by (auto simp: rep_def intro: repOf_nonneg)
    then have max: "bigDiv (rep * PRICE_PRECISION * BPS_DENOMINATOR_bot)
        (transferPrice p * (BPS_DENOMINATOR_bot + LIQUIDATION_REP_BONUS_BPS_bot))
        = ok ((rep * 10 ^ 18 * 10000) div (transferPrice p * 10500))"
      using pos by (simp add: bigDiv_pos)
    have debt: "(if (if transferRequestedDebt p < snapshotTargetOpenInterest p then transferRequestedDebt p
          else snapshotTargetOpenInterest p) < (rep * 10 ^ 18 * 10000) div (transferPrice p * 10500)
        then (if transferRequestedDebt p < snapshotTargetOpenInterest p then transferRequestedDebt p
          else snapshotTargetOpenInterest p)
        else (rep * 10 ^ 18 * 10000) div (transferPrice p * 10500)) = debt"
      by (simp only: debt_def minmax_simps)
    show ?thesis
    proof (cases "debt = 0")
      case True
      with enough show ?thesis
        by (simp only: calculateLiquidationTransfer_def res nz rep max debt bindR_simps Let_def if_False if_True
            simp_thms)
    next
      case False
      note b = bounds [OF enough False]
      have capacity: "(if debt = snapshotTargetOpenInterest p then snapshotTargetCapacityOwnership p
          else (snapshotTargetCapacityOwnership p * debt) sdiv snapshotTargetOpenInterest p) = capacity"
        using n b by (simp add: capacity_def sdiv_nonneg)
      have award: "mulDivUp debt (transferPrice p * (BPS_DENOMINATOR_bot + LIQUIDATION_REP_BONUS_BPS_bot))
          (PRICE_PRECISION * BPS_DENOMINATOR_bot) = ok (ceil_quot (debt * (transferPrice p * 10500)) (10 ^ 18 * 10000))"
        using b pos by (simp add: mulDivUp_value)
      have award0: "0 \<le> ceil_quot (debt * (transferPrice p * 10500)) (10 ^ 18 * 10000)"
        using b pos by (intro ceil_quot_nonneg) auto
      have units: "backingUnitsForRep (ceil_quot (debt * (transferPrice p * 10500)) (10 ^ 18 * 10000))
          (currentPoolHeldAttoRepBalance p) (currentTotalRepBackingUnits p) True = ok units"
        unfolding units_def using n award0 by (intro backingUnitsForRep_value) auto
      have backing: "(if currentTotalRepBackingUnits p = 0 then units sdiv PRICE_PRECISION
          else repForBackingUnits units (currentPoolHeldAttoRepBalance p) (currentTotalRepBackingUnits p))
          = repOf units (currentPoolHeldAttoRepBalance p) (currentTotalRepBackingUnits p)"
        using n b by (intro repForBackingUnits_value) auto
      have fits: "\<not> units > currentTargetBackingUnits p - reserved" using b by simp
      show ?thesis
        using enough False
        by (simp only: calculateLiquidationTransfer_def res nz rep max debt capacity award units backing fits
            bindR_simps Let_def if_False simp_thms)
    qed
  qed
qed

lemma liquidation_transfer_ok:
  assumes "nonneg_transfer p"
  shows "\<exists>t. calculateLiquidationTransfer p = ok t \<and>
    0 \<le> transferDebtToMove t \<and> transferDebtToMove t \<le> transferRequestedDebt p \<and>
    transferDebtToMove t \<le> snapshotTargetOpenInterest p \<and>
    0 \<le> transferCapacityOwnershipToMove t \<and>
    transferCapacityOwnershipToMove t \<le> snapshotTargetCapacityOwnership p \<and>
    0 \<le> backingUnitsToTransfer t \<and> 0 \<le> transferBackingToTransfer t \<and>
    (0 < backingUnitsToTransfer t \<longrightarrow>
      (\<exists>reserved. backingUnitsForRep (minimumRemainingAttoRep p) (currentPoolHeldAttoRepBalance p)
          (currentTotalRepBackingUnits p) True = ok reserved \<and>
        backingUnitsToTransfer t + reserved \<le> currentTargetBackingUnits p))"
proof (cases "snapshotTargetCapacityOwnership p = 0 \<or> snapshotTargetOpenInterest p = 0
    \<or> transferRequestedDebt p = 0 \<or> transferPrice p = 0")
  case True
  with assms show ?thesis
    by (simp add: calculateLiquidationTransfer_def zeroTransfer_def nonneg_transfer_def)
next
  case False
  note n = assms [unfolded nonneg_transfer_def]
  with False have pos: "0 < snapshotTargetCapacityOwnership p" "0 < snapshotTargetOpenInterest p"
    "0 < transferRequestedDebt p" "0 < transferPrice p" by auto
  let ?held = "currentPoolHeldAttoRepBalance p" and ?all = "currentTotalRepBackingUnits p"
  define reserved where "reserved = unitsFor (minimumRemainingAttoRep p) ?held ?all"
  define rep where "rep = repOf (currentTargetBackingUnits p - reserved) ?held ?all"
  define debt where "debt = min (min (transferRequestedDebt p) (snapshotTargetOpenInterest p))
                              ((rep * 10 ^ 18 * 10000) div (transferPrice p * 10500))"
  define capacity where "capacity = (if debt = snapshotTargetOpenInterest p then snapshotTargetCapacityOwnership p
                   else (snapshotTargetCapacityOwnership p * debt) div snapshotTargetOpenInterest p)"
  define units where "units = unitsFor (ceil_quot (debt * (transferPrice p * 10500)) (10 ^ 18 * 10000)) ?held ?all"
  note v = transfer_value [OF assms pos, folded reserved_def, folded rep_def, folded debt_def,
    folded capacity_def, folded units_def]
  show ?thesis
  proof (cases "reserved \<ge> currentTargetBackingUnits p \<or> debt = 0 \<or> capacity = 0")
    case True
    then show ?thesis using n by (simp add: v(1) zeroTransfer_def)
  next
    case moves: False
    have b: "0 < debt" "0 \<le> units" "units \<le> currentTargetBackingUnits p - reserved"
      using v(2) moves by blast+
    have le: "debt \<le> transferRequestedDebt p" "debt \<le> snapshotTargetOpenInterest p"
      unfolding debt_def by linarith+
    have c: "0 \<le> capacity" "capacity \<le> snapshotTargetCapacityOwnership p"
      using prorata_bounds [OF _ pos(2) _ le(2), of "snapshotTargetCapacityOwnership p"] pos b
      by (auto simp: capacity_def)
    have res: "backingUnitsForRep (minimumRemainingAttoRep p) ?held ?all True = ok reserved"
      using n by (simp add: backingUnitsForRep_value reserved_def)
    have rep0: "0 \<le> repOf units ?held ?all" using n b by (intro repOf_nonneg) auto
    show ?thesis using b le c res rep0 moves by (simp add: v(1))
  qed
qed

lemma liquidation_transfer_bounds:
  assumes "calculateLiquidationTransfer p = ok t" and "nonneg_transfer p"
  shows "transferDebtToMove t \<le> transferRequestedDebt p"
  using liquidation_transfer_ok [OF assms(2)] assms(1) by auto

text \<open>
  C30: for non-negative inputs the liquidation transfer is always computed: the error for an award
  that exceeds the funded backing never occurs. The debt moved is bounded by the request and by the
  target's open interest, the ownership moved by the target's ownership, and the units moved leave
  the target the units reserved for its minimum.
\<close>

theorem liquidation_transfer_funded:
  assumes "nonneg_transfer p"
  shows "\<exists>t. calculateLiquidationTransfer p = ok t \<and>
    0 \<le> transferDebtToMove t \<and> transferDebtToMove t \<le> transferRequestedDebt p \<and>
    transferDebtToMove t \<le> snapshotTargetOpenInterest p \<and>
    0 \<le> transferCapacityOwnershipToMove t \<and>
    transferCapacityOwnershipToMove t \<le> snapshotTargetCapacityOwnership p \<and>
    0 \<le> backingUnitsToTransfer t \<and> 0 \<le> transferBackingToTransfer t \<and>
    (0 < backingUnitsToTransfer t \<longrightarrow>
      (\<exists>reserved. backingUnitsForRep (minimumRemainingAttoRep p) (currentPoolHeldAttoRepBalance p)
          (currentTotalRepBackingUnits p) True = ok reserved \<and>
        backingUnitsToTransfer t + reserved \<le> currentTargetBackingUnits p))"
  using assms by (rule liquidation_transfer_ok)

lemma liquidation_transfer_funded_witness:
  "\<exists>t. calculateLiquidationTransfer
      \<lparr>currentPoolHeldAttoRepBalance = 1000, currentTargetBackingUnits = 500, currentTotalRepBackingUnits = 2000,
       minimumRemainingAttoRep = 10, transferPrice = 2 * 10 ^ 18, transferRequestedDebt = 100,
       snapshotTargetCapacityOwnership = 70, snapshotTargetOpenInterest = 90\<rparr> = ok t \<and> transferDebtToMove t \<le> 90"
  using liquidation_transfer_funded [of "\<lparr>currentPoolHeldAttoRepBalance = 1000, currentTargetBackingUnits = 500,
       currentTotalRepBackingUnits = 2000, minimumRemainingAttoRep = 10, transferPrice = 2 * 10 ^ 18,
       transferRequestedDebt = 100, snapshotTargetCapacityOwnership = 70, snapshotTargetOpenInterest = 90\<rparr>"]
  by (auto simp: nonneg_transfer_def)

section \<open>Evaluated candidates\<close>

definition nonneg_vault :: "VaultPosition \<Rightarrow> bool" where
  "nonneg_vault v \<longleftrightarrow> 0 \<le> vp_backingUnits v \<and> 0 \<le> vp_badDebtAttoEth v \<and> 0 \<le> vp_capacityOwnershipAttoRep v \<and>
     0 \<le> vp_disputeStakedAttoRep v \<and> 0 \<le> vp_openInterestAttoEth v \<and> 0 \<le> vp_vaultAttoRepBacking v"

definition nonneg_pool :: "PoolRiskContext \<Rightarrow> bool" where
  "nonneg_pool q \<longleftrightarrow> 0 \<le> pr_denominator q \<and> 0 \<le> pr_minimumVaultRepDepositAttoRep q \<and> 0 < pr_multiplierBps q \<and>
     0 \<le> pr_price q \<and> 0 \<le> pr_totalAttoRep q"

lemma health_covers:
  assumes "0 < m" and "0 < price" and "0 \<le> oi" and "0 \<le> backing" and "0 \<le> disp" and "0 \<le> h"
    and "requiredRepForOpenInterest oi m price h disp = ok r" and "r \<le> backing"
    and "vaultHealthBps backing oi m price disp = ok health"
  shows "h \<le> (case health of None \<Rightarrow> h | Some x \<Rightarrow> x)"
proof (cases "oi = 0")
  case True
  with assms show ?thesis by (simp add: vaultHealthBps_def)
next
  case False
  with assms have oi: "0 < oi" by simp
  let ?a = "associatedMinimum oi m price" and ?f = "freeMinimum oi m price"
  have "?a * h \<le> (backing + disp) * 10000 \<and> ?f * h \<le> backing * 10000"
    using assms oi backing_required_le_iff [OF assms(4), of ?a h disp ?f] by (simp add: required_value)
  moreover have "0 < ?a" "0 < ?f" using minimum_pos [OF oi assms(2)] assms(1) by auto
  ultimately have "h \<le> min (((backing + disp) * 10000) div ?a) ((backing * 10000) div ?f)"
    by (simp add: le_div_iff mult.commute)
  with assms oi show ?thesis by (auto simp: health_value)
qed

lemma max_eqD: "max a b = c \<Longrightarrow> a \<le> c \<and> b \<le> (c::int)"
  by auto

text \<open>What an evaluation that returns a candidate has checked.\<close>

lemma evaluated_candidate_parts:
  assumes "evaluateCandidate pool target caller strategy = ok (Some c)"
  shows "\<exists>transfer required health oi.
    pr_price pool \<noteq> 0 \<and>
    isUnsafeVault (vp_vaultAttoRepBacking target) (vp_openInterestAttoEth target) (pr_multiplierBps pool)
      (pr_price pool) (vp_disputeStakedAttoRep target) = ok True \<and>
    calculateLiquidationTransfer
        \<lparr>currentPoolHeldAttoRepBalance = pr_totalAttoRep pool,
         currentTargetBackingUnits = vp_backingUnits target,
         currentTotalRepBackingUnits = pr_denominator pool,
         minimumRemainingAttoRep = (if lc_requestedDebtAttoEth c \<ge> vp_openInterestAttoEth target then 0
                                    else pr_minimumVaultRepDepositAttoRep pool),
         transferPrice = pr_price pool,
         transferRequestedDebt = lc_requestedDebtAttoEth c,
         snapshotTargetCapacityOwnership = vp_capacityOwnershipAttoRep target,
         snapshotTargetOpenInterest = vp_openInterestAttoEth target\<rparr> = ok transfer \<and>
    lc_requestedDebtAttoEth c = min (ss_maximumLiquidationDebtAttoEth strategy) (vp_openInterestAttoEth target) \<and>
    0 \<le> oi \<and> vp_openInterestAttoEth caller \<le> oi \<and> lc_debtToMoveAttoEth c = oi - vp_openInterestAttoEth caller \<and>
    ss_minimumLiquidationDebtAttoEth strategy \<le> lc_debtToMoveAttoEth c \<and>
    lc_debtToMoveAttoEth c \<le> transferDebtToMove transfer \<and>
    pr_minimumSecurityBondDebtAttoEth pool \<le> oi \<and>
    requiredRepForOpenInterest oi (pr_multiplierBps pool) (pr_price pool) (ss_vaultTargetHealthBps strategy)
      (vp_disputeStakedAttoRep caller) = ok required \<and>
    required \<le> vp_vaultAttoRepBacking caller + lc_vaultAttoRepBackingToTransfer c + lc_topUpAttoRep c \<and>
    pr_minimumVaultRepDepositAttoRep pool
      \<le> vp_vaultAttoRepBacking caller + lc_vaultAttoRepBackingToTransfer c + lc_topUpAttoRep c \<and>
    pr_minimumVaultRepDepositAttoRep pool \<le> vp_vaultAttoRepBacking caller + lc_topUpAttoRep c \<and>
    0 \<le> lc_topUpAttoRep c \<and>
    vp_vaultAttoRepBacking caller + lc_vaultAttoRepBackingToTransfer c + lc_topUpAttoRep c
      \<le> ss_maximumAttoRepPerPool strategy \<and>
    ss_minimumRewardValueAttoEth strategy \<le> lc_bonusValueAttoEth c \<and>
    pr_minLiquidationPriceDistanceBps pool \<le> lc_priceDistanceBps c \<and>
    vaultHealthBps (vp_vaultAttoRepBacking caller + lc_vaultAttoRepBackingToTransfer c + lc_topUpAttoRep c) oi
      (pr_multiplierBps pool) (pr_price pool) (vp_disputeStakedAttoRep caller) = ok health \<and>
    lc_resultingHealthBps c = (case health of None \<Rightarrow> ss_vaultTargetHealthBps strategy | Some h \<Rightarrow> h) \<and>
    lc_pool c = pool \<and> lc_target c = target"
  using assms unfolding evaluateCandidate_def minmax_simps
  apply (elim bindR_okE guard_okE Let_okE)
  apply (simp only: sum.inject option.inject not_not)
  apply (drule sym [of "LiquidationCandidate_ext _ _ _ _ _ _ _ _ _ _ _"])
  apply (simp only: LiquidationCandidate.simps)
  apply (drule max_eqD, elim conjE)+
  apply (intro exI conjI; (assumption|rule refl)?)
  apply (simp only: simp_thms | linarith)+
  done

text \<open>
  C7: a candidate the bot accepts is an unsafe vault far enough past its liquidation price; the
  debt to move respects the limits of the operator and of the target; the reward reaches the
  operator's minimum; and with the top-up the bot's own vault ends at or above the minimum backing
  and the target health, without exceeding the allocation per pool.
\<close>

theorem accepted_candidate_sound:
  assumes "evaluateCandidate pool target caller strategy = ok (Some c)"
    and "nonneg_pool pool" and "nonneg_vault target" and "nonneg_vault caller"
    and "0 \<le> ss_maximumLiquidationDebtAttoEth strategy" and "0 \<le> ss_vaultTargetHealthBps strategy"
  shows "isUnsafeVault (vp_vaultAttoRepBacking target) (vp_openInterestAttoEth target) (pr_multiplierBps pool)
      (pr_price pool) (vp_disputeStakedAttoRep target) = ok True \<and>
    ss_minimumLiquidationDebtAttoEth strategy \<le> lc_debtToMoveAttoEth c \<and>
    lc_debtToMoveAttoEth c \<le> ss_maximumLiquidationDebtAttoEth strategy \<and>
    lc_debtToMoveAttoEth c \<le> vp_openInterestAttoEth target \<and>
    ss_minimumRewardValueAttoEth strategy \<le> lc_bonusValueAttoEth c \<and>
    pr_minLiquidationPriceDistanceBps pool \<le> lc_priceDistanceBps c \<and>
    (let resulting = vp_vaultAttoRepBacking caller + lc_vaultAttoRepBackingToTransfer c + lc_topUpAttoRep c in
      pr_minimumVaultRepDepositAttoRep pool \<le> resulting \<and> resulting \<le> ss_maximumAttoRepPerPool strategy) \<and>
    ss_vaultTargetHealthBps strategy \<le> lc_resultingHealthBps c"
proof -
  from evaluated_candidate_parts [OF assms(1)] obtain transfer required health oi where
    parts: "pr_price pool \<noteq> 0"
    "calculateLiquidationTransfer
        \<lparr>currentPoolHeldAttoRepBalance = pr_totalAttoRep pool,
         currentTargetBackingUnits = vp_backingUnits target,
         currentTotalRepBackingUnits = pr_denominator pool,
         minimumRemainingAttoRep = (if lc_requestedDebtAttoEth c \<ge> vp_openInterestAttoEth target then 0
                                    else pr_minimumVaultRepDepositAttoRep pool),
         transferPrice = pr_price pool,
         transferRequestedDebt = lc_requestedDebtAttoEth c,
         snapshotTargetCapacityOwnership = vp_capacityOwnershipAttoRep target,
         snapshotTargetOpenInterest = vp_openInterestAttoEth target\<rparr> = ok transfer"
    "lc_requestedDebtAttoEth c = min (ss_maximumLiquidationDebtAttoEth strategy) (vp_openInterestAttoEth target)"
    "0 \<le> oi" "lc_debtToMoveAttoEth c \<le> transferDebtToMove transfer"
    "requiredRepForOpenInterest oi (pr_multiplierBps pool) (pr_price pool) (ss_vaultTargetHealthBps strategy)
      (vp_disputeStakedAttoRep caller) = ok required"
    "required \<le> vp_vaultAttoRepBacking caller + lc_vaultAttoRepBackingToTransfer c + lc_topUpAttoRep c"
    "pr_minimumVaultRepDepositAttoRep pool
      \<le> vp_vaultAttoRepBacking caller + lc_vaultAttoRepBackingToTransfer c + lc_topUpAttoRep c"
    "vaultHealthBps (vp_vaultAttoRepBacking caller + lc_vaultAttoRepBackingToTransfer c + lc_topUpAttoRep c) oi
      (pr_multiplierBps pool) (pr_price pool) (vp_disputeStakedAttoRep caller) = ok health"
    "lc_resultingHealthBps c = (case health of None \<Rightarrow> ss_vaultTargetHealthBps strategy | Some h \<Rightarrow> h)"
    by (elim exE conjE) (rule that; assumption)
  have if_nonneg: "0 \<le> (if b then 0 else x)" if "0 \<le> x" for b and x :: int using that by simp
  have "lc_debtToMoveAttoEth c \<le> lc_requestedDebtAttoEth c"
    using liquidation_transfer_bounds [OF parts(2)] parts(3,5) assms
    by (simp add: nonneg_transfer_def nonneg_pool_def nonneg_vault_def if_nonneg)
  moreover have "ss_vaultTargetHealthBps strategy \<le> lc_resultingHealthBps c"
    unfolding parts(10) using parts assms(2,4,6)
    by (intro health_covers [OF _ _ parts(4) _ _ _ parts(6,7,9)]) (auto simp: nonneg_pool_def nonneg_vault_def)
  ultimately show ?thesis
    using evaluated_candidate_parts [OF assms(1)] parts(3) by (auto simp: Let_def)
qed

definition sampleTarget :: VaultPosition where
  "sampleTarget = \<lparr>vp_address = ''0xa'', vp_backingUnits = 110, vp_badDebtAttoEth = 0, vp_capacityOwnershipAttoRep = 100,
     vp_claimableFeesAttoEth = 0, vp_disputeStakedAttoRep = 0, vp_openInterestAttoEth = 100, vp_vaultAttoRepBacking = 110\<rparr>"

definition sampleCaller :: VaultPosition where
  "sampleCaller = \<lparr>vp_address = ''0xb'', vp_backingUnits = 0, vp_badDebtAttoEth = 0, vp_capacityOwnershipAttoRep = 0,
     vp_claimableFeesAttoEth = 0, vp_disputeStakedAttoRep = 0, vp_openInterestAttoEth = 0, vp_vaultAttoRepBacking = 0\<rparr>"

definition samplePool :: PoolRiskContext where
  "samplePool = \<lparr>pr_address = ''0xc'', pr_denominator = 1000, pr_feeEligibleCapacityOwnershipAttoRep = 0, pr_manager = ''0xd'',
     pr_minimumSecurityBondDebtAttoEth = 1, pr_minimumVaultRepDepositAttoRep = 10, pr_minLiquidationPriceDistanceBps = 0,
     pr_multiplierBps = 20000, pr_price = 10 ^ 18, pr_settlementCollateralAttoEth = 100, pr_totalAttoRep = 1000,
     pr_totalCapacityOwnershipAttoRep = 100\<rparr>"

definition sampleStrategy :: StrategySettings where
  "sampleStrategy = \<lparr>ss_allowAutomaticDeposits = True, ss_allowAutomaticPoolCreation = False,
     ss_allowAutomaticVaultMigrations = True, ss_allowAutomaticWithdrawals = True, ss_candidatePriority = LargestBonus,
     ss_fallbackRepPerEthPrice = 1, ss_maximumGasCostAttoEth = 1, ss_maximumLiquidationDebtAttoEth = 100,
     ss_maximumOracleRequestCostAttoEth = 1, ss_maximumAttoRepPerPool = 1000, ss_maximumTotalDeployedRep = 1000,
     ss_minimumLiquidationDebtAttoEth = 1, ss_minimumRepWithdrawalAttoRep = 1, ss_minimumRewardValueAttoEth = 1,
     ss_redeemFeesAboveAttoEth = 1, ss_stalePriceFundingBufferBps = 0, ss_stagedOperationValidForSeconds = 60,
     ss_vaultTargetHealthBps = 12000, ss_vaultTopUpHealthBps = 11000, ss_vaultWithdrawHealthBps = 15000,
     ss_walletAttoRepReserve = 0\<rparr>"

lemma accepted_candidate_sound_witness:
  "\<exists>c. evaluateCandidate samplePool sampleTarget sampleCaller sampleStrategy = ok (Some c) \<and>
     lc_debtToMoveAttoEth c \<le> 100 \<and> 12000 \<le> lc_resultingHealthBps c"
proof -
  have "case evaluateCandidate samplePool sampleTarget sampleCaller sampleStrategy of
      Inl e \<Rightarrow> False | Inr r \<Rightarrow> r \<noteq> None" by code_simp
  then obtain c where c: "evaluateCandidate samplePool sampleTarget sampleCaller sampleStrategy = ok (Some c)"
    by (auto split: sum.splits)
  show ?thesis
    using accepted_candidate_sound [OF c] c
    by (auto simp: nonneg_pool_def nonneg_vault_def samplePool_def sampleTarget_def sampleCaller_def sampleStrategy_def)
qed

section \<open>The order of candidates\<close>

text \<open>Highest value first; on equal values by address.\<close>

definition candidateKey :: "CandidatePriority \<Rightarrow> LiquidationCandidate \<Rightarrow> int \<times> nat list \<times> bool list" where
  "candidateKey priority c = (- candidateValue priority c, collation_key (vp_address (lc_target c)))"

interpretation candidate_order: comparator "compareCandidates priority"
  by (rule comparator_by_key [of _ "candidateKey priority"])
    (auto simp: compareCandidates_def candidateKey_def localeCompare_le_iff less_eq_prod_def)

text \<open>
  The selected candidate is one of the candidates and is allowed; no allowed candidate has a
  higher value under the operator's priority; and none is selected only if none is allowed.
\<close>

lemma selected_candidate_is_best:
  "case selectAllowedCandidate candidates priority allowed of
     None \<Rightarrow> \<forall>d \<in> set candidates. \<not> allowed d
   | Some c \<Rightarrow> c \<in> set candidates \<and> allowed c \<and>
       (\<forall>d \<in> set candidates. allowed d \<longrightarrow> candidateValue priority d \<le> candidateValue priority c)"
proof (cases "selectAllowedCandidate candidates priority allowed")
  case None
  then have "\<forall>d \<in> set candidates. \<not> allowed d"
    by (simp add: selectAllowedCandidate_def find_None_iff sortCandidates_def)
  with None show ?thesis by simp
next
  case (Some c)
  then obtain ys zs where split: "sortCandidates candidates priority = ys @ c # zs" "allowed c"
    "\<forall>y \<in> set ys. \<not> allowed y"
    by (auto simp: selectAllowedCandidate_def find_Some_iff_split)
  have all: "set candidates = set ys \<union> {c} \<union> set zs"
    using split(1) by (metis Un_insert_right list.simps(15) set_append set_js_sort sortCandidates_def sup_bot_right
        sup_commute)
  have "sorted_wrt (\<lambda>x y. compareCandidates priority x y \<le> 0) (ys @ c # zs)"
    unfolding split(1) [symmetric] sortCandidates_def by (rule candidate_order.sorted_js_sort)
  then have "compareCandidates priority c d \<le> 0" if "d \<in> set zs" for d
    using that by (simp add: sorted_wrt_append)
  then have "candidateValue priority d \<le> candidateValue priority c" if "d \<in> set zs" for d
    using that by (fastforce simp: compareCandidates_def split: if_splits)
  with Some split all show ?thesis by auto
qed

definition sampleCandidate :: "int \<Rightarrow> int \<Rightarrow> LiquidationCandidate" where
  "sampleCandidate bonus debt = \<lparr>lc_bonusValueAttoEth = bonus, lc_capacityOwnershipToMoveAttoRep = 50,
     lc_debtToMoveAttoEth = debt, lc_pool = samplePool, lc_priceDistanceBps = 10, lc_requestedDebtAttoEth = debt,
     lc_resultingHealthBps = 12000, lc_target = sampleTarget, lc_topUpAttoRep = 0, lc_vaultAttoRepBackingToTransfer = 55\<rparr>"

lemma selected_candidate_is_best_example:
  "case selectAllowedCandidate [sampleCandidate 3 90, sampleCandidate 8 20, sampleCandidate 5 40] LargestBonus
      (\<lambda>c. lc_debtToMoveAttoEth c < 50) of
     None \<Rightarrow> False
   | Some c \<Rightarrow> lc_debtToMoveAttoEth c < 50 \<and> lc_bonusValueAttoEth (sampleCandidate 5 40) \<le> lc_bonusValueAttoEth c"
  using selected_candidate_is_best [where candidates = "[sampleCandidate 3 90, sampleCandidate 8 20, sampleCandidate 5 40]"
      and priority = LargestBonus and allowed = "\<lambda>c. lc_debtToMoveAttoEth c < 50"]
  by (simp add: sampleCandidate_def candidateValue_def split: option.splits)

section \<open>Withdrawing surplus\<close>

text \<open>
  C31: the surplus the bot withdraws is never more than its backing. A vault with open interest keeps at
  least the minimum deposit and its target health once the surplus is withdrawn; a vault without is emptied.
\<close>

theorem withdrawal_keeps_target_health:
  assumes "surplusRepForWithdrawal caller pool strategy = ok surplus" and "0 < surplus"
    and "nonneg_vault caller" and "nonneg_pool pool" and "0 < pr_price pool"
    and "0 \<le> ss_vaultTargetHealthBps strategy"
  shows "surplus \<le> vp_vaultAttoRepBacking caller \<and>
    (0 < vp_openInterestAttoEth caller \<longrightarrow>
      pr_minimumVaultRepDepositAttoRep pool \<le> vp_vaultAttoRepBacking caller - surplus \<and>
      (\<exists>health. vaultHealthBps (vp_vaultAttoRepBacking caller - surplus) (vp_openInterestAttoEth caller)
          (pr_multiplierBps pool) (pr_price pool) (vp_disputeStakedAttoRep caller) = ok (Some health) \<and>
        ss_vaultTargetHealthBps strategy \<le> health)) \<and>
    (vp_openInterestAttoEth caller = 0 \<longrightarrow> surplus = vp_vaultAttoRepBacking caller)"
proof -
  let ?oi = "vp_openInterestAttoEth caller" and ?m = "pr_multiplierBps pool" and ?price = "pr_price pool"
  let ?disp = "vp_disputeStakedAttoRep caller" and ?h = "ss_vaultTargetHealthBps strategy"
  let ?left = "vp_vaultAttoRepBacking caller - surplus"
  obtain required where required: "requiredRepForOpenInterest ?oi ?m ?price ?h ?disp = ok required"
    "required \<le> ?left" "0 < ?oi \<longrightarrow> pr_minimumVaultRepDepositAttoRep pool \<le> ?left"
    using assms(1,2) unfolding surplusRepForWithdrawal_def
    by (fastforce simp: Let_def bindR_eq_Inr_iff split: if_splits option.splits)
  have emptied: "?oi = 0 \<longrightarrow> surplus = vp_vaultAttoRepBacking caller"
    using assms(1-3) unfolding surplusRepForWithdrawal_def
    by (auto simp: Let_def bindR_eq_Inr_iff requiredRepForOpenInterest_def nonneg_vault_def split: if_splits option.splits)
  have "0 \<le> required"
  proof (cases "?oi = 0")
    case True
    with required(1) show ?thesis by (simp add: requiredRepForOpenInterest_def)
  next
    case False
    with assms have "0 < ?oi" by (simp add: nonneg_vault_def)
    with required(1) assms show ?thesis
      by (auto simp: required_value nonneg_pool_def)
  qed
  then have left: "0 \<le> ?left" using required by simp
  have "\<exists>health. vaultHealthBps ?left ?oi ?m ?price ?disp = ok (Some health) \<and> ?h \<le> health" if pos: "0 < ?oi"
  proof -
    obtain health where health: "vaultHealthBps ?left ?oi ?m ?price ?disp = ok (Some health)"
      using health_value [OF pos assms(5) _ left] assms(3,4) by (auto simp: nonneg_pool_def nonneg_vault_def)
    moreover have "?h \<le> health"
      using health_covers [OF _ assms(5) _ left _ assms(6) required(1,2) health] assms(3,4)
      by (simp add: nonneg_pool_def nonneg_vault_def)
    ultimately show ?thesis by blast
  qed
  with required left emptied show ?thesis by auto
qed

lemma withdrawal_keeps_target_health_witness:
  "surplusRepForWithdrawal (sampleTarget\<lparr>vp_vaultAttoRepBacking := 400\<rparr>) samplePool sampleStrategy = ok 160 \<and>
   (\<exists>health. vaultHealthBps 240 100 20000 (10 ^ 18) 0 = ok (Some health) \<and> 12000 \<le> health)"
proof -
  have s: "surplusRepForWithdrawal (sampleTarget\<lparr>vp_vaultAttoRepBacking := 400\<rparr>) samplePool sampleStrategy = ok 160"
    by code_simp
  with withdrawal_keeps_target_health [OF s] show ?thesis
    by (auto simp: nonneg_pool_def nonneg_vault_def samplePool_def sampleTarget_def sampleStrategy_def)
qed

end
