(* ===== verification/Protocol_Config.thy ===== *)
theory Protocol_Config
  imports Js_Strings
begin

text \<open>
  The protocol configuration of \<open>shared/ts/protocolConfig.ts\<close>: defaults, overrides from the
  environment, from a global and from the caller, validation, and the freeze of the mainnet values.
  The process environment and the global object are arguments. A field of an override is absent
  (\<open>None\<close>), present but \<open>undefined\<close> (\<open>Some None\<close>) or a value.
\<close>

section \<open>Data\<close>

datatype ConfigField = ForkBurnDivisor | ForkThresholdDivisor | InitialEscalationGameDeposit
  | MinimumSecurityBondDebt | MinimumVaultRepDeposit

record ProtocolConfig =
  forkBurnDivisor :: int
  forkThresholdDivisor :: int
  initialEscalationGameDeposit :: int
  minimumSecurityBondDebt :: int
  minimumVaultRepDeposit :: int

text \<open>A bigint, a number that is an integer, a number that is not, or a string.\<close>

datatype ConfigValue = BigintValue int | IntegerNumber int | FractionalNumber | StringValue string

type_synonym ProtocolConfigInput = "ConfigField \<Rightarrow> ConfigValue option option"

definition DEFAULT_FORK_BURN_DIVISOR :: int where "DEFAULT_FORK_BURN_DIVISOR = 5"
definition DEFAULT_FORK_THRESHOLD_DIVISOR :: int where "DEFAULT_FORK_THRESHOLD_DIVISOR = 20"
definition DEFAULT_INITIAL_ESCALATION_GAME_DEPOSIT :: int where "DEFAULT_INITIAL_ESCALATION_GAME_DEPOSIT = 10 ^ 18"
definition DEFAULT_MINIMUM_SECURITY_BOND_DEBT_ATTO_ETH :: int where
  "DEFAULT_MINIMUM_SECURITY_BOND_DEBT_ATTO_ETH = 10 ^ 18"
definition DEFAULT_MINIMUM_VAULT_REP_DEPOSIT_ATTO_REP :: int where
  "DEFAULT_MINIMUM_VAULT_REP_DEPOSIT_ATTO_REP = 0"

definition DEFAULT_PROTOCOL_CONFIG :: ProtocolConfig where
  "DEFAULT_PROTOCOL_CONFIG =
     \<lparr>forkBurnDivisor = DEFAULT_FORK_BURN_DIVISOR,
      forkThresholdDivisor = DEFAULT_FORK_THRESHOLD_DIVISOR,
      initialEscalationGameDeposit = DEFAULT_INITIAL_ESCALATION_GAME_DEPOSIT,
      minimumSecurityBondDebt = DEFAULT_MINIMUM_SECURITY_BOND_DEBT_ATTO_ETH,
      minimumVaultRepDeposit = DEFAULT_MINIMUM_VAULT_REP_DEPOSIT_ATTO_REP\<rparr>"

definition MAINNET_PROTOCOL_CONFIG :: ProtocolConfig where
  "MAINNET_PROTOCOL_CONFIG =
     \<lparr>forkBurnDivisor = 5,
      forkThresholdDivisor = 20,
      initialEscalationGameDeposit = DEFAULT_INITIAL_ESCALATION_GAME_DEPOSIT,
      minimumSecurityBondDebt = DEFAULT_MINIMUM_SECURITY_BOND_DEBT_ATTO_ETH,
      minimumVaultRepDeposit = DEFAULT_MINIMUM_VAULT_REP_DEPOSIT_ATTO_REP\<rparr>"

fun field_name :: "ConfigField \<Rightarrow> string" where
  "field_name ForkBurnDivisor = ''forkBurnDivisor''"
| "field_name ForkThresholdDivisor = ''forkThresholdDivisor''"
| "field_name InitialEscalationGameDeposit = ''initialEscalationGameDepositAttoRep''"
| "field_name MinimumSecurityBondDebt = ''minimumSecurityBondDebtAttoEth''"
| "field_name MinimumVaultRepDeposit = ''minimumVaultRepDepositAttoRep''"

fun PROTOCOL_CONFIG_ENV_KEYS :: "ConfigField \<Rightarrow> string" where
  "PROTOCOL_CONFIG_ENV_KEYS ForkBurnDivisor = ''ZOLTAR_FORK_BURN_DIVISOR''"
| "PROTOCOL_CONFIG_ENV_KEYS ForkThresholdDivisor = ''ZOLTAR_FORK_THRESHOLD_DIVISOR''"
| "PROTOCOL_CONFIG_ENV_KEYS InitialEscalationGameDeposit = ''ZOLTAR_INITIAL_ESCALATION_GAME_DEPOSIT''"
| "PROTOCOL_CONFIG_ENV_KEYS MinimumSecurityBondDebt = ''ZOLTAR_MINIMUM_SECURITY_BOND_DEBT''"
| "PROTOCOL_CONFIG_ENV_KEYS MinimumVaultRepDeposit = ''ZOLTAR_MINIMUM_VAULT_REP_DEPOSIT''"

text \<open>Reading \<open>config[field]\<close>; the keys in the order \<open>Object.keys\<close> lists them.\<close>

fun field_of :: "ProtocolConfig \<Rightarrow> ConfigField \<Rightarrow> int" where
  "field_of c ForkBurnDivisor = forkBurnDivisor c"
| "field_of c ForkThresholdDivisor = forkThresholdDivisor c"
| "field_of c InitialEscalationGameDeposit = initialEscalationGameDeposit c"
| "field_of c MinimumSecurityBondDebt = minimumSecurityBondDebt c"
| "field_of c MinimumVaultRepDeposit = minimumVaultRepDeposit c"

definition config_keys :: "ConfigField list" where
  "config_keys = [ForkBurnDivisor, ForkThresholdDivisor, InitialEscalationGameDeposit,
     MinimumSecurityBondDebt, MinimumVaultRepDeposit]"

section \<open>Parsing and sources\<close>

text \<open>An absent field and an undefined one read alike.\<close>

definition read_field :: "ProtocolConfigInput \<Rightarrow> ConfigField \<Rightarrow> ConfigValue option" where
  "read_field config field = (case config field of None \<Rightarrow> None | Some v \<Rightarrow> v)"

fun parseConfigBigInt :: "ConfigValue option \<Rightarrow> ConfigField \<Rightarrow> int option result" where
  "parseConfigBigInt None field = ok None"
| "parseConfigBigInt (Some (BigintValue i)) field = ok (Some i)"
| "parseConfigBigInt (Some (IntegerNumber i)) field = ok (Some i)"
| "parseConfigBigInt (Some FractionalNumber) field =
     throw (''Protocol config '' @ field_name field @ '' must be an integer'')"
| "parseConfigBigInt (Some (StringValue s)) field =
     (if trim s = [] then ok None else bindR (bigint_of_string (trim s)) (\<lambda>i. ok (Some i)))"

definition readProcessEnv :: "(string \<Rightarrow> string option) \<Rightarrow> string \<Rightarrow> string option" where
  "readProcessEnv env name =
     (case env name of None \<Rightarrow> None | Some rawValue \<Rightarrow> if trim rawValue = [] then None else Some (trim rawValue))"

definition getEnvironmentProtocolConfigOverrides :: "(string \<Rightarrow> string option) \<Rightarrow> ProtocolConfigInput" where
  "getEnvironmentProtocolConfigOverrides env field =
     (case readProcessEnv env (PROTOCOL_CONFIG_ENV_KEYS field) of
        None \<Rightarrow> None | Some v \<Rightarrow> Some (Some (StringValue v)))"

text \<open>
  The global, when it is an object, holds for each field a bigint, number or string, or something
  else (\<open>None\<close>), which counts as absent.
\<close>

definition getGlobalProtocolConfigOverrides :: "(ConfigField \<Rightarrow> ConfigValue option) option \<Rightarrow> ProtocolConfigInput" where
  "getGlobalProtocolConfigOverrides global field =
     (case global of
        None \<Rightarrow> None
      | Some rawConfig \<Rightarrow> (case rawConfig field of None \<Rightarrow> None | Some v \<Rightarrow> Some (Some v)))"

section \<open>Validation\<close>

definition require_field :: "int option \<Rightarrow> ConfigField \<Rightarrow> int result" where
  "require_field v field =
     (case v of None \<Rightarrow> throw (''Protocol config '' @ field_name field @ '' is required'') | Some i \<Rightarrow> ok i)"

definition validateProtocolConfig :: "ProtocolConfigInput \<Rightarrow> ProtocolConfig result" where
  "validateProtocolConfig config =
     bindR (parseConfigBigInt (read_field config ForkBurnDivisor) ForkBurnDivisor) (\<lambda>burn0.
     bindR (parseConfigBigInt (read_field config ForkThresholdDivisor) ForkThresholdDivisor) (\<lambda>threshold0.
     bindR (parseConfigBigInt (read_field config InitialEscalationGameDeposit) InitialEscalationGameDeposit) (\<lambda>initial0.
     bindR (parseConfigBigInt (read_field config MinimumSecurityBondDebt) MinimumSecurityBondDebt) (\<lambda>debt0.
     bindR (parseConfigBigInt (read_field config MinimumVaultRepDeposit) MinimumVaultRepDeposit) (\<lambda>deposit0.
     bindR (require_field threshold0 ForkThresholdDivisor) (\<lambda>threshold.
     bindR (require_field burn0 ForkBurnDivisor) (\<lambda>burn.
     bindR (require_field initial0 InitialEscalationGameDeposit) (\<lambda>initial.
     bindR (require_field debt0 MinimumSecurityBondDebt) (\<lambda>debt.
     bindR (require_field deposit0 MinimumVaultRepDeposit) (\<lambda>deposit.
     if threshold \<le> 1 then throw ''Protocol config forkThresholdDivisor must be greater than 1''
     else if burn < 5 then throw ''Protocol config forkBurnDivisor must be at least 5''
     else if initial \<noteq> 10 ^ 18 then throw ''Protocol config initialEscalationGameDepositAttoRep must equal 1 REP''
     else if debt \<le> 0 then throw ''Protocol config minimumSecurityBondDebtAttoEth must be positive''
     else if deposit < 0 then throw ''Protocol config minimumVaultRepDepositAttoRep cannot be negative''
     else ok \<lparr>forkBurnDivisor = burn, forkThresholdDivisor = threshold, initialEscalationGameDeposit = initial,
              minimumSecurityBondDebt = debt, minimumVaultRepDeposit = deposit\<rparr>))))))))))"

text \<open>Object spread: a field present in the later object wins, even when it is undefined.\<close>

definition spread :: "ProtocolConfigInput \<Rightarrow> ProtocolConfigInput \<Rightarrow> ProtocolConfigInput" where
  "spread earlier later field = (case later field of None \<Rightarrow> earlier field | Some v \<Rightarrow> Some v)"

definition input_of :: "ProtocolConfig \<Rightarrow> ProtocolConfigInput" where
  "input_of c field = Some (Some (BigintValue (field_of c field)))"

definition getProtocolConfig ::
  "(string \<Rightarrow> string option) \<Rightarrow> (ConfigField \<Rightarrow> ConfigValue option) option \<Rightarrow> ProtocolConfigInput \<Rightarrow> ProtocolConfig result" where
  "getProtocolConfig env global overrides =
     validateProtocolConfig
       (spread (spread (spread (input_of DEFAULT_PROTOCOL_CONFIG) (getEnvironmentProtocolConfigOverrides env))
          (getGlobalProtocolConfigOverrides global)) overrides)"

section \<open>The mainnet freeze\<close>

datatype OverrideSource = Environment | Global | Explicit

fun source_name :: "OverrideSource \<Rightarrow> string" where
  "source_name Environment = ''environment''"
| "source_name Global = ''global''"
| "source_name Explicit = ''explicit''"

definition collectProtocolConfigOverrideSources ::
  "(string \<Rightarrow> string option) \<Rightarrow> (ConfigField \<Rightarrow> ConfigValue option) option \<Rightarrow> ProtocolConfigInput
    \<Rightarrow> (ProtocolConfigInput \<times> OverrideSource) list" where
  "collectProtocolConfigOverrideSources env global overrides =
     [(getEnvironmentProtocolConfigOverrides env, Environment),
      (getGlobalProtocolConfigOverrides global, Global), (overrides, Explicit)]"

fun check_frozen_fields :: "ProtocolConfigInput \<Rightarrow> OverrideSource \<Rightarrow> ConfigField list \<Rightarrow> unit result" where
  "check_frozen_fields config src [] = ok ()"
| "check_frozen_fields config src (field # rest) =
     bindR (parseConfigBigInt (read_field config field) field) (\<lambda>v.
       case v of
         None \<Rightarrow> check_frozen_fields config src rest
       | Some overrideValue \<Rightarrow>
           if overrideValue = field_of MAINNET_PROTOCOL_CONFIG field then check_frozen_fields config src rest
           else throw (''Mainnet protocol config '' @ field_name field @ '' is frozen at ''
                  @ bigint_to_string (field_of MAINNET_PROTOCOL_CONFIG field) @ '' but '' @ source_name src
                  @ (if src = Environment then '' via '' @ PROTOCOL_CONFIG_ENV_KEYS field else [])
                  @ '' provided '' @ bigint_to_string overrideValue))"

fun check_frozen_sources :: "(ProtocolConfigInput \<times> OverrideSource) list \<Rightarrow> unit result" where
  "check_frozen_sources [] = ok ()"
| "check_frozen_sources ((config, src) # rest) =
     bindR (check_frozen_fields config src config_keys) (\<lambda>_. check_frozen_sources rest)"

definition assertMainnetProtocolConfigFrozen ::
  "(string \<Rightarrow> string option) \<Rightarrow> (ConfigField \<Rightarrow> ConfigValue option) option \<Rightarrow> ProtocolConfigInput \<Rightarrow> ProtocolConfig result" where
  "assertMainnetProtocolConfigFrozen env global overrides =
     bindR (check_frozen_sources (collectProtocolConfigOverrideSources env global overrides))
       (\<lambda>_. ok MAINNET_PROTOCOL_CONFIG)"

definition getMainnetProtocolConfig ::
  "(string \<Rightarrow> string option) \<Rightarrow> (ConfigField \<Rightarrow> ConfigValue option) option \<Rightarrow> ProtocolConfigInput \<Rightarrow> ProtocolConfig result" where
  "getMainnetProtocolConfig env global overrides = assertMainnetProtocolConfigFrozen env global overrides"

section \<open>Lemmas\<close>

lemma config_keys_all: "field \<in> set config_keys"
  by (cases field) (simp_all add: config_keys_def)

lemma check_frozen_fields_ok:
  "check_frozen_fields config src names = ok () \<longleftrightarrow>
     (\<forall>field \<in> set names. \<exists>v. parseConfigBigInt (read_field config field) field = ok v \<and>
        (v = None \<or> v = Some (field_of MAINNET_PROTOCOL_CONFIG field)))"
  by (induction names) (auto simp: bindR_eq_Inr_iff split: option.splits)

lemma check_frozen_sources_ok:
  "check_frozen_sources sources = ok () \<longleftrightarrow>
     (\<forall>(config, src) \<in> set sources. check_frozen_fields config src config_keys = ok ())"
  by (induction sources rule: check_frozen_sources.induct) (auto simp: bindR_eq_Inr_iff)

text \<open>What a validated input provides field by field.\<close>

lemma require_field_ok: "require_field v field = ok i \<longleftrightarrow> v = Some i"
  by (simp add: require_field_def split: option.splits)

lemma validate_parts:
  assumes "validateProtocolConfig config = ok c"
  shows "(\<forall>field. parseConfigBigInt (read_field config field) field = ok (Some (field_of c field))) \<and>
    1 < forkThresholdDivisor c \<and> 5 \<le> forkBurnDivisor c \<and> initialEscalationGameDeposit c = 10 ^ 18 \<and>
    0 < minimumSecurityBondDebt c \<and> 0 \<le> minimumVaultRepDeposit c"
  using assms unfolding validateProtocolConfig_def
  apply (elim bindR_okE check_okE)
  apply (simp only: require_field_ok sum.inject)
  apply (drule sym [of _ c])
  apply (intro conjI allI)
  subgoal for a b d e f g h i j k field by (cases field) simp_all
  by simp_all

lemmas validate_ok = validate_parts [THEN conjunct1, rule_format] validate_parts [THEN conjunct2]

text \<open>
  A protocol configuration that is returned always has a fork threshold divisor above one, a
  fork burn divisor of at least five, the one-REP initial deposit, a positive minimum debt and a
  non-negative minimum deposit; and each of its fields is the explicit override if the caller gave
  one, else the global's, else the environment's, else the default.
\<close>

lemma protocol_config_valid:
  assumes "getProtocolConfig env global overrides = ok c"
  shows "1 < forkThresholdDivisor c \<and> 5 \<le> forkBurnDivisor c \<and> initialEscalationGameDeposit c = 10 ^ 18 \<and>
    0 < minimumSecurityBondDebt c \<and> 0 \<le> minimumVaultRepDeposit c \<and>
    (\<forall>field. ok (Some (field_of c field)) =
      (case overrides field of
         Some v \<Rightarrow> parseConfigBigInt v field
       | None \<Rightarrow> (case getGlobalProtocolConfigOverrides global field of
           Some v \<Rightarrow> parseConfigBigInt v field
         | None \<Rightarrow> (case getEnvironmentProtocolConfigOverrides env field of
             Some v \<Rightarrow> parseConfigBigInt v field
           | None \<Rightarrow> ok (Some (field_of DEFAULT_PROTOCOL_CONFIG field))))))"
proof -
  note v = validate_ok [OF assms [unfolded getProtocolConfig_def]]
  have "ok (Some (field_of c field)) =
      (case overrides field of
         Some v \<Rightarrow> parseConfigBigInt v field
       | None \<Rightarrow> (case getGlobalProtocolConfigOverrides global field of
           Some v \<Rightarrow> parseConfigBigInt v field
         | None \<Rightarrow> (case getEnvironmentProtocolConfigOverrides env field of
             Some v \<Rightarrow> parseConfigBigInt v field
           | None \<Rightarrow> ok (Some (field_of DEFAULT_PROTOCOL_CONFIG field)))))" for field
    using v(1) [of field] by (auto simp: read_field_def spread_def input_of_def split: option.splits)
  with v(2) show ?thesis by blast
qed

definition emptyInput :: ProtocolConfigInput where
  "emptyInput field = None"

lemma protocol_config_valid_example:
  "\<exists>c. getProtocolConfig (\<lambda>_. None) None (emptyInput(ForkBurnDivisor := Some (Some (StringValue ''7'')))) = ok c \<and>
     1 < forkThresholdDivisor c"
proof -
  let ?in = "emptyInput(ForkBurnDivisor := Some (Some (StringValue ''7'')))"
  have "case getProtocolConfig (\<lambda>_. None) None ?in of Inl e \<Rightarrow> False | Inr c \<Rightarrow> True"
    by code_simp
  then obtain c where c: "getProtocolConfig (\<lambda>_. None) None ?in = ok c" by (auto split: sum.splits)
  with protocol_config_valid [OF c] show ?thesis by auto
qed

definition frozen_in :: "ProtocolConfigInput \<Rightarrow> ConfigField \<Rightarrow> bool" where
  "frozen_in config field \<longleftrightarrow> (\<exists>v. parseConfigBigInt (read_field config field) field = ok v \<and>
     (v = None \<or> v = Some (field_of MAINNET_PROTOCOL_CONFIG field)))"

lemma frozen_in_spread: "frozen_in a field \<Longrightarrow> frozen_in b field \<Longrightarrow> frozen_in (spread a b) field"
  by (cases "b field") (simp_all add: frozen_in_def read_field_def spread_def)

text \<open>
  The mainnet configuration is returned exactly when every override of every source, the
  environment, the global and the caller, parses and is either undefined or equal to the frozen
  value; then the configuration the unfrozen lookup returns on the same sources, if any, is the
  mainnet one too.
\<close>

lemma mainnet_config_frozen:
  "(getMainnetProtocolConfig env global overrides = ok MAINNET_PROTOCOL_CONFIG \<longleftrightarrow>
     (\<forall>field. \<forall>config \<in> {getEnvironmentProtocolConfigOverrides env, getGlobalProtocolConfigOverrides global, overrides}.
        \<exists>v. parseConfigBigInt (read_field config field) field = ok v \<and>
          (v = None \<or> v = Some (field_of MAINNET_PROTOCOL_CONFIG field)))) \<and>
   (\<forall>c. getMainnetProtocolConfig env global overrides = ok c \<longrightarrow> c = MAINNET_PROTOCOL_CONFIG) \<and>
   (\<forall>c c'. getMainnetProtocolConfig env global overrides = ok c \<longrightarrow> getProtocolConfig env global overrides = ok c' \<longrightarrow>
      c' = c)"
proof -
  have frozen: "getMainnetProtocolConfig env global overrides = ok c \<longleftrightarrow> c = MAINNET_PROTOCOL_CONFIG \<and>
     (\<forall>field. \<forall>config \<in> {getEnvironmentProtocolConfigOverrides env, getGlobalProtocolConfigOverrides global, overrides}.
        \<exists>v. parseConfigBigInt (read_field config field) field = ok v \<and>
          (v = None \<or> v = Some (field_of MAINNET_PROTOCOL_CONFIG field)))" for c
    using config_keys_all
    by (auto simp: getMainnetProtocolConfig_def assertMainnetProtocolConfigFrozen_def bindR_eq_Inr_iff
        collectProtocolConfigOverrideSources_def check_frozen_sources_ok check_frozen_fields_ok)
  have default: "DEFAULT_PROTOCOL_CONFIG = MAINNET_PROTOCOL_CONFIG"
    by (simp add: DEFAULT_PROTOCOL_CONFIG_def MAINNET_PROTOCOL_CONFIG_def DEFAULT_FORK_BURN_DIVISOR_def
        DEFAULT_FORK_THRESHOLD_DIVISOR_def)
  have "c' = MAINNET_PROTOCOL_CONFIG"
    if m: "getMainnetProtocolConfig env global overrides = ok c" and g: "getProtocolConfig env global overrides = ok c'"
    for c c'
  proof -
    have "field_of c' field = field_of MAINNET_PROTOCOL_CONFIG field" for field
    proof -
      have "frozen_in (getEnvironmentProtocolConfigOverrides env) field"
        "frozen_in (getGlobalProtocolConfigOverrides global) field" "frozen_in overrides field"
        using m by (simp_all add: frozen frozen_in_def)
      then have "frozen_in (spread (spread (spread (input_of DEFAULT_PROTOCOL_CONFIG)
          (getEnvironmentProtocolConfigOverrides env)) (getGlobalProtocolConfigOverrides global)) overrides) field"
        by (intro frozen_in_spread) (simp_all add: frozen_in_def input_of_def read_field_def default)
      with validate_ok(1) [OF g [unfolded getProtocolConfig_def], of field] show ?thesis
        by (auto simp: frozen_in_def)
    qed
    from this [of ForkBurnDivisor] this [of ForkThresholdDivisor] this [of InitialEscalationGameDeposit]
      this [of MinimumSecurityBondDebt] this [of MinimumVaultRepDeposit]
    show ?thesis by simp
  qed
  with frozen show ?thesis by auto
qed

lemma mainnet_config_frozen_example:
  "getMainnetProtocolConfig (\<lambda>_. None) None (emptyInput(ForkBurnDivisor := Some (Some (StringValue ''5'')))) = ok MAINNET_PROTOCOL_CONFIG \<and>
   \<not> (getMainnetProtocolConfig (\<lambda>_. None) None (emptyInput(ForkBurnDivisor := Some (Some (StringValue ''7'')))) = ok MAINNET_PROTOCOL_CONFIG)"
proof -
  let ?five = "emptyInput(ForkBurnDivisor := Some (Some (StringValue ''5'')))"
  let ?seven = "emptyInput(ForkBurnDivisor := Some (Some (StringValue ''7'')))"
  note sources = getEnvironmentProtocolConfigOverrides_def getGlobalProtocolConfigOverrides_def readProcessEnv_def
    read_field_def emptyInput_def
  have five: "parseConfigBigInt (Some (StringValue ''5'')) ForkBurnDivisor = ok (Some 5)" by code_simp
  have seven: "parseConfigBigInt (Some (StringValue ''7'')) ForkBurnDivisor = ok (Some 7)" by code_simp
  have burn: "field_of MAINNET_PROTOCOL_CONFIG ForkBurnDivisor = 5" by (simp add: MAINNET_PROTOCOL_CONFIG_def)
  have "getMainnetProtocolConfig (\<lambda>_. None) None ?five = ok MAINNET_PROTOCOL_CONFIG"
    using mainnet_config_frozen [of "\<lambda>_. None" None ?five] five burn
    by (auto simp: sources simp del: parseConfigBigInt.simps(5))
  moreover have "\<not> (getMainnetProtocolConfig (\<lambda>_. None) None ?seven = ok MAINNET_PROTOCOL_CONFIG)"
    using mainnet_config_frozen [of "\<lambda>_. None" None ?seven] seven burn
    by (auto simp: sources simp del: parseConfigBigInt.simps(5) dest!: spec [of _ ForkBurnDivisor])
  ultimately show ?thesis by blast
qed

end
