(* ===== verification/Vault_Ui.thy ===== *)
theory Vault_Ui
  imports Liquidation Protocol_Config
begin

text \<open>
  The vault screens' logic in \<open>ui/statoblast/ts/features/security-pools/lib\<close>:
  \<open>liquidation.ts\<close> (health, the simulated liquidation, the reasons a liquidation would fail)
  and \<open>securityVault.ts\<close> (withdrawable backing, capacity ceilings, price freshness). An
  optional parameter with a default is an option, \<open>None\<close> where the caller leaves it out.
\<close>

section \<open>Vault summaries and open interest\<close>

record SecurityPoolVaultSummary =
  vs_badDebtAttoEth :: "int option"
  vs_openInterestAttoEth :: "int option"
  vs_disputeStakedAttoRep :: int
  vs_repBackingUnits :: "int option"
  vs_totalRepBackingUnits :: "int option"
  vs_vaultAttoRepBacking :: int
  vs_capacityOwnershipAttoRep :: int
  vs_totalPoolHeldRepBalanceAttoRep :: "int option"
  vs_claimableFeesAttoEth :: int
  vs_vaultAddress :: string

definition DEFAULT_MINIMUM_SECURITY_BOND_DEBT_ui :: int where
  "DEFAULT_MINIMUM_SECURITY_BOND_DEBT_ui = minimumSecurityBondDebt DEFAULT_PROTOCOL_CONFIG"

definition DEFAULT_MINIMUM_VAULT_REP_DEPOSIT_ui :: int where
  "DEFAULT_MINIMUM_VAULT_REP_DEPOSIT_ui = 10 * 10 ^ 18"

definition getVaultOpenInterestAttoEth :: "SecurityPoolVaultSummary \<Rightarrow> int option" where
  "getVaultOpenInterestAttoEth vault = vs_openInterestAttoEth vault"

definition requireVaultOpenInterestAttoEth :: "SecurityPoolVaultSummary \<Rightarrow> int result" where
  "requireVaultOpenInterestAttoEth vault =
     (case getVaultOpenInterestAttoEth vault of
        None \<Rightarrow> throw ''Vault live open interest is still loading'' | Some oi \<Rightarrow> ok oi)"

definition requireVaultBadDebtAttoEth :: "SecurityPoolVaultSummary \<Rightarrow> int result" where
  "requireVaultBadDebtAttoEth vault =
     (case vs_badDebtAttoEth vault of None \<Rightarrow> throw ''Vault bad debt is still loading'' | Some d \<Rightarrow> ok d)"

definition calculateVaultOpenInterestAttoEth :: "int \<Rightarrow> int \<Rightarrow> int \<Rightarrow> int" where
  "calculateVaultOpenInterestAttoEth settlementCollateral capacity totalCapacity =
     (if capacity = 0 \<or> totalCapacity = 0 then 0
      else (settlementCollateral * capacity + totalCapacity - 1) sdiv totalCapacity)"

definition calculateLiveVaultOpenInterestAfterOwnershipChange :: "int \<Rightarrow> int \<Rightarrow> int \<Rightarrow> int \<Rightarrow> int \<Rightarrow> int" where
  "calculateLiveVaultOpenInterestAfterOwnershipChange capacityAfter totalCapacity settlementCollateral
       vaultBadDebt vaultBadDebtIncrease =
     (let gross = calculateVaultOpenInterestAttoEth settlementCollateral capacityAfter totalCapacity;
          resultingBadDebt = vaultBadDebt + vaultBadDebtIncrease
      in if gross > resultingBadDebt then gross - resultingBadDebt else 0)"

section \<open>Health\<close>

definition mulDivCeil :: "int \<Rightarrow> int \<Rightarrow> int \<Rightarrow> int" where
  "mulDivCeil value multiplier denominator =
     (let product = value * multiplier in if product = 0 then 0 else (product - 1) sdiv denominator + 1)"

definition isVaultHealthyAtFactor :: "int option \<Rightarrow> int \<Rightarrow> int \<Rightarrow> int \<Rightarrow> int \<Rightarrow> int \<Rightarrow> bool" where
  "isVaultHealthyAtFactor disputeStaked0 healthFactorBps openInterest backing multiplierBps price =
     (let disputeStaked = (case disputeStaked0 of None \<Rightarrow> 0 | Some d \<Rightarrow> d) in
      if healthFactorBps < LIQUIDATION_BPS_DENOMINATOR then False
      else if openInterest = 0 then True
      else
        let baseRequired = mulDivCeil openInterest price LIQUIDATION_PRICE_PRECISION;
            associatedRequired = mulDivCeil (mulDivCeil baseRequired multiplierBps LIQUIDATION_BPS_DENOMINATOR)
              healthFactorBps LIQUIDATION_BPS_DENOMINATOR
        in if backing + disputeStaked < associatedRequired then False
        else
          let configured = LIQUIDATION_BPS_DENOMINATOR + (multiplierBps - LIQUIDATION_BPS_DENOMINATOR) sdiv 2;
              reserve = LIQUIDATION_BPS_DENOMINATOR + LIQUIDATION_REP_BONUS_BPS;
              migration = (if configured < reserve then reserve else configured);
              freeRequired = mulDivCeil (mulDivCeil baseRequired migration LIQUIDATION_BPS_DENOMINATOR)
                healthFactorBps LIQUIDATION_BPS_DENOMINATOR
          in backing \<ge> freeRequired)"

definition isVaultLiquidatable :: "int option \<Rightarrow> int option \<Rightarrow> int option \<Rightarrow> int option \<Rightarrow> int option \<Rightarrow> bool" where
  "isVaultLiquidatable lastPrice openInterest backing disputeStaked multiplierBps =
     (case (lastPrice, openInterest, backing, multiplierBps) of
        (Some price, Some oi, Some rep, Some m) \<Rightarrow>
          \<not> isVaultHealthyAtFactor disputeStaked LIQUIDATION_BPS_DENOMINATOR oi rep m price
      | _ \<Rightarrow> False)"

section \<open>The simulated liquidation\<close>

record PartialTransfer =
  pt_remainingAttoRep :: int
  pt_vaultAttoRepBackingToTransfer :: int

definition getPartialLiquidationTransfer :: "int \<Rightarrow> SecurityPoolVaultSummary \<Rightarrow> int \<Rightarrow> PartialTransfer" where
  "getPartialLiquidationTransfer debtMoved target price =
     (let quotedRep = getLiquidationVaultRepBackingToTransfer debtMoved price in
      case (vs_repBackingUnits target, vs_totalRepBackingUnits target, vs_totalPoolHeldRepBalanceAttoRep target) of
        (Some units, Some allUnits, Some held) \<Rightarrow>
          let unitsToTransfer = (if allUnits = 0 \<or> held = 0 then quotedRep * LIQUIDATION_PRICE_PRECISION
                else (quotedRep * allUnits + held - 1) sdiv held) in
          if unitsToTransfer \<ge> units
          then \<lparr>pt_remainingAttoRep = 0, pt_vaultAttoRepBackingToTransfer = vs_vaultAttoRepBacking target\<rparr>
          else
            let remainingUnits = units - unitsToTransfer in
            \<lparr>pt_remainingAttoRep = (if allUnits = 0 then remainingUnits sdiv LIQUIDATION_PRICE_PRECISION
               else (remainingUnits * held) sdiv allUnits),
             pt_vaultAttoRepBackingToTransfer = (if allUnits = 0 then unitsToTransfer sdiv LIQUIDATION_PRICE_PRECISION
               else (unitsToTransfer * held) sdiv allUnits)\<rparr>
      | _ \<Rightarrow>
          if quotedRep \<ge> vs_vaultAttoRepBacking target
          then \<lparr>pt_remainingAttoRep = 0, pt_vaultAttoRepBackingToTransfer = vs_vaultAttoRepBacking target\<rparr>
          else \<lparr>pt_remainingAttoRep = vs_vaultAttoRepBacking target - quotedRep,
                pt_vaultAttoRepBackingToTransfer = quotedRep\<rparr>)"

definition getAwardableLiquidationRep :: "SecurityPoolVaultSummary \<Rightarrow> bool \<Rightarrow> int \<Rightarrow> int" where
  "getAwardableLiquidationRep target reserveMinimumRep minimumDeposit =
     (case (vs_repBackingUnits target, vs_totalRepBackingUnits target, vs_totalPoolHeldRepBalanceAttoRep target) of
        (Some units, Some allUnits, Some held) \<Rightarrow>
          let reserveUnits = (if reserveMinimumRep
                then if allUnits = 0 \<or> held = 0 then minimumDeposit * LIQUIDATION_PRICE_PRECISION
                     else (minimumDeposit * allUnits + held - 1) sdiv held
                else 0) in
          if reserveUnits \<ge> units then 0
          else
            let awardableUnits = units - reserveUnits in
            if allUnits = 0 then awardableUnits sdiv LIQUIDATION_PRICE_PRECISION
            else (awardableUnits * held) sdiv allUnits
      | _ \<Rightarrow>
          if \<not> reserveMinimumRep then vs_vaultAttoRepBacking target
          else if vs_vaultAttoRepBacking target > minimumDeposit then vs_vaultAttoRepBacking target - minimumDeposit
          else 0)"

record FundedAmounts =
  fa_badDebtAttoEth :: int
  fa_capacityOwnershipMovedAttoRep :: int
  fa_debtMovedAttoEth :: int

definition zeroFundedAmounts :: FundedAmounts where
  "zeroFundedAmounts = \<lparr>fa_badDebtAttoEth = 0, fa_capacityOwnershipMovedAttoRep = 0, fa_debtMovedAttoEth = 0\<rparr>"

definition getFundedLiquidationAmounts ::
  "int \<Rightarrow> SecurityPoolVaultSummary \<Rightarrow> SecurityPoolVaultSummary option \<Rightarrow> int \<Rightarrow> int \<Rightarrow> int \<Rightarrow> int \<Rightarrow> FundedAmounts result" where
  "getFundedLiquidationAmounts requestedDebt target receiver price minimumDeposit settlementCollateral totalCapacity =
     (let targetCapacity = vs_capacityOwnershipAttoRep target in
      bindR (requireVaultOpenInterestAttoEth target) (\<lambda>targetOpenInterest.
      let resolveResidual = (requestedDebt \<ge> targetOpenInterest) in
      if targetOpenInterest = 0 then ok zeroFundedAmounts
      else
        let awardable = getAwardableLiquidationRep target (\<not> resolveResidual) minimumDeposit;
            maximumFunded = getMaximumFundedDebtAttoEth awardable price;
            bounded = (if requestedDebt < targetOpenInterest then requestedDebt else targetOpenInterest);
            nominal = (if bounded < maximumFunded then bounded else maximumFunded);
            capacityMoved = (if nominal = targetOpenInterest then targetCapacity
              else (targetCapacity * nominal) sdiv targetOpenInterest)
        in
        if capacityMoved = 0 then ok zeroFundedAmounts
        else
          let receiverCapacity = (case receiver of None \<Rightarrow> 0 | Some v \<Rightarrow> vs_capacityOwnershipAttoRep v) in
          bindR (case receiver of None \<Rightarrow> ok 0 | Some v \<Rightarrow> requireVaultOpenInterestAttoEth v) (\<lambda>receiverBefore.
          bindR (case receiver of None \<Rightarrow> ok 0 | Some v \<Rightarrow> requireVaultBadDebtAttoEth v) (\<lambda>receiverBadDebt.
          let receiverAfter = calculateLiveVaultOpenInterestAfterOwnershipChange (receiverCapacity + capacityMoved)
                totalCapacity settlementCollateral receiverBadDebt 0;
              debtMoved = (if receiverAfter \<ge> receiverBefore then receiverAfter - receiverBefore else 0)
          in
          if debtMoved = 0 \<or> debtMoved > nominal then ok zeroFundedAmounts
          else ok \<lparr>fa_badDebtAttoEth = (if resolveResidual then targetOpenInterest - debtMoved else 0),
                   fa_capacityOwnershipMovedAttoRep = capacityMoved, fa_debtMovedAttoEth = debtMoved\<rparr>))))"

definition getLiquidationExecutionFailureDetail :: "string option \<Rightarrow> string option" where
  "getLiquidationExecutionFailureDetail errorMessage =
     (if errorMessage = Some ''Target safe'' then Some ''The target vault is not liquidatable at the current price.''
      else if errorMessage = Some ''No liq'' then Some ''No capacity ownership is transferable at the current target-side bounds.''
      else if errorMessage = Some ''Receiver bad'' then Some ''The receiver vault would become undercollateralized after this liquidation, or it is also the target vault.''
      else if errorMessage = Some ''Target REP'' then Some ''The target vault would fall below the minimum REP backing after liquidation.''
      else if errorMessage = Some ''Target debt'' then Some ''The target vault would fall below the minimum security-bond debt after liquidation.''
      else if errorMessage = Some ''Receiver REP'' then Some ''The receiver vault would remain below the minimum REP backing after liquidation.''
      else if errorMessage = Some ''Receiver debt below minimum'' then Some ''The receiver vault would remain below the minimum debt after liquidation.''
      else errorMessage)"

definition getMaxLiquidationAmount :: "int option \<Rightarrow> int option \<Rightarrow> SecurityPoolVaultSummary option \<Rightarrow> int option" where
  "getMaxLiquidationAmount price multiplierBps target =
     (case (price, multiplierBps, target) of
        (Some p, Some m, Some v) \<Rightarrow>
          if p \<le> 0 \<or> m \<le> 0 then Some 0
          else (case getVaultOpenInterestAttoEth v of
              None \<Rightarrow> None
            | Some oi \<Rightarrow>
                if oi = 0 then Some 0
                else if \<not> isVaultLiquidatable (Some p) (Some oi) (Some (vs_vaultAttoRepBacking v))
                          (Some (vs_disputeStakedAttoRep v)) (Some m) then Some 0
                else Some oi)
      | _ \<Rightarrow> None)"

record VaultSnapshot =
  sn_disputeStakedAttoRep :: int
  sn_vaultAttoRepBacking :: int
  sn_capacityOwnershipAttoRep :: int

record LiquidationSimulation =
  ls_callerAfter :: VaultSnapshot
  ls_callerBefore :: VaultSnapshot
  ls_debtMovedAttoEth :: int
  ls_capacityOwnershipMovedAttoRep :: int
  ls_badDebtAttoEth :: int
  ls_grossRepAwardAttoRep :: int
  ls_vaultAttoRepBackingToTransfer :: int
  ls_targetAccruedFeesRetained :: int
  ls_targetAfter :: VaultSnapshot
  ls_targetBefore :: VaultSnapshot

definition simulateLiquidation ::
  "SecurityPoolVaultSummary option \<Rightarrow> int \<Rightarrow> int \<Rightarrow> int option \<Rightarrow> int \<Rightarrow> int \<Rightarrow> int \<Rightarrow> SecurityPoolVaultSummary
    \<Rightarrow> LiquidationSimulation result" where
  "simulateLiquidation caller requestedDebt totalCapacity minimumDeposit0 price settlementCollateral multiplierBps target =
     (let minimumDeposit = (case minimumDeposit0 of None \<Rightarrow> DEFAULT_MINIMUM_VAULT_REP_DEPOSIT_ui | Some d \<Rightarrow> d);
          callerRep = (case caller of None \<Rightarrow> 0 | Some v \<Rightarrow> vs_vaultAttoRepBacking v);
          callerDispute = (case caller of None \<Rightarrow> 0 | Some v \<Rightarrow> vs_disputeStakedAttoRep v);
          callerCapacity = (case caller of None \<Rightarrow> 0 | Some v \<Rightarrow> vs_capacityOwnershipAttoRep v)
      in
      bindR (requireVaultOpenInterestAttoEth target) (\<lambda>targetOpenInterest.
      let maxDebt = (case getMaxLiquidationAmount (Some price) (Some multiplierBps) (Some target) of
            None \<Rightarrow> targetOpenInterest | Some d \<Rightarrow> d) in
      bindR (getFundedLiquidationAmounts (if requestedDebt < maxDebt then requestedDebt else maxDebt) target caller
               price minimumDeposit settlementCollateral totalCapacity) (\<lambda>funded.
      let transferred = pt_vaultAttoRepBackingToTransfer (getPartialLiquidationTransfer (fa_debtMovedAttoEth funded) target price) in
      ok \<lparr>ls_callerAfter = \<lparr>sn_disputeStakedAttoRep = callerDispute, sn_vaultAttoRepBacking = callerRep + transferred,
             sn_capacityOwnershipAttoRep = callerCapacity + fa_capacityOwnershipMovedAttoRep funded\<rparr>,
          ls_callerBefore = \<lparr>sn_disputeStakedAttoRep = callerDispute, sn_vaultAttoRepBacking = callerRep,
             sn_capacityOwnershipAttoRep = callerCapacity\<rparr>,
          ls_debtMovedAttoEth = fa_debtMovedAttoEth funded,
          ls_capacityOwnershipMovedAttoRep = fa_capacityOwnershipMovedAttoRep funded,
          ls_badDebtAttoEth = fa_badDebtAttoEth funded,
          ls_grossRepAwardAttoRep = getLiquidationVaultRepBackingToTransfer (fa_debtMovedAttoEth funded) price,
          ls_vaultAttoRepBackingToTransfer = transferred,
          ls_targetAccruedFeesRetained = vs_claimableFeesAttoEth target,
          ls_targetAfter = \<lparr>sn_disputeStakedAttoRep = vs_disputeStakedAttoRep target,
             sn_vaultAttoRepBacking = vs_vaultAttoRepBacking target - transferred,
             sn_capacityOwnershipAttoRep = vs_capacityOwnershipAttoRep target - fa_capacityOwnershipMovedAttoRep funded\<rparr>,
          ls_targetBefore = \<lparr>sn_disputeStakedAttoRep = vs_disputeStakedAttoRep target,
             sn_vaultAttoRepBacking = vs_vaultAttoRepBacking target,
             sn_capacityOwnershipAttoRep = vs_capacityOwnershipAttoRep target\<rparr>\<rparr>)))"

section \<open>Reasons for failure\<close>

definition default_to :: "'a \<Rightarrow> 'a option \<Rightarrow> 'a" where
  "default_to d v = (case v of None \<Rightarrow> d | Some x \<Rightarrow> x)"

record LiquidationRequest =
  lr_caller :: "SecurityPoolVaultSummary option"
  lr_requestedDebt :: "int option"
  lr_totalCapacity :: "int option"
  lr_maxLiquidationDebt :: "int option"
  lr_minimumSecurityBondDebt :: "int option"
  lr_minimumVaultRepDeposit :: "int option"
  lr_price :: "int option"
  lr_settlementCollateral :: "int option"
  lr_multiplierBps :: "int option"
  lr_target :: "SecurityPoolVaultSummary option"

definition notUndercollateralized :: string where
  "notUndercollateralized = ''This vault is not undercollateralized at the current Open Oracle price.''"

definition getDeterministicLiquidationFailureReason :: "LiquidationRequest \<Rightarrow> string option result" where
  "getDeterministicLiquidationFailureReason r =
     (let minimumDebt = default_to DEFAULT_MINIMUM_SECURITY_BOND_DEBT_ui (lr_minimumSecurityBondDebt r);
          minimumDeposit = default_to DEFAULT_MINIMUM_VAULT_REP_DEPOSIT_ui (lr_minimumVaultRepDeposit r) in
      case lr_requestedDebt r of
        None \<Rightarrow> ok (Some ''Enter a valid liquidation amount.'')
      | Some requestedDebt \<Rightarrow>
      if requestedDebt \<le> 0 then ok (Some ''Enter a liquidation amount greater than zero.'') else
      case lr_target r of
        None \<Rightarrow> ok (Some ''Target vault details are still loading.'')
      | Some target \<Rightarrow>
      case getVaultOpenInterestAttoEth target of
        None \<Rightarrow> ok (Some ''Target vault live open interest is still loading.'')
      | Some targetOpenInterest \<Rightarrow>
      if targetOpenInterest = 0 then ok (Some ''This vault has no open interest to liquidate.'')
      else if lr_price r \<noteq> None \<and> lr_multiplierBps r \<noteq> None \<and>
          \<not> isVaultLiquidatable (lr_price r) (Some targetOpenInterest) (Some (vs_vaultAttoRepBacking target))
              (Some (vs_disputeStakedAttoRep target)) (lr_multiplierBps r)
      then ok (Some notUndercollateralized)
      else
        let targetMax = (case lr_maxLiquidationDebt r of None \<Rightarrow> targetOpenInterest
              | Some d \<Rightarrow> if d > targetOpenInterest then targetOpenInterest else d);
            bounded = (if requestedDebt < targetMax then requestedDebt else targetMax) in
        case (lr_price r, lr_settlementCollateral r, lr_totalCapacity r) of
          (Some price, Some settlementCollateral, Some totalCapacity) \<Rightarrow>
            bindR (getFundedLiquidationAmounts bounded target (lr_caller r) price minimumDeposit
                     settlementCollateral totalCapacity) (\<lambda>funded.
            let debtMoved = fa_debtMovedAttoEth funded; capacityMoved = fa_capacityOwnershipMovedAttoRep funded;
                badDebt = fa_badDebtAttoEth funded in
            if (debtMoved \<le> 0 \<or> capacityMoved = 0) \<and> badDebt \<le> 0
            then ok (Some ''No capacity ownership is transferable at the current target-side bounds.'')
            else
              let transferred = pt_vaultAttoRepBackingToTransfer (getPartialLiquidationTransfer debtMoved target price);
                  remainingCapacity = vs_capacityOwnershipAttoRep target - capacityMoved in
              bindR (requireVaultBadDebtAttoEth target) (\<lambda>targetBadDebt.
              let remainingDebt = calculateLiveVaultOpenInterestAfterOwnershipChange remainingCapacity totalCapacity
                    settlementCollateral targetBadDebt badDebt;
                  targetAfter = vs_vaultAttoRepBacking target - transferred;
                  callerAfter = (case lr_caller r of None \<Rightarrow> 0 | Some v \<Rightarrow> vs_vaultAttoRepBacking v) + transferred;
                  callerCapacity = (case lr_caller r of None \<Rightarrow> 0 | Some v \<Rightarrow> vs_capacityOwnershipAttoRep v) + capacityMoved in
              case (case lr_caller r of None \<Rightarrow> Some 0 | Some v \<Rightarrow> getVaultOpenInterestAttoEth v) of
                None \<Rightarrow> ok (Some ''Receiver vault live open interest is still loading.'')
              | Some callerOpenInterest \<Rightarrow>
              let receiverDebt = callerOpenInterest + debtMoved in
              if remainingDebt \<noteq> 0 \<and> targetAfter < minimumDeposit
              then ok (Some ''The target vault would fall below the minimum REP backing after liquidation.'')
              else if remainingDebt \<noteq> 0 \<and> remainingDebt < minimumDebt
              then ok (Some ''The target vault would fall below the minimum security-bond debt after liquidation.'')
              else if debtMoved \<noteq> 0 \<and> callerAfter < minimumDeposit
              then ok (Some ''The receiver vault would remain below the minimum REP backing after liquidation.'')
              else if debtMoved \<noteq> 0 \<and> receiverDebt < minimumDebt
              then ok (Some ''The selected receiver would remain below the minimum security-bond debt after liquidation.'')
              else if debtMoved \<noteq> 0 \<and> callerCapacity = 0
              then ok (Some ''No capacity ownership would move with the liquidation debt.'')
              else ok None))
        | _ \<Rightarrow> ok None)"

text \<open>The screen's check: the deterministic reasons first, then the receiver's health at the required factor.\<close>

definition getLiquidationFailureReason ::
  "SecurityPoolVaultSummary option \<Rightarrow> int option \<Rightarrow> int \<Rightarrow> int option \<Rightarrow> int option \<Rightarrow> int option \<Rightarrow> int option \<Rightarrow> int
    \<Rightarrow> int option \<Rightarrow> SecurityPoolVaultSummary option \<Rightarrow> string option result" where
  "getLiquidationFailureReason caller requestedDebt totalCapacity minimumReceiverHealth minimumDebt minimumDeposit
       price0 settlementCollateral multiplier0 target0 =
     (let minimumHealth = default_to LIQUIDATION_BPS_DENOMINATOR minimumReceiverHealth;
          targetOpenInterest = (case target0 of None \<Rightarrow> None | Some v \<Rightarrow> getVaultOpenInterestAttoEth v);
          early = (case (price0, multiplier0, target0, targetOpenInterest) of
             (Some p, Some m, Some v, Some oi) \<Rightarrow>
               \<not> isVaultLiquidatable (Some p) (Some oi) (Some (vs_vaultAttoRepBacking v)) (Some (vs_disputeStakedAttoRep v)) (Some m)
           | _ \<Rightarrow> False)
      in
      if early then ok (Some notUndercollateralized)
      else
        bindR (getDeterministicLiquidationFailureReason
          \<lparr>lr_caller = caller, lr_requestedDebt = requestedDebt, lr_totalCapacity = Some totalCapacity,
           lr_maxLiquidationDebt = getMaxLiquidationAmount price0 multiplier0 target0,
           lr_minimumSecurityBondDebt = Some (default_to DEFAULT_MINIMUM_SECURITY_BOND_DEBT_ui minimumDebt),
           lr_minimumVaultRepDeposit = Some (default_to DEFAULT_MINIMUM_VAULT_REP_DEPOSIT_ui minimumDeposit),
           lr_price = price0, lr_settlementCollateral = Some settlementCollateral, lr_multiplierBps = multiplier0,
           lr_target = target0\<rparr>) (\<lambda>deterministic.
        case deterministic of
          Some reason \<Rightarrow> ok (Some reason)
        | None \<Rightarrow>
        case requestedDebt of
          None \<Rightarrow> ok (Some ''Enter a valid liquidation amount.'')
        | Some requested \<Rightarrow>
        case (price0, multiplier0) of
          (Some price, Some multiplier) \<Rightarrow>
            (case target0 of
               None \<Rightarrow> ok (Some ''Target vault details are still loading.'')
             | Some target \<Rightarrow>
               bindR (simulateLiquidation caller requested totalCapacity
                        (Some (default_to DEFAULT_MINIMUM_VAULT_REP_DEPOSIT_ui minimumDeposit)) price settlementCollateral multiplier target)
                 (\<lambda>simulation.
               bindR (case caller of None \<Rightarrow> ok 0 | Some v \<Rightarrow> requireVaultOpenInterestAttoEth v) (\<lambda>callerBefore.
               let callerAfter = callerBefore + ls_debtMovedAttoEth simulation;
                   healthy = isVaultHealthyAtFactor (Some (sn_disputeStakedAttoRep (ls_callerAfter simulation))) minimumHealth
                     callerAfter (sn_vaultAttoRepBacking (ls_callerAfter simulation)) multiplier price
               in
               if healthy then ok None
               else if minimumHealth > LIQUIDATION_BPS_DENOMINATOR
               then ok (Some ''The receiver vault would fall below the approved minimum post-liquidation health factor.'')
               else if isVaultLiquidatable (Some price) (Some callerBefore)
                   (Some (sn_vaultAttoRepBacking (ls_callerBefore simulation)))
                   (case caller of None \<Rightarrow> None | Some v \<Rightarrow> Some (vs_disputeStakedAttoRep v)) (Some multiplier)
               then ok (Some ''The receiver vault would remain liquidatable after this liquidation.'')
               else ok (Some ''The receiver vault would become liquidatable after this liquidation.''))))
        | _ \<Rightarrow> ok (Some ''Refresh the Open Oracle before executing liquidation.'')))"

section \<open>Vault selection and price freshness\<close>

text \<open>\<open>sameAddress\<close>: both defined and equal after trimming, without regard to case.\<close>

definition normalizeCaseInsensitiveText :: "string option \<Rightarrow> string option" where
  "normalizeCaseInsensitiveText v = map_option (\<lambda>s. toLowerCase (trim s)) v"

definition sameCaseInsensitiveText :: "string option \<Rightarrow> string option \<Rightarrow> bool" where
  "sameCaseInsensitiveText left right \<longleftrightarrow>
     normalizeCaseInsensitiveText left \<noteq> None \<and> normalizeCaseInsensitiveText left = normalizeCaseInsensitiveText right"

definition sameAddress_ui :: "string option \<Rightarrow> string option \<Rightarrow> bool" where
  "sameAddress_ui left right = sameCaseInsensitiveText left right"

definition ORACLE_MANAGER_PRICE_VALID_FOR_SECONDS :: int where
  "ORACLE_MANAGER_PRICE_VALID_FOR_SECONDS = 5 * 60"

definition getOracleManagerPriceValidUntilTimestamp :: "int option \<Rightarrow> int option" where
  "getOracleManagerPriceValidUntilTimestamp lastSettlement =
     (case lastSettlement of
        None \<Rightarrow> None | Some s \<Rightarrow> if s = 0 then None else Some (s + ORACLE_MANAGER_PRICE_VALID_FOR_SECONDS))"

record OracleManagerDetails =
  om_isPriceValid :: bool
  om_lastSettlementTimestamp :: int
  om_managerAddress :: string
  om_priceValidUntilTimestamp :: "int option"

definition isOracleManagerPriceUsable :: "OracleManagerDetails option \<Rightarrow> int option \<Rightarrow> bool" where
  "isOracleManagerPriceUsable details currentTimestamp =
     (case details of
        None \<Rightarrow> False
      | Some d \<Rightarrow>
          if \<not> om_isPriceValid d then False
          else (case currentTimestamp of
              None \<Rightarrow> True
            | Some now \<Rightarrow>
                (case (case om_priceValidUntilTimestamp d of
                         Some v \<Rightarrow> Some v
                       | None \<Rightarrow> getOracleManagerPriceValidUntilTimestamp (Some (om_lastSettlementTimestamp d))) of
                   None \<Rightarrow> False | Some validUntil \<Rightarrow> now < validUntil)))"

definition hasValidSecurityVaultOraclePrice :: "string option \<Rightarrow> OracleManagerDetails option \<Rightarrow> int option \<Rightarrow> bool" where
  "hasValidSecurityVaultOraclePrice managerAddress details currentTimestamp =
     (case (managerAddress, details) of
        (Some m, Some d) \<Rightarrow>
          sameAddress_ui (Some m) (Some (om_managerAddress d)) \<and> isOracleManagerPriceUsable (Some d) currentTimestamp
      | _ \<Rightarrow> False)"

definition MIN_SECURITY_VAULT_REP_DEPOSIT_ATTO_REP :: int where
  "MIN_SECURITY_VAULT_REP_DEPOSIT_ATTO_REP = 10 * 10 ^ 18"
definition MIN_STAGED_OPERATION_TIMEOUT_MINUTES :: int where
  "MIN_STAGED_OPERATION_TIMEOUT_MINUTES = 1"

definition getStagedOperationTimeoutSeconds :: "int option \<Rightarrow> int option" where
  "getStagedOperationTimeoutSeconds timeoutMinutes =
     (case timeoutMinutes of
        None \<Rightarrow> None
      | Some m \<Rightarrow> if m < MIN_STAGED_OPERATION_TIMEOUT_MINUTES then None else Some (m * 60))"

definition parseTargetHealthFactorBps :: "string \<Rightarrow> int result" where
  "parseTargetHealthFactorBps value0 =
     (let trimmed = trim value0 in
      if \<not> is_decimal 4 trimmed
      then throw ''Deposit target factor must be a number with at most four decimal places''
      else
        let factorBps = int (digits_value (whole_part trimmed)) * 10000
              + int (digits_value (padEnd 4 (CHR ''0'') (fraction_part trimmed)))
        in if factorBps < 10000 then throw (''Deposit target factor must be at least 1.00'' @ [CHR 0xD7])
           else ok factorBps)"

definition getSelectedVaultOwner :: "string option \<Rightarrow> string option \<Rightarrow> string option" where
  "getSelectedVaultOwner selectedVaultOwner accountAddress =
     (let trimmed = (case selectedVaultOwner of None \<Rightarrow> [] | Some s \<Rightarrow> trim s)
      in if trimmed \<noteq> [] then Some trimmed else accountAddress)"

definition isSelectedVaultOwnedByAccount :: "string option \<Rightarrow> string option \<Rightarrow> bool" where
  "isSelectedVaultOwnedByAccount selectedVaultOwner accountAddress =
     (let trimmed = (case selectedVaultOwner of None \<Rightarrow> [] | Some s \<Rightarrow> trim s)
      in if trimmed = [] \<or> accountAddress = None then False else sameAddress_ui (Some trimmed) accountAddress)"

definition isSecurityVaultDepositBelowMinimum :: "int option \<Rightarrow> int option \<Rightarrow> int option \<Rightarrow> bool" where
  "isSecurityVaultDepositBelowMinimum currentBacking depositAmount minimumDeposit =
     (case depositAmount of
        None \<Rightarrow> False
      | Some d \<Rightarrow>
          if d \<le> 0 then False
          else default_to 0 currentBacking = 0 \<and> d < default_to MIN_SECURITY_VAULT_REP_DEPOSIT_ATTO_REP minimumDeposit)"

section \<open>Withdrawals and capacity ceilings\<close>

definition getMigrationSecurityMultiplierBps :: "int \<Rightarrow> int" where
  "getMigrationSecurityMultiplierBps multiplierBps = 10000 + (multiplierBps - 10000) sdiv 2"

definition divideBigintRoundUp :: "int \<Rightarrow> int \<Rightarrow> int result" where
  "divideBigintRoundUp v divisor =
     (if divisor \<le> 0 then throw ''Divisor must be greater than zero'' else ok ((v + divisor - 1) sdiv divisor))"

definition getCapacityOwnershipBackedRepFloor :: "int option \<Rightarrow> int option \<Rightarrow> int option \<Rightarrow> int option result" where
  "getCapacityOwnershipBackedRepFloor capacity price multiplierBps =
     (case capacity of
        None \<Rightarrow> ok (Some 0)
      | Some c \<Rightarrow> if c \<le> 0 then ok (Some 0) else
          case price of
            None \<Rightarrow> ok None
          | Some p \<Rightarrow> if p \<le> 0 then ok None else
              case multiplierBps of
                None \<Rightarrow> ok None
              | Some m \<Rightarrow> if m \<le> 0 then ok None
                  else bindR (divideBigintRoundUp (c * p * m) (PRICE_PRECISION * 10000)) (\<lambda>r. ok (Some r)))"

definition getStrictCapacityOwnershipBackedRepMinimum :: "int option \<Rightarrow> int option \<Rightarrow> int option \<Rightarrow> int option" where
  "getStrictCapacityOwnershipBackedRepMinimum capacity price multiplierBps =
     (case capacity of
        None \<Rightarrow> Some 0
      | Some c \<Rightarrow> if c \<le> 0 then Some 0 else
          case price of
            None \<Rightarrow> None
          | Some p \<Rightarrow> if p \<le> 0 then None else
              case multiplierBps of
                None \<Rightarrow> None
              | Some m \<Rightarrow> if m \<le> 0 then None else Some ((c * p * m) sdiv (PRICE_PRECISION * 10000) + 1))"

definition getBackedCapacityOwnershipCeiling :: "int option \<Rightarrow> int option \<Rightarrow> int option \<Rightarrow> int" where
  "getBackedCapacityOwnershipCeiling amount price multiplierBps =
     (case (amount, price, multiplierBps) of
        (Some a, Some p, Some m) \<Rightarrow>
          if a \<le> 0 \<or> p \<le> 0 \<or> m \<le> 0 then 0 else (a * PRICE_PRECISION * 10000) sdiv (p * m)
      | _ \<Rightarrow> 0)"

definition getStrictlyBackedCapacityOwnershipCeiling :: "int option \<Rightarrow> int option \<Rightarrow> int option \<Rightarrow> int" where
  "getStrictlyBackedCapacityOwnershipCeiling amount price multiplierBps =
     (case (amount, price, multiplierBps) of
        (Some a, Some p, Some m) \<Rightarrow>
          if a \<le> 0 \<or> p \<le> 0 \<or> m \<le> 0 then 0
          else let numerator = a * PRICE_PRECISION * 10000 in
               if numerator = 0 then 0 else (numerator - 1) sdiv (p * m)
      | _ \<Rightarrow> 0)"

definition getSecurityVaultWithdrawableRepAmount ::
  "int option \<Rightarrow> int option \<Rightarrow> int option \<Rightarrow> int option \<Rightarrow> int option \<Rightarrow> int option \<Rightarrow> int option \<Rightarrow> int option result" where
  "getSecurityVaultWithdrawableRepAmount disputeStaked0 backing0 price capacity multiplierBps totalPoolHeld totalCapacity =
     (let disputeStaked = default_to 0 disputeStaked0 in
      case backing0 of
        None \<Rightarrow> ok None
      | Some backing \<Rightarrow>
      if disputeStaked > 0 then ok (Some 0) else
      bindR (getCapacityOwnershipBackedRepFloor capacity price multiplierBps) (\<lambda>required0.
      case required0 of
        None \<Rightarrow> ok None
      | Some required \<Rightarrow>
      let associated = backing + disputeStaked;
          ordinaryHeadroom = (if associated > required then associated - required else 0) in
      case getStrictCapacityOwnershipBackedRepMinimum capacity price (map_option getMigrationSecurityMultiplierBps multiplierBps) of
        None \<Rightarrow> ok None
      | Some migrationRequired \<Rightarrow>
      let migrationHeadroom = (if backing > migrationRequired then backing - migrationRequired else 0);
          maxLocal = (if backing < ordinaryHeadroom then backing else ordinaryHeadroom);
          maxLocal' = (if migrationHeadroom < maxLocal then migrationHeadroom else maxLocal) in
      case totalPoolHeld of
        None \<Rightarrow> ok (Some maxLocal')
      | Some held \<Rightarrow>
      if held > 0 then
        bindR (getCapacityOwnershipBackedRepFloor totalCapacity price multiplierBps) (\<lambda>poolRequired0.
        case poolRequired0 of
          None \<Rightarrow> ok None
        | Some poolRequired \<Rightarrow>
            let maxGlobal = (if held > poolRequired then held - poolRequired else 0)
            in ok (Some (if maxLocal' < maxGlobal then maxLocal' else maxGlobal)))
      else ok (Some maxLocal')))"

definition getSecurityVaultMaxCapacityOwnershipAttoRepAmount ::
  "int option \<Rightarrow> int option \<Rightarrow> int option \<Rightarrow> int option \<Rightarrow> int option \<Rightarrow> int option \<Rightarrow> int option \<Rightarrow> int" where
  "getSecurityVaultMaxCapacityOwnershipAttoRepAmount currentCapacity disputeStaked backing price multiplierBps
       totalPoolHeld totalCapacity =
     (let localCeiling = getBackedCapacityOwnershipCeiling (Some (default_to 0 backing + default_to 0 disputeStaked)) price multiplierBps;
          migrationCeiling = getStrictlyBackedCapacityOwnershipCeiling backing price (map_option getMigrationSecurityMultiplierBps multiplierBps);
          maxAmount = (if migrationCeiling < localCeiling then migrationCeiling else localCeiling)
      in case (totalPoolHeld, totalCapacity) of
           (Some held, Some totalOwned) \<Rightarrow>
             let current = default_to 0 currentCapacity;
                 others = (if totalOwned > current then totalOwned - current else 0);
                 globalCeiling = getBackedCapacityOwnershipCeiling (Some held) price multiplierBps;
                 remaining = (if globalCeiling > others then globalCeiling - others else 0)
             in if maxAmount < remaining then maxAmount else remaining
         | _ \<Rightarrow> maxAmount)"

section \<open>The screen and the bot agree on health\<close>

lemma mulDivCeil_value: "0 \<le> a * b \<Longrightarrow> 0 < d \<Longrightarrow> mulDivCeil a b d = ceil_quot (a * b) d"
  unfolding mulDivCeil_def Let_def by (rule ceil_quot_if_idiom)

interpretation ui_ceil: ceil_division divideBigintRoundUp
  by unfold_locales (simp add: divideBigintRoundUp_def ceil_quot_add_idiom)

lemma healthy_value:
  assumes "0 < oi" and "0 < price" and "0 < m" and "10000 \<le> h"
  shows "isVaultHealthyAtFactor (Some disp) h oi backing m price \<longleftrightarrow>
    associatedMinimum oi m price * h \<le> (backing + disp) * 10000 \<and> freeMinimum oi m price * h \<le> backing * 10000"
proof -
  note pos = minimum_pos [OF assms(1,2)]
  have migpos: "0 < migrationMultiplierBps m" using migrationMultiplierBps_ge [of m] by simp
  have 1: "mulDivCeil oi price LIQUIDATION_PRICE_PRECISION = baseRequirement oi price"
    using assms by (simp add: mulDivCeil_value baseRequirement_def)
  have 2: "mulDivCeil (baseRequirement oi price) m LIQUIDATION_BPS_DENOMINATOR = associatedMinimum oi m price"
    using assms pos(1) by (simp add: mulDivCeil_value associatedMinimum_def)
  have 3: "mulDivCeil (baseRequirement oi price) (migrationMultiplierBps m) LIQUIDATION_BPS_DENOMINATOR = freeMinimum oi m price"
    using pos(1) migpos by (simp add: mulDivCeil_value freeMinimum_def)
  have 4: "mulDivCeil (associatedMinimum oi m price) h LIQUIDATION_BPS_DENOMINATOR = ceil_quot (associatedMinimum oi m price * h) 10000"
    using assms pos(3) [of m] by (simp add: mulDivCeil_value)
  have 5: "mulDivCeil (freeMinimum oi m price) h LIQUIDATION_BPS_DENOMINATOR = ceil_quot (freeMinimum oi m price * h) 10000"
    using assms pos(2) [of m] by (simp add: mulDivCeil_value)
  have mig': "(if LIQUIDATION_BPS_DENOMINATOR + (m - LIQUIDATION_BPS_DENOMINATOR) sdiv 2
        < LIQUIDATION_BPS_DENOMINATOR + LIQUIDATION_REP_BONUS_BPS
      then LIQUIDATION_BPS_DENOMINATOR + LIQUIDATION_REP_BONUS_BPS
      else LIQUIDATION_BPS_DENOMINATOR + (m - LIQUIDATION_BPS_DENOMINATOR) sdiv 2) = migrationMultiplierBps m"
    by (auto simp: migrationMultiplierBps_def Let_def)
  have guards: "\<not> h < LIQUIDATION_BPS_DENOMINATOR" "oi \<noteq> 0" using assms by auto
  have "isVaultHealthyAtFactor (Some disp) h oi backing m price \<longleftrightarrow>
      \<not> backing + disp < ceil_quot (associatedMinimum oi m price * h) 10000 \<and>
      backing \<ge> ceil_quot (freeMinimum oi m price * h) 10000"
    by (simp only: isVaultHealthyAtFactor_def Let_def option.case 1 2 mig' 3 4 5 guards if_False) simp
  then show ?thesis by (simp add: not_less ceil_quot_le_iff)
qed

text \<open>
  C32: the vault screen and the liquidator bot agree on health: at every factor of at least 1 the
  screen calls a vault healthy exactly when its backing covers the bot's requirement, and at factor 1
  exactly when the bot does not consider the vault unsafe.
\<close>

theorem screen_health_agrees_with_bot:
  assumes "0 \<le> openInterest" and "0 < price" and "0 < multiplier" and "0 \<le> backing"
    and "0 \<le> disputeStaked" and "10000 \<le> healthFactor"
  shows "(\<exists>required. requiredRepForOpenInterest openInterest multiplier price healthFactor disputeStaked = ok required \<and>
      (isVaultHealthyAtFactor (Some disputeStaked) healthFactor openInterest backing multiplier price \<longleftrightarrow> required \<le> backing)) \<and>
    isUnsafeVault backing openInterest multiplier price disputeStaked =
      ok (\<not> isVaultHealthyAtFactor (Some disputeStaked) 10000 openInterest backing multiplier price)"
proof (cases "openInterest = 0")
  case True
  with assms show ?thesis
    by (simp add: requiredRepForOpenInterest_def isVaultHealthyAtFactor_def isUnsafeVault_def vaultHealthBps_def)
next
  case False
  with assms have oi: "0 < openInterest" by simp
  let ?a = "associatedMinimum openInterest multiplier price" and ?f = "freeMinimum openInterest multiplier price"
  have pos: "0 < ?a" "0 < ?f" using minimum_pos [OF oi assms(2)] assms(3) by auto
  have "10000 \<le> min (((backing + disputeStaked) * 10000) div ?a) ((backing * 10000) div ?f) \<longleftrightarrow>
      ?a * 10000 \<le> (backing + disputeStaked) * 10000 \<and> ?f * 10000 \<le> backing * 10000"
    using pos by (simp add: le_div_iff mult.commute)
  then have "min (((backing + disputeStaked) * 10000) div ?a) ((backing * 10000) div ?f) < 10000 \<longleftrightarrow>
      \<not> isVaultHealthyAtFactor (Some disputeStaked) 10000 openInterest backing multiplier price"
    using healthy_value [OF oi assms(2,3), of 10000 disputeStaked backing] by (simp add: not_le [symmetric])
  then have "isUnsafeVault backing openInterest multiplier price disputeStaked =
      ok (\<not> isVaultHealthyAtFactor (Some disputeStaked) 10000 openInterest backing multiplier price)"
    by (simp add: isUnsafeVault_def health_value oi assms)
  moreover have "0 \<le> healthFactor" using assms by simp
  ultimately show ?thesis
    using backing_required_le_iff [OF assms(4), of ?a healthFactor disputeStaked ?f] assms oi
    by (simp add: required_value healthy_value)
qed

lemma screen_health_agrees_with_bot_witness:
  "isUnsafeVault 150 100 20000 (10 ^ 18) 0 = ok (\<not> isVaultHealthyAtFactor (Some 0) 10000 100 150 20000 (10 ^ 18))"
  using screen_health_agrees_with_bot [of 100 "10 ^ 18" 20000 150 0 10000] by simp

section \<open>The simulated liquidation\<close>

text \<open>A summary read from the chain: amounts are not negative and the backing is what the units are worth.\<close>

definition consistent_summary :: "SecurityPoolVaultSummary \<Rightarrow> bool" where
  "consistent_summary v \<longleftrightarrow> 0 \<le> vs_vaultAttoRepBacking v \<and> 0 \<le> vs_capacityOwnershipAttoRep v \<and>
     (\<forall>oi. vs_openInterestAttoEth v = Some oi \<longrightarrow> 0 \<le> oi) \<and>
     (\<forall>units allUnits held. vs_repBackingUnits v = Some units \<longrightarrow> vs_totalRepBackingUnits v = Some allUnits \<longrightarrow>
        vs_totalPoolHeldRepBalanceAttoRep v = Some held \<longrightarrow>
        0 \<le> units \<and> 0 \<le> allUnits \<and> 0 \<le> held \<and> vs_vaultAttoRepBacking v = repOf units held allUnits)"

lemma repOf_mono: "0 \<le> held \<Longrightarrow> 0 \<le> allUnits \<Longrightarrow> 0 \<le> x \<Longrightarrow> x \<le> y \<Longrightarrow> repOf x held allUnits \<le> repOf y held allUnits"
  by (simp add: repOf_def zdiv_mono1 mult_right_mono)

lemma award_nonneg: "0 \<le> debt \<Longrightarrow> 0 \<le> price \<Longrightarrow> 0 \<le> getLiquidationVaultRepBackingToTransfer debt price"
  by (simp add: getLiquidationVaultRepBackingToTransfer_def Let_def sdiv_nonneg pos_imp_zdiv_nonneg_iff)

lemma partial_transfer_bounds:
  assumes "consistent_summary v" and "0 \<le> debt" and "0 \<le> price"
  shows "0 \<le> pt_vaultAttoRepBackingToTransfer (getPartialLiquidationTransfer debt v price) \<and>
    pt_vaultAttoRepBackingToTransfer (getPartialLiquidationTransfer debt v price) \<le> vs_vaultAttoRepBacking v"
proof (cases "\<exists>units allUnits held. vs_repBackingUnits v = Some units \<and> vs_totalRepBackingUnits v = Some allUnits \<and>
    vs_totalPoolHeldRepBalanceAttoRep v = Some held")
  case False
  with assms award_nonneg [of debt price] show ?thesis
    by (auto simp: getPartialLiquidationTransfer_def Let_def consistent_summary_def split: option.splits)
next
  case True
  then obtain units allUnits held where some: "vs_repBackingUnits v = Some units"
    "vs_totalRepBackingUnits v = Some allUnits" "vs_totalPoolHeldRepBalanceAttoRep v = Some held" by blast
  with assms(1) have n: "0 \<le> units" "0 \<le> allUnits" "0 \<le> held" "vs_vaultAttoRepBacking v = repOf units held allUnits"
    "0 \<le> vs_vaultAttoRepBacking v"
    by (auto simp: consistent_summary_def)
  define moved where "moved = (if allUnits = 0 \<or> held = 0
    then getLiquidationVaultRepBackingToTransfer debt price * LIQUIDATION_PRICE_PRECISION
    else (getLiquidationVaultRepBackingToTransfer debt price * allUnits + held - 1) sdiv held)"
  have moved: "0 \<le> moved"
    using award_nonneg [OF assms(2,3)] n by (auto simp: moved_def ceil_quot_add_idiom ceil_quot_nonneg)
  have worth: "(if allUnits = 0 then moved sdiv LIQUIDATION_PRICE_PRECISION else (moved * held) sdiv allUnits)
      = repOf moved held allUnits"
    using moved n by (simp add: repOf_def sdiv_nonneg)
  have "pt_vaultAttoRepBackingToTransfer (getPartialLiquidationTransfer debt v price) =
      (if moved \<ge> units then vs_vaultAttoRepBacking v else repOf moved held allUnits)"
    unfolding getPartialLiquidationTransfer_def Let_def some prod.case option.case moved_def [symmetric]
    by (simp add: worth [symmetric])
  moreover have "0 \<le> repOf moved held allUnits" using moved n by (intro repOf_nonneg)
  moreover have "moved \<le> units \<Longrightarrow> repOf moved held allUnits \<le> vs_vaultAttoRepBacking v"
    unfolding n(4) using moved n by (intro repOf_mono)
  ultimately show ?thesis using n by auto
qed

lemma maximum_funded_nonneg: "0 \<le> getMaximumFundedDebtAttoEth a p"
  by (simp add: getMaximumFundedDebtAttoEth_def sdiv_nonneg pos_imp_zdiv_nonneg_iff)

lemma funded_amounts_bounds:
  assumes "getFundedLiquidationAmounts requested v receiver price minimumDeposit collateral total_owned = ok f"
    and "consistent_summary v" and "0 \<le> requested" and "vs_openInterestAttoEth v = Some oi"
  shows "0 \<le> fa_debtMovedAttoEth f \<and> fa_debtMovedAttoEth f \<le> requested \<and>
    0 \<le> fa_badDebtAttoEth f \<and> fa_debtMovedAttoEth f + fa_badDebtAttoEth f \<le> oi \<and>
    0 \<le> fa_capacityOwnershipMovedAttoRep f \<and> fa_capacityOwnershipMovedAttoRep f \<le> vs_capacityOwnershipAttoRep v"
proof -
  have oi: "0 \<le> oi" and cap: "0 \<le> vs_capacityOwnershipAttoRep v" using assms(2,4) by (auto simp: consistent_summary_def)
  define nominal where "nominal = min (min requested oi)
    (getMaximumFundedDebtAttoEth (getAwardableLiquidationRep v (\<not> requested \<ge> oi) minimumDeposit) price)"
  have nominal: "0 \<le> nominal" "nominal \<le> requested" "nominal \<le> oi"
    using assms(3) oi maximum_funded_nonneg by (auto simp: nominal_def)
  show ?thesis
  proof (cases "f = zeroFundedAmounts")
    case True
    with assms(3) oi cap show ?thesis by (simp add: zeroFundedAmounts_def)
  next
    case False
    then obtain debt where "oi \<noteq> 0" and debt: "0 \<le> debt" "debt \<le> nominal"
      and f: "f = \<lparr>fa_badDebtAttoEth = (if requested \<ge> oi then oi - debt else 0),
        fa_capacityOwnershipMovedAttoRep = (if nominal = oi then vs_capacityOwnershipAttoRep v
          else (vs_capacityOwnershipAttoRep v * nominal) sdiv oi), fa_debtMovedAttoEth = debt\<rparr>"
    proof -
      assume found: "\<And>debt. oi \<noteq> 0 \<Longrightarrow> 0 \<le> debt \<Longrightarrow> debt \<le> nominal \<Longrightarrow>
        f = \<lparr>fa_badDebtAttoEth = (if requested \<ge> oi then oi - debt else 0),
          fa_capacityOwnershipMovedAttoRep = (if nominal = oi then vs_capacityOwnershipAttoRep v
            else (vs_capacityOwnershipAttoRep v * nominal) sdiv oi), fa_debtMovedAttoEth = debt\<rparr> \<Longrightarrow> thesis"
      have req: "requireVaultOpenInterestAttoEth v = ok oi"
        using assms(4) by (simp add: requireVaultOpenInterestAttoEth_def getVaultOpenInterestAttoEth_def)
      show thesis
        using assms(1) unfolding getFundedLiquidationAmounts_def minmax_simps req bindR_simps nominal_def
        apply (elim bindR_okE default_okE [OF _ False] Let_okE)
        subgoal for targetCapacity resolve awardable funded bounded nominal' moved receiverCapacity before badDebt after debt
          by (rule found [of debt], assumption; hypsubst; fold nominal_def) (simp_all only: sum.inject not_less de_Morgan_disj, simp_all)
        done
    qed
    from \<open>oi \<noteq> 0\<close> oi have "0 < oi" by simp
    then have "0 \<le> (vs_capacityOwnershipAttoRep v * nominal) sdiv oi"
      and "(vs_capacityOwnershipAttoRep v * nominal) sdiv oi \<le> vs_capacityOwnershipAttoRep v"
      using prorata_bounds [OF cap _ nominal(1,3)] cap nominal by (simp_all add: sdiv_nonneg)
    with f debt nominal cap show ?thesis by auto
  qed
qed

text \<open>
  C33: a simulated liquidation moves backing and capacity from the target to the caller without
  creating or losing any, never takes more than the target has, keeps the stakes in disputes, and the
  debt it moves together with the debt it writes off never exceeds the target's open interest.
\<close>

theorem simulated_liquidation_conserves:
  assumes "simulateLiquidation caller requested totalCapacity minimumDeposit price collateral multiplier target = ok s"
    and "consistent_summary target" and "vs_openInterestAttoEth target = Some openInterest"
    and "0 \<le> requested" and "0 \<le> price"
  shows "sn_vaultAttoRepBacking (ls_callerAfter s) + sn_vaultAttoRepBacking (ls_targetAfter s) =
      sn_vaultAttoRepBacking (ls_callerBefore s) + sn_vaultAttoRepBacking (ls_targetBefore s) \<and>
    sn_capacityOwnershipAttoRep (ls_callerAfter s) + sn_capacityOwnershipAttoRep (ls_targetAfter s) =
      sn_capacityOwnershipAttoRep (ls_callerBefore s) + sn_capacityOwnershipAttoRep (ls_targetBefore s) \<and>
    sn_disputeStakedAttoRep (ls_callerAfter s) = sn_disputeStakedAttoRep (ls_callerBefore s) \<and>
    sn_disputeStakedAttoRep (ls_targetAfter s) = sn_disputeStakedAttoRep (ls_targetBefore s) \<and>
    0 \<le> ls_vaultAttoRepBackingToTransfer s \<and> 0 \<le> sn_vaultAttoRepBacking (ls_targetAfter s) \<and>
    0 \<le> ls_capacityOwnershipMovedAttoRep s \<and> 0 \<le> sn_capacityOwnershipAttoRep (ls_targetAfter s) \<and>
    0 \<le> ls_debtMovedAttoEth s \<and> ls_debtMovedAttoEth s \<le> requested \<and> 0 \<le> ls_badDebtAttoEth s \<and>
    ls_debtMovedAttoEth s + ls_badDebtAttoEth s \<le> openInterest"
proof -
  define limit where "limit = (case getMaxLiquidationAmount (Some price) (Some multiplier) (Some target) of
    None \<Rightarrow> openInterest | Some d \<Rightarrow> d)"
  have oi: "0 \<le> openInterest" using assms(2,3) by (simp add: consistent_summary_def)
  then have "0 \<le> limit"
    using assms(3) by (auto simp: limit_def getMaxLiquidationAmount_def getVaultOpenInterestAttoEth_def split: option.splits)
  define bounded where "bounded = min requested limit"
  have bounded: "0 \<le> bounded" "bounded \<le> requested" using \<open>0 \<le> limit\<close> assms(4) by (auto simp: bounded_def)
  obtain f where f: "getFundedLiquidationAmounts bounded target caller price
      (case minimumDeposit of None \<Rightarrow> DEFAULT_MINIMUM_VAULT_REP_DEPOSIT_ui | Some d \<Rightarrow> d) collateral totalCapacity = ok f"
    and s: "ls_debtMovedAttoEth s = fa_debtMovedAttoEth f" "ls_badDebtAttoEth s = fa_badDebtAttoEth f"
      "ls_capacityOwnershipMovedAttoRep s = fa_capacityOwnershipMovedAttoRep f"
      "ls_vaultAttoRepBackingToTransfer s =
        pt_vaultAttoRepBackingToTransfer (getPartialLiquidationTransfer (fa_debtMovedAttoEth f) target price)"
      "sn_vaultAttoRepBacking (ls_callerAfter s) = sn_vaultAttoRepBacking (ls_callerBefore s) + ls_vaultAttoRepBackingToTransfer s"
      "sn_vaultAttoRepBacking (ls_targetAfter s) = vs_vaultAttoRepBacking target - ls_vaultAttoRepBackingToTransfer s"
      "sn_vaultAttoRepBacking (ls_targetBefore s) = vs_vaultAttoRepBacking target"
      "sn_capacityOwnershipAttoRep (ls_callerAfter s) = sn_capacityOwnershipAttoRep (ls_callerBefore s) + fa_capacityOwnershipMovedAttoRep f"
      "sn_capacityOwnershipAttoRep (ls_targetAfter s) = vs_capacityOwnershipAttoRep target - fa_capacityOwnershipMovedAttoRep f"
      "sn_capacityOwnershipAttoRep (ls_targetBefore s) = vs_capacityOwnershipAttoRep target"
      "sn_disputeStakedAttoRep (ls_callerAfter s) = sn_disputeStakedAttoRep (ls_callerBefore s)"
      "sn_disputeStakedAttoRep (ls_targetAfter s) = sn_disputeStakedAttoRep (ls_targetBefore s)"
    using assms(1,3) unfolding simulateLiquidation_def minmax_simps
    by (auto simp: Let_def bindR_eq_Inr_iff requireVaultOpenInterestAttoEth_def getVaultOpenInterestAttoEth_def
        bounded_def limit_def)
  note bounds = funded_amounts_bounds [OF f assms(2) bounded(1) assms(3)]
  have "0 \<le> fa_debtMovedAttoEth f" using bounds by simp
  from partial_transfer_bounds [OF assms(2) this assms(5)] bounds bounded s show ?thesis by linarith
qed

definition sampleSummary :: "int \<Rightarrow> int \<Rightarrow> SecurityPoolVaultSummary" where
  "sampleSummary backing openInterest =
     \<lparr>vs_badDebtAttoEth = Some 0, vs_openInterestAttoEth = Some openInterest, vs_disputeStakedAttoRep = 0,
      vs_repBackingUnits = None, vs_totalRepBackingUnits = None, vs_vaultAttoRepBacking = backing,
      vs_capacityOwnershipAttoRep = openInterest, vs_totalPoolHeldRepBalanceAttoRep = None,
      vs_claimableFeesAttoEth = 0, vs_vaultAddress = ''0xa''\<rparr>"

lemma simulated_liquidation_conserves_witness:
  "\<exists>s. simulateLiquidation (Some (sampleSummary 500 0)) 100 100 (Some 10) (10 ^ 18) 100 20000 (sampleSummary 150 100) = ok s \<and>
     ls_debtMovedAttoEth s = 100 \<and> 0 \<le> sn_vaultAttoRepBacking (ls_targetAfter s)"
proof -
  have "case simulateLiquidation (Some (sampleSummary 500 0)) 100 100 (Some 10) (10 ^ 18) 100 20000 (sampleSummary 150 100)
      of Inl e \<Rightarrow> False | Inr s \<Rightarrow> ls_debtMovedAttoEth s = 100" by code_simp
  then obtain s where s: "simulateLiquidation (Some (sampleSummary 500 0)) 100 100 (Some 10) (10 ^ 18) 100 20000
      (sampleSummary 150 100) = ok s" "ls_debtMovedAttoEth s = 100" by (auto split: sum.splits)
  with simulated_liquidation_conserves [OF s(1)] show ?thesis
    by (auto simp: sampleSummary_def consistent_summary_def)
qed

text \<open>
  C34: when the screen gives no reason against a liquidation, all inputs are loaded, a positive debt
  is requested from a vault with open interest that is liquidatable, the simulation succeeds, and it
  leaves the receiver healthy at the required factor.
\<close>

theorem offered_liquidation_leaves_receiver_healthy:
  assumes "getLiquidationFailureReason caller requestedDebt totalCapacity minimumHealth minimumDebt minimumDeposit
      price0 collateral multiplier0 target0 = ok None"
  shows "\<exists>requested price multiplier target openInterest before s.
    requestedDebt = Some requested \<and> 0 < requested \<and> price0 = Some price \<and> multiplier0 = Some multiplier \<and>
    target0 = Some target \<and> vs_openInterestAttoEth target = Some openInterest \<and> openInterest \<noteq> 0 \<and>
    isVaultLiquidatable (Some price) (Some openInterest) (Some (vs_vaultAttoRepBacking target))
      (Some (vs_disputeStakedAttoRep target)) (Some multiplier) \<and>
    (case caller of None \<Rightarrow> before = 0 | Some v \<Rightarrow> vs_openInterestAttoEth v = Some before) \<and>
    simulateLiquidation caller requested totalCapacity
      (Some (default_to DEFAULT_MINIMUM_VAULT_REP_DEPOSIT_ui minimumDeposit)) price collateral multiplier target = ok s \<and>
    isVaultHealthyAtFactor (Some (sn_disputeStakedAttoRep (ls_callerAfter s)))
      (default_to LIQUIDATION_BPS_DENOMINATOR minimumHealth) (before + ls_debtMovedAttoEth s)
      (sn_vaultAttoRepBacking (ls_callerAfter s)) multiplier price"
proof -
  note reason = assms [unfolded getLiquidationFailureReason_def Let_def]
  obtain requested where requested: "requestedDebt = Some requested"
    using reason by (auto simp: bindR_eq_Inr_iff split: if_splits option.splits)
  obtain price multiplier where pm: "price0 = Some price" "multiplier0 = Some multiplier"
    using reason requested by (auto simp: bindR_eq_Inr_iff split: if_splits option.splits)
  obtain target where target: "target0 = Some target"
    using reason requested pm by (auto simp: bindR_eq_Inr_iff split: if_splits option.splits)
  have det: "getDeterministicLiquidationFailureReason
      \<lparr>lr_caller = caller, lr_requestedDebt = requestedDebt, lr_totalCapacity = Some totalCapacity,
       lr_maxLiquidationDebt = getMaxLiquidationAmount price0 multiplier0 target0,
       lr_minimumSecurityBondDebt = Some (default_to DEFAULT_MINIMUM_SECURITY_BOND_DEBT_ui minimumDebt),
       lr_minimumVaultRepDeposit = Some (default_to DEFAULT_MINIMUM_VAULT_REP_DEPOSIT_ui minimumDeposit),
       lr_price = price0, lr_settlementCollateral = Some collateral, lr_multiplierBps = multiplier0,
       lr_target = target0\<rparr> = ok None"
    and sim: "\<exists>s before. simulateLiquidation caller requested totalCapacity
      (Some (default_to DEFAULT_MINIMUM_VAULT_REP_DEPOSIT_ui minimumDeposit)) price collateral multiplier target = ok s \<and>
      (case caller of None \<Rightarrow> ok 0 | Some v \<Rightarrow> requireVaultOpenInterestAttoEth v) = ok before \<and>
      isVaultHealthyAtFactor (Some (sn_disputeStakedAttoRep (ls_callerAfter s)))
        (default_to LIQUIDATION_BPS_DENOMINATOR minimumHealth) (before + ls_debtMovedAttoEth s)
        (sn_vaultAttoRepBacking (ls_callerAfter s)) multiplier price"
    using reason requested pm target by (auto simp: bindR_eq_Inr_iff split: if_splits option.splits)
  obtain openInterest where oi: "vs_openInterestAttoEth target = Some openInterest" "openInterest \<noteq> 0" "0 < requested"
    "isVaultLiquidatable (Some price) (Some openInterest) (Some (vs_vaultAttoRepBacking target))
      (Some (vs_disputeStakedAttoRep target)) (Some multiplier)"
    using det unfolding getDeterministicLiquidationFailureReason_def Let_def requested pm target getVaultOpenInterestAttoEth_def
    by (auto split: if_splits option.splits)
  from sim obtain s before where "simulateLiquidation caller requested totalCapacity
      (Some (default_to DEFAULT_MINIMUM_VAULT_REP_DEPOSIT_ui minimumDeposit)) price collateral multiplier target = ok s"
    and "(case caller of None \<Rightarrow> before = 0 | Some v \<Rightarrow> vs_openInterestAttoEth v = Some before)"
    and "isVaultHealthyAtFactor (Some (sn_disputeStakedAttoRep (ls_callerAfter s)))
        (default_to LIQUIDATION_BPS_DENOMINATOR minimumHealth) (before + ls_debtMovedAttoEth s)
        (sn_vaultAttoRepBacking (ls_callerAfter s)) multiplier price"
    by (auto simp: requireVaultOpenInterestAttoEth_def getVaultOpenInterestAttoEth_def split: option.splits)
  with oi requested pm target show ?thesis by blast
qed

lemma offered_liquidation_leaves_receiver_healthy_witness:
  "\<exists>s. simulateLiquidation (Some (sampleSummary 500 0)) 100 100 (Some 10) (10 ^ 18) 100 20000 (sampleSummary 150 100) = ok s \<and>
     isVaultHealthyAtFactor (Some (sn_disputeStakedAttoRep (ls_callerAfter s))) 10000 (0 + ls_debtMovedAttoEth s)
       (sn_vaultAttoRepBacking (ls_callerAfter s)) 20000 (10 ^ 18)"
proof -
  have "getLiquidationFailureReason (Some (sampleSummary 500 0)) (Some 100) 100 None (Some 1) (Some 10) (Some (10 ^ 18)) 100
      (Some 20000) (Some (sampleSummary 150 100)) = ok None" by code_simp
  from offered_liquidation_leaves_receiver_healthy [OF this] show ?thesis
    by (simp add: default_to_def sampleSummary_def)
qed

section \<open>Withdrawals keep the capacity backed\<close>

lemma floor_value:
  assumes "0 < c" and "0 < p" and "0 < m"
  shows "getCapacityOwnershipBackedRepFloor (Some c) (Some p) (Some m) = ok (Some (ceil_quot (c * p * m) (10 ^ 22)))"
  using assms ui_ceil.cdiv_spec [of "c * p * m" "10 ^ 22"]
  by (simp add: getCapacityOwnershipBackedRepFloor_def)

text \<open>
  A positive withdrawable amount keeps the vault's capacity backed: what is left covers the
  capacity at the pool's multiplier and strictly covers it at the migration multiplier; and where the
  pool's holdings are known, what is left in the pool covers the capacity of all vaults.
\<close>

lemma withdrawable_amount_keeps_backing:
  assumes "getSecurityVaultWithdrawableRepAmount disputeStaked (Some backing) (Some price) (Some capacity) (Some multiplier)
      held totalCapacity = ok (Some amount)"
    and "0 < amount" and "0 < capacity" and "0 < price" and "0 < multiplier"
    and "\<forall>d. disputeStaked = Some d \<longrightarrow> 0 \<le> d"
  shows "amount \<le> backing \<and>
    capacity * price * multiplier \<le> (backing - amount) * (PRICE_PRECISION * 10000) \<and>
    capacity * price * getMigrationSecurityMultiplierBps multiplier < (backing - amount) * (PRICE_PRECISION * 10000) \<and>
    (\<forall>h owned. held = Some h \<longrightarrow> 0 < h \<longrightarrow> totalCapacity = Some owned \<longrightarrow> 0 < owned \<longrightarrow>
      owned * price * multiplier \<le> (h - amount) * (PRICE_PRECISION * 10000))"
proof -
  let ?need = "ceil_quot (capacity * price * multiplier) (10 ^ 22)"
  let ?strict = "(capacity * price * getMigrationSecurityMultiplierBps multiplier) sdiv (10 ^ 22) + 1"
  have mig: "0 < getMigrationSecurityMultiplierBps multiplier"
    using assms(5) bisect_up_bounds [of "multiplier - 10001" 0]
    by (cases "10000 \<le> multiplier") (auto simp: getMigrationSecurityMultiplierBps_def sdiv_nonneg sdiv_neg_num)
  have strict: "getStrictCapacityOwnershipBackedRepMinimum (Some capacity) (Some price)
      (Some (getMigrationSecurityMultiplierBps multiplier)) = Some ?strict"
    using assms(3,4) mig by (simp add: getStrictCapacityOwnershipBackedRepMinimum_def)
  have stake: "default_to 0 disputeStaked = 0"
  proof (rule ccontr)
    assume "default_to 0 disputeStaked \<noteq> 0"
    with assms(6) have "default_to 0 disputeStaked > 0"
      by (cases disputeStaked) (auto simp: default_to_def order_less_le)
    with assms(1,2) show False by (simp add: getSecurityVaultWithdrawableRepAmount_def)
  qed
  define mine where "mine = min (max 0 (backing - ?strict)) (min backing (max 0 (backing - ?need)))"
  have w: "(case held of None \<Rightarrow> ok (Some mine)
      | Some h \<Rightarrow> if h > 0 then bindR (getCapacityOwnershipBackedRepFloor totalCapacity (Some price) (Some multiplier))
          (\<lambda>r. case r of None \<Rightarrow> ok None | Some required \<Rightarrow> ok (Some (min mine (max 0 (h - required)))))
        else ok (Some mine)) = ok (Some amount)"
    using assms(1)
    by (simp only: getSecurityVaultWithdrawableRepAmount_def Let_def stake minmax_simps option.case option.map
        floor_value [OF assms(3-5)] bindR_simps strict mine_def add_0_right less_irrefl if_False)
  then have "amount \<le> mine"
    by (auto simp: bindR_eq_Inr_iff split: option.splits if_splits)
  then have local_amount: "amount \<le> backing - ?need \<and> amount \<le> backing - ?strict \<and> amount \<le> backing"
    using assms(2) by (auto simp: mine_def)
  have "capacity * price * multiplier \<le> (backing - amount) * 10 ^ 22"
    using local_amount ceil_quot_le_iff [of "10 ^ 22" "capacity * price * multiplier" "backing - amount"] by simp
  moreover have "capacity * price * getMigrationSecurityMultiplierBps multiplier < (backing - amount) * 10 ^ 22"
  proof -
    have "(capacity * price * getMigrationSecurityMultiplierBps multiplier) div 10 ^ 22 < backing - amount"
      using local_amount assms(3,4) mig by (simp add: sdiv_nonneg)
    then show ?thesis by (subst (asm) div_less_iff) auto
  qed
  moreover have "owned * price * multiplier \<le> (h - amount) * 10 ^ 22"
    if h: "held = Some h" "0 < h" "totalCapacity = Some owned" "0 < owned" for h owned
  proof -
    have "amount \<le> h - ceil_quot (owned * price * multiplier) (10 ^ 22)"
      using w assms(2) h by (simp add: floor_value assms(4,5))
    then show ?thesis
      using ceil_quot_le_iff [of "10 ^ 22" "owned * price * multiplier" "h - amount"] by simp
  qed
  ultimately show ?thesis using local_amount by simp
qed

lemma withdrawable_amount_keeps_backing_example:
  "getSecurityVaultWithdrawableRepAmount None (Some 300) (Some (10 ^ 18)) (Some 100) (Some 20000) (Some 1000) (Some 300) = ok (Some 100)
   \<and> (100::int) * 10 ^ 18 * 20000 \<le> (300 - 100) * (PRICE_PRECISION * 10000)"
proof -
  have w: "getSecurityVaultWithdrawableRepAmount None (Some 300) (Some (10 ^ 18)) (Some 100) (Some 20000) (Some 1000) (Some 300)
      = ok (Some 100)" by code_simp
  with withdrawable_amount_keeps_backing [OF w] show ?thesis by simp
qed

end
