(* ===== verification/Open_Oracle.thy ===== *)
theory Open_Oracle
  imports Js_Strings "HOL-Library.Word"
begin

unbundle bit_operations_syntax

text \<open>
  The oracle's shared code: \<open>shared/ts/openOracle.ts\<close> (the packed 235-byte form of a report's
  state, its ABI tuples and its flags) and \<open>shared/ts/oracleInitialReport.ts\<close> (the minimum WETH
  report and the largest safe priority fee). Bytes are 8-bit words. Hexadecimal coding, checksummed
  addresses, ABI encoding and hashing are library functions, passed as arguments.
\<close>

section \<open>Data\<close>

definition OPEN_ORACLE_FLAG_TIME_TYPE :: int where "OPEN_ORACLE_FLAG_TIME_TYPE = push_bit 0 1"
definition OPEN_ORACLE_FLAG_TRACK_DISPUTES :: int where "OPEN_ORACLE_FLAG_TRACK_DISPUTES = push_bit 1 1"
definition OPEN_ORACLE_FLAG_STORE_ALL :: int where "OPEN_ORACLE_FLAG_STORE_ALL = push_bit 2 1"
definition OPEN_ORACLE_FLAG_STORE_PRICE :: int where "OPEN_ORACLE_FLAG_STORE_PRICE = push_bit 3 1"

record OpenOracleGame =
  og_callbackContract :: string
  og_callbackGasLimit :: int
  og_currentAmount1 :: int
  og_currentAmount2 :: int
  og_currentReporter :: string
  og_disputeDelay :: int
  og_escalationHalt :: int
  og_feePercentage :: int
  og_flags :: int
  og_lastReportOppoTime :: int
  og_multiplier :: int
  og_numReports :: int
  og_protocolFee :: int
  og_protocolFeeRecipient :: string
  og_reportTimestamp :: int
  og_settlementTime :: int
  og_settlementTimestamp :: int
  og_settlerRewardAttoEth :: int
  og_token1 :: string
  og_token2 :: string

record OpenOraclePreimageHelper =
  oh_blockNumber :: int
  oh_blockTimestamp :: int
  oh_creator :: string
  oh_reportId :: int

record OpenOracleStatePreimage =
  sp_game :: OpenOracleGame
  sp_helper :: OpenOraclePreimageHelper

definition OPEN_ORACLE_GAME_COMPONENTS :: "(string \<times> string) list" where
  "OPEN_ORACLE_GAME_COMPONENTS =
    [(''currentAmount1'', ''uint128''), (''currentAmount2'', ''uint128''), (''currentReporter'', ''address''),
     (''reportTimestamp'', ''uint48''), (''settlementTimestamp'', ''uint48''), (''token1'', ''address''),
     (''lastReportOppoTime'', ''uint48''), (''settlementTime'', ''uint48''), (''escalationHalt'', ''uint128''),
     (''protocolFeeRecipient'', ''address''), (''settlerRewardAttoEth'', ''uint96''), (''token2'', ''address''),
     (''numReports'', ''uint24''), (''disputeDelay'', ''uint24''), (''feePercentage'', ''uint24''),
     (''multiplier'', ''uint16''), (''callbackContract'', ''address''), (''callbackGasLimit'', ''uint32''),
     (''protocolFee'', ''uint24''), (''flags'', ''uint8'')]"

definition OPEN_ORACLE_HELPER_COMPONENTS :: "(string \<times> string) list" where
  "OPEN_ORACLE_HELPER_COMPONENTS =
    [(''reportId'', ''uint256''), (''creator'', ''address''), (''blockTimestamp'', ''uint256''), (''blockNumber'', ''uint256'')]"

section \<open>Packed bytes\<close>

fun read_loop :: "8 word list \<Rightarrow> nat \<Rightarrow> nat \<Rightarrow> int \<Rightarrow> int" where
  "read_loop bytes index 0 v = v"
| "read_loop bytes index (Suc remaining) v =
     read_loop bytes (index + 1) remaining (push_bit 8 v OR uint (bytes ! index))"

definition readPackedUint :: "8 word list \<Rightarrow> nat \<Rightarrow> nat \<Rightarrow> int result" where
  "readPackedUint bytes offset width =
     (if width < 1 \<or> offset + width > length bytes then throw ''OpenOracle packed event data is truncated''
      else ok (read_loop bytes offset width 0))"

definition readPackedAddress :: "(8 word list \<Rightarrow> string) \<Rightarrow> (string \<Rightarrow> string) \<Rightarrow> 8 word list \<Rightarrow> nat \<Rightarrow> string" where
  "readPackedAddress bytesToHex getAddress bytes offset = getAddress (bytesToHex (take 20 (drop offset bytes)))"

text \<open>The loop writes from the last byte of the field down to the first.\<close>

fun write_loop :: "8 word list \<Rightarrow> nat \<Rightarrow> nat \<Rightarrow> int \<Rightarrow> 8 word list" where
  "write_loop bytes offset 0 remaining = bytes"
| "write_loop bytes offset (Suc w) remaining =
     write_loop (bytes[offset + w := word_of_int (remaining AND 255)]) offset w (drop_bit 8 remaining)"

definition writePackedUint :: "8 word list \<Rightarrow> nat \<Rightarrow> nat \<Rightarrow> int \<Rightarrow> 8 word list result" where
  "writePackedUint bytes offset width v =
     (if v < 0 \<or> v \<ge> push_bit (width * 8) 1
      then throw (''OpenOracle packed value does not fit in '' @ nat_digits width @ '' bytes'')
      else ok (write_loop bytes offset width v))"

text \<open>\<open>bytes.set(source, offset)\<close>.\<close>

definition set_bytes :: "8 word list \<Rightarrow> 8 word list \<Rightarrow> nat \<Rightarrow> 8 word list result" where
  "set_bytes bytes source offset =
     (if offset + length source > length bytes then Inl (RangeError ''offset is out of bounds'')
      else ok (take offset bytes @ source @ drop (offset + length source) bytes))"

definition writePackedAddress ::
  "(string \<Rightarrow> 8 word list result) \<Rightarrow> 8 word list \<Rightarrow> nat \<Rightarrow> string \<Rightarrow> 8 word list result" where
  "writePackedAddress hexToBytes bytes offset v = bindR (hexToBytes v) (\<lambda>source. set_bytes bytes source offset)"

definition encodeOpenOracleStatePreimagePacked ::
  "(string \<Rightarrow> 8 word list result) \<Rightarrow> (8 word list \<Rightarrow> string) \<Rightarrow> OpenOracleStatePreimage \<Rightarrow> string result" where
  "encodeOpenOracleStatePreimagePacked hexToBytes bytesToHex preimage =
     (let g = sp_game preimage; h = sp_helper preimage in
      bindR (writePackedUint (replicate 235 0) 0 16 (og_currentAmount1 g)) (\<lambda>b.
      bindR (writePackedUint b 16 16 (og_currentAmount2 g)) (\<lambda>b.
      bindR (writePackedAddress hexToBytes b 32 (og_currentReporter g)) (\<lambda>b.
      bindR (writePackedUint b 52 6 (og_reportTimestamp g)) (\<lambda>b.
      bindR (writePackedUint b 58 6 (og_settlementTimestamp g)) (\<lambda>b.
      bindR (writePackedAddress hexToBytes b 64 (og_token1 g)) (\<lambda>b.
      bindR (writePackedUint b 84 6 (og_lastReportOppoTime g)) (\<lambda>b.
      bindR (writePackedUint b 90 6 (og_settlementTime g)) (\<lambda>b.
      bindR (writePackedUint b 96 16 (og_escalationHalt g)) (\<lambda>b.
      bindR (writePackedAddress hexToBytes b 112 (og_protocolFeeRecipient g)) (\<lambda>b.
      bindR (writePackedUint b 132 12 (og_settlerRewardAttoEth g)) (\<lambda>b.
      bindR (writePackedAddress hexToBytes b 144 (og_token2 g)) (\<lambda>b.
      bindR (writePackedUint b 164 3 (og_numReports g)) (\<lambda>b.
      bindR (writePackedUint b 167 3 (og_disputeDelay g)) (\<lambda>b.
      bindR (writePackedUint b 170 3 (og_feePercentage g)) (\<lambda>b.
      bindR (writePackedUint b 173 2 (og_multiplier g)) (\<lambda>b.
      bindR (writePackedAddress hexToBytes b 175 (og_callbackContract g)) (\<lambda>b.
      bindR (writePackedUint b 195 4 (og_callbackGasLimit g)) (\<lambda>b.
      bindR (writePackedUint b 199 3 (og_protocolFee g)) (\<lambda>b.
      bindR (writePackedUint b 202 1 (og_flags g)) (\<lambda>b.
      bindR (writePackedAddress hexToBytes b 203 (oh_creator h)) (\<lambda>b.
      bindR (writePackedUint b 223 6 (oh_blockTimestamp h)) (\<lambda>b.
      bindR (writePackedUint b 229 6 (oh_blockNumber h)) (\<lambda>b.
      ok (bytesToHex b)))))))))))))))))))))))))"

definition decodeOpenOracleStatePreimage ::
  "(string \<Rightarrow> 8 word list result) \<Rightarrow> (8 word list \<Rightarrow> string) \<Rightarrow> (string \<Rightarrow> string) \<Rightarrow> string \<Rightarrow> int
    \<Rightarrow> OpenOracleStatePreimage result" where
  "decodeOpenOracleStatePreimage hexToBytes bytesToHex getAddress data reportId =
     bindR (hexToBytes data) (\<lambda>bytes.
     if length bytes \<noteq> 235
     then throw (''OpenOracle packed event data must be 235 bytes, received '' @ nat_digits (length bytes))
     else
      bindR (readPackedUint bytes 0 16) (\<lambda>currentAmount1.
      bindR (readPackedUint bytes 16 16) (\<lambda>currentAmount2.
      bindR (readPackedUint bytes 52 6) (\<lambda>reportTimestamp.
      bindR (readPackedUint bytes 58 6) (\<lambda>settlementTimestamp.
      bindR (readPackedUint bytes 84 6) (\<lambda>lastReportOppoTime.
      bindR (readPackedUint bytes 90 6) (\<lambda>settlementTime.
      bindR (readPackedUint bytes 96 16) (\<lambda>escalationHalt.
      bindR (readPackedUint bytes 132 12) (\<lambda>settlerReward.
      bindR (readPackedUint bytes 164 3) (\<lambda>numReports.
      bindR (readPackedUint bytes 167 3) (\<lambda>disputeDelay.
      bindR (readPackedUint bytes 170 3) (\<lambda>feePercentage.
      bindR (readPackedUint bytes 173 2) (\<lambda>multiplier.
      bindR (readPackedUint bytes 195 4) (\<lambda>callbackGasLimit.
      bindR (readPackedUint bytes 199 3) (\<lambda>protocolFee.
      bindR (readPackedUint bytes 202 1) (\<lambda>flags.
      bindR (readPackedUint bytes 223 6) (\<lambda>blockTimestamp.
      bindR (readPackedUint bytes 229 6) (\<lambda>blockNumber.
      ok \<lparr>sp_game =
           \<lparr>og_callbackContract = readPackedAddress bytesToHex getAddress bytes 175,
            og_callbackGasLimit = callbackGasLimit,
            og_currentAmount1 = currentAmount1,
            og_currentAmount2 = currentAmount2,
            og_currentReporter = readPackedAddress bytesToHex getAddress bytes 32,
            og_disputeDelay = disputeDelay,
            og_escalationHalt = escalationHalt,
            og_feePercentage = feePercentage,
            og_flags = flags,
            og_lastReportOppoTime = lastReportOppoTime,
            og_multiplier = multiplier,
            og_numReports = numReports,
            og_protocolFee = protocolFee,
            og_protocolFeeRecipient = readPackedAddress bytesToHex getAddress bytes 112,
            og_reportTimestamp = reportTimestamp,
            og_settlementTime = settlementTime,
            og_settlementTimestamp = settlementTimestamp,
            og_settlerRewardAttoEth = settlerReward,
            og_token1 = readPackedAddress bytesToHex getAddress bytes 64,
            og_token2 = readPackedAddress bytesToHex getAddress bytes 144\<rparr>,
         sp_helper =
           \<lparr>oh_blockNumber = blockNumber,
            oh_blockTimestamp = blockTimestamp,
            oh_creator = readPackedAddress bytesToHex getAddress bytes 203,
            oh_reportId = reportId\<rparr>\<rparr>))))))))))))))))))"

section \<open>ABI tuples, flags and hash\<close>

datatype AbiValue = AbiUint int | AbiAddress string

definition getOpenOracleGameTuple :: "OpenOracleGame \<Rightarrow> AbiValue list" where
  "getOpenOracleGameTuple g =
     [AbiUint (og_currentAmount1 g), AbiUint (og_currentAmount2 g), AbiAddress (og_currentReporter g),
      AbiUint (og_reportTimestamp g), AbiUint (og_settlementTimestamp g), AbiAddress (og_token1 g),
      AbiUint (og_lastReportOppoTime g), AbiUint (og_settlementTime g), AbiUint (og_escalationHalt g),
      AbiAddress (og_protocolFeeRecipient g), AbiUint (og_settlerRewardAttoEth g), AbiAddress (og_token2 g),
      AbiUint (og_numReports g), AbiUint (og_disputeDelay g), AbiUint (og_feePercentage g),
      AbiUint (og_multiplier g), AbiAddress (og_callbackContract g), AbiUint (og_callbackGasLimit g),
      AbiUint (og_protocolFee g), AbiUint (og_flags g)]"

definition getOpenOracleHelperTuple :: "OpenOraclePreimageHelper \<Rightarrow> AbiValue list" where
  "getOpenOracleHelperTuple h =
     [AbiUint (oh_reportId h), AbiAddress (oh_creator h), AbiUint (oh_blockTimestamp h), AbiUint (oh_blockNumber h)]"

definition hashOpenOracleStatePreimage ::
  "(string \<Rightarrow> string) \<Rightarrow> ((string \<times> string) list list \<Rightarrow> AbiValue list list \<Rightarrow> string) \<Rightarrow> OpenOracleStatePreimage \<Rightarrow> string" where
  "hashOpenOracleStatePreimage keccak256 encodeAbiParameters preimage =
     keccak256 (encodeAbiParameters [OPEN_ORACLE_GAME_COMPONENTS, OPEN_ORACLE_HELPER_COMPONENTS]
       [getOpenOracleGameTuple (sp_game preimage), getOpenOracleHelperTuple (sp_helper preimage)])"

definition hasOpenOracleFlag :: "OpenOracleGame \<Rightarrow> int \<Rightarrow> bool" where
  "hasOpenOracleFlag game flag \<longleftrightarrow> og_flags game AND flag \<noteq> 0"

section \<open>Big-endian bytes\<close>

fun big_endian :: "nat \<Rightarrow> int \<Rightarrow> 8 word list" where
  "big_endian 0 v = []"
| "big_endian (Suc w) v = big_endian w (v div 256) @ [word_of_int v]"

definition bytes_value :: "8 word list \<Rightarrow> int" where
  "bytes_value bs = foldl (\<lambda>v b. v * 256 + uint b) 0 bs"

lemma length_big_endian [simp]: "length (big_endian w v) = w"
  by (induction w arbitrary: v) auto

lemma bytes_value_snoc [simp]: "bytes_value (bs @ [b]) = bytes_value bs * 256 + uint b"
  by (simp add: bytes_value_def)

lemma bytes_value_big_endian: "0 \<le> v \<Longrightarrow> v < 256 ^ w \<Longrightarrow> bytes_value (big_endian w v) = v"
proof (induction w arbitrary: v)
  case 0
  then show ?case by (simp add: bytes_value_def)
next
  case (Suc w)
  then have "bytes_value (big_endian w (v div 256)) = v div 256"
    by (intro Suc.IH) (auto simp: div_less_iff pos_imp_zdiv_nonneg_iff mult.commute)
  moreover have "uint (word_of_int v :: 8 word) = v mod 256"
    by (simp add: uint_word_of_int)
  ultimately show ?case by simp
qed

lemma or_byte: "push_bit 8 v OR uint (b :: 8 word) = v * 256 + uint b"
proof -
  have "uint b < 2 ^ LENGTH(8)" by (rule unsigned_less)
  then have byte: "take_bit 8 (uint b) = uint b" by (intro take_bit_int_eq_self) simp_all
  then have "uint b OR push_bit 8 v = concat_bit 8 (uint b) v" by (simp only: concat_bit_def)
  also have "\<dots> = uint b + push_bit 8 v" by (simp only: concat_bit_eq byte)
  finally show ?thesis by (simp add: or.commute push_bit_eq_mult)
qed

lemma read_loop_value:
  "index + w \<le> length bytes \<Longrightarrow>
    read_loop bytes index w v = foldl (\<lambda>v b. v * 256 + uint b) v (take w (drop index bytes))"
proof (induction w arbitrary: index v)
  case (Suc w)
  then have "take (Suc w) (drop index bytes) = bytes ! index # take w (drop (Suc index) bytes)"
    by (simp add: Cons_nth_drop_Suc [symmetric])
  with Suc show ?case by (simp add: or_byte)
qed simp

lemma readPackedUint_value:
  "0 < w \<Longrightarrow> offset + w \<le> length bytes \<Longrightarrow>
    readPackedUint bytes offset w = ok (bytes_value (take w (drop offset bytes)))"
  by (simp add: readPackedUint_def read_loop_value bytes_value_def)

lemma write_loop_value:
  "length s = w \<Longrightarrow> write_loop (p @ s @ q) (length p) w v = p @ big_endian w v @ q"
proof (induction w arbitrary: s q v)
  case (Suc w)
  then obtain s' x where s: "s = s' @ [x]" "length s' = w" by (cases s rule: rev_cases) auto
  have "word_of_int (v AND 255) = (word_of_int v :: 8 word)"
  proof -
    have "v AND 255 = take_bit 8 v" by (simp add: take_bit_eq_mask mask_eq_exp_minus_1)
    then show ?thesis by (simp add: word_of_int_eq_iff)
  qed
  moreover have "drop_bit 8 v = v div 256" by (simp add: drop_bit_eq_div)
  moreover have "(p @ s @ q)[length p + w := (word_of_int v :: 8 word)] = p @ s' @ (word_of_int v # q)"
    using s by (simp add: list_update_append)
  ultimately show ?case using Suc.IH [OF s(2), of "word_of_int v # q" "v div 256"] by simp
qed simp

section \<open>Encoding and decoding\<close>

text \<open>The first \<open>off\<close> bytes hold \<open>p\<close>; the rest of the 235 bytes is still zero.\<close>

definition filled :: "nat \<Rightarrow> 8 word list \<Rightarrow> 8 word list \<Rightarrow> bool" where
  "filled off b p \<longleftrightarrow> length p = off \<and> b = p @ replicate (235 - off) 0"

lemma filled_start: "filled 0 (replicate 235 0) []"
  by (simp add: filled_def)

lemma two_pow_bytes: "(2::int) ^ (w * 8) = 256 ^ w"
  by (simp add: power_mult mult.commute [of w])

lemma filled_uint:
  assumes "filled off b p" and "writePackedUint b off w v = ok b'" and "off + w \<le> 235"
  shows "filled (off + w) b' (p @ big_endian w v)" and "0 \<le> v" and "v < 256 ^ w"
proof -
  have b: "b = p @ replicate w 0 @ replicate (235 - (off + w)) 0" and len: "length p = off"
    using assms(1,3) by (auto simp: filled_def replicate_add [symmetric])
  show "0 \<le> v" and "v < 256 ^ w"
    using assms(2) by (auto simp: writePackedUint_def push_bit_eq_mult two_pow_bytes split: if_splits)
  have "b' = write_loop b off w v" using assms(2) by (auto simp: writePackedUint_def split: if_splits)
  also have "\<dots> = p @ big_endian w v @ replicate (235 - (off + w)) 0"
    unfolding b len [symmetric] by (rule write_loop_value) simp
  finally show "filled (off + w) b' (p @ big_endian w v)" using len by (simp add: filled_def)
qed

lemma filled_address:
  assumes "filled off b p" and "writePackedAddress hexToBytes b off a = ok b'" and "off + 20 \<le> 235"
    and "hexToBytes a = ok s" and "length s = 20"
  shows "filled (off + 20) b' (p @ s)"
proof -
  have b: "b = p @ replicate (235 - off) 0" and len: "length p = off" using assms(1) by (auto simp: filled_def)
  have "b' = take off b @ s @ drop (off + 20) b"
    using assms(2,4,5) by (auto simp: writePackedAddress_def set_bytes_def split: if_splits)
  then show ?thesis using len assms(5) by (simp add: b filled_def)
qed

text \<open>What the code relies on for an address: twenty bytes, and its checksummed form is itself.\<close>

definition canonical_address ::
  "(string \<Rightarrow> 8 word list result) \<Rightarrow> (8 word list \<Rightarrow> string) \<Rightarrow> (string \<Rightarrow> string) \<Rightarrow> string \<Rightarrow> bool" where
  "canonical_address hexToBytes bytesToHex getAddress a \<longleftrightarrow>
     (case hexToBytes a of Inl e \<Rightarrow> False | Inr s \<Rightarrow> length s = 20 \<and> getAddress (bytesToHex s) = a)"

lemma canonical_addressE:
  assumes "canonical_address hexToBytes bytesToHex getAddress a"
  obtains s where "hexToBytes a = ok s" and "length s = 20" and "getAddress (bytesToHex s) = a"
  using assms by (auto simp: canonical_address_def split: sum.splits)

definition canonical_preimage ::
  "(string \<Rightarrow> 8 word list result) \<Rightarrow> (8 word list \<Rightarrow> string) \<Rightarrow> (string \<Rightarrow> string) \<Rightarrow> OpenOracleStatePreimage \<Rightarrow> bool" where
  "canonical_preimage hexToBytes bytesToHex getAddress p \<longleftrightarrow>
     list_all (canonical_address hexToBytes bytesToHex getAddress)
       [og_currentReporter (sp_game p), og_token1 (sp_game p), og_protocolFeeRecipient (sp_game p),
        og_token2 (sp_game p), og_callbackContract (sp_game p), oh_creator (sp_helper p)]"

lemma read_field_value:
  assumes "filled 235 b (p @ big_endian w v @ s)" and "length p = off" and "0 < w" and "0 \<le> v" and "v < 256 ^ w"
  shows "readPackedUint b off w = ok v"
proof -
  have "off + w \<le> length b" and "take w (drop off b) = big_endian w v"
    using assms(1,2) by (auto simp: filled_def)
  with assms show ?thesis by (simp add: readPackedUint_value bytes_value_big_endian)
qed

lemma read_address_value:
  assumes "filled 235 b (p @ a @ s)" and "length p = off" and "length a = 20"
  shows "readPackedAddress bytesToHex getAddress b off = getAddress (bytesToHex a)"
  using assms by (auto simp: readPackedAddress_def filled_def)

text \<open>The 235 bytes, the addresses given as their bytes.\<close>

definition packed_layout ::
  "OpenOracleGame \<Rightarrow> OpenOraclePreimageHelper \<Rightarrow> 8 word list \<Rightarrow> 8 word list \<Rightarrow> 8 word list \<Rightarrow> 8 word list \<Rightarrow> 8 word list
    \<Rightarrow> 8 word list \<Rightarrow> 8 word list" where
  "packed_layout g h reporter token1 recipient token2 callback creator =
     big_endian 16 (og_currentAmount1 g) @ big_endian 16 (og_currentAmount2 g) @ reporter
     @ big_endian 6 (og_reportTimestamp g) @ big_endian 6 (og_settlementTimestamp g) @ token1
     @ big_endian 6 (og_lastReportOppoTime g) @ big_endian 6 (og_settlementTime g) @ big_endian 16 (og_escalationHalt g)
     @ recipient @ big_endian 12 (og_settlerRewardAttoEth g) @ token2 @ big_endian 3 (og_numReports g)
     @ big_endian 3 (og_disputeDelay g) @ big_endian 3 (og_feePercentage g) @ big_endian 2 (og_multiplier g) @ callback
     @ big_endian 4 (og_callbackGasLimit g) @ big_endian 3 (og_protocolFee g) @ big_endian 1 (og_flags g) @ creator
     @ big_endian 6 (oh_blockTimestamp h) @ big_endian 6 (oh_blockNumber h)"

text \<open>Every integer fits its field.\<close>

definition fits_fields :: "OpenOracleGame \<Rightarrow> OpenOraclePreimageHelper \<Rightarrow> bool" where
  "fits_fields g h \<longleftrightarrow> list_all (\<lambda>(v, w). 0 \<le> v \<and> v < 256 ^ w)
     [(og_currentAmount1 g, 16), (og_currentAmount2 g, 16), (og_reportTimestamp g, 6), (og_settlementTimestamp g, 6),
      (og_lastReportOppoTime g, 6), (og_settlementTime g, 6), (og_escalationHalt g, 16), (og_settlerRewardAttoEth g, 12),
      (og_numReports g, 3), (og_disputeDelay g, 3), (og_feePercentage g, 3), (og_multiplier g, 2),
      (og_callbackGasLimit g, 4), (og_protocolFee g, 3), (og_flags g, 1), (oh_blockTimestamp h, 6), (oh_blockNumber h, 6)]"

lemma encode_layout:
  assumes "encodeOpenOracleStatePreimagePacked hexToBytes bytesToHex preimage = ok data"
    and a1: "hexToBytes (og_currentReporter (sp_game preimage)) = ok a1" "length a1 = 20"
    and a2: "hexToBytes (og_token1 (sp_game preimage)) = ok a2" "length a2 = 20"
    and a3: "hexToBytes (og_protocolFeeRecipient (sp_game preimage)) = ok a3" "length a3 = 20"
    and a4: "hexToBytes (og_token2 (sp_game preimage)) = ok a4" "length a4 = 20"
    and a5: "hexToBytes (og_callbackContract (sp_game preimage)) = ok a5" "length a5 = 20"
    and a6: "hexToBytes (oh_creator (sp_helper preimage)) = ok a6" "length a6 = 20"
  shows "fits_fields (sp_game preimage) (sp_helper preimage) \<and>
    data = bytesToHex (packed_layout (sp_game preimage) (sp_helper preimage) a1 a2 a3 a4 a5 a6)"
  using assms(1) unfolding encodeOpenOracleStatePreimagePacked_def Let_def
proof (elim bindR_okE)
  let ?g = "sp_game preimage" and ?h = "sp_helper preimage"
  fix x1 x2 x3 x4 x5 x6 x7 x8 x9 x10 x11 x12 x13 x14 x15 x16 x17 x18 x19 x20 x21 x22 x23
  assume w: "writePackedUint (replicate 235 0) 0 16 (og_currentAmount1 ?g) = ok x1"
    "writePackedUint x1 16 16 (og_currentAmount2 ?g) = ok x2"
    "writePackedAddress hexToBytes x2 32 (og_currentReporter ?g) = ok x3"
    "writePackedUint x3 52 6 (og_reportTimestamp ?g) = ok x4"
    "writePackedUint x4 58 6 (og_settlementTimestamp ?g) = ok x5"
    "writePackedAddress hexToBytes x5 64 (og_token1 ?g) = ok x6"
    "writePackedUint x6 84 6 (og_lastReportOppoTime ?g) = ok x7"
    "writePackedUint x7 90 6 (og_settlementTime ?g) = ok x8"
    "writePackedUint x8 96 16 (og_escalationHalt ?g) = ok x9"
    "writePackedAddress hexToBytes x9 112 (og_protocolFeeRecipient ?g) = ok x10"
    "writePackedUint x10 132 12 (og_settlerRewardAttoEth ?g) = ok x11"
    "writePackedAddress hexToBytes x11 144 (og_token2 ?g) = ok x12"
    "writePackedUint x12 164 3 (og_numReports ?g) = ok x13"
    "writePackedUint x13 167 3 (og_disputeDelay ?g) = ok x14"
    "writePackedUint x14 170 3 (og_feePercentage ?g) = ok x15"
    "writePackedUint x15 173 2 (og_multiplier ?g) = ok x16"
    "writePackedAddress hexToBytes x16 175 (og_callbackContract ?g) = ok x17"
    "writePackedUint x17 195 4 (og_callbackGasLimit ?g) = ok x18"
    "writePackedUint x18 199 3 (og_protocolFee ?g) = ok x19"
    "writePackedUint x19 202 1 (og_flags ?g) = ok x20"
    "writePackedAddress hexToBytes x20 203 (oh_creator ?h) = ok x21"
    "writePackedUint x21 223 6 (oh_blockTimestamp ?h) = ok x22"
    "writePackedUint x22 229 6 (oh_blockNumber ?h) = ok x23"
    and data: "ok (bytesToHex x23) = ok data"
  note f1 = filled_uint [OF filled_start w(1), simplified]
  note f2 = filled_uint [OF f1(1) w(2), simplified]
  note f3 = filled_address [OF f2(1) w(3) _ a1, simplified]
  note f4 = filled_uint [OF f3 w(4), simplified]
  note f5 = filled_uint [OF f4(1) w(5), simplified]
  note f6 = filled_address [OF f5(1) w(6) _ a2, simplified]
  note f7 = filled_uint [OF f6 w(7), simplified]
  note f8 = filled_uint [OF f7(1) w(8), simplified]
  note f9 = filled_uint [OF f8(1) w(9), simplified]
  note f10 = filled_address [OF f9(1) w(10) _ a3, simplified]
  note f11 = filled_uint [OF f10 w(11), simplified]
  note f12 = filled_address [OF f11(1) w(12) _ a4, simplified]
  note f13 = filled_uint [OF f12 w(13), simplified]
  note f14 = filled_uint [OF f13(1) w(14), simplified]
  note f15 = filled_uint [OF f14(1) w(15), simplified]
  note f16 = filled_uint [OF f15(1) w(16), simplified]
  note f17 = filled_address [OF f16(1) w(17) _ a5, simplified]
  note f18 = filled_uint [OF f17 w(18), simplified]
  note f19 = filled_uint [OF f18(1) w(19), simplified]
  note f20 = filled_uint [OF f19(1) w(20), simplified]
  note f21 = filled_address [OF f20(1) w(21) _ a6, simplified]
  note f22 = filled_uint [OF f21 w(22), simplified]
  note f23 = filled_uint [OF f22(1) w(23), simplified]
  show ?thesis
    using f1(2,3) f2(2,3) f4(2,3) f5(2,3) f7(2,3) f8(2,3) f9(2,3) f11(2,3) f13(2,3) f14(2,3) f15(2,3) f16(2,3)
      f18(2,3) f19(2,3) f20(2,3) f22(2,3) f23(2,3) f23(1) data
    by (simp add: fits_fields_def packed_layout_def filled_def)
qed

lemma decode_layout:
  assumes "fits_fields g h"
    and n: "length a1 = 20" "length a2 = 20" "length a3 = 20" "length a4 = 20" "length a5 = 20" "length a6 = 20"
    and "hexToBytes data = ok (packed_layout g h a1 a2 a3 a4 a5 a6)"
    and addresses: "getAddress (bytesToHex a1) = og_currentReporter g" "getAddress (bytesToHex a2) = og_token1 g"
      "getAddress (bytesToHex a3) = og_protocolFeeRecipient g" "getAddress (bytesToHex a4) = og_token2 g"
      "getAddress (bytesToHex a5) = og_callbackContract g" "getAddress (bytesToHex a6) = oh_creator h"
  shows "decodeOpenOracleStatePreimage hexToBytes bytesToHex getAddress data (oh_reportId h)
    = ok \<lparr>sp_game = g, sp_helper = h\<rparr>"
proof -
  define b where "b = packed_layout g h a1 a2 a3 a4 a5 a6"
  note range = assms(1) [unfolded fits_fields_def list.pred_inject prod.case]
  have len: "length b = 235" by (simp add: b_def packed_layout_def n del: big_endian.simps)
  have reads:
    "readPackedUint b 0 16 = ok (og_currentAmount1 g)" "readPackedUint b 16 16 = ok (og_currentAmount2 g)"
    "readPackedUint b 52 6 = ok (og_reportTimestamp g)" "readPackedUint b 58 6 = ok (og_settlementTimestamp g)"
    "readPackedUint b 84 6 = ok (og_lastReportOppoTime g)" "readPackedUint b 90 6 = ok (og_settlementTime g)"
    "readPackedUint b 96 16 = ok (og_escalationHalt g)" "readPackedUint b 132 12 = ok (og_settlerRewardAttoEth g)"
    "readPackedUint b 164 3 = ok (og_numReports g)" "readPackedUint b 167 3 = ok (og_disputeDelay g)"
    "readPackedUint b 170 3 = ok (og_feePercentage g)" "readPackedUint b 173 2 = ok (og_multiplier g)"
    "readPackedUint b 195 4 = ok (og_callbackGasLimit g)" "readPackedUint b 199 3 = ok (og_protocolFee g)"
    "readPackedUint b 202 1 = ok (og_flags g)" "readPackedUint b 223 6 = ok (oh_blockTimestamp h)"
    "readPackedUint b 229 6 = ok (oh_blockNumber h)"
    using range len
    by (simp_all add: readPackedUint_value b_def packed_layout_def n bytes_value_big_endian
        del: big_endian.simps One_nat_def)
  have addrs:
    "readPackedAddress bytesToHex getAddress b 32 = og_currentReporter g"
    "readPackedAddress bytesToHex getAddress b 64 = og_token1 g"
    "readPackedAddress bytesToHex getAddress b 112 = og_protocolFeeRecipient g"
    "readPackedAddress bytesToHex getAddress b 144 = og_token2 g"
    "readPackedAddress bytesToHex getAddress b 175 = og_callbackContract g"
    "readPackedAddress bytesToHex getAddress b 203 = oh_creator h"
    using addresses by (simp_all add: readPackedAddress_def b_def packed_layout_def n del: big_endian.simps)
  show ?thesis
    unfolding decodeOpenOracleStatePreimage_def assms(8) bindR_simps b_def [symmetric] reads addrs
    using len by simp
qed

lemma length_write_loop [simp]: "length (write_loop b off w v) = length b"
  by (induction w arbitrary: b v) auto

lemma write_uint_ok: "0 \<le> v \<and> v < 256 ^ w \<Longrightarrow> writePackedUint b off w v = ok (write_loop b off w v)"
  by (simp add: writePackedUint_def push_bit_eq_mult two_pow_bytes)

definition spliced_at :: "8 word list \<Rightarrow> 8 word list \<Rightarrow> nat \<Rightarrow> 8 word list" where
  "spliced_at b s off = take off b @ s @ drop (off + length s) b"

lemma length_spliced_at: "off + length s \<le> length b \<Longrightarrow> length (spliced_at b s off) = length b"
  by (simp add: spliced_at_def)

lemma write_address_ok:
  "hexToBytes a = ok s \<Longrightarrow> off + length s \<le> length b \<Longrightarrow> writePackedAddress hexToBytes b off a = ok (spliced_at b s off)"
  by (simp add: writePackedAddress_def set_bytes_def spliced_at_def)

lemma encode_ok:
  assumes "fits_fields (sp_game preimage) (sp_helper preimage)"
    and "hexToBytes (og_currentReporter (sp_game preimage)) = ok a1" "length a1 = 20"
    and "hexToBytes (og_token1 (sp_game preimage)) = ok a2" "length a2 = 20"
    and "hexToBytes (og_protocolFeeRecipient (sp_game preimage)) = ok a3" "length a3 = 20"
    and "hexToBytes (og_token2 (sp_game preimage)) = ok a4" "length a4 = 20"
    and "hexToBytes (og_callbackContract (sp_game preimage)) = ok a5" "length a5 = 20"
    and "hexToBytes (oh_creator (sp_helper preimage)) = ok a6" "length a6 = 20"
  shows "succeeds (encodeOpenOracleStatePreimagePacked hexToBytes bytesToHex preimage)"
proof -
  note range = assms(1) [unfolded fits_fields_def list.pred_inject prod.case simp_thms]
  have "0 + (20::nat) \<le> 235" and add: "32 + (20::nat) \<le> 235" "64 + (20::nat) \<le> 235" "112 + (20::nat) \<le> 235"
    "144 + (20::nat) \<le> 235" "175 + (20::nat) \<le> 235" "203 + (20::nat) \<le> 235" by simp_all
  show ?thesis
    unfolding encodeOpenOracleStatePreimagePacked_def Let_def
    by (simp only: range write_uint_ok simp_thms write_address_ok assms(2,4,6,8,10,12) bindR_simps length_spliced_at length_write_loop length_replicate
        assms(3,5,7,9,11,13) add succeeds_simps)
qed

text \<open>
  C13: whatever the library's hexadecimal coding, if it is invertible and the addresses are in their
  checksummed form, a report's state has a packed form exactly when every integer fits its field, and
  decoding the packed form gives the state back.
\<close>

theorem packed_state_round_trip:
  assumes "\<And>bs. hexToBytes (bytesToHex bs) = ok bs"
    and "canonical_preimage hexToBytes bytesToHex getAddress preimage"
  shows "(succeeds (encodeOpenOracleStatePreimagePacked hexToBytes bytesToHex preimage) \<longleftrightarrow>
      fits_fields (sp_game preimage) (sp_helper preimage)) \<and>
    (\<forall>data. encodeOpenOracleStatePreimagePacked hexToBytes bytesToHex preimage = ok data \<longrightarrow>
      decodeOpenOracleStatePreimage hexToBytes bytesToHex getAddress data (oh_reportId (sp_helper preimage)) = ok preimage)"
proof -
  let ?g = "sp_game preimage" and ?h = "sp_helper preimage"
  note canon = assms(2) [unfolded canonical_preimage_def list.pred_inject simp_thms]
  obtain a1 a2 a3 a4 a5 a6 where
    a1: "hexToBytes (og_currentReporter ?g) = ok a1" "length a1 = 20" "getAddress (bytesToHex a1) = og_currentReporter ?g"
    and a2: "hexToBytes (og_token1 ?g) = ok a2" "length a2 = 20" "getAddress (bytesToHex a2) = og_token1 ?g"
    and a3: "hexToBytes (og_protocolFeeRecipient ?g) = ok a3" "length a3 = 20"
      "getAddress (bytesToHex a3) = og_protocolFeeRecipient ?g"
    and a4: "hexToBytes (og_token2 ?g) = ok a4" "length a4 = 20" "getAddress (bytesToHex a4) = og_token2 ?g"
    and a5: "hexToBytes (og_callbackContract ?g) = ok a5" "length a5 = 20"
      "getAddress (bytesToHex a5) = og_callbackContract ?g"
    and a6: "hexToBytes (oh_creator ?h) = ok a6" "length a6 = 20" "getAddress (bytesToHex a6) = oh_creator ?h"
    using canon by (elim conjE canonical_addressE)
  note layout = encode_layout [OF _ a1(1,2) a2(1,2) a3(1,2) a4(1,2) a5(1,2) a6(1,2)]
  have "decodeOpenOracleStatePreimage hexToBytes bytesToHex getAddress data (oh_reportId ?h)
      = ok \<lparr>sp_game = ?g, sp_helper = ?h\<rparr>"
    if "encodeOpenOracleStatePreimagePacked hexToBytes bytesToHex preimage = ok data" for data
    unfolding layout [OF that, THEN conjunct2]
    by (rule decode_layout [OF layout [OF that, THEN conjunct1] a1(2) a2(2) a3(2) a4(2) a5(2) a6(2)])
      (rule assms(1) a1(3) a2(3) a3(3) a4(3) a5(3) a6(3))+
  moreover have "fits_fields ?g ?h \<Longrightarrow> succeeds (encodeOpenOracleStatePreimagePacked hexToBytes bytesToHex preimage)"
    by (rule encode_ok [OF _ a1(1,2) a2(1,2) a3(1,2) a4(1,2) a5(1,2) a6(1,2)])
  moreover have "succeeds (encodeOpenOracleStatePreimagePacked hexToBytes bytesToHex preimage) \<Longrightarrow> fits_fields ?g ?h"
    using layout by (auto simp: succeeds_iff)
  ultimately show ?thesis by auto
qed

text \<open>A coding in which a byte is a character, under which every string is an address in its own form.\<close>

definition sample_hexToBytes :: "string \<Rightarrow> 8 word list result" where
  "sample_hexToBytes s = ok (map (\<lambda>c. word_of_int (int (of_char c))) s)"

definition sample_bytesToHex :: "8 word list \<Rightarrow> string" where
  "sample_bytesToHex bs = map (\<lambda>b. char_of (nat (uint b))) bs"

definition sampleAddress :: string where
  "sampleAddress = replicate 20 (CHR ''a'')"

definition samplePreimage :: OpenOracleStatePreimage where
  "samplePreimage =
     \<lparr>sp_game = \<lparr>og_callbackContract = sampleAddress, og_callbackGasLimit = 1000000, og_currentAmount1 = 5, og_currentAmount2 = 7,
        og_currentReporter = sampleAddress, og_disputeDelay = 3, og_escalationHalt = 9, og_feePercentage = 10000, og_flags = 5,
        og_lastReportOppoTime = 0, og_multiplier = 115, og_numReports = 1, og_protocolFee = 100000,
        og_protocolFeeRecipient = sampleAddress, og_reportTimestamp = 77, og_settlementTime = 300, og_settlementTimestamp = 0,
        og_settlerRewardAttoEth = 42, og_token1 = sampleAddress, og_token2 = sampleAddress\<rparr>,
      sp_helper = \<lparr>oh_blockNumber = 12, oh_blockTimestamp = 13, oh_creator = sampleAddress, oh_reportId = 1\<rparr>\<rparr>"

lemma sample_coding: "sample_hexToBytes (sample_bytesToHex bs) = ok bs"
proof -
  have "word_of_int (int (of_char (char_of (nat (uint b))))) = b" for b :: "8 word"
  proof -
    have "uint b < 2 ^ LENGTH(8)" by (rule unsigned_less)
    then have "nat (uint b) < 256" by (subst nat_less_iff) simp_all
    then have "int (of_char (char_of (nat (uint b)))) = uint b" by (simp only: of_char_of mod_less) simp
    then show ?thesis by (simp only: word_of_int_uint)
  qed
  then show ?thesis by (simp add: sample_hexToBytes_def sample_bytesToHex_def map_idI)
qed

lemma sample_decoding: "sample_hexToBytes s = ok bs \<Longrightarrow> sample_bytesToHex bs = s"
proof -
  assume "sample_hexToBytes s = ok bs"
  then have bs: "bs = map (\<lambda>c. word_of_int (int (of_char c))) s" by (simp add: sample_hexToBytes_def)
  have "char_of (nat (uint (word_of_int (int (of_char c)) :: 8 word))) = c" for c :: char
  proof -
    have "uint (word_of_int (int (of_char c)) :: 8 word) = int (of_char c)"
      using of_char_less_256 [of c] by (simp only: uint_word_of_int) simp
    then show ?thesis by (simp only: nat_int char_of_char)
  qed
  then show ?thesis by (simp add: bs sample_bytesToHex_def map_idI)
qed

lemma packed_state_round_trip_witness:
  "\<exists>data. encodeOpenOracleStatePreimagePacked sample_hexToBytes sample_bytesToHex samplePreimage = ok data \<and>
     decodeOpenOracleStatePreimage sample_hexToBytes sample_bytesToHex id data 1 = ok samplePreimage"
proof -
  have "canonical_address sample_hexToBytes sample_bytesToHex id sampleAddress"
    using sample_decoding [of sampleAddress]
    by (simp add: canonical_address_def sample_hexToBytes_def sampleAddress_def)
  then have "canonical_preimage sample_hexToBytes sample_bytesToHex id samplePreimage"
    by (simp add: canonical_preimage_def samplePreimage_def)
  note round_trip = packed_state_round_trip [OF sample_coding this]
  have "fits_fields (sp_game samplePreimage) (sp_helper samplePreimage)"
    by (simp add: fits_fields_def samplePreimage_def)
  with round_trip obtain data
    where "encodeOpenOracleStatePreimagePacked sample_hexToBytes sample_bytesToHex samplePreimage = ok data"
    by (auto simp: succeeds_iff)
  with round_trip show ?thesis by (auto simp: samplePreimage_def)
qed

section \<open>The initial report\<close>

definition ORACLE_PERCENTAGE_PRECISION :: int where "ORACLE_PERCENTAGE_PRECISION = 10000000"
definition ORACLE_PROTOCOL_FEE :: int where "ORACLE_PROTOCOL_FEE = 100000"
definition ORACLE_FEE_PERCENTAGE :: int where "ORACLE_FEE_PERCENTAGE = 10000"
definition ORACLE_MULTIPLIER :: int where "ORACLE_MULTIPLIER = 115"
definition ORACLE_GAS_UNITS_FOR_ONE_DISPUTE :: int where "ORACLE_GAS_UNITS_FOR_ONE_DISPUTE = 300000"
definition OPEN_ORACLE_SECURITY_MULTIPLIER_BPS :: int where "OPEN_ORACLE_SECURITY_MULTIPLIER_BPS = 100000"
definition ORACLE_TARGET_PRICE_ERROR_FOR_DISPUTE :: int where "ORACLE_TARGET_PRICE_ERROR_FOR_DISPUTE = 500000"
definition DEFAULT_ORACLE_INITIAL_REPORT_PRIORITY_FEE :: int where
  "DEFAULT_ORACLE_INITIAL_REPORT_PRIORITY_FEE = 10 * 10 ^ 9"
definition ORACLE_OPEN_INTEREST_DIVIDER :: int where "ORACLE_OPEN_INTEREST_DIVIDER = 100"
definition ORACLE_ESCALATION_HALT_MULTIPLIER_BPS :: int where "ORACLE_ESCALATION_HALT_MULTIPLIER_BPS = 100000"
definition BPS_DENOMINATOR_report :: int where "BPS_DENOMINATOR_report = 10000"
definition UINT128_MAX :: int where "UINT128_MAX = push_bit 128 1 - 1"

record OracleMinimumWethReportParameters =
  mr_baseFeeAttoEthPerGas :: int
  mr_initialReportPriorityFeeAttoEthPerGas :: int
  mr_openInterestAttoEth :: int
  mr_openOracleSecurityMultiplierBps :: int
  mr_gasUnitsForOneDispute :: int
  mr_targetPriceErrorForDispute :: int
  mr_openOracleProtocolFee :: int
  mr_openOracleReporterFee :: int

definition DEFAULT_ORACLE_MINIMUM_WETH_REPORT_PARAMETERS :: OracleMinimumWethReportParameters where
  "DEFAULT_ORACLE_MINIMUM_WETH_REPORT_PARAMETERS =
     \<lparr>mr_baseFeeAttoEthPerGas = 0,
      mr_initialReportPriorityFeeAttoEthPerGas = DEFAULT_ORACLE_INITIAL_REPORT_PRIORITY_FEE,
      mr_openInterestAttoEth = 0,
      mr_openOracleSecurityMultiplierBps = OPEN_ORACLE_SECURITY_MULTIPLIER_BPS,
      mr_gasUnitsForOneDispute = ORACLE_GAS_UNITS_FOR_ONE_DISPUTE,
      mr_targetPriceErrorForDispute = ORACLE_TARGET_PRICE_ERROR_FOR_DISPUTE,
      mr_openOracleProtocolFee = ORACLE_PROTOCOL_FEE,
      mr_openOracleReporterFee = ORACLE_FEE_PERCENTAGE\<rparr>"

definition calculateMaximumOracleInitialReportPriorityFee ::
  "OracleMinimumWethReportParameters \<Rightarrow> int \<Rightarrow> int result" where
  "calculateMaximumOracleInitialReportPriorityFee p escalationHaltMultiplierBps =
     (if mr_gasUnitsForOneDispute p \<le> 0 then throw ''Dispute gas units must be positive''
      else if escalationHaltMultiplierBps \<le> 0 then throw ''Escalation halt multiplier must be positive''
      else
        let feeSum = mr_openOracleProtocolFee p + mr_openOracleReporterFee p;
            correctionProfitNumerator = mr_targetPriceErrorForDispute p - feeSum
        in
        if correctionProfitNumerator \<le> 0 then throw ''Oracle fees must be below the target price error''
        else
          let reportDenominator = BPS_DENOMINATOR_report * correctionProfitNumerator;
              reportNumeratorMultiplier = mr_openOracleSecurityMultiplierBps p
                * (ORACLE_PERCENTAGE_PRECISION + mr_targetPriceErrorForDispute p)
          in
          bindR (bigDiv (UINT128_MAX * BPS_DENOMINATOR_report) escalationHaltMultiplierBps) (\<lambda>escalationLimitedReport.
          let maximumPriorityFeeReport = (if escalationLimitedReport < UINT128_MAX then escalationLimitedReport
                else UINT128_MAX) sdiv 2 in
          bindR (bigDiv (maximumPriorityFeeReport * reportDenominator) reportNumeratorMultiplier) (\<lambda>maximumPriorityDisputeGasCost.
          bigDiv maximumPriorityDisputeGasCost (mr_gasUnitsForOneDispute p))))"

definition ceilDivide :: "int \<Rightarrow> int \<Rightarrow> int result" where
  "ceilDivide numerator denominator =
     (if denominator \<le> 0 then throw ''Cannot divide by zero or a negative denominator''
      else ok ((numerator + denominator - 1) sdiv denominator))"

definition calculateGasPriceReport :: "OracleMinimumWethReportParameters \<Rightarrow> int \<Rightarrow> int \<Rightarrow> int result" where
  "calculateGasPriceReport p denominator gasPrice =
     (if gasPrice = 0 then ok 0
      else
        let disputeGasCost = mr_gasUnitsForOneDispute p * gasPrice;
            numerator = disputeGasCost * mr_openOracleSecurityMultiplierBps p
              * (ORACLE_PERCENTAGE_PRECISION + mr_targetPriceErrorForDispute p)
        in ceilDivide numerator denominator)"

definition calculateOracleMinimumWethReportAttoEth :: "OracleMinimumWethReportParameters \<Rightarrow> int result" where
  "calculateOracleMinimumWethReportAttoEth p =
     (let feeSum = mr_openOracleProtocolFee p + mr_openOracleReporterFee p;
          correctionProfitNumerator = mr_targetPriceErrorForDispute p - feeSum;
          denominator = BPS_DENOMINATOR_report * correctionProfitNumerator
      in
      bindR (calculateGasPriceReport p denominator (mr_initialReportPriorityFeeAttoEthPerGas p)) (\<lambda>priorityFeeReport.
      bindR (calculateGasPriceReport p denominator (mr_baseFeeAttoEthPerGas p)) (\<lambda>baseFeeReport.
      bindR (ceilDivide (mr_openInterestAttoEth p) ORACLE_OPEN_INTEREST_DIVIDER) (\<lambda>openInterestReport.
      let dynamicReport = (if baseFeeReport > openInterestReport then baseFeeReport else openInterestReport);
          calculatedReport = priorityFeeReport + dynamicReport
      in ok (if calculatedReport > 0 then calculatedReport else 1)))))"

interpretation report_ceil: ceil_division ceilDivide
  by unfold_locales (simp add: ceilDivide_def ceil_quot_add_idiom)

lemma quotients_cover:
  fixes n d k q :: int
  assumes "0 < d" and "0 < k" and "q \<le> (n div d) div k"
  shows "q * k * d \<le> n"
proof -
  have "q * k \<le> n div d" using assms by (simp add: le_div_iff)
  then show ?thesis using assms by (simp add: le_div_iff)
qed

text \<open>
  A priority fee within the computed maximum keeps the initial report within its limit: on
  quiet gas and open interest the minimum report is at most half of the largest report that can
  still be escalated within 128 bits, and it is always at least one.
\<close>

lemma maximum_priority_fee_bounds_report:
  assumes "calculateMaximumOracleInitialReportPriorityFee p halt = ok maximum"
    and "0 \<le> mr_initialReportPriorityFeeAttoEthPerGas p" and "mr_initialReportPriorityFeeAttoEthPerGas p \<le> maximum"
    and "0 < mr_openOracleSecurityMultiplierBps p" and "0 \<le> mr_targetPriceErrorForDispute p"
    and "mr_baseFeeAttoEthPerGas p = 0" and "mr_openInterestAttoEth p = 0"
  shows "\<exists>report. calculateOracleMinimumWethReportAttoEth p = ok report \<and> 1 \<le> report \<and>
    report \<le> max 1 (min ((UINT128_MAX * 10000) div halt) UINT128_MAX div 2)"
proof -
  let ?gas = "mr_gasUnitsForOneDispute p" and ?fee = "mr_initialReportPriorityFeeAttoEthPerGas p"
  let ?profit = "mr_targetPriceErrorForDispute p - (mr_openOracleProtocolFee p + mr_openOracleReporterFee p)"
  let ?mult = "mr_openOracleSecurityMultiplierBps p * (10000000 + mr_targetPriceErrorForDispute p)"
  define limit where "limit = min ((UINT128_MAX * 10000) div halt) UINT128_MAX div 2"
  have max128: "0 < UINT128_MAX" by (simp add: UINT128_MAX_def push_bit_eq_mult)
  have pos: "0 < ?gas" "0 < halt" "0 < ?profit"
    using assms(1) by (auto simp: calculateMaximumOracleInitialReportPriorityFee_def Let_def split: if_splits)
  have mult: "0 < ?mult" using assms by simp
  have "0 \<le> (UINT128_MAX * 10000) div halt" using max128 pos by (simp add: pos_imp_zdiv_nonneg_iff)
  then have limit: "0 \<le> limit" using max128 by (simp add: limit_def)
  have maximum: "maximum = ((limit * (10000 * ?profit)) div ?mult) div ?gas"
  proof -
    have 1: "bigDiv (UINT128_MAX * BPS_DENOMINATOR_report) halt = ok ((UINT128_MAX * 10000) div halt)"
      using max128 pos by (simp add: bigDiv_pos BPS_DENOMINATOR_report_def)
    have 2: "min ((UINT128_MAX * 10000) div halt) UINT128_MAX sdiv 2 = limit"
      using max128 \<open>0 \<le> (UINT128_MAX * 10000) div halt\<close> by (simp add: limit_def sdiv_nonneg)
    have 3: "bigDiv (limit * (BPS_DENOMINATOR_report * ?profit))
        (mr_openOracleSecurityMultiplierBps p * (ORACLE_PERCENTAGE_PRECISION + mr_targetPriceErrorForDispute p))
        = ok ((limit * (10000 * ?profit)) div ?mult)"
      using limit pos mult by (simp add: bigDiv_pos BPS_DENOMINATOR_report_def ORACLE_PERCENTAGE_PRECISION_def)
    have 4: "bigDiv ((limit * (10000 * ?profit)) div ?mult) ?gas = ok (((limit * (10000 * ?profit)) div ?mult) div ?gas)"
      using limit pos mult by (intro bigDiv_pos) (auto simp: pos_imp_zdiv_nonneg_iff)
    have guards: "\<not> ?gas \<le> 0" "\<not> halt \<le> 0" "\<not> ?profit \<le> 0" using pos by auto
    show ?thesis
      using assms(1)
      by (simp only: calculateMaximumOracleInitialReportPriorityFee_def Let_def minmax_simps 1 2 3 4 bindR_simps
          guards if_False sum.inject)
  qed
  have cover: "?fee * ?gas * ?mult \<le> limit * (10000 * ?profit)"
    using quotients_cover [OF mult pos(1)] assms(3) unfolding maximum by blast
  define report where "report = (if ?fee = 0 then 0 else ceil_quot (?gas * ?fee * mr_openOracleSecurityMultiplierBps p
    * (10000000 + mr_targetPriceErrorForDispute p)) (10000 * ?profit))"
  have "report \<le> limit"
    using cover pos limit by (simp add: report_def ceil_quot_le_iff mult_ac)
  moreover have "calculateGasPriceReport p (BPS_DENOMINATOR_report * ?profit) ?fee = ok report"
    using pos mult assms by (auto simp: calculateGasPriceReport_def report_def Let_def report_ceil.cdiv_spec
        BPS_DENOMINATOR_report_def ORACLE_PERCENTAGE_PRECISION_def)
  moreover have "calculateGasPriceReport p (BPS_DENOMINATOR_report * ?profit) 0 = ok 0"
    by (simp add: calculateGasPriceReport_def)
  moreover have "ceilDivide 0 ORACLE_OPEN_INTEREST_DIVIDER = ok 0"
    by (simp add: report_ceil.cdiv_spec ORACLE_OPEN_INTEREST_DIVIDER_def)
  ultimately have "calculateOracleMinimumWethReportAttoEth p = ok (if report > 0 then report else 1)"
    using assms(6,7) by (simp add: calculateOracleMinimumWethReportAttoEth_def Let_def)
  with \<open>report \<le> limit\<close> show ?thesis unfolding limit_def [symmetric] by auto
qed

lemma maximum_priority_fee_bounds_report_example:
  "\<exists>report. calculateOracleMinimumWethReportAttoEth DEFAULT_ORACLE_MINIMUM_WETH_REPORT_PARAMETERS = ok report \<and>
     1 \<le> report \<and> report \<le> UINT128_MAX div 2"
proof -
  have "case calculateMaximumOracleInitialReportPriorityFee DEFAULT_ORACLE_MINIMUM_WETH_REPORT_PARAMETERS 100000 of
      Inl e \<Rightarrow> False | Inr m \<Rightarrow> 10000000000 \<le> m" by code_simp
  then obtain m where m: "calculateMaximumOracleInitialReportPriorityFee DEFAULT_ORACLE_MINIMUM_WETH_REPORT_PARAMETERS 100000 = ok m"
    "10000000000 \<le> m" by (auto split: sum.splits)
  from maximum_priority_fee_bounds_report [OF m(1)] m(2) show ?thesis
    by (auto simp: DEFAULT_ORACLE_MINIMUM_WETH_REPORT_PARAMETERS_def DEFAULT_ORACLE_INITIAL_REPORT_PRIORITY_FEE_def
        OPEN_ORACLE_SECURITY_MULTIPLIER_BPS_def ORACLE_TARGET_PRICE_ERROR_FOR_DISPUTE_def UINT128_MAX_def push_bit_eq_mult
        intro: order_trans)
qed

end
