(* ===== verification/Arbitrage.thy ===== *)
theory Arbitrage
  imports Open_Oracle Amm_Curve
begin

text \<open>
  The open-oracle arbitrager's decision logic, \<open>bots/open-oracle-arbitrager/src/core\<close>:
  quotes, funding and profit (\<open>strategy.ts\<close>, \<open>position-accounting.ts\<close>), venue quotes
  (\<open>venue-strategy.ts\<close>, \<open>uniswap-v4.ts\<close>), the coordinator policy a report must match
  (\<open>game-policy.ts\<close>) and the risk limits (\<open>safety-controls.ts\<close>). A date is its ISO text.
\<close>

section \<open>Fees, contributions and funding\<close>

definition OPEN_ORACLE_PERCENTAGE_PRECISION :: int where
  [simp]: "OPEN_ORACLE_PERCENTAGE_PRECISION = 10000000"

datatype ArbitrageDirection = SellRep | BuyRep

record ArbitrageQuote =
  aq_direction :: ArbitrageDirection
  aq_grossProceedsAttoWeth :: int
  aq_hedgeAmountAttoRep :: int
  aq_hedgeCostAttoWeth :: int
  aq_netProfitAttoWeth :: int
  aq_profitBeforeGasAttoWeth :: int
  aq_tokenToSwap :: string

definition calculateFee :: "int \<Rightarrow> int \<Rightarrow> int" where
  "calculateFee amount rate = (amount * rate) sdiv OPEN_ORACLE_PERCENTAGE_PRECISION"

definition calculateNextAmount1 :: "OpenOracleGame \<Rightarrow> int" where
  "calculateNextAmount1 game =
     (if og_escalationHalt game > og_currentAmount1 game then
        let multiplied = (og_currentAmount1 game * og_multiplier game) sdiv 100
        in if multiplied > og_escalationHalt game then og_escalationHalt game else multiplied
      else og_currentAmount1 game + 1)"

definition deriveTokenToSwap :: "OpenOracleGame \<Rightarrow> int \<Rightarrow> int \<Rightarrow> string" where
  "deriveTokenToSwap game newAmount1 newAmount2 =
     (if newAmount2 * og_currentAmount1 game > og_currentAmount2 game * newAmount1 then og_token2 game else og_token1 game)"

definition isSelfReport :: "string option \<Rightarrow> string \<Rightarrow> bool" where
  "isSelfReport account currentReporter =
     (case account of None \<Rightarrow> False | Some a \<Rightarrow> toLowerCase a = toLowerCase currentReporter)"

record TokenAmounts =
  ta_token1 :: int
  ta_token2 :: int

definition calculateContribution :: "OpenOracleGame \<Rightarrow> string \<Rightarrow> string \<Rightarrow> int \<Rightarrow> int \<Rightarrow> TokenAmounts" where
  "calculateContribution game tokenToSwap token1 newAmount1 newAmount2 =
     (if toLowerCase tokenToSwap = toLowerCase token1 then
        \<lparr>ta_token1 = newAmount1 + og_currentAmount1 game + calculateFee (og_currentAmount1 game) (og_feePercentage game)
            + calculateFee (og_currentAmount1 game) (og_protocolFee game),
         ta_token2 = (if newAmount2 > og_currentAmount2 game then newAmount2 - og_currentAmount2 game else 0)\<rparr>
      else
        \<lparr>ta_token1 = (if newAmount1 > og_currentAmount1 game then newAmount1 - og_currentAmount1 game else 0),
         ta_token2 = newAmount2 + og_currentAmount2 game + calculateFee (og_currentAmount2 game) (og_feePercentage game)
            + calculateFee (og_currentAmount2 game) (og_protocolFee game)\<rparr>)"

definition hedgeWethLimitAttoEth :: "ArbitrageDirection \<Rightarrow> int \<Rightarrow> int \<Rightarrow> int result" where
  "hedgeWethLimitAttoEth direction quoted maximumSlippageBps =
     (if maximumSlippageBps < 0 \<or> maximumSlippageBps > 10000
      then throw ''Hedge slippage must be from 0 to 10000 bps''
      else if direction = SellRep then ok ((quoted * (10000 - maximumSlippageBps)) sdiv 10000)
      else ok ((quoted * (10000 + maximumSlippageBps) + 9999) sdiv 10000))"

definition hedgeSlippageReserveAttoWeth :: "ArbitrageDirection \<Rightarrow> int \<Rightarrow> int \<Rightarrow> int result" where
  "hedgeSlippageReserveAttoWeth direction quoted maximumSlippageBps =
     bindR (hedgeWethLimitAttoEth direction quoted maximumSlippageBps) (\<lambda>limit.
       ok (if direction = SellRep then quoted - limit else limit - quoted))"

definition spotTwapDeviationWithinLimit :: "int \<Rightarrow> int \<Rightarrow> int \<Rightarrow> bool" where
  "spotTwapDeviationWithinLimit spotTick twapTick maximumDeviation =
     ((if spotTick > twapTick then spotTick - twapTick else twapTick - spotTick) \<le> maximumDeviation)"

definition executorFunding :: "OpenOracleGame \<Rightarrow> int \<Rightarrow> int \<Rightarrow> int \<Rightarrow> TokenAmounts result" where
  "executorFunding game newAmount1 newAmount2 buyHedgeWethLimit =
     (let tokenToSwap = deriveTokenToSwap game newAmount1 newAmount2;
          contribution = calculateContribution game tokenToSwap (og_token1 game) newAmount1 newAmount2
      in
      if toLowerCase tokenToSwap = toLowerCase (og_token1 game)
      then ok \<lparr>ta_token1 = ta_token1 contribution, ta_token2 = ta_token2 contribution + og_currentAmount2 game\<rparr>
      else
        let hedgeToken2 = og_currentAmount2 game + calculateFee (og_currentAmount2 game) (og_feePercentage game)
              + calculateFee (og_currentAmount2 game) (og_protocolFee game)
        in
        if ta_token2 contribution < hedgeToken2 then throw ''Buy hedge exceeds the token contribution''
        else ok \<lparr>ta_token1 = ta_token1 contribution + buyHedgeWethLimit, ta_token2 = ta_token2 contribution - hedgeToken2\<rparr>)"

definition fundedCapitalAtRiskAttoWeth :: "TokenAmounts \<Rightarrow> int \<Rightarrow> int \<Rightarrow> int \<Rightarrow> int" where
  "fundedCapitalAtRiskAttoWeth funding hedgeAmountToken quotedHedge signedHedgeLimit =
     (if hedgeAmountToken = 0 then ta_token1 funding
      else
        let conservativeHedge = (if quotedHedge > signedHedgeLimit then quotedHedge else signedHedgeLimit)
        in ta_token1 funding + (ta_token2 funding * conservativeHedge + hedgeAmountToken - 1) sdiv hedgeAmountToken)"

definition evaluateSellRep :: "OpenOracleGame \<Rightarrow> int \<Rightarrow> int \<Rightarrow> ArbitrageQuote" where
  "evaluateSellRep game quotedWethOut gasCost =
     (let wethSpend = og_currentAmount1 game + calculateFee (og_currentAmount1 game) (og_feePercentage game)
            + calculateFee (og_currentAmount1 game) (og_protocolFee game)
      in \<lparr>aq_direction = SellRep, aq_grossProceedsAttoWeth = quotedWethOut, aq_hedgeAmountAttoRep = og_currentAmount2 game,
          aq_hedgeCostAttoWeth = wethSpend, aq_netProfitAttoWeth = quotedWethOut - wethSpend - gasCost,
          aq_profitBeforeGasAttoWeth = quotedWethOut - wethSpend, aq_tokenToSwap = og_token1 game\<rparr>)"

definition evaluateBuyRep :: "OpenOracleGame \<Rightarrow> int \<Rightarrow> int \<Rightarrow> ArbitrageQuote" where
  "evaluateBuyRep game quotedWethIn gasCost =
     (let repNeeded = og_currentAmount2 game + calculateFee (og_currentAmount2 game) (og_feePercentage game)
            + calculateFee (og_currentAmount2 game) (og_protocolFee game)
      in \<lparr>aq_direction = BuyRep, aq_grossProceedsAttoWeth = og_currentAmount1 game, aq_hedgeAmountAttoRep = repNeeded,
          aq_hedgeCostAttoWeth = quotedWethIn, aq_netProfitAttoWeth = og_currentAmount1 game - quotedWethIn - gasCost,
          aq_profitBeforeGasAttoWeth = og_currentAmount1 game - quotedWethIn, aq_tokenToSwap = og_token2 game\<rparr>)"

definition meetsProfitThreshold :: "ArbitrageQuote \<Rightarrow> int \<Rightarrow> int \<Rightarrow> bool" where
  "meetsProfitThreshold quote minimumProfit minimumProfitBps =
     (if aq_netProfitAttoWeth quote < minimumProfit \<or> aq_hedgeCostAttoWeth quote \<le> 0 then False
      else aq_netProfitAttoWeth quote * 10000 \<ge> aq_hedgeCostAttoWeth quote * minimumProfitBps)"

definition calculateTrackedNetProfitEth :: "int \<Rightarrow> int \<Rightarrow> int" where
  "calculateTrackedNetProfitEth profitBeforeGas actualGasCost = profitBeforeGas - actualGasCost"

definition hasFreshSubmissionWindow :: "int \<Rightarrow> int \<Rightarrow> int \<Rightarrow> int \<Rightarrow> int \<Rightarrow> bool" where
  "hasFreshSubmissionWindow currentTime deadline minimumRemaining quoteBlock submissionBlock =
     (if submissionBlock \<noteq> quoteBlock then False
      else if currentTime \<ge> deadline then False
      else deadline - currentTime \<ge> minimumRemaining)"

section \<open>Position accounting\<close>

definition hedgedProfitBeforeGasWeth :: "ArbitrageDirection \<Rightarrow> int \<Rightarrow> int \<Rightarrow> int \<Rightarrow> int \<Rightarrow> int" where
  "hedgedProfitBeforeGasWeth direction actualHedge currentAmount1 fee protocolFee =
     (let openOracleWeth = currentAmount1 + fee + protocolFee
      in if direction = SellRep then actualHedge - openOracleWeth else currentAmount1 - actualHedge)"

definition realizedNetProfitWeth :: "int \<Rightarrow> int \<Rightarrow> int \<Rightarrow> int \<Rightarrow> int" where
  "realizedNetProfitWeth hedgedProfitBeforeGas settlerReward entryGasCost lifecycleGasCost =
     hedgedProfitBeforeGas + settlerReward - entryGasCost - lifecycleGasCost"

definition recoveredHedgedProfitBeforeGasWeth :: "ArbitrageDirection \<Rightarrow> int \<Rightarrow> int \<Rightarrow> int \<Rightarrow> int" where
  "recoveredHedgedProfitBeforeGasWeth direction quotedProfit quotedHedge actualHedge =
     (if direction = SellRep then quotedProfit + actualHedge - quotedHedge else quotedProfit + quotedHedge - actualHedge)"

definition expectedWithdrawalToken2 :: "ArbitrageDirection \<Rightarrow> int \<Rightarrow> int \<Rightarrow> int" where
  "expectedWithdrawalToken2 direction currentAmount2 newAmount2 =
     (if direction = SellRep \<and> currentAmount2 > newAmount2 then currentAmount2 else newAmount2)"

datatype CreditToken = CreditToken1 | CreditToken2

definition replacementCredit :: "int \<Rightarrow> int \<Rightarrow> int \<Rightarrow> int \<Rightarrow> int \<Rightarrow> int \<times> CreditToken" where
  "replacementCredit feePercentage newAmount1 newAmount2 oldAmount1 oldAmount2 =
     (if newAmount2 * oldAmount1 > oldAmount2 * newAmount1
      then (2 * oldAmount2 + (oldAmount2 * feePercentage) sdiv OPEN_ORACLE_PERCENTAGE_PRECISION, CreditToken2)
      else (2 * oldAmount1 + (oldAmount1 * feePercentage) sdiv OPEN_ORACLE_PERCENTAGE_PRECISION, CreditToken1))"

section \<open>Venues\<close>

datatype Venue = UniswapV2 | UniswapV3 | UniswapV4

record VenueQuote =
  vq_gasCostAttoWeth :: int
  vq_quotedAttoWeth :: int
  vq_venue :: Venue

definition constantProductExactInput :: "int \<Rightarrow> int \<Rightarrow> int \<Rightarrow> int result" where
  "constantProductExactInput amountIn reserveIn reserveOut =
     (if amountIn \<le> 0 \<or> reserveIn \<le> 0 \<or> reserveOut \<le> 0
      then throw ''Constant-product exact-input quote requires positive amounts and reserves''
      else let amountInWithFee = amountIn * 997 in
        bigDiv (amountInWithFee * reserveOut) (reserveIn * 1000 + amountInWithFee))"

definition constantProductExactOutput :: "int \<Rightarrow> int \<Rightarrow> int \<Rightarrow> int result" where
  "constantProductExactOutput amountOut reserveIn reserveOut =
     (if amountOut \<le> 0 \<or> reserveIn \<le> 0 \<or> reserveOut \<le> amountOut
      then throw ''Constant-product exact-output quote exceeds available reserves''
      else bindR (bigDiv (reserveIn * amountOut * 1000) ((reserveOut - amountOut) * 997)) (\<lambda>q. ok (q + 1)))"

definition venueCost :: "ArbitrageDirection \<Rightarrow> VenueQuote \<Rightarrow> int" where
  "venueCost direction quote =
     (if direction = SellRep then vq_gasCostAttoWeth quote - vq_quotedAttoWeth quote
      else vq_gasCostAttoWeth quote + vq_quotedAttoWeth quote)"

definition selectBestVenueQuote :: "ArbitrageDirection \<Rightarrow> VenueQuote list \<Rightarrow> VenueQuote option" where
  "selectBestVenueQuote direction quotes =
     foldl (\<lambda>best quote. case best of
         None \<Rightarrow> Some quote
       | Some b \<Rightarrow> if venueCost direction quote < venueCost direction b then Some quote else Some b) None quotes"

definition STANDARD_UNISWAP_FEES :: "int list" where
  "STANDARD_UNISWAP_FEES = [100, 500, 3000, 10000]"

definition v4TickSpacing :: "int \<Rightarrow> int" where
  "v4TickSpacing fee = (if fee = 100 then 1 else if fee = 500 then 10 else if fee = 3000 then 60 else 200)"

record V4QuoteParameters =
  v4_exactAmount :: int
  v4_hookData :: string
  v4_currency0 :: string
  v4_currency1 :: string
  v4_fee :: int
  v4_hooks :: string
  v4_tickSpacing :: int
  v4_zeroForOne :: bool

definition zeroAddress :: string where
  "zeroAddress = ''0x0000000000000000000000000000000000000000''"

definition v4QuoteParameters :: "string \<Rightarrow> int \<Rightarrow> int \<Rightarrow> bool \<Rightarrow> V4QuoteParameters result" where
  "v4QuoteParameters token fee exactAmount zeroForOne =
     (if exactAmount \<le> 0 \<or> exactAmount > 2 ^ 127 - 1
      then throw ''Uniswap V4 exact amount must fit the signed pool-delta range''
      else ok \<lparr>v4_exactAmount = exactAmount, v4_hookData = ''0x'', v4_currency0 = zeroAddress, v4_currency1 = token,
               v4_fee = fee, v4_hooks = zeroAddress, v4_tickSpacing = v4TickSpacing fee, v4_zeroForOne = zeroForOne\<rparr>)"

record V4QuotePlan =
  vp4_buy :: V4QuoteParameters
  vp4_fee :: int
  vp4_sell :: V4QuoteParameters

definition v4QuotePlan :: "string \<Rightarrow> int \<Rightarrow> int \<Rightarrow> int \<Rightarrow> V4QuotePlan result" where
  "v4QuotePlan token fee sellExactAmount buyExactAmount =
     bindR (v4QuoteParameters token fee buyExactAmount True) (\<lambda>buy.
     bindR (v4QuoteParameters token fee sellExactAmount False) (\<lambda>sell.
     ok \<lparr>vp4_buy = buy, vp4_fee = fee, vp4_sell = sell\<rparr>))"

definition standardV4QuotePlans :: "string \<Rightarrow> int \<Rightarrow> int \<Rightarrow> V4QuotePlan list result" where
  "standardV4QuotePlans token sellExactAmount buyExactAmount =
     mapR (\<lambda>fee. v4QuotePlan token fee sellExactAmount buyExactAmount) STANDARD_UNISWAP_FEES"

section \<open>Coordinator policy\<close>

definition MAX_SAFE_CALLBACK_GAS_LIMIT :: int where "MAX_SAFE_CALLBACK_GAS_LIMIT = 10000000"
definition MAX_SAFE_SETTLEMENT_BLOCKS :: int where "MAX_SAFE_SETTLEMENT_BLOCKS = 50400"
definition MAX_SAFE_SETTLEMENT_SECONDS :: int where "MAX_SAFE_SETTLEMENT_SECONDS = 604800"
definition MAX_SAFE_MULTIPLIER :: int where "MAX_SAFE_MULTIPLIER = 200"

record CoordinatorGamePolicy =
  cp_callbackGasLimit :: int
  cp_coordinator :: string
  cp_disputeDelay :: int
  cp_feePercentage :: int
  cp_flags :: int
  cp_multiplier :: int
  cp_openOracle :: string
  cp_protocolFee :: int
  cp_protocolFeeRecipient :: string
  cp_settlementTime :: int
  cp_token1 :: string
  cp_token2 :: string

definition fieldMismatch :: "int \<Rightarrow> int \<Rightarrow> string \<Rightarrow> string option" where
  "fieldMismatch actual expected name =
     (if actual = expected then None else Some (name @ '' differs from the approved coordinator template''))"

text \<open>\<open>a ?? b\<close> on optional messages.\<close>

definition or_else :: "'a option \<Rightarrow> 'a option \<Rightarrow> 'a option" where
  "or_else a b = (case a of None \<Rightarrow> b | Some x \<Rightarrow> Some x)"

lemma or_else_eq_None [simp]: "or_else a b = None \<longleftrightarrow> a = None \<and> b = None"
  by (simp add: or_else_def split: option.splits)

definition coordinatorPolicySafetyMismatch :: "CoordinatorGamePolicy \<Rightarrow> string option" where
  "coordinatorPolicySafetyMismatch policy =
     (if cp_flags policy AND OPEN_ORACLE_FLAG_STORE_ALL = 0
      then Some ''Stored OpenOracle state is required for durable lifecycle recovery''
      else if cp_callbackGasLimit policy > MAX_SAFE_CALLBACK_GAS_LIMIT
      then Some ''Callback gas limit exceeds the arbitrager safety bound''
      else
        let maximumSettlementTime = (if cp_flags policy AND OPEN_ORACLE_FLAG_TIME_TYPE = 0
              then MAX_SAFE_SETTLEMENT_BLOCKS else MAX_SAFE_SETTLEMENT_SECONDS) in
        if cp_settlementTime policy > maximumSettlementTime
        then Some ''Settlement time exceeds the arbitrager safety bound''
        else if cp_multiplier policy > MAX_SAFE_MULTIPLIER
        then Some ''Multiplier exceeds the arbitrager safety bound''
        else None)"

definition gamePolicyMismatch ::
  "OpenOracleStatePreimage \<Rightarrow> CoordinatorGamePolicy list \<Rightarrow> string \<Rightarrow> string option" where
  "gamePolicyMismatch report policies expectedOpenOracle =
     (case List.find (\<lambda>candidate. sameText (cp_coordinator candidate) (oh_creator (sp_helper report))) policies of
        None \<Rightarrow> Some ''Report creator is not an approved coordinator''
      | Some policy \<Rightarrow>
          let game = sp_game report in
          if \<not> sameText (cp_openOracle policy) expectedOpenOracle
          then Some ''Coordinator is bound to a different OpenOracle''
          else if \<not> sameText (og_callbackContract game) (cp_coordinator policy)
          then Some ''Settlement callback is not the report coordinator''
          else if \<not> sameText (og_token1 game) (cp_token1 policy) \<or> \<not> sameText (og_token2 game) (cp_token2 policy)
          then Some ''Token pair differs from the approved coordinator template''
          else if \<not> sameText (og_protocolFeeRecipient game) (cp_protocolFeeRecipient policy)
          then Some ''Protocol fee recipient differs from the approved coordinator template''
          else
            let mismatch =
              or_else (fieldMismatch (og_callbackGasLimit game) (cp_callbackGasLimit policy) ''Callback gas limit'')
              (or_else (fieldMismatch (og_settlementTime game) (cp_settlementTime policy) ''Settlement time'')
              (or_else (fieldMismatch (og_disputeDelay game) (cp_disputeDelay policy) ''Dispute delay'')
              (or_else (fieldMismatch (og_feePercentage game) (cp_feePercentage policy) ''Fee percentage'')
              (or_else (fieldMismatch (og_protocolFee game) (cp_protocolFee policy) ''Protocol fee'')
              (or_else (fieldMismatch (og_multiplier game) (cp_multiplier policy) ''Multiplier'')
                (fieldMismatch (og_flags game) (cp_flags policy) ''Flags''))))))
            in if mismatch \<noteq> None then mismatch else coordinatorPolicySafetyMismatch policy)"

definition newestFirst :: "int \<Rightarrow> int \<Rightarrow> int" where
  "newestFirst left right = (if left > right then -1 else if left < right then 1 else 0)"

text \<open>The map of tracked reports as its entries in insertion order; the returned set as a list.\<close>

definition retainedReportIds ::
  "(int \<times> OpenOracleStatePreimage) list \<Rightarrow> CoordinatorGamePolicy list \<Rightarrow> string \<Rightarrow> nat \<Rightarrow> int list" where
  "retainedReportIds reports policies expectedOpenOracle maximumUntrustedReports =
     (let trustedIds = map fst (filter (\<lambda>(i, latest). gamePolicyMismatch latest policies expectedOpenOracle = None) reports)
      in if policies \<noteq> [] then trustedIds
         else take maximumUntrustedReports (js_sort newestFirst (map fst reports)))"

section \<open>Risk limits\<close>

definition parseDecimalWeth :: "string \<Rightarrow> int result" where
  "parseDecimalWeth v =
     (if is_decimal 18 v \<and> (whole_part v = ''0'' \<or> hd v \<noteq> CHR ''0'')
      then ok (int (digits_value (whole_part v)) * 10 ^ 18 + int (digits_value (padEnd 18 (CHR ''0'') (fraction_part v))))
      else throw (''Invalid WETH amount: '' @ v))"

record RiskLimits =
  rl_lifecycleGasReserveAttoWeth :: int
  rl_maxConcurrentPositions :: int
  rl_maxDailyGasSpendAttoWeth :: int
  rl_maxPositionNotionalAttoWeth :: int
  rl_maxTotalLockedAttoWeth :: int

definition DEFAULT_RISK_LIMITS :: RiskLimits where
  "DEFAULT_RISK_LIMITS = \<lparr>rl_lifecycleGasReserveAttoWeth = 10 ^ 16, rl_maxConcurrentPositions = 1,
     rl_maxDailyGasSpendAttoWeth = 5 * 10 ^ 16, rl_maxPositionNotionalAttoWeth = 5 * 10 ^ 18,
     rl_maxTotalLockedAttoWeth = 10 * 10 ^ 18\<rparr>"

definition positionConsumesRisk :: "string \<Rightarrow> bool" where
  "positionConsumesRisk status \<longleftrightarrow> status \<noteq> ''closed'' \<and> status \<noteq> ''expired-not-included''"

definition adjustedNetProfitWeth :: "int \<Rightarrow> int \<Rightarrow> int \<Rightarrow> int \<Rightarrow> int" where
  "adjustedNetProfitWeth entryGasCost hedgeSlippageReserve lifecycleGasReserve profitBeforeGas =
     profitBeforeGas - entryGasCost - hedgeSlippageReserve - lifecycleGasReserve"

definition projectedLifecycleGasReserveAttoWeth :: "int \<Rightarrow> int \<Rightarrow> int \<Rightarrow> int" where
  "projectedLifecycleGasReserveAttoWeth callbackGasLimit configuredReserve gasPrice =
     (let transactionPlanGas = callbackGasLimit + 900000; projected = gasPrice * transactionPlanGas
      in if projected > configuredReserve then projected else configuredReserve)"

record RiskExposure =
  re_capitalAtRiskAttoWeth :: int
  re_concurrentPositions :: int
  re_dailyGasSpentAttoWeth :: int
  re_projectedLockedAttoWeth :: int

definition riskLimitMismatch :: "RiskExposure \<Rightarrow> RiskLimits \<Rightarrow> string option" where
  "riskLimitMismatch exposure limits =
     (if re_concurrentPositions exposure \<ge> rl_maxConcurrentPositions limits
      then Some ''Maximum concurrent position limit reached''
      else if re_capitalAtRiskAttoWeth exposure > rl_maxPositionNotionalAttoWeth limits
      then Some ''Maximum position notional exceeded''
      else if re_projectedLockedAttoWeth exposure > rl_maxTotalLockedAttoWeth limits
      then Some ''Maximum total locked capital exceeded''
      else if re_dailyGasSpentAttoWeth exposure > rl_maxDailyGasSpendAttoWeth limits
      then Some ''Maximum UTC-day gas spend budget exceeded''
      else None)"

record GasExpenditure =
  ge_costEth :: string
  ge_minedAt :: string

record RecordedRiskPosition =
  rp_actualEntryGasCostEth :: string
  rp_capitalAtRiskWeth :: string
  rp_gasExpenditures :: "GasExpenditure list"
  rp_lifecycleGasCostEth :: string
  rp_lifecycleUpdatedAt :: "string option"
  rp_openedAt :: string
  rp_status :: string

text \<open>A sum whose terms may throw, left to right.\<close>

fun sumR :: "('a \<Rightarrow> int result) \<Rightarrow> 'a list \<Rightarrow> int result" where
  "sumR f [] = ok 0"
| "sumR f (x # xs) = bindR (f x) (\<lambda>v. bindR (sumR f xs) (\<lambda>s. ok (v + s)))"

definition utcDayGasSpentWeth :: "RecordedRiskPosition list \<Rightarrow> string \<Rightarrow> int result" where
  "utcDayGasSpentWeth positions now =
     (let day = take 10 now in
      sumR (\<lambda>position. sumR (\<lambda>expenditure.
          if take 10 (ge_minedAt expenditure) = day then parseDecimalWeth (ge_costEth expenditure) else ok 0)
        (rp_gasExpenditures position)) positions)"

definition positionRiskLimitMismatch ::
  "int \<Rightarrow> RecordedRiskPosition list \<Rightarrow> int \<Rightarrow> RiskLimits \<Rightarrow> string \<Rightarrow> string option result" where
  "positionRiskLimitMismatch capitalAtRisk positions projectedGasCost limits now =
     (let openPositions = filter (\<lambda>position. positionConsumesRisk (rp_status position)) positions in
      bindR (sumR (\<lambda>position. parseDecimalWeth (rp_capitalAtRiskWeth position)) openPositions) (\<lambda>locked.
      bindR (utcDayGasSpentWeth positions now) (\<lambda>dailyGasSpent.
      ok (riskLimitMismatch
        \<lparr>re_capitalAtRiskAttoWeth = capitalAtRisk,
         re_concurrentPositions = int (length openPositions),
         re_dailyGasSpentAttoWeth = dailyGasSpent + projectedGasCost,
         re_projectedLockedAttoWeth = locked + capitalAtRisk\<rparr> limits))))"

section \<open>Venue quotes\<close>

lemma exactInput_ok_iff:
  "constantProductExactInput a rin rout = ok b \<longleftrightarrow>
     0 < a \<and> 0 < rin \<and> 0 < rout \<and> b = (a * 997 * rout) div (rin * 1000 + a * 997)"
  by (auto simp: constantProductExactInput_def bigint_simps Let_def)

text \<open>The output reaches an amount exactly when the net input clears the curve.\<close>

lemma exactInput_reaches_iff:
  assumes "constantProductExactInput a rin rout = ok b"
  shows "out \<le> b \<longleftrightarrow> rin * out * 1000 \<le> a * ((rout - out) * 997)"
  using assms by (auto simp: exactInput_ok_iff le_div_iff algebra_simps)

lemma exactOutput_ok_iff:
  "constantProductExactOutput out rin rout = ok q \<longleftrightarrow>
     0 < out \<and> 0 < rin \<and> out < rout \<and> q = (rin * out * 1000) div ((rout - out) * 997) + 1"
  by (auto simp: constantProductExactOutput_def bigint_simps bindR_eq_Inr_iff)

interpretation venue_swap: swap_curve "\<lambda>f::unit. True" "\<lambda>f rin rout a. constantProductExactInput a rin rout"
proof unfold_locales
  fix f :: unit and rin rout a b :: int
  assume pos: "0 < rin" "0 < rout" "0 < a" and out: "constantProductExactInput a rin rout = ok b"
  have b: "0 \<le> b"
    using pos out by (auto simp: exactInput_ok_iff pos_imp_zdiv_nonneg_iff)
  have "rin * b * 1000 \<le> a * ((rout - b) * 997)"
    using exactInput_reaches_iff [OF out, of b] by simp
  then have "1000 * (b * (rin + a)) \<le> 997 * (rout * a) + 3 * (a * b)"
    by (simp add: algebra_simps)
  moreover have "b \<le> rout"
  proof (rule ccontr)
    assume "\<not> b \<le> rout"
    then have "a * ((rout - b) * 997) < 0"
      using pos by (simp add: mult_less_0_iff)
    moreover have "0 \<le> rin * b * 1000" using pos b by simp
    moreover have "rin * b * 1000 \<le> a * ((rout - b) * 997)"
      using exactInput_reaches_iff [OF out, of b] by simp
    ultimately show False by linarith
  qed
  then have "a * b \<le> rout * a" using pos by (simp add: mult.commute)
  ultimately show "0 \<le> b \<and> b * (rin + a) \<le> rout * a" using b by linarith
qed

text \<open>
  The exact-output quote of a constant-product venue is sufficient and tight. Paying the
  quoted input into the same pool returns at least the wanted amount and never the whole
  reserve, and any payment two or more units smaller returns less than wanted.
\<close>

lemma exact_output_quote_sufficient:
  assumes "constantProductExactOutput amountOut reserveIn reserveOut = ok quoted"
  shows "(case constantProductExactInput quoted reserveIn reserveOut of Inl e \<Rightarrow> False
           | Inr out \<Rightarrow> amountOut \<le> out \<and> out < reserveOut) \<and>
    (0 < smaller \<and> smaller \<le> quoted - 2 \<longrightarrow>
      (case constantProductExactInput smaller reserveIn reserveOut of Inl e \<Rightarrow> False
       | Inr out \<Rightarrow> out < amountOut))"
proof -
  let ?n = "reserveIn * amountOut * 1000" and ?d = "(reserveOut - amountOut) * 997"
  have pos: "0 < amountOut" "0 < reserveIn" "amountOut < reserveOut" and quoted: "quoted = ?n div ?d + 1"
    using assms by (auto simp: exactOutput_ok_iff)
  have d: "0 < ?d" using pos by simp
  have "0 \<le> ?n div ?d" using pos d by (intro pos_imp_zdiv_nonneg_iff [THEN iffD2]) auto
  then have q: "0 < quoted" using quoted by simp
  have enough: "?n \<le> quoted * ?d"
    using less_div_succ_mult [OF d, of ?n] quoted by simp
  obtain out where out: "constantProductExactInput quoted reserveIn reserveOut = ok out"
    using q pos by (auto simp: exactInput_ok_iff)
  moreover have "amountOut \<le> out" using exactInput_reaches_iff [OF out] enough by simp
  moreover have "out < reserveOut" using venue_swap.solvent [OF _ _ _ q out] pos by simp
  moreover have "(case constantProductExactInput smaller reserveIn reserveOut of Inl e \<Rightarrow> False
      | Inr out \<Rightarrow> out < amountOut)" if smaller: "0 < smaller" "smaller \<le> quoted - 2"
  proof -
    obtain less where less: "constantProductExactInput smaller reserveIn reserveOut = ok less"
      using smaller pos by (auto simp: exactInput_ok_iff)
    have "smaller * ?d \<le> (?n div ?d - 1) * ?d"
      using smaller quoted d by (intro mult_right_mono) auto
    also have "\<dots> < ?n" using div_mult_le_self [OF d, of ?n] d by (simp add: left_diff_distrib)
    finally show ?thesis using exactInput_reaches_iff [OF less, of amountOut] less by simp
  qed
  ultimately show ?thesis by simp
qed

lemma exact_output_quote_sufficient_example:
  "case constantProductExactOutput 7 1000 2000 of Inl e \<Rightarrow> False | Inr quoted \<Rightarrow>
     (case constantProductExactInput quoted 1000 2000 of Inl e \<Rightarrow> False | Inr out \<Rightarrow> 7 \<le> out \<and> out < 2000) \<and>
     (0 < (2::int) \<and> 2 \<le> quoted - 2 \<longrightarrow>
       (case constantProductExactInput 2 1000 2000 of Inl e \<Rightarrow> False | Inr out \<Rightarrow> out < 7))"
proof -
  have "constantProductExactOutput 7 1000 2000 = ok 4" by code_simp
  from exact_output_quote_sufficient [OF this, of 2] this show ?thesis by simp
qed

text \<open>The selected venue is one of the quoted ones, and none is cheaper.\<close>

lemma foldl_best:
  fixes c :: "'a \<Rightarrow> int"
  shows "foldl (\<lambda>best q. case best of None \<Rightarrow> Some q | Some b \<Rightarrow> if c q < c b then Some q else Some b) (Some b) qs = Some r \<Longrightarrow>
    r \<in> insert b (set qs) \<and> c r \<le> c b \<and> (\<forall>q \<in> set qs. c r \<le> c q)"
proof (induction qs arbitrary: b)
  case (Cons q qs)
  show ?case
  proof (cases "c q < c b")
    case True
    then show ?thesis using Cons.IH [of q] Cons.prems by auto
  next
    case False
    then show ?thesis using Cons.IH [of b] Cons.prems by auto
  qed
qed simp

lemma foldl_best_some:
  "foldl (\<lambda>best q. case best of None \<Rightarrow> Some q | Some b \<Rightarrow> if c q < (c b::int) then Some q else Some b) (Some b) qs \<noteq> None"
  by (induction qs arbitrary: b) auto

lemma selectBestVenueQuote_spec:
  shows selectBest_None_iff: "selectBestVenueQuote d qs = None \<longleftrightarrow> qs = []"
    and selectBest_Some: "selectBestVenueQuote d qs = Some r \<Longrightarrow>
      r \<in> set qs \<and> (\<forall>q \<in> set qs. venueCost d r \<le> venueCost d q)"
proof -
  show "selectBestVenueQuote d qs = None \<longleftrightarrow> qs = []"
    by (cases qs) (simp_all add: selectBestVenueQuote_def foldl_best_some)
  show "selectBestVenueQuote d qs = Some r \<Longrightarrow> r \<in> set qs \<and> (\<forall>q \<in> set qs. venueCost d r \<le> venueCost d q)"
    using foldl_best [of "venueCost d"] by (cases qs) (auto simp: selectBestVenueQuote_def)
qed

section \<open>Funding and profit\<close>

lemma hedgeLimit_ok_iff:
  assumes "0 \<le> quoted"
  shows "hedgeWethLimitAttoEth d quoted bps = ok limit \<longleftrightarrow> 0 \<le> bps \<and> bps \<le> 10000 \<and>
    limit = (if d = SellRep then (quoted * (10000 - bps)) div 10000 else ceil_quot (quoted * (10000 + bps)) 10000)"
  using assms by (auto simp: hedgeWethLimitAttoEth_def sdiv_nonneg ceil_quot_def)

lemma hedgeReserve_ok_iff:
  "hedgeSlippageReserveAttoWeth d quoted bps = ok reserve \<longleftrightarrow>
    (\<exists>limit. hedgeWethLimitAttoEth d quoted bps = ok limit \<and>
      reserve = (if d = SellRep then quoted - limit else limit - quoted))"
  by (auto simp: hedgeSlippageReserveAttoWeth_def bindR_eq_Inr_iff)

lemma hedgeReserve_nonneg:
  assumes "0 \<le> quoted" and "hedgeSlippageReserveAttoWeth d quoted bps = ok reserve"
  shows "0 \<le> reserve"
proof -
  have "quoted * (10000 - bps) div 10000 \<le> quoted" if "0 \<le> bps"
  proof -
    have "quoted * (10000 - bps) \<le> quoted * 10000"
      using assms(1) that by (intro mult_left_mono) auto
    then show ?thesis using div_less_iff [of 10000 "quoted * (10000 - bps)" "quoted + 1"] by simp
  qed
  moreover have "quoted \<le> ceil_quot (quoted * (10000 + bps)) 10000" if "0 \<le> bps"
  proof -
    have "quoted = ceil_quot (quoted * 10000) 10000" by (simp add: ceil_quot_exact)
    also have "\<dots> \<le> ceil_quot (quoted * (10000 + bps)) 10000"
      using assms(1) that by (intro ceil_quot_mono mult_left_mono) auto
    finally show ?thesis .
  qed
  ultimately show ?thesis
    using assms by (auto simp: hedgeReserve_ok_iff hedgeLimit_ok_iff split: if_splits)
qed

text \<open>The quote of a direction.\<close>

definition evaluate_direction :: "ArbitrageDirection \<Rightarrow> OpenOracleGame \<Rightarrow> int \<Rightarrow> int \<Rightarrow> ArbitrageQuote" where
  "evaluate_direction d = (case d of SellRep \<Rightarrow> evaluateSellRep | BuyRep \<Rightarrow> evaluateBuyRep)"

text \<open>
  The profit a position finally books is at least the one that justified opening it. The
  hedge may fill at any price within the signed slippage limit; then the realised net profit,
  after the entry and lifecycle gas and with any settler reward, is no less than the adjusted
  estimate, which already set the slippage reserve aside. The profit rebuilt after a restart
  from the quoted and the actual hedge is the one computed directly.
\<close>

lemma realised_profit_at_least_adjusted:
  assumes "0 \<le> quoted" and "0 \<le> settlerReward"
    and limit: "hedgeWethLimitAttoEth d quoted bps = ok limit"
    and reserve: "hedgeSlippageReserveAttoWeth d quoted bps = ok slippageReserve"
    and filled: "if d = SellRep then limit \<le> actual else actual \<le> limit"
  shows "let profit = aq_profitBeforeGasAttoWeth (evaluate_direction d game quoted gas);
      booked = hedgedProfitBeforeGasWeth d actual (og_currentAmount1 game)
        (calculateFee (og_currentAmount1 game) (og_feePercentage game))
        (calculateFee (og_currentAmount1 game) (og_protocolFee game))
    in 0 \<le> slippageReserve \<and>
       recoveredHedgedProfitBeforeGasWeth d profit quoted actual = booked \<and>
       adjustedNetProfitWeth entryGas slippageReserve lifecycleGas profit
         \<le> realizedNetProfitWeth booked settlerReward entryGas lifecycleGas"
proof -
  have "slippageReserve = (if d = SellRep then quoted - limit else limit - quoted)"
    using reserve limit by (auto simp: hedgeReserve_ok_iff)
  then show ?thesis
    using hedgeReserve_nonneg [OF assms(1) reserve] assms(2) filled
    by (cases d) (auto simp: Let_def evaluate_direction_def evaluateSellRep_def evaluateBuyRep_def
        recoveredHedgedProfitBeforeGasWeth_def hedgedProfitBeforeGasWeth_def adjustedNetProfitWeth_def
        realizedNetProfitWeth_def)
qed

definition sample_game :: OpenOracleGame where
  "sample_game = \<lparr>og_callbackContract = ''0xc0'', og_callbackGasLimit = 900000,
     og_currentAmount1 = 1000, og_currentAmount2 = 5000, og_currentReporter = ''0xaa'', og_disputeDelay = 5,
     og_escalationHalt = 100000, og_feePercentage = 10000, og_flags = 5, og_lastReportOppoTime = 0, og_multiplier = 140,
     og_numReports = 1, og_protocolFee = 20000, og_protocolFeeRecipient = ''0xfe'', og_reportTimestamp = 10,
     og_settlementTime = 300, og_settlementTimestamp = 0, og_settlerRewardAttoEth = 7, og_token1 = ''0x01'', og_token2 = ''0x02''\<rparr>"

lemma realised_profit_at_least_adjusted_example:
  "let profit = aq_profitBeforeGasAttoWeth (evaluate_direction SellRep sample_game 1200 50);
      booked = hedgedProfitBeforeGasWeth SellRep 1190 1000 (calculateFee 1000 10000) (calculateFee 1000 20000)
    in (0::int) \<le> 12 \<and> recoveredHedgedProfitBeforeGasWeth SellRep profit 1200 1190 = booked \<and>
       adjustedNetProfitWeth 50 12 30 profit \<le> realizedNetProfitWeth booked 7 50 30"
proof -
  have "hedgeWethLimitAttoEth SellRep 1200 100 = ok 1188" and "hedgeSlippageReserveAttoWeth SellRep 1200 100 = ok 12"
    by code_simp+
  from realised_profit_at_least_adjusted [OF _ _ this, of 7 1190 sample_game 50 50 30]
  show ?thesis by (simp add: sample_game_def)
qed

lemma executorFunding_buy:
  assumes "toLowerCase (deriveTokenToSwap game new1 new2) \<noteq> toLowerCase (og_token1 game)" and "0 \<le> new2"
  shows "executorFunding game new1 new2 limit =
    ok \<lparr>ta_token1 = max 0 (new1 - og_currentAmount1 game) + limit, ta_token2 = new2\<rparr>"
  using assms by (simp add: executorFunding_def calculateContribution_def Let_def minmax_simps)

lemma executorFunding_sell:
  assumes "toLowerCase (deriveTokenToSwap game new1 new2) = toLowerCase (og_token1 game)"
  shows "executorFunding game new1 new2 limit =
    ok \<lparr>ta_token1 = new1 + aq_hedgeCostAttoWeth (evaluateSellRep game q g), ta_token2 = max (og_currentAmount2 game) new2\<rparr>"
  using assms by (auto simp: executorFunding_def calculateContribution_def Let_def evaluateSellRep_def)

definition funding_direction :: "OpenOracleGame \<Rightarrow> int \<Rightarrow> int \<Rightarrow> ArbitrageDirection" where
  "funding_direction game new1 new2 =
     (if toLowerCase (deriveTokenToSwap game new1 new2) = toLowerCase (og_token1 game) then SellRep else BuyRep)"

text \<open>
  Funding a dispute never fails on a report with a non-negative second amount, so the
  guard against a hedge larger than the contribution is never reached. The REP that is funded
  is exactly the REP that position accounting later expects to withdraw, and the WETH covers
  the new first amount in both directions (selling also covers the swap cost the quote
  charges, buying the signed hedge limit).
\<close>

lemma executor_funding_total:
  assumes "0 \<le> new2"
  shows "case executorFunding game new1 new2 limit of Inl e \<Rightarrow> False
    | Inr funding \<Rightarrow>
        ta_token2 funding = expectedWithdrawalToken2 (funding_direction game new1 new2) (og_currentAmount2 game) new2 \<and>
        (case funding_direction game new1 new2 of
           SellRep \<Rightarrow> ta_token1 funding = new1 + aq_hedgeCostAttoWeth (evaluateSellRep game quoted gas)
         | BuyRep \<Rightarrow> new1 + limit \<le> ta_token1 funding + og_currentAmount1 game \<and> limit \<le> ta_token1 funding)"
proof (cases "toLowerCase (deriveTokenToSwap game new1 new2) = toLowerCase (og_token1 game)")
  case True
  then show ?thesis
    by (simp add: executorFunding_sell [where q = quoted and g = gas] funding_direction_def
        expectedWithdrawalToken2_def max_def)
next
  case False
  then show ?thesis
    using assms by (simp add: executorFunding_buy funding_direction_def expectedWithdrawalToken2_def max_def)
qed

lemma executor_funding_total_example:
  "case executorFunding sample_game 1400 6000 900 of Inl e \<Rightarrow> False
    | Inr funding \<Rightarrow>
        ta_token2 funding = expectedWithdrawalToken2 (funding_direction sample_game 1400 6000) (og_currentAmount2 sample_game) 6000 \<and>
        (case funding_direction sample_game 1400 6000 of
           SellRep \<Rightarrow> ta_token1 funding = 1400 + aq_hedgeCostAttoWeth (evaluateSellRep sample_game 1200 50)
         | BuyRep \<Rightarrow> 1400 + 900 \<le> ta_token1 funding + og_currentAmount1 sample_game \<and> 900 \<le> ta_token1 funding)"
  by (rule executor_funding_total) simp

section \<open>Risk limits and report policy\<close>

lemma sumR_append: "sumR f (xs @ ys) = bindR (sumR f xs) (\<lambda>a. bindR (sumR f ys) (\<lambda>b. ok (a + b)))"
  by (induction xs) (simp_all add: bindR_def split: sum.split)

lemma riskLimitMismatch_None_iff:
  "riskLimitMismatch e l = None \<longleftrightarrow> re_concurrentPositions e < rl_maxConcurrentPositions l \<and>
     re_capitalAtRiskAttoWeth e \<le> rl_maxPositionNotionalAttoWeth l \<and>
     re_projectedLockedAttoWeth e \<le> rl_maxTotalLockedAttoWeth l \<and>
     re_dailyGasSpentAttoWeth e \<le> rl_maxDailyGasSpendAttoWeth l"
  by (auto simp: riskLimitMismatch_def)

text \<open>
  A position the risk check admits keeps every limit once it is in the ledger. After the
  record is appended with the capital and the gas the check was given, the number of open
  positions, the capital of this position, the locked capital of all open positions and the
  gas spent in the UTC day are all within the configured limits.
\<close>

lemma risk_limits_hold_after_opening:
  assumes "positionRiskLimitMismatch capital positions gas limits now = ok None"
    and "positionConsumesRisk (rp_status opened)" and "parseDecimalWeth (rp_capitalAtRiskWeth opened) = ok capital"
    and "rp_gasExpenditures opened = [entry]" and "take 10 (ge_minedAt entry) = take 10 now"
    and "parseDecimalWeth (ge_costEth entry) = ok gas"
  shows "let ledger = positions @ [opened]; atRisk = filter (\<lambda>p. positionConsumesRisk (rp_status p)) ledger in
    int (length atRisk) \<le> rl_maxConcurrentPositions limits \<and> capital \<le> rl_maxPositionNotionalAttoWeth limits \<and>
    (case sumR (\<lambda>p. parseDecimalWeth (rp_capitalAtRiskWeth p)) atRisk of
       Inl e \<Rightarrow> False | Inr locked \<Rightarrow> locked \<le> rl_maxTotalLockedAttoWeth limits) \<and>
    (case utcDayGasSpentWeth ledger now of Inl e \<Rightarrow> False | Inr spent \<Rightarrow> spent \<le> rl_maxDailyGasSpendAttoWeth limits)"
proof -
  let ?open = "filter (\<lambda>p. positionConsumesRisk (rp_status p)) positions"
  let ?locked = "\<lambda>p. parseDecimalWeth (rp_capitalAtRiskWeth p)"
  from assms(1) [unfolded positionRiskLimitMismatch_def Let_def] obtain locked spent where
      locked: "sumR ?locked ?open = ok locked" and spent: "utcDayGasSpentWeth positions now = ok spent"
    and "riskLimitMismatch \<lparr>re_capitalAtRiskAttoWeth = capital, re_concurrentPositions = int (length ?open),
        re_dailyGasSpentAttoWeth = spent + gas, re_projectedLockedAttoWeth = locked + capital\<rparr> limits = None"
    by (elim bindR_okE) simp
  then have within: "int (length ?open) < rl_maxConcurrentPositions limits" "capital \<le> rl_maxPositionNotionalAttoWeth limits"
      "locked + capital \<le> rl_maxTotalLockedAttoWeth limits" "spent + gas \<le> rl_maxDailyGasSpendAttoWeth limits"
    by (simp_all add: riskLimitMismatch_None_iff)
  have "sumR ?locked (?open @ [opened]) = ok (locked + capital)"
    using locked assms(3) by (simp add: sumR_append)
  moreover have "utcDayGasSpentWeth (positions @ [opened]) now = ok (spent + gas)"
    using spent assms(4-6) unfolding utcDayGasSpentWeth_def Let_def by (simp add: sumR_append)
  ultimately show ?thesis using within assms(2) unfolding Let_def by simp
qed

lemma risk_limits_hold_after_opening_example:
  "let opened = \<lparr>rp_actualEntryGasCostEth = ''0.01'', rp_capitalAtRiskWeth = ''1.5'', rp_gasExpenditures =
        [\<lparr>ge_costEth = ''0.01'', ge_minedAt = ''2026-01-02T03:04:05.000Z''\<rparr>],
        rp_lifecycleGasCostEth = ''0'', rp_lifecycleUpdatedAt = None, rp_openedAt = ''2026-01-02T03:04:05.000Z'',
        rp_status = ''open''\<rparr>;
      ledger = [] @ [opened]; atRisk = filter (\<lambda>p. positionConsumesRisk (rp_status p)) ledger;
      limits = DEFAULT_RISK_LIMITS in
    int (length atRisk) \<le> rl_maxConcurrentPositions limits \<and> 15 * 10 ^ 17 \<le> rl_maxPositionNotionalAttoWeth limits \<and>
    (case sumR (\<lambda>p. parseDecimalWeth (rp_capitalAtRiskWeth p)) atRisk of
       Inl e \<Rightarrow> False | Inr locked \<Rightarrow> locked \<le> rl_maxTotalLockedAttoWeth limits) \<and>
    (case utcDayGasSpentWeth ledger ''2026-01-02T10:00:00.000Z'' of
       Inl e \<Rightarrow> False | Inr spent \<Rightarrow> spent \<le> rl_maxDailyGasSpendAttoWeth limits)"
proof -
  have capital: "parseDecimalWeth ''1.5'' = ok (15 * 10 ^ 17)" and gas: "parseDecimalWeth ''0.01'' = ok (10 ^ 16)"
    by (simp_all add: parseDecimalWeth_def is_decimal_def whole_part_def fraction_part_def all_digits_def is_digit_def
        digits_value_padEnd) (simp_all add: digits_value_def digit_value_def)
  have "positionRiskLimitMismatch (15 * 10 ^ 17) [] (10 ^ 16) DEFAULT_RISK_LIMITS ''2026-01-02T10:00:00.000Z'' = ok None"
    by (simp add: positionRiskLimitMismatch_def utcDayGasSpentWeth_def riskLimitMismatch_def DEFAULT_RISK_LIMITS_def)
  from risk_limits_hold_after_opening [OF this, of "\<lparr>rp_actualEntryGasCostEth = ''0.01'', rp_capitalAtRiskWeth = ''1.5'', rp_gasExpenditures =
        [\<lparr>ge_costEth = ''0.01'', ge_minedAt = ''2026-01-02T03:04:05.000Z''\<rparr>],
        rp_lifecycleGasCostEth = ''0'', rp_lifecycleUpdatedAt = None, rp_openedAt = ''2026-01-02T03:04:05.000Z'',
        rp_status = ''open''\<rparr>"
      "\<lparr>ge_costEth = ''0.01'', ge_minedAt = ''2026-01-02T03:04:05.000Z''\<rparr>"] capital gas
  show ?thesis unfolding Let_def by (simp add: positionConsumesRisk_def)
qed

lemma fieldMismatch_None [simp]: "fieldMismatch a e n = None \<longleftrightarrow> a = e"
  by (simp add: fieldMismatch_def)

lemma coordinatorPolicySafety_None_iff:
  "coordinatorPolicySafetyMismatch p = None \<longleftrightarrow> cp_flags p AND OPEN_ORACLE_FLAG_STORE_ALL \<noteq> 0 \<and>
     cp_callbackGasLimit p \<le> MAX_SAFE_CALLBACK_GAS_LIMIT \<and>
     cp_settlementTime p \<le> (if cp_flags p AND OPEN_ORACLE_FLAG_TIME_TYPE = 0 then MAX_SAFE_SETTLEMENT_BLOCKS
       else MAX_SAFE_SETTLEMENT_SECONDS) \<and> cp_multiplier p \<le> MAX_SAFE_MULTIPLIER"
  by (auto simp: coordinatorPolicySafetyMismatch_def Let_def)

text \<open>The terms of a report an approved coordinator fixes.\<close>

definition report_follows_policy :: "OpenOracleStatePreimage \<Rightarrow> CoordinatorGamePolicy \<Rightarrow> bool" where
  "report_follows_policy report policy \<longleftrightarrow> (let game = sp_game report in
     sameText (cp_coordinator policy) (oh_creator (sp_helper report)) \<and>
     sameText (og_callbackContract game) (cp_coordinator policy) \<and>
     sameText (og_token1 game) (cp_token1 policy) \<and> sameText (og_token2 game) (cp_token2 policy) \<and>
     sameText (og_protocolFeeRecipient game) (cp_protocolFeeRecipient policy) \<and>
     og_callbackGasLimit game = cp_callbackGasLimit policy \<and> og_settlementTime game = cp_settlementTime policy \<and>
     og_disputeDelay game = cp_disputeDelay policy \<and> og_feePercentage game = cp_feePercentage policy \<and>
     og_protocolFee game = cp_protocolFee policy \<and> og_multiplier game = cp_multiplier policy \<and>
     og_flags game = cp_flags policy)"

text \<open>
  A report the arbitrager does not reject was created by an approved coordinator bound to
  the expected oracle, carries the coordinator's terms without exception, stores its state,
  and stays within the callback gas, settlement time and multiplier bounds, which therefore
  hold of the report itself.
\<close>

lemma accepted_report_is_safe:
  assumes "gamePolicyMismatch report policies expectedOpenOracle = None"
  shows "(\<exists>policy \<in> set policies. sameText (cp_openOracle policy) expectedOpenOracle \<and> report_follows_policy report policy) \<and>
    og_flags (sp_game report) AND OPEN_ORACLE_FLAG_STORE_ALL \<noteq> 0 \<and>
    og_callbackGasLimit (sp_game report) \<le> MAX_SAFE_CALLBACK_GAS_LIMIT \<and>
    og_settlementTime (sp_game report) \<le> MAX_SAFE_SETTLEMENT_SECONDS \<and>
    (og_flags (sp_game report) AND OPEN_ORACLE_FLAG_TIME_TYPE = 0 \<longrightarrow>
       og_settlementTime (sp_game report) \<le> MAX_SAFE_SETTLEMENT_BLOCKS) \<and>
    og_multiplier (sp_game report) \<le> MAX_SAFE_MULTIPLIER"
proof -
  obtain policy where found: "List.find (\<lambda>c. sameText (cp_coordinator c) (oh_creator (sp_helper report))) policies = Some policy"
    using assms by (auto simp: gamePolicyMismatch_def split: option.splits)
  have policy: "policy \<in> set policies" "sameText (cp_coordinator policy) (oh_creator (sp_helper report))"
    using find_Some_in [OF found] by auto
  have safe: "coordinatorPolicySafetyMismatch policy = None" and bound: "sameText (cp_openOracle policy) expectedOpenOracle"
    and follows: "report_follows_policy report policy"
    using assms found policy(2)
    by (auto simp: gamePolicyMismatch_def Let_def report_follows_policy_def split: if_splits)
  have "MAX_SAFE_SETTLEMENT_BLOCKS \<le> MAX_SAFE_SETTLEMENT_SECONDS"
    by (simp add: MAX_SAFE_SETTLEMENT_BLOCKS_def MAX_SAFE_SETTLEMENT_SECONDS_def)
  with safe follows have bounds: "og_flags (sp_game report) AND OPEN_ORACLE_FLAG_STORE_ALL \<noteq> 0"
    "og_callbackGasLimit (sp_game report) \<le> MAX_SAFE_CALLBACK_GAS_LIMIT"
    "og_settlementTime (sp_game report) \<le> MAX_SAFE_SETTLEMENT_SECONDS"
    "og_flags (sp_game report) AND OPEN_ORACLE_FLAG_TIME_TYPE = 0 \<longrightarrow>
       og_settlementTime (sp_game report) \<le> MAX_SAFE_SETTLEMENT_BLOCKS"
    "og_multiplier (sp_game report) \<le> MAX_SAFE_MULTIPLIER"
    by (auto simp: coordinatorPolicySafety_None_iff report_follows_policy_def Let_def split: if_splits)
  with policy bound follows show ?thesis by blast
qed

definition sample_policy :: CoordinatorGamePolicy where
  "sample_policy = \<lparr>cp_callbackGasLimit = 900000, cp_coordinator = ''0xc0'', cp_disputeDelay = 5, cp_feePercentage = 10000,
     cp_flags = 5, cp_multiplier = 140, cp_openOracle = ''0x00'', cp_protocolFee = 20000, cp_protocolFeeRecipient = ''0xfe'',
     cp_settlementTime = 300, cp_token1 = ''0x01'', cp_token2 = ''0x02''\<rparr>"

definition sample_report :: "int \<Rightarrow> OpenOracleStatePreimage" where
  "sample_report reportId = \<lparr>sp_game = sample_game, sp_helper =
     \<lparr>oh_blockNumber = 12, oh_blockTimestamp = 13, oh_creator = ''0xC0'', oh_reportId = reportId\<rparr>\<rparr>"

lemma accepted_report_is_safe_example:
  "(\<exists>policy \<in> set [sample_policy]. sameText (cp_openOracle policy) ''0x00'' \<and> report_follows_policy (sample_report 1) policy) \<and>
    og_flags (sp_game (sample_report 1)) AND OPEN_ORACLE_FLAG_STORE_ALL \<noteq> 0 \<and>
    og_callbackGasLimit (sp_game (sample_report 1)) \<le> MAX_SAFE_CALLBACK_GAS_LIMIT \<and>
    og_settlementTime (sp_game (sample_report 1)) \<le> MAX_SAFE_SETTLEMENT_SECONDS \<and>
    og_multiplier (sp_game (sample_report 1)) \<le> MAX_SAFE_MULTIPLIER"
proof -
  have "gamePolicyMismatch (sample_report 1) [sample_policy] ''0x00'' = None" by code_simp
  from accepted_report_is_safe [OF this] show ?thesis by blast
qed

text \<open>Newer reports sort first.\<close>

interpretation newest_first: comparator newestFirst
  by unfold_locales (auto simp: newestFirst_def split: if_splits)

lemma newestFirst_le_iff: "newestFirst a b \<le> 0 \<longleftrightarrow> b \<le> a"
  by (simp add: newestFirst_def)

lemma take_sorted_wrt_ge:
  assumes "sorted_wrt (\<lambda>x y. newestFirst x y \<le> 0) xs" and "distinct xs"
    and "kept \<in> set (take n xs)" and "dropped \<in> set xs" and "dropped \<notin> set (take n xs)"
  shows "dropped < (kept::int)"
proof -
  have "dropped \<in> set (drop n xs)"
    using assms(4,5) by (metis append_take_drop_id Un_iff set_append)
  moreover have "sorted_wrt (\<lambda>x y. newestFirst x y \<le> 0) (take n xs @ drop n xs)"
    using assms(1) by simp
  ultimately have "dropped \<le> kept" using assms(3) unfolding sorted_wrt_append by (auto simp: newestFirst_le_iff)
  then show ?thesis using assms(3,5) by (metis order_le_imp_less_or_eq)
qed

text \<open>
  The reports an arbitrager keeps in memory are tracked ones. With approved coordinators
  they are exactly the tracked reports that pass the policy; without, at most the configured
  maximum, all of them when they fit, and every report it drops is older than every report it
  keeps.
\<close>

lemma retained_reports_are_newest:
  assumes "distinct (map fst reports)"
  shows "let kept = retainedReportIds reports policies expectedOracle maximum in
    set kept \<subseteq> fst ` set reports \<and> distinct kept \<and>
    (policies \<noteq> [] \<longrightarrow> (\<forall>(i, latest) \<in> set reports. i \<in> set kept \<longleftrightarrow> gamePolicyMismatch latest policies expectedOracle = None)) \<and>
    (policies = [] \<longrightarrow> length kept = min maximum (length reports) \<and>
       (\<forall>i \<in> set kept. \<forall>j \<in> fst ` set reports - set kept. j < i))"
proof (cases "policies = []")
  case True
  let ?xs = "js_sort newestFirst (map fst reports)"
  have "sorted_wrt (\<lambda>x y. newestFirst x y \<le> 0) ?xs" by (rule newest_first.sorted_js_sort)
  moreover have distinct: "distinct ?xs"
    using assms by (metis mset_eq_imp_distinct_iff mset_js_sort)
  ultimately have "\<forall>i \<in> set (take maximum ?xs). \<forall>j \<in> fst ` set reports - set (take maximum ?xs). j < i"
    using take_sorted_wrt_ge [of ?xs _ maximum] by (simp del: set_map add: set_map [symmetric])
  moreover have "set (take maximum ?xs) \<subseteq> fst ` set reports" by (auto dest: in_set_takeD)
  ultimately show ?thesis
    using True distinct by (simp add: retainedReportIds_def Let_def min.commute)
next
  case False
  have "i \<in> fst ` {x \<in> set reports. case x of (i, l) \<Rightarrow> gamePolicyMismatch l policies expectedOracle = None} \<longleftrightarrow>
      gamePolicyMismatch latest policies expectedOracle = None" if "(i, latest) \<in> set reports" for i latest
    using that assms by (force dest: eq_key_imp_eq_value)
  then show ?thesis
    using False assms by (auto simp: retainedReportIds_def distinct_map_filter)
qed

lemma retained_reports_are_newest_example:
  "let reports = [(4, sample_report 4), (9, sample_report 9), (6, sample_report 6)];
      kept = retainedReportIds reports [] ''0x00'' 2 in
    set kept \<subseteq> fst ` set reports \<and> distinct kept \<and>
    (([] :: CoordinatorGamePolicy list) \<noteq> [] \<longrightarrow> (\<forall>(i, latest) \<in> set reports. i \<in> set kept \<longleftrightarrow> gamePolicyMismatch latest [] ''0x00'' = None)) \<and>
    (([] :: CoordinatorGamePolicy list) = [] \<longrightarrow> length kept = min 2 (length reports) \<and>
       (\<forall>i \<in> set kept. \<forall>j \<in> fst ` set reports - set kept. j < i))"
  using retained_reports_are_newest [of "[(4, sample_report 4), (9, sample_report 9), (6, sample_report 6)]" "[]" "''0x00''" 2]
  unfolding Let_def by simp

end
