(* ===== verification/Tick_Price.thy ===== *)
theory Tick_Price
  imports Zoltar_Prelude Complex_Main
begin

unbundle bit_operations_syntax

text \<open>
  The price of a truth auction tick, \<open>shared/ts/truthAuctionTickMath.ts\<close>, and the supported
  ticks of the screens, \<open>ui/coreShared/ts/protocol/truthAuctionMath.ts\<close>. Tick \<open>n\<close> stands
  for the price \<open>1.0001^n\<close>, in fixed point with 18 decimals; the code multiplies tabulated
  powers and truncates after each step. The lemmas bound the accumulated error, from which the
  price is increasing in the tick, and every search below finds what it should.
\<close>

section \<open>The price of a tick\<close>

definition TRUTH_AUCTION_PRICE_PRECISION :: int where "TRUTH_AUCTION_PRICE_PRECISION = 10 ^ 18"
definition TRUTH_AUCTION_MIN_TICK :: int where "TRUTH_AUCTION_MIN_TICK = - 524288"
definition TRUTH_AUCTION_MAX_TICK :: int where "TRUTH_AUCTION_MAX_TICK = 524288"

definition TRUTH_AUCTION_TICK_PRICE_POWERS :: "int list" where
  "TRUTH_AUCTION_TICK_PRICE_POWERS =
     [1000100000000000000, 1000200010000000000, 1000400060004000100, 1000800280056007000, 1001601200560182043,
      1003204964963598014, 1006420201727613920, 1012881622445451097, 1025929181087729343, 1052530684607338948,
      1107820842039993613, 1227267018058200482, 1506184333613467388, 2268591246822644826, 5146506245160322222,
      26486526531474198664, 701536087702486644953, 492152882348911033633683, 242214459604341065650571799093,
      58667844441422969901301586347865591163491]"

definition getTruthAuctionTickPricePower :: "nat \<Rightarrow> int result" where
  "getTruthAuctionTickPricePower index =
     (if index < length TRUTH_AUCTION_TICK_PRICE_POWERS then ok (TRUTH_AUCTION_TICK_PRICE_POWERS ! index)
      else throw ''Auction tick price power index is out of bounds'')"

definition assertTruthAuctionTickInContractDomain :: "int \<Rightarrow> unit result" where
  "assertTruthAuctionTickInContractDomain tick =
     (if tick < TRUTH_AUCTION_MIN_TICK \<or> tick > TRUTH_AUCTION_MAX_TICK
      then throw ''Truth auction tick is outside the supported range.'' else ok ())"

text \<open>The loop over the bits of the absolute tick.\<close>

function price_loop :: "int \<Rightarrow> nat \<Rightarrow> int \<Rightarrow> int result" where
  "price_loop absoluteTick bitIndex price =
     (if bitIndex < length TRUTH_AUCTION_TICK_PRICE_POWERS then
        let bitMask = push_bit bitIndex 1 in
        bindR (if absoluteTick AND bitMask \<noteq> 0
               then bindR (getTruthAuctionTickPricePower bitIndex) (\<lambda>power. ok ((price * power) sdiv TRUTH_AUCTION_PRICE_PRECISION))
               else ok price)
          (\<lambda>price'. price_loop absoluteTick (bitIndex + 1) price')
      else ok price)"
  by pat_completeness auto
termination by (relation "measure (\<lambda>(_, i, _). length TRUTH_AUCTION_TICK_PRICE_POWERS - i)") auto

declare price_loop.simps [simp del]

definition tickToPrice :: "int \<Rightarrow> int result" where
  "tickToPrice tick =
     bindR (assertTruthAuctionTickInContractDomain tick) (\<lambda>_.
       let absoluteTick = (if tick < 0 then - tick else tick) in
       bindR (price_loop absoluteTick 0 TRUTH_AUCTION_PRICE_PRECISION) (\<lambda>price.
         if tick < 0 then bigDiv (TRUTH_AUCTION_PRICE_PRECISION * TRUTH_AUCTION_PRICE_PRECISION) price else ok price))"

text \<open>The binary search of \<open>priceToClosestTick\<close>: a tick on an exact hit, or the crossed bounds.\<close>

function closest_loop :: "int \<Rightarrow> int \<Rightarrow> int \<Rightarrow> (int + int \<times> int) result" where
  "closest_loop price lowerBoundTick upperBoundTick =
     (if lowerBoundTick \<le> upperBoundTick then
        let middleTick = (lowerBoundTick + upperBoundTick) sdiv 2 in
        bindR (tickToPrice middleTick) (\<lambda>middlePrice.
          if middlePrice = price then ok (Inl middleTick)
          else if middlePrice < price then closest_loop price (middleTick + 1) upperBoundTick
          else closest_loop price lowerBoundTick (middleTick - 1))
      else ok (Inr (lowerBoundTick, upperBoundTick)))"
  by pat_completeness auto
termination
proof (relation "measure (\<lambda>(_, l, u). nat (u - l + 1))")
  show "wf (measure (\<lambda>(_ :: int, l, u). nat (u - l + 1)))" by simp
qed (use bisect_mid_bounds in \<open>force+\<close>)

declare closest_loop.simps [simp del]

definition priceToClosestTick :: "int \<Rightarrow> int result" where
  "priceToClosestTick price =
     (if price \<le> 0 then throw ''price must be positive''
      else bindR (closest_loop price TRUTH_AUCTION_MIN_TICK TRUTH_AUCTION_MAX_TICK) (\<lambda>found.
        case found of
          Inl middleTick \<Rightarrow> ok middleTick
        | Inr (lowerBoundTick, upperBoundTick) \<Rightarrow>
            if lowerBoundTick > TRUTH_AUCTION_MAX_TICK then ok TRUTH_AUCTION_MAX_TICK
            else if upperBoundTick < TRUTH_AUCTION_MIN_TICK then ok TRUTH_AUCTION_MIN_TICK
            else
              bindR (tickToPrice lowerBoundTick) (\<lambda>priceAtLowerTick.
              bindR (tickToPrice upperBoundTick) (\<lambda>priceAtUpperTick.
                let distanceToLowerTick = (if priceAtLowerTick > price then priceAtLowerTick - price else price - priceAtLowerTick);
                    distanceToUpperTick = (if priceAtUpperTick > price then priceAtUpperTick - price else price - priceAtUpperTick)
                in ok (if distanceToLowerTick < distanceToUpperTick then lowerBoundTick else upperBoundTick)))))"

lemma strict_mid_bounds:
  assumes "1 < (upper :: int) - lower"
  shows "lower < (lower + upper) sdiv 2" and "(lower + upper) sdiv 2 < upper"
proof -
  have "lower < (lower + upper) sdiv 2 \<and> (lower + upper) sdiv 2 < upper"
  proof (cases "0 \<le> lower + upper")
    case True
    then show ?thesis using assms by (simp add: sdiv_nonneg) linarith
  next
    case False
    then have "(lower + upper) sdiv 2 = - ((- (lower + upper)) div 2)" by (simp add: sdiv_neg_num)
    then show ?thesis using assms by linarith
  qed
  then show "lower < (lower + upper) sdiv 2" and "(lower + upper) sdiv 2 < upper" by auto
qed

function min_supported_loop :: "int \<Rightarrow> int \<Rightarrow> (int \<times> int) result" where
  "min_supported_loop lowerTick upperTick =
     (if upperTick - lowerTick > 1 then
        let midTick = (lowerTick + upperTick) sdiv 2 in
        bindR (tickToPrice midTick) (\<lambda>midPrice.
          if midPrice > 0 then min_supported_loop lowerTick midTick else min_supported_loop midTick upperTick)
      else ok (lowerTick, upperTick))"
  by pat_completeness auto
termination
proof (relation "measure (\<lambda>(l, u). nat (u - l))")
  show "wf (measure (\<lambda>(l :: int, u). nat (u - l)))" by simp
qed (use strict_mid_bounds in \<open>force+\<close>)

declare min_supported_loop.simps [simp del]

definition findTruthAuctionMinSupportedTick :: "int result" where
  "findTruthAuctionMinSupportedTick =
     bindR (min_supported_loop TRUTH_AUCTION_MIN_TICK 0) (\<lambda>(lowerTick, upperTick).
     bindR (tickToPrice lowerTick) (\<lambda>lowerPrice. ok (if lowerPrice > 0 then lowerTick else upperTick)))"

section \<open>The supported ticks\<close>

definition TRUTH_AUCTION_MIN_SUPPORTED_TICK :: int where
  "TRUTH_AUCTION_MIN_SUPPORTED_TICK = (case findTruthAuctionMinSupportedTick of Inr tick \<Rightarrow> tick | Inl e \<Rightarrow> 0)"

definition assertTruthAuctionTickInRange :: "int \<Rightarrow> unit result" where
  "assertTruthAuctionTickInRange tick =
     (if tick < TRUTH_AUCTION_MIN_SUPPORTED_TICK \<or> tick > TRUTH_AUCTION_MAX_TICK
      then throw ''Truth auction tick is outside the supported range.'' else ok ())"

definition getTruthAuctionPriceAtTick :: "int \<Rightarrow> int result" where
  "getTruthAuctionPriceAtTick tick = bindR (assertTruthAuctionTickInRange tick) (\<lambda>_. tickToPrice tick)"

function floor_tick_loop :: "int \<Rightarrow> int \<Rightarrow> int \<Rightarrow> int result" where
  "floor_tick_loop price lowerTick upperTick =
     (if upperTick - lowerTick > 1 then
        let midTick = (lowerTick + upperTick) sdiv 2 in
        bindR (getTruthAuctionPriceAtTick midTick) (\<lambda>midPrice.
          if midPrice \<le> price then floor_tick_loop price midTick upperTick
          else floor_tick_loop price lowerTick midTick)
      else ok lowerTick)"
  by pat_completeness auto
termination
proof (relation "measure (\<lambda>(_, l, u). nat (u - l))")
  show "wf (measure (\<lambda>(_ :: int, l :: int, u). nat (u - l)))" by simp
qed (use strict_mid_bounds in \<open>force+\<close>)

declare floor_tick_loop.simps [simp del]

definition getTruthAuctionTickAtPrice :: "int \<Rightarrow> int option result" where
  "getTruthAuctionTickAtPrice price =
     bindR (getTruthAuctionPriceAtTick TRUTH_AUCTION_MAX_TICK) (\<lambda>TRUTH_AUCTION_MAX_PRICE.
     bindR (getTruthAuctionPriceAtTick TRUTH_AUCTION_MIN_SUPPORTED_TICK) (\<lambda>TRUTH_AUCTION_MIN_PRICE.
       if price \<le> 0 \<or> price < TRUTH_AUCTION_MIN_PRICE \<or> price > TRUTH_AUCTION_MAX_PRICE then ok None
       else if price = TRUTH_AUCTION_PRICE_PRECISION then ok (Some 0)
       else if price = TRUTH_AUCTION_MAX_PRICE then ok (Some TRUTH_AUCTION_MAX_TICK)
       else if price \<ge> TRUTH_AUCTION_PRICE_PRECISION then
         bindR (floor_tick_loop price 0 TRUTH_AUCTION_MAX_TICK) (\<lambda>tick. ok (Some tick))
       else bindR (floor_tick_loop price TRUTH_AUCTION_MIN_SUPPORTED_TICK 0) (\<lambda>tick. ok (Some tick))))"

section \<open>Accuracy\<close>

text \<open>
  The tabulated powers square up to a relative error below \<open>4\<close> units of the last decimal.
  \<open>tick_slack\<close> is the error factor of one truncated multiplication.
\<close>

definition tick_ratio :: real where "tick_ratio = 10001 / 10000"
definition tick_slack :: real where "tick_slack = 1 + 4 / 10 ^ 18"

lemma tick_slack_ge: "1 \<le> tick_slack" and tick_ratio_ge: "1 \<le> tick_ratio"
  by (simp_all add: tick_slack_def tick_ratio_def)

definition power_at :: "nat \<Rightarrow> real" where
  "power_at i = real_of_int (TRUTH_AUCTION_TICK_PRICE_POWERS ! i) / 10 ^ 18"

lemma powers_square:
  "\<forall>i \<in> set [0..<19]. let p = TRUTH_AUCTION_TICK_PRICE_POWERS ! i; q = TRUTH_AUCTION_TICK_PRICE_POWERS ! (i + 1) in
     10 ^ 18 \<le> p \<and> 10 ^ 18 \<le> q \<and> \<bar>p * p - q * 10 ^ 18\<bar> \<le> 3 * q"
  by (simp add: TRUTH_AUCTION_TICK_PRICE_POWERS_def Let_def upt_rec)

lemma power_at_ge: "i < 20 \<Longrightarrow> 1 \<le> power_at i"
  using powers_square [unfolded Let_def] by (cases "i = 19") (auto simp: power_at_def dest: bspec [of _ _ i] bspec [of _ _ 18])

lemma power_at_square:
  assumes "i < 19"
  shows "power_at (Suc i) \<le> power_at i * power_at i * tick_slack"
    and "power_at i * power_at i \<le> power_at (Suc i) * tick_slack"
proof -
  define p q where "p = TRUTH_AUCTION_TICK_PRICE_POWERS ! i" and "q = TRUTH_AUCTION_TICK_PRICE_POWERS ! Suc i"
  have "10 ^ 18 \<le> q \<and> \<bar>p * p - q * 10 ^ 18\<bar> \<le> 3 * q"
    using bspec [OF powers_square, of i] assms unfolding p_def q_def Let_def by simp
  then have ints: "10 ^ 18 \<le> q" "p * p \<le> q * 10 ^ 18 + 3 * q" "q * 10 ^ 18 - 3 * q \<le> p * p" by auto
  define x y :: real where "x = real_of_int p" and "y = real_of_int q"
  have "real_of_int (p * p) \<le> real_of_int (q * 10 ^ 18 + 3 * q)"
    and "real_of_int (q * 10 ^ 18 - 3 * q) \<le> real_of_int (p * p)" and "real_of_int (10 ^ 18) \<le> y"
    using ints unfolding y_def by (simp_all only: of_int_le_iff)
  then have xy: "x * x \<le> y * 10 ^ 18 + 3 * y" "y * 10 ^ 18 - 3 * y \<le> x * x" "10 ^ 18 \<le> y"
    by (simp_all add: x_def y_def)
  have at: "power_at i = x / 10 ^ 18" "power_at (Suc i) = y / 10 ^ 18"
    by (simp_all add: power_at_def x_def y_def p_def q_def)
  have sq: "power_at i * power_at i = x * x / 10 ^ 36" by (simp add: at)
  have "y / 10 ^ 18 * (1 - 3 / 10 ^ 18) \<le> power_at i * power_at i"
    using xy(2) unfolding sq by (simp add: field_simps)
  then have "y / 10 ^ 18 * (1 - 3 / 10 ^ 18) * tick_slack \<le> power_at i * power_at i * tick_slack"
    using tick_slack_ge by (intro mult_right_mono) auto
  moreover have "y / 10 ^ 18 * 1 \<le> y / 10 ^ 18 * ((1 - 3 / 10 ^ 18) * tick_slack)"
    using xy(3) by (intro mult_left_mono) (simp_all add: tick_slack_def)
  ultimately show "power_at (Suc i) \<le> power_at i * power_at i * tick_slack"
    unfolding at(2) by (simp add: mult.assoc)
  have "power_at i * power_at i \<le> y / 10 ^ 18 * (1 + 3 / 10 ^ 18)"
    using xy(1) unfolding sq by (simp add: field_simps)
  also have "\<dots> \<le> y / 10 ^ 18 * tick_slack"
    using xy(3) by (intro mult_left_mono) (simp_all add: tick_slack_def)
  finally show "power_at i * power_at i \<le> power_at (Suc i) * tick_slack" by (simp add: at)
qed

lemma power_at_bounds:
  assumes "i < 20"
  shows "power_at i * tick_slack \<le> (tick_ratio * tick_slack) ^ (2 ^ i)"
    and "tick_ratio ^ (2 ^ i) * tick_slack \<le> power_at i * tick_slack ^ (2 ^ i)"
proof -
  have "power_at i * tick_slack \<le> (tick_ratio * tick_slack) ^ (2 ^ i) \<and>
      tick_ratio ^ (2 ^ i) * tick_slack \<le> power_at i * tick_slack ^ (2 ^ i)"
    using assms
  proof (induction i)
    case 0
    show ?case by (simp add: power_at_def TRUTH_AUCTION_TICK_PRICE_POWERS_def tick_ratio_def tick_slack_def)
  next
    case (Suc i)
    let ?p = "power_at i" and ?s = tick_slack and ?r = tick_ratio
    have pos: "0 \<le> ?p" "0 \<le> ?s" "0 \<le> ?r" using power_at_ge [of i] tick_slack_ge tick_ratio_ge Suc.prems by auto
    have split: "x ^ (2 ^ Suc i) = x ^ (2 ^ i) * x ^ (2 ^ i)" for x :: real
      by (simp add: mult_2 power_add)
    have upper: "?p * ?s \<le> (?r * ?s) ^ (2 ^ i)" and lower: "?r ^ (2 ^ i) * ?s \<le> ?p * ?s ^ (2 ^ i)"
      using Suc by auto
    have "power_at (Suc i) * ?s \<le> (?p * ?p * ?s) * ?s"
      using power_at_square(1) [of i] Suc.prems pos by (intro mult_right_mono) auto
    also have "\<dots> = (?p * ?s) * (?p * ?s)" by (simp add: algebra_simps)
    also have "\<dots> \<le> (?r * ?s) ^ (2 ^ i) * (?r * ?s) ^ (2 ^ i)"
      using upper pos by (intro mult_mono) auto
    finally have one: "power_at (Suc i) * ?s \<le> (?r * ?s) ^ (2 ^ Suc i)" unfolding split .
    have "(?r ^ (2 ^ i) * ?s) * (?r ^ (2 ^ i) * ?s) \<le> (?p * ?s ^ (2 ^ i)) * (?p * ?s ^ (2 ^ i))"
      using pos by (intro mult_mono [OF lower lower]) simp_all
    also have "\<dots> = (?p * ?p) * ?s ^ (2 ^ Suc i)" unfolding split by (simp add: algebra_simps)
    also have "\<dots> \<le> (power_at (Suc i) * ?s) * ?s ^ (2 ^ Suc i)"
      using power_at_square(2) [of i] Suc.prems pos by (intro mult_right_mono) auto
    finally have "(?r ^ (2 ^ Suc i) * ?s) * ?s \<le> (power_at (Suc i) * ?s ^ (2 ^ Suc i)) * ?s"
      unfolding split by (simp add: algebra_simps)
    then have "?r ^ (2 ^ Suc i) * ?s \<le> power_at (Suc i) * ?s ^ (2 ^ Suc i)"
      by (rule mult_right_le_imp_le) (simp add: tick_slack_def)
    with one show ?case by simp
  qed
  then show "power_at i * tick_slack \<le> (tick_ratio * tick_slack) ^ (2 ^ i)"
    and "tick_ratio ^ (2 ^ i) * tick_slack \<le> power_at i * tick_slack ^ (2 ^ i)" by auto
qed

text \<open>What the loop keeps: after the low \<open>i\<close> bits, the price is that of the tick they make.\<close>

definition price_close :: "nat \<Rightarrow> nat \<Rightarrow> int \<Rightarrow> bool" where
  "price_close m steps price \<longleftrightarrow>
     real_of_int price / 10 ^ 18 \<le> (tick_ratio * tick_slack) ^ m \<and>
     tick_ratio ^ m \<le> real_of_int price / 10 ^ 18 * tick_slack ^ (m + steps) \<and> 10 ^ 18 \<le> price"

lemma price_close_step:
  assumes i: "i < 20" and close: "price_close m steps price"
  shows "price_close (m + 2 ^ i) (Suc steps) ((price * TRUTH_AUCTION_TICK_PRICE_POWERS ! i) div 10 ^ 18)"
proof -
  define next_price where "next_price = (price * TRUTH_AUCTION_TICK_PRICE_POWERS ! i) div 10 ^ 18"
  define q p x where "q = real_of_int price / 10 ^ 18" and "p = power_at i" and "x = real_of_int next_price / 10 ^ 18"
  have q: "q \<le> (tick_ratio * tick_slack) ^ m" "tick_ratio ^ m \<le> q * tick_slack ^ (m + steps)" "1 \<le> q"
    using close by (auto simp: price_close_def q_def)
  have p: "1 \<le> p" "p * tick_slack \<le> (tick_ratio * tick_slack) ^ (2 ^ i)"
    "tick_ratio ^ (2 ^ i) * tick_slack \<le> p * tick_slack ^ (2 ^ i)"
    using power_at_ge [OF i] power_at_bounds [OF i] by (auto simp: p_def)
  have pow: "10 ^ 18 \<le> TRUTH_AUCTION_TICK_PRICE_POWERS ! i"
    using p(1) unfolding p_def power_at_def by (simp add: le_divide_eq)
  have price: "10 ^ 18 \<le> price" using close by (simp add: price_close_def)
  have "10 ^ 18 * 10 ^ 18 \<le> price * TRUTH_AUCTION_TICK_PRICE_POWERS ! i"
    using price pow by (intro mult_mono) auto
  then have ge: "10 ^ 18 \<le> next_price" unfolding next_price_def by (subst le_div_iff) auto
  have floor: "next_price * 10 ^ 18 \<le> price * TRUTH_AUCTION_TICK_PRICE_POWERS ! i"
    "price * TRUTH_AUCTION_TICK_PRICE_POWERS ! i < (next_price + 1) * 10 ^ 18"
    unfolding next_price_def by (rule div_mult_le_self, simp, rule less_div_succ_mult, simp)
  have "real_of_int (next_price * 10 ^ 18) \<le> real_of_int (price * TRUTH_AUCTION_TICK_PRICE_POWERS ! i)"
    using floor(1) by (simp only: of_int_le_iff)
  then have below: "x \<le> q * p" by (simp add: x_def q_def p_def power_at_def field_simps)
  have "real_of_int (price * TRUTH_AUCTION_TICK_PRICE_POWERS ! i) \<le> real_of_int ((next_price + 1) * 10 ^ 18)"
    using floor(2) by (simp only: of_int_le_iff)
  then have "q * p \<le> x + 1 / 10 ^ 18" by (simp add: x_def q_def p_def power_at_def field_simps)
  moreover have x: "1 \<le> x" using ge by (simp add: x_def)
  ultimately have above: "q * p \<le> x * tick_slack"
    unfolding tick_slack_def by (simp add: algebra_simps)
  have s: "1 \<le> tick_slack" and r: "1 \<le> tick_ratio" by (rule tick_slack_ge, rule tick_ratio_ge)
  have "x \<le> q * p" by (rule below)
  also have "\<dots> \<le> q * (p * tick_slack)" using s p(1) q(3) by (intro mult_left_mono) auto
  also have "\<dots> \<le> (tick_ratio * tick_slack) ^ m * (tick_ratio * tick_slack) ^ (2 ^ i)"
    using q p s r by (intro mult_mono) auto
  finally have upper: "x \<le> (tick_ratio * tick_slack) ^ (m + 2 ^ i)" by (simp add: power_add)
  have "tick_ratio ^ m * tick_ratio ^ (2 ^ i) \<le> tick_ratio ^ m * (tick_ratio ^ (2 ^ i) * tick_slack)"
    using s r by (intro mult_left_mono) auto
  also have "\<dots> \<le> (q * tick_slack ^ (m + steps)) * (p * tick_slack ^ (2 ^ i))"
    using q(3) s r by (intro mult_mono [OF q(2) p(3)]) simp_all
  also have "\<dots> = (q * p) * tick_slack ^ (m + steps + 2 ^ i)" by (simp add: power_add algebra_simps)
  also have "\<dots> \<le> (x * tick_slack) * tick_slack ^ (m + steps + 2 ^ i)"
    using above s by (intro mult_right_mono) auto
  finally have "tick_ratio ^ (m + 2 ^ i) \<le> x * tick_slack ^ (m + 2 ^ i + Suc steps)"
    by (simp add: power_add algebra_simps)
  with upper ge show ?thesis
    unfolding next_price_def [symmetric] by (simp add: price_close_def x_def)
qed

lemma price_close_skip: "price_close m steps price \<Longrightarrow> price_close m (Suc steps) price"
proof -
  assume close: "price_close m steps price"
  have "tick_ratio ^ m \<le> real_of_int price / 10 ^ 18 * tick_slack ^ (m + steps)"
    using close by (simp add: price_close_def)
  also have "\<dots> \<le> real_of_int price / 10 ^ 18 * tick_slack ^ (m + Suc steps)"
    using close tick_slack_ge by (intro mult_left_mono power_increasing) (auto simp: price_close_def)
  finally show ?thesis using close by (simp add: price_close_def)
qed

lemma bit_of_tick: "int n AND 2 ^ i = 0 \<longleftrightarrow> \<not> bit n i"
  by (simp add: and_exp_eq_0_iff_not_bit bit_of_nat_iff_bit)

lemma low_bits_Suc: "(n :: nat) mod 2 ^ Suc i = n mod 2 ^ i + (if bit n i then 2 ^ i else 0)"
  by (simp add: mod_exhaust_less_4 mod_mult2_eq bit_iff_odd mult.commute [of 2] odd_iff_mod_2_eq_one)

lemma price_loop_close:
  "i \<le> 20 \<Longrightarrow> price_close (n mod 2 ^ i) i price \<Longrightarrow>
    \<exists>final. price_loop (int n) i price = ok final \<and> price_close (n mod 2 ^ 20) 20 final"
proof (induction "20 - i" arbitrary: i price)
  case 0
  then show ?case by (subst price_loop.simps) (simp add: TRUTH_AUCTION_TICK_PRICE_POWERS_def)
next
  case (Suc k)
  then have i: "i < 20" by simp
  define price' where "price' = (if bit n i then (price * TRUTH_AUCTION_TICK_PRICE_POWERS ! i) div 10 ^ 18 else price)"
  have len: "length TRUTH_AUCTION_TICK_PRICE_POWERS = 20" by (simp add: TRUTH_AUCTION_TICK_PRICE_POWERS_def)
  have pos: "0 \<le> price * TRUTH_AUCTION_TICK_PRICE_POWERS ! i"
    using Suc.prems power_at_ge [OF i] by (intro mult_nonneg_nonneg) (auto simp: price_close_def power_at_def le_divide_eq)
  have loop: "price_loop (int n) i price = price_loop (int n) (Suc i) price'"
    using i pos by (subst price_loop.simps)
      (simp add: len bit_of_tick price'_def getTruthAuctionTickPricePower_def TRUTH_AUCTION_PRICE_PRECISION_def sdiv_nonneg)
  have "price_close (n mod 2 ^ Suc i) (Suc i) price'"
  proof (cases "bit n i")
    case True
    then show ?thesis
      using price_close_step [OF i Suc.prems(2)] by (simp add: low_bits_Suc price'_def del: power_Suc)
  next
    case False
    then show ?thesis
      using price_close_skip [OF Suc.prems(2)] by (simp add: low_bits_Suc price'_def del: power_Suc)
  qed
  then show ?case using Suc.hyps(1) [of "Suc i" price'] Suc.hyps(2) i unfolding loop by simp
qed

section \<open>The price as a function of the tick\<close>

definition tick_price :: "int \<Rightarrow> int" where
  "tick_price tick = (case tickToPrice tick of Inr price \<Rightarrow> price | Inl e \<Rightarrow> 0)"

definition in_domain :: "int \<Rightarrow> bool" where
  "in_domain tick \<longleftrightarrow> TRUTH_AUCTION_MIN_TICK \<le> tick \<and> tick \<le> TRUTH_AUCTION_MAX_TICK"

lemma in_domain_iff: "in_domain tick \<longleftrightarrow> - 524288 \<le> tick \<and> tick \<le> 524288"
  by (simp add: in_domain_def TRUTH_AUCTION_MIN_TICK_def TRUTH_AUCTION_MAX_TICK_def)

lemma nonneg_tick:
  assumes "n \<le> 524288"
  shows nonneg_tick_ok: "tickToPrice (int n) = ok (tick_price (int n))"
    and nonneg_tick_close: "price_close n 20 (tick_price (int n))"
    and nonneg_tick_loop: "price_loop (int n) 0 TRUTH_AUCTION_PRICE_PRECISION = ok (tick_price (int n))"
proof -
  have "price_close (n mod 2 ^ 0) 0 (10 ^ 18)" by (simp add: price_close_def)
  moreover have "n mod 2 ^ 20 = n" using assms by simp
  ultimately obtain final where final: "price_loop (int n) 0 (10 ^ 18) = ok final" "price_close n 20 final"
    using price_loop_close [of 0 n "10 ^ 18"] by auto
  then have "tickToPrice (int n) = ok final"
    using assms by (simp add: tickToPrice_def assertTruthAuctionTickInContractDomain_def TRUTH_AUCTION_MIN_TICK_def
        TRUTH_AUCTION_MAX_TICK_def TRUTH_AUCTION_PRICE_PRECISION_def)
  with final show "tickToPrice (int n) = ok (tick_price (int n))" and "price_close n 20 (tick_price (int n))"
    and "price_loop (int n) 0 TRUTH_AUCTION_PRICE_PRECISION = ok (tick_price (int n))"
    by (simp_all add: tick_price_def TRUTH_AUCTION_PRICE_PRECISION_def)
qed

lemma tick_price_ge: "0 \<le> tick \<Longrightarrow> tick \<le> 524288 \<Longrightarrow> 10 ^ 18 \<le> tick_price tick"
  using nonneg_tick_close [of "nat tick"] by (simp add: price_close_def)

lemma neg_tick:
  assumes "- 524288 \<le> tick" and "tick < 0"
  shows neg_tick_ok: "tickToPrice tick = ok (tick_price tick)"
    and neg_tick_price: "tick_price tick = 10 ^ 36 div tick_price (- tick)"
proof -
  have loop: "price_loop (- tick) 0 TRUTH_AUCTION_PRICE_PRECISION = ok (tick_price (- tick))"
    using nonneg_tick_loop [of "nat (- tick)"] assms by simp
  have "10 ^ 18 \<le> tick_price (- tick)" using assms by (intro tick_price_ge) auto
  then have "tickToPrice tick = ok (10 ^ 36 div tick_price (- tick))"
    using assms loop by (simp add: tickToPrice_def assertTruthAuctionTickInContractDomain_def TRUTH_AUCTION_MIN_TICK_def
        TRUTH_AUCTION_MAX_TICK_def) (simp add: TRUTH_AUCTION_PRICE_PRECISION_def bigDiv_pos)
  then show "tickToPrice tick = ok (tick_price tick)" and "tick_price tick = 10 ^ 36 div tick_price (- tick)"
    by (simp_all add: tick_price_def)
qed

lemma tickToPrice_ok: "in_domain tick \<Longrightarrow> tickToPrice tick = ok (tick_price tick)"
  using nonneg_tick_ok [of "nat tick"] neg_tick_ok [of tick] by (cases "0 \<le> tick") (auto simp: in_domain_iff)

lemma tickToPrice_ok_iff: "tickToPrice tick = ok price \<longleftrightarrow> in_domain tick \<and> price = tick_price tick"
proof (cases "in_domain tick")
  case True
  then show ?thesis using tickToPrice_ok by auto
next
  case False
  then have "tickToPrice tick \<noteq> ok price"
    by (auto simp: tickToPrice_def assertTruthAuctionTickInContractDomain_def in_domain_def not_le)
  with False show ?thesis by simp
qed

text \<open>The whole error factor stays below \<open>1 + 10^-11\<close>.\<close>

lemma slack_power_le:
  assumes "k \<le> 600000"
  shows "tick_slack ^ k \<le> 1 + 1 / 10 ^ 11"
proof -
  have "tick_slack ^ k * (1 - 4 / 10 ^ 18) ^ k \<le> 1"
    unfolding power_mult_distrib [symmetric] by (rule power_le_one) (simp_all add: tick_slack_def)
  moreover have "1 + real k * (- 4 / 10 ^ 18) \<le> (1 + - 4 / 10 ^ 18) ^ k"
    by (rule Bernoulli_inequality) simp
  then have "1 - 600000 * 4 / 10 ^ 18 \<le> (1 - 4 / 10 ^ 18 :: real) ^ k"
    using assms by simp
  moreover have "0 \<le> tick_slack ^ k" using tick_slack_ge by simp
  ultimately have "tick_slack ^ k * (1 - 600000 * 4 / 10 ^ 18) \<le> 1"
    by (meson mult_left_mono order_trans)
  then have "tick_slack ^ k * (1 - 600000 * 4 / 10 ^ 18) \<le> (1 + 1 / 10 ^ 11) * (1 - 600000 * 4 / 10 ^ 18)"
    by (rule order_trans) simp
  then show ?thesis by (rule mult_right_le_imp_le) simp
qed

lemma nonneg_tick_accurate:
  assumes "n \<le> 524288"
  shows "real_of_int (tick_price (int n)) / 10 ^ 18 \<le> tick_ratio ^ n * (1 + 1 / 10 ^ 11)"
    and "tick_ratio ^ n \<le> real_of_int (tick_price (int n)) / 10 ^ 18 * (1 + 1 / 10 ^ 11)"
proof -
  define q where "q = real_of_int (tick_price (int n)) / 10 ^ 18"
  have close: "q \<le> tick_ratio ^ n * tick_slack ^ n" "tick_ratio ^ n \<le> q * tick_slack ^ (n + 20)" "1 \<le> q"
    using nonneg_tick_close [OF assms] by (auto simp: price_close_def q_def power_mult_distrib)
  have "tick_ratio ^ n * tick_slack ^ n \<le> tick_ratio ^ n * (1 + 1 / 10 ^ 11)"
    using slack_power_le [of n] assms tick_ratio_ge by (intro mult_left_mono) auto
  with close(1) show "real_of_int (tick_price (int n)) / 10 ^ 18 \<le> tick_ratio ^ n * (1 + 1 / 10 ^ 11)"
    unfolding q_def [symmetric] by (rule order_trans)
  have "q * tick_slack ^ (n + 20) \<le> q * (1 + 1 / 10 ^ 11)"
    using slack_power_le [of "n + 20"] assms close(3) by (intro mult_left_mono) auto
  with close(2) show "tick_ratio ^ n \<le> real_of_int (tick_price (int n)) / 10 ^ 18 * (1 + 1 / 10 ^ 11)"
    unfolding q_def [symmetric] by (rule order_trans)
qed

lemma nonneg_tick_less:
  assumes "m < n" and "n \<le> 524288"
  shows "tick_price (int m) < tick_price (int n)"
proof -
  let ?e = "1 + 1 / 10 ^ 11 :: real"
  define R where "R = tick_ratio ^ m"
  have R: "1 \<le> R" using tick_ratio_ge by (simp add: R_def)
  have "real_of_int (tick_price (int m)) / 10 ^ 18 * ?e \<le> R * ?e * ?e"
    using nonneg_tick_accurate(1) [of m] assms unfolding R_def by (intro mult_right_mono) auto
  also have "\<dots> < R * tick_ratio" using R by (simp add: tick_ratio_def)
  also have "\<dots> = tick_ratio ^ Suc m" by (simp add: R_def)
  also have "\<dots> \<le> tick_ratio ^ n" using assms tick_ratio_ge by (intro power_increasing) auto
  also have "\<dots> \<le> real_of_int (tick_price (int n)) / 10 ^ 18 * ?e"
    using nonneg_tick_accurate(2) assms by simp
  finally have "real_of_int (tick_price (int m)) / 10 ^ 18 < real_of_int (tick_price (int n)) / 10 ^ 18"
    by (rule mult_right_less_imp_less) simp
  then show ?thesis by simp
qed

lemma tick_price_strict: "0 \<le> s \<Longrightarrow> s < t \<Longrightarrow> t \<le> 524288 \<Longrightarrow> tick_price s < tick_price t"
  using nonneg_tick_less [of "nat s" "nat t"] by simp

lemma tick_price_zero: "tick_price 0 = 10 ^ 18"
proof -
  show ?thesis using nonneg_tick_close [of 0] by (simp add: price_close_def)
qed

lemma neg_tick_less: "in_domain t \<Longrightarrow> t < 0 \<Longrightarrow> tick_price t < 10 ^ 18"
proof -
  assume t: "in_domain t" "t < 0"
  then have "10 ^ 18 < tick_price (- t)" using tick_price_strict [of 0 "- t"] by (simp add: tick_price_zero in_domain_iff)
  then show ?thesis using t by (simp add: neg_tick_price in_domain_iff div_less_iff)
qed

lemma tick_price_nonneg:
  assumes "in_domain t"
  shows "0 \<le> tick_price t"
proof (cases "0 \<le> t")
  case True
  then show ?thesis using tick_price_ge [of t] assms by (simp add: in_domain_iff)
next
  case False
  then have "10 ^ 18 \<le> tick_price (- t)" "tick_price t = 10 ^ 36 div tick_price (- t)"
    using tick_price_ge [of "- t"] neg_tick_price [of t] assms by (auto simp: in_domain_iff)
  then show ?thesis by (simp add: pos_imp_zdiv_nonneg_iff)
qed

lemma tick_price_mono:
  assumes "in_domain s" and "in_domain t" and "s \<le> t"
  shows "tick_price s \<le> tick_price t"
proof (cases "s < 0 \<and> t < 0")
  case True
  have "tick_price (- t) \<le> tick_price (- s)"
    using tick_price_strict [of "- t" "- s"] assms True by (cases "s = t") (auto simp: in_domain_iff)
  moreover have "0 < tick_price (- t)" using tick_price_ge [of "- t"] assms True by (simp add: in_domain_iff)
  ultimately have "10 ^ 36 div tick_price (- s) \<le> 10 ^ 36 div tick_price (- t)"
    by (intro zdiv_mono2) auto
  then show ?thesis using assms True by (simp add: neg_tick_price in_domain_iff)
next
  case False
  then show ?thesis
    using neg_tick_less [of s] tick_price_ge [of t] tick_price_strict [of s t] assms
    by (cases "s < 0"; cases "s = t") (auto simp: in_domain_iff)
qed

text \<open>The inverse of an accurate price is accurate, but for the truncation to \<open>10^-18\<close>.\<close>

lemma inverse_price_accurate:
  assumes "10 ^ 18 \<le> price" and "0 < R" and "real_of_int price / 10 ^ 18 \<le> R * (1 + 1 / 10 ^ 11)"
    and "R \<le> real_of_int price / 10 ^ 18 * (1 + 1 / 10 ^ 11)"
  shows "\<bar>real_of_int (10 ^ 36 div price) / 10 ^ 18 - 1 / R\<bar> \<le> 1 / R / 10 ^ 11 + 1 / 10 ^ 18"
proof -
  define q where "q = real_of_int price / 10 ^ 18"
  have q: "1 \<le> q" "q \<le> R * (1 + 1 / 10 ^ 11)" "R \<le> q * (1 + 1 / 10 ^ 11)"
    using assms by (simp_all add: q_def)
  define z where "z = 10 ^ 36 div price"
  have positive: "0 < price" using assms(1) by simp
  have "z * price \<le> 10 ^ 36" "10 ^ 36 < (z + 1) * price"
    using pos_mod_bound [OF positive, of "10 ^ 36"] pos_mod_sign [OF positive, of "10 ^ 36"] div_mult_mod_eq [of "10 ^ 36" price]
    unfolding z_def distrib_right mult_1 by linarith+
  then have "real_of_int (z * price) \<le> real_of_int (10 ^ 36)" "real_of_int (10 ^ 36) < real_of_int ((z + 1) * price)"
    by (simp_all only: of_int_le_iff of_int_less_iff)
  then have "real_of_int z * real_of_int price \<le> 10 ^ 36" "10 ^ 36 < (real_of_int z + 1) * real_of_int price" by simp_all
  then have z: "real_of_int z / 10 ^ 18 * q \<le> 1" "1 < (real_of_int z / 10 ^ 18 + 1 / 10 ^ 18) * q"
    by (simp_all add: q_def field_simps)
  then have "real_of_int z / 10 ^ 18 \<le> 1 / q" "1 / q \<le> real_of_int z / 10 ^ 18 + 1 / 10 ^ 18"
    using q(1) by (simp_all add: field_simps)
  moreover have "1 / q \<le> (1 + 1 / 10 ^ 11) / R" using q assms(2) by (simp add: field_simps)
  moreover have "1 - 1 / 10 ^ 11 \<le> R / q"
  proof -
    have "(1 - 1 / 10 ^ 11) * q \<le> (1 - 1 / 10 ^ 11) * (R * (1 + 1 / 10 ^ 11))" using q(2) by (intro mult_left_mono) auto
    also have "\<dots> \<le> R" using assms(2) by (simp add: field_simps)
    finally show ?thesis using q(1) by (simp add: field_simps)
  qed
  then have "(1 - 1 / 10 ^ 11) / R \<le> 1 / q" using q(1) assms(2) by (simp add: field_simps)
  ultimately show ?thesis unfolding z_def [symmetric] abs_le_iff by (simp add: add_divide_distrib diff_divide_distrib)
qed

text \<open>
  C21: The fixed-point price of a tick. No tick of the domain throws and every tick outside it does.
  The price of a non-negative tick differs from \<open>1.0001^tick\<close> by a relative error of at most
  \<open>10^-11\<close>; the price of the opposite tick is its truncated inverse and differs from
  \<open>1.0001^-tick\<close> by at most the same relative error and one unit of the last place. Of two ticks the
  larger never has the smaller price, and a strictly larger one when both are non-negative.
\<close>

theorem tick_price_accurate:
  "(\<bar>tick\<bar> \<le> TRUTH_AUCTION_MAX_TICK \<longleftrightarrow> succeeds (tickToPrice tick)) \<and>
   (0 \<le> tick \<and> tick \<le> TRUTH_AUCTION_MAX_TICK \<longrightarrow>
      (case (tickToPrice tick, tickToPrice (- tick)) of
         (Inr price, Inr opposite) \<Rightarrow>
           \<bar>real_of_int price / 10 ^ 18 - (10001 / 10000) ^ nat tick\<bar> \<le> (10001 / 10000) ^ nat tick / 10 ^ 11 \<and>
           (0 < tick \<longrightarrow> opposite = 10 ^ 36 div price \<and>
             \<bar>real_of_int opposite / 10 ^ 18 - 1 / (10001 / 10000) ^ nat tick\<bar> \<le> 1 / (10001 / 10000) ^ nat tick / 10 ^ 11 + 1 / 10 ^ 18)
       | _ \<Rightarrow> False)) \<and>
   (TRUTH_AUCTION_MIN_TICK \<le> smaller \<and> smaller < tick \<and> tick \<le> TRUTH_AUCTION_MAX_TICK \<longrightarrow>
      (case (tickToPrice smaller, tickToPrice tick) of
         (Inr lower, Inr higher) \<Rightarrow> lower \<le> higher \<and> (0 \<le> smaller \<longrightarrow> lower < higher) | _ \<Rightarrow> False))"
proof (intro conjI impI)
  show "\<bar>tick\<bar> \<le> TRUTH_AUCTION_MAX_TICK \<longleftrightarrow> succeeds (tickToPrice tick)"
    by (auto simp: succeeds_iff tickToPrice_ok_iff in_domain_iff TRUTH_AUCTION_MAX_TICK_def)
next
  assume tick: "0 \<le> tick \<and> tick \<le> TRUTH_AUCTION_MAX_TICK"
  then have domain: "in_domain tick" "in_domain (- tick)" and n: "nat tick \<le> 524288" "int (nat tick) = tick"
    by (auto simp: in_domain_iff TRUTH_AUCTION_MAX_TICK_def)
  define R q :: real where "R = (10001 / 10000) ^ nat tick" and "q = real_of_int (tick_price tick) / 10 ^ 18"
  have R: "tick_ratio ^ nat tick = R" by (simp add: R_def tick_ratio_def)
  have upper: "q \<le> R * (1 + 1 / 10 ^ 11)" and lower: "R \<le> q * (1 + 1 / 10 ^ 11)"
    using nonneg_tick_accurate [OF n(1)] unfolding n(2) R q_def [symmetric] by auto
  have positive: "0 < R" by (simp add: R_def)
  moreover have "q * (1 + 1 / 10 ^ 11) * (1 - 1 / 10 ^ 11) \<le> q"
    using tick_price_nonneg [OF domain(1)] by (simp add: q_def)
  moreover have "R * (1 - 1 / 10 ^ 11) \<le> q * (1 + 1 / 10 ^ 11) * (1 - 1 / 10 ^ 11)"
    using lower by (intro mult_right_mono) auto
  ultimately have "q \<le> R * (1 + 1 / 10 ^ 11)" and "R * (1 - 1 / 10 ^ 11) \<le> q" using upper by linarith+
  then have "\<bar>q - R\<bar> \<le> R / 10 ^ 11" unfolding abs_le_iff by argo
  moreover have "0 < tick \<longrightarrow> tick_price (- tick) = 10 ^ 36 div tick_price tick"
    using neg_tick_price [of "- tick"] domain(2) by (auto simp: in_domain_iff)
  moreover have "\<bar>real_of_int (10 ^ 36 div tick_price tick) / 10 ^ 18 - 1 / R\<bar> \<le> 1 / R / 10 ^ 11 + 1 / 10 ^ 18"
    using tick_price_ge [of tick] tick positive upper lower
    by (intro inverse_price_accurate) (simp_all add: q_def TRUTH_AUCTION_MAX_TICK_def)
  ultimately show "case (tickToPrice tick, tickToPrice (- tick)) of
      (Inr price, Inr opposite) \<Rightarrow>
        \<bar>real_of_int price / 10 ^ 18 - (10001 / 10000) ^ nat tick\<bar> \<le> (10001 / 10000) ^ nat tick / 10 ^ 11 \<and>
        (0 < tick \<longrightarrow> opposite = 10 ^ 36 div price \<and>
          \<bar>real_of_int opposite / 10 ^ 18 - 1 / (10001 / 10000) ^ nat tick\<bar> \<le> 1 / (10001 / 10000) ^ nat tick / 10 ^ 11 + 1 / 10 ^ 18)
    | _ \<Rightarrow> False"
    unfolding tickToPrice_ok [OF domain(1)] tickToPrice_ok [OF domain(2)] R_def q_def by simp
next
  assume "TRUTH_AUCTION_MIN_TICK \<le> smaller \<and> smaller < tick \<and> tick \<le> TRUTH_AUCTION_MAX_TICK"
  then have "in_domain smaller" "in_domain tick" "smaller < tick" "tick \<le> 524288"
    by (auto simp: in_domain_def TRUTH_AUCTION_MAX_TICK_def)
  then show "case (tickToPrice smaller, tickToPrice tick) of
      (Inr lower, Inr higher) \<Rightarrow> lower \<le> higher \<and> (0 \<le> smaller \<longrightarrow> lower < higher) | _ \<Rightarrow> False"
    using tick_price_mono [of smaller tick] tick_price_strict [of smaller tick] by (simp add: tickToPrice_ok)
qed

theorem tick_price_accurate_witness:
  "(case (tickToPrice 3, tickToPrice (- 3)) of
      (Inr price, Inr opposite) \<Rightarrow>
        \<bar>real_of_int price / 10 ^ 18 - (10001 / 10000) ^ 3\<bar> \<le> (10001 / 10000) ^ 3 / 10 ^ 11 \<and> opposite = 10 ^ 36 div price \<and>
        \<bar>real_of_int opposite / 10 ^ 18 - 1 / (10001 / 10000) ^ 3\<bar> \<le> 1 / (10001 / 10000) ^ 3 / 10 ^ 11 + 1 / 10 ^ 18
    | _ \<Rightarrow> False) \<and>
   (case (tickToPrice 1, tickToPrice 3) of (Inr lower, Inr higher) \<Rightarrow> lower < higher | _ \<Rightarrow> False)"
  using tick_price_accurate [of 3 1]
  by (auto simp: TRUTH_AUCTION_MAX_TICK_def TRUTH_AUCTION_MIN_TICK_def split: sum.splits)

section \<open>The closest tick\<close>

lemma tick_price_below: "in_domain t \<Longrightarrow> in_domain m \<Longrightarrow> t \<le> m \<Longrightarrow> tick_price m < p \<Longrightarrow> tick_price t < p"
  using tick_price_mono [of t m] by simp

lemma tick_price_above: "in_domain t \<Longrightarrow> in_domain m \<Longrightarrow> m \<le> t \<Longrightarrow> p < tick_price m \<Longrightarrow> p < tick_price t"
  using tick_price_mono [of m t] by simp

lemma closest_loop_spec:
  "in_domain l \<or> l = 524289 \<Longrightarrow> in_domain u \<or> u = - 524289 \<Longrightarrow> l \<le> u + 1 \<Longrightarrow>
   \<forall>t. in_domain t \<and> t < l \<longrightarrow> tick_price t < p \<Longrightarrow> \<forall>t. in_domain t \<and> u < t \<longrightarrow> p < tick_price t \<Longrightarrow>
   \<exists>found. closest_loop p l u = ok found \<and>
     (case found of Inl m \<Rightarrow> in_domain m \<and> tick_price m = p
      | Inr (l', u') \<Rightarrow> l' = u' + 1 \<and> - 524289 \<le> u' \<and> u' \<le> 524288 \<and>
          (\<forall>t. in_domain t \<longrightarrow> (t < l' \<longrightarrow> tick_price t < p) \<and> (u' < t \<longrightarrow> p < tick_price t)))"
proof (induction p l u rule: closest_loop.induct)
  case (1 p l u)
  show ?case
  proof (cases "l \<le> u")
    case False
    then have "l = u + 1" "- 524289 \<le> u" "u \<le> 524288" using "1.prems" by (auto simp: in_domain_iff)
    then show ?thesis using False "1.prems" by (subst closest_loop.simps) auto
  next
    case True
    define m where "m = (l + u) sdiv 2"
    have mid: "l \<le> m" "m \<le> u" using bisect_mid_bounds [OF True] by (simp_all add: m_def)
    have domain: "in_domain m" "- 524288 \<le> l" "u \<le> 524288" using "1.prems" True mid by (auto simp: in_domain_iff)
    note price = tickToPrice_ok [OF domain(1)]
    note unfold = closest_loop.simps [of p l u, unfolded Let_def, folded m_def]
    consider "tick_price m = p" | "tick_price m < p" | "p < tick_price m" by linarith
    then show ?thesis
    proof cases
      case 1
      then show ?thesis using True price domain(1) by (simp add: unfold)
    next
      case 2
      have loop: "closest_loop p l u = closest_loop p (m + 1) u" using 2 True price by (simp add: unfold)
      have "\<forall>t. in_domain t \<and> t < m + 1 \<longrightarrow> tick_price t < p"
        using 2 domain(1) tick_price_below by (metis zle_add1_eq_le)
      moreover have "in_domain (m + 1) \<or> m + 1 = 524289" using domain mid by (auto simp: in_domain_iff)
      ultimately show ?thesis
        unfolding loop using "1.prems"(2,5) mid 2 True price
        by (intro "1.IH"(1) [OF True m_def price]) auto
    next
      case 3
      have loop: "closest_loop p l u = closest_loop p l (m - 1)" using 3 True price by (simp add: unfold)
      have "\<forall>t. in_domain t \<and> m - 1 < t \<longrightarrow> p < tick_price t"
        using 3 domain(1) tick_price_above by (metis zle_diff1_eq not_le)
      moreover have "in_domain (m - 1) \<or> m - 1 = - 524289" using domain mid by (auto simp: in_domain_iff)
      ultimately show ?thesis
        unfolding loop using "1.prems"(1,4) mid 3 True price
        by (intro "1.IH"(2) [OF True m_def price]) auto
    qed
  qed
qed

text \<open>
  C22: The tick for an arbitrary positive price is the closest one. The search always returns,
  with a tick of the contract's domain, and no other tick of the domain has a price nearer to
  the wanted one.
\<close>

theorem closest_tick_is_closest:
  assumes "0 < price" and "\<bar>other\<bar> \<le> TRUTH_AUCTION_MAX_TICK"
  shows "case priceToClosestTick price of Inl e \<Rightarrow> False
    | Inr tick \<Rightarrow> \<bar>tick\<bar> \<le> TRUTH_AUCTION_MAX_TICK \<and>
        (case (tickToPrice tick, tickToPrice other) of
           (Inr chosen, Inr candidate) \<Rightarrow> \<bar>chosen - price\<bar> \<le> \<bar>candidate - price\<bar> | _ \<Rightarrow> False)"
proof -
  have other: "in_domain other" using assms(2) by (auto simp: in_domain_iff TRUTH_AUCTION_MAX_TICK_def)
  have "\<exists>tick. priceToClosestTick price = ok tick \<and> in_domain tick \<and> \<bar>tick_price tick - price\<bar> \<le> \<bar>tick_price other - price\<bar>"
  proof -
    obtain found where loop: "closest_loop price (- 524288) 524288 = ok found"
      and found: "case found of Inl m \<Rightarrow> in_domain m \<and> tick_price m = price
        | Inr (l', u') \<Rightarrow> l' = u' + 1 \<and> - 524289 \<le> u' \<and> u' \<le> 524288 \<and>
            (\<forall>t. in_domain t \<longrightarrow> (t < l' \<longrightarrow> tick_price t < price) \<and> (u' < t \<longrightarrow> price < tick_price t))"
      using closest_loop_spec [of "- 524288" 524288 price] by (auto simp: in_domain_iff)
    note search = priceToClosestTick_def TRUTH_AUCTION_MIN_TICK_def TRUTH_AUCTION_MAX_TICK_def
    show ?thesis
    proof (cases found)
      case (Inl m)
      then show ?thesis using found loop assms(1) by (simp add: search)
    next
      case (Inr bounds)
      then obtain l u where bounds: "found = Inr (l, u)" by (cases bounds) auto
      with found have u: "l = u + 1" "- 524289 \<le> u" "u \<le> 524288"
        and below: "\<And>t. in_domain t \<Longrightarrow> t \<le> u \<Longrightarrow> tick_price t < price"
        and above: "\<And>t. in_domain t \<Longrightarrow> u < t \<Longrightarrow> price < tick_price t"
        by auto
      have near_below: "\<bar>tick_price t - price\<bar> \<le> \<bar>tick_price s - price\<bar>"
        if "in_domain t" "in_domain s" "s \<le> t" "t \<le> u" for s t
        using below [of t] below [of s] tick_price_mono [of s t] that by auto
      have near_above: "\<bar>tick_price t - price\<bar> \<le> \<bar>tick_price s - price\<bar>"
        if "in_domain t" "in_domain s" "t \<le> s" "u < t" for s t
        using above [of t] above [of s] tick_price_mono [of t s] that by auto
      have "in_domain u \<and> in_domain (u + 1)" if "u \<noteq> 524288" "u \<noteq> - 524289"
        using u that by (auto simp: in_domain_iff)
      then consider "u = 524288" | "u = - 524289" | "in_domain u" "in_domain (u + 1)" by blast
      then show ?thesis
      proof cases
        case 1
        then have "priceToClosestTick price = ok 524288" using loop bounds u assms(1) by (simp add: search)
        then show ?thesis using near_below [of 524288 other] other 1 by (auto simp: in_domain_iff)
      next
        case 2
        then have "priceToClosestTick price = ok (- 524288)" using loop bounds u assms(1) by (simp add: search)
        then show ?thesis using near_above [of "- 524288" other] other 2 by (auto simp: in_domain_iff)
      next
        case 3
        define dl du where "dl = tick_price (u + 1) - price" and "du = price - tick_price u"
        have pos: "0 < dl" "0 < du" using below [OF 3(1)] above [OF 3(2)] by (simp_all add: dl_def du_def)
        have "priceToClosestTick price = ok (if dl < du then u + 1 else u)"
          using loop bounds u assms(1) 3 pos
          by (simp add: search tickToPrice_ok in_domain_iff dl_def du_def Let_def)
        moreover have "\<bar>tick_price u - price\<bar> = du" "\<bar>tick_price (u + 1) - price\<bar> = dl"
          using pos by (simp_all add: dl_def du_def)
        moreover have "du \<le> \<bar>tick_price other - price\<bar> \<or> dl \<le> \<bar>tick_price other - price\<bar>"
          using near_below [OF 3(1) other] near_above [OF 3(2) other] calculation(2,3) by linarith
        ultimately show ?thesis using 3 by auto
      qed
    qed
  qed
  then show ?thesis
    using tickToPrice_ok [OF other] by (auto simp: tickToPrice_ok in_domain_iff TRUTH_AUCTION_MAX_TICK_def)
qed

theorem closest_tick_is_closest_witness:
  "case priceToClosestTick 1234567 of Inl e \<Rightarrow> False
    | Inr tick \<Rightarrow> \<bar>tick\<bar> \<le> TRUTH_AUCTION_MAX_TICK \<and>
        (case (tickToPrice tick, tickToPrice 100) of
           (Inr chosen, Inr candidate) \<Rightarrow> \<bar>chosen - 1234567\<bar> \<le> \<bar>candidate - 1234567\<bar> | _ \<Rightarrow> False)"
  by (rule closest_tick_is_closest) (simp_all add: TRUTH_AUCTION_MAX_TICK_def)

section \<open>The supported ticks and the tick of a price\<close>

lemma min_supported_loop_spec:
  "in_domain l \<Longrightarrow> in_domain u \<Longrightarrow> l < u \<Longrightarrow> 0 < tick_price u \<Longrightarrow>
   \<exists>l'. min_supported_loop l u = ok (l', l' + 1) \<and> l \<le> l' \<and> l' + 1 \<le> u \<and> 0 < tick_price (l' + 1) \<and>
     (l' = l \<or> tick_price l' \<le> 0)"
proof (induction l u rule: min_supported_loop.induct)
  case (1 l u)
  show ?case
  proof (cases "1 < u - l")
    case False
    with "1.prems" have u: "u = l + 1" by simp
    show ?thesis using "1.prems" False unfolding u by (subst min_supported_loop.simps) auto
  next
    case True
    define m where "m = (l + u) sdiv 2"
    have mid: "l < m" "m < u" using strict_mid_bounds [OF True] by (simp_all add: m_def)
    have m: "in_domain m" using "1.prems" mid by (auto simp: in_domain_iff)
    note price = tickToPrice_ok [OF m]
    note unfold = min_supported_loop.simps [of l u, unfolded Let_def, folded m_def]
    show ?thesis
    proof (cases "0 < tick_price m")
      case pos: True
      have "min_supported_loop l u = min_supported_loop l m" using True pos price by (simp add: unfold)
      then show ?thesis using "1.IH"(1) [OF True m_def price pos "1.prems"(1) m mid(1) pos] mid by auto
    next
      case zero: False
      have "min_supported_loop l u = min_supported_loop m u" using True zero price by (simp add: unfold)
      then show ?thesis using "1.IH"(2) [OF True m_def price zero m "1.prems"(2) mid(2) "1.prems"(4)] mid zero by force
    qed
  qed
qed

lemma min_supported:
  shows min_supported_found: "findTruthAuctionMinSupportedTick = ok TRUTH_AUCTION_MIN_SUPPORTED_TICK"
    and min_supported_range: "- 524288 \<le> TRUTH_AUCTION_MIN_SUPPORTED_TICK" "TRUTH_AUCTION_MIN_SUPPORTED_TICK \<le> 0"
    and min_supported_pos: "0 < tick_price TRUTH_AUCTION_MIN_SUPPORTED_TICK"
    and min_supported_least: "in_domain t \<Longrightarrow> t < TRUTH_AUCTION_MIN_SUPPORTED_TICK \<Longrightarrow> tick_price t = 0"
proof -
  obtain l where loop: "min_supported_loop (- 524288) 0 = ok (l, l + 1)"
    and l: "- 524288 \<le> l" "l + 1 \<le> 0" "0 < tick_price (l + 1)" "l = - 524288 \<or> tick_price l \<le> 0"
    using min_supported_loop_spec [of "- 524288" 0] tick_price_zero by (auto simp: in_domain_iff)
  define T where "T = (if 0 < tick_price l then l else l + 1)"
  have domain: "in_domain l" using l by (simp add: in_domain_iff)
  have found: "findTruthAuctionMinSupportedTick = ok T"
    using loop tickToPrice_ok [OF domain]
    by (simp add: findTruthAuctionMinSupportedTick_def TRUTH_AUCTION_MIN_TICK_def T_def)
  then have T: "TRUTH_AUCTION_MIN_SUPPORTED_TICK = T" unfolding TRUTH_AUCTION_MIN_SUPPORTED_TICK_def found by simp
  show "findTruthAuctionMinSupportedTick = ok TRUTH_AUCTION_MIN_SUPPORTED_TICK" using found by (simp add: T)
  show "- 524288 \<le> TRUTH_AUCTION_MIN_SUPPORTED_TICK" "TRUTH_AUCTION_MIN_SUPPORTED_TICK \<le> 0"
    "0 < tick_price TRUTH_AUCTION_MIN_SUPPORTED_TICK"
    using l by (auto simp: T T_def)
  show "tick_price t = 0" if t: "in_domain t" "t < TRUTH_AUCTION_MIN_SUPPORTED_TICK"
  proof -
    have "\<not> 0 < tick_price l" "t \<le> l" using t l by (auto simp: T T_def in_domain_iff split: if_splits)
    then have "tick_price t \<le> 0" using tick_price_mono [OF t(1) domain] by simp
    with tick_price_nonneg [OF t(1)] show ?thesis by simp
  qed
qed

definition supported :: "int \<Rightarrow> bool" where
  "supported t \<longleftrightarrow> TRUTH_AUCTION_MIN_SUPPORTED_TICK \<le> t \<and> t \<le> TRUTH_AUCTION_MAX_TICK"

lemma supported_domain: "supported t \<Longrightarrow> in_domain t"
  using min_supported_range by (auto simp: supported_def in_domain_iff TRUTH_AUCTION_MAX_TICK_def)

lemma price_at_tick: "getTruthAuctionPriceAtTick t =
    (if supported t then ok (tick_price t) else throw ''Truth auction tick is outside the supported range.'')"
  using supported_domain [of t]
  by (auto simp: getTruthAuctionPriceAtTick_def assertTruthAuctionTickInRange_def supported_def tickToPrice_ok)

lemma floor_tick_loop_spec:
  "supported l \<Longrightarrow> supported u \<Longrightarrow> l < u \<Longrightarrow> tick_price l \<le> p \<Longrightarrow> p < tick_price u \<Longrightarrow>
   \<exists>t. floor_tick_loop p l u = ok t \<and> l \<le> t \<and> t < u \<and> tick_price t \<le> p \<and> p < tick_price (t + 1)"
proof (induction p l u rule: floor_tick_loop.induct)
  case (1 p l u)
  show ?case
  proof (cases "1 < u - l")
    case False
    with "1.prems" have u: "u = l + 1" by simp
    show ?thesis using "1.prems" False unfolding u by (subst floor_tick_loop.simps) auto
  next
    case True
    define m where "m = (l + u) sdiv 2"
    have mid: "l < m" "m < u" using strict_mid_bounds [OF True] by (simp_all add: m_def)
    have m: "supported m" using "1.prems" mid by (auto simp: supported_def)
    then have price: "getTruthAuctionPriceAtTick m = ok (tick_price m)" by (simp add: price_at_tick)
    note unfold = floor_tick_loop.simps [of p l u, unfolded Let_def, folded m_def]
    show ?thesis
    proof (cases "tick_price m \<le> p")
      case low: True
      have "floor_tick_loop p l u = floor_tick_loop p m u" using True low price by (simp add: unfold)
      then show ?thesis using "1.IH"(1) [OF True m_def price low m "1.prems"(2) mid(2) low "1.prems"(5)] mid by auto
    next
      case high: False
      have "floor_tick_loop p l u = floor_tick_loop p l m" using True high price by (simp add: unfold)
      then show ?thesis using "1.IH"(2) [OF True m_def price high "1.prems"(1) m mid(1) "1.prems"(4)] high mid by auto
    qed
  qed
qed

lemma supported_ends: "supported TRUTH_AUCTION_MIN_SUPPORTED_TICK" "supported 0" "supported 524288"
  using min_supported_range by (auto simp: supported_def TRUTH_AUCTION_MAX_TICK_def)

lemmas tick_lookup = getTruthAuctionTickAtPrice_def price_at_tick TRUTH_AUCTION_PRICE_PRECISION_def TRUTH_AUCTION_MAX_TICK_def

lemma tick_at_price_outside:
  "price \<le> 0 \<or> price < tick_price TRUTH_AUCTION_MIN_SUPPORTED_TICK \<or> tick_price 524288 < price \<Longrightarrow>
   getTruthAuctionTickAtPrice price = ok None"
  using supported_ends by (simp add: tick_lookup)

lemma tick_at_price_inside:
  assumes inside: "\<not> (price \<le> 0 \<or> price < tick_price TRUTH_AUCTION_MIN_SUPPORTED_TICK \<or> tick_price 524288 < price)"
  obtains tick where "getTruthAuctionTickAtPrice price = ok (Some tick)" "supported tick" "tick_price tick \<le> price"
    "tick = 524288 \<or> price < tick_price (tick + 1)"
proof -
  let ?T = TRUTH_AUCTION_MIN_SUPPORTED_TICK and ?M = "tick_price 524288"
  note ends = supported_ends and lookup = tick_lookup
  have big: "10 ^ 18 < ?M" using tick_price_strict [of 0 524288] by (simp add: tick_price_zero)
  consider "price = 10 ^ 18" | "price = ?M" | "10 ^ 18 < price" "price < ?M" | "price < 10 ^ 18"
    using inside by linarith
  then show thesis
  proof cases
    case 1
    then show thesis
      using inside ends tick_price_strict [of 0 1] by (intro that [of 0]) (auto simp: lookup tick_price_zero)
  next
    case 2
    then show thesis using inside ends big by (intro that [of 524288]) (auto simp: lookup)
  next
    case 3
    then obtain t where "floor_tick_loop price 0 524288 = ok t" "0 \<le> t" "t < 524288" "tick_price t \<le> price"
        "price < tick_price (t + 1)"
      using floor_tick_loop_spec [OF ends(2,3), of price] by (auto simp: tick_price_zero)
    then show thesis
      using inside ends 3 by (intro that [of t]) (auto simp: lookup supported_def)
  next
    case 4
    have "?T < 0" using 4 inside tick_price_zero min_supported_range(2) by (cases "?T = 0") auto
    then obtain t where "floor_tick_loop price ?T 0 = ok t" "?T \<le> t" "t < 0" "tick_price t \<le> price"
        "price < tick_price (t + 1)"
      using floor_tick_loop_spec [OF ends(1,2), of price] 4 inside by (auto simp: tick_price_zero)
    then show thesis
      using inside ends 4 big by (intro that [of t]) (auto simp: lookup supported_def)
  qed
qed

text \<open>
  C23: A bid price snaps to the greatest supported tick whose price does not exceed it. The search
  returns for every price, with no tick exactly when the price is outside the supported prices;
  otherwise the price of the tick is at most the entered one, and every supported tick with such
  a price is at most the tick. In particular the price of a tick that is snapped again does not
  move below the tick's own price.
\<close>

theorem tick_at_price_is_greatest:
  "case getTruthAuctionTickAtPrice price of
     Inl e \<Rightarrow> False
   | Inr None \<Rightarrow> \<forall>tick. TRUTH_AUCTION_MIN_SUPPORTED_TICK \<le> tick \<and> tick \<le> TRUTH_AUCTION_MAX_TICK \<longrightarrow>
       (case (tickToPrice tick, tickToPrice TRUTH_AUCTION_MAX_TICK) of
          (Inr candidate, Inr greatest) \<Rightarrow> price < candidate \<or> greatest < price | _ \<Rightarrow> False)
   | Inr (Some tick) \<Rightarrow>
       (case getTruthAuctionPriceAtTick tick of Inl e \<Rightarrow> False | Inr submitted \<Rightarrow> 0 < submitted \<and> submitted \<le> price) \<and>
       (\<forall>other. case getTruthAuctionPriceAtTick other of Inl e \<Rightarrow> True | Inr candidate \<Rightarrow> candidate \<le> price \<longrightarrow> other \<le> tick)"
proof (cases "price \<le> 0 \<or> price < tick_price TRUTH_AUCTION_MIN_SUPPORTED_TICK \<or> tick_price 524288 < price")
  case True
  have "price < tick_price tick \<or> tick_price 524288 < price" if "supported tick" for tick
    using True tick_price_mono [OF supported_domain [OF supported_ends(1)] supported_domain [OF that]] min_supported_pos that
    by (auto simp: supported_def)
  then show ?thesis using tick_at_price_outside [OF True] supported_domain
    by (auto simp: tickToPrice_ok supported_def TRUTH_AUCTION_MAX_TICK_def in_domain_iff)
next
  case False
  then obtain tick where tick: "getTruthAuctionTickAtPrice price = ok (Some tick)" "supported tick" "tick_price tick \<le> price"
    and next_tick: "tick = 524288 \<or> price < tick_price (tick + 1)"
    by (rule tick_at_price_inside)
  have "0 < tick_price tick"
    using tick_price_mono [OF supported_domain [OF supported_ends(1)] supported_domain [OF tick(2)]] min_supported_pos tick(2)
    by (simp add: supported_def)
  moreover have "other \<le> tick" if "supported other" "tick_price other \<le> price" for other
  proof (rule ccontr)
    assume "\<not> other \<le> tick"
    then have "tick + 1 \<le> other" "in_domain (tick + 1)" and "tick \<noteq> 524288"
      using that(1) supported_domain [OF tick(2)] supported_domain [OF that(1)] by (auto simp: in_domain_iff)
    with next_tick show False
      using tick_price_mono [of "tick + 1" other] supported_domain [OF that(1)] that(2) by simp
  qed
  ultimately show ?thesis using tick by (auto simp: price_at_tick)
qed

theorem tick_at_price_is_greatest_witness:
  "case getTruthAuctionTickAtPrice (2 * 10 ^ 18) of
     Inr (Some tick) \<Rightarrow>
       (case getTruthAuctionPriceAtTick tick of Inl e \<Rightarrow> False | Inr submitted \<Rightarrow> 0 < submitted \<and> submitted \<le> 2 * 10 ^ 18)
   | Inr None \<Rightarrow> (case (tickToPrice 0, tickToPrice TRUTH_AUCTION_MAX_TICK) of
          (Inr candidate, Inr greatest) \<Rightarrow> 2 * 10 ^ 18 < candidate \<or> greatest < 2 * 10 ^ 18 | _ \<Rightarrow> False)
   | Inl e \<Rightarrow> False"
  using tick_at_price_is_greatest [of "2 * 10 ^ 18"] min_supported_range(2)
  by (auto simp: TRUTH_AUCTION_MAX_TICK_def split: sum.splits option.splits)

end
