(* ===== verification/Truth_Auction.thy ===== *)
theory Truth_Auction
  imports Tick_Price Vault_Ui
begin

text \<open>
  The truth auction's book and settlement as the screens compute them:
  \<open>truthAuctionBook.ts\<close> (tick and bid dispositions, settlement estimates, depth and
  progress) and \<open>truthAuctionSettlement.ts\<close> (selected bids and their totals), both in
  \<open>ui/statoblast/ts/features/truth-auctions/lib\<close>.
\<close>

section \<open>Auction data\<close>

record TruthAuctionMetrics =
  am_accumulatedBidAttoEth :: int
  am_auctionEndsAt :: "int option"
  am_clearingPrice :: "int option"
  am_clearingTick :: "int option"
  am_bidAtClearingTickAttoEth :: int
  am_attoEthRaiseCap :: int
  am_attoEthRaised :: int
  am_finalized :: bool
  am_hitCap :: bool
  am_maxAttoRepBeingSold :: int
  am_minBidSizeAttoEth :: int
  am_attoRepPurchasableAtBid :: "int option"
  am_timeRemaining :: "int option"
  am_totalAttoRepPurchased :: int
  am_underfunded :: bool
  am_underfundedThreshold :: "int option"
  am_underfundedWinningAttoEth :: int

record TruthAuctionTickSummary =
  tk_tick :: int
  tk_price :: int
  tk_currentTotalBidAttoEth :: int
  tk_submissionCount :: int
  tk_active :: bool

record TruthAuctionBidView =
  bv_tick :: int
  bv_bidIndex :: int
  bv_bidder :: string
  bv_bidAmountAttoEth :: int
  bv_cumulativeBidAttoEth :: int
  bv_activeCumulativeBidBeforeAttoEth :: int
  bv_claimed :: bool
  bv_refunded :: bool

datatype Tone = ToneDefault | ToneDanger | ToneSuccess | ToneWarning

record TruthAuctionDisposition =
  ad_label :: string
  ad_tone :: Tone

datatype TruthAuctionFinalizedSettlementKind = EthRefund | NoSettlement | RepClaim

datatype TruthAuctionBidSummaryKind = Losing | Neutral | Partial | Refundable | Refunded | RepClaimable | Winning

record TruthAuctionBidDisposition = TruthAuctionDisposition +
  bd_canPrefillRefund :: bool
  bd_canPrefillSettle :: bool
  bd_settlementKind :: TruthAuctionFinalizedSettlementKind
  bd_summaryKind :: TruthAuctionBidSummaryKind

abbreviation disposition :: "string \<Rightarrow> Tone \<Rightarrow> TruthAuctionDisposition" where
  "disposition label tone \<equiv> \<lparr>ad_label = label, ad_tone = tone\<rparr>"

abbreviation bid_disposition ::
  "string \<Rightarrow> Tone \<Rightarrow> bool \<Rightarrow> bool \<Rightarrow> TruthAuctionFinalizedSettlementKind \<Rightarrow> TruthAuctionBidSummaryKind \<Rightarrow> TruthAuctionBidDisposition" where
  "bid_disposition label tone refundable settleable settlement summary \<equiv>
     \<lparr>ad_label = label, ad_tone = tone, bd_canPrefillRefund = refundable, bd_canPrefillSettle = settleable,
      bd_settlementKind = settlement, bd_summaryKind = summary\<rparr>"

record TruthAuctionDepthPoint =
  dp_tick :: int
  dp_price :: int
  dp_currentTotalBidAttoEth :: int
  dp_cumulativeBidAttoEth :: int
  dp_disposition :: TruthAuctionDisposition
  dp_isSelected :: bool
  dp_isPreviewTick :: bool
  dp_submissionCount :: int

record TruthAuctionBidSettlementEstimate =
  be_purchasedRepAmountAttoRep :: int
  be_refundedBidAmountAttoEth :: int
  be_usedBidAmountAttoEth :: int

abbreviation bid_estimate :: "int \<Rightarrow> int \<Rightarrow> int \<Rightarrow> TruthAuctionBidSettlementEstimate" where
  "bid_estimate purchased returned spent \<equiv>
     \<lparr>be_purchasedRepAmountAttoRep = purchased, be_refundedBidAmountAttoEth = returned, be_usedBidAmountAttoEth = spent\<rparr>"

section \<open>The book\<close>

definition estimateRepPurchased :: "int \<Rightarrow> int \<Rightarrow> int" where
  "estimateRepPurchased bidAmountAttoEth price =
     (if bidAmountAttoEth \<le> 0 \<or> price \<le> 0 then 0 else (bidAmountAttoEth * TRUTH_AUCTION_PRICE_PRECISION) sdiv price)"

definition ceilDiv_auction :: "int \<Rightarrow> int \<Rightarrow> int" where
  "ceilDiv_auction dividend divisor = (if divisor \<le> 0 then 0 else (dividend + divisor - 1) sdiv divisor)"

fun underfunded_loop :: "TruthAuctionTickSummary list \<Rightarrow> int \<Rightarrow> int \<Rightarrow> int" where
  "underfunded_loop [] maxAttoRepBeingSold winningAttoEth = winningAttoEth"
| "underfunded_loop (tickSummary # rest) maxAttoRepBeingSold winningAttoEth =
     (let candidateWinningAttoEth = winningAttoEth + tk_currentTotalBidAttoEth tickSummary;
          thresholdPrice = ceilDiv_auction (candidateWinningAttoEth * TRUTH_AUCTION_PRICE_PRECISION) maxAttoRepBeingSold
      in if thresholdPrice > tk_price tickSummary then winningAttoEth
         else underfunded_loop rest maxAttoRepBeingSold candidateWinningAttoEth)"

definition findUnderfundedWinningAttoEth :: "TruthAuctionTickSummary list \<Rightarrow> int \<Rightarrow> int" where
  "findUnderfundedWinningAttoEth tickSummaries maxAttoRepBeingSold =
     (if maxAttoRepBeingSold \<le> 0 then 0 else underfunded_loop tickSummaries maxAttoRepBeingSold 0)"

definition assertValidUnderfundedTruthAuctionMetrics :: "TruthAuctionMetrics \<Rightarrow> unit result" where
  "assertValidUnderfundedTruthAuctionMetrics truthAuction =
     (if am_finalized truthAuction \<and> am_underfunded truthAuction \<and> am_underfundedWinningAttoEth truthAuction > 0 then
        if am_underfundedThreshold truthAuction = None
        then throw ''Finalized underfunded truth auction metrics are missing the winning threshold.''
        else if am_clearingTick truthAuction = None
        then throw ''Finalized underfunded truth auction metrics are missing the winning clearing tick.''
        else ok ()
      else ok ())"

definition getTruthAuctionWinningThresholdPrice :: "TruthAuctionMetrics option \<Rightarrow> int option result" where
  "getTruthAuctionWinningThresholdPrice auction =
     (case auction of
        None \<Rightarrow> ok None
      | Some truthAuction \<Rightarrow>
          if \<not> am_finalized truthAuction \<or> \<not> am_underfunded truthAuction then ok None
          else bindR (assertValidUnderfundedTruthAuctionMetrics truthAuction) (\<lambda>_.
            if am_underfundedWinningAttoEth truthAuction = 0 then ok None else ok (am_underfundedThreshold truthAuction)))"

definition isFinalizedUnderfundedWithoutWinningPrefix :: "TruthAuctionMetrics \<Rightarrow> bool" where
  "isFinalizedUnderfundedWithoutWinningPrefix truthAuction \<longleftrightarrow>
     am_finalized truthAuction \<and> am_underfunded truthAuction \<and> am_underfundedWinningAttoEth truthAuction = 0"

definition isUnderfundedWinningTick :: "int \<Rightarrow> TruthAuctionMetrics \<Rightarrow> bool" where
  "isUnderfundedWinningTick tick truthAuction \<longleftrightarrow>
     am_finalized truthAuction \<and> am_underfunded truthAuction \<and>
     (case am_clearingTick truthAuction of None \<Rightarrow> False
      | Some clearingTick \<Rightarrow> am_underfundedWinningAttoEth truthAuction > 0 \<and> tick \<ge> clearingTick)"

definition getTruthAuctionTickDisposition ::
  "TruthAuctionTickSummary \<Rightarrow> TruthAuctionMetrics option \<Rightarrow> TruthAuctionDisposition result" where
  "getTruthAuctionTickDisposition tickSummary auction =
     (if tk_currentTotalBidAttoEth tickSummary = 0 then ok (disposition ''Historical'' ToneDefault)
      else case auction of
        None \<Rightarrow> ok (disposition ''Live'' ToneDefault)
      | Some truthAuction \<Rightarrow>
          bindR (getTruthAuctionWinningThresholdPrice (Some truthAuction)) (\<lambda>winningThresholdPrice.
            if winningThresholdPrice \<noteq> None then
              ok (if isUnderfundedWinningTick (tk_tick tickSummary) truthAuction
                  then disposition ''Winning'' ToneSuccess else disposition ''Out'' ToneDanger)
            else if isFinalizedUnderfundedWithoutWinningPrefix truthAuction then ok (disposition ''Out'' ToneDanger)
            else case (am_hitCap truthAuction, am_clearingTick truthAuction, am_clearingPrice truthAuction) of
              (True, Some clearingTick, Some clearingPrice) \<Rightarrow>
                if tk_tick tickSummary > clearingTick
                then ok (disposition (if am_finalized truthAuction then ''Winning'' else ''Above Clearing'') ToneSuccess)
                else if tk_tick tickSummary < clearingTick
                then ok (disposition (if am_finalized truthAuction then ''Out'' else ''Below Clearing'') ToneDanger)
                else ok (disposition (if am_finalized truthAuction then ''Clearing'' else ''At Clearing'') ToneWarning)
            | _ \<Rightarrow> ok (if am_finalized truthAuction then disposition ''Winning'' ToneSuccess
                       else disposition ''In Book'' ToneDefault)))"

text \<open>The four outcomes of a finalized bid that recur in the code.\<close>

abbreviation "claimed_bid \<equiv> bid_disposition ''Claimed'' ToneSuccess False False RepClaim Neutral"
abbreviation "winning_bid \<equiv> bid_disposition ''Winning'' ToneSuccess False True RepClaim Winning"
abbreviation "refunded_bid \<equiv> bid_disposition ''Refunded'' ToneDefault False False EthRefund Refunded"
abbreviation "refundable_bid \<equiv> bid_disposition ''Refundable'' ToneDanger True False EthRefund Refundable"
abbreviation "at_clearing_bid \<equiv> bid_disposition ''At Clearing'' ToneWarning False False NoSettlement Neutral"
abbreviation "in_book_bid \<equiv> bid_disposition ''In Book'' ToneDefault False False NoSettlement Neutral"

definition getTruthAuctionBidDisposition ::
  "TruthAuctionBidView \<Rightarrow> TruthAuctionMetrics option \<Rightarrow> TruthAuctionBidDisposition result" where
  "getTruthAuctionBidDisposition bid auction =
     (if bv_refunded bid then ok refunded_bid
      else case auction of
        None \<Rightarrow>
          if bv_claimed bid then ok (bid_disposition ''Claimed'' ToneSuccess False False NoSettlement Neutral)
          else ok (bid_disposition ''Pending'' ToneDefault False False NoSettlement Neutral)
      | Some truthAuction \<Rightarrow>
          bindR (getTruthAuctionWinningThresholdPrice (Some truthAuction)) (\<lambda>winningThresholdPrice.
            if winningThresholdPrice \<noteq> None then
              if isUnderfundedWinningTick (bv_tick bid) truthAuction then
                if am_finalized truthAuction then ok (if bv_claimed bid then claimed_bid else winning_bid)
                else ok (bid_disposition ''Provisional'' ToneWarning False False NoSettlement Neutral)
              else if am_finalized truthAuction then ok (if bv_claimed bid then refunded_bid else refundable_bid)
              else ok in_book_bid
            else if isFinalizedUnderfundedWithoutWinningPrefix truthAuction
            then ok (if bv_claimed bid then refunded_bid else refundable_bid)
            else case (am_hitCap truthAuction, am_clearingTick truthAuction, am_clearingPrice truthAuction) of
              (True, Some clearingTick, Some clearingPrice) \<Rightarrow>
                if bv_tick bid > clearingTick then
                  if am_finalized truthAuction then ok (if bv_claimed bid then claimed_bid else winning_bid)
                  else ok (bid_disposition ''Above Clearing'' ToneWarning False False NoSettlement Neutral)
                else if bv_tick bid < clearingTick then
                  if am_finalized truthAuction then ok (if bv_claimed bid then refunded_bid else refundable_bid)
                  else ok (bid_disposition ''Below Clearing'' ToneDanger (\<not> am_finalized truthAuction) False NoSettlement Losing)
                else
                  let previousCumulativeBidAttoEth = bv_activeCumulativeBidBeforeAttoEth bid;
                      activeCumulativeAttoEth = previousCumulativeBidAttoEth + bv_bidAmountAttoEth bid
                  in
                  if am_bidAtClearingTickAttoEth truthAuction \<le> previousCumulativeBidAttoEth then
                    if am_finalized truthAuction then ok (if bv_claimed bid then refunded_bid else refundable_bid)
                    else ok (bid_disposition ''Below Clearing'' ToneDanger True False NoSettlement Losing)
                  else if am_bidAtClearingTickAttoEth truthAuction \<ge> activeCumulativeAttoEth then
                    if am_finalized truthAuction then ok (if bv_claimed bid then claimed_bid else winning_bid)
                    else ok at_clearing_bid
                  else if am_finalized truthAuction then
                    ok (if bv_claimed bid then claimed_bid
                        else bid_disposition ''Partial'' ToneWarning False True RepClaim Partial)
                  else ok at_clearing_bid
            | _ \<Rightarrow>
                if am_finalized truthAuction then ok (if bv_claimed bid then claimed_bid else winning_bid)
                else ok in_book_bid))"

definition getTruthAuctionBidSettlementEstimate ::
  "TruthAuctionBidView \<Rightarrow> TruthAuctionMetrics option \<Rightarrow> TruthAuctionBidSettlementEstimate result" where
  "getTruthAuctionBidSettlementEstimate bid auction =
     (case auction of
        None \<Rightarrow> ok (bid_estimate 0 0 0)
      | Some truthAuction \<Rightarrow>
          bindR (getTruthAuctionWinningThresholdPrice (Some truthAuction)) (\<lambda>winningThresholdPrice.
          bindR (getTruthAuctionPriceAtTick (bv_tick bid)) (\<lambda>bidPrice.
            if winningThresholdPrice \<noteq> None then
              if \<not> isUnderfundedWinningTick (bv_tick bid) truthAuction then ok (bid_estimate 0 (bv_bidAmountAttoEth bid) 0)
              else if am_underfundedWinningAttoEth truthAuction = 0 \<or> am_totalAttoRepPurchased truthAuction = 0
              then ok (bid_estimate 0 0 (bv_bidAmountAttoEth bid))
              else ok (bid_estimate
                ((bv_bidAmountAttoEth bid * am_totalAttoRepPurchased truthAuction) sdiv am_underfundedWinningAttoEth truthAuction)
                0 (bv_bidAmountAttoEth bid))
            else if isFinalizedUnderfundedWithoutWinningPrefix truthAuction
            then ok (bid_estimate 0 (bv_bidAmountAttoEth bid) 0)
            else case (am_hitCap truthAuction, am_clearingTick truthAuction, am_clearingPrice truthAuction) of
              (True, Some clearingTick, Some clearingPrice) \<Rightarrow>
                if bv_tick bid > clearingTick
                then ok (bid_estimate (estimateRepPurchased (bv_bidAmountAttoEth bid) clearingPrice) 0 (bv_bidAmountAttoEth bid))
                else if bv_tick bid < clearingTick then ok (bid_estimate 0 (bv_bidAmountAttoEth bid) 0)
                else
                  let previousCumulativeBidAttoEth = bv_activeCumulativeBidBeforeAttoEth bid;
                      activeCumulativeAttoEth = previousCumulativeBidAttoEth + bv_bidAmountAttoEth bid
                  in
                  if am_bidAtClearingTickAttoEth truthAuction \<le> previousCumulativeBidAttoEth
                  then ok (bid_estimate 0 (bv_bidAmountAttoEth bid) 0)
                  else if am_bidAtClearingTickAttoEth truthAuction \<ge> activeCumulativeAttoEth
                  then ok (bid_estimate (estimateRepPurchased (bv_bidAmountAttoEth bid) clearingPrice) 0 (bv_bidAmountAttoEth bid))
                  else
                    let usedBidAmountAttoEth = am_bidAtClearingTickAttoEth truthAuction - previousCumulativeBidAttoEth
                    in ok (bid_estimate (estimateRepPurchased usedBidAmountAttoEth clearingPrice)
                             (bv_bidAmountAttoEth bid - usedBidAmountAttoEth) usedBidAmountAttoEth)
            | _ \<Rightarrow> ok (bid_estimate (estimateRepPurchased (bv_bidAmountAttoEth bid) bidPrice) 0 (bv_bidAmountAttoEth bid)))))"

fun getTruthAuctionDispositionClassName :: "Tone \<Rightarrow> string" where
  "getTruthAuctionDispositionClassName ToneDanger = ''is-danger''"
| "getTruthAuctionDispositionClassName ToneSuccess = ''is-success''"
| "getTruthAuctionDispositionClassName ToneWarning = ''is-warning''"
| "getTruthAuctionDispositionClassName ToneDefault = ''is-default''"

definition compareTicksDescending :: "TruthAuctionTickSummary \<Rightarrow> TruthAuctionTickSummary \<Rightarrow> int" where
  "compareTicksDescending left right =
     (if tk_tick left = tk_tick right then 0 else if tk_tick left > tk_tick right then - 1 else 1)"

definition sortTruthAuctionTickSummariesDescending :: "TruthAuctionTickSummary list \<Rightarrow> TruthAuctionTickSummary list" where
  "sortTruthAuctionTickSummariesDescending tickSummaries = js_sort compareTicksDescending tickSummaries"

text \<open>The \<open>map\<close> of \<open>buildTruthAuctionDepthPoints\<close>, with the running total it updates.\<close>

fun depth_points ::
  "int option \<Rightarrow> int option \<Rightarrow> TruthAuctionMetrics option \<Rightarrow> int \<Rightarrow> TruthAuctionTickSummary list \<Rightarrow> TruthAuctionDepthPoint list result" where
  "depth_points enteredBidTick selectedBookTick auction cumulativeBidAttoEth [] = ok []"
| "depth_points enteredBidTick selectedBookTick auction cumulativeBidAttoEth (tickSummary # rest) =
     (let cumulative = cumulativeBidAttoEth + tk_currentTotalBidAttoEth tickSummary in
      bindR (getTruthAuctionTickDisposition tickSummary auction) (\<lambda>d.
      bindR (depth_points enteredBidTick selectedBookTick auction cumulative rest) (\<lambda>points.
      ok (\<lparr>dp_tick = tk_tick tickSummary, dp_price = tk_price tickSummary,
           dp_currentTotalBidAttoEth = tk_currentTotalBidAttoEth tickSummary, dp_cumulativeBidAttoEth = cumulative,
           dp_disposition = d, dp_isSelected = (selectedBookTick = Some (tk_tick tickSummary)),
           dp_isPreviewTick = (enteredBidTick = Some (tk_tick tickSummary)),
           dp_submissionCount = tk_submissionCount tickSummary\<rparr> # points))))"

definition buildTruthAuctionDepthPoints ::
  "int option \<Rightarrow> int option \<Rightarrow> TruthAuctionTickSummary list \<Rightarrow> TruthAuctionMetrics option \<Rightarrow> TruthAuctionDepthPoint list result" where
  "buildTruthAuctionDepthPoints enteredBidTick selectedBookTick tickSummaries auction =
     depth_points enteredBidTick selectedBookTick auction 0
       (filter (\<lambda>tickSummary. tk_active tickSummary \<or> tk_currentTotalBidAttoEth tickSummary > 0) tickSummaries)"

record TruthAuctionProgress =
  ap_attoEthRaised :: int
  ap_attoRepSold :: int

text \<open>The loop over the active ticks once the cap is hit: remaining cap, ETH raised and REP sold.\<close>

fun progress_loop :: "int \<Rightarrow> int \<Rightarrow> TruthAuctionTickSummary list \<Rightarrow> int \<Rightarrow> int \<Rightarrow> int \<Rightarrow> int \<times> int" where
  "progress_loop clearingTick bidAtClearingTick [] remainingCap raised sold = (raised, sold)"
| "progress_loop clearingTick bidAtClearingTick (tickSummary # rest) remainingCap raised sold =
     (if remainingCap \<le> 0 then (raised, sold)
      else
        let accepted = (if tk_tick tickSummary > clearingTick then tk_currentTotalBidAttoEth tickSummary
              else if tk_tick tickSummary = clearingTick then
                (if bidAtClearingTick < tk_currentTotalBidAttoEth tickSummary then bidAtClearingTick
                 else tk_currentTotalBidAttoEth tickSummary)
              else 0)
        in
        if accepted \<le> 0 then progress_loop clearingTick bidAtClearingTick rest remainingCap raised sold
        else
          let acceptedAttoEth = (if accepted > remainingCap then remainingCap else accepted)
          in progress_loop clearingTick bidAtClearingTick rest (remainingCap - acceptedAttoEth) (raised + acceptedAttoEth)
               (sold + estimateRepPurchased acceptedAttoEth (tk_price tickSummary)))"

definition getTruthAuctionOverviewProgress ::
  "TruthAuctionMetrics option \<Rightarrow> TruthAuctionTickSummary list \<Rightarrow> TruthAuctionProgress option" where
  "getTruthAuctionOverviewProgress auction tickSummaries =
     (case auction of
        None \<Rightarrow> None
      | Some truthAuction \<Rightarrow>
          if am_finalized truthAuction then
            Some \<lparr>ap_attoEthRaised = (if am_underfunded truthAuction then am_underfundedWinningAttoEth truthAuction
                                      else am_attoEthRaised truthAuction),
                  ap_attoRepSold = am_totalAttoRepPurchased truthAuction\<rparr>
          else
            let activeTickSummaries = filter (\<lambda>tickSummary. tk_currentTotalBidAttoEth tickSummary > 0)
                  (sortTruthAuctionTickSummariesDescending tickSummaries)
            in
            if activeTickSummaries = [] then
              Some \<lparr>ap_attoEthRaised = am_attoEthRaised truthAuction, ap_attoRepSold = am_totalAttoRepPurchased truthAuction\<rparr>
            else
              let (provisionalEthRaisedAttoEth, provisionalRepSoldAttoRep) =
                    (case (am_hitCap truthAuction, am_clearingTick truthAuction, am_clearingPrice truthAuction) of
                       (True, Some clearingTick, Some clearingPrice) \<Rightarrow>
                         progress_loop clearingTick (am_bidAtClearingTickAttoEth truthAuction) activeTickSummaries
                           (am_attoEthRaiseCap truthAuction) 0 0
                     | _ \<Rightarrow>
                         let underfundedWinningAttoEth =
                               findUnderfundedWinningAttoEth activeTickSummaries (am_maxAttoRepBeingSold truthAuction)
                         in if underfundedWinningAttoEth > 0
                            then (underfundedWinningAttoEth, am_maxAttoRepBeingSold truthAuction) else (0, 0))
              in Some \<lparr>ap_attoEthRaised = (if provisionalEthRaisedAttoEth > am_attoEthRaiseCap truthAuction
                                         then am_attoEthRaiseCap truthAuction else provisionalEthRaisedAttoEth),
                       ap_attoRepSold = (if provisionalRepSoldAttoRep > am_maxAttoRepBeingSold truthAuction
                                       then am_maxAttoRepBeingSold truthAuction else provisionalRepSoldAttoRep)\<rparr>)"

definition compareBidsByPriority :: "TruthAuctionBidView \<Rightarrow> TruthAuctionBidView \<Rightarrow> int" where
  "compareBidsByPriority left right =
     (if bv_tick left \<noteq> bv_tick right then (if bv_tick left > bv_tick right then - 1 else 1)
      else if bv_bidIndex left \<noteq> bv_bidIndex right then (if bv_bidIndex left < bv_bidIndex right then - 1 else 1)
      else 0)"

definition sortTruthAuctionBidsByPriority :: "TruthAuctionBidView list \<Rightarrow> TruthAuctionBidView list" where
  "sortTruthAuctionBidsByPriority bids = js_sort compareBidsByPriority bids"

section \<open>Settlement\<close>

record TruthAuctionSettlementBidRow =
  sr_bid :: TruthAuctionBidView
  sr_disposition :: TruthAuctionBidDisposition

datatype TruthAuctionSettlementSelectionMode = ClaimMode | MixedMode | RefundMode

record TruthAuctionSettlementSelectionState =
  sl_rowKeys :: "string list"
  sl_selectedRows :: "TruthAuctionSettlementBidRow list"
  sl_selectedRefundRows :: "TruthAuctionSettlementBidRow list"
  sl_selectedClaimRows :: "TruthAuctionSettlementBidRow list"
  sl_selectedClaimKeys :: "string list"
  sl_selectedRefundKeys :: "string list"
  sl_rowsHaveClaims :: bool
  sl_rowsHaveRefunds :: bool
  sl_rowsSelectionMode :: TruthAuctionSettlementSelectionMode
  sl_selectionMode :: TruthAuctionSettlementSelectionMode
  sl_selectionHasClaims :: bool
  sl_selectionHasRefunds :: bool

record TruthAuctionSettlementSelectionEstimate =
  se_estimatedAssignedCapacityOwnershipAttoRep :: "int option"
  se_estimatedRefundedAttoEth :: int
  se_estimatedVaultRepBackingAttoRep :: int

definition getTruthAuctionSettlementBidKey :: "TruthAuctionBidView \<Rightarrow> string" where
  "getTruthAuctionSettlementBidKey bid = bigint_to_string (bv_tick bid) @ '':'' @ bigint_to_string (bv_bidIndex bid)"

definition getTruthAuctionSettlementBidRows ::
  "string option \<Rightarrow> TruthAuctionMetrics option \<Rightarrow> TruthAuctionBidView list \<Rightarrow> TruthAuctionSettlementBidRow list result" where
  "getTruthAuctionSettlementBidRows accountAddress auction viewerBids =
     (if auction = None \<or> accountAddress = None then ok []
      else bindR (mapR (\<lambda>bid. bindR (getTruthAuctionBidDisposition bid auction) (\<lambda>d. ok \<lparr>sr_bid = bid, sr_disposition = d\<rparr>)) viewerBids)
        (\<lambda>rows. ok (filter (\<lambda>row. sameAddress_ui (Some (bv_bidder (sr_bid row))) accountAddress \<and>
          (bd_canPrefillRefund (sr_disposition row) \<or> bd_canPrefillSettle (sr_disposition row))) rows)))"

definition getTruthAuctionSettlementSelectionState ::
  "string list \<Rightarrow> TruthAuctionSettlementBidRow list \<Rightarrow> TruthAuctionSettlementSelectionState" where
  "getTruthAuctionSettlementSelectionState selectedBidKeys settlementBidRows =
     (let rowKeys = map (\<lambda>row. getTruthAuctionSettlementBidKey (sr_bid row)) settlementBidRows;
          selectedRows = filter (\<lambda>row. getTruthAuctionSettlementBidKey (sr_bid row) \<in> set selectedBidKeys) settlementBidRows;
          selectedRefundRows = filter (\<lambda>row. bd_canPrefillRefund (sr_disposition row)) selectedRows;
          selectedClaimRows = filter (\<lambda>row. bd_canPrefillSettle (sr_disposition row)) selectedRows;
          rowsHaveClaims = list_ex (\<lambda>row. bd_canPrefillSettle (sr_disposition row)) settlementBidRows;
          rowsHaveRefunds = list_ex (\<lambda>row. bd_canPrefillRefund (sr_disposition row)) settlementBidRows;
          rowsSelectionMode = (if rowsHaveClaims \<and> rowsHaveRefunds then MixedMode
            else if rowsHaveClaims then ClaimMode else RefundMode);
          selectionMode = (if selectedRefundRows \<noteq> [] \<and> selectedClaimRows \<noteq> [] then MixedMode
            else if selectedClaimRows \<noteq> [] then ClaimMode
            else if selectedRows \<noteq> [] then RefundMode else rowsSelectionMode)
      in \<lparr>sl_rowKeys = rowKeys, sl_selectedRows = selectedRows, sl_selectedRefundRows = selectedRefundRows,
          sl_selectedClaimRows = selectedClaimRows,
          sl_selectedClaimKeys = map (\<lambda>row. getTruthAuctionSettlementBidKey (sr_bid row)) selectedClaimRows,
          sl_selectedRefundKeys = map (\<lambda>row. getTruthAuctionSettlementBidKey (sr_bid row)) selectedRefundRows,
          sl_rowsHaveClaims = rowsHaveClaims, sl_rowsHaveRefunds = rowsHaveRefunds, sl_rowsSelectionMode = rowsSelectionMode,
          sl_selectionMode = selectionMode, sl_selectionHasClaims = (selectedClaimRows \<noteq> []),
          sl_selectionHasRefunds = (selectedRefundRows \<noteq> [])\<rparr>)"

text \<open>The loop of the selection estimate: refunded ETH, vault REP backing and the carried remainder.\<close>

fun selection_loop ::
  "TruthAuctionMetrics option \<Rightarrow> bool \<Rightarrow> TruthAuctionSettlementBidRow list \<Rightarrow> int \<Rightarrow> int \<Rightarrow> int \<Rightarrow> (int \<times> int) result" where
  "selection_loop auction carry [] refunded backing remainder = ok (refunded, backing)"
| "selection_loop auction carry (row # rows) refunded backing remainder =
     bindR (getTruthAuctionBidSettlementEstimate (sr_bid row) auction) (\<lambda>estimate.
       let refunded' = refunded + be_refundedBidAmountAttoEth estimate in
       case auction of
         Some truthAuction \<Rightarrow>
           if carry \<and> bd_canPrefillSettle (sr_disposition row) then
             let numerator = bv_bidAmountAttoEth (sr_bid row) * am_totalAttoRepPurchased truthAuction + remainder
             in selection_loop auction carry rows refunded'
                  (backing + numerator sdiv am_underfundedWinningAttoEth truthAuction)
                  (numerator smod am_underfundedWinningAttoEth truthAuction)
           else selection_loop auction carry rows refunded' (backing + be_purchasedRepAmountAttoRep estimate) remainder
       | None \<Rightarrow> selection_loop auction carry rows refunded' (backing + be_purchasedRepAmountAttoRep estimate) remainder)"

definition getTruthAuctionSettlementSelectionEstimate ::
  "int option \<Rightarrow> TruthAuctionSettlementBidRow list \<Rightarrow> TruthAuctionMetrics option \<Rightarrow> TruthAuctionSettlementSelectionEstimate result" where
  "getTruthAuctionSettlementSelectionEstimate auctionedCapacityOwnershipAttoRep selectedRows auction =
     bindR (getTruthAuctionWinningThresholdPrice auction) (\<lambda>winningThresholdPrice.
       let shouldCarryUnderfundedRemainder = (case auction of None \<Rightarrow> False
             | Some truthAuction \<Rightarrow> winningThresholdPrice \<noteq> None \<and> am_underfundedWinningAttoEth truthAuction > 0 \<and>
                 am_totalAttoRepPurchased truthAuction > 0)
       in
       bindR (selection_loop auction shouldCarryUnderfundedRemainder selectedRows 0 0 0) (\<lambda>(refunded, backing).
         let assigned = (if backing > 0 then
               (case (auction, auctionedCapacityOwnershipAttoRep) of
                  (Some truthAuction, Some ownership) \<Rightarrow>
                    if am_totalAttoRepPurchased truthAuction = 0 then None
                    else Some ((ownership * backing) sdiv am_totalAttoRepPurchased truthAuction)
                | _ \<Rightarrow> None)
               else Some 0)
         in ok \<lparr>se_estimatedAssignedCapacityOwnershipAttoRep = assigned, se_estimatedRefundedAttoEth = refunded,
                se_estimatedVaultRepBackingAttoRep = backing\<rparr>))"

definition getTruthAuctionSettlementActionAvailabilityMessage ::
  "bool option \<Rightarrow> TruthAuctionSettlementBidRow list \<Rightarrow> TruthAuctionSettlementBidRow list \<Rightarrow> bool \<Rightarrow> bool \<Rightarrow>
    TruthAuctionMetrics option \<Rightarrow> string option" where
  "getTruthAuctionSettlementActionAvailabilityMessage claimingAvailable selectedClaimRows selectedRows selectionHasClaims
      selectionHasRefunds auction =
     (let bidActionAvailability =
            (if selectedRows = [] then Some ''Pick one or more of your bids before settlement.''
             else case auction of
               None \<Rightarrow> Some ''Loading truth auction.''
             | Some truthAuction \<Rightarrow>
                 if am_finalized truthAuction \<and> selectionHasClaims \<and> claimingAvailable = Some False
                 then Some ''Finalized settlement is not available for this pool.''
                 else if selectionHasClaims \<and> \<not> am_finalized truthAuction
                 then Some ''Winning bids can only be settled after the truth auction is finalized.''
                 else if \<not> am_finalized truthAuction \<and> (\<not> am_hitCap truthAuction \<or> am_clearingTick truthAuction = None)
                 then Some ''Losing bids cannot be refunded until the auction has a clearing tick.''
                 else None)
      in
      if selectedRows = [] then bidActionAvailability
      else if selectionHasClaims \<and> selectedClaimRows = []
      then Some ''Select one or more winning bids before submitting settlement.''
      else if \<not> selectionHasClaims \<and> \<not> selectionHasRefunds
      then Some ''Select one or more refundable bids before submitting refunds.''
      else bidActionAvailability)"

section \<open>One bid\<close>

lemma estimateRepPurchased_nonneg: "0 \<le> estimateRepPurchased a p"
  by (simp add: estimateRepPurchased_def sdiv_nonneg pos_imp_zdiv_nonneg_iff TRUTH_AUCTION_PRICE_PRECISION_def)

lemma threshold_Some:
  assumes "getTruthAuctionWinningThresholdPrice (Some a) = ok (Some p)"
  shows "am_finalized a" and "am_underfunded a" and "am_underfundedWinningAttoEth a \<noteq> 0"
    and "am_underfundedThreshold a = Some p"
  using assms
  by (auto simp: getTruthAuctionWinningThresholdPrice_def bindR_eq_Inr_iff split: if_splits)

text \<open>Whether the auction takes a finalized bid wholly, partly or not at all.\<close>

datatype BidOutcome = Whole | PartOf int | NoPart

definition bid_outcome :: "TruthAuctionBidView \<Rightarrow> TruthAuctionMetrics \<Rightarrow> int option \<Rightarrow> BidOutcome" where
  "bid_outcome bid a winningThresholdPrice =
     (if winningThresholdPrice \<noteq> None then (if isUnderfundedWinningTick (bv_tick bid) a then Whole else NoPart)
      else if isFinalizedUnderfundedWithoutWinningPrefix a then NoPart
      else case (am_hitCap a, am_clearingTick a, am_clearingPrice a) of
        (True, Some clearingTick, Some clearingPrice) \<Rightarrow>
          if bv_tick bid > clearingTick then Whole
          else if bv_tick bid < clearingTick then NoPart
          else if am_bidAtClearingTickAttoEth a \<le> bv_activeCumulativeBidBeforeAttoEth bid then NoPart
          else if am_bidAtClearingTickAttoEth a \<ge> bv_activeCumulativeBidBeforeAttoEth bid + bv_bidAmountAttoEth bid then Whole
          else PartOf (am_bidAtClearingTickAttoEth a - bv_activeCumulativeBidBeforeAttoEth bid)
      | _ \<Rightarrow> Whole)"

lemma PartOf_bounds: "bid_outcome bid a w = PartOf x \<Longrightarrow> 0 < x \<and> x < bv_bidAmountAttoEth bid"
  by (auto simp: bid_outcome_def split: if_splits prod.splits option.splits bool.splits)

lemma disposition_of_outcome:
  assumes "getTruthAuctionWinningThresholdPrice (Some a) = ok w" and "am_finalized a"
    and "\<not> bv_refunded bid" and "\<not> bv_claimed bid"
  shows "getTruthAuctionBidDisposition bid (Some a) = ok (case bid_outcome bid a w of
    Whole \<Rightarrow> winning_bid | NoPart \<Rightarrow> refundable_bid
  | PartOf x \<Rightarrow> bid_disposition ''Partial'' ToneWarning False True RepClaim Partial)"
  using assms
  by (simp add: getTruthAuctionBidDisposition_def bid_outcome_def Let_def split: option.split bool.split)

lemma claimed_of_outcome:
  assumes "getTruthAuctionWinningThresholdPrice (Some a) = ok w" and "am_finalized a"
    and "\<not> bv_refunded bid" and "bv_claimed bid"
  shows "getTruthAuctionBidDisposition bid (Some a) = ok (case bid_outcome bid a w of
    Whole \<Rightarrow> claimed_bid | NoPart \<Rightarrow> refunded_bid | PartOf x \<Rightarrow> claimed_bid)"
  using assms
  by (simp add: getTruthAuctionBidDisposition_def bid_outcome_def Let_def split: option.split bool.split)

lemma estimate_as_outcome:
  assumes "getTruthAuctionWinningThresholdPrice (Some a) = ok w"
    and "getTruthAuctionBidSettlementEstimate bid (Some a) = ok e"
  shows "\<exists>purchased. e = (case bid_outcome bid a w of
      Whole \<Rightarrow> bid_estimate purchased 0 (bv_bidAmountAttoEth bid)
    | PartOf x \<Rightarrow> bid_estimate purchased (bv_bidAmountAttoEth bid - x) x
    | NoPart \<Rightarrow> bid_estimate 0 (bv_bidAmountAttoEth bid) 0)"
proof -
  obtain price where "getTruthAuctionPriceAtTick (bv_tick bid) = ok price"
    using assms by (auto simp: getTruthAuctionBidSettlementEstimate_def bindR_eq_Inr_iff)
  then have "\<exists>purchased. getTruthAuctionBidSettlementEstimate bid (Some a) = ok (case bid_outcome bid a w of
      Whole \<Rightarrow> bid_estimate purchased 0 (bv_bidAmountAttoEth bid)
    | PartOf x \<Rightarrow> bid_estimate purchased (bv_bidAmountAttoEth bid - x) x
    | NoPart \<Rightarrow> bid_estimate 0 (bv_bidAmountAttoEth bid) 0)"
    using assms(1)
    by (simp add: getTruthAuctionBidSettlementEstimate_def bid_outcome_def Let_def split: option.split bool.split)
  with assms(2) show ?thesis by auto
qed

lemma estimate_of_outcome:
  assumes "getTruthAuctionWinningThresholdPrice (Some a) = ok w"
    and "getTruthAuctionBidSettlementEstimate bid (Some a) = ok e"
  shows "be_usedBidAmountAttoEth e = (case bid_outcome bid a w of Whole \<Rightarrow> bv_bidAmountAttoEth bid | PartOf x \<Rightarrow> x | NoPart \<Rightarrow> 0)"
    and "be_refundedBidAmountAttoEth e = bv_bidAmountAttoEth bid - be_usedBidAmountAttoEth e"
    and "bid_outcome bid a w = NoPart \<Longrightarrow> be_purchasedRepAmountAttoRep e = 0"
  using estimate_as_outcome [OF assms] by (cases "bid_outcome bid a w"; auto)+

text \<open>
  C14: What the book shows for a finalized bid is what settling it pays. The part of the bid
  that is used and the part that is refunded always add up to the bid, neither is negative, and
  of an open bid with a positive amount exactly one action is offered: a refund when the whole
  bid comes back and buys nothing, a settlement when a positive part of it is used.
\<close>

theorem bid_settlement_matches_disposition:
  assumes "getTruthAuctionBidDisposition bid (Some auction) = ok shown"
    and "getTruthAuctionBidSettlementEstimate bid (Some auction) = ok estimate"
    and "0 < bv_bidAmountAttoEth bid"
  shows "be_usedBidAmountAttoEth estimate + be_refundedBidAmountAttoEth estimate = bv_bidAmountAttoEth bid \<and>
    0 \<le> be_usedBidAmountAttoEth estimate \<and> 0 \<le> be_refundedBidAmountAttoEth estimate \<and>
    (am_finalized auction \<and> \<not> bv_claimed bid \<and> \<not> bv_refunded bid \<longrightarrow>
      (bd_canPrefillSettle shown \<longleftrightarrow> 0 < be_usedBidAmountAttoEth estimate) \<and>
      (bd_canPrefillRefund shown \<longleftrightarrow> be_refundedBidAmountAttoEth estimate = bv_bidAmountAttoEth bid) \<and>
      (bd_canPrefillRefund shown \<longleftrightarrow> \<not> bd_canPrefillSettle shown) \<and>
      (bd_canPrefillRefund shown \<longrightarrow> be_purchasedRepAmountAttoRep estimate = 0))"
proof -
  obtain w where w: "getTruthAuctionWinningThresholdPrice (Some auction) = ok w"
    using assms(2) by (auto simp: getTruthAuctionBidSettlementEstimate_def bindR_eq_Inr_iff)
  note paid = estimate_of_outcome [OF w assms(2)]
  have "shown = (case bid_outcome bid auction w of
      Whole \<Rightarrow> winning_bid | NoPart \<Rightarrow> refundable_bid
    | PartOf x \<Rightarrow> bid_disposition ''Partial'' ToneWarning False True RepClaim Partial)"
    if "am_finalized auction" "\<not> bv_claimed bid" "\<not> bv_refunded bid"
    using disposition_of_outcome [OF w that(1,3,2)] assms(1) by simp
  then show ?thesis
    using paid assms(3) PartOf_bounds [of bid auction w] by (cases "bid_outcome bid auction w") auto
qed

definition sample_auction :: TruthAuctionMetrics where
  "sample_auction = \<lparr>am_accumulatedBidAttoEth = 900, am_auctionEndsAt = None, am_clearingPrice = Some (10 ^ 18),
     am_clearingTick = Some 0, am_bidAtClearingTickAttoEth = 250, am_attoEthRaiseCap = 650, am_attoEthRaised = 650,
     am_finalized = True, am_hitCap = True, am_maxAttoRepBeingSold = 700, am_minBidSizeAttoEth = 1,
     am_attoRepPurchasableAtBid = None, am_timeRemaining = Some 0, am_totalAttoRepPurchased = 650,
     am_underfunded = False, am_underfundedThreshold = None, am_underfundedWinningAttoEth = 0\<rparr>"

definition sample_bid :: "int \<Rightarrow> int \<Rightarrow> int \<Rightarrow> TruthAuctionBidView" where
  "sample_bid tick amount before = \<lparr>bv_tick = tick, bv_bidIndex = 0, bv_bidder = ''0xaa'', bv_bidAmountAttoEth = amount,
     bv_cumulativeBidAttoEth = before + amount, bv_activeCumulativeBidBeforeAttoEth = before, bv_claimed = False,
     bv_refunded = False\<rparr>"

lemma supported_zero: "supported 0"
  using min_supported_range by (simp add: supported_def TRUTH_AUCTION_MAX_TICK_def)

theorem bid_settlement_matches_disposition_witness:
  "case (getTruthAuctionBidDisposition (sample_bid 0 300 200) (Some sample_auction),
         getTruthAuctionBidSettlementEstimate (sample_bid 0 300 200) (Some sample_auction)) of
     (Inr shown, Inr estimate) \<Rightarrow> bd_canPrefillSettle shown \<and> \<not> bd_canPrefillRefund shown \<and>
       be_usedBidAmountAttoEth estimate = 50 \<and> be_usedBidAmountAttoEth estimate + be_refundedBidAmountAttoEth estimate = 300
   | _ \<Rightarrow> False"
proof -
  have shown: "getTruthAuctionBidDisposition (sample_bid 0 300 200) (Some sample_auction)
      = ok (bid_disposition ''Partial'' ToneWarning False True RepClaim Partial)"
    by (simp add: getTruthAuctionBidDisposition_def sample_bid_def sample_auction_def getTruthAuctionWinningThresholdPrice_def
        isFinalizedUnderfundedWithoutWinningPrefix_def)
  have estimate: "getTruthAuctionBidSettlementEstimate (sample_bid 0 300 200) (Some sample_auction) = ok (bid_estimate 50 250 50)"
    by (simp add: getTruthAuctionBidSettlementEstimate_def sample_bid_def sample_auction_def price_at_tick supported_zero
        getTruthAuctionWinningThresholdPrice_def isFinalizedUnderfundedWithoutWinningPrefix_def estimateRepPurchased_def
        TRUTH_AUCTION_PRICE_PRECISION_def sdiv_nonneg)
  from bid_settlement_matches_disposition [OF shown estimate] shown estimate
  show ?thesis by (simp add: sample_bid_def)
qed

section \<open>Selected bids of an underfunded auction\<close>

definition settled_bids :: "TruthAuctionSettlementBidRow list \<Rightarrow> int" where
  "settled_bids rows = (\<Sum>row \<leftarrow> filter (\<lambda>r. bd_canPrefillSettle (sr_disposition r)) rows. bv_bidAmountAttoEth (sr_bid row))"

definition refunded_bids :: "TruthAuctionSettlementBidRow list \<Rightarrow> int" where
  "refunded_bids rows = (\<Sum>row \<leftarrow> filter (\<lambda>r. bd_canPrefillRefund (sr_disposition r)) rows. bv_bidAmountAttoEth (sr_bid row))"

text \<open>A row as the settlement list offers it: an open bid with its own disposition.\<close>

definition offered_row :: "TruthAuctionMetrics \<Rightarrow> TruthAuctionSettlementBidRow \<Rightarrow> bool" where
  "offered_row a row \<longleftrightarrow> getTruthAuctionBidDisposition (sr_bid row) (Some a) = ok (sr_disposition row) \<and>
     (bd_canPrefillRefund (sr_disposition row) \<or> bd_canPrefillSettle (sr_disposition row))"

lemma offered_open:
  assumes "offered_row a row" and "am_finalized a"
  shows "\<not> bv_refunded (sr_bid row) \<and> \<not> bv_claimed (sr_bid row)"
proof -
  have shown: "getTruthAuctionBidDisposition (sr_bid row) (Some a) = ok (sr_disposition row)"
    and offered: "bd_canPrefillRefund (sr_disposition row) \<or> bd_canPrefillSettle (sr_disposition row)"
    using assms(1) by (auto simp: offered_row_def)
  have not_refunded: "\<not> bv_refunded (sr_bid row)"
  proof
    assume "bv_refunded (sr_bid row)"
    then have "sr_disposition row = refunded_bid" using shown by (simp add: getTruthAuctionBidDisposition_def)
    with offered show False by simp
  qed
  then obtain w where w: "getTruthAuctionWinningThresholdPrice (Some a) = ok w"
    using shown by (auto simp: getTruthAuctionBidDisposition_def elim: bindR_okE)
  have "\<not> bv_claimed (sr_bid row)"
  proof
    assume "bv_claimed (sr_bid row)"
    from claimed_of_outcome [OF w assms(2) not_refunded this] shown offered
    show False by (cases "bid_outcome (sr_bid row) a w") auto
  qed
  with not_refunded show ?thesis by simp
qed

lemma mapR_ok_set: "mapR f xs = ok ys \<Longrightarrow> y \<in> set ys \<Longrightarrow> \<exists>x \<in> set xs. f x = ok y"
proof (induction xs arbitrary: ys)
  case (Cons x xs)
  then show ?case by (auto simp: bindR_eq_Inr_iff)
qed simp

lemma settlement_rows_offered:
  assumes "getTruthAuctionSettlementBidRows account (Some a) bids = ok rows" and "row \<in> set rows"
  shows "offered_row a row"
  using assms
  by (auto simp: getTruthAuctionSettlementBidRows_def bindR_eq_Inr_iff offered_row_def split: if_splits dest!: mapR_ok_set)

lemma offered_split:
  assumes "getTruthAuctionWinningThresholdPrice (Some a) = ok (Some p)" and "offered_row a row"
    and "getTruthAuctionBidSettlementEstimate (sr_bid row) (Some a) = ok e"
  shows "bd_canPrefillSettle (sr_disposition row) \<Longrightarrow> be_refundedBidAmountAttoEth e = 0"
    and "\<not> bd_canPrefillSettle (sr_disposition row) \<Longrightarrow>
      be_refundedBidAmountAttoEth e = bv_bidAmountAttoEth (sr_bid row) \<and> be_purchasedRepAmountAttoRep e = 0"
    and "bd_canPrefillRefund (sr_disposition row) \<longleftrightarrow> \<not> bd_canPrefillSettle (sr_disposition row)"
proof -
  note finalized = threshold_Some(1) [OF assms(1)]
  note open_bid = offered_open [OF assms(2) finalized]
  have outcome: "bid_outcome (sr_bid row) a (Some p) = Whole \<or> bid_outcome (sr_bid row) a (Some p) = NoPart"
    by (simp add: bid_outcome_def)
  have "sr_disposition row = (case bid_outcome (sr_bid row) a (Some p) of
      Whole \<Rightarrow> winning_bid | NoPart \<Rightarrow> refundable_bid
    | PartOf x \<Rightarrow> bid_disposition ''Partial'' ToneWarning False True RepClaim Partial)"
    using disposition_of_outcome [OF assms(1) finalized] open_bid assms(2) by (simp add: offered_row_def)
  with outcome estimate_of_outcome [OF assms(1,3)]
  show "bd_canPrefillSettle (sr_disposition row) \<Longrightarrow> be_refundedBidAmountAttoEth e = 0"
    and "\<not> bd_canPrefillSettle (sr_disposition row) \<Longrightarrow>
      be_refundedBidAmountAttoEth e = bv_bidAmountAttoEth (sr_bid row) \<and> be_purchasedRepAmountAttoRep e = 0"
    and "bd_canPrefillRefund (sr_disposition row) \<longleftrightarrow> \<not> bd_canPrefillSettle (sr_disposition row)"
    by auto
qed

lemma selection_loop_total:
  assumes threshold: "getTruthAuctionWinningThresholdPrice (Some a) = ok (Some p)"
    and W: "0 < am_underfundedWinningAttoEth a" and T: "0 \<le> am_totalAttoRepPurchased a"
  shows "\<forall>row \<in> set rows. offered_row a row \<and> 0 \<le> bv_bidAmountAttoEth (sr_bid row) \<Longrightarrow>
    0 \<le> remainder \<Longrightarrow> remainder < am_underfundedWinningAttoEth a \<Longrightarrow>
    selection_loop (Some a) True rows refunded backing remainder = ok (refunded', backing') \<Longrightarrow>
    refunded' = refunded + refunded_bids rows \<and>
    backing' = backing + (remainder + settled_bids rows * am_totalAttoRepPurchased a) div am_underfundedWinningAttoEth a"
proof (induction rows arbitrary: refunded backing remainder)
  case Nil
  then show ?case by (simp add: refunded_bids_def settled_bids_def)
next
  case (Cons row rows)
  let ?W = "am_underfundedWinningAttoEth a" and ?T = "am_totalAttoRepPurchased a"
  obtain e where e: "getTruthAuctionBidSettlementEstimate (sr_bid row) (Some a) = ok e"
    using Cons.prems(4) by (auto simp: bindR_eq_Inr_iff)
  have row: "offered_row a row" and amount: "0 \<le> bv_bidAmountAttoEth (sr_bid row)" using Cons.prems(1) by auto
  note parts = offered_split [OF threshold row e]
  show ?case
  proof (cases "bd_canPrefillSettle (sr_disposition row)")
    case True
    define n where "n = bv_bidAmountAttoEth (sr_bid row) * ?T + remainder"
    have n: "0 \<le> n" using amount T Cons.prems(2) by (simp add: n_def)
    have "selection_loop (Some a) True rows refunded (backing + n div ?W) (n mod ?W) = ok (refunded', backing')"
      using Cons.prems(4) True e parts(1) n W by (simp add: n_def [symmetric] sdiv_nonneg smod_nonneg Let_def)
    from Cons.IH [OF _ _ _ this] Cons.prems(1) W
    have "refunded' = refunded + refunded_bids rows" and
      "backing' = backing + n div ?W + (n mod ?W + settled_bids rows * ?T) div ?W" by auto
    moreover have "n div ?W + (n mod ?W + settled_bids rows * ?T) div ?W = (n + settled_bids rows * ?T) div ?W"
    proof -
      have "n + settled_bids rows * ?T = (n mod ?W + settled_bids rows * ?T) + n div ?W * ?W"
        by simp
      then show ?thesis using W by (metis div_mult_self1 add.commute less_irrefl)
    qed
    ultimately show ?thesis
      using True parts(3) by (simp add: refunded_bids_def settled_bids_def n_def algebra_simps)
  next
    case False
    then have "selection_loop (Some a) True rows (refunded + bv_bidAmountAttoEth (sr_bid row)) backing remainder
        = ok (refunded', backing')"
      using Cons.prems(4) e parts(2) by simp
    from Cons.IH [OF _ _ _ this] Cons.prems(1-3) False parts(3)
    show ?thesis by (simp add: refunded_bids_def settled_bids_def algebra_simps)
  qed
qed

text \<open>
  Settling several bids of an underfunded auction together loses nothing to rounding. For a
  selection from the offered rows, the refund is the sum of the refundable bids, the REP backing
  is one floored pro-rata share of all the settled bids taken together, and when the settled
  bids are within the winning total, neither the backing nor the assigned capacity ownership
  exceeds what was sold.
\<close>

lemma underfunded_selection_exact:
  assumes "getTruthAuctionSettlementBidRows account (Some auction) bids = ok rows" and "set selected \<subseteq> set rows"
    and "getTruthAuctionSettlementSelectionEstimate (Some ownership) selected (Some auction) = ok estimate"
    and "getTruthAuctionWinningThresholdPrice (Some auction) = ok (Some threshold)"
    and "0 < am_underfundedWinningAttoEth auction" and "0 < am_totalAttoRepPurchased auction" and "0 \<le> ownership"
    and "\<forall>bid \<in> set bids. 0 \<le> bv_bidAmountAttoEth bid"
  shows "se_estimatedRefundedAttoEth estimate = refunded_bids selected \<and>
    se_estimatedVaultRepBackingAttoRep estimate
      = (settled_bids selected * am_totalAttoRepPurchased auction) div am_underfundedWinningAttoEth auction \<and>
    (settled_bids selected \<le> am_underfundedWinningAttoEth auction \<longrightarrow>
      se_estimatedVaultRepBackingAttoRep estimate \<le> am_totalAttoRepPurchased auction \<and>
      (case se_estimatedAssignedCapacityOwnershipAttoRep estimate of None \<Rightarrow> False
       | Some assigned \<Rightarrow> 0 \<le> assigned \<and> assigned \<le> ownership))"
proof -
  let ?W = "am_underfundedWinningAttoEth auction" and ?T = "am_totalAttoRepPurchased auction"
  have selected: "\<forall>row \<in> set selected. offered_row auction row \<and> 0 \<le> bv_bidAmountAttoEth (sr_bid row)"
  proof
    fix row
    assume "row \<in> set selected"
    then have row: "row \<in> set rows" using assms(2) by auto
    then have "sr_bid row \<in> set bids"
      using assms(1) by (auto simp: getTruthAuctionSettlementBidRows_def bindR_eq_Inr_iff split: if_splits dest!: mapR_ok_set)
    then show "offered_row auction row \<and> 0 \<le> bv_bidAmountAttoEth (sr_bid row)"
      using settlement_rows_offered [OF assms(1) row] assms(8) by auto
  qed
  from assms(3) obtain refunded backing where
      loop: "selection_loop (Some auction) True selected 0 0 0 = ok (refunded, backing)"
    and estimate: "se_estimatedRefundedAttoEth estimate = refunded" "se_estimatedVaultRepBackingAttoRep estimate = backing"
      "se_estimatedAssignedCapacityOwnershipAttoRep estimate = (if backing > 0 then Some ((ownership * backing) sdiv ?T) else Some 0)"
    using assms(4-6) by (auto simp: getTruthAuctionSettlementSelectionEstimate_def Let_def bindR_eq_Inr_iff)
  have totals: "refunded = refunded_bids selected" "backing = (settled_bids selected * ?T) div ?W"
    using selection_loop_total [OF assms(4,5) _ selected _ _ loop] assms(5,6) by auto
  have settled: "0 \<le> settled_bids selected"
    unfolding settled_bids_def using selected by (intro sum_list_nonneg) auto
  have "backing \<le> ?T \<and> 0 \<le> backing" if "settled_bids selected \<le> ?W"
    using prorata_bounds [of ?T ?W "settled_bids selected"] settled that assms(5,6) totals(2) by (simp add: mult.commute)
  moreover have "0 \<le> (ownership * backing) sdiv ?T \<and> (ownership * backing) sdiv ?T \<le> ownership"
    if "0 \<le> backing" "backing \<le> ?T"
    using prorata_bounds [of ownership ?T backing] that assms(6,7) by (simp add: sdiv_nonneg)
  ultimately show ?thesis using estimate totals assms(7) by auto
qed

definition sample_underfunded :: TruthAuctionMetrics where
  "sample_underfunded = sample_auction \<lparr>am_underfunded := True, am_underfundedThreshold := Some 1,
     am_underfundedWinningAttoEth := 150, am_clearingTick := Some 3, am_totalAttoRepPurchased := 700\<rparr>"

definition sample_rows :: "TruthAuctionSettlementBidRow list" where
  "sample_rows = [\<lparr>sr_bid = sample_bid 5 100 0, sr_disposition = winning_bid\<rparr>,
     \<lparr>sr_bid = sample_bid 3 50 0, sr_disposition = winning_bid\<rparr>, \<lparr>sr_bid = sample_bid 0 30 0, sr_disposition = refundable_bid\<rparr>]"

lemma underfunded_selection_exact_example:
  "case getTruthAuctionSettlementSelectionEstimate (Some 90) sample_rows (Some sample_underfunded) of
     Inl e \<Rightarrow> False
   | Inr estimate \<Rightarrow> se_estimatedRefundedAttoEth estimate = 30 \<and> se_estimatedVaultRepBackingAttoRep estimate = 700"
proof -
  have threshold: "getTruthAuctionWinningThresholdPrice (Some sample_underfunded) = ok (Some 1)"
    by (simp add: getTruthAuctionWinningThresholdPrice_def sample_underfunded_def sample_auction_def
        assertValidUnderfundedTruthAuctionMetrics_def)
  have rows: "getTruthAuctionSettlementBidRows (Some ''0xAA'') (Some sample_underfunded)
      [sample_bid 5 100 0, sample_bid 3 50 0, sample_bid 0 30 0] = ok sample_rows"
    by code_simp
  have supported: "supported 5" "supported 3" "supported 0"
    using min_supported_range by (auto simp: supported_def TRUTH_AUCTION_MAX_TICK_def)
  then have "\<exists>estimate. getTruthAuctionSettlementSelectionEstimate (Some 90) sample_rows (Some sample_underfunded) = ok estimate"
    by (simp add: getTruthAuctionSettlementSelectionEstimate_def threshold sample_rows_def sample_bid_def
        getTruthAuctionBidSettlementEstimate_def price_at_tick Let_def isUnderfundedWinningTick_def)
  then obtain estimate where
      estimate: "getTruthAuctionSettlementSelectionEstimate (Some 90) sample_rows (Some sample_underfunded) = ok estimate"
    by blast
  from underfunded_selection_exact [OF rows subset_refl estimate threshold] estimate
  show ?thesis
    by (simp add: sample_underfunded_def sample_auction_def sample_rows_def sample_bid_def settled_bids_def refunded_bids_def)
qed

section \<open>The live book\<close>

lemma ceilDiv_auction_le_iff:
  "0 \<le> dividend \<Longrightarrow> 0 < divisor \<Longrightarrow> ceilDiv_auction dividend divisor \<le> q \<longleftrightarrow> dividend \<le> q * divisor"
  by (simp add: ceilDiv_auction_def ceil_quot_add_idiom ceil_quot_le_iff)

interpretation auction_ceil: ceil_division "\<lambda>n d. ok (ceilDiv_auction n d)"
  by unfold_locales (simp add: ceilDiv_auction_def ceil_quot_add_idiom)

interpretation ticks_descending: comparator compareTicksDescending
  by (rule comparator_by_key [of _ "\<lambda>t. - tk_tick t"]) (auto simp: compareTicksDescending_def)

interpretation bid_priority: comparator compareBidsByPriority
  by unfold_locales (auto simp: compareBidsByPriority_def split: if_splits)

definition booked :: "TruthAuctionTickSummary list \<Rightarrow> int" where
  "booked ticks = (\<Sum>t \<leftarrow> ticks. tk_currentTotalBidAttoEth t)"

lemma booked_simps [simp]: "booked [] = 0" "booked (t # ts) = tk_currentTotalBidAttoEth t + booked ts"
  by (simp_all add: booked_def)

lemma booked_nonneg: "\<forall>t \<in> set ts. 0 \<le> tk_currentTotalBidAttoEth t \<Longrightarrow> 0 \<le> booked ts"
  by (induction ts) auto

text \<open>The first \<open>k\<close> ticks, bought at the price of the last of them, take the whole REP on sale.\<close>

definition prefix_wins :: "int \<Rightarrow> TruthAuctionTickSummary list \<Rightarrow> nat \<Rightarrow> bool" where
  "prefix_wins maxAttoRep ticks k \<longleftrightarrow>
     booked (take (Suc k) ticks) * TRUTH_AUCTION_PRICE_PRECISION \<le> tk_price (ticks ! k) * maxAttoRep"

lemma underfunded_loop_prefix:
  assumes "0 < maxAttoRep"
  shows "\<forall>t \<in> set ticks. 0 \<le> tk_currentTotalBidAttoEth t \<Longrightarrow> 0 \<le> w \<Longrightarrow>
    \<exists>k \<le> length ticks. underfunded_loop ticks maxAttoRep w = w + booked (take k ticks) \<and>
      (\<forall>j < k. (w + booked (take (Suc j) ticks)) * TRUTH_AUCTION_PRICE_PRECISION \<le> tk_price (ticks ! j) * maxAttoRep) \<and>
      (k < length ticks \<longrightarrow>
        \<not> (w + booked (take (Suc k) ticks)) * TRUTH_AUCTION_PRICE_PRECISION \<le> tk_price (ticks ! k) * maxAttoRep)"
proof (induction ticks arbitrary: w)
  case Nil
  then show ?case by simp
next
  case (Cons t ticks)
  let ?c = "w + tk_currentTotalBidAttoEth t"
  have c: "0 \<le> ?c * TRUTH_AUCTION_PRICE_PRECISION"
    using Cons.prems by (simp add: TRUTH_AUCTION_PRICE_PRECISION_def)
  show ?case
  proof (cases "?c * TRUTH_AUCTION_PRICE_PRECISION \<le> tk_price t * maxAttoRep")
    case False
    then show ?thesis
      using ceilDiv_auction_le_iff [OF c assms, of "tk_price t"] by (intro exI [of _ 0]) (simp add: Let_def not_le)
  next
    case True
    have loop: "underfunded_loop (t # ticks) maxAttoRep w = underfunded_loop ticks maxAttoRep ?c"
      using True ceilDiv_auction_le_iff [OF c assms, of "tk_price t"] by (simp add: Let_def not_less)
    obtain k where k: "k \<le> length ticks" "underfunded_loop ticks maxAttoRep ?c = ?c + booked (take k ticks)"
      "\<forall>j < k. (?c + booked (take (Suc j) ticks)) * TRUTH_AUCTION_PRICE_PRECISION \<le> tk_price (ticks ! j) * maxAttoRep"
      "k < length ticks \<longrightarrow>
        \<not> (?c + booked (take (Suc k) ticks)) * TRUTH_AUCTION_PRICE_PRECISION \<le> tk_price (ticks ! k) * maxAttoRep"
      using Cons.IH [of ?c] Cons.prems by auto
    show ?thesis
      unfolding loop using k True
      by (intro exI [of _ "Suc k"]) (auto simp: less_Suc_eq_0_disj add.assoc)
  qed
qed

lemma underfunded_winning_prefix:
  assumes "0 < maxAttoRep" and "\<forall>t \<in> set ticks. 0 \<le> tk_currentTotalBidAttoEth t"
  shows "\<exists>k \<le> length ticks. findUnderfundedWinningAttoEth ticks maxAttoRep = booked (take k ticks) \<and>
    (\<forall>j < k. prefix_wins maxAttoRep ticks j) \<and> (k < length ticks \<longrightarrow> \<not> prefix_wins maxAttoRep ticks k)"
  using underfunded_loop_prefix [OF assms, of 0] assms(1) by (simp add: findUnderfundedWinningAttoEth_def prefix_wins_def)

lemma progress_loop_bounds:
  "0 \<le> raised \<Longrightarrow> 0 \<le> sold \<Longrightarrow> 0 \<le> cap \<Longrightarrow> progress_loop c b ticks cap raised sold = (r, s) \<Longrightarrow>
    raised \<le> r \<and> r \<le> raised + cap \<and> sold \<le> s"
proof (induction c b ticks cap raised sold rule: progress_loop.induct)
  case (2 c b t rest cap raised sold)
  define accepted where "accepted = (if tk_tick t > c then tk_currentTotalBidAttoEth t
    else if tk_tick t = c then (if b < tk_currentTotalBidAttoEth t then b else tk_currentTotalBidAttoEth t) else 0)"
  have unfold: "progress_loop c b (t # rest) cap raised sold =
      (if cap \<le> 0 then (raised, sold)
       else if accepted \<le> 0 then progress_loop c b rest cap raised sold
       else let a = (if accepted > cap then cap else accepted) in
         progress_loop c b rest (cap - a) (raised + a) (sold + estimateRepPurchased a (tk_price t)))"
    by (simp only: progress_loop.simps Let_def accepted_def)
  note progress_loop.simps(2) [simp del]
  consider "cap \<le> 0" | "0 < cap" "accepted \<le> 0" | "0 < cap" "0 < accepted" by linarith
  then show ?case
  proof cases
    case 1
    then show ?thesis using "2.prems" unfolding unfold by simp
  next
    case 2
    then have "progress_loop c b rest cap raised sold = (r, s)" using "2.prems"(4) by (simp add: unfold)
    then show ?thesis using "2.IH"(1) [OF _ accepted_def _ "2.prems"(1-3)] 2 by auto
  next
    case 3
    define a where "a = (if accepted > cap then cap else accepted)"
    have a: "0 \<le> a" "a \<le> cap" using 3 by (auto simp: a_def)
    have "progress_loop c b rest (cap - a) (raised + a) (sold + estimateRepPurchased a (tk_price t)) = (r, s)"
      using "2.prems"(4) 3 by (simp add: unfold a_def Let_def)
    moreover have "0 \<le> estimateRepPurchased a (tk_price t)" by (rule estimateRepPurchased_nonneg)
    ultimately show ?thesis
      using "2.IH"(2) [OF _ accepted_def _ a_def] "2.prems"(1-3) 3 a by fastforce
  qed
qed simp

text \<open>What the bids of a tick count once the cap is hit: all above the clearing tick, the accepted part at it, none below.\<close>

definition clearing_bids :: "int \<Rightarrow> int \<Rightarrow> TruthAuctionTickSummary \<Rightarrow> int" where
  "clearing_bids clearingTick bidAtClearingTick t =
     (if tk_tick t > clearingTick then tk_currentTotalBidAttoEth t
      else if tk_tick t = clearingTick then max 0 (min bidAtClearingTick (tk_currentTotalBidAttoEth t)) else 0)"

lemma progress_loop_raised:
  "\<forall>t \<in> set ticks. 0 \<le> tk_currentTotalBidAttoEth t \<Longrightarrow> 0 \<le> cap \<Longrightarrow> progress_loop c b ticks cap raised sold = (r, s) \<Longrightarrow>
    r = raised + min cap (sum_list (map (clearing_bids c b) ticks))"
proof (induction c b ticks cap raised sold rule: progress_loop.induct)
  case (2 c b t rest cap raised sold)
  define accepted where "accepted = (if tk_tick t > c then tk_currentTotalBidAttoEth t
    else if tk_tick t = c then (if b < tk_currentTotalBidAttoEth t then b else tk_currentTotalBidAttoEth t) else 0)"
  have counted: "clearing_bids c b t = max 0 accepted" using "2.prems"(1) by (auto simp: clearing_bids_def accepted_def)
  have rest: "0 \<le> sum_list (map (clearing_bids c b) rest)"
    using "2.prems"(1) by (intro sum_list_nonneg) (auto simp: clearing_bids_def)
  have unfold: "progress_loop c b (t # rest) cap raised sold =
      (if cap \<le> 0 then (raised, sold)
       else if accepted \<le> 0 then progress_loop c b rest cap raised sold
       else let a = (if accepted > cap then cap else accepted) in
         progress_loop c b rest (cap - a) (raised + a) (sold + estimateRepPurchased a (tk_price t)))"
    by (simp only: progress_loop.simps Let_def accepted_def)
  note looped = "2.prems"(3) [unfolded unfold]
  have amounts: "\<forall>t \<in> set rest. 0 \<le> tk_currentTotalBidAttoEth t" using "2.prems"(1) by simp
  consider "cap \<le> 0" | "0 < cap" "accepted \<le> 0" | "0 < cap" "0 < accepted" by linarith
  then show ?case
  proof cases
    case 1
    then show ?thesis using "2.prems"(2) looped counted rest by simp
  next
    case 2
    then show ?thesis using "2.IH"(1) [OF _ accepted_def _ amounts "2.prems"(2)] looped counted by simp
  next
    case 3
    define a where "a = (if accepted > cap then cap else accepted)"
    have "r = raised + a + min (cap - a) (sum_list (map (clearing_bids c b) rest))"
      using "2.IH"(2) [OF _ accepted_def _ a_def amounts] looped 3 unfolding Let_def a_def [symmetric] by (simp add: a_def)
    then show ?thesis using counted 3 rest by (auto simp: a_def)
  qed
qed simp

text \<open>
  C35: The progress shown for a live auction is within its limits and follows the book. With bids in
  the book, the ETH raised is never negative nor above the cap, the REP sold never above what is
  on sale. Once the cap is hit and the auction has cleared, the ETH raised is, up to the cap, that of the ticks above the clearing
  tick and of the accepted part of the clearing tick. Before, it is, up to the cap, that of the longest
  prefix of the active ticks, from the highest price down, in which every tick could still buy the whole
  REP on sale with all bids down to it; and the REP counts as sold exactly when that
  prefix has bids. With an empty book the progress is that of the loaded metrics.
\<close>

theorem live_progress_follows_book:
  assumes "\<not> am_finalized auction" and "0 \<le> am_attoEthRaiseCap auction" and "0 < am_maxAttoRepBeingSold auction"
    and "getTruthAuctionOverviewProgress (Some auction) ticks = Some progress"
    and "active = filter (\<lambda>t. tk_currentTotalBidAttoEth t > 0) (sortTruthAuctionTickSummariesDescending ticks)"
  shows "if active = []
    then ap_attoEthRaised progress = am_attoEthRaised auction \<and> ap_attoRepSold progress = am_totalAttoRepPurchased auction
    else 0 \<le> ap_attoEthRaised progress \<and> ap_attoEthRaised progress \<le> am_attoEthRaiseCap auction \<and>
      0 \<le> ap_attoRepSold progress \<and> ap_attoRepSold progress \<le> am_maxAttoRepBeingSold auction \<and>
      sorted_wrt (\<lambda>s t. tk_tick t \<le> tk_tick s) active \<and>
      (case (am_hitCap auction, am_clearingTick auction, am_clearingPrice auction) of
         (True, Some clearingTick, Some _) \<Rightarrow>
           ap_attoEthRaised progress = min (am_attoEthRaiseCap auction)
             (sum_list (map (clearing_bids clearingTick (am_bidAtClearingTickAttoEth auction)) active))
       | _ \<Rightarrow> \<exists>k \<le> length active. ap_attoEthRaised progress = min (am_attoEthRaiseCap auction) (booked (take k active)) \<and>
           (\<forall>j < k. prefix_wins (am_maxAttoRepBeingSold auction) active j) \<and>
           (k < length active \<longrightarrow> \<not> prefix_wins (am_maxAttoRepBeingSold auction) active k) \<and>
           ap_attoRepSold progress = (if 0 < booked (take k active) then am_maxAttoRepBeingSold auction else 0))"
proof (cases "active = []")
  case True
  with assms(1,4,5) show ?thesis by (auto simp: getTruthAuctionOverviewProgress_def)
next
  case False
  let ?cap = "am_attoEthRaiseCap auction" and ?max = "am_maxAttoRepBeingSold auction"
  let ?cleared = "(am_hitCap auction, am_clearingTick auction, am_clearingPrice auction)"
  have amounts: "\<forall>t \<in> set active. 0 \<le> tk_currentTotalBidAttoEth t" unfolding assms(5) by auto
  have "sorted_wrt (\<lambda>s t. compareTicksDescending s t \<le> 0) active"
    unfolding assms(5) sortTruthAuctionTickSummariesDescending_def
    by (rule sorted_wrt_filter) (rule ticks_descending.sorted_js_sort)
  then have sorted: "sorted_wrt (\<lambda>s t. tk_tick t \<le> tk_tick s) active"
    by (rule sorted_wrt_mono_rel [rotated]) (auto simp: compareTicksDescending_def split: if_splits)
  obtain k where k: "k \<le> length active" "findUnderfundedWinningAttoEth active ?max = booked (take k active)"
    "\<forall>j < k. prefix_wins ?max active j" "k < length active \<longrightarrow> \<not> prefix_wins ?max active k"
    using underfunded_winning_prefix [OF assms(3) amounts] by auto
  have prefix: "0 \<le> booked (take k active)"
    using amounts by (intro booked_nonneg) (auto dest: in_set_takeD)
  define live where "live = (case ?cleared of
      (True, Some clearingTick, Some clearingPrice) \<Rightarrow>
        progress_loop clearingTick (am_bidAtClearingTickAttoEth auction) active ?cap 0 0
    | _ \<Rightarrow> if booked (take k active) > 0 then (booked (take k active), ?max) else (0, 0))"
  obtain raised sold where live: "live = (raised, sold)" by (cases live)
  have "getTruthAuctionOverviewProgress (Some auction) ticks =
      Some \<lparr>ap_attoEthRaised = min ?cap raised, ap_attoRepSold = min ?max sold\<rparr>"
    using live assms(1) False
    by (simp add: getTruthAuctionOverviewProgress_def assms(5) [symmetric] live_def k(2) Let_def min.commute minmax_simps
        split: option.split_asm bool.split_asm)
  then have shown: "ap_attoEthRaised progress = min ?cap raised" "ap_attoRepSold progress = min ?max sold"
    using assms(4) by auto
  show ?thesis
  proof (cases "\<exists>t p. ?cleared = (True, Some t, Some p)")
    case True
    then obtain t p where cleared: "?cleared = (True, Some t, Some p)" by blast
    then have loop: "progress_loop t (am_bidAtClearingTickAttoEth auction) active ?cap 0 0 = (raised, sold)"
      using live by (simp add: live_def)
    then have "0 \<le> raised \<and> 0 \<le> sold" using progress_loop_bounds [OF order_refl order_refl assms(2)] by blast
    moreover have "raised = min ?cap (sum_list (map (clearing_bids t (am_bidAtClearingTickAttoEth auction)) active))"
      using progress_loop_raised [OF amounts assms(2) loop] by simp
    ultimately show ?thesis using shown sorted cleared False assms(2,3) by simp
  next
    case open_auction: False
    then have "live = (if booked (take k active) > 0 then (booked (take k active), ?max) else (0, 0))"
      unfolding live_def by (cases "am_hitCap auction"; cases "am_clearingTick auction"; cases "am_clearingPrice auction") simp_all
    then have "raised = booked (take k active)" "sold = (if 0 < booked (take k active) then ?max else 0)"
      using live prefix by (auto split: if_splits)
    then have "0 \<le> raised \<and> 0 \<le> sold" "ap_attoEthRaised progress = min ?cap (booked (take k active))"
        "ap_attoRepSold progress = (if 0 < booked (take k active) then ?max else 0)"
      using shown prefix assms(3) by auto
    then have "0 \<le> raised \<and> 0 \<le> sold" "\<exists>k \<le> length active. ap_attoEthRaised progress = min ?cap (booked (take k active)) \<and>
        (\<forall>j < k. prefix_wins ?max active j) \<and> (k < length active \<longrightarrow> \<not> prefix_wins ?max active k) \<and>
        ap_attoRepSold progress = (if 0 < booked (take k active) then ?max else 0)"
      using k by blast+
    then show ?thesis using shown sorted open_auction False assms(2,3)
      by (cases "am_hitCap auction"; cases "am_clearingTick auction"; cases "am_clearingPrice auction") simp_all
  qed
qed

definition sample_ticks :: "TruthAuctionTickSummary list" where
  "sample_ticks = [\<lparr>tk_tick = 0, tk_price = 1000000000000000000, tk_currentTotalBidAttoEth = 300, tk_submissionCount = 1, tk_active = True\<rparr>,
     \<lparr>tk_tick = 7, tk_price = 2000000000000000000, tk_currentTotalBidAttoEth = 500, tk_submissionCount = 2, tk_active = True\<rparr>]"

theorem live_progress_follows_book_witness:
  "(case getTruthAuctionOverviewProgress (Some (sample_auction \<lparr>am_finalized := False, am_hitCap := False\<rparr>)) sample_ticks of
     None \<Rightarrow> False
   | Some progress \<Rightarrow> 0 \<le> ap_attoEthRaised progress \<and> ap_attoEthRaised progress \<le> 650 \<and>
       0 \<le> ap_attoRepSold progress \<and> ap_attoRepSold progress \<le> 700)"
proof -
  let ?a = "sample_auction \<lparr>am_finalized := False, am_hitCap := False\<rparr>"
  have live: "case getTruthAuctionOverviewProgress (Some ?a) sample_ticks of None \<Rightarrow> False | Some _ \<Rightarrow> True"
    and active: "filter (\<lambda>t. tk_currentTotalBidAttoEth t > 0) (sortTruthAuctionTickSummariesDescending sample_ticks) \<noteq> []"
    by code_simp+
  from live obtain progress where progress: "getTruthAuctionOverviewProgress (Some ?a) sample_ticks = Some progress"
    by (auto split: option.splits)
  from live_progress_follows_book [OF _ _ _ progress refl] progress active
  show ?thesis by (simp add: sample_auction_def)
qed

end
