(* ===== verification/Block_Sync.thy ===== *)
theory Block_Sync
  imports Js_Strings
begin

text \<open>
  Following the chain head, \<open>bots/shared/src/monitoring/block-sync.ts\<close>: the block ranges a
  scan asks for, the fetch that halves a range the endpoint refuses, and the cursor with its
  finality anchor. The endpoint is an argument: a function of the number of requests made so far
  and of the range, which answers logs or throws; so it may answer the same range differently
  at different times. A thrown value may be an object with a cause, found in a store of error
  objects, as causes can be shared and cyclic.
\<close>

section \<open>Ranges\<close>

record LogRange =
  lr_fromBlock :: int
  lr_toBlock :: int

abbreviation log_range :: "int \<Rightarrow> int \<Rightarrow> LogRange" where
  "log_range lo hi \<equiv> \<lparr>lr_fromBlock = lo, lr_toBlock = hi\<rparr>"

definition DEFAULT_LATEST_LOG_BLOCKS :: int where "DEFAULT_LATEST_LOG_BLOCKS = 256"

definition latestLogRange :: "int \<Rightarrow> int \<Rightarrow> LogRange result" where
  "latestLogRange head maximumBlocks =
     (if maximumBlocks < 1 \<or> maximumBlocks > DEFAULT_LATEST_LOG_BLOCKS
      then throw (''maximumBlocks must be from 1 through '' @ bigint_to_string DEFAULT_LATEST_LOG_BLOCKS)
      else ok (log_range (if head + 1 > maximumBlocks then head + 1 - maximumBlocks else 0) head))"

text \<open>
  The loops below are entered after the check that the maximum is positive. They repeat it, where
  it is always true, so that the recursion is seen to end.
\<close>

function newest_first_loop :: "int \<Rightarrow> int \<Rightarrow> int \<Rightarrow> LogRange list" where
  "newest_first_loop maximumRange fromBlock nextToBlock =
     (if nextToBlock \<ge> fromBlock \<and> 1 \<le> maximumRange then
        let available = nextToBlock - fromBlock + 1;
            attemptedBlocks = (if maximumRange < available then maximumRange else available);
            rangeFrom = nextToBlock - attemptedBlocks + 1
        in log_range rangeFrom nextToBlock #
           (if rangeFrom = fromBlock then [] else newest_first_loop maximumRange fromBlock (rangeFrom - 1))
      else [])"
  by pat_completeness auto
termination by (relation "measure (\<lambda>(_, lo, hi). nat (hi - lo + 1))") auto

declare newest_first_loop.simps [simp del]

definition newestFirstScanRanges :: "int \<Rightarrow> int \<Rightarrow> int \<Rightarrow> LogRange list result" where
  "newestFirstScanRanges fromBlock toBlock maximumRange =
     (if maximumRange < 1 then throw ''maximumRange must be positive''
      else if fromBlock > toBlock then ok []
      else ok (newest_first_loop maximumRange fromBlock toBlock))"

function scan_loop :: "int \<Rightarrow> int \<Rightarrow> int \<Rightarrow> LogRange list" where
  "scan_loop maximumRange head fromBlock =
     (if fromBlock \<le> head \<and> 1 \<le> maximumRange then
        let candidate = fromBlock + maximumRange - 1;
            toBlock = (if candidate < head then candidate else head)
        in log_range fromBlock toBlock # scan_loop maximumRange head (toBlock + 1)
      else [])"
  by pat_completeness auto
termination by (relation "measure (\<lambda>(_, head, lo). nat (head - lo + 1))") auto

declare scan_loop.simps [simp del]

section \<open>Thrown values\<close>

datatype thrown_value = ErrorRef nat | TextValue string | OtherValue

text \<open>An object: whether it is an \<open>Error\<close>, its message when that is a string, its cause.\<close>

record error_object =
  eo_isError :: bool
  eo_message :: "string option"
  eo_cause :: thrown_value

type_synonym error_store = "(nat \<times> error_object) list"

function walk_causes :: "error_store \<Rightarrow> (error_object \<Rightarrow> bool) \<Rightarrow> nat list \<Rightarrow> thrown_value \<Rightarrow> bool" where
  "walk_causes store visit seen current =
     (case current of
        ErrorRef ref \<Rightarrow>
          if ref \<in> set seen then False
          else (case map_of store ref of
              None \<Rightarrow> False
            | Some object \<Rightarrow> if visit object then True else walk_causes store visit (ref # seen) (eo_cause object))
      | _ \<Rightarrow> False)"
  by pat_completeness auto
termination
proof (relation "measure (\<lambda>(store, _, seen, _). card (fst ` set store - set seen))")
  fix store :: error_store and visit :: "error_object \<Rightarrow> bool" and seen current ref object
  assume "current = ErrorRef ref" "ref \<notin> set seen" "map_of store ref = Some object"
  then have "ref \<in> fst ` set store - set seen" by (auto dest: map_of_SomeD intro: rev_image_eqI)
  then have "fst ` set store - set (ref # seen) \<subset> fst ` set store - set seen" by auto
  then show "((store, visit, ref # seen, eo_cause object), (store, visit, seen, current))
      \<in> measure (\<lambda>(store, _, seen, _). card (fst ` set store - set seen))"
    by (simp add: psubset_card_mono)
qed simp

declare walk_causes.simps [simp del]

definition walkErrorCauses :: "error_store \<Rightarrow> thrown_value \<Rightarrow> (error_object \<Rightarrow> bool) \<Rightarrow> bool" where
  "walkErrorCauses store error visit = walk_causes store visit [] error"

definition logRangeLimitError :: "error_store \<Rightarrow> thrown_value \<Rightarrow> bool" where
  "logRangeLimitError store error = walkErrorCauses store error (\<lambda>current.
     case eo_message current of
       None \<Rightarrow> False
     | Some text \<Rightarrow>
         let message = toLowerCase text in
         if text_includes message ''fromblock exceeds toblock'' then False
         else if text_includes message ''http 413'' \<or> text_includes message ''range is too large'' then True
         else if text_includes message ''response exceeds'' \<or> text_includes message ''response too large'' then True
         else
           let mentionsRangeCap = text_includes message ''range'' \<or> text_includes message ''blocks'' \<or> text_includes message ''results''
                 \<or> text_includes message ''response size'';
               mentionsExceeding = text_includes message ''limit'' \<or> text_includes message ''too many'' \<or> text_includes message ''exceed''
                 \<or> text_includes message ''too large'' \<or> text_includes message ''maximum'' \<or> text_includes message ''up to''
                 \<or> text_includes message ''more than''
           in mentionsRangeCap \<and> mentionsExceeding)"

definition history_message :: "string \<Rightarrow> bool" where
  "history_message text =
     (let message = toLowerCase text in
      text_includes message ''history unavailable'' \<or> text_includes message ''historical data unavailable''
        \<or> text_includes message ''missing trie node'' \<or> text_includes message ''pruned''
        \<or> text_includes message ''block is out of range'' \<or> text_includes message ''requested data is not available'')"

definition historyUnavailableError :: "error_store \<Rightarrow> thrown_value \<Rightarrow> bool" where
  "historyUnavailableError store error = walkErrorCauses store error (\<lambda>current.
     case eo_message current of None \<Rightarrow> False | Some text \<Rightarrow> history_message text)"

definition logScanErrorMessage :: "error_store \<Rightarrow> LogRange \<Rightarrow> thrown_value \<Rightarrow> string" where
  "logScanErrorMessage store logRange cause =
     (let causeMessage = (case cause of
            ErrorRef ref \<Rightarrow> (case map_of store ref of
                None \<Rightarrow> None
              | Some object \<Rightarrow> if eo_isError object then eo_message object else None)
          | TextValue text \<Rightarrow> Some text
          | OtherValue \<Rightarrow> None)
      in ''Log scan failed for blocks '' @ bigint_to_string (lr_fromBlock logRange) @ '' through ''
         @ bigint_to_string (lr_toBlock logRange) @ (case causeMessage of None \<Rightarrow> '''' | Some text \<Rightarrow> '': '' @ text))"

section \<open>Fetching with adaptive ranges\<close>

datatype fetch_error = InvalidMaximumRange | LogScanError LogRange thrown_value

type_synonym 'log endpoint = "nat \<Rightarrow> LogRange \<Rightarrow> thrown_value + 'log list"

text \<open>The loop returns the logs with the number of requests made. The store is that of the thrown errors.\<close>

function fetch_loop ::
  "error_store \<Rightarrow> 'log endpoint \<Rightarrow> int \<Rightarrow> int \<Rightarrow> nat \<Rightarrow> 'log list \<Rightarrow> int \<Rightarrow> int \<Rightarrow> (fetch_error + 'log list) \<times> nat" where
  "fetch_loop store fetchRange head maximumRange requests logs fromBlock requestedBlocks =
     (if fromBlock \<le> head \<and> 1 \<le> requestedBlocks \<and> 1 \<le> maximumRange then
        let remaining = head - fromBlock + 1;
            attemptedBlocks = (if requestedBlocks < remaining then requestedBlocks else remaining);
            toBlock = fromBlock + attemptedBlocks - 1;
            logRange = log_range fromBlock toBlock
        in
        case fetchRange requests logRange of
          Inr fetched \<Rightarrow>
            fetch_loop store fetchRange head maximumRange (Suc requests) (logs @ fetched) (toBlock + 1) maximumRange
        | Inl error \<Rightarrow>
            if attemptedBlocks > 1 \<and> logRangeLimitError store error
            then fetch_loop store fetchRange head maximumRange (Suc requests) logs fromBlock ((attemptedBlocks + 1) sdiv 2)
            else (Inl (LogScanError logRange error), Suc requests)
      else (Inr logs, requests))"
  by pat_completeness auto
termination
  by (relation "inv_image (less_than <*lex*> less_than)
      (\<lambda>(_, _, head, _, _, _, lo, req). (nat (head - lo + 1), nat (min req (head - lo + 1))))")
    (auto simp: sdiv_nonneg split: if_splits)

declare fetch_loop.simps [simp del]

definition fetchLogsWithAdaptiveRanges ::
  "error_store \<Rightarrow> int \<Rightarrow> int \<Rightarrow> int \<Rightarrow> 'log endpoint \<Rightarrow> (fetch_error + 'log list) \<times> nat" where
  "fetchLogsWithAdaptiveRanges store nextBlock head maximumRange fetchRange =
     (if maximumRange < 1 then (Inl InvalidMaximumRange, 0)
      else fetch_loop store fetchRange head maximumRange 0 [] nextBlock maximumRange)"

section \<open>The cursor\<close>

record SyncCursor =
  sc_finalityAnchorHash :: "string option"
  sc_finalityAnchorNumber :: "int option"
  sc_initial :: bool
  sc_lastHeadHash :: "string option"
  sc_lastHeadNumber :: "int option"
  sc_nextBlock :: int

datatype OperatorStatus = PausedStatus | ErrorStatus | RunningStatus | SyncingStatus

definition operatorStatusAfterPause :: "bool \<Rightarrow> bool \<Rightarrow> bool \<Rightarrow> OperatorStatus" where
  "operatorStatusAfterPause paused initialSyncComplete hasError =
     (if paused then PausedStatus else if hasError then ErrorStatus
      else if initialSyncComplete then RunningStatus else SyncingStatus)"

definition initialCursor :: "int \<Rightarrow> int \<Rightarrow> SyncCursor" where
  "initialCursor head lookbackBlocks =
     \<lparr>sc_finalityAnchorHash = None, sc_finalityAnchorNumber = None, sc_initial = True, sc_lastHeadHash = None,
      sc_lastHeadNumber = None, sc_nextBlock = (if head > lookbackBlocks then head - lookbackBlocks else 0)\<rparr>"

definition cursorForHeadScan :: "SyncCursor \<Rightarrow> int \<Rightarrow> string \<Rightarrow> int \<Rightarrow> SyncCursor option" where
  "cursorForHeadScan cursor head headHash overlapBlocks =
     (if \<not> sc_initial cursor \<and> sc_lastHeadNumber cursor = Some head \<and> sc_lastHeadHash cursor = Some headHash then None
      else if sc_initial cursor then Some cursor
      else
        let headNextBlock = head + 1;
            overlapAnchor = (if sc_nextBlock cursor < headNextBlock then sc_nextBlock cursor else headNextBlock)
        in Some (cursor \<lparr>sc_nextBlock := (if overlapAnchor > overlapBlocks then overlapAnchor - overlapBlocks else 0)\<rparr>))"

definition scanRanges :: "SyncCursor \<Rightarrow> int \<Rightarrow> int \<Rightarrow> LogRange list result" where
  "scanRanges cursor head maximumRange =
     (if maximumRange < 1 then throw ''maximumRange must be positive''
      else if sc_nextBlock cursor > head then ok []
      else ok (scan_loop maximumRange head (sc_nextBlock cursor)))"

definition advanceCursor :: "int \<Rightarrow> string \<Rightarrow> SyncCursor" where
  "advanceCursor head headHash =
     \<lparr>sc_finalityAnchorHash = None, sc_finalityAnchorNumber = None, sc_initial = False,
      sc_lastHeadHash = Some headHash, sc_lastHeadNumber = Some head, sc_nextBlock = head + 1\<rparr>"

text \<open>\<open>processHead\<close> runs first; its exception leaves no new cursor.\<close>

definition advanceCursorAfterSuccessfulHead :: "int \<Rightarrow> string \<Rightarrow> unit result \<Rightarrow> SyncCursor result" where
  "advanceCursorAfterSuccessfulHead head headHash processed = bindR processed (\<lambda>_. ok (advanceCursor head headHash))"

definition withFinalityAnchor :: "SyncCursor \<Rightarrow> int \<Rightarrow> string \<Rightarrow> SyncCursor" where
  "withFinalityAnchor cursor blockNumber blockHash =
     cursor \<lparr>sc_finalityAnchorHash := Some blockHash, sc_finalityAnchorNumber := Some blockNumber\<rparr>"

definition finalityAnchorMatches :: "SyncCursor \<Rightarrow> int \<Rightarrow> string \<Rightarrow> bool" where
  "finalityAnchorMatches cursor blockNumber blockHash \<longleftrightarrow>
     sc_finalityAnchorNumber cursor = Some blockNumber \<and>
     map_option toLowerCase (sc_finalityAnchorHash cursor) = Some (toLowerCase blockHash)"

definition finalityAnchorRequiresReset :: "SyncCursor \<Rightarrow> int \<Rightarrow> string option \<Rightarrow> bool" where
  "finalityAnchorRequiresReset cursor currentHead observedAnchorHash =
     (case sc_finalityAnchorNumber cursor of
        None \<Rightarrow> False
      | Some anchorNumber \<Rightarrow>
          if sc_finalityAnchorHash cursor = None then False
          else anchorNumber > currentHead \<or>
            (case observedAnchorHash of None \<Rightarrow> True | Some hash \<Rightarrow> \<not> finalityAnchorMatches cursor anchorNumber hash))"

definition assertFinalityAnchor :: "SyncCursor \<Rightarrow> int \<Rightarrow> string \<Rightarrow> unit result" where
  "assertFinalityAnchor cursor blockNumber blockHash =
     (if \<not> finalityAnchorMatches cursor blockNumber blockHash
      then throw (''Canonical chain reorganized deeper than the configured overlap at block '' @ bigint_to_string blockNumber
             @ ''; execution remains blocked while the retained lookback is rebuilt'')
      else ok ())"

section \<open>The ranges of a scan\<close>

definition range_blocks :: "LogRange \<Rightarrow> int list" where
  "range_blocks r = [lr_fromBlock r..lr_toBlock r]"

definition ranges_blocks :: "LogRange list \<Rightarrow> int list" where
  "ranges_blocks rs = concat (map range_blocks rs)"

lemma ranges_blocks_simps [simp]:
  "ranges_blocks [] = []" "ranges_blocks (r # rs) = range_blocks r @ ranges_blocks rs"
  "ranges_blocks (rs @ ss) = ranges_blocks rs @ ranges_blocks ss"
  by (simp_all add: ranges_blocks_def)

definition range_within :: "int \<Rightarrow> LogRange \<Rightarrow> bool" where
  "range_within maximumRange r \<longleftrightarrow> lr_fromBlock r \<le> lr_toBlock r \<and> lr_toBlock r - lr_fromBlock r < maximumRange"

lemma upto_split_at: "lo \<le> m + 1 \<Longrightarrow> m \<le> hi \<Longrightarrow> [lo..m] @ [m + 1..hi] = [lo..(hi::int)]"
  using upto_split1 [of lo "m + 1" hi] by (cases "m = hi") auto

lemma range_within_log_range [simp]: "range_within m (log_range lo hi) \<longleftrightarrow> lo \<le> hi \<and> hi - lo < m"
  by (simp add: range_within_def)

lemma range_blocks_log_range [simp]: "range_blocks (log_range lo hi) = [lo..hi]"
  by (simp add: range_blocks_def)

lemma scan_loop_blocks:
  "1 \<le> m \<Longrightarrow> ranges_blocks (scan_loop m head lo) = [lo..head] \<and> list_all (range_within m) (scan_loop m head lo)"
proof (induction m head lo rule: scan_loop.induct)
  case (1 m head lo)
  show ?case
  proof (cases "lo \<le> head")
    case False
    then show ?thesis by (subst (1 2) scan_loop.simps) simp
  next
    case True
    define hi where "hi = (if lo + m - 1 < head then lo + m - 1 else head)"
    have hi: "lo \<le> hi" "hi \<le> head" "hi - lo < m" using True "1.prems" by (auto simp: hi_def)
    have step: "scan_loop m head lo = log_range lo hi # scan_loop m head (hi + 1)"
      using True "1.prems" by (subst scan_loop.simps) (simp add: hi_def Let_def)
    have "ranges_blocks (scan_loop m head (hi + 1)) = [hi + 1..head] \<and> list_all (range_within m) (scan_loop m head (hi + 1))"
      using "1.IH" [OF _ refl hi_def] True "1.prems" by simp
    then show ?thesis using hi upto_split_at [of lo hi head] by (simp add: step)
  qed
qed

lemma newest_first_loop_blocks:
  "1 \<le> m \<Longrightarrow> ranges_blocks (rev (newest_first_loop m lo hi)) = [lo..hi] \<and> list_all (range_within m) (newest_first_loop m lo hi)"
proof (induction m lo hi rule: newest_first_loop.induct)
  case (1 m lo hi)
  show ?case
  proof (cases "lo \<le> hi")
    case False
    then show ?thesis by (subst (1 2) newest_first_loop.simps) simp
  next
    case True
    define from_block where "from_block = hi - (if m < hi - lo + 1 then m else hi - lo + 1) + 1"
    have bounds: "lo \<le> from_block" "from_block \<le> hi" "hi - from_block < m"
      using True "1.prems" by (auto simp: from_block_def)
    have step: "newest_first_loop m lo hi = log_range from_block hi #
        (if from_block = lo then [] else newest_first_loop m lo (from_block - 1))"
      using True "1.prems" by (subst newest_first_loop.simps) (simp add: from_block_def Let_def)
    show ?thesis
    proof (cases "from_block = lo")
      case True
      then show ?thesis using bounds by (simp add: step)
    next
      case False
      have "ranges_blocks (rev (newest_first_loop m lo (from_block - 1))) = [lo..from_block - 1] \<and>
          list_all (range_within m) (newest_first_loop m lo (from_block - 1))"
        using "1.IH" [OF _ refl refl from_block_def] \<open>lo \<le> hi\<close> "1.prems" False by simp
      then show ?thesis
        using bounds False upto_split_at [of lo "from_block - 1" hi]
        by (simp add: step)
    qed
  qed
qed

text \<open>
  A scan asks for every block once. Both ways of cutting a block interval into ranges return
  for every positive maximum; laid end to end, ascending ranges and reversed newest-first ranges
  are exactly the blocks of the interval in order, so no block is skipped or asked twice, and
  no range is empty or longer than the maximum. A maximum below one is refused.
\<close>

lemma scan_ranges_partition:
  "if maximumRange < 1 then \<not> succeeds (scanRanges cursor head maximumRange) \<and>
     \<not> succeeds (newestFirstScanRanges fromBlock head maximumRange)
   else
     (case scanRanges cursor head maximumRange of Inl e \<Rightarrow> False
      | Inr ranges \<Rightarrow> ranges_blocks ranges = [sc_nextBlock cursor..head] \<and> list_all (range_within maximumRange) ranges) \<and>
     (case newestFirstScanRanges fromBlock head maximumRange of Inl e \<Rightarrow> False
      | Inr ranges \<Rightarrow> ranges_blocks (rev ranges) = [fromBlock..head] \<and> list_all (range_within maximumRange) ranges)"
  using scan_loop_blocks [of maximumRange head "sc_nextBlock cursor"] newest_first_loop_blocks [of maximumRange fromBlock head]
  by (simp add: scanRanges_def newestFirstScanRanges_def)

lemma scanned_blocks:
  assumes "scanRanges cursor head maximumRange = ok ranges"
  shows "set (ranges_blocks ranges) = {sc_nextBlock cursor..head}"
  using scan_loop_blocks [of maximumRange head "sc_nextBlock cursor"] assms
  by (auto simp: scanRanges_def split: if_splits)

text \<open>
  C19: A reorganisation the finality anchor survives is scanned again completely. After a head
  was processed and the block \<open>overlap\<close> below it was kept as anchor, the next head is skipped
  only if it is the same block; otherwise, unless the anchor asks for a reset (it is above the
  head, or its hash is missing or different), every block above the anchor up to the new head
  is in the scanned ranges, and so is every block the previous head had not reached.
\<close>

theorem reorganisation_above_anchor_rescanned:
  assumes "cursor = withFinalityAnchor (advanceCursor head headHash) (if head > overlap then head - overlap else 0) anchorHash"
    and "0 \<le> overlap" and "0 \<le> head" and "1 \<le> maximumRange"
  shows "case cursorForHeadScan cursor newHead newHash overlap of
      None \<Rightarrow> newHead = head \<and> newHash = headHash
    | Some scanCursor \<Rightarrow>
        (case scanRanges scanCursor newHead maximumRange of Inl e \<Rightarrow> False
         | Inr ranges \<Rightarrow>
            (\<forall>block. (head < block \<or> \<not> finalityAnchorRequiresReset cursor newHead observed \<and> 
                (case sc_finalityAnchorNumber cursor of None \<Rightarrow> False | Some anchor \<Rightarrow> anchor < block)) \<and> block \<le> newHead \<longrightarrow>
              block \<in> set (ranges_blocks ranges)) \<and>
            (\<forall>block \<in> set (ranges_blocks ranges). 0 \<le> block \<and> block \<le> newHead)) \<and>
        (finalityAnchorRequiresReset cursor newHead observed \<longleftrightarrow>
          newHead < (if head > overlap then head - overlap else 0) \<or>
          map_option toLowerCase observed \<noteq> Some (toLowerCase anchorHash))"
proof -
  define anchor where "anchor = (if head > overlap then head - overlap else 0)"
  have fields: "sc_initial cursor = False" "sc_lastHeadNumber cursor = Some head" "sc_lastHeadHash cursor = Some headHash"
    "sc_nextBlock cursor = head + 1" "sc_finalityAnchorNumber cursor = Some anchor" "sc_finalityAnchorHash cursor = Some anchorHash"
    by (simp_all add: assms(1) anchor_def withFinalityAnchor_def advanceCursor_def)
  have reset: "finalityAnchorRequiresReset cursor newHead observed \<longleftrightarrow>
      newHead < anchor \<or> map_option toLowerCase observed \<noteq> Some (toLowerCase anchorHash)"
    by (auto simp: finalityAnchorRequiresReset_def finalityAnchorMatches_def fields split: option.splits)
  show ?thesis
  proof (cases "newHead = head \<and> newHash = headHash")
    case True
    then show ?thesis by (simp add: cursorForHeadScan_def fields)
  next
    case False
    define next_block where "next_block = (let a = min (head + 1) (newHead + 1) in if a > overlap then a - overlap else 0)"
    define scan where "scan = cursor \<lparr>sc_nextBlock := next_block\<rparr>"
    have scan: "cursorForHeadScan cursor newHead newHash overlap = Some scan"
      using False by (auto simp: cursorForHeadScan_def fields scan_def next_block_def Let_def min_def)
    obtain ranges where ranges: "scanRanges scan newHead maximumRange = ok ranges"
      using assms(4) by (cases "next_block > newHead") (simp_all add: scanRanges_def scan_def)
    have blocks: "set (ranges_blocks ranges) = {next_block..newHead}"
      using scanned_blocks [OF ranges] by (simp add: scan_def)
    have "0 \<le> next_block" by (simp add: next_block_def Let_def)
    moreover have "next_block \<le> block" if "head < block \<or> anchor < block" "block \<le> newHead" for block
      using that assms(2,3) by (auto simp: next_block_def anchor_def Let_def split: if_splits)
    ultimately show ?thesis
      using scan ranges blocks reset fields(5) by (auto simp: anchor_def [symmetric])
  qed
qed

theorem reorganisation_above_anchor_rescanned_witness:
  "case cursorForHeadScan (withFinalityAnchor (advanceCursor 1000 ''0xaa'') 988 ''0xf0'') 1003 ''0xbb'' 12 of
      None \<Rightarrow> False
    | Some scanCursor \<Rightarrow>
        (case scanRanges scanCursor 1003 256 of Inl e \<Rightarrow> False | Inr ranges \<Rightarrow> 990 \<in> set (ranges_blocks ranges))"
  using reorganisation_above_anchor_rescanned [of "withFinalityAnchor (advanceCursor 1000 ''0xaa'') 988 ''0xf0''" 1000 "''0xaa''" 12
      "''0xf0''" 256 1003 "''0xbb''" "Some ''0xf0''"]
  by (auto simp: withFinalityAnchor_def advanceCursor_def split: option.splits sum.splits dest!: spec [of _ 990])

section \<open>Adaptive fetching\<close>

lemma fetch_loop_result:
  "(\<forall>n r fetched. fetchRange n r = Inr fetched \<longrightarrow> fetched = concat (map chain (range_blocks r))) \<Longrightarrow>
    1 \<le> requested \<Longrightarrow> requested \<le> m \<Longrightarrow> start \<le> lo \<Longrightarrow> lo \<le> head + 1 \<Longrightarrow>
    logs = concat (map chain [start..lo - 1]) \<Longrightarrow>
    (case fst (fetch_loop store fetchRange head m n logs lo requested) of
       Inr result \<Rightarrow> result = concat (map chain [start..head])
     | Inl InvalidMaximumRange \<Rightarrow> False
     | Inl (LogScanError r e) \<Rightarrow>
         start \<le> lr_fromBlock r \<and> lr_toBlock r \<le> head \<and> range_within m r \<and>
         (lr_fromBlock r = lr_toBlock r \<or> \<not> logRangeLimitError store e) \<and> (\<exists>k. fetchRange k r = Inl e))"
proof (induction store fetchRange head m n logs lo requested rule: fetch_loop.induct)
  case (1 store fetchRange head m n logs lo requested)
  note faithful = "1.prems"(1) [rule_format] and prems = "1.prems"(2-)
  show ?case
  proof (cases "lo \<le> head")
    case False
    then have "lo = head + 1" using "1.prems" by simp
    then show ?thesis using "1.prems" by (subst fetch_loop.simps) simp
  next
    case True
    define attempted where "attempted = (if requested < head - lo + 1 then requested else head - lo + 1)"
    define hi where "hi = lo + attempted - 1"
    have attempted: "1 \<le> attempted" "attempted \<le> requested" "hi \<le> head"
      using True prems(1) by (auto simp: attempted_def hi_def)
    have guard: "lo \<le> head \<and> 1 \<le> requested \<and> 1 \<le> m" using True "1.prems" by simp
    have step: "fetch_loop store fetchRange head m n logs lo requested =
        (case fetchRange n (log_range lo hi) of
           Inr fetched \<Rightarrow> fetch_loop store fetchRange head m (Suc n) (logs @ fetched) (hi + 1) m
         | Inl error \<Rightarrow>
             if attempted > 1 \<and> logRangeLimitError store error
             then fetch_loop store fetchRange head m (Suc n) logs lo ((attempted + 1) sdiv 2)
             else (Inl (LogScanError (log_range lo hi) error), Suc n))"
      unfolding fetch_loop.simps [of store fetchRange head m n logs lo requested] Let_def attempted_def [symmetric]
        hi_def [symmetric] using guard by simp
    note IH = "1.IH" [OF guard refl attempted_def hi_def refl]
    show ?thesis
    proof (cases "fetchRange n (log_range lo hi)")
      case (Inr fetched)
      have "logs @ fetched = concat (map chain [start..hi])"
        using faithful [OF Inr] prems(3,5) attempted upto_split_at [of start "lo - 1" hi]
        by (simp flip: concat_append map_append) (simp add: hi_def)
      then show ?thesis
        using IH(2) [OF Inr "1.prems"(1)] prems attempted unfolding step Inr by (simp add: hi_def)
    next
      case (Inl error)
      show ?thesis
      proof (cases "attempted > 1 \<and> logRangeLimitError store error")
        case True
        have "1 \<le> (attempted + 1) sdiv 2 \<and> (attempted + 1) sdiv 2 \<le> m"
          using True prems(2) attempted(2) by (simp add: sdiv_nonneg) linarith
        then show ?thesis
          using IH(1) [OF Inl True "1.prems"(1)] prems(3-5) True unfolding step Inl by simp
      next
        case False
        then have "lo = hi \<or> \<not> logRangeLimitError store error" using attempted(1) by (auto simp: hi_def)
        moreover note if_not_P [OF False]
        ultimately show ?thesis using prems(1-3) attempted Inl unfolding step by (auto simp: hi_def)
      qed
    qed
  qed
qed

text \<open>
  C20: Adaptive fetching returns, with all logs or with a reason. Against an endpoint that
  answers a range only with that range's logs, but may refuse any request at any time, the fetch
  ends for every positive maximum. What it returns is exactly the logs of all blocks from the
  cursor to the head, in order, whatever the ranges were halved to. It fails only on a range
  inside the interval that the endpoint refused, of one block or for a reason other than a range
  limit; so it succeeds against every endpoint that only ever refuses longer ranges.
\<close>

theorem adaptive_fetch_complete:
  assumes "1 \<le> maximumRange" and "nextBlock \<le> head + 1"
    and "\<forall>n r fetched. fetchRange n r = Inr fetched \<longrightarrow> fetched = concat (map chain (range_blocks r))"
  shows "case fst (fetchLogsWithAdaptiveRanges store nextBlock head maximumRange fetchRange) of
      Inr logs \<Rightarrow> logs = concat (map chain [nextBlock..head])
    | Inl InvalidMaximumRange \<Rightarrow> False
    | Inl (LogScanError r e) \<Rightarrow>
        nextBlock \<le> lr_fromBlock r \<and> lr_toBlock r \<le> head \<and> range_within maximumRange r \<and>
        (lr_fromBlock r = lr_toBlock r \<or> \<not> logRangeLimitError store e) \<and> (\<exists>n. fetchRange n r = Inl e)"
  using fetch_loop_result [OF assms(3,1), of maximumRange nextBlock nextBlock head "[]" store 0] assms(1,2)
  by (simp add: fetchLogsWithAdaptiveRanges_def)

text \<open>An endpoint that refuses ranges of more than two blocks on every request but the fourth.\<close>

definition sample_endpoint :: "int endpoint" where
  "sample_endpoint n r =
     (if lr_toBlock r - lr_fromBlock r \<ge> 2 \<and> n \<noteq> 3 then Inl (ErrorRef 0) else Inr (range_blocks r))"

theorem adaptive_fetch_complete_witness:
  "case fst (fetchLogsWithAdaptiveRanges [(0, \<lparr>eo_isError = True, eo_message = Some ''block range limit'', eo_cause = OtherValue\<rparr>)]
       4 16 8 sample_endpoint) of
      Inr logs \<Rightarrow> logs = [4..16]
    | Inl InvalidMaximumRange \<Rightarrow> False
    | Inl (LogScanError r e) \<Rightarrow> lr_fromBlock r = lr_toBlock r \<or> e \<noteq> ErrorRef 0"
proof -
  let ?store = "[(0::nat, \<lparr>eo_isError = True, eo_message = Some ''block range limit'', eo_cause = OtherValue\<rparr>)]"
  have faithful: "\<forall>n r fetched. sample_endpoint n r = Inr fetched \<longrightarrow> fetched = concat (map (\<lambda>b. [b]) (range_blocks r))"
    by (auto simp: sample_endpoint_def)
  have limit: "logRangeLimitError ?store (ErrorRef 0)" by code_simp
  show ?thesis
    using adaptive_fetch_complete [OF _ _ faithful, of 8 4 16 ?store] limit
    by (auto split: sum.splits fetch_error.splits)
qed

section \<open>Causes\<close>

text \<open>The objects a thrown value leads to through its causes.\<close>

inductive leads_to :: "error_store \<Rightarrow> thrown_value \<Rightarrow> error_object \<Rightarrow> bool" for store where
  itself: "map_of store ref = Some object \<Longrightarrow> leads_to store (ErrorRef ref) object"
| through_cause: "map_of store ref = Some object \<Longrightarrow> leads_to store (eo_cause object) other \<Longrightarrow> leads_to store (ErrorRef ref) other"

inductive_cases leads_toE: "leads_to store thrown object"
inductive_simps leads_to_simps [simp]:
  "leads_to store (TextValue text) object" "leads_to store OtherValue object"

lemma walk_causes_ErrorRef:
  "walk_causes store visit seen (ErrorRef ref) \<longleftrightarrow> ref \<notin> set seen \<and>
     (\<exists>object. map_of store ref = Some object \<and> (visit object \<or> walk_causes store visit (ref # seen) (eo_cause object)))"
  by (subst walk_causes.simps) (auto split: option.splits)

lemma walk_causes_other [simp]:
  "\<not> walk_causes store visit seen (TextValue message)" "\<not> walk_causes store visit seen OtherValue"
  by (subst walk_causes.simps; simp)+

lemma walk_causes_sound: "walk_causes store visit seen thrown \<Longrightarrow> \<exists>object. leads_to store thrown object \<and> visit object"
proof (induction store visit seen thrown rule: walk_causes.induct)
  case (1 store visit seen thrown)
  show ?case
  proof (cases thrown)
    case (ErrorRef ref)
    with "1.prems" obtain object where "ref \<notin> set seen" "map_of store ref = Some object"
      "visit object \<or> walk_causes store visit (ref # seen) (eo_cause object)"
      by (auto simp: walk_causes_ErrorRef)
    then show ?thesis
      using "1.IH" [OF ErrorRef] ErrorRef by (cases "visit object") (auto intro: itself through_cause)
  qed (use "1.prems" in auto)
qed

lemma leads_to_closed:
  "leads_to store thrown object \<Longrightarrow> \<forall>ref. thrown = ErrorRef ref \<longrightarrow> ref \<in> S \<Longrightarrow>
   \<forall>ref \<in> S. \<forall>object. map_of store ref = Some object \<longrightarrow>
     \<not> visit object \<and> (\<forall>next_ref. eo_cause object = ErrorRef next_ref \<longrightarrow> next_ref \<in> S) \<Longrightarrow> \<not> visit object"
  by (induction rule: leads_to.induct) auto

lemma walk_causes_complete:
  "\<not> walk_causes store visit seen thrown \<Longrightarrow>
   \<forall>ref \<in> set seen. \<forall>object. map_of store ref = Some object \<longrightarrow> \<not> visit object \<and>
     (\<forall>next_ref. eo_cause object = ErrorRef next_ref \<longrightarrow> next_ref \<in> set seen \<or> thrown = ErrorRef next_ref) \<Longrightarrow>
   leads_to store start object \<Longrightarrow> start = thrown \<or> (\<exists>ref \<in> set seen. start = ErrorRef ref) \<Longrightarrow> \<not> visit object"
proof (induction store visit seen thrown rule: walk_causes.induct)
  case (1 store visit seen thrown)
  consider ref found where "thrown = ErrorRef ref" "ref \<notin> set seen" "map_of store ref = Some found"
    | ref where "thrown = ErrorRef ref" "ref \<in> set seen \<or> map_of store ref = None"
    | "\<forall>ref. thrown \<noteq> ErrorRef ref"
    by (cases thrown) auto
  then show ?case
  proof cases
    case 1
    then have "\<not> visit found" "\<not> walk_causes store visit (ref # seen) (eo_cause found)"
      using "1.prems"(1) by (auto simp: walk_causes_ErrorRef)
    then show ?thesis
      using "1.IH" [OF 1] "1.prems"(2-4) 1 by auto
  next
    case 2
    have closed: "\<forall>r \<in> insert ref (set seen). \<forall>object. map_of store r = Some object \<longrightarrow>
        \<not> visit object \<and> (\<forall>next_ref. eo_cause object = ErrorRef next_ref \<longrightarrow> next_ref \<in> insert ref (set seen))"
      using "1.prems"(2) 2 by auto
    have "\<forall>r. start = ErrorRef r \<longrightarrow> r \<in> insert ref (set seen)" using "1.prems"(4) 2(1) by auto
    then show ?thesis by (rule leads_to_closed [OF "1.prems"(3) _ closed])
  next
    case 3
    have closed: "\<forall>r \<in> set seen. \<forall>object. map_of store r = Some object \<longrightarrow>
        \<not> visit object \<and> (\<forall>next_ref. eo_cause object = ErrorRef next_ref \<longrightarrow> next_ref \<in> set seen)"
      using "1.prems"(2) 3 by metis
    have "\<forall>r. start = ErrorRef r \<longrightarrow> r \<in> set seen" using "1.prems"(4) 3 by auto
    then show ?thesis by (rule leads_to_closed [OF "1.prems"(3) _ closed])
  qed
qed

text \<open>
  Looking through the causes of a thrown value always ends, also when causes form a cycle, and
  finds exactly what is there: the walk answers yes if and only if some object the value leads
  to through its causes passes the test. So a range limit reported deep in a chain of causes is
  still recognised.
\<close>

lemma cause_walk_exact:
  "walkErrorCauses store thrown visit \<longleftrightarrow> (\<exists>object. leads_to store thrown object \<and> visit object)"
  using walk_causes_sound [of store visit "[]" thrown] walk_causes_complete [of store visit "[]" thrown thrown]
  by (auto simp: walkErrorCauses_def)

end
