(* ===== verification/Rpc_Queue.thy ===== *)
theory Rpc_Queue
  imports Zoltar_Prelude
begin

text \<open>
  The request queue that keeps an RPC endpoint within its concurrency, \<open>rpc-request-queue.ts\<close>
  of the chain scanner. The state is that of the closure of \<open>createRpcRequestQueue\<close>; an
  operation is named by a value, and the two histories (started and accepted operations)
  are what the promises of the code make observable. Requests arrive and operations settle in
  any order: the steps are a relation.
\<close>

section \<open>The queue\<close>

record RpcQueueSaturation =
  qs_active :: int
  qs_pending :: int
  qs_maximumPending :: int
  qs_highWaterMark :: int
  qs_saturationCount :: int

record 'op rpc_queue =
  rq_active :: int
  rq_highWaterMark :: int
  rq_saturationCount :: int
  rq_pending :: "'op list"
  rq_running :: "'op list"
  rq_started :: "'op list"
  rq_accepted :: "'op list"

definition createRpcRequestQueue :: "int \<Rightarrow> int \<Rightarrow> 'op rpc_queue result" where
  "createRpcRequestQueue concurrency maximumPending =
     (if concurrency < 1 \<or> concurrency > MAX_SAFE_INTEGER
      then throw ''RPC concurrency must be a positive safe integer''
      else if maximumPending < 0 \<or> maximumPending > MAX_SAFE_INTEGER
      then throw ''RPC maximum pending count must be a non-negative safe integer''
      else ok \<lparr>rq_active = 0, rq_highWaterMark = 0, rq_saturationCount = 0, rq_pending = [], rq_running = [],
               rq_started = [], rq_accepted = []\<rparr>)"

text \<open>Start pending operations, oldest first, while there is room.\<close>

function drain :: "int \<Rightarrow> 'op rpc_queue \<Rightarrow> 'op rpc_queue" where
  "drain concurrency q =
     (if rq_active q < concurrency then
        (case rq_pending q of
           [] \<Rightarrow> q
         | start # rest \<Rightarrow>
             drain concurrency (q \<lparr>rq_active := rq_active q + 1, rq_pending := rest,
               rq_running := rq_running q @ [start], rq_started := rq_started q @ [start]\<rparr>))
      else q)"
  by pat_completeness auto
termination by (relation "measure (\<lambda>(_, q). length (rq_pending q))") auto

declare drain.simps [simp del]

text \<open>\<open>run(operation)\<close>: the rejection with its error, or the queue with the operation in it.\<close>

definition run_operation :: "int \<Rightarrow> int \<Rightarrow> 'op \<Rightarrow> 'op rpc_queue \<Rightarrow> RpcQueueSaturation option \<times> 'op rpc_queue" where
  "run_operation concurrency maximumPending op q =
     (if rq_active q \<ge> concurrency \<and> int (length (rq_pending q)) \<ge> maximumPending then
        let q' = q \<lparr>rq_saturationCount := rq_saturationCount q + 1\<rparr> in
        (Some \<lparr>qs_active = rq_active q', qs_pending = int (length (rq_pending q')), qs_maximumPending = maximumPending,
           qs_highWaterMark = rq_highWaterMark q', qs_saturationCount = rq_saturationCount q'\<rparr>, q')
      else
        let q' = drain concurrency (q \<lparr>rq_pending := rq_pending q @ [op], rq_accepted := rq_accepted q @ [op]\<rparr>)
        in (None, q' \<lparr>rq_highWaterMark := max (rq_highWaterMark q') (int (length (rq_pending q')))\<rparr>))"

text \<open>The \<open>finally\<close> of an operation, however it settled.\<close>

definition settle_operation :: "int \<Rightarrow> 'op \<Rightarrow> 'op rpc_queue \<Rightarrow> 'op rpc_queue" where
  "settle_operation concurrency op q =
     drain concurrency (q \<lparr>rq_active := rq_active q - 1, rq_running := remove1 op (rq_running q)\<rparr>)"

datatype 'op queue_event = Requested 'op | Settled 'op

inductive queue_step :: "int \<Rightarrow> int \<Rightarrow> 'op rpc_queue \<Rightarrow> 'op queue_event \<Rightarrow> 'op rpc_queue \<Rightarrow> bool"
  for concurrency maximumPending where
    step_requested: "queue_step concurrency maximumPending q (Requested op) (snd (run_operation concurrency maximumPending op q))"
  | step_settled: "op \<in> set (rq_running q) \<Longrightarrow>
      queue_step concurrency maximumPending q (Settled op) (settle_operation concurrency op q)"

inductive queue_run :: "int \<Rightarrow> int \<Rightarrow> 'op rpc_queue \<Rightarrow> 'op queue_event list \<Rightarrow> 'op rpc_queue \<Rightarrow> bool"
  for concurrency maximumPending where
    run_none: "queue_run concurrency maximumPending q [] q"
  | run_step: "queue_step concurrency maximumPending q e q' \<Longrightarrow> queue_run concurrency maximumPending q' es q'' \<Longrightarrow>
      queue_run concurrency maximumPending q (e # es) q''"

inductive_simps queue_step_simps: "queue_step c m q (Requested op) q'" "queue_step c m q (Settled op) q'"
inductive_simps queue_run_simps: "queue_run c m q [] q'" "queue_run c m q (e # es) q'"

section \<open>Its invariant\<close>

definition queue_ok :: "int \<Rightarrow> int \<Rightarrow> 'op rpc_queue \<Rightarrow> bool" where
  "queue_ok c m q \<longleftrightarrow>
     rq_active q = int (length (rq_running q)) \<and> rq_active q \<le> c \<and>
     (rq_pending q \<noteq> [] \<longrightarrow> rq_active q = c) \<and> int (length (rq_pending q)) \<le> m \<and>
     int (length (rq_pending q)) \<le> rq_highWaterMark q \<and> rq_highWaterMark q \<le> m \<and>
     rq_accepted q = rq_started q @ rq_pending q \<and> mset (rq_running q) \<subseteq># mset (rq_started q)"

lemma drain_full: "c \<le> rq_active q \<Longrightarrow> drain c q = q"
  by (subst drain.simps) simp

lemma drain_empty: "rq_pending q = [] \<Longrightarrow> drain c q = q"
  by (subst drain.simps) simp

text \<open>Draining keeps the bookkeeping and ends with no room or nothing pending.\<close>

lemma drain_spec:
  "rq_active q \<le> c \<Longrightarrow>
   (let q' = drain c q in
     rq_active q' - rq_active q = int (length (rq_running q')) - int (length (rq_running q)) \<and>
     rq_active q \<le> rq_active q' \<and> rq_active q' \<le> c \<and> (rq_pending q' \<noteq> [] \<longrightarrow> rq_active q' = c) \<and>
     rq_started q' @ rq_pending q' = rq_started q @ rq_pending q \<and>
     length (rq_started q') \<ge> length (rq_started q) \<and>
     rq_accepted q' = rq_accepted q \<and> rq_highWaterMark q' = rq_highWaterMark q \<and>
     rq_saturationCount q' = rq_saturationCount q \<and>
     mset (rq_running q') + mset (rq_started q) = mset (rq_running q) + mset (rq_started q') \<and>
     int (length (rq_started q')) - int (length (rq_started q)) = rq_active q' - rq_active q)"
proof (induction c q rule: drain.induct)
  case (1 c q)
  show ?case
  proof (cases "rq_active q < c")
    case False
    then show ?thesis using "1.prems" by (simp add: drain_full)
  next
    case room: True
    show ?thesis
    proof (cases "rq_pending q")
      case Nil
      then show ?thesis using "1.prems" by (simp add: drain_empty)
    next
      case (Cons start rest)
      define n where "n = q \<lparr>rq_active := rq_active q + 1, rq_pending := rest,
          rq_running := rq_running q @ [start], rq_started := rq_started q @ [start]\<rparr>"
      have "drain c q = drain c n" using room Cons by (subst drain.simps) (simp add: n_def)
      moreover have "rq_active n \<le> c" using room by (simp add: n_def)
      note IH = "1.IH" [OF room Cons, folded n_def, OF this, unfolded Let_def]
      ultimately show ?thesis
        using IH Cons unfolding Let_def by (simp add: n_def)
    qed
  qed
qed

lemma queue_ok_initial: "createRpcRequestQueue c m = ok q \<Longrightarrow> queue_ok c m q \<and> 1 \<le> c \<and> 0 \<le> m"
  by (auto simp: createRpcRequestQueue_def queue_ok_def split: if_splits)

lemma run_operation_ok:
  assumes "queue_ok c m q" and "1 \<le> c" and "0 \<le> m"
  shows "queue_ok c m (snd (run_operation c m op q))"
proof (cases "rq_active q \<ge> c \<and> int (length (rq_pending q)) \<ge> m")
  case True
  then show ?thesis using assms by (auto simp: run_operation_def queue_ok_def Let_def)
next
  case False
  define p where "p = q \<lparr>rq_pending := rq_pending q @ [op], rq_accepted := rq_accepted q @ [op]\<rparr>"
  define d where "d = drain c p"
  have "rq_active p \<le> c" using assms(1) by (simp add: p_def queue_ok_def)
  note spec = drain_spec [OF this, folded d_def, unfolded Let_def]
  have pending: "int (length (rq_pending d)) \<le> m"
  proof (cases "rq_active q < c")
    case True
    then have "rq_pending q = []" using assms(1) by (auto simp: queue_ok_def)
    then have app: "rq_started d @ rq_pending d = rq_started q @ [op]" using spec by (simp add: p_def)
    have "length (rq_started d) + length (rq_pending d) = length (rq_started q) + 1"
      using arg_cong [OF app, of length] by simp
    then have "rq_pending d = []"
      using spec True by (cases "rq_pending d") (auto simp: p_def)
    then show ?thesis using assms(3) by simp
  next
    case full: False
    then have "d = p" using drain_full [of c p] by (simp add: d_def p_def)
    then show ?thesis using False full by (simp add: p_def)
  qed
  have "snd (run_operation c m op q) = d \<lparr>rq_highWaterMark := max (rq_highWaterMark d) (int (length (rq_pending d)))\<rparr>"
    using False by (auto simp: run_operation_def Let_def d_def p_def)
  moreover have "mset (rq_running d) \<subseteq># mset (rq_started d)"
  proof -
    have "mset (rq_running d) + mset (rq_started q) = mset (rq_running q) + mset (rq_started d)"
      using spec by (simp add: p_def)
    moreover have "mset (rq_running q) \<subseteq># mset (rq_started q)" using assms(1) by (simp add: queue_ok_def)
    ultimately show ?thesis by (metis mset_subset_eq_mono_add_left_cancel add.commute subset_mset.add_right_mono)
  qed
  ultimately show ?thesis using spec pending assms(1) by (auto simp: queue_ok_def p_def)
qed

lemma settle_operation_ok:
  assumes "queue_ok c m q" and "op \<in> set (rq_running q)"
  shows "queue_ok c m (settle_operation c op q)"
    and "rq_accepted (settle_operation c op q) = rq_accepted q"
    and "min (length (rq_accepted q)) (Suc (length (rq_started q))) \<le> length (rq_started (settle_operation c op q))"
proof -
  define p where "p = q \<lparr>rq_active := rq_active q - 1, rq_running := remove1 op (rq_running q)\<rparr>"
  define d where "d = drain c p"
  have d: "settle_operation c op q = d" by (simp add: settle_operation_def d_def p_def)
  have "rq_active p \<le> c" using assms(1) by (simp add: p_def queue_ok_def)
  note spec = drain_spec [OF this, folded d_def, unfolded Let_def]
  have running: "int (length (rq_running p)) = rq_active p"
    using assms length_pos_if_in_set [OF assms(2)]
    by (simp add: p_def queue_ok_def length_remove1 of_nat_diff Suc_leI)
  have app: "rq_started d @ rq_pending d = rq_started q @ rq_pending q" using spec by (simp add: p_def)
  have lengths: "length (rq_started d) + length (rq_pending d) = length (rq_started q) + length (rq_pending q)"
    using arg_cong [OF app, of length] by simp
  have "length (rq_pending d) \<le> length (rq_pending q)" using lengths spec by (simp add: p_def)
  moreover have "mset (rq_running d) \<subseteq># mset (rq_started d)"
  proof -
    have "mset (rq_running d) + mset (rq_started q) = mset (rq_running p) + mset (rq_started d)"
      using spec by (simp add: p_def)
    moreover have "mset (rq_running p) \<subseteq># mset (rq_running q)" by (simp add: p_def)
    then have "mset (rq_running p) \<subseteq># mset (rq_started q)"
      using assms(1) by (auto simp: queue_ok_def intro: subset_mset.order_trans)
    ultimately show ?thesis by (metis mset_subset_eq_mono_add_left_cancel add.commute subset_mset.add_right_mono)
  qed
  ultimately show "queue_ok c m (settle_operation c op q)"
    using spec assms(1) running unfolding d by (auto simp: queue_ok_def p_def)
  show "rq_accepted (settle_operation c op q) = rq_accepted q" using spec by (simp add: d p_def)
  have accepted: "length (rq_accepted q) = length (rq_started q) + length (rq_pending q)"
    using assms(1) by (simp add: queue_ok_def)
  show "min (length (rq_accepted q)) (Suc (length (rq_started q))) \<le> length (rq_started (settle_operation c op q))"
  proof (cases "rq_pending q = []")
    case True
    then show ?thesis using accepted spec by (simp add: d p_def)
  next
    case False
    then have "rq_active q = c" using assms(1) by (simp add: queue_ok_def)
    then show ?thesis using spec lengths accepted by (cases "rq_pending d = []") (auto simp: d p_def)
  qed
qed

lemma run_operation_history:
  assumes "queue_ok c m q"
  shows "\<exists>more. rq_accepted (snd (run_operation c m op q)) = rq_accepted q @ more"
    and "length (rq_started q) \<le> length (rq_started (snd (run_operation c m op q)))"
  using drain_spec [of "q \<lparr>rq_pending := rq_pending q @ [op], rq_accepted := rq_accepted q @ [op]\<rparr>" c] assms
  by (auto simp: run_operation_def Let_def queue_ok_def)

definition settled_events :: "'op queue_event list \<Rightarrow> nat" where
  "settled_events es = length (filter (\<lambda>e. case e of Settled _ \<Rightarrow> True | Requested _ \<Rightarrow> False) es)"

lemma settled_events_simps [simp]:
  "settled_events [] = 0" "settled_events (Requested op # es) = settled_events es"
  "settled_events (Settled op # es) = Suc (settled_events es)"
  by (simp_all add: settled_events_def)

lemma queue_run_invariant:
  "queue_run c m q es q' \<Longrightarrow> queue_ok c m q \<Longrightarrow> 1 \<le> c \<Longrightarrow> 0 \<le> m \<Longrightarrow>
   queue_ok c m q' \<and> (\<exists>more. rq_accepted q' = rq_accepted q @ more) \<and>
   min (length (rq_accepted q)) (length (rq_started q) + settled_events es) \<le> length (rq_started q')"
proof (induction rule: queue_run.induct)
  case (run_none q)
  then show ?case by simp
next
  case (run_step q e q' es q'')
  from run_step.hyps(1) show ?case
  proof (cases rule: queue_step.cases)
    case (step_requested op)
    note history = run_operation_history [OF run_step.prems(1), of op]
    have "queue_ok c m q'" using run_operation_ok run_step.prems step_requested by simp
    with run_step.IH run_step.prems obtain more where
      "queue_ok c m q''" "rq_accepted q'' = rq_accepted q' @ more"
      "min (length (rq_accepted q')) (length (rq_started q') + settled_events es) \<le> length (rq_started q'')" by auto
    then show ?thesis using history step_requested by auto
  next
    case (step_settled op)
    note settle = settle_operation_ok [OF run_step.prems(1) step_settled(3)]
    have "queue_ok c m q'" using settle(1) step_settled by simp
    with run_step.IH run_step.prems obtain more where
      "queue_ok c m q''" "rq_accepted q'' = rq_accepted q' @ more"
      "min (length (rq_accepted q')) (length (rq_started q') + settled_events es) \<le> length (rq_started q'')" by auto
    then show ?thesis using settle(2,3) step_settled by auto
  qed
qed

text \<open>
  C18: The request queue is bounded, first in first out, and starves nobody. In every state
  reached from a new queue by requests and settlements in any order, at most the configured
  number of operations run and at most the configured number wait; the operations started so
  far are exactly the oldest accepted ones, in order; and a request is rejected if and only if
  both limits are reached. However the run goes on, once as many operations have settled as
  were waiting, every operation accepted before has been started.
\<close>

theorem rpc_queue_bounded_fifo:
  assumes "createRpcRequestQueue concurrency maximumPending = ok new" and "queue_run concurrency maximumPending new es q"
  shows "int (length (rq_running q)) \<le> concurrency \<and> int (length (rq_pending q)) \<le> maximumPending \<and>
    rq_highWaterMark q \<le> maximumPending \<and> rq_active q = int (length (rq_running q)) \<and>
    rq_accepted q = rq_started q @ rq_pending q \<and>
    (fst (run_operation concurrency maximumPending op q) \<noteq> None \<longleftrightarrow>
      int (length (rq_running q)) = concurrency \<and> int (length (rq_pending q)) = maximumPending) \<and>
    (queue_run concurrency maximumPending q later q' \<and> length (rq_pending q) \<le> settled_events later \<longrightarrow>
      take (length (rq_accepted q)) (rq_started q') = rq_accepted q)"
proof -
  have start: "queue_ok concurrency maximumPending new" "1 \<le> concurrency" "0 \<le> maximumPending"
    using queue_ok_initial [OF assms(1)] by auto
  have ok: "queue_ok concurrency maximumPending q" using queue_run_invariant [OF assms(2) start] by simp
  have "take (length (rq_accepted q)) (rq_started q') = rq_accepted q"
    if later: "queue_run concurrency maximumPending q later q'" "length (rq_pending q) \<le> settled_events later"
  proof -
    obtain more where "rq_accepted q' = rq_accepted q @ more" "queue_ok concurrency maximumPending q'"
      and "length (rq_accepted q) \<le> length (rq_started q')"
      using queue_run_invariant [OF later(1) ok start(2,3)] ok later(2) by (auto simp: queue_ok_def)
    then have "rq_accepted q @ more = rq_started q' @ rq_pending q'" by (simp add: queue_ok_def)
    from arg_cong [OF this, of "take (length (rq_accepted q))"] show ?thesis
      using \<open>length (rq_accepted q) \<le> length (rq_started q')\<close> by simp
  qed
  then show ?thesis using ok by (auto simp: queue_ok_def run_operation_def Let_def)
qed

theorem rpc_queue_bounded_fifo_witness:
  "let new = \<lparr>rq_active = 0, rq_highWaterMark = 0, rq_saturationCount = 0, rq_pending = [], rq_running = [],
        rq_started = [], rq_accepted = []\<rparr>;
      busy = snd (run_operation 1 1 (5::nat) (snd (run_operation 1 1 4 new)))
    in int (length (rq_running busy)) \<le> 1 \<and> fst (run_operation 1 1 6 busy) \<noteq> None \<and>
       take (length (rq_accepted busy)) (rq_started (settle_operation 1 4 busy)) = rq_accepted busy"
proof -
  let ?new = "\<lparr>rq_active = 0, rq_highWaterMark = 0, rq_saturationCount = 0, rq_pending = [], rq_running = [],
      rq_started = [], rq_accepted = []\<rparr> :: nat rpc_queue"
  let ?busy = "snd (run_operation 1 1 5 (snd (run_operation 1 1 4 ?new)))"
  have created: "createRpcRequestQueue 1 1 = ok ?new" by (simp add: createRpcRequestQueue_def MAX_SAFE_INTEGER_def)
  have busy: "?busy = \<lparr>rq_active = 1, rq_highWaterMark = 1, rq_saturationCount = 0, rq_pending = [5], rq_running = [4],
      rq_started = [4], rq_accepted = [4, 5]\<rparr>"
    by code_simp
  have run: "queue_run 1 1 ?new [Requested 4, Requested 5] ?busy"
    by (simp add: queue_run_simps queue_step_simps)
  have later: "queue_run 1 1 ?busy [Settled 4] (settle_operation 1 4 ?busy)"
    by (simp add: queue_run_simps queue_step_simps) (simp add: busy)
  from rpc_queue_bounded_fifo [OF created run, of 6 "[Settled 4]"] later
  show ?thesis unfolding Let_def by (simp add: busy)
qed

end
