(* ===== verification/Decimal_Text.thy ===== *)
theory Decimal_Text
  imports Js_Strings
begin

text \<open>
  Decimal amounts as text: \<open>parseUnits\<close> and \<open>formatUnits\<close> of
  \<open>shared/ts/ethereum.ts\<close>, the input fields' parser \<open>ui/coreShared/ts/lib/decimal.ts\<close> and
  the balance formatters of \<open>ui/coreShared/ts/lib/formatters.ts\<close>. The lemmas show that a
  printed amount reads back as itself and that no text makes the input parser throw.
\<close>

section \<open>Text\<close>

text \<open>\<open>text.split(separator)\<close> for a one-character separator.\<close>

fun split_on :: "char \<Rightarrow> string \<Rightarrow> string list" where
  "split_on sep [] = [[]]"
| "split_on sep (c # cs) =
     (if c = sep then [] # split_on sep cs
      else case split_on sep cs of [] \<Rightarrow> [[c]] | part # parts \<Rightarrow> (c # part) # parts)"

lemma split_on_no_sep: "sep \<notin> set s \<Longrightarrow> split_on sep s = [s]"
  by (induction s) auto

lemma split_on_append: "sep \<notin> set s \<Longrightarrow> split_on sep (s @ sep # rest) = s # split_on sep rest"
  by (induction s) auto

definition starts_with :: "string \<Rightarrow> char \<Rightarrow> bool" where
  "starts_with s c \<longleftrightarrow> (case s of [] \<Rightarrow> False | x # _ \<Rightarrow> x = c)"

definition ends_with :: "string \<Rightarrow> char \<Rightarrow> bool" where
  "ends_with s c \<longleftrightarrow> s \<noteq> [] \<and> last s = c"

text \<open>\<open>/^-?(?:\d+\.?\d*|\.\d+)$/\<close>\<close>

definition is_decimal_text :: "string \<Rightarrow> bool" where
  "is_decimal_text s \<longleftrightarrow>
     (let u = (if starts_with s (CHR ''-'') then tl s else s);
          whole = takeWhile is_digit u; rest = dropWhile is_digit u
      in (whole \<noteq> [] \<and> (rest = [] \<or> (hd rest = CHR ''.'' \<and> list_all is_digit (tl rest)))) \<or>
         (starts_with u (CHR ''.'') \<and> tl u \<noteq> [] \<and> list_all is_digit (tl u)))"

section \<open>Units\<close>

definition parseUnits :: "string \<Rightarrow> nat \<Rightarrow> int result" where
  "parseUnits input decimals =
     (let trimmed = trim input in
      if \<not> is_decimal_text trimmed then throw (''Invalid decimal value: '' @ input)
      else
        let negative = starts_with trimmed (CHR ''-'');
            normalized = (if negative then drop 1 trimmed else trimmed);
            parts = split_on (CHR ''.'') normalized;
            wholePartRaw = parts ! 0;
            fractionPartRaw = (if 1 < length parts then parts ! 1 else []);
            wholePart = (if wholePartRaw = [] then ''0'' else wholePartRaw);
            trimmedFraction = strip_trailing_zeros fractionPartRaw
        in
        if length trimmedFraction > decimals
        then throw (''Too many decimal places: expected at most '' @ nat_digits decimals)
        else
          let paddedFraction = padEnd decimals (CHR ''0'') trimmedFraction;
              stripped = dropWhile (\<lambda>c. c = CHR ''0'') (wholePart @ paddedFraction);
              combined = (if stripped = [] then ''0'' else stripped)
          in bindR (bigint_of_string combined) (\<lambda>v. ok (if negative then - v else v)))"

definition formatUnits :: "int \<Rightarrow> nat \<Rightarrow> string" where
  "formatUnits amount decimals =
     (let negative = amount < 0;
          normalized = (if negative then - amount else amount);
          base = 10 ^ decimals;
          whole = normalized sdiv base;
          fraction = normalized smod base;
          sign = (if negative then ''-'' else '''')
      in if fraction = 0 then sign @ bigint_to_string whole
         else sign @ bigint_to_string whole @ ''.'' @
              strip_trailing_zeros (padStart decimals (CHR ''0'') (bigint_to_string fraction)))"

definition formatEther :: "int \<Rightarrow> string" where "formatEther amount = formatUnits amount 18"

section \<open>Input fields\<close>

definition normalizeDecimalInput :: "string \<Rightarrow> string" where
  "normalizeDecimalInput input =
     (let trimmed = trim input in
      if trimmed = [] then trimmed
      else if trimmed = ''.'' \<or> trimmed = ''-.'' then trimmed
      else if starts_with trimmed (CHR ''.'') then ''0'' @ trimmed
      else if ends_with trimmed (CHR ''.'') then trimmed @ ''0''
      else trimmed)"

definition hasValidDecimalPrecision :: "string \<Rightarrow> nat \<Rightarrow> bool" where
  "hasValidDecimalPrecision input units =
     (let parts = split_on (CHR ''.'') input in
      if length parts \<le> 1 then True else length (strip_trailing_zeros (parts ! 1)) \<le> units)"

definition tryParseDecimalInput :: "string \<Rightarrow> nat \<Rightarrow> int option result" where
  "tryParseDecimalInput input units =
     (let trimmed = trim input in
      if trimmed = [] then ok None
      else
        let normalized = normalizeDecimalInput trimmed in
        if \<not> is_decimal_text normalized then ok None
        else if \<not> hasValidDecimalPrecision normalized units then ok None
        else bindR (parseUnits normalized units) (\<lambda>v. ok (Some v)))"

definition parseDecimalInput :: "string \<Rightarrow> string \<Rightarrow> nat \<Rightarrow> int result" where
  "parseDecimalInput input label units =
     (let trimmed = trim input in
      if trimmed = [] then throw (label @ '' is required'')
      else bindR (tryParseDecimalInput trimmed units) (\<lambda>parsed. case parsed of
          None \<Rightarrow> throw (label @ '' must be a decimal number.'')
        | Some v \<Rightarrow> ok v))"

section \<open>Balances\<close>

text \<open>A blank before every group of three digits but the first, for a string of digits.\<close>

function group_digits :: "string \<Rightarrow> string" where
  "group_digits s =
     (if length s \<le> 3 then s else group_digits (take (length s - 3) s) @ '' '' @ drop (length s - 3) s)"
  by pat_completeness auto
termination by (relation "measure length") auto

declare group_digits.simps [simp del]

definition formatGroupedInteger :: "int \<Rightarrow> string" where
  "formatGroupedInteger amount =
     (if amount < 0 then ''-'' @ group_digits (nat_digits (nat (- amount))) else group_digits (nat_digits (nat amount)))"

definition formatDecimalString :: "string \<Rightarrow> string result" where
  "formatDecimalString s =
     (let isNegative = starts_with s (CHR ''-'');
          unsignedValue = (if isNegative then drop 1 s else s);
          parts = split_on (CHR ''.'') unsignedValue
      in bindR (bigint_of_string (parts ! 0)) (\<lambda>integerPart.
           ok ((if isNegative then ''-'' else '''') @ formatGroupedInteger integerPart @
               (if length parts \<le> 1 then '''' else ''.'' @ parts ! 1))))"

text \<open>Of a defined value; the screens show a dash for an undefined one.\<close>

definition formatCurrencyBalance :: "int \<Rightarrow> nat \<Rightarrow> string result" where
  "formatCurrencyBalance amount units =
     (let formattedValue = (if units = 18 then formatEther amount else formatUnits amount units)
      in formatDecimalString formattedValue)"

definition formatValueWithUnit :: "string \<Rightarrow> string \<Rightarrow> string" where
  "formatValueWithUnit shown unit_name = shown @ [CHR 0xA0] @ unit_name"

definition formatCurrencyBalanceWithUnit :: "int \<Rightarrow> string \<Rightarrow> nat \<Rightarrow> string result" where
  "formatCurrencyBalanceWithUnit amount unit_name units =
     bindR (formatCurrencyBalance amount units) (\<lambda>shown. ok (formatValueWithUnit shown unit_name))"

definition formatAdditionalCurrencyBalance :: "int \<Rightarrow> string \<Rightarrow> nat \<Rightarrow> string result" where
  "formatAdditionalCurrencyBalance amount unit_name units =
     bindR (formatCurrencyBalance amount units) (\<lambda>shown. ok (shown @ [CHR 0xA0] @ ''more'' @ [CHR 0xA0] @ unit_name))"

definition formatCurrencyInputBalance :: "int \<Rightarrow> nat \<Rightarrow> string" where
  "formatCurrencyInputBalance amount units = (if units = 18 then formatEther amount else formatUnits amount units)"

section \<open>The form of a printed amount\<close>

lemma digits_not: "is_digit c \<Longrightarrow> c \<noteq> CHR ''.'' \<and> c \<noteq> CHR ''-'' \<and> \<not> is_space c"
  by (auto simp: is_digit_def not_space_digit)

lemma no_point: "list_all is_digit s \<Longrightarrow> CHR ''.'' \<notin> set s"
  using digits_not by (auto simp: list_all_iff)

lemma is_digit_zero [simp]: "is_digit (CHR ''0'')"
  by (simp add: is_digit_def)

text \<open>The strings of digits the formatters build.\<close>

lemma digit_lists [simp]:
  shows digit_lists_nat: "list_all is_digit (nat_digits n)"
    and digit_lists_start: "list_all is_digit (padStart n (CHR ''0'') s) = list_all is_digit s"
    and digit_lists_end: "list_all is_digit (padEnd n (CHR ''0'') s) = list_all is_digit s"
  by (auto simp: list_all_iff padStart_def padEnd_def dest: nat_digits_digits)

lemma digit_lists_drop: "list_all is_digit s \<Longrightarrow> list_all is_digit (dropWhile P s)"
  by (auto simp: list_all_iff dest: set_dropWhileD)

lemma digit_lists_strip: "list_all is_digit s \<Longrightarrow> list_all is_digit (strip_trailing z s)"
  by (auto simp: list_all_iff strip_trailing_def dest: set_dropWhileD)

lemma trim_no_spaces: "s = [] \<or> \<not> is_space (hd s) \<and> \<not> is_space (last s) \<Longrightarrow> trim s = s"
proof -
  assume ends: "s = [] \<or> \<not> is_space (hd s) \<and> \<not> is_space (last s)"
  then have "dropWhile is_space s = s" by (cases s) auto
  moreover have "dropWhile is_space (rev s) = rev s" using ends by (cases s rule: rev_cases) auto
  ultimately show ?thesis by (simp add: trim_def)
qed

lemma trim_ends: "trim s \<noteq> [] \<Longrightarrow> \<not> is_space (hd (trim s)) \<and> \<not> is_space (last (trim s))"
proof -
  assume nonempty: "trim s \<noteq> []"
  define u where "u = dropWhile is_space s"
  define w where "w = dropWhile is_space (rev u)"
  have t: "trim s = rev w" by (simp add: trim_def u_def w_def)
  then have w: "w \<noteq> []" using nonempty by simp
  have "\<not> is_space (hd w)" using w hd_dropWhile [of is_space "rev u"] by (simp add: w_def)
  moreover have "last w = last (rev u)"
    using w unfolding w_def by (metis append_is_Nil_conv last_append takeWhile_dropWhile_id)
  then have "last w = hd u" using w by (cases u) (auto simp: w_def)
  moreover have "u \<noteq> []" using w by (auto simp: w_def)
  then have "\<not> is_space (hd u)" using hd_dropWhile [of is_space s] by (simp add: u_def)
  ultimately show ?thesis using w by (simp add: t hd_rev last_rev)
qed

lemma trim_trim [simp]: "trim (trim s) = trim s"
  using trim_ends [of s] by (intro trim_no_spaces) auto

text \<open>An optional sign, digits, and optionally a point and digits.\<close>

definition decimal_text :: "bool \<Rightarrow> string \<Rightarrow> string option \<Rightarrow> string" where
  "decimal_text negative whole fraction =
     (if negative then ''-'' else '''') @ whole @ (case fraction of None \<Rightarrow> '''' | Some f \<Rightarrow> ''.'' @ f)"

lemma is_decimal_text_form:
  assumes "all_digits whole" and "case fraction of None \<Rightarrow> True | Some f \<Rightarrow> list_all is_digit f"
  shows "is_decimal_text (decimal_text negative whole fraction)"
proof -
  define rest where "rest = (case fraction of None \<Rightarrow> [] | Some f \<Rightarrow> ''.'' @ f)"
  have rest: "rest = [] \<or> hd rest = CHR ''.'' \<and> list_all is_digit (tl rest)"
    using assms(2) by (auto simp: rest_def split: option.splits)
  have whole: "whole \<noteq> []" "list_all is_digit whole" using assms(1) by (auto simp: all_digits_def)
  then obtain c cs where c: "whole = c # cs" "c \<noteq> CHR ''-''" by (cases whole) (auto dest: digits_not)
  have parts: "takeWhile is_digit (whole @ rest) = whole" "dropWhile is_digit (whole @ rest) = rest"
    using whole(2) rest by (cases rest; auto simp: takeWhile_append dropWhile_append list_all_iff is_digit_def)+
  have "(if starts_with (decimal_text negative whole fraction) (CHR ''-'')
      then tl (decimal_text negative whole fraction) else decimal_text negative whole fraction) = whole @ rest"
    using c by (simp add: decimal_text_def rest_def [symmetric] starts_with_def)
  then show ?thesis
    using whole(1) rest unfolding is_decimal_text_def Let_def by (simp add: parts)
qed

lemma decimal_text_split:
  assumes "all_digits whole" and "case fraction of None \<Rightarrow> True | Some f \<Rightarrow> list_all is_digit f"
  shows "split_on (CHR ''.'') (decimal_text False whole fraction) =
    (case fraction of None \<Rightarrow> [whole] | Some f \<Rightarrow> [whole, f])"
proof -
  have "CHR ''.'' \<notin> set s" if "list_all is_digit s" for s
    using that by (auto simp: list_all_iff dest: digits_not)
  then show ?thesis
    using assms by (auto simp: decimal_text_def all_digits_def split_on_no_sep split_on_append split: option.splits)
qed

lemma bigint_of_stripped:
  assumes "list_all is_digit s"
  shows "bigint_of_string (if dropWhile (\<lambda>c. c = CHR ''0'') s = [] then ''0'' else dropWhile (\<lambda>c. c = CHR ''0'') s)
    = ok (int (digits_value s))"
proof -
  obtain k where k: "s = replicate k (CHR ''0'') @ dropWhile (\<lambda>c. c = CHR ''0'') s"
    using dropWhile_zeros [of s "CHR ''0''"] by blast
  define d where "d = dropWhile (\<lambda>c. c = CHR ''0'') s"
  have v: "digits_value s = digits_value d"
    using arg_cong [OF k, of digits_value] by (simp add: digits_value_append d_def)
  have "list_all is_digit d" using assms by (auto simp: d_def list_all_iff dest: set_dropWhileD)
  then have "bigint_of_string d = ok (int (digits_value d))" if "d \<noteq> []"
    using that trim_digits [of d] by (simp add: bigint_of_string_def all_digits_def Let_def)
  moreover have "bigint_of_string ''0'' = ok 0" by code_simp
  ultimately show ?thesis unfolding v d_def [symmetric] by auto
qed

lemma decimal_text_trim:
  assumes "all_digits whole" and "case fraction of None \<Rightarrow> True | Some f \<Rightarrow> f \<noteq> [] \<and> list_all is_digit f"
  shows "trim (decimal_text negative whole fraction) = decimal_text negative whole fraction"
    and "decimal_text negative whole fraction \<noteq> []" and "\<not> starts_with (decimal_text negative whole fraction) (CHR ''.'')"
    and "\<not> ends_with (decimal_text negative whole fraction) (CHR ''.'')"
    and "starts_with (decimal_text negative whole fraction) (CHR ''-'') = negative"
    and "decimal_text negative whole fraction \<noteq> ''-.''"
proof -
  let ?t = "decimal_text negative whole fraction"
  have minus: "\<not> is_space (CHR ''-'')" by (simp add: is_space_def)
  have whole: "whole \<noteq> []" "\<And>c. c \<in> set whole \<Longrightarrow> is_digit c" using assms(1) by (auto simp: all_digits_def list_all_iff)
  have first: "hd ?t = (if negative then CHR ''-'' else hd whole)" "is_digit (hd whole)"
    using whole by (auto simp: decimal_text_def)
  have "last ?t = (case fraction of None \<Rightarrow> last whole | Some f \<Rightarrow> last f)"
    using whole(1) assms(2) by (auto simp: decimal_text_def split: option.splits)
  moreover have "is_digit (case fraction of None \<Rightarrow> last whole | Some f \<Rightarrow> last f)"
    using whole assms(2) by (auto simp: list_all_iff split: option.splits)
  ultimately have last: "is_digit (last ?t)" by simp
  show nonempty: "?t \<noteq> []" using whole(1) by (simp add: decimal_text_def)
  show "trim ?t = ?t"
    using first digits_not [OF first(2)] digits_not [OF last] minus by (intro trim_no_spaces) auto
  show "\<not> starts_with ?t (CHR ''.'')" "starts_with ?t (CHR ''-'') = negative"
    using first digits_not [OF first(2)] nonempty by (auto simp: starts_with_def split: list.splits if_splits)
  show "\<not> ends_with ?t (CHR ''.'')" using digits_not [OF last] by (auto simp: ends_with_def)
  then show "?t \<noteq> ''-.''" by (auto simp: ends_with_def)
qed

text \<open>What the parser makes of such a text whose fraction fits.\<close>

lemma parseUnits_form:
  assumes "all_digits whole" and "case fraction of None \<Rightarrow> True | Some f \<Rightarrow> f \<noteq> [] \<and> list_all is_digit f"
    and "F = (case fraction of None \<Rightarrow> [] | Some f \<Rightarrow> strip_trailing_zeros f)" and "length F \<le> units"
  shows "parseUnits (decimal_text negative whole fraction) units = ok ((if negative then - 1 else 1) *
    (int (digits_value whole) * 10 ^ units + int (digits_value (padEnd units (CHR ''0'') F))))"
proof -
  let ?t = "decimal_text negative whole fraction"
  have digits: "case fraction of None \<Rightarrow> True | Some f \<Rightarrow> list_all is_digit f" using assms(2) by (auto split: option.splits)
  note form = is_decimal_text_form [OF assms(1) digits, of negative] decimal_text_trim [OF assms(1,2), of negative]
  have body: "(if negative then drop 1 ?t else ?t) = decimal_text False whole fraction"
    by (simp add: decimal_text_def)
  have F: "list_all is_digit F"
    using digits assms(3) by (auto simp: list_all_iff strip_trailing_def split: option.splits dest!: set_dropWhileD)
  have all: "list_all is_digit (whole @ padEnd units (CHR ''0'') F)"
    using assms(1) F by (auto simp: all_digits_def padEnd_def list_all_iff is_digit_def)
  have "length (padEnd units (CHR ''0'') F) = units" using assms(4) by (simp add: length_padEnd)
  then have total: "int (digits_value (whole @ padEnd units (CHR ''0'') F))
      = int (digits_value whole) * 10 ^ units + int (digits_value (padEnd units (CHR ''0'') F))"
    by (simp add: digits_value_append)
  have whole: "whole \<noteq> []" using assms(1) by (simp add: all_digits_def)
  define parts where "parts = split_on (CHR ''.'') (decimal_text False whole fraction)"
  have parts: "parts ! 0 = whole" "strip_trailing_zeros (if 1 < length parts then parts ! 1 else []) = F"
    using decimal_text_split [OF assms(1) digits] assms(3)
    by (cases fraction; simp add: parts_def strip_trailing_def)+
  have "\<not> length F > units" using assms(4) by simp
  then have "parseUnits ?t units = bindR (ok (int (digits_value (whole @ padEnd units (CHR ''0'') F))))
      (\<lambda>v. ok (if negative then - v else v))"
    unfolding parseUnits_def Let_def form(2) form(6) body parts_def [symmetric] parts
    by (simp only: form(1) whole if_False if_True not_True_eq_False bigint_of_stripped [OF all])
  then show ?thesis unfolding total by simp
qed

text \<open>A printed amount has that form.\<close>

lemma formatUnits_form:
  "\<exists>whole fraction. formatUnits amount units = decimal_text (amount < 0) whole fraction \<and> all_digits whole \<and>
     whole = nat_digits (digits_value whole) \<and>
     (case fraction of None \<Rightarrow> True
      | Some f \<Rightarrow> f \<noteq> [] \<and> list_all is_digit f \<and> strip_trailing_zeros f = f \<and> length f \<le> units) \<and>
     int (digits_value whole) * 10 ^ units
       + int (digits_value (padEnd units (CHR ''0'') (case fraction of None \<Rightarrow> [] | Some f \<Rightarrow> f))) = \<bar>amount\<bar>"
proof -
  define n where "n = nat \<bar>amount\<bar>"
  define w f where "w = n div 10 ^ units" and "f = n mod 10 ^ units"
  have n: "int n = \<bar>amount\<bar>" by (simp add: n_def)
  have quotient: "\<bar>amount\<bar> sdiv 10 ^ units = int w" "\<bar>amount\<bar> smod 10 ^ units = int f"
    unfolding n [symmetric] sdiv_nonneg [OF of_nat_0_le_iff zero_le_power [OF zero_le_numeral]]
      smod_nonneg [OF of_nat_0_le_iff zero_le_power [OF zero_le_numeral]] w_def f_def
    by (simp_all only: zdiv_int zmod_int of_nat_power of_nat_numeral)
  have sum: "int w * 10 ^ units + int f = \<bar>amount\<bar>"
    unfolding n [symmetric] w_def f_def
    using arg_cong [OF div_mult_mod_eq [of n "10 ^ units"], of int] by (simp only: of_nat_add of_nat_mult of_nat_power of_nat_numeral)
  have abs: "(if amount < 0 then - amount else amount) = \<bar>amount\<bar>" by auto
  show ?thesis
  proof (cases "f = 0")
    case True
    then have "formatUnits amount units = decimal_text (amount < 0) (nat_digits w) None"
      by (simp add: formatUnits_def Let_def abs quotient decimal_text_def bigint_to_string_def)
    then show ?thesis using sum True
      by (intro exI [of _ "nat_digits w"] exI [of _ None]) (simp add: padEnd_def)
  next
    case False
    define p where "p = padStart units (CHR ''0'') (nat_digits f)"
    define s where "s = strip_trailing_zeros p"
    have "f < 10 ^ units" by (simp add: f_def)
    moreover have "0 < units" using False by (cases units) (auto simp: f_def)
    ultimately have "length (nat_digits f) \<le> units" by (intro length_nat_digits_le)
    then have length: "length p = units" by (simp add: p_def padStart_def)
    have padded: "padEnd units (CHR ''0'') s = p" using padEnd_strip_trailing [of p] by (simp add: s_def length)
    have "digits_value p = f" by (simp add: p_def)
    then have "s \<noteq> []" using padded False by (auto simp: padEnd_def)
    moreover have "list_all is_digit p"
      by (auto simp: p_def padStart_def list_all_iff is_digit_def [of "CHR ''0''"] dest: nat_digits_digits)
    then have "list_all is_digit s" by (auto simp: s_def list_all_iff strip_trailing_def dest!: set_dropWhileD)
    moreover have "strip_trailing_zeros s = s"
    proof -
      have "last s \<noteq> CHR ''0''" using \<open>s \<noteq> []\<close> strip_trailing_last [of "CHR ''0''" p] by (simp add: s_def)
      then show ?thesis using \<open>s \<noteq> []\<close> by (cases s rule: rev_cases) (auto simp: strip_trailing_def)
    qed
    moreover have "length s \<le> units"
      using arg_cong [OF padded, of length] length by (simp add: length_padEnd)
    moreover have "formatUnits amount units = decimal_text (amount < 0) (nat_digits w) (Some s)"
      using False by (simp add: formatUnits_def Let_def abs quotient decimal_text_def bigint_to_string_def p_def s_def)
    ultimately show ?thesis using sum padded \<open>digits_value p = f\<close>
      by (intro exI [of _ "nat_digits w"] exI [of _ "Some s"]) simp
  qed
qed

section \<open>Every text\<close>

lemma is_decimal_text_shape:
  assumes "is_decimal_text s"
  obtains negative whole fraction where
    "s = decimal_text negative whole fraction" and "list_all is_digit whole"
    and "case fraction of None \<Rightarrow> whole \<noteq> [] | Some f \<Rightarrow> list_all is_digit f \<and> (whole = [] \<longrightarrow> f \<noteq> [])"
proof -
  define u where "u = (if starts_with s (CHR ''-'') then tl s else s)"
  have s: "s = (if starts_with s (CHR ''-'') then ''-'' else '''') @ u"
    by (cases s) (auto simp: u_def starts_with_def)
  define whole rest where "whole = takeWhile is_digit u" and "rest = dropWhile is_digit u"
  have u: "u = whole @ rest" and digits: "list_all is_digit whole"
    by (auto simp: whole_def rest_def list_all_iff dest: set_takeWhileD)
  consider "whole \<noteq> []" "rest = []" | f where "whole \<noteq> []" "rest = CHR ''.'' # f" "list_all is_digit f"
    | f where "u = CHR ''.'' # f" "f \<noteq> []" "list_all is_digit f"
    using assms unfolding is_decimal_text_def Let_def u_def [symmetric] whole_def [symmetric] rest_def [symmetric]
    by (cases rest; cases u) (auto simp: starts_with_def)
  then show ?thesis
  proof cases
    case 1
    then show ?thesis using that [of _ whole None] s u digits by (simp add: decimal_text_def)
  next
    case 2
    then show ?thesis using that [of _ whole "Some f"] s u digits by (simp add: decimal_text_def)
  next
    case 3
    then show ?thesis using that [of _ "[]" "Some f"] s by (simp add: decimal_text_def)
  qed
qed

lemma is_decimal_text_trim: "is_decimal_text s \<Longrightarrow> trim s = s"
proof (erule is_decimal_text_shape)
  fix negative whole fraction
  assume s: "s = decimal_text negative whole fraction" and digits: "list_all is_digit whole"
    "case fraction of None \<Rightarrow> whole \<noteq> [] | Some f \<Rightarrow> list_all is_digit f \<and> (whole = [] \<longrightarrow> f \<noteq> [])"
  have "\<not> is_space c" if "c \<in> set s" for c
    using that digits digits_not unfolding s decimal_text_def
    by (auto simp: list_all_iff is_space_def split: option.splits if_splits)
  then show ?thesis by (intro trim_no_spaces) (cases "s = []"; simp)
qed

lemma starts_with_minus:
  assumes "list_all is_digit whole"
    and "case fraction of None \<Rightarrow> whole \<noteq> [] | Some f \<Rightarrow> list_all is_digit f \<and> (whole = [] \<longrightarrow> f \<noteq> [])"
  shows "starts_with (decimal_text negative whole fraction) (CHR ''-'') = negative"
  using assms by (cases whole) (auto simp: starts_with_def decimal_text_def dest: digits_not split: option.splits)

lemma parseUnits_total:
  assumes "is_decimal_text s" and "hasValidDecimalPrecision s units"
  shows "\<exists>v. parseUnits s units = ok v"
proof -
  obtain negative whole fraction where s: "s = decimal_text negative whole fraction"
    and digits: "list_all is_digit whole"
      "case fraction of None \<Rightarrow> whole \<noteq> [] | Some f \<Rightarrow> list_all is_digit f \<and> (whole = [] \<longrightarrow> f \<noteq> [])"
    using assms(1) by (rule is_decimal_text_shape)
  define F where "F = (case fraction of None \<Rightarrow> [] | Some f \<Rightarrow> f)"
  have F: "list_all is_digit F" using digits(2) by (auto simp: F_def split: option.splits)
  have points: "CHR ''.'' \<notin> set whole" "CHR ''.'' \<notin> set F"
    using digits(1) F by (auto simp: list_all_iff dest: digits_not)
  have split: "split_on (CHR ''.'') (sign @ decimal_text False whole fraction) =
      (case fraction of None \<Rightarrow> [sign @ whole] | Some f \<Rightarrow> [sign @ whole, f])" if "CHR ''.'' \<notin> set sign" for sign
    using points that split_on_append [of "CHR ''.''" "sign @ whole" F] split_on_no_sep [of "CHR ''.''" "sign @ whole"]
      split_on_no_sep [of "CHR ''.''" F]
    by (auto simp: decimal_text_def F_def split: option.splits)
  have signed: "decimal_text negative whole fraction = (if negative then ''-'' else '''') @ decimal_text False whole fraction"
    by (simp add: decimal_text_def)
  have fits: "length (strip_trailing_zeros F) \<le> units"
    using assms(2) split [of "if negative then ''-'' else ''''"]
    by (auto simp: hasValidDecimalPrecision_def s signed F_def strip_trailing_def split: option.splits if_splits)
  define W where "W = (if whole = [] then ''0'' else whole)"
  define P where "P = W @ padEnd units (CHR ''0'') (strip_trailing_zeros F)"
  have "list_all is_digit P"
    using digits(1) F by (auto simp: P_def W_def padEnd_def list_all_iff is_digit_def strip_trailing_def dest!: set_dropWhileD)
  note read = bigint_of_stripped [OF this]
  have body: "(if negative then drop 1 (decimal_text negative whole fraction) else decimal_text negative whole fraction)
      = decimal_text False whole fraction" by (simp add: decimal_text_def)
  define parts where "parts = split_on (CHR ''.'') (decimal_text False whole fraction)"
  have parts: "parts ! 0 = whole" "(if 1 < length parts then parts ! 1 else []) = F"
    using split [of "[]"] by (simp_all add: parts_def F_def split: option.splits)
  have "\<not> units < length (strip_trailing_zeros F)" using fits by simp
  then have "parseUnits s units = bindR (ok (int (digits_value P))) (\<lambda>v. ok (if negative then - v else v))"
    unfolding parseUnits_def Let_def is_decimal_text_trim [OF assms(1)]
    unfolding s starts_with_minus [OF digits] body parts_def [symmetric] parts W_def [symmetric] P_def [symmetric]
    by (simp only: assms(1) [unfolded s] if_False if_True not_True_eq_False read)
  then show ?thesis by simp
qed

lemma parse_input_total: "\<exists>v. tryParseDecimalInput input units = ok v"
  using parseUnits_total [of "normalizeDecimalInput (trim input)" units]
  by (auto simp: tryParseDecimalInput_def Let_def)

section \<open>Blanks between groups\<close>

lemma group_digits_blanks: "CHR '' '' \<notin> set s \<Longrightarrow> filter (\<lambda>c. c \<noteq> CHR '' '') (group_digits s) = s"
proof (induction s rule: group_digits.induct)
  case (1 s)
  have parts: "CHR '' '' \<notin> set (take (length s - 3) s)" "CHR '' '' \<notin> set (drop (length s - 3) s)"
    using "1.prems" by (auto dest: in_set_takeD in_set_dropD)
  have "filter (\<lambda>c. c \<noteq> CHR '' '') t = t" if "CHR '' '' \<notin> set t" for t
    using that by (intro filter_True) auto
  then show ?case using 1 parts by (subst group_digits.simps) simp
qed

lemma format_balance_form:
  "formatCurrencyInputBalance amount units = formatUnits amount units"
  by (simp add: formatCurrencyInputBalance_def formatEther_def)

lemma format_balance: "formatCurrencyBalance amount units = formatDecimalString (formatUnits amount units)"
  by (simp add: formatCurrencyBalance_def formatEther_def Let_def)

text \<open>What an input field reads from such a text, whose fraction may end in zeros.\<close>

lemma try_parse_form:
  assumes "all_digits whole" and "case fraction of None \<Rightarrow> True | Some f \<Rightarrow> f \<noteq> [] \<and> list_all is_digit f"
    and F: "F = (case fraction of None \<Rightarrow> [] | Some f \<Rightarrow> strip_trailing_zeros f)" "length F \<le> units"
  shows "tryParseDecimalInput (decimal_text negative whole fraction) units = ok (Some ((if negative then - 1 else 1) *
    (int (digits_value whole) * 10 ^ units + int (digits_value (padEnd units (CHR ''0'') F)))))"
proof -
  have digits: "case fraction of None \<Rightarrow> True | Some f \<Rightarrow> list_all is_digit f"
    using assms(2) by (auto split: option.splits)
  let ?t = "decimal_text negative whole fraction"
  note shape = decimal_text_trim [OF assms(1,2), of negative]
  have normal: "normalizeDecimalInput ?t = ?t"
    using shape unfolding normalizeDecimalInput_def Let_def shape(1) by (auto simp: ends_with_def)
  have point: "CHR ''.'' \<notin> set s" if "list_all is_digit s" for s
    using that by (auto simp: list_all_iff dest: digits_not)
  have signed: "CHR ''.'' \<notin> set ((if negative then ''-'' else '''') @ whole)"
    using point assms(1) by (auto simp: all_digits_def)
  have "split_on (CHR ''.'') ?t = (case fraction of None \<Rightarrow> [(if negative then ''-'' else '''') @ whole]
      | Some f \<Rightarrow> [(if negative then ''-'' else '''') @ whole, f])"
    using split_on_no_sep [OF signed] split_on_append [OF signed] point digits
    by (auto simp: decimal_text_def split_on_no_sep split: option.splits)
  then have precise: "hasValidDecimalPrecision ?t units"
    using F by (simp add: hasValidDecimalPrecision_def split: option.splits)
  show ?thesis
    using shape is_decimal_text_form [OF assms(1) digits, of negative] precise
    by (simp add: tryParseDecimalInput_def normal parseUnits_form [OF assms(1,2) F])
qed

lemma format_balance_shown:
  "\<exists>shown. formatCurrencyBalance amount units = ok shown \<and>
     filter (\<lambda>c. c \<noteq> CHR '' '') shown = formatCurrencyInputBalance amount units"
proof -
  obtain whole fraction where printed: "formatUnits amount units = decimal_text (amount < 0) whole fraction"
    and whole: "all_digits whole" and canonical: "whole = nat_digits (digits_value whole)"
    and fraction: "case fraction of None \<Rightarrow> True
      | Some f \<Rightarrow> f \<noteq> [] \<and> list_all is_digit f \<and> strip_trailing_zeros f = f \<and> length f \<le> units"
    using formatUnits_form [of amount units] by blast
  have digits: "case fraction of None \<Rightarrow> True | Some f \<Rightarrow> f \<noteq> [] \<and> list_all is_digit f"
    "case fraction of None \<Rightarrow> True | Some f \<Rightarrow> list_all is_digit f"
    using fraction by (auto split: option.splits)
  let ?t = "decimal_text (amount < 0) whole fraction"
  define sign where "sign = (if amount < 0 then ''-'' else '''')"
  define tail where "tail = (case fraction of None \<Rightarrow> '''' | Some f \<Rightarrow> ''.'' @ f)"
  note minus = decimal_text_trim(5) [OF whole digits(1), of "amount < 0"]
  have body: "(if amount < 0 then drop 1 ?t else ?t) = decimal_text False whole fraction"
    by (simp add: decimal_text_def)
  have "formatDecimalString ?t = bindR (bigint_of_string whole) (\<lambda>integerPart. ok (sign @ formatGroupedInteger integerPart @ tail))"
    unfolding formatDecimalString_def Let_def minus body decimal_text_split [OF whole digits(2)] sign_def tail_def
    by (cases fraction) simp_all
  also have "bigint_of_string whole = ok (int (digits_value whole))"
    by (subst canonical) simp
  finally have "formatDecimalString ?t = ok (sign @ group_digits whole @ tail)"
    using canonical by (simp add: formatGroupedInteger_def)
  moreover have "filter (\<lambda>c. c \<noteq> CHR '' '') (group_digits whole) = whole"
    using whole by (intro group_digits_blanks) (auto simp: all_digits_def list_all_iff is_digit_def)
  moreover have "filter (\<lambda>c. c \<noteq> CHR '' '') s = s" if "list_all is_digit s" for s
    using that by (intro filter_True) (auto simp: list_all_iff is_digit_def)
  ultimately show ?thesis
    using digits(2) by (auto simp: format_balance printed format_balance_form sign_def tail_def decimal_text_def split: option.splits)
qed

lemma parse_formatted: "tryParseDecimalInput (formatUnits amount units) units = ok (Some amount)"
proof -
  obtain whole fraction where printed: "formatUnits amount units = decimal_text (amount < 0) whole fraction"
    and whole: "all_digits whole"
    and fraction: "case fraction of None \<Rightarrow> True
      | Some f \<Rightarrow> f \<noteq> [] \<and> list_all is_digit f \<and> strip_trailing_zeros f = f \<and> length f \<le> units"
    and total: "int (digits_value whole) * 10 ^ units
       + int (digits_value (padEnd units (CHR ''0'') (case fraction of None \<Rightarrow> [] | Some f \<Rightarrow> f))) = \<bar>amount\<bar>"
    using formatUnits_form [of amount units] by blast
  have "case fraction of None \<Rightarrow> True | Some f \<Rightarrow> f \<noteq> [] \<and> list_all is_digit f"
    and "length (case fraction of None \<Rightarrow> [] | Some f \<Rightarrow> strip_trailing_zeros f) \<le> units"
    and "(case fraction of None \<Rightarrow> [] | Some f \<Rightarrow> strip_trailing_zeros f) = (case fraction of None \<Rightarrow> [] | Some f \<Rightarrow> f)"
    using fraction by (cases fraction; simp)+
  then have "tryParseDecimalInput (formatUnits amount units) units = ok (Some ((if amount < 0 then - 1 else 1) * \<bar>amount\<bar>))"
    unfolding printed total [symmetric] by (simp add: try_parse_form [OF whole _ refl])
  then show ?thesis by (simp split: if_splits)
qed

text \<open>
  C27: An amount printed into an input field reads back as itself, whatever its sign and the
  token's decimals; the balance shown beside the field is the same text with a blank between
  groups of three digits. The input parser never throws: an unreadable text or one of too many
  decimal places has no value.
\<close>

theorem decimal_round_trip:
  "tryParseDecimalInput (formatCurrencyInputBalance amount units) units = ok (Some amount) \<and>
   (case formatCurrencyBalance amount units of Inl e \<Rightarrow> False
    | Inr shown \<Rightarrow> filter (\<lambda>c. c \<noteq> CHR '' '') shown = formatCurrencyInputBalance amount units) \<and>
   (case tryParseDecimalInput input units of Inl e \<Rightarrow> False | Inr parsed \<Rightarrow> True)"
proof (intro conjI)
  show "tryParseDecimalInput (formatCurrencyInputBalance amount units) units = ok (Some amount)"
    by (simp add: format_balance_form parse_formatted)
  show "case formatCurrencyBalance amount units of Inl e \<Rightarrow> False
    | Inr shown \<Rightarrow> filter (\<lambda>c. c \<noteq> CHR '' '') shown = formatCurrencyInputBalance amount units"
    using format_balance_shown [of amount units] by auto
  show "case tryParseDecimalInput input units of Inl e \<Rightarrow> False | Inr parsed \<Rightarrow> True"
    using parse_input_total [of input units] by auto
qed

end
