(* ===== verification/Bid_Form.thy ===== *)
theory Bid_Form
  imports Decimal_Text Truth_Auction
begin

text \<open>
  The bid form of a truth auction: the range check, preview and messages of
  \<open>truthAuctionBook.ts\<close> with the field parsers of \<open>formInputs.ts\<close> and the wallet guard
  of \<open>actionGuards.ts\<close>. The active network profile is an argument. The theorem shows that the
  textual range check agrees with the arithmetic one, and what a bid without a message satisfies.
\<close>

section \<open>Fields and wallet\<close>

definition tryParseTruthAuctionPriceInput :: "string \<Rightarrow> int option result" where
  "tryParseTruthAuctionPriceInput input = tryParseDecimalInput input 18"

definition tryParseTruthAuctionAmountInput :: "string \<Rightarrow> int option result" where
  "tryParseTruthAuctionAmountInput input = tryParseDecimalInput input 18"

record NetworkProfile =
  np_id :: string
  np_displayName :: string

definition mainnetRequiredReason :: string where "mainnetRequiredReason = ''Switch to Ethereum mainnet.''"
definition walletConnectionRequired :: string where "walletConnectionRequired = ''Connect wallet to continue.''"

definition formatNetworkRequiredReason :: "string \<Rightarrow> string" where
  "formatNetworkRequiredReason networkName = ''Switch to '' @ networkName @ ''.''"

definition getWrongNetworkMessage :: "NetworkProfile \<Rightarrow> string option" where
  "getWrongNetworkMessage profile =
     (if np_id profile = ''simulation'' then None
      else if np_id profile = ''mainnet'' then Some mainnetRequiredReason
      else Some (formatNetworkRequiredReason (np_displayName profile)))"

record GuardState =
  gs_blocked :: bool
  gs_reason :: "string option"

definition getWalletRequiredReason :: "string option \<Rightarrow> string" where
  "getWalletRequiredReason walletRequiredReason =
     (case walletRequiredReason of None \<Rightarrow> walletConnectionRequired | Some reason \<Rightarrow> reason)"

definition getWalletActiveAppChainGuardState :: "NetworkProfile \<Rightarrow> string option \<Rightarrow> bool \<Rightarrow> string option \<Rightarrow> GuardState" where
  "getWalletActiveAppChainGuardState profile accountAddress isOnActiveAppChain walletRequiredReason =
     (if accountAddress = None then \<lparr>gs_blocked = True, gs_reason = Some (getWalletRequiredReason walletRequiredReason)\<rparr>
      else if \<not> isOnActiveAppChain then
        \<lparr>gs_blocked = True, gs_reason = Some (case getWrongNetworkMessage profile of
           None \<Rightarrow> mainnetRequiredReason | Some message \<Rightarrow> message)\<rparr>
      else \<lparr>gs_blocked = False, gs_reason = None\<rparr>)"

section \<open>The range check on the text\<close>

definition normalizeTruthAuctionPriceInput :: "string \<Rightarrow> string" where
  "normalizeTruthAuctionPriceInput input =
     (if starts_with input (CHR ''.'') then ''0'' @ input
      else if ends_with input (CHR ''.'') then input @ ''0''
      else input)"

definition formatTruthAuctionValidationPrice :: "int \<Rightarrow> string" where
  "formatTruthAuctionValidationPrice price =
     (let wholePart = bigint_to_string (price sdiv TRUTH_AUCTION_PRICE_PRECISION);
          fractionalDigits = strip_trailing_zeros
            (padStart 18 (CHR ''0'') (bigint_to_string (price smod TRUTH_AUCTION_PRICE_PRECISION)))
      in if fractionalDigits = [] then wholePart else wholePart @ ''.'' @ fractionalDigits)"

text \<open>The two parts of the greatest price, as the module computes them once: whole digits, eighteen fractional digits.\<close>

definition maxPriceParts :: "int \<Rightarrow> string \<times> string" where
  "maxPriceParts maximum =
     (let parts = split_on (CHR ''.'') (formatTruthAuctionValidationPrice maximum)
      in (parts ! 0, padEnd 18 (CHR ''0'') (if 1 < length parts then parts ! 1 else [])))"

text \<open>\<open>a > b\<close> of strings compares code units.\<close>

definition string_greater :: "string \<Rightarrow> string \<Rightarrow> bool" where
  "string_greater a b \<longleftrightarrow> (map of_char b :: nat list) < map of_char a"

text \<open>\<open>match(/^(\d+)(?:\.(\d+))?$/)\<close>: the whole digits and the fractional ones, empty when there are none.\<close>

definition match_price :: "string \<Rightarrow> (string \<times> string) option" where
  "match_price s =
     (let whole = takeWhile is_digit s; rest = dropWhile is_digit s in
      if whole = [] then None
      else case rest of
        [] \<Rightarrow> Some (whole, [])
      | c # fraction \<Rightarrow> if c = CHR ''.'' \<and> all_digits fraction then Some (whole, fraction) else None)"

definition isTruthAuctionPriceInputDefinitelyOutOfRange :: "string \<Rightarrow> bool result" where
  "isTruthAuctionPriceInputDefinitelyOutOfRange input =
     bindR (getTruthAuctionPriceAtTick TRUTH_AUCTION_MAX_TICK) (\<lambda>TRUTH_AUCTION_MAX_PRICE.
     let (maxWhole, maxFraction) = maxPriceParts TRUTH_AUCTION_MAX_PRICE;
         normalized = normalizeTruthAuctionPriceInput (trim input)
     in
     if normalized = [] \<or> starts_with normalized (CHR ''-'') then ok False
     else case match_price normalized of
       None \<Rightarrow> ok False
     | Some (matchedWhole, fractionalPart) \<Rightarrow>
         let stripped = dropWhile (\<lambda>c. c = CHR ''0'') matchedWhole;
             wholePart = (if stripped = [] then ''0'' else stripped)
         in ok (if length fractionalPart > 18 then False
                else if length wholePart \<noteq> length maxWhole then length wholePart > length maxWhole
                else if wholePart \<noteq> maxWhole then string_greater wholePart maxWhole
                else string_greater (padEnd 18 (CHR ''0'') fractionalPart) maxFraction))"

section \<open>Preview and messages\<close>

record TruthAuctionBidPreview =
  bp_enteredPrice :: int
  bp_submittedPrice :: int
  bp_tick :: int

definition getTruthAuctionBidPreview :: "string \<Rightarrow> TruthAuctionBidPreview option result" where
  "getTruthAuctionBidPreview submitBidPriceInput =
     (if trim submitBidPriceInput = [] then ok None else
      bindR (isTruthAuctionPriceInputDefinitelyOutOfRange submitBidPriceInput) (\<lambda>outOfRange.
      if outOfRange then ok None else
      bindR (tryParseTruthAuctionPriceInput submitBidPriceInput) (\<lambda>entered. case entered of
        None \<Rightarrow> ok None
      | Some enteredBidPrice \<Rightarrow>
          if enteredBidPrice \<le> 0 then ok None else
          bindR (getTruthAuctionTickAtPrice enteredBidPrice) (\<lambda>enteredTick. case enteredTick of
            None \<Rightarrow> ok None
          | Some enteredBidTick \<Rightarrow>
              bindR (getTruthAuctionPriceAtTick enteredBidTick) (\<lambda>submitted.
                ok (Some \<lparr>bp_enteredPrice = enteredBidPrice, bp_submittedPrice = submitted, bp_tick = enteredBidTick\<rparr>))))))"

definition getTruthAuctionBidPriceValidationMessage :: "string \<Rightarrow> string option result" where
  "getTruthAuctionBidPriceValidationMessage submitBidPriceInput =
     (if trim submitBidPriceInput = [] then ok (Some ''Enter a bid price greater than zero.'') else
      bindR (isTruthAuctionPriceInputDefinitelyOutOfRange submitBidPriceInput) (\<lambda>outOfRange.
      if outOfRange then ok (Some ''Bid price is outside the supported auction range.'') else
      bindR (tryParseTruthAuctionPriceInput submitBidPriceInput) (\<lambda>entered. case entered of
        None \<Rightarrow> ok (Some ''Enter a valid bid price.'')
      | Some enteredBidPrice \<Rightarrow>
          if enteredBidPrice \<le> 0 then ok (Some ''Enter a bid price greater than zero.'') else
          bindR (getTruthAuctionTickAtPrice enteredBidPrice) (\<lambda>enteredTick.
            ok (if enteredTick = None then Some ''Bid price is outside the supported auction range.'' else None)))))"

definition getTruthAuctionBidGuardMessage ::
  "NetworkProfile \<Rightarrow> string option \<Rightarrow> int option \<Rightarrow> bool \<Rightarrow> string \<Rightarrow> TruthAuctionMetrics option \<Rightarrow> int option
    \<Rightarrow> string option result" where
  "getTruthAuctionBidGuardMessage profile accountAddress currentTimestamp isOnActiveAppChain submitBidAmountInput auction walletBalanceAttoEth =
     (let walletGuardState = getWalletActiveAppChainGuardState profile accountAddress isOnActiveAppChain
            (Some ''Connect a wallet before submitting a truth auction bid.'')
      in if gs_blocked walletGuardState then ok (gs_reason walletGuardState)
      else case auction of None \<Rightarrow> ok (Some ''Loading truth auction.'') | Some truthAuction \<Rightarrow>
      if am_finalized truthAuction then ok (Some ''Truth auction is already finalized.'') else
      let auctionHasEndedByTimestamp = (case (currentTimestamp, am_auctionEndsAt truthAuction) of
            (Some now, Some end) \<Rightarrow> now \<ge> end | _ \<Rightarrow> False)
      in if auctionHasEndedByTimestamp \<or> am_timeRemaining truthAuction = Some 0 then ok (Some ''Truth auction has ended.'') else
      let trimmedAmount = trim submitBidAmountInput in
      if trimmedAmount = [] then ok (Some ''Enter a bid amount greater than zero.'') else
      bindR (tryParseTruthAuctionAmountInput trimmedAmount) (\<lambda>parsed. case parsed of
        None \<Rightarrow> ok (Some ''Enter a valid bid amount.'')
      | Some bidAmount \<Rightarrow>
          if bidAmount \<le> 0 then ok (Some ''Enter a bid amount greater than zero.'')
          else if bidAmount < am_minBidSizeAttoEth truthAuction then
            bindR (formatCurrencyBalanceWithUnit (am_minBidSizeAttoEth truthAuction) ''ETH'' 18) (\<lambda>shown.
              ok (Some (''Bid must be at least '' @ shown @ ''.'')))
          else case walletBalanceAttoEth of
            None \<Rightarrow> ok (Some ''Loading wallet ETH balance.'')
          | Some balance \<Rightarrow>
              if bidAmount > balance then
                bindR (formatAdditionalCurrencyBalance (bidAmount - balance) ''ETH'' 18) (\<lambda>shown.
                  ok (Some (''Need '' @ shown @ '' in this wallet to bid the selected amount.'')))
              else ok None))"

section \<open>Digit strings and their values\<close>

lemma of_char_digit: "is_digit c \<Longrightarrow> (of_char c :: nat) = 48 + digit_value c \<and> digit_value c < 10"
  by (auto simp: is_digit_def digit_value_def)

lemma digits_value_Cons: "digits_value (c # s) = digit_value c * 10 ^ length s + digits_value s"
  using digits_value_append [of "[c]" s] digits_value_snoc [of "[]" c] by simp

lemma digits_value_bound: "list_all is_digit s \<Longrightarrow> digits_value s < 10 ^ length s"
proof (induction s)
  case (Cons c s)
  then have "digit_value c \<le> 9" "digits_value s < 10 ^ length s" using of_char_digit [of c] by auto
  then have "digit_value c * 10 ^ length s \<le> 9 * 10 ^ length s" by (intro mult_right_mono) auto
  then show ?case using \<open>digits_value s < 10 ^ length s\<close>
    unfolding digits_value_Cons length_Cons power_Suc by linarith
qed simp

text \<open>Strings of equally many digits compare as their values do.\<close>

lemma string_greater_digits:
  "length a = length b \<Longrightarrow> list_all is_digit a \<Longrightarrow> list_all is_digit b \<Longrightarrow> string_greater a b \<Longrightarrow>
   digits_value b < digits_value a"
proof (induction a b rule: list_induct2)
  case Nil
  then show ?case by (simp add: string_greater_def)
next
  case (Cons x xs y ys)
  have digit: "(of_char x :: nat) = 48 + digit_value x" "(of_char y :: nat) = 48 + digit_value y"
    using Cons.prems of_char_digit by auto
  have bounds: "digits_value ys < 10 ^ length ys" using Cons.prems by (intro digits_value_bound) simp
  from Cons.prems(3) digit consider "digit_value y < digit_value x" | "digit_value x = digit_value y" "string_greater xs ys"
    by (auto simp: string_greater_def)
  then show ?case
  proof cases
    case 1
    then have "(digit_value y + 1) * 10 ^ length ys \<le> digit_value x * 10 ^ length ys" by (intro mult_right_mono) auto
    then show ?thesis using bounds Cons.hyps by (simp add: digits_value_Cons)
  next
    case 2
    then show ?thesis using Cons by (simp add: digits_value_Cons)
  qed
qed

text \<open>More digits without a leading zero make a greater value.\<close>

lemma digits_value_longer:
  assumes "list_all is_digit a" "hd a \<noteq> CHR ''0''" "length b < length a" "list_all is_digit b"
  shows "digits_value b < digits_value a"
proof -
  obtain c s where a: "a = c # s" using assms(3) by (cases a) auto
  have "digit_value c \<noteq> 0"
  proof
    assume "digit_value c = 0"
    then have "(of_char c :: nat) = of_char (CHR ''0'')" using of_char_digit [of c] assms(1) a by simp
    then have "c = CHR ''0''" by (simp only: of_char_eq_iff)
    then show False using assms(2) a by simp
  qed
  then have "1 * 10 ^ length s \<le> digit_value c * 10 ^ length s" by (intro mult_right_mono) auto
  moreover have "(10 :: nat) ^ length b \<le> 10 ^ length s" using assms(3) a by (intro power_increasing) auto
  ultimately show ?thesis using digits_value_bound [OF assms(4)] unfolding a digits_value_Cons by linarith
qed

section \<open>The textual check is sound\<close>

lemma max_price_parts:
  assumes "0 \<le> price"
  shows "maxPriceParts price =
    (nat_digits (nat price div 10 ^ 18), padStart 18 (CHR ''0'') (nat_digits (nat price mod 10 ^ 18)))"
proof -
  define w f where "w = nat price div 10 ^ 18" and "f = nat price mod 10 ^ 18"
  define p where "p = padStart 18 (CHR ''0'') (nat_digits f)"
  have "price = int (nat price)" using assms by simp
  then have parts: "price sdiv TRUTH_AUCTION_PRICE_PRECISION = int w" "price smod TRUTH_AUCTION_PRICE_PRECISION = int f"
    unfolding TRUTH_AUCTION_PRICE_PRECISION_def w_def f_def
    using assms by (simp_all add: sdiv_nonneg smod_nonneg zdiv_int zmod_int)
  have "f < 10 ^ 18" by (simp add: f_def)
  then have "length (nat_digits f) \<le> 18" by (intro length_nat_digits_le) auto
  then have length: "length p = 18" by (simp add: p_def length_padStart)
  have padded: "padEnd 18 (CHR ''0'') (strip_trailing_zeros p) = p"
    using padEnd_strip_trailing [of p] by (simp add: length)
  have digits: "list_all is_digit p" by (simp add: p_def)
  have point: "CHR ''.'' \<notin> set (nat_digits w)" "CHR ''.'' \<notin> set (strip_trailing_zeros p)"
    using no_point digits digit_lists_strip by simp_all
  have "formatTruthAuctionValidationPrice price =
      (if strip_trailing_zeros p = [] then nat_digits w else nat_digits w @ CHR ''.'' # strip_trailing_zeros p)"
    unfolding formatTruthAuctionValidationPrice_def parts Let_def
    by (simp add: bigint_to_string_def p_def)
  then have "split_on (CHR ''.'') (formatTruthAuctionValidationPrice price) =
      (if strip_trailing_zeros p = [] then [nat_digits w] else [nat_digits w, strip_trailing_zeros p])"
    using split_on_no_sep [OF point(1)] split_on_no_sep [OF point(2)] split_on_append [OF point(1)] by simp
  then have "maxPriceParts price = (nat_digits w, p)"
    using padded unfolding maxPriceParts_def Let_def by (cases "strip_trailing_zeros p = []") simp_all
  then show ?thesis unfolding p_def w_def f_def .
qed

lemma max_tick_price: "getTruthAuctionPriceAtTick TRUTH_AUCTION_MAX_TICK = ok (tick_price 524288)"
  using supported_ends(3) by (simp add: price_at_tick TRUTH_AUCTION_MAX_TICK_def)

lemma match_price_form:
  "match_price s = Some (whole, fraction) \<Longrightarrow>
   all_digits whole \<and> (fraction = [] \<and> s = decimal_text False whole None \<or>
     all_digits fraction \<and> s = decimal_text False whole (Some fraction))"
proof -
  assume matched: "match_price s = Some (whole, fraction)"
  define w r where "w = takeWhile is_digit s" and "r = dropWhile is_digit s"
  have s: "s = w @ r" by (simp add: w_def r_def)
  have w: "list_all is_digit w" by (auto simp: w_def list_all_iff dest: set_takeWhileD)
  show ?thesis
    using matched w unfolding match_price_def Let_def w_def [symmetric] r_def [symmetric] unfolding s
    by (cases r) (auto simp: all_digits_def decimal_text_def split: if_splits)
qed

text \<open>The value of a digit string does not depend on zeros before it.\<close>

lemma digits_value_dropZeros: "digits_value (dropWhile (\<lambda>c. c = CHR ''0'') s) = digits_value s"
proof -
  obtain k where k: "s = replicate k (CHR ''0'') @ dropWhile (\<lambda>c. c = CHR ''0'') s"
    using dropWhile_zeros [of s "CHR ''0''"] by blast
  show ?thesis using arg_cong [OF k, of digits_value] by (simp add: digits_value_append)
qed

lemma digits_value_padEnd_strip:
  "length s \<le> n \<Longrightarrow> digits_value (padEnd n (CHR ''0'') (strip_trailing_zeros s)) = digits_value (padEnd n (CHR ''0'') s)"
proof -
  assume s: "length s \<le> n"
  obtain k where k: "s = strip_trailing_zeros s @ replicate k (CHR ''0'')"
    using strip_trailing_decomp by blast
  then have "length s = length (strip_trailing_zeros s) + k" by (metis length_append length_replicate)
  moreover from this have "digits_value s = digits_value (strip_trailing_zeros s) * 10 ^ k"
    using arg_cong [OF k, of digits_value] by (simp add: digits_value_append)
  ultimately show ?thesis using s by (simp add: digits_value_padEnd flip: power_add mult.assoc)
qed

lemma out_of_range_text:
  assumes whole: "all_digits whole" and fraction: "list_all is_digit fraction" "length fraction \<le> 18"
    and w: "w = (if dropWhile (\<lambda>c. c = CHR ''0'') whole = [] then ''0'' else dropWhile (\<lambda>c. c = CHR ''0'') whole)"
    and max: "(W, F) = maxPriceParts price" "0 \<le> price"
    and greater: "if length w \<noteq> length W then length w > length W
      else if w \<noteq> W then string_greater w W else string_greater (padEnd 18 (CHR ''0'') fraction) F"
  shows "price < int (digits_value whole) * 10 ^ 18 + int (digits_value (padEnd 18 (CHR ''0'') fraction))"
proof -
  have W: "W = nat_digits (nat price div 10 ^ 18)" and F: "F = padStart 18 (CHR ''0'') (nat_digits (nat price mod 10 ^ 18))"
    using max max_price_parts by auto
  have "length (nat_digits (nat price mod 10 ^ 18)) \<le> 18" by (intro length_nat_digits_le) auto
  then have F_digits: "length F = 18" "list_all is_digit F"
    by (simp_all add: F length_padStart)
  have W_digits: "list_all is_digit W" "W \<noteq> []" by (simp_all add: W)
  have w_digits: "list_all is_digit w"
    using whole digit_lists_drop by (simp add: w all_digits_def)
  have whole_value: "digits_value w = digits_value whole"
  proof (cases "dropWhile (\<lambda>c. c = CHR ''0'') whole = []")
    case True
    then have "digits_value whole = 0" by (metis digits_value_dropZeros digits_value_Nil)
    moreover have "w = replicate 1 (CHR ''0'')" using True by (simp add: w)
    ultimately show ?thesis by (simp only: digits_value_replicate_zero)
  next
    case False
    then have "w = dropWhile (\<lambda>c. c = CHR ''0'') whole" unfolding w by (rule if_not_P)
    then show ?thesis by (simp only: digits_value_dropZeros)
  qed
  have pad: "list_all is_digit (padEnd 18 (CHR ''0'') fraction)" "length (padEnd 18 (CHR ''0'') fraction) = 18"
    using fraction by (simp_all add: length_padEnd)
  have price: "nat price = digits_value W * 10 ^ 18 + digits_value F" by (simp add: W F)
  have F_bound: "digits_value F < 10 ^ 18" using digits_value_bound [OF F_digits(2)] F_digits(1) by simp
  have "nat price < digits_value whole * 10 ^ 18 + digits_value (padEnd 18 (CHR ''0'') fraction)"
  proof (cases "w = W")
    case True
    then have "digits_value F < digits_value (padEnd 18 (CHR ''0'') fraction)"
      using greater F_digits pad by (intro string_greater_digits) auto
    then show ?thesis using whole_value True price by simp
  next
    case False
    have "digits_value W < digits_value w"
    proof (cases "length w = length W")
      case True
      then show ?thesis using False greater w_digits W_digits by (intro string_greater_digits) auto
    next
      case unequal: False
      then have longer: "length W < length w" using greater by simp
      moreover have "hd w \<noteq> CHR ''0''"
        using longer W_digits(2) hd_dropWhile [of "\<lambda>c. c = CHR ''0''" whole] by (auto simp: w split: if_splits)
      ultimately show ?thesis using digits_value_longer w_digits W_digits by blast
    qed
    then have "(digits_value W + 1) * 10 ^ 18 \<le> digits_value whole * 10 ^ 18" unfolding whole_value by (intro mult_right_mono) auto
    then show ?thesis using F_bound price by simp
  qed
  then show ?thesis using max(2) by (simp add: nat_less_iff flip: of_nat_add of_nat_mult of_nat_power)
qed

text \<open>The check always answers, and what it refuses is a price above the greatest one.\<close>

lemma definitely_out_of_range:
  "\<exists>b. isTruthAuctionPriceInputDefinitelyOutOfRange input = ok b \<and>
     (b \<longrightarrow> (\<exists>price. tryParseTruthAuctionPriceInput input = ok (Some price) \<and> tick_price 524288 < price))"
proof -
  define s where "s = normalizeTruthAuctionPriceInput (trim input)"
  obtain W F where parts: "(W, F) = maxPriceParts (tick_price 524288)" by (cases "maxPriceParts (tick_price 524288)") auto
  define decide where "decide matched = (case matched of None \<Rightarrow> False | Some (matchedWhole, fractionalPart) \<Rightarrow>
      let stripped = dropWhile (\<lambda>c. c = CHR ''0'') matchedWhole;
          wholePart = (if stripped = [] then ''0'' else stripped)
      in if length fractionalPart > 18 then False
         else if length wholePart \<noteq> length W then length wholePart > length W
         else if wholePart \<noteq> W then string_greater wholePart W
         else string_greater (padEnd 18 (CHR ''0'') fractionalPart) F)" for matched
  have check: "isTruthAuctionPriceInputDefinitelyOutOfRange input =
      ok (\<not> (s = [] \<or> starts_with s (CHR ''-'')) \<and> decide (match_price s))"
    unfolding isTruthAuctionPriceInputDefinitelyOutOfRange_def max_tick_price bindR_simps parts [symmetric] s_def [symmetric]
    by (cases "s = [] \<or> starts_with s (CHR ''-'')"; cases "match_price s")
      (auto simp add: decide_def Let_def case_prod_beta simp del: dropWhile_eq_Nil_conv cong: if_cong)
  show ?thesis
  proof (cases "decide (match_price s)")
    case False
    then show ?thesis using check by (intro exI [of _ False]) simp
  next
    case True
    then obtain whole fraction where matched: "match_price s = Some (whole, fraction)" by (auto simp: decide_def split: option.splits)
    define fraction' where "fraction' = (if fraction = [] then None else Some fraction)"
    have whole: "all_digits whole" and s: "s = decimal_text False whole fraction'"
      and fraction: "case fraction' of None \<Rightarrow> True | Some f \<Rightarrow> f \<noteq> [] \<and> list_all is_digit f" "list_all is_digit fraction"
      using match_price_form [OF matched] by (auto simp: fraction'_def all_digits_def)
    have short: "length fraction \<le> 18" using True matched by (auto simp: decide_def Let_def split: if_splits)
    have fits: "length (case fraction' of None \<Rightarrow> [] | Some f \<Rightarrow> strip_trailing_zeros f) \<le> 18"
      using short strip_trailing_decomp [of fraction "CHR ''0''"]
      by (auto simp: fraction'_def dest!: arg_cong [of _ _ length])
    have pad: "digits_value (padEnd 18 (CHR ''0'') (case fraction' of None \<Rightarrow> [] | Some f \<Rightarrow> strip_trailing_zeros f)) =
        digits_value (padEnd 18 (CHR ''0'') fraction)"
      using digits_value_padEnd_strip [OF short] by (simp add: fraction'_def)
    note shape = decimal_text_trim [OF whole fraction(1), of False, folded s]
    have "trim input \<noteq> []"
      using shape(2) by (auto simp: s_def normalizeTruthAuctionPriceInput_def starts_with_def ends_with_def)
    moreover have "trim input \<noteq> ''.''"
      using shape(4) by (auto simp: s_def normalizeTruthAuctionPriceInput_def starts_with_def ends_with_def)
    moreover have "trim input \<noteq> ''-.''"
      using shape(5) by (auto simp: s_def normalizeTruthAuctionPriceInput_def starts_with_def ends_with_def)
    ultimately have "normalizeDecimalInput (trim input) = s"
      unfolding normalizeDecimalInput_def by (simp add: s_def normalizeTruthAuctionPriceInput_def)
    moreover have "normalizeDecimalInput s = s"
      using shape unfolding normalizeDecimalInput_def Let_def shape(1) by (auto simp: ends_with_def)
    ultimately have "tryParseTruthAuctionPriceInput input = tryParseDecimalInput s 18"
      using \<open>trim input \<noteq> []\<close> shape(1,2)
      unfolding tryParseTruthAuctionPriceInput_def tryParseDecimalInput_def Let_def by simp
    then have "tryParseTruthAuctionPriceInput input =
        ok (Some (int (digits_value whole) * 10 ^ 18 + int (digits_value (padEnd 18 (CHR ''0'') fraction))))"
      using try_parse_form [OF whole fraction(1) refl fits, of False] by (simp add: s pad)
    moreover have "tick_price 524288 < int (digits_value whole) * 10 ^ 18 + int (digits_value (padEnd 18 (CHR ''0'') fraction))"
      using True matched tick_price_nonneg [OF supported_domain [OF supported_ends(3)]]
      by (intro out_of_range_text [OF whole fraction(2) short refl parts]) (auto simp: decide_def Let_def split: if_splits)
    ultimately show ?thesis using check by blast
  qed
qed

section \<open>What the form accepts\<close>

lemma price_parse: "\<exists>parsed. tryParseTruthAuctionPriceInput input = ok parsed"
  and amount_parse: "\<exists>parsed. tryParseTruthAuctionAmountInput input = ok parsed"
  by (simp_all add: tryParseTruthAuctionPriceInput_def tryParseTruthAuctionAmountInput_def parse_input_total)

lemma price_parse_blank: "trim input = [] \<Longrightarrow> tryParseTruthAuctionPriceInput input = ok None"
  and amount_parse_blank: "trim input = [] \<Longrightarrow> tryParseTruthAuctionAmountInput input = ok None"
  and amount_parse_trim: "tryParseTruthAuctionAmountInput (trim input) = tryParseTruthAuctionAmountInput input"
  by (simp_all add: tryParseTruthAuctionPriceInput_def tryParseTruthAuctionAmountInput_def tryParseDecimalInput_def)

lemma tick_at_price_total:
  obtains "getTruthAuctionTickAtPrice price = ok None"
  | tick where "getTruthAuctionTickAtPrice price = ok (Some tick)" "getTruthAuctionPriceAtTick tick = ok (tick_price tick)"
      "price \<le> tick_price 524288"
proof (cases "price \<le> 0 \<or> price < tick_price TRUTH_AUCTION_MIN_SUPPORTED_TICK \<or> tick_price 524288 < price")
  case True
  then show ?thesis using that(1) tick_at_price_outside by blast
next
  case False
  show ?thesis
    using False by (rule tick_at_price_inside) (use False that(2) in \<open>simp add: price_at_tick\<close>)
qed

text \<open>
  C24: The price field of the bid form is accepted, that is, shows no message, exactly when it reads
  as a positive price with a supported tick, and the preview shows that tick and its price exactly then: the range check
  on the text, made before parsing, refuses nothing that would have a tick, and no text makes
  the form throw.
\<close>

theorem bid_price_accepted_iff:
  "case (getTruthAuctionBidPriceValidationMessage input, getTruthAuctionBidPreview input, tryParseTruthAuctionPriceInput input) of
     (Inr message, Inr preview, Inr parsed) \<Rightarrow>
       (case parsed of
          None \<Rightarrow> message \<noteq> None \<and> preview = None
        | Some price \<Rightarrow>
            (case (0 < price, getTruthAuctionTickAtPrice price) of
               (True, Inr (Some tick)) \<Rightarrow> message = None \<and>
                 (case getTruthAuctionPriceAtTick tick of Inl e \<Rightarrow> False
                  | Inr submitted \<Rightarrow> preview = Some \<lparr>bp_enteredPrice = price, bp_submittedPrice = submitted, bp_tick = tick\<rparr>)
             | _ \<Rightarrow> message \<noteq> None \<and> preview = None))
   | _ \<Rightarrow> False"
proof (cases "trim input = []")
  case True
  then show ?thesis
    by (simp add: getTruthAuctionBidPriceValidationMessage_def getTruthAuctionBidPreview_def price_parse_blank)
next
  case False
  obtain outOfRange where check: "isTruthAuctionPriceInputDefinitelyOutOfRange input = ok outOfRange"
    and out: "outOfRange \<Longrightarrow> \<exists>price. tryParseTruthAuctionPriceInput input = ok (Some price) \<and> tick_price 524288 < price"
    using definitely_out_of_range [of input] by blast
  note defs = getTruthAuctionBidPriceValidationMessage_def getTruthAuctionBidPreview_def
  show ?thesis
  proof (cases outOfRange)
    case True
    then obtain price where "tryParseTruthAuctionPriceInput input = ok (Some price)" "tick_price 524288 < price"
      using out by blast
    then show ?thesis
      using False True check tick_at_price_outside [of price] by (simp add: defs split: bool.split)
  next
    case inRange: False
    obtain parsed where parsed: "tryParseTruthAuctionPriceInput input = ok parsed" using price_parse by blast
    show ?thesis
    proof (cases parsed)
      case None
      then show ?thesis using False inRange check parsed by (simp add: defs)
    next
      case (Some price)
      show ?thesis
        by (rule tick_at_price_total [of price])
          (use False inRange check parsed Some in \<open>auto simp: defs split: bool.split\<close>)
    qed
  qed
qed

text \<open>
  A bid has no message exactly when the wallet is connected on the active chain, the auction is loaded, not
  finalized and not over, and the amount reads as a positive number of at least the minimum bid that
  the wallet holds. The guard never throws: the amounts its messages show are always printed.
\<close>

lemma bid_guard_clear_iff:
  "case getTruthAuctionBidGuardMessage profile account now onChain amountInput auction balance of
     Inl e \<Rightarrow> False
   | Inr message \<Rightarrow> message = None \<longleftrightarrow> account \<noteq> None \<and> onChain \<and>
       (\<exists>a amount held. auction = Some a \<and> \<not> am_finalized a \<and> am_timeRemaining a \<noteq> Some 0 \<and>
          (case (now, am_auctionEndsAt a) of (Some t, Some end) \<Rightarrow> t < end | _ \<Rightarrow> True) \<and>
          tryParseTruthAuctionAmountInput amountInput = ok (Some amount) \<and>
          0 < amount \<and> am_minBidSizeAttoEth a \<le> amount \<and> balance = Some held \<and> amount \<le> held)"
proof -
  note guard = getTruthAuctionBidGuardMessage_def getWalletActiveAppChainGuardState_def
  show ?thesis
  proof (cases "account = None \<or> \<not> onChain")
    case True
    then show ?thesis by (auto simp: guard Let_def)
  next
    case wallet: False
    show ?thesis
    proof (cases auction)
      case None
      then show ?thesis using wallet by (simp add: guard)
    next
      case (Some a)
      define ended where "ended = (case (now, am_auctionEndsAt a) of (Some t, Some end) \<Rightarrow> t \<ge> end | _ \<Rightarrow> False)"
      have ended: "(case now of None \<Rightarrow> True | Some t \<Rightarrow> (case am_auctionEndsAt a of None \<Rightarrow> True | Some end \<Rightarrow> t < end)) = (\<not> ended)"
        and over: "(case now of None \<Rightarrow> False | Some t \<Rightarrow> (case am_auctionEndsAt a of None \<Rightarrow> False | Some end \<Rightarrow> end \<le> t)) = ended"
        by (auto simp: ended_def split: option.split)
      obtain parsed where parsed: "tryParseTruthAuctionAmountInput amountInput = ok parsed" using amount_parse by blast
      have blank: "parsed = None" if "trim amountInput = []" using parsed amount_parse_blank [OF that] by simp
      obtain m where "formatCurrencyBalance (am_minBidSizeAttoEth a) 18 = ok m" using format_balance_shown by blast
      then have minimum: "formatCurrencyBalanceWithUnit (am_minBidSizeAttoEth a) ''ETH'' 18 = ok (formatValueWithUnit m ''ETH'')"
        by (simp add: formatCurrencyBalanceWithUnit_def)
      have missing: "\<exists>text. formatAdditionalCurrencyBalance d ''ETH'' 18 = ok text" for d
        using format_balance_shown [of d 18] by (auto simp: formatAdditionalCurrencyBalance_def)
      show ?thesis
      proof (cases parsed)
        case None
        then show ?thesis
          using wallet Some parsed by (auto simp: guard Let_def amount_parse_trim ended over)
      next
        case amount: (Some amount)
        obtain shown where "formatAdditionalCurrencyBalance (amount - the balance) ''ETH'' 18 = ok shown" using missing by blast
        then show ?thesis
          using wallet Some parsed blank amount minimum
          by (cases balance) (auto simp: guard Let_def amount_parse_trim ended over)
      qed
    qed
  qed
qed

end
