(* ===== verification/Reporting.thy ===== *)
theory Reporting
  imports Escalation_Math Decimal_Text
begin

text \<open>
  The reporting screen, \<open>ui/zoltar/ts/features/reporting/lib/reportingDomain.ts\<close>: phases of an
  escalation game, the suggested contributions, the estimated return of a report, and the timer
  preview. It composes the arithmetic of \<open>Escalation_Math\<close> with the balance texts of
  \<open>Decimal_Text\<close>. Where the time of a cost is computed the result is an option, as that
  computation may not return (\<open>None\<close>). Fields of the loaded details that no operation reads
  are left out.
\<close>

section \<open>Loaded details\<close>

record EscalationSide =
  es_key :: EscalationOutcomeKey
  es_balance :: int

datatype SecurityPoolSystemState = Operational | PoolForked | ForkMigration | ForkTruthAuction

text \<open>The outcome \<open>'none'\<close> is \<open>None\<close>.\<close>

record ReportingDetailsBase =
  rb_currentTime :: int
  rb_forkThresholdAttoRep :: int
  rb_nonDecisionThresholdAttoRep :: int
  rb_questionOutcome :: "EscalationOutcomeKey option"
  rb_startBondAttoRep :: int
  rb_systemState :: SecurityPoolSystemState
  rb_parentWithdrawalEnabled :: bool

record ActiveReportingDetails = ReportingDetailsBase +
  ra_bindingCapital :: int
  ra_escalationEndTime :: int
  ra_hasReachedNonDecision :: bool
  ra_sides :: "EscalationSide list"
  ra_activationTime :: int

datatype ReportingDetails = NotStarted ReportingDetailsBase | Active ActiveReportingDetails

record EscalationDeposit =
  ed_amountAttoRep :: int
  ed_cumulativeAmountAttoRep :: int

record ReportingAmountSuggestion =
  rs_amountAttoRep :: "int option"
  rs_reason :: "string option"

definition suggest :: "int \<Rightarrow> ReportingAmountSuggestion" where
  "suggest amount = \<lparr>rs_amountAttoRep = Some amount, rs_reason = None\<rparr>"

definition no_suggestion :: "string \<Rightarrow> ReportingAmountSuggestion" where
  "no_suggestion reason = \<lparr>rs_amountAttoRep = None, rs_reason = Some reason\<rparr>"

definition REP_UNIT :: int where "REP_UNIT = 10 ^ 18"
definition ESCALATION_GAME_ACTIVATION_DELAY :: int where "ESCALATION_GAME_ACTIVATION_DELAY = 3 * 24 * 60 * 60"

definition LOAD_REPORTING_PRESETS_REASON :: string where "LOAD_REPORTING_PRESETS_REASON = ''Loading reporting details.''"
definition MAX_PROFIT_NOT_STARTED_REASON :: string where
  "MAX_PROFIT_NOT_STARTED_REASON = ''Max profit becomes available after the escalation game starts.''"
definition SELECTED_SIDE_ALREADY_LEADS_REASON :: string where
  "SELECTED_SIDE_ALREADY_LEADS_REASON = ''Selected side already leads.''"
definition ESCALATION_RESOLVED_REASON :: string where "ESCALATION_RESOLVED_REASON = ''Escalation is already resolved.''"

record ProjectedEscalationEndTime =
  pe_acceptedAmountAttoRep :: int
  pe_endsImmediately :: bool
  pe_projectedEndTime :: int

datatype TimerState = EndsImmediately | Extends | Unchanged

datatype ReportingTimerPreview =
    NotStartedPreview int int int (* hypothetical duration, time until the end, time until the start *)
  | ActivePreview int TimerState int "int option" (* accepted, state, hypothetical duration, timer increase *)

datatype EscalationPhase = Resolved | ForkTriggered | PendingStart | TimedOut | ActivePhase

text \<open>Sequencing of computations that may not return and may throw.\<close>

definition bindT :: "'a result option \<Rightarrow> ('a \<Rightarrow> 'b result option) \<Rightarrow> 'b result option" where
  "bindT m f = (case m of None \<Rightarrow> None | Some (Inl e) \<Rightarrow> Some (Inl e) | Some (Inr x) \<Rightarrow> f x)"

lemma bindT_simps [simp]:
  "bindT None f = None" "bindT (Some (Inl e)) f = Some (Inl e)" "bindT (Some (Inr x)) f = f x"
  by (simp_all add: bindT_def)

section \<open>Sides and phases\<close>

definition roundUpToRepUnit :: "int \<Rightarrow> int" where
  "roundUpToRepUnit amount = (if amount \<le> 0 then 0 else ((amount + REP_UNIT - 1) sdiv REP_UNIT) * REP_UNIT)"

definition getEscalationSide :: "ActiveReportingDetails \<Rightarrow> EscalationOutcomeKey \<Rightarrow> EscalationSide option" where
  "getEscalationSide details outcome = find (\<lambda>side. es_key side = outcome) (ra_sides details)"

definition getSelectedAndOtherSides :: "ActiveReportingDetails \<Rightarrow> EscalationOutcomeKey \<Rightarrow> int \<times> EscalationSide option" where
  "getSelectedAndOtherSides details selectedOutcome =
     (let selectedSide = find (\<lambda>side. es_key side = selectedOutcome) (ra_sides details);
          largestOtherBalance = foldl (\<lambda>maxBalance side. if es_balance side > maxBalance then es_balance side else maxBalance) 0
            (filter (\<lambda>side. es_key side \<noteq> selectedOutcome) (ra_sides details))
      in (largestOtherBalance, selectedSide))"

definition getAvailableRoom :: "ActiveReportingDetails \<Rightarrow> int \<Rightarrow> int" where
  "getAvailableRoom details selectedBalance =
     (if rb_nonDecisionThresholdAttoRep details > selectedBalance
      then rb_nonDecisionThresholdAttoRep details - selectedBalance else 0)"

definition isUniqueWinner :: "int \<Rightarrow> int \<Rightarrow> bool" where
  "isUniqueWinner selectedBalance largestOtherBalance \<longleftrightarrow> selectedBalance > largestOtherBalance"

definition getTimeRemaining :: "int option \<Rightarrow> int \<Rightarrow> int option" where
  "getTimeRemaining targetTime currentTime =
     (case targetTime of None \<Rightarrow> None
      | Some target \<Rightarrow> Some (if target \<le> currentTime then 0 else target - currentTime))"

definition requireDefined :: "'a option \<Rightarrow> string \<Rightarrow> 'a result" where
  "requireDefined x message = (case x of None \<Rightarrow> throw message | Some v \<Rightarrow> ok v)"

definition getEscalationTimeRemaining :: "ActiveReportingDetails \<Rightarrow> int result" where
  "getEscalationTimeRemaining details =
     (if ra_hasReachedNonDecision details then ok 0
      else requireDefined (getTimeRemaining (Some (ra_escalationEndTime details)) (rb_currentTime details))
             ''Escalation end time is required'')"

definition hasEscalationTimedOut :: "ActiveReportingDetails \<Rightarrow> bool" where
  "hasEscalationTimedOut details \<longleftrightarrow> rb_currentTime details > ra_escalationEndTime details"

definition isPoolQuestionFinalized :: "'a ReportingDetailsBase_scheme option \<Rightarrow> bool" where
  "isPoolQuestionFinalized loaded \<longleftrightarrow>
     (case loaded of None \<Rightarrow> False
      | Some details \<Rightarrow> rb_systemState details = Operational \<and> rb_questionOutcome details \<noteq> None)"

definition isReportingClosed :: "ActiveReportingDetails \<Rightarrow> bool" where
  "isReportingClosed details \<longleftrightarrow>
     isPoolQuestionFinalized (Some details) \<or> ra_hasReachedNonDecision details \<or> hasEscalationTimedOut details"

definition getEscalationPhase :: "ActiveReportingDetails \<Rightarrow> EscalationPhase" where
  "getEscalationPhase details =
     (if isPoolQuestionFinalized (Some details) then Resolved
      else if ra_hasReachedNonDecision details then ForkTriggered
      else if rb_currentTime details < ra_activationTime details then PendingStart
      else if hasEscalationTimedOut details then TimedOut
      else ActivePhase)"

definition side_balance :: "EscalationSide list \<Rightarrow> EscalationOutcomeKey \<Rightarrow> int" where
  "side_balance sides outcome =
     (case find (\<lambda>side. es_key side = outcome) sides of None \<Rightarrow> 0 | Some side \<Rightarrow> es_balance side)"

definition getEscalationBalanceTuple :: "EscalationSide list \<Rightarrow> EscalationBalanceTuple" where
  "getEscalationBalanceTuple sides =
     (side_balance sides OutcomeInvalid, side_balance sides OutcomeYes, side_balance sides OutcomeNo)"

fun leading_side :: "EscalationSide option \<Rightarrow> EscalationSide list \<Rightarrow> EscalationSide option" where
  "leading_side leadingSide [] = leadingSide"
| "leading_side leadingSide (side # sides) =
     leading_side (case leadingSide of None \<Rightarrow> Some side
       | Some leader \<Rightarrow> if es_balance side > es_balance leader then Some side else Some leader) sides"

definition getLeadingEscalationOutcome :: "EscalationSide list \<Rightarrow> EscalationOutcomeKey option" where
  "getLeadingEscalationOutcome sides = map_option es_key (leading_side None sides)"

section \<open>Projections\<close>

definition computeHypotheticalBindingDuration :: "int \<Rightarrow> int \<Rightarrow> int \<Rightarrow> int result option" where
  "computeHypotheticalBindingDuration startBond nonDecisionThreshold bindingCapital =
     (if bindingCapital \<le> 0 then Some (ok 0)
      else computeEscalationTimeSinceStartFromAttritionCostAttoRep startBond nonDecisionThreshold bindingCapital)"

definition projectEscalationEndTime ::
  "ActiveReportingDetails \<Rightarrow> EscalationOutcomeKey \<Rightarrow> int \<Rightarrow> ProjectedEscalationEndTime option result option" where
  "projectEscalationEndTime details outcome amount =
     (if amount \<le> 0 then Some (ok None)
      else
        bindT (Some (projectEscalationDeposit amount (getEscalationBalanceTuple (ra_sides details))
          (rb_nonDecisionThresholdAttoRep details) outcome (rb_startBondAttoRep details))) (\<lambda>projected.
        case projected of
          None \<Rightarrow> Some (ok None)
        | Some projectedDeposit \<Rightarrow>
            if reachesNonDecision projectedDeposit then
              Some (ok (Some \<lparr>pe_acceptedAmountAttoRep = acceptedAmountAttoRep projectedDeposit,
                pe_endsImmediately = True, pe_projectedEndTime = rb_currentTime details\<rparr>))
            else
              let projectedBindingCapital = getEscalationBindingCapitalAttoRep (projectedBalancesAttoRep projectedDeposit) in
              bindT (computeEscalationTimeSinceStartFromAttritionCostAttoRep (rb_startBondAttoRep details)
                (rb_nonDecisionThresholdAttoRep details) projectedBindingCapital) (\<lambda>time.
              Some (ok (Some \<lparr>pe_acceptedAmountAttoRep = acceptedAmountAttoRep projectedDeposit,
                pe_endsImmediately = False, pe_projectedEndTime = ra_activationTime details + time\<rparr>)))))"

definition getWinningClaim_reporting ::
  "ActiveReportingDetails \<Rightarrow> EscalationOutcomeKey \<Rightarrow> EscalationDeposit \<Rightarrow> int option result" where
  "getWinningClaim_reporting details outcome deposit =
     (case getEscalationSide details outcome of
        None \<Rightarrow> ok None
      | Some side \<Rightarrow> bindR (getWinningEscalationDepositClaimAmount (ra_bindingCapital details) (ed_amountAttoRep deposit)
          (ed_cumulativeAmountAttoRep deposit) (rb_forkThresholdAttoRep details) (rb_nonDecisionThresholdAttoRep details)
          (es_balance side)) (\<lambda>claim. ok (Some claim)))"

definition getWinningImportedClaim_reporting ::
  "ActiveReportingDetails \<Rightarrow> EscalationOutcomeKey \<Rightarrow> EscalationDeposit \<Rightarrow> int option result" where
  "getWinningImportedClaim_reporting details outcome deposit =
     (case getEscalationSide details outcome of
        None \<Rightarrow> ok None
      | Some side \<Rightarrow> bindR (getWinningImportedEscalationDepositClaimAmount (ra_bindingCapital details) (ed_amountAttoRep deposit)
          (ed_cumulativeAmountAttoRep deposit) (rb_forkThresholdAttoRep details) (rb_nonDecisionThresholdAttoRep details)
          (es_balance side)) (\<lambda>claim. ok (Some claim)))"

definition getEscalationDepositClaimAmount ::
  "ReportingDetails option \<Rightarrow> EscalationOutcomeKey \<Rightarrow> EscalationDeposit \<Rightarrow> int option result" where
  "getEscalationDepositClaimAmount loaded outcome deposit =
     (case loaded of
        Some (Active details) \<Rightarrow>
          if \<not> rb_parentWithdrawalEnabled details then ok None
          else if \<not> isPoolQuestionFinalized (Some details) then ok None
          else if rb_questionOutcome details \<noteq> Some outcome then ok (Some 0)
          else getWinningClaim_reporting details outcome deposit
      | _ \<Rightarrow> ok None)"

definition getImportedEscalationDepositClaimAmount ::
  "ReportingDetails option \<Rightarrow> EscalationOutcomeKey \<Rightarrow> EscalationDeposit \<Rightarrow> int option result" where
  "getImportedEscalationDepositClaimAmount loaded outcome deposit =
     (case loaded of
        Some (Active details) \<Rightarrow>
          if \<not> isPoolQuestionFinalized (Some details) then ok None
          else if rb_questionOutcome details \<noteq> Some outcome then ok (Some 0)
          else getWinningImportedClaim_reporting details outcome deposit
      | _ \<Rightarrow> ok None)"

definition getRemainingSelectedOutcomeContributionCapacity :: "ReportingDetails \<Rightarrow> EscalationOutcomeKey \<Rightarrow> int" where
  "getRemainingSelectedOutcomeContributionCapacity loaded outcome =
     (case loaded of
        NotStarted details \<Rightarrow> rb_nonDecisionThresholdAttoRep details
      | Active details \<Rightarrow>
          (case getEscalationSide details outcome of
             None \<Rightarrow> 0
           | Some side \<Rightarrow> if rb_nonDecisionThresholdAttoRep details > es_balance side
               then rb_nonDecisionThresholdAttoRep details - es_balance side else 0))"

section \<open>Previews of a contribution\<close>

text \<open>The amount that would be deposited, or the reason against it.\<close>

datatype ContributionPreview = Deposits int | Refused string

definition previewEscalationContribution ::
  "ActiveReportingDetails \<Rightarrow> EscalationOutcomeKey \<Rightarrow> int \<Rightarrow> ContributionPreview result" where
  "previewEscalationContribution details outcome amount =
     (if isPoolQuestionFinalized (Some details) then ok (Refused ''Escalation is already resolved.'')
      else case getEscalationSide details outcome of
        None \<Rightarrow> ok (Refused ''Select a valid reporting outcome.'')
      | Some selectedSide \<Rightarrow>
          if es_balance selectedSide \<ge> rb_nonDecisionThresholdAttoRep details then
            bindR (formatCurrencyBalanceWithUnit (rb_nonDecisionThresholdAttoRep details) ''REP'' 18) (\<lambda>shown.
              ok (Refused (''Selected side is already full at '' @ shown @ ''.'')))
          else if amount < rb_startBondAttoRep details then
            bindR (formatCurrencyBalanceWithUnit (rb_startBondAttoRep details) ''REP'' 18) (\<lambda>shown.
              ok (Refused (''Enter at least '' @ shown @ '' to meet the current start bond.'')))
          else
            bindR (projectEscalationDeposit amount (getEscalationBalanceTuple (ra_sides details))
              (rb_nonDecisionThresholdAttoRep details) outcome (rb_startBondAttoRep details)) (\<lambda>projected.
            ok (case projected of
              None \<Rightarrow> Refused ''Increase the report amount slightly to avoid a tie at the minimum bond.''
            | Some projectedDeposit \<Rightarrow> Deposits (acceptedAmountAttoRep projectedDeposit))))"

definition previewReportingContribution ::
  "ReportingDetails \<Rightarrow> EscalationOutcomeKey \<Rightarrow> int \<Rightarrow> ContributionPreview result" where
  "previewReportingContribution loaded outcome amount =
     (case loaded of
        NotStarted details \<Rightarrow>
          if amount < rb_startBondAttoRep details then
            bindR (formatCurrencyBalanceWithUnit (rb_startBondAttoRep details) ''REP'' 18) (\<lambda>shown.
              ok (Refused (''Enter at least '' @ shown @ '' to start the escalation game.'')))
          else ok (Deposits amount)
      | Active details \<Rightarrow> previewEscalationContribution details outcome amount)"

definition base_thresholds :: "ReportingDetails \<Rightarrow> int \<times> int" where
  "base_thresholds loaded = (case loaded of
     NotStarted details \<Rightarrow> (rb_startBondAttoRep details, rb_nonDecisionThresholdAttoRep details)
   | Active details \<Rightarrow> (rb_startBondAttoRep details, rb_nonDecisionThresholdAttoRep details))"

definition getReportingTimerPreview ::
  "ReportingDetails \<Rightarrow> EscalationOutcomeKey \<Rightarrow> int \<Rightarrow> ReportingTimerPreview option result option" where
  "getReportingTimerPreview loaded outcome amount =
     (if amount \<le> 0 then Some (ok None)
      else
        bindT (computeHypotheticalBindingDuration (fst (base_thresholds loaded)) (snd (base_thresholds loaded)) amount)
          (\<lambda>hypotheticalDuration.
        case loaded of
          NotStarted details \<Rightarrow>
            bindT (Some (previewReportingContribution loaded outcome amount)) (\<lambda>preview.
            case preview of
              Refused reason \<Rightarrow> Some (ok None)
            | Deposits actual \<Rightarrow> Some (ok (Some (NotStartedPreview hypotheticalDuration
                (ESCALATION_GAME_ACTIVATION_DELAY + hypotheticalDuration) ESCALATION_GAME_ACTIVATION_DELAY))))
        | Active details \<Rightarrow>
            if isReportingClosed details then Some (ok None)
            else
              bindT (projectEscalationEndTime details outcome amount) (\<lambda>projected.
              Some (ok (case projected of
                None \<Rightarrow> None
              | Some projection \<Rightarrow>
                  if pe_endsImmediately projection then
                    Some (ActivePreview (pe_acceptedAmountAttoRep projection) EndsImmediately hypotheticalDuration None)
                  else if pe_projectedEndTime projection > ra_escalationEndTime details then
                    Some (ActivePreview (pe_acceptedAmountAttoRep projection) Extends hypotheticalDuration
                      (Some (pe_projectedEndTime projection - ra_escalationEndTime details)))
                  else Some (ActivePreview (pe_acceptedAmountAttoRep projection) Unchanged hypotheticalDuration None))))))"

section \<open>Suggested contributions\<close>

definition getMinimumOutcomeChangeContribution ::
  "ActiveReportingDetails \<Rightarrow> EscalationOutcomeKey \<Rightarrow> ReportingAmountSuggestion" where
  "getMinimumOutcomeChangeContribution details selectedOutcome =
     (let (largestOtherBalance, selected) = getSelectedAndOtherSides details selectedOutcome in
      case selected of
        None \<Rightarrow> no_suggestion ''Selected side is unavailable.''
      | Some selectedSide \<Rightarrow>
          if (isPoolQuestionFinalized (Some details) \<and> rb_questionOutcome details = Some selectedOutcome)
              \<or> isUniqueWinner (es_balance selectedSide) largestOtherBalance
          then suggest 0
          else
            let requiredLeadAmount = largestOtherBalance + 1 - es_balance selectedSide;
                enteredAmount = (if rb_startBondAttoRep details > requiredLeadAmount
                  then rb_startBondAttoRep details else requiredLeadAmount);
                amountAttoRep = roundUpToRepUnit enteredAmount;
                availableRoom = getAvailableRoom details (es_balance selectedSide);
                effectiveAmount = (if amountAttoRep > availableRoom then availableRoom else amountAttoRep)
            in if availableRoom = 0
            then no_suggestion ''No remaining contribution capacity is available on the selected side.''
            else if es_balance selectedSide + effectiveAmount \<le> largestOtherBalance then
              let cappedEnteredAmount = (if rb_startBondAttoRep details > availableRoom
                    then rb_startBondAttoRep details else availableRoom)
              in suggest (roundUpToRepUnit cappedEnteredAmount)
            else suggest amountAttoRep)"

definition getReportingMinimumOutcomeChangeContribution ::
  "ReportingDetails option \<Rightarrow> EscalationOutcomeKey \<Rightarrow> ReportingAmountSuggestion" where
  "getReportingMinimumOutcomeChangeContribution loaded selectedOutcome =
     (case loaded of
        None \<Rightarrow> no_suggestion LOAD_REPORTING_PRESETS_REASON
      | Some (NotStarted details) \<Rightarrow> suggest (rb_startBondAttoRep details)
      | Some (Active details) \<Rightarrow>
          if isPoolQuestionFinalized (Some details) then no_suggestion ESCALATION_RESOLVED_REASON
          else
            let minContribution = getMinimumOutcomeChangeContribution details selectedOutcome in
            if rs_amountAttoRep minContribution = Some 0 \<and> rs_reason minContribution = None
            then no_suggestion SELECTED_SIDE_ALREADY_LEADS_REASON
            else minContribution)"

definition getMaxProfitContribution ::
  "ActiveReportingDetails \<Rightarrow> EscalationOutcomeKey \<Rightarrow> ReportingAmountSuggestion" where
  "getMaxProfitContribution details selectedOutcome =
     (let minContribution = getMinimumOutcomeChangeContribution details selectedOutcome in
      case rs_amountAttoRep minContribution of
        None \<Rightarrow> no_suggestion (case rs_reason minContribution of None \<Rightarrow> ''Max profit preset is unavailable.'' | Some reason \<Rightarrow> reason)
      | Some minimumAmount \<Rightarrow>
          let (largestOtherBalance, selected) = getSelectedAndOtherSides details selectedOutcome in
          case selected of
            None \<Rightarrow> no_suggestion ''Selected side is unavailable.''
          | Some selectedSide \<Rightarrow>
              let rewardEligibleCap = largestOtherBalance + largestOtherBalance sdiv 2;
                  targetFinalBalance = (if rewardEligibleCap < rb_nonDecisionThresholdAttoRep details
                    then rewardEligibleCap else rb_nonDecisionThresholdAttoRep details)
              in if isUniqueWinner (es_balance selectedSide) largestOtherBalance \<and> es_balance selectedSide \<ge> targetFinalBalance
              then no_suggestion ''Max profit preset unavailable because the reward window is already filled on the selected side.''
              else
                let requiredWindowAmount = (if targetFinalBalance > es_balance selectedSide
                      then targetFinalBalance - es_balance selectedSide else 0);
                    minimumEnteredAmount = (if minimumAmount > requiredWindowAmount then minimumAmount else requiredWindowAmount);
                    enteredAmount = (if rb_startBondAttoRep details > minimumEnteredAmount
                      then rb_startBondAttoRep details else minimumEnteredAmount);
                    amountAttoRep = roundUpToRepUnit enteredAmount;
                    availableRoom = getAvailableRoom details (es_balance selectedSide);
                    effectiveAmount = (if amountAttoRep > availableRoom then availableRoom else amountAttoRep)
                in if es_balance selectedSide + effectiveAmount < targetFinalBalance
                then no_suggestion ''Max profit preset unavailable because the selected side cannot fill the reward window within the remaining bond capacity.''
                else suggest amountAttoRep)"

definition getReportingMaxProfitContribution ::
  "ReportingDetails option \<Rightarrow> EscalationOutcomeKey \<Rightarrow> ReportingAmountSuggestion" where
  "getReportingMaxProfitContribution loaded selectedOutcome =
     (case loaded of
        None \<Rightarrow> no_suggestion LOAD_REPORTING_PRESETS_REASON
      | Some (NotStarted details) \<Rightarrow> no_suggestion MAX_PROFIT_NOT_STARTED_REASON
      | Some (Active details) \<Rightarrow>
          if isPoolQuestionFinalized (Some details) then no_suggestion ESCALATION_RESOLVED_REASON
          else getMaxProfitContribution details selectedOutcome)"

definition getSelectedOutcomeRewardWindowFillTimestamp ::
  "ActiveReportingDetails \<Rightarrow> EscalationOutcomeKey \<Rightarrow> int \<Rightarrow> int option result option" where
  "getSelectedOutcomeRewardWindowFillTimestamp details selectedOutcome acceptedAmount =
     (if acceptedAmount \<le> 0 then Some (ok None)
      else
        let (largestOtherBalance, selected) = getSelectedAndOtherSides details selectedOutcome in
        case selected of
          None \<Rightarrow> Some (ok None)
        | Some selectedSide \<Rightarrow>
            let availableRoom = getAvailableRoom details (es_balance selectedSide);
                effectiveAmount = (if acceptedAmount > availableRoom then availableRoom else acceptedAmount);
                projectedSelectedBalance = es_balance selectedSide + effectiveAmount;
                rewardEligibleCap = largestOtherBalance + largestOtherBalance sdiv 2
            in if rewardEligibleCap \<le> 0 then Some (ok None)
            else
              let targetFinalBalance = (if rewardEligibleCap < rb_nonDecisionThresholdAttoRep details
                    then rewardEligibleCap else rb_nonDecisionThresholdAttoRep details)
              in if projectedSelectedBalance \<ge> targetFinalBalance then Some (ok None)
              else bindT (computeEscalationTimeSinceStartFromAttritionCostAttoRep (rb_startBondAttoRep details)
                    (rb_nonDecisionThresholdAttoRep details) targetFinalBalance) (\<lambda>time.
                  Some (ok (Some (ra_activationTime details + time)))))"

record EstimatedReturn =
  er_payout :: int
  er_profit :: int

definition calculateEstimatedEscalationReturn ::
  "ActiveReportingDetails \<Rightarrow> EscalationOutcomeKey \<Rightarrow> int \<Rightarrow> EstimatedReturn" where
  "calculateEstimatedEscalationReturn details selectedOutcome amount =
     (if amount \<le> 0 then \<lparr>er_payout = 0, er_profit = 0\<rparr>
      else
        let (largestOtherBalance, selected) = getSelectedAndOtherSides details selectedOutcome in
        case selected of
          None \<Rightarrow> \<lparr>er_payout = 0, er_profit = 0\<rparr>
        | Some selectedSide \<Rightarrow>
            let availableRoom = getAvailableRoom details (es_balance selectedSide);
                effectiveAmount = (if amount > availableRoom then availableRoom else amount)
            in if effectiveAmount \<le> 0 then \<lparr>er_payout = 0, er_profit = 0\<rparr>
            else
              let projectedWinningStake = es_balance selectedSide + effectiveAmount;
                  bindingCapital = largestOtherBalance;
                  rewardEligibleCap = bindingCapital + bindingCapital sdiv 2;
                  rewardEligiblePrincipal = (if projectedWinningStake < rewardEligibleCap
                    then projectedWinningStake else rewardEligibleCap)
              in if rewardEligiblePrincipal = 0 then \<lparr>er_payout = effectiveAmount, er_profit = 0\<rparr>
              else
                let depositStart = es_balance selectedSide;
                    depositEnd = es_balance selectedSide + effectiveAmount;
                    eligibleEnd = (if depositEnd < rewardEligibleCap then depositEnd else rewardEligibleCap);
                    rewardEligibleDepositAmount = (if eligibleEnd > depositStart then eligibleEnd - depositStart else 0);
                    rewardBonusPool = (bindingCapital * 3) sdiv 5;
                    bonusAttoRep = (rewardEligibleDepositAmount * rewardBonusPool) sdiv rewardEligiblePrincipal
                in \<lparr>er_payout = effectiveAmount + bonusAttoRep, er_profit = bonusAttoRep\<rparr>)"

section \<open>A loaded game\<close>

text \<open>
  What the loader provides: one side per outcome, in any order, no negative balance and none above
  the threshold, and a start bond that is positive and below the threshold.
\<close>

definition game_ok :: "ActiveReportingDetails \<Rightarrow> bool" where
  "game_ok d \<longleftrightarrow> mset (map es_key (ra_sides d)) = {#OutcomeInvalid, OutcomeYes, OutcomeNo#} \<and>
     (\<forall>side \<in> set (ra_sides d). 0 \<le> es_balance side \<and> es_balance side \<le> rb_nonDecisionThresholdAttoRep d) \<and>
     0 < rb_startBondAttoRep d \<and> rb_startBondAttoRep d < rb_nonDecisionThresholdAttoRep d"

fun first_other :: "EscalationOutcomeKey \<Rightarrow> EscalationOutcomeKey" where
  "first_other OutcomeInvalid = OutcomeYes"
| "first_other OutcomeYes = OutcomeInvalid"
| "first_other OutcomeNo = OutcomeInvalid"

fun second_other :: "EscalationOutcomeKey \<Rightarrow> EscalationOutcomeKey" where
  "second_other OutcomeInvalid = OutcomeNo"
| "second_other OutcomeYes = OutcomeNo"
| "second_other OutcomeNo = OutcomeYes"

definition largest_other :: "ActiveReportingDetails \<Rightarrow> EscalationOutcomeKey \<Rightarrow> int" where
  "largest_other d outcome = max (side_balance (ra_sides d) (first_other outcome)) (side_balance (ra_sides d) (second_other outcome))"

lemma three_sides:
  assumes "mset (map es_key sides) = {#OutcomeInvalid, OutcomeYes, OutcomeNo#}"
  obtains s1 s2 s3 where "sides = [s1, s2, s3]"
    and "(es_key s1, es_key s2, es_key s3) \<in> {(OutcomeInvalid, OutcomeYes, OutcomeNo), (OutcomeInvalid, OutcomeNo, OutcomeYes),
      (OutcomeYes, OutcomeInvalid, OutcomeNo), (OutcomeYes, OutcomeNo, OutcomeInvalid),
      (OutcomeNo, OutcomeInvalid, OutcomeYes), (OutcomeNo, OutcomeYes, OutcomeInvalid)}"
proof -
  have "length (map es_key sides) = 3" using arg_cong [OF assms, of size] by simp
  then obtain s1 s2 s3 where sides: "sides = [s1, s2, s3]" by (auto simp: numeral_3_eq_3 length_Suc_conv)
  have keys: "{#es_key s1, es_key s2, es_key s3#} = {#OutcomeInvalid, OutcomeYes, OutcomeNo#}" using assms sides by simp
  show ?thesis
    by (rule that [OF sides]) (use keys in \<open>cases "es_key s1"; cases "es_key s2"; cases "es_key s3"; simp add: add_eq_conv_ex\<close>)
qed

lemma game_sides:
  assumes "game_ok d"
  shows "getSelectedAndOtherSides d outcome =
      (largest_other d outcome, Some \<lparr>es_key = outcome, es_balance = side_balance (ra_sides d) outcome\<rparr>)" (is ?sides)
    and "getEscalationSide d outcome = Some \<lparr>es_key = outcome, es_balance = side_balance (ra_sides d) outcome\<rparr>" (is ?side)
    and "0 \<le> side_balance (ra_sides d) outcome \<and> side_balance (ra_sides d) outcome \<le> rb_nonDecisionThresholdAttoRep d" (is ?range)
proof -
  obtain s1 s2 s3 where sides: "ra_sides d = [s1, s2, s3]"
    and keys: "(es_key s1, es_key s2, es_key s3) \<in> {(OutcomeInvalid, OutcomeYes, OutcomeNo), (OutcomeInvalid, OutcomeNo, OutcomeYes),
      (OutcomeYes, OutcomeInvalid, OutcomeNo), (OutcomeYes, OutcomeNo, OutcomeInvalid),
      (OutcomeNo, OutcomeInvalid, OutcomeYes), (OutcomeNo, OutcomeYes, OutcomeInvalid)}"
    using assms [unfolded game_ok_def] three_sides by blast
  have range: "0 \<le> es_balance s \<and> es_balance s \<le> rb_nonDecisionThresholdAttoRep d" if "s \<in> {s1, s2, s3}" for s
    using assms that by (auto simp: game_ok_def sides)
  have side: "s = \<lparr>es_key = es_key s, es_balance = es_balance s\<rparr>" for s :: EscalationSide by simp
  show ?range using keys range
    by (cases outcome) (auto simp: side_balance_def sides)
  show ?side using keys
    by (cases outcome) (auto simp: getEscalationSide_def side_balance_def sides)
  have largest: "foldl (\<lambda>maxBalance side. if es_balance side > maxBalance then es_balance side else maxBalance) 0 [u, v] =
      max (es_balance u) (es_balance v)" if "u \<in> {s1, s2, s3}" "v \<in> {s1, s2, s3}" for u v
    using range [OF that(1)] range [OF that(2)] by (simp add: max_def)
  show ?sides using keys
    by (cases outcome) (auto simp: getSelectedAndOtherSides_def largest_other_def side_balance_def sides Let_def largest
        max.commute simp del: foldl.simps)
qed

lemma largest_other_range:
  assumes "game_ok d"
  shows "0 \<le> largest_other d outcome \<and> largest_other d outcome \<le> rb_nonDecisionThresholdAttoRep d"
  using game_sides(3) [OF assms] by (auto simp: largest_other_def max_def)

lemma balance_tuple:
  "(outcome = OutcomeInvalid \<and> getEscalationBalanceTuple sides = (side_balance sides outcome, side_balance sides (first_other outcome), side_balance sides (second_other outcome)))
   \<or> (outcome = OutcomeYes \<and> getEscalationBalanceTuple sides = (side_balance sides (first_other outcome), side_balance sides outcome, side_balance sides (second_other outcome)))
   \<or> (outcome = OutcomeNo \<and> getEscalationBalanceTuple sides = (side_balance sides (first_other outcome), side_balance sides (second_other outcome), side_balance sides outcome))"
  by (cases outcome) (simp_all add: getEscalationBalanceTuple_def)

lemma balance_at: "balanceAt (getEscalationBalanceTuple sides) (getEscalationOutcomeIndex outcome) = side_balance sides outcome"
  by (cases outcome) (simp_all add: getEscalationBalanceTuple_def)

text \<open>The bonds below the displayed amounts print; so a preview never throws.\<close>

lemma shown_bond: "\<exists>shown. formatCurrencyBalanceWithUnit amount unit_name units = ok shown"
  using format_balance_shown [of amount units] by (auto simp: formatCurrencyBalanceWithUnit_def)

lemma round_up: "0 < a \<Longrightarrow> a \<le> roundUpToRepUnit a \<and> roundUpToRepUnit a < a + 10 ^ 18"
proof -
  assume a: "0 < a"
  define n where "n = a + 10 ^ 18 - 1"
  have "roundUpToRepUnit a = (n div 10 ^ 18) * 10 ^ 18" using a by (simp add: roundUpToRepUnit_def REP_UNIT_def n_def sdiv_nonneg)
  moreover have "n div 10 ^ 18 * 10 ^ 18 + n mod 10 ^ 18 = n" by (rule div_mult_mod_eq)
  moreover have "0 \<le> n mod 10 ^ 18" "n mod 10 ^ 18 < 10 ^ 18" by simp_all
  ultimately show ?thesis unfolding n_def by linarith
qed

section \<open>The suggested contributions do what they say\<close>

text \<open>The state after a deposit: the balance of one side raised.\<close>

definition raise_side :: "EscalationOutcomeKey \<Rightarrow> int \<Rightarrow> EscalationSide list \<Rightarrow> EscalationSide list" where
  "raise_side outcome amount sides =
     map (\<lambda>side. if es_key side = outcome then side \<lparr>es_balance := es_balance side + amount\<rparr> else side) sides"

text \<open>What is deposited when the deposit lifts the side above the others, or fills it beside a full one.\<close>

lemma projection_in_game:
  assumes "game_ok d" "rb_startBondAttoRep d \<le> amount"
    and c: "c = side_balance (ra_sides d) outcome" "t = rb_nonDecisionThresholdAttoRep d" "c < t"
    and lead: "largest_other d outcome < c + min amount (t - c) \<or> t \<le> largest_other d outcome"
  shows "\<exists>p. projectEscalationDeposit amount (getEscalationBalanceTuple (ra_sides d)) t outcome (rb_startBondAttoRep d) = ok (Some p) \<and>
    acceptedAmountAttoRep p = min amount (t - c)"
proof -
  define x y where "x = side_balance (ra_sides d) (first_other outcome)" and "y = side_balance (ra_sides d) (second_other outcome)"
  have bond: "0 < rb_startBondAttoRep d" using assms(1) by (simp add: game_ok_def)
  have largest: "largest_other d outcome = max x y" by (simp add: largest_other_def x_def y_def)
  have projected: "projectEscalationDeposit amount (getEscalationBalanceTuple (ra_sides d)) t outcome (rb_startBondAttoRep d) =
    (if t \<le> c then ok None
     else if acceptedOf amount c x y t < rb_startBondAttoRep d \<and> c + acceptedOf amount c x y t \<noteq> t then ok None
     else bindR (setBalanceAtIndex (getEscalationBalanceTuple (ra_sides d)) (getEscalationOutcomeIndex outcome) (c + acceptedOf amount c x y t))
       (\<lambda>new. ok (Some \<lparr>acceptedAmountAttoRep = acceptedOf amount c x y t, projectedBalancesAttoRep = new,
          reachesNonDecision = hasReachedNonDecision new t, tieAdjusted = tieOf amount c x y t\<rparr>)))"
    using balance_tuple [of outcome "ra_sides d"] unfolding c(1) x_def y_def
    by (intro projection_value) (simp_all add: balance_at)
  have "\<not> tieOf amount c x y t"
    using lead bond assms(2) c(3) unfolding tieOf_def largest by auto
  then have accepted: "acceptedOf amount c x y t = min amount (t - c)" by (simp add: acceptedOf_def)
  have "\<exists>new. setBalanceAtIndex (getEscalationBalanceTuple (ra_sides d)) (getEscalationOutcomeIndex outcome) v = ok new" for v
    by (cases outcome) (simp_all add: getEscalationBalanceTuple_def)
  then obtain new where new: "setBalanceAtIndex (getEscalationBalanceTuple (ra_sides d)) (getEscalationOutcomeIndex outcome)
      (c + min amount (t - c)) = ok new" by blast
  have "\<not> (min amount (t - c) < rb_startBondAttoRep d \<and> c + min amount (t - c) \<noteq> t)" using assms(2) by auto
  then show ?thesis using c(3) by (simp add: projected accepted new)
qed

text \<open>
  C36: The suggested contribution that changes the outcome does so. For a loaded game that is not
  resolved, a positive suggestion is accepted when it is entered, and with the deposit the selected
  side leads both others, unless another side has reached the non-decision threshold: then the deposit fills
  the selected side too, which triggers the fork. A suggestion of zero is made exactly for a side
  that already leads, and none exactly for a side that is full.
\<close>

theorem minimum_contribution_takes_lead:
  assumes "game_ok d" and "\<not> isPoolQuestionFinalized (Some d)"
  shows "case rs_amountAttoRep (getMinimumOutcomeChangeContribution d outcome) of
      None \<Rightarrow> side_balance (ra_sides d) outcome = rb_nonDecisionThresholdAttoRep d \<and>
        largest_other d outcome = rb_nonDecisionThresholdAttoRep d
    | Some amount \<Rightarrow>
        if amount = 0 then largest_other d outcome < side_balance (ra_sides d) outcome
        else (case previewEscalationContribution d outcome amount of
            Inr (Deposits deposited) \<Rightarrow> 0 < deposited \<and> deposited \<le> amount \<and>
              (largest_other d outcome < side_balance (ra_sides d) outcome + deposited \<or>
               side_balance (ra_sides d) outcome + deposited = rb_nonDecisionThresholdAttoRep d \<and>
               largest_other d outcome = rb_nonDecisionThresholdAttoRep d)
          | _ \<Rightarrow> False)"
proof -
  define c o' t b where "c = side_balance (ra_sides d) outcome" and "o' = largest_other d outcome"
    and "t = rb_nonDecisionThresholdAttoRep d" and "b = rb_startBondAttoRep d"
  note range = game_sides(3) [OF assms(1), of outcome, folded c_def t_def] largest_other_range [OF assms(1), of outcome, folded o'_def t_def]
  have bond: "0 < b" "b < t" using assms(1) by (simp_all add: game_ok_def b_def t_def)
  note unfold = getMinimumOutcomeChangeContribution_def game_sides(1) [OF assms(1)] isUniqueWinner_def getAvailableRoom_def
    suggest_def no_suggestion_def
  show ?thesis
  proof (cases "o' < c")
    case True
    then show ?thesis using assms(2) by (simp add: unfold c_def o'_def)
  next
    case behind: False
    show ?thesis
    proof (cases "c < t")
      case False
      then have "c = t" "o' = t" using range behind by auto
      then show ?thesis using assms(2) by (simp add: unfold flip: c_def o'_def t_def)
    next
      case room: True
      define a where "a = roundUpToRepUnit (max b (o' + 1 - c))"
      define a' where "a' = roundUpToRepUnit (max b (t - c))"
      have a: "max b (o' + 1 - c) \<le> a" "max b (t - c) \<le> a'"
        using round_up [of "max b (o' + 1 - c)"] round_up [of "max b (t - c)"] bond by (simp_all add: a_def a'_def)
      define s where "s = (if c + min a (t - c) \<le> o' then a' else a)"
      have "rs_amountAttoRep (getMinimumOutcomeChangeContribution d outcome) = Some s"
        using assms(2) behind room
        by (simp add: unfold s_def a_def a'_def max_def min_def b_def Let_def flip: c_def o'_def t_def)
      moreover have s: "b \<le> s" "o' < c + min s (t - c) \<or> t \<le> o'" and full: "t \<le> o' \<longrightarrow> t - c \<le> s"
        using a range by (auto simp: s_def)
      moreover have "\<exists>p. projectEscalationDeposit s (getEscalationBalanceTuple (ra_sides d)) t outcome b = ok (Some p) \<and>
          acceptedAmountAttoRep p = min s (t - c)"
        using projection_in_game [OF assms(1) _ c_def t_def room, of s] s unfolding b_def o'_def by blast
      ultimately show ?thesis
        using assms(2) bond room range
        by (auto simp: previewEscalationContribution_def game_sides(2) [OF assms(1)] min_def simp flip: c_def o'_def t_def b_def)
    qed
  qed
qed

section \<open>Estimated returns\<close>

lemma find_raise_side:
  "find (\<lambda>side. es_key side = k) (raise_side outcome amount sides) =
   map_option (\<lambda>side. if es_key side = outcome then side \<lparr>es_balance := es_balance side + amount\<rparr> else side)
     (find (\<lambda>side. es_key side = k) sides)"
  by (induction sides) (auto simp: raise_side_def)

lemma raised_balances:
  assumes "game_ok d"
  shows "side_balance (raise_side outcome amount (ra_sides d)) k =
    (if k = outcome then side_balance (ra_sides d) k + amount else side_balance (ra_sides d) k)"
proof -
  define b where "b = side_balance (ra_sides d) k"
  have "find (\<lambda>side. es_key side = k) (ra_sides d) = Some \<lparr>es_key = k, es_balance = b\<rparr>"
    using game_sides(2) [OF assms, of k] by (simp add: getEscalationSide_def b_def)
  then show ?thesis unfolding b_def [symmetric] side_balance_def [of "raise_side outcome amount (ra_sides d)"] find_raise_side
    by simp
qed

text \<open>The second largest balance is that of the strongest other side when the side leads or ties.\<close>

lemma binding_of_max:
  "x \<le> c \<Longrightarrow> y \<le> c \<Longrightarrow> getEscalationBindingCapitalAttoRep (c, x, y) = max x y"
  "x \<le> c \<Longrightarrow> y \<le> c \<Longrightarrow> getEscalationBindingCapitalAttoRep (x, c, y) = max x y"
  "x \<le> c \<Longrightarrow> y \<le> c \<Longrightarrow> getEscalationBindingCapitalAttoRep (x, y, c) = max x y"
  by (auto simp: max_def)

lemma binding_capital_of_leader:
  assumes "game_ok d" "largest_other d outcome \<le> side_balance (ra_sides d) outcome + amount"
  shows "getEscalationBindingCapitalAttoRep (getEscalationBalanceTuple (raise_side outcome amount (ra_sides d))) =
    largest_other d outcome"
  using assms(2) unfolding getEscalationBalanceTuple_def raised_balances [OF assms(1)] largest_other_def
  by (cases outcome) (simp_all only: EscalationOutcomeKey.distinct if_False if_True refl max.bounded_iff binding_of_max first_other.simps
    second_other.simps)

text \<open>The estimate in closed form: the bonus of the part of the deposit inside the reward window.\<close>

definition deposit_bonus :: "int \<Rightarrow> int \<Rightarrow> int \<Rightarrow> int" where
  "deposit_bonus largest c e =
     (if min (c + e) (largest + largest div 2) = 0 then 0
      else (eligiblePart (largest + largest div 2) c (c + e) * ((largest * 3) div 5)) div min (c + e) (largest + largest div 2))"

lemma estimated_return_value:
  assumes "game_ok d" and "0 < amount"
    and c: "c = side_balance (ra_sides d) outcome" "t = rb_nonDecisionThresholdAttoRep d"
    and e: "e = min amount (t - c)"
  shows "calculateEstimatedEscalationReturn d outcome amount =
    \<lparr>er_payout = e + deposit_bonus (largest_other d outcome) c e, er_profit = deposit_bonus (largest_other d outcome) c e\<rparr>"
proof -
  define o' where "o' = largest_other d outcome"
  note range = game_sides(3) [OF assms(1), of outcome, folded c] largest_other_range [OF assms(1), of outcome, folded o'_def]
  have room: "getAvailableRoom d c = t - c" using range by (auto simp: getAvailableRoom_def c)
  have half: "o' sdiv 2 = o' div 2" and pool: "(o' * 3) sdiv 5 = (o' * 3) div 5" and pool0: "0 \<le> (o' * 3) div 5"
    and cap: "0 \<le> o' + o' div 2"
    using range by (simp_all add: sdiv_nonneg pos_imp_zdiv_nonneg_iff)
  have effective: "(if amount > t - c then t - c else amount) = e" by (simp add: e min_def)
  show ?thesis
  proof (cases "c = t")
    case True
    then show ?thesis using assms(2) range
      by (simp add: calculateEstimatedEscalationReturn_def game_sides(1) [OF assms(1)] flip: o'_def c)
        (simp add: deposit_bonus_def eligiblePart_def getAvailableRoom_def e flip: c)
  next
    case False
    then have e0: "0 < e" using range assms(2) by (simp add: e)
    have principal: "(if c + e < o' + o' div 2 then c + e else o' + o' div 2) = min (c + e) (o' + o' div 2)" by auto
    have eligible: "(if min (c + e) (o' + o' div 2) > c then min (c + e) (o' + o' div 2) - c else 0) =
        eligiblePart (o' + o' div 2) c (c + e)"
      unfolding eligiblePart_def by (simp only: max_def not_less split: if_split) linarith
    have "(eligiblePart (o' + o' div 2) c (c + e) * ((o' * 3) div 5)) sdiv min (c + e) (o' + o' div 2)
        = (eligiblePart (o' + o' div 2) c (c + e) * ((o' * 3) div 5)) div min (c + e) (o' + o' div 2)"
      using pool0 cap range e0 by (intro sdiv_nonneg mult_nonneg_nonneg) (auto simp: eligiblePart_def)
    then show ?thesis
      using assms(2) e0
      unfolding calculateEstimatedEscalationReturn_def game_sides(1) [OF assms(1)] o'_def [symmetric] deposit_bonus_def
        Let_def prod.case option.case EscalationSide.simps c(1) [symmetric] room effective half pool principal
        eligible
      by simp
  qed
qed

lemma deposit_bonus_nonneg: "0 \<le> c \<Longrightarrow> 0 \<le> e \<Longrightarrow> 0 \<le> largest \<Longrightarrow> 0 \<le> deposit_bonus largest c e"
proof -
  assume nonneg: "0 \<le> c" "0 \<le> e" "0 \<le> largest"
  define cap where "cap = largest + largest div 2"
  have "0 \<le> cap" "0 \<le> (largest * 3) div 5" using nonneg by (simp_all add: cap_def pos_imp_zdiv_nonneg_iff)
  then have "0 \<le> eligiblePart cap c (c + e) * ((largest * 3) div 5)" by (simp add: eligiblePart_def)
  moreover have "min (c + e) cap = 0 \<or> 0 < min (c + e) cap" using nonneg \<open>0 \<le> cap\<close> by linarith
  ultimately show ?thesis unfolding deposit_bonus_def cap_def [symmetric] by (auto simp only: pos_imp_zdiv_nonneg_iff if_True if_False split: if_split)
qed

text \<open>
  What the estimated return is worth. Suppose the deposit (cut to the room on the selected side)
  leaves the side leading or tied, and the game is resolved for the side in that state. Then the claim of the
  deposit is the estimated payout if the fork threshold is at least the non-decision threshold. If it is
  smaller, every claim is scaled down by their ratio, and the screen shows the payout without
  that scaling: the claim is the estimate times the ratio. The payout is the deposit
  and the profit, which is never negative.
\<close>

lemma claim_of_estimated_return:
  assumes "game_ok d" and "0 < amount" and "0 \<le> rb_forkThresholdAttoRep d"
    and deposit: "deposited = min amount (rb_nonDecisionThresholdAttoRep d - side_balance (ra_sides d) outcome)"
    and leads: "largest_other d outcome \<le> side_balance (ra_sides d) outcome + deposited"
    and settled: "settled = d \<lparr>ra_sides := raise_side outcome deposited (ra_sides d),
        ra_bindingCapital := getEscalationBindingCapitalAttoRep (getEscalationBalanceTuple (raise_side outcome deposited (ra_sides d))),
        rb_questionOutcome := Some outcome, rb_systemState := Operational, rb_parentWithdrawalEnabled := True\<rparr>"
  shows "let estimate = calculateEstimatedEscalationReturn d outcome amount in
      getEscalationDepositClaimAmount (Some (Active settled)) outcome
        \<lparr>ed_amountAttoRep = deposited, ed_cumulativeAmountAttoRep = side_balance (ra_sides d) outcome + deposited\<rparr> =
      ok (Some (if rb_forkThresholdAttoRep d < rb_nonDecisionThresholdAttoRep d
        then er_payout estimate * rb_forkThresholdAttoRep d div rb_nonDecisionThresholdAttoRep d else er_payout estimate)) \<and>
      er_payout estimate = deposited + er_profit estimate \<and> 0 \<le> er_profit estimate"
proof -
  define c where "c = side_balance (ra_sides d) outcome"
  note range = game_sides(3) [OF assms(1), of outcome, folded c_def] largest_other_range [OF assms(1), of outcome]
  have nonneg: "0 \<le> deposited" using range assms(2) by (simp add: deposit c_def)
  have threshold: "0 < rb_nonDecisionThresholdAttoRep d" using assms(1) by (simp add: game_ok_def)
  have capital: "ra_bindingCapital settled = largest_other d outcome"
    using binding_capital_of_leader [OF assms(1) leads] by (simp add: settled)
  have side: "getEscalationSide settled outcome = Some \<lparr>es_key = outcome, es_balance = c + deposited\<rparr>"
    using game_sides(2) [OF assms(1), of outcome] by (simp add: getEscalationSide_def settled find_raise_side c_def)
  have "getEscalationDepositClaimAmount (Some (Active settled)) outcome
        \<lparr>ed_amountAttoRep = deposited, ed_cumulativeAmountAttoRep = c + deposited\<rparr>
      = ok (Some (forkScale (rb_forkThresholdAttoRep d) (rb_nonDecisionThresholdAttoRep d)
          (deposited + deposit_bonus (largest_other d outcome) c deposited)))"
    using claim_value [of "largest_other d outcome" deposited c "rb_forkThresholdAttoRep d" "rb_nonDecisionThresholdAttoRep d"
        "c + deposited"] range nonneg assms(3) threshold
    by (simp add: getEscalationDepositClaimAmount_def getWinningClaim_reporting_def side capital isPoolQuestionFinalized_def
        deposit_bonus_def) (simp add: settled)
  then show ?thesis
    using estimated_return_value [OF assms(1,2) c_def refl, of deposited] deposit
      deposit_bonus_nonneg [of c deposited "largest_other d outcome"] nonneg range
    by (simp add: Let_def c_def forkScale_def)
qed

section \<open>The preset of the greatest profit\<close>

lemma deposit_bonus_mono:
  assumes "0 \<le> c" "0 \<le> e" "e \<le> e'" "0 \<le> largest"
  shows "deposit_bonus largest c e \<le> deposit_bonus largest c e'"
proof -
  define cap pool where "cap = largest + largest div 2" and "pool = (largest * 3) div 5"
  define p p' where "p = min (c + e) cap" and "p' = min (c + e') cap"
  have nonneg: "0 \<le> cap" "0 \<le> pool" "0 \<le> p" "p \<le> p'"
    using assms by (simp_all add: cap_def pool_def p_def p'_def pos_imp_zdiv_nonneg_iff)
  have bonus: "deposit_bonus largest c e = (if p = 0 then 0 else (max 0 (p - c) * pool) div p)"
    "deposit_bonus largest c e' = (if p' = 0 then 0 else (max 0 (p' - c) * pool) div p')"
    by (simp_all add: deposit_bonus_def eligiblePart_def cap_def pool_def p_def p'_def)
  show ?thesis
  proof (cases "p \<le> c")
    case True
    then have "deposit_bonus largest c e = 0" by (simp add: bonus)
    then show ?thesis using deposit_bonus_nonneg [of c e' largest] assms by simp
  next
    case False
    then have p: "0 < p" "0 < p'" "c < p" "c < p'" using assms(1) nonneg by auto
    define q where "q = ((p - c) * pool) div p"
    have "q * p \<le> (p - c) * pool" unfolding q_def using p(1) by (rule div_mult_le_self)
    then have "(q * p) * p' \<le> ((p - c) * pool) * p'" using p(2) by (intro mult_right_mono) auto
    moreover have "c * p \<le> c * p'" using nonneg assms(1) by (intro mult_left_mono) auto
    then have "(p - c) * p' \<le> (p' - c) * p" by (simp add: algebra_simps)
    then have "((p - c) * p') * pool \<le> ((p' - c) * p) * pool" using nonneg by (intro mult_right_mono) auto
    ultimately have "(q * p') * p \<le> ((p' - c) * pool) * p" by (simp add: algebra_simps)
    then have "q * p' \<le> (p' - c) * pool" using p(1) by simp
    then have "q \<le> ((p' - c) * pool) div p'" using p(2) by (simp add: le_div_iff)
    then show ?thesis using p by (simp add: bonus q_def)
  qed
qed

text \<open>Beyond the cap of the reward window the bonus does not change.\<close>

lemma deposit_bonus_capped:
  "largest + largest div 2 \<le> c + e \<Longrightarrow> e \<le> e' \<Longrightarrow> deposit_bonus largest c e' = deposit_bonus largest c e"
  by (simp add: deposit_bonus_def eligiblePart_def min_absorb2)

lemma max_profit_fills_window:
  assumes "game_ok d" and "rs_amountAttoRep (getMaxProfitContribution d outcome) = Some amount"
    and c: "c = side_balance (ra_sides d) outcome" "t = rb_nonDecisionThresholdAttoRep d" "o' = largest_other d outcome"
  shows "rb_startBondAttoRep d \<le> amount \<and> min (o' + o' div 2) t \<le> c + min amount (t - c)"
proof -
  note range = game_sides(3) [OF assms(1), of outcome, folded c] largest_other_range [OF assms(1), of outcome, folded c]
  have bond: "0 < rb_startBondAttoRep d" using assms(1) by (simp add: game_ok_def)
  have half: "o' sdiv 2 = o' div 2" using range by (simp add: sdiv_nonneg)
  have target: "(if o' + o' div 2 < t then o' + o' div 2 else t) = min (o' + o' div 2) t" by auto
  have room: "getAvailableRoom d c = t - c" using range by (auto simp: getAvailableRoom_def c)
  obtain minimum where minimum: "rs_amountAttoRep (getMinimumOutcomeChangeContribution d outcome) = Some minimum"
    using assms(2) by (cases "rs_amountAttoRep (getMinimumOutcomeChangeContribution d outcome)")
      (auto simp: getMaxProfitContribution_def no_suggestion_def Let_def)
  define required where "required = (if min (o' + o' div 2) t > c then min (o' + o' div 2) t - c else 0)"
  define entered where "entered = max (rb_startBondAttoRep d) (max minimum required)"
  have entered: "(if rb_startBondAttoRep d > (if minimum > required then minimum else required) then rb_startBondAttoRep d
      else (if minimum > required then minimum else required)) = entered"
    by (auto simp: entered_def max_def)
  have "\<not> c + (if roundUpToRepUnit entered > t - c then t - c else roundUpToRepUnit entered) < min (o' + o' div 2) t"
    and amount: "amount = roundUpToRepUnit entered"
    using assms(2)
    unfolding getMaxProfitContribution_def minimum game_sides(1) [OF assms(1)] Let_def prod.case option.case c(1) [symmetric]
      c(3) [symmetric] c(2) [symmetric] EscalationSide.simps half target room required_def [symmetric] entered
    by (auto simp: no_suggestion_def suggest_def split: if_splits)
  moreover have "rb_startBondAttoRep d \<le> amount"
    using round_up [of entered] bond by (simp add: amount entered_def)
  ultimately show ?thesis by (auto simp: min_def split: if_splits)
qed

text \<open>
  C37: The preset called maximum profit is one: no contribution to the selected side has a greater
  estimated profit than the suggested one, and with it the reward window is full, so the
  screen shows no time at which it would fill.
\<close>

theorem max_profit_preset_is_maximal:
  assumes "game_ok d" and "rs_amountAttoRep (getMaxProfitContribution d outcome) = Some amount"
  shows "er_profit (calculateEstimatedEscalationReturn d outcome other) \<le>
      er_profit (calculateEstimatedEscalationReturn d outcome amount) \<and>
    getSelectedOutcomeRewardWindowFillTimestamp d outcome amount = Some (ok None)"
proof -
  define c t o' where "c = side_balance (ra_sides d) outcome" and "t = rb_nonDecisionThresholdAttoRep d"
    and "o' = largest_other d outcome"
  note range = game_sides(3) [OF assms(1), of outcome, folded c_def t_def]
    largest_other_range [OF assms(1), of outcome, folded o'_def t_def]
  have filled: "min (o' + o' div 2) t \<le> c + min amount (t - c)" and positive: "0 < amount"
    using max_profit_fills_window [OF assms c_def t_def o'_def] assms(1) by (auto simp: game_ok_def)
  have profit: "er_profit (calculateEstimatedEscalationReturn d outcome a) = deposit_bonus o' c (min a (t - c))" if "0 < a" for a
    using estimated_return_value [OF assms(1) that c_def t_def refl] by (simp add: o'_def)
  have "er_profit (calculateEstimatedEscalationReturn d outcome other) \<le> deposit_bonus o' c (min amount (t - c))"
  proof (cases "0 < other")
    case False
    then show ?thesis
      using deposit_bonus_nonneg [of c "min amount (t - c)" o'] range positive
      by (simp add: calculateEstimatedEscalationReturn_def)
  next
    case True
    show ?thesis
    proof (cases "min other (t - c) \<le> min amount (t - c)")
      case mono: True
      then show ?thesis using range True deposit_bonus_mono [of c _ _ o'] by (simp add: profit)
    next
      case False
      then have "o' + o' div 2 \<le> c + min amount (t - c)" using filled by (auto simp: min_def split: if_splits)
      then show ?thesis using False deposit_bonus_capped [of o' c "min amount (t - c)" "min other (t - c)"]
        by (simp only: profit [OF True] not_le less_imp_le order.refl)
    qed
  qed
  moreover have "getSelectedOutcomeRewardWindowFillTimestamp d outcome amount = Some (ok None)"
  proof -
    have half: "o' sdiv 2 = o' div 2" using range by (simp add: sdiv_nonneg)
    have room: "getAvailableRoom d c = t - c" using range by (auto simp: getAvailableRoom_def t_def)
    have effective: "(if amount > t - c then t - c else amount) = min amount (t - c)" by auto
    have target: "(if o' + o' div 2 < t then o' + o' div 2 else t) = min (o' + o' div 2) t" by auto
    show ?thesis
      using positive filled
      unfolding getSelectedOutcomeRewardWindowFillTimestamp_def game_sides(1) [OF assms(1)] Let_def prod.case option.case
        c_def [symmetric] o'_def [symmetric] t_def [symmetric] EscalationSide.simps half room effective target
      by simp
  qed
  ultimately show ?thesis using profit [OF positive] by simp
qed

section \<open>The timer\<close>

lemma binding_is_median:
  "getEscalationBindingCapitalAttoRep (a, b, c) = max (min a b) (min (max a b) c)"
  by auto

lemma binding_mono:
  "a \<le> a' \<Longrightarrow> b \<le> b' \<Longrightarrow> c \<le> c' \<Longrightarrow>
   getEscalationBindingCapitalAttoRep (a, b, c) \<le> getEscalationBindingCapitalAttoRep (a', b', c')"
  unfolding binding_is_median by (intro max.mono min.mono) auto

text \<open>A deposit that is accepted leaves the binding capital no smaller.\<close>

lemma projected_binding_capital:
  assumes "projectEscalationDeposit amount (getEscalationBalanceTuple sides) t outcome bond = ok (Some p)" and "0 < bond"
  shows "getEscalationBindingCapitalAttoRep (getEscalationBalanceTuple sides) \<le>
    getEscalationBindingCapitalAttoRep (projectedBalancesAttoRep p)"
proof -
  define c x y where "c = side_balance sides outcome" and "x = side_balance sides (first_other outcome)"
    and "y = side_balance sides (second_other outcome)"
  have "projectEscalationDeposit amount (getEscalationBalanceTuple sides) t outcome bond =
    (if t \<le> c then ok None
     else if acceptedOf amount c x y t < bond \<and> c + acceptedOf amount c x y t \<noteq> t then ok None
     else bindR (setBalanceAtIndex (getEscalationBalanceTuple sides) (getEscalationOutcomeIndex outcome) (c + acceptedOf amount c x y t))
       (\<lambda>new. ok (Some \<lparr>acceptedAmountAttoRep = acceptedOf amount c x y t, projectedBalancesAttoRep = new,
          reachesNonDecision = hasReachedNonDecision new t, tieAdjusted = tieOf amount c x y t\<rparr>)))"
    using balance_tuple [of outcome sides] unfolding c_def x_def y_def
    by (intro projection_value) (simp_all add: balance_at)
  with assms have new: "setBalanceAtIndex (getEscalationBalanceTuple sides) (getEscalationOutcomeIndex outcome) (c + acceptedOf amount c x y t)
      = ok (projectedBalancesAttoRep p)" and grows: "0 \<le> acceptedOf amount c x y t"
    by (auto simp: bindR_eq_Inr_iff split: if_splits)
  show ?thesis
    using new grows binding_mono
    by (cases outcome) (auto simp: getEscalationBalanceTuple_def c_def simp del: getEscalationBindingCapitalAttoRep.simps
        dest!: sym [of _ "projectedBalancesAttoRep p"])
qed

text \<open>
  C38: A deposit never shortens the game. When the loaded end time is the one of the loaded
  balances, the timer preview of a positive amount on an open game always returns: no preview exactly when the
  deposit would be refused; an immediate end exactly when it triggers the fork; an increase that is
  the exact, positive difference between the end time after the deposit and the loaded one; or no change, and then
  the two end times are equal.
\<close>

theorem deposit_never_shortens_game:
  assumes "game_ok d" and "\<not> isReportingClosed d" and "0 < amount"
    and loaded: "computeEscalationTimeSinceStartFromAttritionCostAttoRep (rb_startBondAttoRep d) (rb_nonDecisionThresholdAttoRep d)
      (getEscalationBindingCapitalAttoRep (getEscalationBalanceTuple (ra_sides d))) = Some (ok elapsed)"
    and end_time: "ra_escalationEndTime d = ra_activationTime d + elapsed"
  shows "case (getReportingTimerPreview (Active d) outcome amount,
      projectEscalationDeposit amount (getEscalationBalanceTuple (ra_sides d)) (rb_nonDecisionThresholdAttoRep d) outcome
        (rb_startBondAttoRep d)) of
      (Some (Inr None), Inr None) \<Rightarrow> True
    | (Some (Inr (Some (ActivePreview accepted state hypothetical increase))), Inr (Some p)) \<Rightarrow>
        accepted = acceptedAmountAttoRep p \<and> 0 \<le> hypothetical \<and> hypothetical \<le> ESCALATION_TIME_LENGTH \<and>
        (case state of
           EndsImmediately \<Rightarrow> reachesNonDecision p
         | Extends \<Rightarrow> \<not> reachesNonDecision p \<and> (\<exists>after. elapsed < after \<and> increase = Some (after - elapsed) \<and>
             computeEscalationTimeSinceStartFromAttritionCostAttoRep (rb_startBondAttoRep d) (rb_nonDecisionThresholdAttoRep d)
               (getEscalationBindingCapitalAttoRep (projectedBalancesAttoRep p)) = Some (ok after))
         | Unchanged \<Rightarrow> \<not> reachesNonDecision p \<and> increase = None \<and>
             computeEscalationTimeSinceStartFromAttritionCostAttoRep (rb_startBondAttoRep d) (rb_nonDecisionThresholdAttoRep d)
               (getEscalationBindingCapitalAttoRep (projectedBalancesAttoRep p)) = Some (ok elapsed))
    | _ \<Rightarrow> False"
proof -
  have bond: "0 < rb_startBondAttoRep d" "rb_startBondAttoRep d < rb_nonDecisionThresholdAttoRep d"
    using assms(1) by (simp_all add: game_ok_def)
  obtain time where mono: "mono time"
    and time: "\<forall>cost. computeEscalationTimeSinceStartFromAttritionCostAttoRep (rb_startBondAttoRep d)
      (rb_nonDecisionThresholdAttoRep d) cost = Some (ok (time cost))"
    and within: "\<forall>cost. 0 \<le> time cost \<and> time cost \<le> ESCALATION_TIME_LENGTH"
    using time_curve [OF bond] by blast
  define before where "before = getEscalationBindingCapitalAttoRep (getEscalationBalanceTuple (ra_sides d))"
  have elapsed: "elapsed = time before" using loaded time by (simp add: before_def)
  have duration: "computeHypotheticalBindingDuration (rb_startBondAttoRep d) (rb_nonDecisionThresholdAttoRep d) amount =
      Some (ok (time amount))"
    using assms(3) time by (simp add: computeHypotheticalBindingDuration_def)
  let ?project = "projectEscalationDeposit amount (getEscalationBalanceTuple (ra_sides d)) (rb_nonDecisionThresholdAttoRep d)
    outcome (rb_startBondAttoRep d)"
  have preview: "getReportingTimerPreview (Active d) outcome amount =
      bindT (projectEscalationEndTime d outcome amount) (\<lambda>projected. Some (ok (case projected of
        None \<Rightarrow> None
      | Some projection \<Rightarrow>
          if pe_endsImmediately projection then
            Some (ActivePreview (pe_acceptedAmountAttoRep projection) EndsImmediately (time amount) None)
          else if pe_projectedEndTime projection > ra_escalationEndTime d then
            Some (ActivePreview (pe_acceptedAmountAttoRep projection) Extends (time amount)
              (Some (pe_projectedEndTime projection - ra_escalationEndTime d)))
          else Some (ActivePreview (pe_acceptedAmountAttoRep projection) Unchanged (time amount) None))))"
    using assms(2,3) duration by (simp add: getReportingTimerPreview_def base_thresholds_def)
  obtain r where r: "?project = ok r"
    using projection_total [of amount "getEscalationBalanceTuple (ra_sides d)"] by blast
  show ?thesis
  proof (cases r)
    case None
    then show ?thesis using assms(3) r preview by (simp add: projectEscalationEndTime_def)
  next
    case (Some p)
    show ?thesis
    proof (cases "reachesNonDecision p")
      case True
      then show ?thesis using assms(3) r Some preview within by (simp add: projectEscalationEndTime_def)
    next
      case False
      define after where "after = getEscalationBindingCapitalAttoRep (projectedBalancesAttoRep p)"
      have "before \<le> after"
        using projected_binding_capital [of amount "ra_sides d"] r Some bond(1) by (simp add: before_def after_def)
      then have "time before \<le> time after" using mono by (simp add: monoD)
      moreover have "projectEscalationEndTime d outcome amount = Some (ok (Some
          \<lparr>pe_acceptedAmountAttoRep = acceptedAmountAttoRep p, pe_endsImmediately = False,
           pe_projectedEndTime = ra_activationTime d + time after\<rparr>))"
        using assms(3) r Some False time by (simp add: projectEscalationEndTime_def after_def)
      ultimately show ?thesis
        using r Some False preview within time end_time elapsed
        by (cases "time before < time after") (simp_all add: after_def)
    qed
  qed
qed

section \<open>An example\<close>

definition reporting_sample :: ActiveReportingDetails where
  "reporting_sample = \<lparr>rb_currentTime = 5000, rb_forkThresholdAttoRep = 900, rb_nonDecisionThresholdAttoRep = 1000,
     rb_questionOutcome = None, rb_startBondAttoRep = 10, rb_systemState = Operational, rb_parentWithdrawalEnabled = False,
     ra_bindingCapital = 9, ra_escalationEndTime = 5000, ra_hasReachedNonDecision = False,
     ra_sides = [\<lparr>es_key = OutcomeYes, es_balance = 9\<rparr>, \<lparr>es_key = OutcomeNo, es_balance = 90\<rparr>,
       \<lparr>es_key = OutcomeInvalid, es_balance = 0\<rparr>],
     ra_activationTime = 5000\<rparr>"

lemma reporting_sample_ok: "game_ok reporting_sample" "\<not> isPoolQuestionFinalized (Some reporting_sample)"
  "\<not> isReportingClosed reporting_sample" "0 \<le> rb_forkThresholdAttoRep reporting_sample"
  by (simp_all add: game_ok_def reporting_sample_def isPoolQuestionFinalized_def isReportingClosed_def hasEscalationTimedOut_def)

lemma reporting_sample_balances:
  "side_balance (ra_sides reporting_sample) OutcomeYes = 9" "largest_other reporting_sample OutcomeYes = 90"
  "rb_nonDecisionThresholdAttoRep reporting_sample = 1000"
  by (simp_all add: reporting_sample_def side_balance_def largest_other_def)

theorem minimum_contribution_takes_lead_witness:
  "case rs_amountAttoRep (getMinimumOutcomeChangeContribution reporting_sample OutcomeYes) of
      None \<Rightarrow> False
    | Some amount \<Rightarrow> amount \<noteq> 0 \<and>
        (case previewEscalationContribution reporting_sample OutcomeYes amount of
           Inr (Deposits deposited) \<Rightarrow> 90 < 9 + deposited | _ \<Rightarrow> False)"
  using minimum_contribution_takes_lead [OF reporting_sample_ok(1,2), of OutcomeYes]
  by (auto simp: reporting_sample_balances split: option.splits if_splits sum.splits ContributionPreview.splits)

definition reporting_unforked :: ActiveReportingDetails where
  "reporting_unforked = reporting_sample \<lparr>rb_forkThresholdAttoRep := 1000\<rparr>"

definition sample_settled :: "ActiveReportingDetails \<Rightarrow> ActiveReportingDetails" where
  "sample_settled d = d \<lparr>ra_sides := raise_side OutcomeYes 200 (ra_sides d),
     ra_bindingCapital := getEscalationBindingCapitalAttoRep (getEscalationBalanceTuple (raise_side OutcomeYes 200 (ra_sides d))),
     rb_questionOutcome := Some OutcomeYes, rb_systemState := Operational, rb_parentWithdrawalEnabled := True\<rparr>"

lemma reporting_unforked_ok: "game_ok reporting_unforked" "0 \<le> rb_forkThresholdAttoRep reporting_unforked"
  "side_balance (ra_sides reporting_unforked) OutcomeYes = 9" "largest_other reporting_unforked OutcomeYes = 90"
  "rb_nonDecisionThresholdAttoRep reporting_unforked = 1000" "rb_forkThresholdAttoRep reporting_unforked = 1000"
  "rb_forkThresholdAttoRep reporting_sample = 900"
  by (simp_all add: reporting_unforked_def reporting_sample_def game_ok_def side_balance_def largest_other_def)

lemma claim_of_estimated_return_example:
  "let deposit = \<lparr>ed_amountAttoRep = 200, ed_cumulativeAmountAttoRep = 209\<rparr> in
    getEscalationDepositClaimAmount (Some (Active (sample_settled reporting_unforked))) OutcomeYes deposit =
      ok (Some (er_payout (calculateEstimatedEscalationReturn reporting_unforked OutcomeYes 200))) \<and>
    getEscalationDepositClaimAmount (Some (Active (sample_settled reporting_sample))) OutcomeYes deposit =
      ok (Some (er_payout (calculateEstimatedEscalationReturn reporting_sample OutcomeYes 200) * 900 div 1000))"
  using claim_of_estimated_return [OF reporting_sample_ok(1) _ reporting_sample_ok(4) _ _ sample_settled_def, of 200]
    claim_of_estimated_return [OF reporting_unforked_ok(1) _ reporting_unforked_ok(2) _ _ sample_settled_def, of 200]
  by (simp add: reporting_sample_balances reporting_unforked_ok Let_def)

theorem max_profit_preset_is_maximal_witness:
  "case rs_amountAttoRep (getMaxProfitContribution reporting_sample OutcomeYes) of
     None \<Rightarrow> False
   | Some amount \<Rightarrow> er_profit (calculateEstimatedEscalationReturn reporting_sample OutcomeYes 126) \<le>
       er_profit (calculateEstimatedEscalationReturn reporting_sample OutcomeYes amount)"
proof -
  have "rs_amountAttoRep (getMaxProfitContribution reporting_sample OutcomeYes) = Some (10 ^ 18)"
    by code_simp
  from max_profit_preset_is_maximal [OF reporting_sample_ok(1) this, of 126] show ?thesis
    by (simp add: \<open>rs_amountAttoRep (getMaxProfitContribution reporting_sample OutcomeYes) = Some (10 ^ 18)\<close>)
qed

theorem deposit_never_shortens_game_witness:
  "case getReportingTimerPreview (Active reporting_sample) OutcomeYes 40 of
     Some (Inr (Some (ActivePreview accepted state hypothetical increase))) \<Rightarrow>
       accepted = 40 \<and> 0 \<le> hypothetical \<and> (state = Extends \<or> state = Unchanged)
   | _ \<Rightarrow> False"
proof -
  have binding: "getEscalationBindingCapitalAttoRep (getEscalationBalanceTuple (ra_sides reporting_sample)) = 9"
    by code_simp
  have projected: "projectEscalationDeposit 40 (getEscalationBalanceTuple (ra_sides reporting_sample)) 1000 OutcomeYes 10 =
      ok (Some \<lparr>acceptedAmountAttoRep = 40, projectedBalancesAttoRep = (0, 49, 90), reachesNonDecision = False, tieAdjusted = False\<rparr>)"
    by code_simp
  have bond: "rb_startBondAttoRep reporting_sample = 10" by (simp add: reporting_sample_def)
  have "computeEscalationTimeSinceStartFromAttritionCostAttoRep (rb_startBondAttoRep reporting_sample)
      (rb_nonDecisionThresholdAttoRep reporting_sample)
      (getEscalationBindingCapitalAttoRep (getEscalationBalanceTuple (ra_sides reporting_sample))) = Some (ok 0)"
    by (simp add: binding bond computeEscalationTimeSinceStartFromAttritionCostAttoRep_def)
  note result = deposit_never_shortens_game [OF reporting_sample_ok(1,3) _ this, of 40 OutcomeYes]
  define preview where "preview = getReportingTimerPreview (Active reporting_sample) OutcomeYes 40"
  have ends: "ra_escalationEndTime reporting_sample = ra_activationTime reporting_sample + 0" by (simp add: reporting_sample_def)
  obtain accepted state hypothetical increase where preview: "preview = Some (ok (Some (ActivePreview accepted state hypothetical increase)))"
    using result [OF _ ends] by (auto simp: reporting_sample_balances bond projected preview_def [symmetric]
        split: option.splits sum.splits ReportingTimerPreview.splits)
  then have "accepted = 40 \<and> 0 \<le> hypothetical \<and> state \<noteq> EndsImmediately"
    using result [OF _ ends] by (auto simp: reporting_sample_balances bond projected preview_def [symmetric] split: TimerState.splits)
  then show ?thesis unfolding preview_def [symmetric] preview by (cases state) simp_all
qed

end
