(* ===== verification/Js_Map.thy ===== *)
theory Js_Map
  imports Zoltar_Prelude "HOL-Library.AList"
begin

text \<open>
  JavaScript maps. A \<open>Map\<close> keeps its keys in the order of their insertion, and setting a
  present key keeps its place: it is an association list under \<open>AList.update\<close>, read by
  \<open>map_of\<close>. Deleting a key is \<open>AList.delete\<close>. A map from keys to arrays that is
  filled by pushing, as several components do, is \<open>group_into\<close>.
\<close>

definition group_into :: "('a \<Rightarrow> 'k) \<Rightarrow> 'a list \<Rightarrow> ('k \<times> 'a list) list" where
  "group_into key xs =
     foldl (\<lambda>buckets x. AList.update (key x)
       ((case map_of buckets (key x) of None \<Rightarrow> [] | Some bucket \<Rightarrow> bucket) @ [x]) buckets) [] xs"

lemma group_into_snoc:
  "group_into key (xs @ [x]) = AList.update (key x)
     ((case map_of (group_into key xs) (key x) of None \<Rightarrow> [] | Some bucket \<Rightarrow> bucket) @ [x]) (group_into key xs)"
  by (simp add: group_into_def)

lemma map_of_group_into:
  "map_of (group_into key xs) k = (if k \<in> key ` set xs then Some (filter (\<lambda>x. key x = k) xs) else None)"
proof (induction xs rule: rev_induct)
  case Nil
  then show ?case by (simp add: group_into_def)
next
  case (snoc x xs)
  have "filter (\<lambda>y. key y = k) xs = []" if "k \<notin> key ` set xs"
    using that by (auto simp: filter_empty_conv)
  then show ?case using snoc by (auto simp: group_into_snoc update_conv')
qed

lemma distinct_group_into: "distinct (map fst (group_into key xs))"
  by (induction xs rule: rev_induct) (simp_all add: group_into_snoc distinct_update, simp add: group_into_def)

lemma mem_group_into_iff:
  "(k, bucket) \<in> set (group_into key xs) \<longleftrightarrow> k \<in> key ` set xs \<and> bucket = filter (\<lambda>x. key x = k) xs"
proof -
  have "(k, bucket) \<in> set (group_into key xs) \<longleftrightarrow> map_of (group_into key xs) k = Some bucket"
    using map_of_eq_Some_iff [OF distinct_group_into] by metis
  then show ?thesis by (auto simp: map_of_group_into)
qed

lemma group_into_bucket:
  assumes "(k, bucket) \<in> set (group_into key xs)"
  shows "bucket = filter (\<lambda>x. key x = k) xs \<and> bucket \<noteq> []"
  using assms by (auto simp: mem_group_into_iff filter_empty_conv)

end
