(* ===== verification/Market_Consensus.thy ===== *)
theory Market_Consensus
  imports Js_Strings Js_Map
begin

text \<open>
  The market price the bots trust before they trade,
  \<open>bots/shared/src/monitoring/market-consensus.ts\<close>: observations are grouped by source,
  reduced to one persistent observation per source, and the medians of centralised and
  decentralised venues must agree. Reading a canonical block hash is an argument, a function of the block
  number that may throw.
\<close>

section \<open>Observations and estimates\<close>

definition BPS :: int where "BPS = 10000"

datatype MarketVenueKind = Cex | Dex

record MarketConsensusObservation =
  mo_assetId :: string
  mo_askDepthAttoEth :: int
  mo_bidDepthAttoEth :: int
  mo_blockHash :: "string option"
  mo_blockNumber :: "int option"
  mo_chainId :: int
  mo_kind :: MarketVenueKind
  mo_marketId :: "string option"
  mo_observationId :: string
  mo_observedAt :: int
  mo_priceRepPerEth :: int
  mo_sourceId :: string

record MarketConsensusSettings =
  ms_allowSingleGroupFallback :: bool
  ms_maximumGroupDeviationBps :: int
  ms_maximumObservationAgeMilliseconds :: int
  ms_maximumVenueDispersionBps :: int
  ms_minimumAskDepthAttoEthPerSource :: int
  ms_minimumBidDepthAttoEthPerSource :: int
  ms_minimumCexAskDepthAttoEth :: int
  ms_minimumCexBidDepthAttoEth :: int
  ms_minimumCexSourceCount :: int
  ms_minimumDexSourceCount :: int
  ms_minimumSourceObservationCount :: int
  ms_minimumSourceObservationSpanMilliseconds :: int
  ms_minimumTotalSourceCount :: int

record MarketGroupEstimate =
  mg_askDepthAttoEth :: int
  mg_bidDepthAttoEth :: int
  mg_kind :: MarketVenueKind
  mg_maximumPriceRepPerEth :: int
  mg_minimumPriceRepPerEth :: int
  mg_observations :: "MarketConsensusObservation list"
  mg_priceRepPerEth :: int
  mg_reliable :: bool
  mg_reasons :: "string list"

record MarketConsensusEstimate =
  me_assetId :: string
  me_cex :: MarketGroupEstimate
  me_chainId :: int
  me_dex :: MarketGroupEstimate
  me_priceRepPerEth :: "int option"
  me_reliable :: bool
  me_reasons :: "string list"
  me_sourceCount :: int

section \<open>Canonical blocks\<close>

definition requireCanonicalBlock :: "int \<Rightarrow> string \<Rightarrow> (int \<Rightarrow> string option result) \<Rightarrow> unit result" where
  "requireCanonicalBlock blockNumber expectedHash readCanonicalHash =
     bindR (readCanonicalHash blockNumber) (\<lambda>canonicalHash.
       if (case canonicalHash of None \<Rightarrow> True | Some hash \<Rightarrow> toLowerCase hash \<noteq> toLowerCase expectedHash)
       then throw ''Canonical block changed during market observation'' else ok ())"

definition discardDexMarketObservations :: "MarketConsensusObservation list \<Rightarrow> MarketConsensusObservation list" where
  "discardDexMarketObservations observations = filter (\<lambda>observation. mo_kind observation = Cex) observations"

definition marketObservationsForAsset ::
  "MarketConsensusObservation list \<Rightarrow> string \<Rightarrow> int \<Rightarrow> MarketConsensusObservation list" where
  "marketObservationsForAsset observations assetId chainId =
     filter (\<lambda>observation. mo_chainId observation = chainId \<and> toLowerCase (mo_assetId observation) = toLowerCase assetId)
       observations"

record 'c market_evidence =
  mv_marketConsensus :: "'c option"
  mv_marketConsensusByAsset :: "(string \<times> 'c) list option"
  mv_marketObservations :: "MarketConsensusObservation list option"

definition clear_evidence :: "'c market_evidence \<Rightarrow> 'c market_evidence" where
  "clear_evidence evidence =
     \<lparr>mv_marketConsensus = None,
      mv_marketConsensusByAsset = map_option (\<lambda>_. []) (mv_marketConsensusByAsset evidence),
      mv_marketObservations = Some (discardDexMarketObservations
        (case mv_marketObservations evidence of None \<Rightarrow> [] | Some observations \<Rightarrow> observations))\<rparr>"

text \<open>The answer (or the error of the read) with the evidence as it is left.\<close>

definition clearOrphanedDexEvidenceForHeadReplacement ::
  "string option \<Rightarrow> int option \<Rightarrow> string \<Rightarrow> int \<Rightarrow> 'c market_evidence \<Rightarrow> (int \<Rightarrow> string option result)
    \<Rightarrow> bool result \<times> 'c market_evidence" where
  "clearOrphanedDexEvidenceForHeadReplacement previousHash previousNumber currentHash currentNumber evidence readCanonicalHash =
     (case (previousNumber, previousHash) of
        (Some number, Some hash) \<Rightarrow>
          if currentNumber < number then (ok True, clear_evidence evidence)
          else
            (case (if number = currentNumber then ok (Some currentHash) else readCanonicalHash number) of
               Inl error \<Rightarrow> (Inl error, clear_evidence evidence)
             | Inr canonicalPreviousHash \<Rightarrow>
                 if (case canonicalPreviousHash of None \<Rightarrow> False | Some canonical \<Rightarrow> toLowerCase canonical = toLowerCase hash)
                 then (ok False, evidence)
                 else (ok True, clear_evidence evidence))
      | _ \<Rightarrow> (ok False, evidence))"

fun dex_identities :: "(int \<times> string) list \<Rightarrow> MarketConsensusObservation list \<Rightarrow> (int \<times> string) list result" where
  "dex_identities identities [] = ok identities"
| "dex_identities identities (observation # observations) =
     (case (mo_blockNumber observation, mo_blockHash observation) of
        (Some blockNumber, Some blockHash) \<Rightarrow>
          if (case map_of identities blockNumber of None \<Rightarrow> False | Some existing \<Rightarrow> toLowerCase existing \<noteq> toLowerCase blockHash)
          then throw ''DEX market evidence contains conflicting canonical block identities''
          else dex_identities (AList.update blockNumber blockHash identities) observations
      | _ \<Rightarrow> throw ''DEX market evidence is missing canonical block identity'')"

fun require_identities :: "(int \<Rightarrow> string option result) \<Rightarrow> (int \<times> string) list \<Rightarrow> unit result" where
  "require_identities readCanonicalHash [] = ok ()"
| "require_identities readCanonicalHash ((blockNumber, blockHash) # identities) =
     bindR (requireCanonicalBlock blockNumber blockHash readCanonicalHash) (\<lambda>_. require_identities readCanonicalHash identities)"

definition requireCanonicalDexEvidence :: "MarketConsensusEstimate option \<Rightarrow> (int \<Rightarrow> string option result) \<Rightarrow> unit result" where
  "requireCanonicalDexEvidence loaded readCanonicalHash =
     (case loaded of
        None \<Rightarrow> ok ()
      | Some estimate \<Rightarrow>
          if \<not> mg_reliable (me_dex estimate) then ok ()
          else bindR (dex_identities [] (mg_observations (me_dex estimate))) (require_identities readCanonicalHash))"

section \<open>One observation per source\<close>

definition median :: "int list \<Rightarrow> int option" where
  "median prices =
     (if prices = [] then None
      else
        let sorted = js_sort order_sign prices;
            middle = length sorted div 2;
            upper = sorted ! middle
        in if length sorted mod 2 = 1 then Some upper
        else Some ((sorted ! (middle - 1) + upper) sdiv 2))"

definition deviationBps :: "int \<Rightarrow> int \<Rightarrow> int" where
  "deviationBps left right =
     (if left \<le> 0 \<or> right \<le> 0 then BPS
      else let distance = (if left > right then left - right else right - left) in (distance * BPS) sdiv right)"

definition usable_observation :: "int \<Rightarrow> int \<Rightarrow> string option \<Rightarrow> string option \<Rightarrow> MarketConsensusObservation \<Rightarrow> bool" where
  "usable_observation now maximumAge excludedSourceId excludedMarketId observation \<longleftrightarrow>
     \<not> (mo_priceRepPerEth observation \<le> 0 \<or> mo_observedAt observation > now \<or> now - mo_observedAt observation > maximumAge) \<and>
     \<not> (case excludedSourceId of None \<Rightarrow> False
        | Some source \<Rightarrow> toLowerCase (mo_sourceId observation) = toLowerCase source) \<and>
     \<not> (case excludedMarketId of None \<Rightarrow> False
        | Some market \<Rightarrow> map_option toLowerCase (mo_marketId observation) = Some (toLowerCase market))"

definition latestIndependentSources ::
  "MarketConsensusObservation list \<Rightarrow> int \<Rightarrow> int \<Rightarrow> string option \<Rightarrow> string option
    \<Rightarrow> (string \<times> MarketConsensusObservation list) list" where
  "latestIndependentSources observations now maximumAge excludedSourceId excludedMarketId =
     group_into (\<lambda>observation. toLowerCase (mo_sourceId observation))
       (filter (usable_observation now maximumAge excludedSourceId excludedMarketId) observations)"

definition observation_depth :: "MarketConsensusObservation \<Rightarrow> int" where
  "observation_depth observation =
     (if mo_askDepthAttoEth observation < mo_bidDepthAttoEth observation
      then mo_askDepthAttoEth observation else mo_bidDepthAttoEth observation)"

definition canonicalObservation :: "MarketConsensusObservation list \<Rightarrow> MarketConsensusObservation option" where
  "canonicalObservation bucket =
     (let maximumDepth = foldl (\<lambda>maximum observation.
            if observation_depth observation > maximum then observation_depth observation else maximum) (- 1) bucket;
          strongest = filter (\<lambda>observation. observation_depth observation = maximumDepth) bucket;
          prices = mo_priceRepPerEth ` set strongest
      in case strongest of
        [] \<Rightarrow> None
      | canonical # _ \<Rightarrow>
          if card prices \<noteq> 1 then None
          else Some (canonical
            \<lparr>mo_askDepthAttoEth := foldl (\<lambda>minimum observation.
                if mo_askDepthAttoEth observation < minimum then mo_askDepthAttoEth observation else minimum)
                (mo_askDepthAttoEth canonical) strongest,
             mo_bidDepthAttoEth := foldl (\<lambda>minimum observation.
                if mo_bidDepthAttoEth observation < minimum then mo_bidDepthAttoEth observation else minimum)
                (mo_bidDepthAttoEth canonical) strongest\<rparr>))"

text \<open>The canonical observation of every bucket, or none when a bucket is ambiguous.\<close>

fun canonical_all :: "MarketConsensusObservation list list \<Rightarrow> MarketConsensusObservation list option" where
  "canonical_all [] = Some []"
| "canonical_all (bucket # buckets) =
     (case canonicalObservation bucket of
        None \<Rightarrow> None
      | Some canonical \<Rightarrow> map_option (\<lambda>rest. canonical # rest) (canonical_all buckets))"

definition compareObservedAt :: "MarketConsensusObservation \<Rightarrow> MarketConsensusObservation \<Rightarrow> int" where
  "compareObservedAt left right = mo_observedAt left - mo_observedAt right"

definition persistent_source :: "MarketConsensusSettings \<Rightarrow> MarketConsensusObservation list \<Rightarrow> MarketConsensusObservation option" where
  "persistent_source settings history =
     (case canonical_all (map snd (group_into mo_observationId history)) of
        None \<Rightarrow> None
      | Some identityTimeline \<Rightarrow>
      case canonical_all (map snd (group_into mo_observedAt identityTimeline)) of
        None \<Rightarrow> None
      | Some unsorted \<Rightarrow>
          let timeline = js_sort compareObservedAt unsorted in
          if timeline = [] then None
          else
            let selected = last timeline;
                persistentPriceRegime = rev (takeWhile (\<lambda>observation.
                  \<not> deviationBps (mo_priceRepPerEth observation) (mo_priceRepPerEth selected) > ms_maximumVenueDispersionBps settings)
                  (rev timeline))
            in case persistentPriceRegime of
              [] \<Rightarrow> None
            | first # _ \<Rightarrow>
                if int (length persistentPriceRegime) < ms_minimumSourceObservationCount settings
                  \<or> mo_observedAt selected - mo_observedAt first < ms_minimumSourceObservationSpanMilliseconds settings
                then None else Some selected)"

definition persistentLatestSources ::
  "MarketConsensusObservation list \<Rightarrow> MarketConsensusSettings \<Rightarrow> int \<Rightarrow> string option \<Rightarrow> string option
    \<Rightarrow> MarketConsensusObservation list" where
  "persistentLatestSources observations settings now excludedSourceId excludedMarketId =
     List.map_filter (\<lambda>(_, history). persistent_source settings history)
       (latestIndependentSources observations now (ms_maximumObservationAgeMilliseconds settings) excludedSourceId excludedMarketId)"

section \<open>Groups and consensus\<close>

fun kind_name :: "MarketVenueKind \<Rightarrow> string" where
  "kind_name Cex = ''CEX''"
| "kind_name Dex = ''DEX''"

definition group_reasons ::
  "MarketVenueKind \<Rightarrow> MarketConsensusObservation list \<Rightarrow> MarketConsensusSettings \<Rightarrow> int \<Rightarrow> int \<Rightarrow> int \<Rightarrow> int \<Rightarrow> int \<Rightarrow> int
    \<Rightarrow> string list" where
  "group_reasons kind observations settings minimumSources price minimumPrice maximumPrice bidDepth askDepth =
     (if int (length observations) < minimumSources
      then [''Only '' @ nat_digits (length observations) @ '' independent '' @ kind_name kind @ '' source(s); ''
            @ bigint_to_string minimumSources @ '' required''] else []) @
     (if price > 0 \<and> deviationBps maximumPrice minimumPrice > ms_maximumVenueDispersionBps settings
      then [kind_name kind @ '' venue dispersion exceeds the configured limit''] else []) @
     (if kind = Dex \<and> list_ex (\<lambda>observation. mo_bidDepthAttoEth observation < ms_minimumBidDepthAttoEthPerSource settings) observations
      then [''DEX bid depth is below the per-source minimum''] else []) @
     (if kind = Dex \<and> list_ex (\<lambda>observation. mo_askDepthAttoEth observation < ms_minimumAskDepthAttoEthPerSource settings) observations
      then [''DEX ask depth is below the per-source minimum''] else []) @
     (if kind = Cex \<and> bidDepth < ms_minimumCexBidDepthAttoEth settings
      then [''CEX bid depth is below the configured minimum''] else []) @
     (if kind = Cex \<and> askDepth < ms_minimumCexAskDepthAttoEth settings
      then [''CEX ask depth is below the configured minimum''] else [])"

definition groupEstimate ::
  "MarketVenueKind \<Rightarrow> MarketConsensusObservation list \<Rightarrow> MarketConsensusSettings \<Rightarrow> int \<Rightarrow> MarketGroupEstimate" where
  "groupEstimate kind observations settings minimumSources =
     (let prices = map mo_priceRepPerEth observations;
          price = (case median prices of None \<Rightarrow> 0 | Some p \<Rightarrow> p);
          start = (case prices of [] \<Rightarrow> 0 | p # _ \<Rightarrow> p);
          minimumPrice = foldl (\<lambda>minimum p. if p < minimum then p else minimum) start prices;
          maximumPrice = foldl (\<lambda>maximum p. if p > maximum then p else maximum) start prices;
          bidDepth = foldl (\<lambda>total observation. total + mo_bidDepthAttoEth observation) 0 observations;
          askDepth = foldl (\<lambda>total observation. total + mo_askDepthAttoEth observation) 0 observations;
          reasons = group_reasons kind observations settings minimumSources price minimumPrice maximumPrice bidDepth askDepth
      in \<lparr>mg_askDepthAttoEth = askDepth, mg_bidDepthAttoEth = bidDepth, mg_kind = kind,
          mg_maximumPriceRepPerEth = maximumPrice, mg_minimumPriceRepPerEth = minimumPrice,
          mg_observations = observations, mg_priceRepPerEth = price, mg_reliable = (reasons = []), mg_reasons = reasons\<rparr>)"

definition GROUPS_DISAGREE :: string where "GROUPS_DISAGREE = ''CEX and DEX consensus groups disagree''"
definition SOURCE_REUSED :: string where
  "SOURCE_REUSED = ''A failure-domain source ID is reused across CEX and DEX''"

definition lowerSourceId :: "MarketConsensusObservation \<Rightarrow> string" where
  "lowerSourceId observation = toLowerCase (mo_sourceId observation)"

text \<open>The price, its supporting observations, and the reason when two reliable groups disagree.\<close>

definition combineGroups ::
  "MarketConsensusSettings \<Rightarrow> MarketGroupEstimate \<Rightarrow> MarketGroupEstimate \<Rightarrow> int option \<times> MarketConsensusObservation list \<times> string list" where
  "combineGroups settings cex dex =
     (if mg_reliable cex \<and> mg_reliable dex then
        (if deviationBps (mg_priceRepPerEth cex) (mg_priceRepPerEth dex) > ms_maximumGroupDeviationBps settings
         then (None, [], [GROUPS_DISAGREE])
         else (median [mg_priceRepPerEth cex, mg_priceRepPerEth dex], mg_observations cex @ mg_observations dex, []))
      else if ms_allowSingleGroupFallback settings \<and> mg_reliable cex then
        (Some (mg_priceRepPerEth cex), mg_observations cex, [])
      else if ms_allowSingleGroupFallback settings \<and> mg_reliable dex then
        (Some (mg_priceRepPerEth dex), mg_observations dex, [])
      else (None, [], []))"

definition estimateMarketConsensus ::
  "MarketConsensusObservation list \<Rightarrow> MarketConsensusSettings \<Rightarrow> string \<Rightarrow> int \<Rightarrow> int \<Rightarrow> string option \<Rightarrow> string option
    \<Rightarrow> MarketConsensusEstimate result" where
  "estimateMarketConsensus observations settings assetId chainId now excludedDexSourceId excludedDexMarketId =
     (if list_ex (\<lambda>observation. toLowerCase (mo_assetId observation) \<noteq> toLowerCase assetId \<or> mo_chainId observation \<noteq> chainId)
           observations
      then throw ''Market consensus observations must describe one exact REP asset and chain''
      else
        let cex = groupEstimate Cex
              (persistentLatestSources (filter (\<lambda>observation. mo_kind observation = Cex) observations) settings now None None)
              settings (ms_minimumCexSourceCount settings);
            dex = groupEstimate Dex
              (persistentLatestSources (filter (\<lambda>observation. mo_kind observation = Dex) observations) settings now
                excludedDexSourceId excludedDexMarketId)
              settings (ms_minimumDexSourceCount settings);
            (price, supportingObservations, disagreement) = combineGroups settings cex dex;
            cexSourceIds = set (map lowerSourceId (mg_observations cex));
            reused = list_ex (\<lambda>observation. lowerSourceId observation \<in> cexSourceIds) (mg_observations dex);
            sourceCount = int (card (set (map lowerSourceId supportingObservations)));
            reasons = mg_reasons cex @ mg_reasons dex @ disagreement @ (if reused then [SOURCE_REUSED] else []) @
              (if sourceCount < ms_minimumTotalSourceCount settings
               then [''Only '' @ bigint_to_string sourceCount @ '' total independent sources; ''
                     @ bigint_to_string (ms_minimumTotalSourceCount settings) @ '' required''] else [])
        in ok \<lparr>me_assetId = assetId, me_cex = cex, me_chainId = chainId, me_dex = dex, me_priceRepPerEth = price,
               me_reliable = (price \<noteq> None \<and> sourceCount \<ge> ms_minimumTotalSourceCount settings
                 \<and> GROUPS_DISAGREE \<notin> set reasons \<and> SOURCE_REUSED \<notin> set reasons),
               me_reasons = reasons, me_sourceCount = sourceCount\<rparr>)"

definition consensusAllowsCandidate :: "int \<Rightarrow> MarketConsensusEstimate \<Rightarrow> int \<Rightarrow> bool" where
  "consensusAllowsCandidate candidatePriceRepPerEth estimate maximumDeviationBps =
     (if \<not> me_reliable estimate \<or> me_priceRepPerEth estimate = None \<or> candidatePriceRepPerEth \<le> 0 then False
      else deviationBps candidatePriceRepPerEth (the (me_priceRepPerEth estimate)) \<le> maximumDeviationBps)"

record ExecutionSettings =
  xs_maximumDeviationBps :: int
  xs_maximumObservationAgeMilliseconds :: int
  xs_requiredForExecution :: bool

definition supporting_observations :: "MarketConsensusEstimate \<Rightarrow> MarketConsensusObservation list" where
  "supporting_observations estimate =
     (if mg_reliable (me_cex estimate) then mg_observations (me_cex estimate) else []) @
     (if mg_reliable (me_dex estimate) then mg_observations (me_dex estimate) else [])"

definition marketConsensusAllowsExecution ::
  "int \<Rightarrow> MarketConsensusEstimate option \<Rightarrow> ExecutionSettings \<Rightarrow> string \<Rightarrow> int \<Rightarrow> int \<Rightarrow> bool" where
  "marketConsensusAllowsExecution candidatePriceRepPerEth loaded settings assetId chainId now =
     (let supportingObservations = (case loaded of None \<Rightarrow> [] | Some estimate \<Rightarrow> supporting_observations estimate);
          fresh = (supportingObservations \<noteq> [] \<and> list_all (\<lambda>observation. mo_observedAt observation \<le> now
            \<and> now - mo_observedAt observation \<le> xs_maximumObservationAgeMilliseconds settings) supportingObservations)
      in case loaded of
        None \<Rightarrow> \<not> xs_requiredForExecution settings
      | Some estimate \<Rightarrow>
          if toLowerCase (me_assetId estimate) \<noteq> toLowerCase assetId \<or> me_chainId estimate \<noteq> chainId
            \<or> \<not> me_reliable estimate \<or> \<not> fresh
          then \<not> xs_requiredForExecution settings
          else consensusAllowsCandidate candidatePriceRepPerEth estimate (xs_maximumDeviationBps settings))"

definition marketConsensusDeviationBps :: "int \<Rightarrow> MarketConsensusEstimate option \<Rightarrow> string \<Rightarrow> int option" where
  "marketConsensusDeviationBps candidatePriceRepPerEth loaded assetId =
     (case loaded of
        None \<Rightarrow> None
      | Some estimate \<Rightarrow>
          if toLowerCase (me_assetId estimate) \<noteq> toLowerCase assetId \<or> candidatePriceRepPerEth \<le> 0 then None
          else map_option (deviationBps candidatePriceRepPerEth) (me_priceRepPerEth estimate))"

section \<open>The median\<close>

interpretation ascending: comparator "order_sign :: int \<Rightarrow> int \<Rightarrow> int"
  by (rule comparator_by_key [of _ id]) simp

lemma sorted_prices: "sorted (js_sort order_sign (prices :: int list))"
  using ascending.sorted_js_sort [of prices] by (simp add: sorted_wrt_iff_nth_less sorted_iff_nth_mono_less)

lemma sort_order_independent: "mset xs = mset ys \<Longrightarrow> js_sort order_sign xs = js_sort order_sign (ys :: int list)"
  using sorted_prices by (metis mset_js_sort properties_for_sort)

lemma average_between:
  fixes a b :: int
  assumes "a \<le> b"
  shows "a \<le> (a + b) sdiv 2" and "(a + b) sdiv 2 \<le> b"
  using assms by (cases "0 \<le> a + b"; auto simp: sdiv_nonneg sdiv_neg_num)+

text \<open>In a sorted list, an index that splits the list near the middle holds a value of every majority interval.\<close>

lemma majority_index:
  fixes s :: "int list"
  assumes "sorted s" and i: "i < length s" "2 * i \<le> length s" "length s \<le> 2 * Suc i"
    and majority: "length s < 2 * length (filter (\<lambda>p. lo \<le> p \<and> p \<le> hi) s)"
  shows "lo \<le> s ! i" and "s ! i \<le> hi"
proof -
  let ?inside = "{j. j < length s \<and> lo \<le> s ! j \<and> s ! j \<le> hi}"
  have count: "length s < 2 * card ?inside" using majority by (simp add: length_filter_conv_card)
  show "lo \<le> s ! i"
  proof (rule ccontr)
    assume "\<not> lo \<le> s ! i"
    then have "?inside \<subseteq> {Suc i..<length s}"
      using sorted_nth_mono [OF assms(1)] i(1) by (auto simp: not_less_eq_eq [symmetric]) (meson le_less_trans not_le order_less_le_trans)
    then have "card ?inside \<le> length s - Suc i" using card_mono [of "{Suc i..<length s}"] by simp
    then have "2 * card ?inside \<le> 2 * (length s - Suc i)" by simp
    moreover have "2 * (length s - Suc i) \<le> length s" using i by simp
    ultimately show False using count by linarith
  qed
  show "s ! i \<le> hi"
  proof (rule ccontr)
    assume "\<not> s ! i \<le> hi"
    then have "?inside \<subseteq> {..<i}"
      using sorted_nth_mono [OF assms(1)] by (auto simp: not_le) (meson not_le order_trans)
    then have "card ?inside \<le> i" using card_mono [of "{..<i}"] by simp
    then show False using count i by linarith
  qed
qed

lemma median_majority:
  assumes "length prices < 2 * length (filter (\<lambda>p. lo \<le> p \<and> p \<le> hi) prices)"
  shows "\<exists>m. median prices = Some m \<and> lo \<le> m \<and> m \<le> hi"
proof -
  define s where "s = js_sort order_sign prices"
  have sorted: "sorted s" and len: "length s = length prices" by (simp_all add: s_def sorted_prices)
  have "mset (filter (\<lambda>p. lo \<le> p \<and> p \<le> hi) s) = mset (filter (\<lambda>p. lo \<le> p \<and> p \<le> hi) prices)"
    by (simp add: s_def mset_filter)
  then have "length (filter (\<lambda>p. lo \<le> p \<and> p \<le> hi) s) = length (filter (\<lambda>p. lo \<le> p \<and> p \<le> hi) prices)"
    by (rule mset_eq_length)
  then have majority: "length s < 2 * length (filter (\<lambda>p. lo \<le> p \<and> p \<le> hi) s)" using assms len by simp
  have nonempty: "prices \<noteq> []" using assms by auto
  then have middle: "length s div 2 < length s" using len by (cases prices) auto
  note index = majority_index [OF sorted _ _ _ majority]
  show ?thesis
  proof (cases "length s mod 2 = 1")
    case True
    then have "2 * (length s div 2) + 1 = length s" by presburger
    then show ?thesis using index [of "length s div 2"] nonempty True middle by (simp add: median_def Let_def flip: s_def)
  next
    case False
    then have even: "2 * (length s div 2) = length s" by presburger
    then have positive: "0 < length s div 2" using nonempty len by (cases prices) auto
    have upper: "lo \<le> s ! (length s div 2)" "s ! (length s div 2) \<le> hi"
      using index [of "length s div 2"] even middle by simp_all
    have lower: "lo \<le> s ! (length s div 2 - 1)" "s ! (length s div 2 - 1) \<le> hi"
      using index [of "length s div 2 - 1"] even middle positive by simp_all
    have "s ! (length s div 2 - 1) \<le> s ! (length s div 2)" using sorted_nth_mono [OF sorted] middle by simp
    then show ?thesis
      using average_between [of "s ! (length s div 2 - 1)" "s ! (length s div 2)"] upper lower nonempty False
      by (simp add: median_def Let_def flip: s_def)
  qed
qed

lemma group_price: "mg_priceRepPerEth (groupEstimate kind observations settings n) =
    (case median (map mo_priceRepPerEth observations) of None \<Rightarrow> 0 | Some p \<Rightarrow> p)"
  and group_observations: "mg_observations (groupEstimate kind observations settings n) = observations"
  and group_kind: "mg_kind (groupEstimate kind observations settings n) = kind"
  by (simp_all add: groupEstimate_def Let_def)

text \<open>
  C39: A minority of venues cannot move a group's price. The price of a group depends only on which
  prices its sources report, not on their order, and when more than half of the sources report
  prices within an interval, the group's price is in that interval.
\<close>

theorem group_price_follows_majority:
  assumes "length observations < 2 * length (filter (\<lambda>o'. lo \<le> mo_priceRepPerEth o' \<and> mo_priceRepPerEth o' \<le> hi) observations)"
    and "mset (map mo_priceRepPerEth permuted) = mset (map mo_priceRepPerEth observations)"
  shows "lo \<le> mg_priceRepPerEth (groupEstimate kind observations settings minimumSources) \<and>
    mg_priceRepPerEth (groupEstimate kind observations settings minimumSources) \<le> hi \<and>
    mg_priceRepPerEth (groupEstimate kind permuted settings minimumSources) =
      mg_priceRepPerEth (groupEstimate kind observations settings minimumSources)"
proof -
  have "length (map mo_priceRepPerEth observations) <
      2 * length (filter (\<lambda>p. lo \<le> p \<and> p \<le> hi) (map mo_priceRepPerEth observations))"
    using assms(1) by (simp add: filter_map comp_def)
  then obtain m where "median (map mo_priceRepPerEth observations) = Some m" "lo \<le> m" "m \<le> hi"
    using median_majority by blast
  moreover have "median (map mo_priceRepPerEth permuted) = median (map mo_priceRepPerEth observations)"
    using sort_order_independent [OF assms(2)] mset_eq_length [OF assms(2)] by (auto simp: median_def)
  ultimately show ?thesis by (simp add: group_price)
qed

section \<open>Selected observations\<close>

text \<open>An observation is traced to another when all but its depths agree.\<close>

definition traced :: "MarketConsensusObservation \<Rightarrow> MarketConsensusObservation \<Rightarrow> bool" where
  "traced a b \<longleftrightarrow> mo_priceRepPerEth a = mo_priceRepPerEth b \<and> mo_observedAt a = mo_observedAt b \<and>
     mo_sourceId a = mo_sourceId b \<and> mo_kind a = mo_kind b \<and> mo_assetId a = mo_assetId b \<and> mo_chainId a = mo_chainId b \<and>
     mo_marketId a = mo_marketId b \<and> mo_blockHash a = mo_blockHash b \<and> mo_blockNumber a = mo_blockNumber b"

lemma traced_trans: "traced a b \<Longrightarrow> traced b c \<Longrightarrow> traced a c"
  by (simp add: traced_def)

lemma canonical_traced:
  assumes "canonicalObservation bucket = Some canonical"
  shows "\<exists>o' \<in> set bucket. traced canonical o'"
proof -
  define depth where "depth = foldl (\<lambda>maximum observation.
    if observation_depth observation > maximum then observation_depth observation else maximum) (- 1) bucket"
  obtain strongest rest where strongest: "filter (\<lambda>observation. observation_depth observation = depth) bucket = strongest # rest"
    and canonical: "\<exists>ask bid. canonical = strongest \<lparr>mo_askDepthAttoEth := ask, mo_bidDepthAttoEth := bid\<rparr>"
    using assms unfolding canonicalObservation_def Let_def depth_def [symmetric] by (auto split: list.splits if_splits)
  have "strongest \<in> set (filter (\<lambda>observation. observation_depth observation = depth) bucket)" unfolding strongest by simp
  then show ?thesis using canonical by (intro bexI [of _ strongest]) (auto simp: traced_def)
qed

lemma canonical_all_traced:
  "canonical_all buckets = Some timeline \<Longrightarrow> a \<in> set timeline \<Longrightarrow> \<exists>bucket \<in> set buckets. \<exists>o' \<in> set bucket. traced a o'"
  by (induction buckets arbitrary: timeline) (auto split: option.splits dest!: canonical_traced)

lemma grouped_member: "bucket \<in> set (map snd (group_into key xs)) \<Longrightarrow> x \<in> set bucket \<Longrightarrow> x \<in> set xs"
  by (auto dest: group_into_bucket)

lemma persistent_traced:
  assumes "persistent_source settings history = Some selected"
  shows "\<exists>o' \<in> set history. traced selected o'"
proof -
  obtain identityTimeline unsorted where
    timelines: "canonical_all (map snd (group_into mo_observationId history)) = Some identityTimeline"
      "canonical_all (map snd (group_into mo_observedAt identityTimeline)) = Some unsorted"
    and selected: "js_sort compareObservedAt unsorted \<noteq> []" "selected = last (js_sort compareObservedAt unsorted)"
    using assms by (auto simp: persistent_source_def Let_def split: option.splits if_splits list.splits)
  have "selected \<in> set unsorted" using selected last_in_set by (metis set_js_sort)
  then obtain b o1 where "b \<in> set (map snd (group_into mo_observedAt identityTimeline))" "o1 \<in> set b" "traced selected o1"
    using canonical_all_traced [OF timelines(2)] by blast
  then have "o1 \<in> set identityTimeline" using grouped_member by metis
  then obtain b' o2 where "b' \<in> set (map snd (group_into mo_observationId history))" "o2 \<in> set b'" "traced o1 o2"
    using canonical_all_traced [OF timelines(1)] by blast
  then show ?thesis using \<open>traced selected o1\<close> traced_trans grouped_member by metis
qed

text \<open>The selection has one observation of each source, traced to a usable one of the input.\<close>

lemma persistent_sources:
  defines "selection observations settings now source market \<equiv> persistentLatestSources observations settings now source market"
  shows "distinct (map lowerSourceId (selection observations settings now source market))"
    and "o' \<in> set (selection observations settings now source market) \<Longrightarrow> \<exists>origin \<in> set observations. traced o' origin \<and>
      usable_observation now (ms_maximumObservationAgeMilliseconds settings) source market origin"
proof -
  let ?usable = "filter (usable_observation now (ms_maximumObservationAgeMilliseconds settings) source market) observations"
  define buckets where "buckets = group_into lowerSourceId ?usable"
  have latest: "latestIndependentSources observations now (ms_maximumObservationAgeMilliseconds settings) source market = buckets"
    unfolding latestIndependentSources_def buckets_def by (simp add: lowerSourceId_def [abs_def])
  have selection: "selection observations settings now source market =
      List.map_filter (\<lambda>(_, history). persistent_source settings history) buckets"
    by (simp add: selection_def persistentLatestSources_def latest)
  have picked: "\<exists>origin \<in> set ?usable. traced x origin \<and> lowerSourceId x = k"
    if "(k, history) \<in> set buckets" "persistent_source settings history = Some x" for k history x
  proof -
    note source = persistent_traced [OF that(2)]
    obtain origin where origin: "origin \<in> set history" "traced x origin" using source by blast
    have "history = filter (\<lambda>x. lowerSourceId x = k) ?usable"
      using group_into_bucket [OF that(1) [unfolded buckets_def]] by (rule conjunct1)
    then have "origin \<in> set ?usable" "lowerSourceId origin = k" using origin(1) by simp_all
    then show ?thesis using origin(2) by (intro bexI [of _ origin]) (simp_all add: traced_def lowerSourceId_def)
  qed
  have "distinct (map lowerSourceId (List.map_filter (\<lambda>(_, history). persistent_source settings history) bs)) \<and>
      lowerSourceId ` set (List.map_filter (\<lambda>(_, history). persistent_source settings history) bs) \<subseteq> fst ` set bs"
    if "set bs \<subseteq> set buckets" "distinct (map fst bs)" for bs
    using that
  proof (induction bs)
    case Nil
    then show ?case by simp
  next
    case (Cons b bs)
    obtain k history where b: "b = (k, history)" by (cases b)
    have fresh: "k \<notin> fst ` set bs" using Cons.prems(2) b by simp
    have rest: "distinct (map lowerSourceId (List.map_filter (\<lambda>(_, history). persistent_source settings history) bs))"
      "lowerSourceId ` set (List.map_filter (\<lambda>(_, history). persistent_source settings history) bs) \<subseteq> fst ` set bs"
      using Cons by simp_all
    show ?case
    proof (cases "persistent_source settings history")
      case None
      then show ?thesis using rest b by (auto simp: map_filter_simps)
    next
      case (Some x)
      have "lowerSourceId x = k" using picked [OF _ Some, of k] Cons.prems(1) b by auto
      then show ?thesis using rest b fresh Some by (auto simp: map_filter_simps)
    qed
  qed
  then show "distinct (map lowerSourceId (selection observations settings now source market))"
    unfolding selection using distinct_group_into by (auto simp: buckets_def)
  show "\<exists>origin \<in> set observations. traced o' origin \<and>
      usable_observation now (ms_maximumObservationAgeMilliseconds settings) source market origin"
    if "o' \<in> set (selection observations settings now source market)"
  proof -
    have "\<exists>k history. (k, history) \<in> set buckets \<and> persistent_source settings history = Some o'"
      using that unfolding selection by (auto simp: map_filter_def) blast
    then obtain k history where "(k, history) \<in> set buckets" "persistent_source settings history = Some o'"
      by blast
    then show ?thesis using picked by fastforce
  qed
qed

section \<open>What a reliable estimate rests on\<close>

lemma foldl_min_le: "p = start \<or> p \<in> set ps \<Longrightarrow> foldl (\<lambda>minimum p. if p < minimum then p else minimum) start ps \<le> (p :: int)"
proof (induction ps arbitrary: start p)
  case (Cons q ps)
  define s where "s = (if q < start then q else start)"
  have "foldl (\<lambda>minimum p. if p < minimum then p else minimum) s ps \<le> (if p \<in> set ps then p else s)"
    by (rule Cons.IH) simp
  moreover have "(if p \<in> set ps then p else s) \<le> p" using Cons.prems by (auto simp: s_def)
  ultimately show ?case by (simp add: s_def)
qed simp

lemma foldl_max_ge: "p = start \<or> p \<in> set ps \<Longrightarrow> (p :: int) \<le> foldl (\<lambda>maximum p. if p > maximum then p else maximum) start ps"
proof (induction ps arbitrary: start p)
  case (Cons q ps)
  define s where "s = (if q > start then q else start)"
  have "(if p \<in> set ps then p else s) \<le> foldl (\<lambda>maximum p. if p > maximum then p else maximum) s ps"
    by (rule Cons.IH) simp
  moreover have "p \<le> (if p \<in> set ps then p else s)" using Cons.prems by (auto simp: s_def)
  ultimately show ?case by (simp add: s_def)
qed simp

lemma group_price_range:
  "o' \<in> set observations \<Longrightarrow> mg_minimumPriceRepPerEth (groupEstimate kind observations settings n) \<le> mo_priceRepPerEth o' \<and>
     mo_priceRepPerEth o' \<le> mg_maximumPriceRepPerEth (groupEstimate kind observations settings n)"
  using foldl_min_le [of "mo_priceRepPerEth o'" _ "map mo_priceRepPerEth observations"]
    foldl_max_ge [of "mo_priceRepPerEth o'" _ "map mo_priceRepPerEth observations"]
  by (simp add: groupEstimate_def Let_def)

lemma median_within:
  assumes "prices \<noteq> []"
  shows "\<exists>m. median prices = Some m \<and> (\<exists>low \<in> set prices. low \<le> m) \<and> (\<exists>high \<in> set prices. m \<le> high)"
proof -
  have "filter (\<lambda>p. Min (set prices) \<le> p \<and> p \<le> Max (set prices)) prices = prices"
    by (rule filter_True) simp
  then obtain m where "median prices = Some m" "Min (set prices) \<le> m" "m \<le> Max (set prices)"
    using assms median_majority [of prices "Min (set prices)" "Max (set prices)"] by auto
  then show ?thesis using assms Min_in [of "set prices"] Max_in [of "set prices"] by auto
qed

lemma group_price_within:
  assumes "observations \<noteq> []"
  shows "(\<exists>o' \<in> set observations. mo_priceRepPerEth o' \<le> mg_priceRepPerEth (groupEstimate kind observations settings n)) \<and>
    (\<exists>o' \<in> set observations. mg_priceRepPerEth (groupEstimate kind observations settings n) \<le> mo_priceRepPerEth o')"
  using median_within [of "map mo_priceRepPerEth observations"] assms by (auto simp: group_price)

text \<open>A reliable group has its number of sources, and its prices lie within the dispersion limit.\<close>

lemma reliable_group:
  assumes "mg_reliable (groupEstimate kind observations settings n)"
    and positive: "\<And>o'. o' \<in> set observations \<Longrightarrow> 0 < mo_priceRepPerEth o'" and "1 \<le> n"
  shows "n \<le> int (length observations)" and "observations \<noteq> []"
    and "deviationBps (mg_maximumPriceRepPerEth (groupEstimate kind observations settings n))
      (mg_minimumPriceRepPerEth (groupEstimate kind observations settings n)) \<le> ms_maximumVenueDispersionBps settings"
    and "0 < mg_priceRepPerEth (groupEstimate kind observations settings n)"
proof -
  have count: "\<not> int (length observations) < n"
    using assms(1) by (simp add: groupEstimate_def Let_def group_reasons_def split: if_splits)
  then show "n \<le> int (length observations)" by simp
  show nonempty: "observations \<noteq> []" using count assms(3) by auto
  show price: "0 < mg_priceRepPerEth (groupEstimate kind observations settings n)"
    using group_price_within [OF nonempty, of kind settings n] positive by fastforce
  show "deviationBps (mg_maximumPriceRepPerEth (groupEstimate kind observations settings n))
      (mg_minimumPriceRepPerEth (groupEstimate kind observations settings n)) \<le> ms_maximumVenueDispersionBps settings"
    using assms(1) price by (simp add: groupEstimate_def Let_def group_reasons_def split: if_splits)
qed

lemma check_ok: "(if b then Inl e else m) = Inr y \<Longrightarrow> m = Inr y"
  by (auto split: if_splits)

text \<open>
  C4: What a reliable consensus rests on. When every group needs at least one source, a
  reliable estimate has a price, and its supporting observations, those of the reliable groups, come
  from pairwise different sources, at least the configured total of them; each is one of
  the given observations but for its depths: of the right kind, positively priced, neither in the future nor too
  old, and, if decentralised, not from the excluded source. Some of them are priced at or below
  the consensus and some at or above it; and when both groups are reliable their prices deviate by no more than
  the configured maximum.
\<close>

theorem reliable_consensus_supported:
  assumes estimated: "estimateMarketConsensus observations settings assetId chainId now source market = ok estimate"
    and reliable: "me_reliable estimate"
    and minimum: "1 \<le> ms_minimumCexSourceCount settings" "1 \<le> ms_minimumDexSourceCount settings"
  shows "case me_priceRepPerEth estimate of None \<Rightarrow> False | Some price \<Rightarrow>
    (let supporting = supporting_observations estimate in
      (\<exists>o' \<in> set supporting. mo_priceRepPerEth o' \<le> price) \<and> (\<exists>o' \<in> set supporting. price \<le> mo_priceRepPerEth o') \<and>
      distinct (map lowerSourceId supporting) \<and> ms_minimumTotalSourceCount settings \<le> int (length supporting) \<and>
      (\<forall>o' \<in> set supporting. \<exists>origin \<in> set observations. traced o' origin \<and>
        toLowerCase (mo_assetId origin) = toLowerCase assetId \<and> mo_chainId origin = chainId \<and>
        usable_observation now (ms_maximumObservationAgeMilliseconds settings)
          (if mo_kind origin = Dex then source else None) (if mo_kind origin = Dex then market else None) origin) \<and>
      (mg_reliable (me_cex estimate) \<and> mg_reliable (me_dex estimate) \<longrightarrow>
        deviationBps (mg_priceRepPerEth (me_cex estimate)) (mg_priceRepPerEth (me_dex estimate)) \<le> ms_maximumGroupDeviationBps settings))"
proof -
  define cexObs where "cexObs = persistentLatestSources (filter (\<lambda>o'. mo_kind o' = Cex) observations) settings now None None"
  define dexObs where "dexObs = persistentLatestSources (filter (\<lambda>o'. mo_kind o' = Dex) observations) settings now source market"
  define cex where "cex = groupEstimate Cex cexObs settings (ms_minimumCexSourceCount settings)"
  define dex where "dex = groupEstimate Dex dexObs settings (ms_minimumDexSourceCount settings)"
  have obs: "mg_observations cex = cexObs" "mg_observations dex = dexObs" by (simp_all add: cex_def dex_def group_observations)
  note estimate = estimated [unfolded estimateMarketConsensus_def, folded cexObs_def dexObs_def, folded cex_def dex_def]
  have asset: "toLowerCase (mo_assetId o') = toLowerCase assetId \<and> mo_chainId o' = chainId" if "o' \<in> set observations" for o'
    using estimate that by (auto simp: list_ex_iff split: if_splits)
  obtain price S disagreement where combined: "combineGroups settings cex dex = (price, S, disagreement)"
    by (rule prod_cases3)
  note triple = combined [unfolded combineGroups_def]
  note record_of = check_ok [OF estimate [unfolded Let_def, unfolded combined prod.case, unfolded obs], unfolded sum.inject, symmetric]
  have fields: "me_cex estimate = cex" "me_dex estimate = dex" "me_priceRepPerEth estimate = price"
    unfolding record_of by (simp_all only: MarketConsensusEstimate.simps)
  note checks = reliable [unfolded record_of MarketConsensusEstimate.simps]
  have price_known: "price \<noteq> None" and enough: "ms_minimumTotalSourceCount settings \<le> int (card (set (map lowerSourceId S)))"
    using checks by blast+
  have apart: "\<not> list_ex (\<lambda>o'. lowerSourceId o' \<in> set (map lowerSourceId cexObs)) dexObs"
  proof
    assume "list_ex (\<lambda>o'. lowerSourceId o' \<in> set (map lowerSourceId cexObs)) dexObs"
    with checks show False by (simp only: if_True set_append list.set Un_iff insert_iff simp_thms)
  qed
  then have apart: "lowerSourceId a \<noteq> lowerSourceId b" if "a \<in> set cexObs" "b \<in> set dexObs" for a b
    using that unfolding list_ex_iff by (metis image_eqI image_set)
  have S: "S = supporting_observations estimate"
    and deviation: "mg_reliable cex \<Longrightarrow> mg_reliable dex \<Longrightarrow>
      deviationBps (mg_priceRepPerEth cex) (mg_priceRepPerEth dex) \<le> ms_maximumGroupDeviationBps settings"
    and some_reliable: "mg_reliable cex \<or> mg_reliable dex"
    using triple price_known by (auto simp: supporting_observations_def fields obs split: if_splits)
  have origins: "\<exists>origin \<in> set observations. traced o' origin \<and> mo_kind origin = Cex \<and>
      usable_observation now (ms_maximumObservationAgeMilliseconds settings) None None origin" if "o' \<in> set cexObs" for o'
    using persistent_sources(2) [of o' "filter (\<lambda>o'. mo_kind o' = Cex) observations" settings now None None] that
    by (auto simp: cexObs_def)
  have dex_origins: "\<exists>origin \<in> set observations. traced o' origin \<and> mo_kind origin = Dex \<and>
      usable_observation now (ms_maximumObservationAgeMilliseconds settings) source market origin" if "o' \<in> set dexObs" for o'
    using persistent_sources(2) [of o' "filter (\<lambda>o'. mo_kind o' = Dex) observations" settings now source market] that
    by (auto simp: dexObs_def)
  have positive: "0 < mo_priceRepPerEth o'" if "o' \<in> set cexObs \<or> o' \<in> set dexObs" for o'
    using that origins [of o'] dex_origins [of o'] by (auto simp: traced_def usable_observation_def)
  have members: "set (supporting_observations estimate) \<subseteq> set cexObs \<union> set dexObs"
    by (auto simp: supporting_observations_def fields obs)
  have "distinct (map lowerSourceId cexObs)" "distinct (map lowerSourceId dexObs)"
    unfolding cexObs_def dexObs_def by (rule persistent_sources(1))+
  then have distinct: "distinct (map lowerSourceId (supporting_observations estimate))"
    using apart by (auto simp: supporting_observations_def fields obs)
  have count: "ms_minimumTotalSourceCount settings \<le> int (length (supporting_observations estimate))"
    using enough distinct_card [OF distinct] unfolding S by simp
  have nonempty: "mg_reliable cex \<Longrightarrow> cexObs \<noteq> []" "mg_reliable dex \<Longrightarrow> dexObs \<noteq> []"
    using reliable_group(2) [of Cex cexObs settings "ms_minimumCexSourceCount settings"]
      reliable_group(2) [of Dex dexObs settings "ms_minimumDexSourceCount settings"] positive minimum
    by (simp_all add: cex_def dex_def)
  note within = group_price_within [of cexObs Cex settings "ms_minimumCexSourceCount settings", folded cex_def]
    group_price_within [of dexObs Dex settings "ms_minimumDexSourceCount settings", folded dex_def]
  obtain p where price: "price = Some p" using price_known by auto
  have "(\<exists>o' \<in> set (supporting_observations estimate). mo_priceRepPerEth o' \<le> p) \<and>
      (\<exists>o' \<in> set (supporting_observations estimate). p \<le> mo_priceRepPerEth o')"
  proof (cases "mg_reliable cex \<and> mg_reliable dex")
    case True
    obtain m where "median [mg_priceRepPerEth cex, mg_priceRepPerEth dex] = Some m"
      "mg_priceRepPerEth cex \<le> m \<or> mg_priceRepPerEth dex \<le> m" "m \<le> mg_priceRepPerEth cex \<or> m \<le> mg_priceRepPerEth dex"
      using median_within [of "[mg_priceRepPerEth cex, mg_priceRepPerEth dex]"] by auto
    moreover have "p = m" if "median [mg_priceRepPerEth cex, mg_priceRepPerEth dex] = Some m" for m
      using True triple price that by (auto split: if_splits)
    ultimately have "mg_priceRepPerEth cex \<le> p \<or> mg_priceRepPerEth dex \<le> p" "p \<le> mg_priceRepPerEth cex \<or> p \<le> mg_priceRepPerEth dex"
      by auto
    moreover have "supporting_observations estimate = cexObs @ dexObs"
      using True by (simp add: supporting_observations_def fields obs)
    ultimately show ?thesis
      using within(1) [OF nonempty(1)] within(2) [OF nonempty(2)] True by (auto intro: order_trans)
  next
    case False
    then show ?thesis
      using some_reliable triple price within(1) [OF nonempty(1)] within(2) [OF nonempty(2)]
      by (auto simp: supporting_observations_def fields obs split: if_splits)
  qed
  moreover have "\<exists>origin \<in> set observations. traced o' origin \<and>
        toLowerCase (mo_assetId origin) = toLowerCase assetId \<and> mo_chainId origin = chainId \<and>
        usable_observation now (ms_maximumObservationAgeMilliseconds settings)
          (if mo_kind origin = Dex then source else None) (if mo_kind origin = Dex then market else None) origin"
    if "o' \<in> set (supporting_observations estimate)" for o'
  proof -
    from that members consider "o' \<in> set cexObs" | "o' \<in> set dexObs" by blast
    then show ?thesis
    proof cases
      case 1
      then obtain origin where "origin \<in> set observations" "traced o' origin" "mo_kind origin = Cex"
          "usable_observation now (ms_maximumObservationAgeMilliseconds settings) None None origin"
        using origins by blast
      then show ?thesis using asset by (intro bexI [of _ origin]) simp_all
    next
      case 2
      then obtain origin where "origin \<in> set observations" "traced o' origin" "mo_kind origin = Dex"
          "usable_observation now (ms_maximumObservationAgeMilliseconds settings) source market origin"
        using dex_origins by blast
      then show ?thesis using asset by (intro bexI [of _ origin]) simp_all
    qed
  qed
  ultimately show ?thesis
    using distinct count deviation unfolding fields price Let_def option.case by blast
qed

section \<open>Acting on the consensus\<close>

text \<open>
  Execution that requires a consensus happens only near it. With the requirement on and a
  deviation limit below 100 percent, an allowed candidate price is positive and within the limit of the
  price of a reliable estimate for the same asset and chain, whose supporting observations are
  all fresh now.
\<close>

lemma execution_needs_consensus:
  assumes allowed: "marketConsensusAllowsExecution candidate loaded settings assetId chainId now"
    and "xs_requiredForExecution settings" and "xs_maximumDeviationBps settings < BPS"
  shows "case loaded of None \<Rightarrow> False | Some estimate \<Rightarrow>
    me_reliable estimate \<and> toLowerCase (me_assetId estimate) = toLowerCase assetId \<and> me_chainId estimate = chainId \<and>
    (case me_priceRepPerEth estimate of None \<Rightarrow> False
     | Some price \<Rightarrow> 0 < candidate \<and> 0 < price \<and> \<bar>candidate - price\<bar> * BPS < (xs_maximumDeviationBps settings + 1) * price) \<and>
    supporting_observations estimate \<noteq> [] \<and>
    (\<forall>o' \<in> set (supporting_observations estimate). mo_observedAt o' \<le> now \<and>
      now - mo_observedAt o' \<le> xs_maximumObservationAgeMilliseconds settings)"
proof -
  obtain estimate where loaded: "loaded = Some estimate"
    using allowed assms(2) by (cases loaded) (auto simp: marketConsensusAllowsExecution_def)
  have allows: "me_reliable estimate" "toLowerCase (me_assetId estimate) = toLowerCase assetId" "me_chainId estimate = chainId"
    "supporting_observations estimate \<noteq> []"
    "\<forall>o' \<in> set (supporting_observations estimate). mo_observedAt o' \<le> now \<and>
      now - mo_observedAt o' \<le> xs_maximumObservationAgeMilliseconds settings"
    and candidate: "consensusAllowsCandidate candidate estimate (xs_maximumDeviationBps settings)"
    using allowed assms(2) by (auto simp: marketConsensusAllowsExecution_def loaded list_all_iff Let_def split: if_splits)
  obtain price where price: "me_priceRepPerEth estimate = Some price" "0 < candidate"
    "deviationBps candidate price \<le> xs_maximumDeviationBps settings"
    using candidate by (auto simp: consensusAllowsCandidate_def split: if_splits)
  then have positive: "0 < price" using assms(3) by (auto simp: deviationBps_def split: if_splits)
  have distance: "(if candidate > price then candidate - price else price - candidate) = \<bar>candidate - price\<bar>" by auto
  have "(\<bar>candidate - price\<bar> * BPS) div price < xs_maximumDeviationBps settings + 1"
    using price positive by (simp add: deviationBps_def Let_def distance sdiv_nonneg BPS_def)
  then have "\<bar>candidate - price\<bar> * BPS < (xs_maximumDeviationBps settings + 1) * price"
    by (rule div_less_iff [OF positive, THEN iffD1])
  then show ?thesis using allows price positive by (simp add: loaded)
qed

section \<open>Canonical evidence\<close>

definition canonical_at :: "(int \<Rightarrow> string option result) \<Rightarrow> MarketConsensusObservation \<Rightarrow> bool" where
  "canonical_at readCanonicalHash o' \<longleftrightarrow>
     (\<exists>n h c. mo_blockNumber o' = Some n \<and> mo_blockHash o' = Some h \<and> readCanonicalHash n = ok (Some c) \<and> sameText c h)"

lemma canonical_block_ok:
  "requireCanonicalBlock n h readCanonicalHash = ok () \<longleftrightarrow> (\<exists>c. readCanonicalHash n = ok (Some c) \<and> sameText c h)"
  by (cases "readCanonicalHash n") (auto simp: requireCanonicalBlock_def sameText_def split: option.splits)

lemma require_identities_ok:
  "distinct (map fst identities) \<Longrightarrow> require_identities readCanonicalHash identities = ok () \<longleftrightarrow>
   (\<forall>n h. map_of identities n = Some h \<longrightarrow> (\<exists>c. readCanonicalHash n = ok (Some c) \<and> sameText c h))"
proof (induction identities)
  case Nil
  then show ?case by simp
next
  case (Cons identity identities)
  obtain n h where identity: "identity = (n, h)" by (cases identity)
  have "map_of identities n = None" using Cons.prems identity by (simp add: map_of_eq_None_iff)
  then show ?case using Cons identity
    by (auto simp: bindR_eq_Inr_iff canonical_block_ok)
qed

text \<open>The identities collected agree with every observation and with those collected before.\<close>

lemma dex_identities_ok:
  assumes "distinct (map fst identities)"
  shows "(\<exists>final. dex_identities identities observations = ok final \<and> require_identities readCanonicalHash final = ok ()) \<longleftrightarrow>
    require_identities readCanonicalHash identities = ok () \<and> (\<forall>o' \<in> set observations. canonical_at readCanonicalHash o')"
  using assms
proof (induction observations arbitrary: identities)
  case Nil
  then show ?case by simp
next
  case (Cons o' observations)
  show ?case
  proof (cases "\<exists>n h. mo_blockNumber o' = Some n \<and> mo_blockHash o' = Some h")
    case False
    then show ?thesis by (auto simp: canonical_at_def split: option.splits)
  next
    case True
    then obtain n h where block: "mo_blockNumber o' = Some n" "mo_blockHash o' = Some h" by blast
    have distinct: "distinct (map fst (AList.update n h identities))" using Cons.prems by (rule distinct_update)
    note required = require_identities_ok [OF Cons.prems] require_identities_ok [OF distinct]
    show ?thesis
    proof (cases "\<exists>existing. map_of identities n = Some existing \<and> \<not> sameText existing h")
      case True
      then have "\<not> (\<exists>final. dex_identities identities (o' # observations) = ok final)"
        by (auto simp: block sameText_def)
      moreover have "\<not> (require_identities readCanonicalHash identities = ok () \<and> canonical_at readCanonicalHash o')"
        using True unfolding required canonical_at_def block by (fastforce simp: sameText_def)
      ultimately show ?thesis by auto
    next
      case False
      then have step: "dex_identities identities (o' # observations) = dex_identities (AList.update n h identities) observations"
        by (auto simp: block sameText_def split: option.split)
      have "require_identities readCanonicalHash (AList.update n h identities) = ok () \<longleftrightarrow>
          require_identities readCanonicalHash identities = ok () \<and> canonical_at readCanonicalHash o'"
        unfolding required canonical_at_def block update_conv'
      proof
        assume all: "\<forall>m k. ((map_of identities)(n \<mapsto> h)) m = Some k \<longrightarrow> (\<exists>c. readCanonicalHash m = ok (Some c) \<and> sameText c k)"
        have "\<exists>c. readCanonicalHash m = ok (Some c) \<and> sameText c k" if mk: "map_of identities m = Some k" for m k
        proof (cases "m = n")
          case True
          then have "sameText k h" using False mk by blast
          moreover obtain c where "readCanonicalHash n = ok (Some c)" "sameText c h" using all [rule_format, of n h] by auto
          ultimately show ?thesis using True by (auto intro: sameText_sym sameText_trans)
        next
          case other: False
          then show ?thesis using all [rule_format, of m k] mk by simp
        qed
        then show "(\<forall>m k. map_of identities m = Some k \<longrightarrow> (\<exists>c. readCanonicalHash m = ok (Some c) \<and> sameText c k)) \<and>
            (\<exists>m k c. Some n = Some m \<and> Some h = Some k \<and> readCanonicalHash m = ok (Some c) \<and> sameText c k)"
          using all [rule_format, of n h] by auto
      qed auto
      then show ?thesis unfolding step Cons.IH [OF distinct] by simp
    qed
  qed
qed

text \<open>
  Decentralised evidence is accepted exactly when it is canonical: the check of a reliable estimate succeeds if and only
  if every decentralised observation names a block and its hash, and the chain now has that hash at that block. A
  missing or conflicting identity, a changed block and a failed read all end in an error.
\<close>

lemma dex_evidence_canonical:
  assumes "mg_reliable (me_dex estimate)"
  shows "requireCanonicalDexEvidence (Some estimate) readCanonicalHash = ok () \<longleftrightarrow>
    (\<forall>o' \<in> set (mg_observations (me_dex estimate)). canonical_at readCanonicalHash o')"
  using dex_identities_ok [of "[]" "mg_observations (me_dex estimate)" readCanonicalHash] assms
  by (simp add: requireCanonicalDexEvidence_def bindR_eq_Inr_iff)

section \<open>An example\<close>

definition sample_observation :: "MarketVenueKind \<Rightarrow> string \<Rightarrow> int \<Rightarrow> MarketConsensusObservation" where
  "sample_observation kind source price =
     \<lparr>mo_assetId = ''REP'', mo_askDepthAttoEth = 50, mo_bidDepthAttoEth = 40, mo_blockHash = Some ''0xAB'', mo_blockNumber = Some 7,
      mo_chainId = 1, mo_kind = kind, mo_marketId = None, mo_observationId = ''x'', mo_observedAt = 90,
      mo_priceRepPerEth = price, mo_sourceId = source\<rparr>"

definition sample_observations :: "MarketConsensusObservation list" where
  "sample_observations = [sample_observation Cex ''a'' 100, sample_observation Dex ''b'' 104]"

definition sample_settings :: MarketConsensusSettings where
  "sample_settings =
     \<lparr>ms_allowSingleGroupFallback = False, ms_maximumGroupDeviationBps = 500, ms_maximumObservationAgeMilliseconds = 60,
      ms_maximumVenueDispersionBps = 100, ms_minimumAskDepthAttoEthPerSource = 10, ms_minimumBidDepthAttoEthPerSource = 10,
      ms_minimumCexAskDepthAttoEth = 10, ms_minimumCexBidDepthAttoEth = 10, ms_minimumCexSourceCount = 1,
      ms_minimumDexSourceCount = 1, ms_minimumSourceObservationCount = 1, ms_minimumSourceObservationSpanMilliseconds = 0,
      ms_minimumTotalSourceCount = 2\<rparr>"

lemma sample_selected:
  "persistentLatestSources (filter (\<lambda>o'. mo_kind o' = Cex) sample_observations) sample_settings 100 None None =
     [sample_observation Cex ''a'' 100]"
  "persistentLatestSources (filter (\<lambda>o'. mo_kind o' = Dex) sample_observations) sample_settings 100 None None =
     [sample_observation Dex ''b'' 104]"
  by code_simp+

lemma sample_estimate:
  "\<exists>estimate. estimateMarketConsensus sample_observations sample_settings ''rep'' 1 100 None None = ok estimate \<and>
     me_reliable estimate \<and> me_priceRepPerEth estimate = Some 102 \<and> mg_reliable (me_dex estimate) \<and>
     mg_observations (me_dex estimate) = [sample_observation Dex ''b'' 104] \<and>
     me_assetId estimate = ''rep'' \<and> me_chainId estimate = 1 \<and>
     supporting_observations estimate = [sample_observation Cex ''a'' 100, sample_observation Dex ''b'' 104]"
proof -
  have "case estimateMarketConsensus sample_observations sample_settings ''rep'' 1 100 None None of
      Inl e \<Rightarrow> False
    | Inr estimate \<Rightarrow> me_reliable estimate \<and> me_priceRepPerEth estimate = Some 102 \<and> mg_reliable (me_dex estimate) \<and>
     mg_observations (me_dex estimate) = [sample_observation Dex ''b'' 104] \<and>
     me_assetId estimate = ''rep'' \<and> me_chainId estimate = 1 \<and>
     supporting_observations estimate = [sample_observation Cex ''a'' 100, sample_observation Dex ''b'' 104]"
    by code_simp
  then show ?thesis by (auto split: sum.splits)
qed

theorem group_price_follows_majority_witness:
  "99 \<le> mg_priceRepPerEth (groupEstimate Dex [sample_observation Dex ''a'' 100, sample_observation Dex ''b'' 101,
      sample_observation Dex ''c'' 9000] sample_settings 1) \<and>
   mg_priceRepPerEth (groupEstimate Dex [sample_observation Dex ''a'' 100, sample_observation Dex ''b'' 101,
      sample_observation Dex ''c'' 9000] sample_settings 1) \<le> 102"
  using group_price_follows_majority [of "[sample_observation Dex ''a'' 100, sample_observation Dex ''b'' 101,
      sample_observation Dex ''c'' 9000]" 99 102 "[sample_observation Dex ''a'' 100, sample_observation Dex ''b'' 101,
      sample_observation Dex ''c'' 9000]" Dex sample_settings 1]
  by (simp add: sample_observation_def)

theorem reliable_consensus_supported_witness:
  "\<exists>estimate. estimateMarketConsensus sample_observations sample_settings ''rep'' 1 100 None None = ok estimate \<and>
     me_reliable estimate \<and> distinct (map lowerSourceId (supporting_observations estimate)) \<and>
     (case me_priceRepPerEth estimate of None \<Rightarrow> False
      | Some price \<Rightarrow> \<exists>o' \<in> set (supporting_observations estimate). price \<le> mo_priceRepPerEth o')"
proof -
  obtain estimate where estimate: "estimateMarketConsensus sample_observations sample_settings ''rep'' 1 100 None None = ok estimate"
    "me_reliable estimate" "me_priceRepPerEth estimate = Some 102"
    using sample_estimate by blast
  then show ?thesis
    using reliable_consensus_supported [OF estimate(1,2)] by (auto simp: sample_settings_def Let_def)
qed

lemma execution_needs_consensus_example:
  "\<exists>estimate. marketConsensusAllowsExecution 103 (Some estimate)
       \<lparr>xs_maximumDeviationBps = 200, xs_maximumObservationAgeMilliseconds = 60, xs_requiredForExecution = True\<rparr> ''REP'' 1 100 \<and>
     me_reliable estimate \<and> (case me_priceRepPerEth estimate of None \<Rightarrow> False
       | Some price \<Rightarrow> \<bar>103 - price\<bar> * BPS < 201 * price)"
proof -
  let ?settings = "\<lparr>xs_maximumDeviationBps = 200, xs_maximumObservationAgeMilliseconds = 60, xs_requiredForExecution = True\<rparr>"
  obtain estimate where estimate: "me_reliable estimate" "me_priceRepPerEth estimate = Some 102" "me_assetId estimate = ''rep''"
    "me_chainId estimate = 1"
    "supporting_observations estimate = [sample_observation Cex ''a'' 100, sample_observation Dex ''b'' 104]"
    using sample_estimate by blast
  have "deviationBps 103 102 \<le> 200" and "toLowerCase ''rep'' = toLowerCase ''REP''" by code_simp+
  then have "marketConsensusAllowsExecution 103 (Some estimate) ?settings ''REP'' 1 100"
    by (simp add: marketConsensusAllowsExecution_def consensusAllowsCandidate_def estimate sample_observation_def)
  then show ?thesis
    using execution_needs_consensus [of 103 "Some estimate" ?settings "''REP''" 1 100] estimate(1)
    by (intro exI [of _ estimate]) (auto simp: BPS_def split: option.splits)
qed

lemma dex_evidence_canonical_example:
  "\<exists>estimate. mg_reliable (me_dex estimate) \<and>
     requireCanonicalDexEvidence (Some estimate) (\<lambda>n. ok (Some ''0xab'')) = ok () \<and>
     \<not> (requireCanonicalDexEvidence (Some estimate) (\<lambda>n. ok None) = ok ())"
proof -
  obtain estimate :: MarketConsensusEstimate where estimate: "mg_reliable (me_dex estimate)"
    "mg_observations (me_dex estimate) = [sample_observation Dex ''b'' 104]"
    using sample_estimate by blast
  have "sameText ''0xab'' ''0xAB''" by code_simp
  then show ?thesis
    using dex_evidence_canonical [OF estimate(1), of "\<lambda>n. ok (Some ''0xab'')"] dex_evidence_canonical [OF estimate(1), of "\<lambda>n. ok None"]
      estimate
    by (intro exI [of _ estimate]) (simp add: canonical_at_def sample_observation_def)
qed

end
