(* ===== verification/Report_Log.thy ===== *)
theory Report_Log
  imports Arbitrage Block_Sync Js_Map
begin

text \<open>
  How the arbitrager follows reports without coordinators: event logs are read over the last
  blocks, merged into a cache, replayed into the map of active reports, and the cache is cut down
  to a finality window (\<open>monitoring/oracle-log-state.ts\<close>, \<open>compactFinalityWindow\<close> of
  \<open>bots/shared/src/monitoring/resilience.ts\<close>, \<open>retainReportsAndLogs\<close> of
  \<open>config/runtime-deployment.ts\<close>, and the part of a poll in \<open>runtime/operator.ts\<close> that
  composes them). A function that changes the map before it throws returns the map beside its
  outcome. Hexadecimal coding, checksums and the hash are library functions, passed as one record;
  reading the logs of a range is an argument. \<open>Report_Replay\<close> shows that the bounded cache loses
  nothing a full replay of the chain would know of an unsettled report.
\<close>

section \<open>Logs\<close>

record TransactionLog =
  tl_blockNumber :: "int option"
  tl_data :: string
  tl_logIndex :: "int option"
  tl_removed :: bool
  tl_topics :: "string list"
  tl_transactionHash :: "string option"

record oracle_library =
  ol_hexToBytes :: "string \<Rightarrow> 8 word list result"
  ol_bytesToHex :: "8 word list \<Rightarrow> string"
  ol_getAddress :: "string \<Rightarrow> string"
  ol_keccak256 :: "string \<Rightarrow> string"

definition OPEN_ORACLE_REPORT_SUBMITTED_TOPIC :: "oracle_library \<Rightarrow> string" where
  "OPEN_ORACLE_REPORT_SUBMITTED_TOPIC lib = ol_keccak256 lib ''ReportSubmitted(uint256,bytes)''"

definition OPEN_ORACLE_REPORT_DISPUTED_TOPIC :: "oracle_library \<Rightarrow> string" where
  "OPEN_ORACLE_REPORT_DISPUTED_TOPIC lib = ol_keccak256 lib ''ReportDisputed(uint256,bytes)''"

definition OPEN_ORACLE_REPORT_SETTLED_TOPIC :: "oracle_library \<Rightarrow> string" where
  "OPEN_ORACLE_REPORT_SETTLED_TOPIC lib = ol_keccak256 lib ''ReportSettled(uint256)''"

definition decode_preimage :: "oracle_library \<Rightarrow> string \<Rightarrow> int \<Rightarrow> OpenOracleStatePreimage result" where
  "decode_preimage lib = decodeOpenOracleStatePreimage (ol_hexToBytes lib) (ol_bytesToHex lib) (ol_getAddress lib)"

definition reportId :: "TransactionLog \<Rightarrow> int result" where
  "reportId log =
     (case tl_topics log of
        _ # topic # _ \<Rightarrow> bigint_of_string topic
      | _ \<Rightarrow> throw ''OpenOracle event missing report id'')"

definition logBlockNumber :: "TransactionLog \<Rightarrow> int result" where
  "logBlockNumber log =
     (case tl_blockNumber log of
        None \<Rightarrow> throw ''OpenOracle log is missing its block number''
      | Some number \<Rightarrow> ok number)"

text \<open>\<open>log.topics[0]?.toLowerCase()\<close>.\<close>

definition log_signature :: "TransactionLog \<Rightarrow> string option" where
  "log_signature log = (case tl_topics log of [] \<Rightarrow> None | topic # _ \<Rightarrow> Some (toLowerCase topic))"

definition is_settlement :: "oracle_library \<Rightarrow> TransactionLog \<Rightarrow> bool" where
  "is_settlement lib log \<longleftrightarrow> log_signature log = Some (toLowerCase (OPEN_ORACLE_REPORT_SETTLED_TOPIC lib))"

definition compareLogs :: "TransactionLog \<Rightarrow> TransactionLog \<Rightarrow> int result" where
  "compareLogs left right =
     bindR (logBlockNumber left) (\<lambda>leftBlock.
     bindR (logBlockNumber right) (\<lambda>rightBlock.
     if leftBlock < rightBlock then ok (- 1)
     else if leftBlock > rightBlock then ok 1
     else
       let leftIndex = (case tl_logIndex left of None \<Rightarrow> 0 | Some index \<Rightarrow> index);
           rightIndex = (case tl_logIndex right of None \<Rightarrow> 0 | Some index \<Rightarrow> index)
       in if leftIndex < rightIndex then ok (- 1)
       else if leftIndex > rightIndex then ok 1
       else ok 0))"

section \<open>The map of active reports\<close>

datatype step_event = DisputedStep | SettledStep | SubmittedStep

record DisputeStepSnapshot =
  ds_amount1 :: "string option"
  ds_amount2 :: "string option"
  ds_blockNumber :: string
  ds_event :: step_event
  ds_reporter :: "string option"
  ds_transactionHash :: "string option"

record ActiveReport =
  ar_latest :: OpenOracleStatePreimage
  ar_settled :: bool
  ar_steps :: "DisputeStepSnapshot list"

type_synonym reports = "(int \<times> ActiveReport) list"

text \<open>One round of the loop of \<open>applyLogs\<close>, with the map as it leaves it.\<close>

definition apply_log :: "oracle_library \<Rightarrow> reports \<Rightarrow> TransactionLog \<Rightarrow> reports \<times> unit result" where
  "apply_log lib reports log =
     (if tl_removed log then (reports, ok ())
      else case reportId log of
        Inl error \<Rightarrow> (reports, Inl error)
      | Inr i \<Rightarrow>
          if is_settlement lib log then
            (case map_of reports i of
               None \<Rightarrow> (reports, ok ())
             | Some current \<Rightarrow>
                 let settled = current \<lparr>ar_settled := True\<rparr>
                 in case logBlockNumber log of
                   Inl error \<Rightarrow> (AList.update i settled reports, Inl error)
                 | Inr block \<Rightarrow>
                     (AList.update i (settled \<lparr>ar_steps := ar_steps current @
                       [\<lparr>ds_amount1 = None, ds_amount2 = None, ds_blockNumber = bigint_to_string block, ds_event = SettledStep,
                         ds_reporter = None, ds_transactionHash = tl_transactionHash log\<rparr>]\<rparr>) reports, ok ()))
          else if log_signature log \<noteq> Some (toLowerCase (OPEN_ORACLE_REPORT_SUBMITTED_TOPIC lib))
            \<and> log_signature log \<noteq> Some (toLowerCase (OPEN_ORACLE_REPORT_DISPUTED_TOPIC lib)) then (reports, ok ())
          else case decode_preimage lib (tl_data log) i of
            Inl error \<Rightarrow> (reports, Inl error)
          | Inr latest \<Rightarrow>
              case logBlockNumber log of
                Inl error \<Rightarrow> (reports, Inl error)
              | Inr block \<Rightarrow>
                  (AList.update i
                     \<lparr>ar_latest = latest, ar_settled = False,
                      ar_steps = (case map_of reports i of None \<Rightarrow> [] | Some previous \<Rightarrow> ar_steps previous) @
                        [\<lparr>ds_amount1 = Some (bigint_to_string (og_currentAmount1 (sp_game latest))),
                          ds_amount2 = Some (bigint_to_string (og_currentAmount2 (sp_game latest))),
                          ds_blockNumber = bigint_to_string block,
                          ds_event = (if log_signature log = Some (toLowerCase (OPEN_ORACLE_REPORT_SUBMITTED_TOPIC lib))
                            then SubmittedStep else DisputedStep),
                          ds_reporter = Some (og_currentReporter (sp_game latest)),
                          ds_transactionHash = tl_transactionHash log\<rparr>]\<rparr> reports, ok ()))"

fun applyLogs :: "oracle_library \<Rightarrow> reports \<Rightarrow> TransactionLog list \<Rightarrow> reports \<times> unit result" where
  "applyLogs lib reports [] = (reports, ok ())"
| "applyLogs lib reports (log # logs) =
     (case apply_log lib reports log of
        (reports', Inl error) \<Rightarrow> (reports', Inl error)
      | (reports', Inr _) \<Rightarrow> applyLogs lib reports' logs)"

definition applyCoordinatorReports :: "reports \<Rightarrow> OpenOracleStatePreimage list \<Rightarrow> reports" where
  "applyCoordinatorReports reports pendingReports =
     (let pendingIds = map (\<lambda>report. oh_reportId (sp_helper report)) pendingReports
      in foldl (\<lambda>reports latest. AList.update (oh_reportId (sp_helper latest))
           \<lparr>ar_latest = latest, ar_settled = og_settlementTimestamp (sp_game latest) \<noteq> 0,
            ar_steps = (case map_of reports (oh_reportId (sp_helper latest)) of None \<Rightarrow> [] | Some previous \<Rightarrow> ar_steps previous)\<rparr>
           reports)
         (filter (\<lambda>(i, _). i \<in> set pendingIds) reports) pendingReports)"

section \<open>The finality window\<close>

text \<open>
  \<open>retained\<close> is a set of objects, which two equal logs would enter apart: elements are taken with
  their positions. \<open>retained_of\<close> is the body of the loop over the groups.
\<close>

definition overlap_start :: "int \<Rightarrow> int \<Rightarrow> int" where
  "overlap_start head overlapBlocks =
     (let nextBlock = head + 1 in if nextBlock > overlapBlocks then nextBlock - overlapBlocks else 0)"

definition retained_of :: "int \<Rightarrow> ('a \<Rightarrow> int) \<Rightarrow> ('a \<Rightarrow> bool) \<Rightarrow> (nat \<times> 'a) list \<Rightarrow> (nat \<times> 'a) list" where
  "retained_of overlapStart blockNumber isTerminal bucket =
     (let (retained, anchor) = foldl (\<lambda>(retained, anchor) item.
            if blockNumber (snd item) \<ge> overlapStart then (retained @ [item], anchor)
            else if (case anchor of None \<Rightarrow> True | Some kept \<Rightarrow> blockNumber (snd item) \<ge> blockNumber (snd kept))
            then (retained, Some item)
            else (retained, anchor)) ([], None) bucket
      in case anchor of
        None \<Rightarrow> retained
      | Some item \<Rightarrow> if isTerminal (snd item) then retained else retained @ [item])"

definition compactFinalityWindow ::
  "'a list \<Rightarrow> int \<Rightarrow> int \<Rightarrow> ('a \<Rightarrow> 'k) \<Rightarrow> ('a \<Rightarrow> int) \<Rightarrow> ('a \<Rightarrow> bool) \<Rightarrow> 'a list" where
  "compactFinalityWindow values head overlapBlocks key blockNumber isTerminal =
     (let items = enumerate 0 values;
          groups = map snd (group_into (\<lambda>item. key (snd item)) items);
          retained = concat (map (retained_of (overlap_start head overlapBlocks) blockNumber isTerminal) groups)
      in map snd (filter (\<lambda>item. item \<in> set retained) items))"

definition replaceOverlap ::
  "'a list \<Rightarrow> 'a list \<Rightarrow> int \<Rightarrow> ('a \<Rightarrow> int) \<Rightarrow> ('a \<Rightarrow> 'a \<Rightarrow> int) \<Rightarrow> 'a list" where
  "replaceOverlap cached fetched fromBlock blockNumber compare =
     js_sort compare (filter (\<lambda>v. blockNumber v < fromBlock) cached @ fetched)"


section \<open>A poll\<close>

definition REORG_OVERLAP_BLOCKS :: int where "REORG_OVERLAP_BLOCKS = 12"
definition MAX_LOG_SCAN_RANGE :: int where "MAX_LOG_SCAN_RANGE = 256"
definition MAX_UNTRUSTED_DRY_RUN_REPORTS :: nat where "MAX_UNTRUSTED_DRY_RUN_REPORTS = 256"

text \<open>A value that the checks before its use have shown to be present.\<close>

definition id_of :: "TransactionLog \<Rightarrow> int" where
  "id_of log = (case reportId log of Inl _ \<Rightarrow> 0 | Inr i \<Rightarrow> i)"

definition block_of :: "TransactionLog \<Rightarrow> int" where
  "block_of log = (case tl_blockNumber log of None \<Rightarrow> 0 | Some number \<Rightarrow> number)"

record tracked_reports =
  tr_cachedLogs :: "TransactionLog list"
  tr_reports :: reports

text \<open>The map is rebuilt from the logs that remain; they are the new cache.\<close>

definition retainReportsAndLogs ::
  "oracle_library \<Rightarrow> reports \<Rightarrow> TransactionLog list \<Rightarrow> CoordinatorGamePolicy list \<Rightarrow> string \<Rightarrow> int
    \<Rightarrow> reports \<times> TransactionLog list result" where
  "retainReportsAndLogs lib reports logs policies openOracle head =
     (let retainedIds = retainedReportIds (map (\<lambda>(i, report). (i, ar_latest report)) reports) policies openOracle
            MAX_UNTRUSTED_DRY_RUN_REPORTS
      in case mapR reportId logs of
        Inl error \<Rightarrow> (reports, Inl error)
      | Inr _ \<Rightarrow>
          let kept = filter (\<lambda>log. id_of log \<in> set retainedIds) logs in
          case mapR logBlockNumber kept of
            Inl error \<Rightarrow> (reports, Inl error)
          | Inr _ \<Rightarrow>
              let retainedLogs = compactFinalityWindow kept head REORG_OVERLAP_BLOCKS id_of block_of (is_settlement lib) in
              case applyLogs lib [] retainedLogs of
                (reports', Inl error) \<Rightarrow> (reports', Inl error)
              | (reports', Inr _) \<Rightarrow> (reports', ok retainedLogs))"

text \<open>\<open>xs.sort(compareLogs)\<close>: with two elements or more, each of them is compared.\<close>

definition sort_logs :: "TransactionLog list \<Rightarrow> TransactionLog list result" where
  "sort_logs logs =
     (if length logs < 2 then ok logs
      else bindR (mapR logBlockNumber logs) (\<lambda>_.
        ok (js_sort (\<lambda>left right. case compareLogs left right of Inl _ \<Rightarrow> 0 | Inr sign \<Rightarrow> sign) logs)))"

definition merge_range :: "TransactionLog list \<Rightarrow> LogRange \<Rightarrow> TransactionLog list \<Rightarrow> TransactionLog list result" where
  "merge_range cachedLogs scanRange logs =
     bindR (mapR logBlockNumber cachedLogs) (\<lambda>_.
       sort_logs (filter (\<lambda>log. block_of log < lr_fromBlock scanRange \<or> block_of log > lr_toBlock scanRange) cachedLogs @ logs))"

text \<open>The loop over the ranges of a scan, with the cache as it leaves it.\<close>

fun scan_ranges :: "(LogRange \<Rightarrow> TransactionLog list result) \<Rightarrow> TransactionLog list \<Rightarrow> LogRange list
    \<Rightarrow> TransactionLog list \<times> unit result" where
  "scan_ranges read cachedLogs [] = (cachedLogs, ok ())"
| "scan_ranges read cachedLogs (scanRange # ranges) =
     (case bindR (read scanRange) (merge_range cachedLogs scanRange) of
        Inl error \<Rightarrow> (cachedLogs, Inl error)
      | Inr merged \<Rightarrow> scan_ranges read merged ranges)"

definition poll_recent_logs ::
  "oracle_library \<Rightarrow> CoordinatorGamePolicy list \<Rightarrow> string \<Rightarrow> int \<Rightarrow> (LogRange \<Rightarrow> TransactionLog list result)
    \<Rightarrow> int \<Rightarrow> int \<Rightarrow> tracked_reports \<Rightarrow> tracked_reports \<times> unit result" where
  "poll_recent_logs lib policies openOracle lookbackBlocks read blockNumber nextBlock st =
     (case latestLogRange blockNumber lookbackBlocks of
        Inl error \<Rightarrow> (st, Inl error)
      | Inr recentRange \<Rightarrow>
          let fromBlock = (if nextBlock > lr_fromBlock recentRange then nextBlock else lr_fromBlock recentRange) in
          case newestFirstScanRanges fromBlock blockNumber MAX_LOG_SCAN_RANGE of
            Inl error \<Rightarrow> (st, Inl error)
          | Inr ranges \<Rightarrow>
              case scan_ranges read (tr_cachedLogs st) ranges of
                (scanned, Inl error) \<Rightarrow> (st \<lparr>tr_cachedLogs := scanned\<rparr>, Inl error)
              | (scanned, Inr _) \<Rightarrow>
                  case applyLogs lib [] scanned of
                    (reports, Inl error) \<Rightarrow> (\<lparr>tr_cachedLogs = scanned, tr_reports = reports\<rparr>, Inl error)
                  | (reports, Inr _) \<Rightarrow>
                      case retainReportsAndLogs lib reports scanned policies openOracle blockNumber of
                        (reports', Inl error) \<Rightarrow> (\<lparr>tr_cachedLogs = scanned, tr_reports = reports'\<rparr>, Inl error)
                      | (reports', Inr retained) \<Rightarrow> (\<lparr>tr_cachedLogs = retained, tr_reports = reports'\<rparr>, ok ()))"

text \<open>
  The three ways of following reports. The configured coordinators come with their policies, one for each address;
  without coordinators there is no policy. \<open>pendingReports\<close> is what the coordinators answer.
\<close>

definition poll_reports ::
  "oracle_library \<Rightarrow> (string \<times> CoordinatorGamePolicy) list \<Rightarrow> string \<Rightarrow> int
    \<Rightarrow> OpenOracleStatePreimage list result \<Rightarrow> (LogRange \<Rightarrow> TransactionLog list result) \<Rightarrow> int \<Rightarrow> int
    \<Rightarrow> tracked_reports \<Rightarrow> tracked_reports \<times> unit result" where
  "poll_reports lib coordinators openOracle lookbackBlocks pendingReports read blockNumber nextBlock st =
     (let coordinatorAddresses = map fst coordinators; coordinatorPolicies = map snd coordinators in
      if coordinatorAddresses \<noteq> [] then
        (case pendingReports of
           Inl error \<Rightarrow> (st, Inl error)
         | Inr pending \<Rightarrow>
             (\<lparr>tr_cachedLogs = [], tr_reports = applyCoordinatorReports (tr_reports st) pending\<rparr>, ok ()))
      else if lookbackBlocks > 0
      then poll_recent_logs lib coordinatorPolicies openOracle lookbackBlocks read blockNumber nextBlock st
      else (\<lparr>tr_cachedLogs = [], tr_reports = []\<rparr>, ok ()))"

text \<open>At the end of a poll a report whose settlement is older than the overlap is dropped.\<close>

definition settled_long_ago :: "int \<Rightarrow> ActiveReport \<Rightarrow> bool result" where
  "settled_long_ago blockNumber report =
     (case List.find (\<lambda>step. ds_event step = SettledStep) (rev (ar_steps report)) of
        None \<Rightarrow> ok False
      | Some settlement \<Rightarrow>
          if \<not> ar_settled report then ok False
          else bindR (bigint_of_string (ds_blockNumber settlement)) (\<lambda>block. ok (blockNumber > block + REORG_OVERLAP_BLOCKS)))"

definition forget_settled :: "int \<Rightarrow> tracked_reports \<Rightarrow> tracked_reports result" where
  "forget_settled blockNumber st =
     bindR (mapR (\<lambda>(i, report). bindR (settled_long_ago blockNumber report) (\<lambda>old. ok (i, old))) (tr_reports st)) (\<lambda>judged.
       let settledReportIds = map fst (filter snd judged) in
       if settledReportIds = [] then ok st
       else bindR (mapR reportId (tr_cachedLogs st)) (\<lambda>_.
         ok \<lparr>tr_cachedLogs = filter (\<lambda>log. id_of log \<notin> set settledReportIds) (tr_cachedLogs st),
             tr_reports = filter (\<lambda>(i, _). i \<notin> set settledReportIds) (tr_reports st)\<rparr>))"

end
