(* ===== verification/Report_Window.thy ===== *)
theory Report_Window
  imports Report_Log
begin

text \<open>
  What the finality window keeps of a log group (\<open>window_of\<close>, shown to be what
  \<open>compactFinalityWindow\<close> computes group by group), the order in which the merged cache stands,
  what merging one scanned range does to an ordered cache, and replaying: the effect of one log on
  the entry of its report, the effect of a log list as a fold per report, and the reason a window
  suffices, \<open>window_replays\<close>.
\<close>

section \<open>The window of a group\<close>

text \<open>
  What the window keeps of a group: everything from its start on, and before it the newest element
  unless that is terminal.
\<close>

definition window_of :: "int \<Rightarrow> ('a \<Rightarrow> int) \<Rightarrow> ('a \<Rightarrow> bool) \<Rightarrow> 'a list \<Rightarrow> 'a list" where
  "window_of start blockNumber isTerminal xs =
     (let old = filter (\<lambda>x. blockNumber x < start) xs
      in (if old = [] \<or> isTerminal (last old) then [] else [last old]) @ filter (\<lambda>x. start \<le> blockNumber x) xs)"

lemma retained_of_fold:
  fixes blockNumber :: "'a \<Rightarrow> int" and start :: int
  assumes "sorted_wrt (\<lambda>x y. blockNumber (snd x) \<le> blockNumber (snd y)) items"
  shows "foldl (\<lambda>(retained, anchor) item.
            if blockNumber (snd item) \<ge> start then (retained @ [item], anchor)
            else if (case anchor of None \<Rightarrow> True | Some kept \<Rightarrow> blockNumber (snd item) \<ge> blockNumber (snd kept))
            then (retained, Some item)
            else (retained, anchor)) ([], None) items =
     (filter (\<lambda>x. start \<le> blockNumber (snd x)) items,
      let old = filter (\<lambda>x. blockNumber (snd x) < start) items in if old = [] then None else Some (last old))"
  using assms
proof (induction items rule: rev_induct)
  case Nil
  then show ?case by simp
next
  case (snoc x items)
  have le: "blockNumber (snd y) \<le> blockNumber (snd x)" if "y \<in> set items" for y
    using snoc.prems that by (simp add: sorted_wrt_append)
  have "blockNumber (snd (last (filter (\<lambda>x. blockNumber (snd x) < start) items))) \<le> blockNumber (snd x)"
    if "filter (\<lambda>x. blockNumber (snd x) < start) items \<noteq> []"
    using le last_in_set [OF that] by auto
  moreover have "sorted_wrt (\<lambda>x y. blockNumber (snd x) \<le> blockNumber (snd y)) items"
    using snoc.prems by (simp add: sorted_wrt_append)
  ultimately show ?case
    using snoc.IH by (cases "start \<le> blockNumber (snd x)") (auto simp: Let_def not_le split: if_splits)
qed

lemma set_retained_of:
  assumes "sorted_wrt (\<lambda>x y. blockNumber (snd x) \<le> blockNumber (snd y)) items"
  shows "set (retained_of start blockNumber isTerminal items) =
     set (window_of start (\<lambda>x. blockNumber (snd x)) (\<lambda>x. isTerminal (snd x)) items)"
  unfolding retained_of_def retained_of_fold [OF assms] window_of_def by (auto simp: Let_def)

lemma window_of_subset: "set (window_of start b t xs) \<subseteq> set xs"
proof -
  have "last (filter P xs) \<in> set xs" if "filter P xs \<noteq> []" for P
    using last_in_set [OF that] by simp
  then show ?thesis by (auto simp: window_of_def Let_def)
qed

lemma sorted_window_split:
  fixes b :: "'a \<Rightarrow> int"
  assumes "sorted_wrt (\<lambda>x y. b x \<le> b y) xs"
  shows "filter (\<lambda>x. b x < s) xs @ filter (\<lambda>x. s \<le> b x) xs = xs"
  using assms
proof (induction xs)
  case (Cons x xs)
  show ?case
  proof (cases "b x < s")
    case False
    with Cons.prems have "filter (\<lambda>x. b x < s) xs = []" and "filter (\<lambda>x. s \<le> b x) xs = xs"
      by (force simp: filter_empty_conv filter_id_conv)+
    with False show ?thesis by simp
  qed (use Cons in simp)
qed simp

lemma filter_last:
  assumes "distinct xs" and "xs \<noteq> []"
  shows "filter (\<lambda>x. x = last xs) xs = [last xs]"
proof (cases xs rule: rev_cases)
  case (snoc ys y)
  then have "filter (\<lambda>x. x = y) ys = []" using assms(1) by (auto simp: filter_empty_conv)
  with snoc show ?thesis by simp
qed (use assms in simp)

lemma filter_window_of:
  fixes b :: "'a \<Rightarrow> int"
  assumes "sorted_wrt (\<lambda>x y. b x \<le> b y) xs" and "distinct xs"
  shows "filter (\<lambda>x. x \<in> set (window_of s b t xs)) xs = window_of s b t xs"
proof -
  define old where "old = filter (\<lambda>x. b x < s) xs"
  define new where "new = filter (\<lambda>x. s \<le> b x) xs"
  define kept where "kept = (if old = [] \<or> t (last old) then [] else [last old])"
  have W: "window_of s b t xs = kept @ new" by (simp add: window_of_def Let_def old_def new_def kept_def)
  have xs: "old @ new = xs" unfolding old_def new_def by (rule sorted_window_split) (rule assms(1))
  have "filter (\<lambda>x. x \<in> set (kept @ new)) old = filter (\<lambda>x. x \<in> set kept) old"
    by (rule filter_cong) (auto simp: old_def new_def)
  also have "\<dots> = kept"
  proof (cases "old = [] \<or> t (last old)")
    case False
    moreover have "distinct old" using assms(2) by (simp add: old_def)
    ultimately show ?thesis by (simp add: kept_def filter_last)
  qed (auto simp: kept_def)
  finally have "filter (\<lambda>x. x \<in> set (kept @ new)) (old @ new) = kept @ new" by simp
  then show ?thesis by (simp only: W xs)
qed

lemma filter_map_snd_enumerate: "map snd (filter (\<lambda>item. P (snd item)) (enumerate n xs)) = filter P xs"
  by (induction xs arbitrary: n) auto

lemma window_of_map: "map f (window_of s (\<lambda>x. b (f x)) (\<lambda>x. t (f x)) xs) = window_of s b t (map f xs)"
  by (simp add: window_of_def Let_def filter_map comp_def) (metis last_map map_is_Nil_conv)

text \<open>The window of a list is the window of each of its groups.\<close>

lemma compact_group:
  fixes xs :: "'a list"
  assumes "sorted_wrt (\<lambda>x y. blockNumber x \<le> blockNumber y) xs"
  shows "filter (\<lambda>v. key v = k) (compactFinalityWindow xs head overlap key blockNumber isTerminal) =
     window_of (overlap_start head overlap) blockNumber isTerminal (filter (\<lambda>v. key v = k) xs)"
proof -
  define items where "items = enumerate 0 xs"
  define s where "s = overlap_start head overlap"
  define bucket where "bucket k = filter (\<lambda>item. key (snd item) = k) items" for k
  define retained where "retained = concat (map (retained_of s blockNumber isTerminal)
    (map snd (group_into (\<lambda>item. key (snd item)) items)))"
  define window :: "(nat \<times> 'a) list \<Rightarrow> (nat \<times> 'a) list" where "window = window_of s (\<lambda>x. blockNumber (snd x)) (\<lambda>x. isTerminal (snd x))"
  have sorted_items: "sorted_wrt (\<lambda>x y. blockNumber (snd x) \<le> blockNumber (snd y)) items"
    using assms sorted_wrt_map [of "\<lambda>x y. blockNumber x \<le> blockNumber y" snd items] by (simp add: items_def)
  then have sorted_bucket: "sorted_wrt (\<lambda>x y. blockNumber (snd x) \<le> blockNumber (snd y)) (bucket k)" for k
    by (simp add: bucket_def sorted_wrt_filter)
  have distinct_bucket: "distinct (bucket k)" for k
    by (simp add: bucket_def items_def)
  have groups: "(k', g) \<in> set (group_into (\<lambda>item. key (snd item)) items) \<longleftrightarrow> k' \<in> (key \<circ> snd) ` set items \<and> g = bucket k'" for k' g
    by (simp add: mem_group_into_iff bucket_def comp_def)
  have in_retained: "item \<in> set retained \<longleftrightarrow> item \<in> set (window (bucket k))" if "item \<in> set items" "key (snd item) = k" for item
  proof -
    have "item \<in> set retained \<longleftrightarrow> (\<exists>(k', g) \<in> set (group_into (\<lambda>item. key (snd item)) items).
        item \<in> set (retained_of s blockNumber isTerminal g))"
      by (simp add: retained_def split_beta)
    also have "\<dots> \<longleftrightarrow> (\<exists>k' \<in> (key \<circ> snd) ` set items. item \<in> set (window (bucket k')))"
      unfolding Bex_def split_beta
      by (simp add: split_paired_Ex groups set_retained_of [OF sorted_bucket] window_def)
    also have "\<dots> \<longleftrightarrow> item \<in> set (window (bucket k))"
    proof
      assume "\<exists>k' \<in> (key \<circ> snd) ` set items. item \<in> set (window (bucket k'))"
      then obtain k' where k': "item \<in> set (window (bucket k'))" by blast
      then have "item \<in> set (bucket k')" unfolding window_def using window_of_subset by (rule subsetD [rotated])
      then have "k' = k" using that by (simp add: bucket_def)
      with k' show "item \<in> set (window (bucket k))" by simp
    qed (use that in force)
    finally show ?thesis .
  qed
  have "compactFinalityWindow xs head overlap key blockNumber isTerminal = map snd (filter (\<lambda>item. item \<in> set retained) items)"
    by (simp add: compactFinalityWindow_def Let_def items_def retained_def s_def)
  then have "filter (\<lambda>v. key v = k) (compactFinalityWindow xs head overlap key blockNumber isTerminal) =
      map snd (filter (\<lambda>item. item \<in> set retained \<and> key (snd item) = k) items)"
    by (simp add: filter_map comp_def conj_commute)
  also have "filter (\<lambda>item. item \<in> set retained \<and> key (snd item) = k) items = filter (\<lambda>item. item \<in> set (window (bucket k))) (bucket k)"
    unfolding bucket_def [of k] filter_filter by (rule filter_cong) (auto simp: in_retained bucket_def [symmetric])
  also have "\<dots> = window (bucket k)"
    unfolding window_def by (rule filter_window_of [OF sorted_bucket distinct_bucket])
  also have "map snd \<dots> = window_of s blockNumber isTerminal (map snd (bucket k))"
    unfolding window_def by (rule window_of_map)
  also have "map snd (bucket k) = filter (\<lambda>v. key v = k) xs"
    unfolding bucket_def items_def by (rule filter_map_snd_enumerate)
  finally show ?thesis by (simp add: s_def)
qed

section \<open>The order of logs\<close>

definition log_key :: "TransactionLog \<Rightarrow> int \<times> int" where
  "log_key log = (block_of log, case tl_logIndex log of None \<Rightarrow> 0 | Some index \<Rightarrow> index)"

abbreviation in_order :: "TransactionLog list \<Rightarrow> bool" where
  "in_order \<equiv> sorted_wrt (\<lambda>l r. log_key l < log_key r)"

lemma in_order_blocks: "in_order logs \<Longrightarrow> sorted_wrt (\<lambda>l r. block_of l \<le> block_of r) logs"
  by (erule sorted_wrt_mono_rel [rotated]) (auto simp: log_key_def less_prod_def)

lemma in_order_unique:
  assumes "in_order xs" and "in_order ys" and "set xs = set ys"
  shows "xs = ys"
proof -
  have s: "sorted_wrt (<) (map log_key xs)" "sorted_wrt (<) (map log_key ys)"
    using assms(1,2) by (simp_all add: sorted_wrt_map)
  then have "map log_key xs = map log_key ys"
    using assms(3) by (intro strict_sorted_equal) auto
  moreover have "inj_on log_key (set xs \<union> set ys)"
    using s(1) assms(3) by (simp add: strict_sorted_iff distinct_map)
  ultimately show ?thesis by (metis map_inj_on)
qed

lemma in_order_distinct: "in_order logs \<Longrightarrow> distinct (map log_key logs)"
  using strict_sorted_iff [of "map log_key logs"] by (simp add: sorted_wrt_map)

definition numbered :: "TransactionLog \<Rightarrow> bool" where
  "numbered log \<longleftrightarrow> tl_blockNumber log \<noteq> None"

lemma logBlockNumber_ok: "numbered log \<Longrightarrow> logBlockNumber log = ok (block_of log)"
  by (auto simp: numbered_def logBlockNumber_def block_of_def)

lemma mapR_ok: "(\<And>x. x \<in> set xs \<Longrightarrow> f x = ok (g x)) \<Longrightarrow> mapR f xs = ok (map g xs)"
  by (induction xs) auto

lemma compareLogs_key: "numbered l \<Longrightarrow> numbered r \<Longrightarrow> compareLogs l r = ok (order_sign (log_key l) (log_key r))"
  by (auto simp: compareLogs_def logBlockNumber_ok log_key_def order_sign_def less_prod_def Let_def)

interpretation log_order: comparator "\<lambda>l r. order_sign (log_key l) (log_key r)"
  by (rule comparator_order_sign)

lemma sort_logs_in_order:
  assumes "\<forall>log \<in> set logs. numbered log" and "distinct (map log_key logs)"
  obtains ordered where "sort_logs logs = ok ordered" and "in_order ordered" and "set ordered = set logs"
proof -
  define ordered where "ordered = js_sort (\<lambda>l r. order_sign (log_key l) (log_key r)) logs"
  have "mapR logBlockNumber logs = ok (map block_of logs)"
    using assms(1) by (intro mapR_ok) (simp add: logBlockNumber_ok)
  moreover have "js_sort (\<lambda>left right. case compareLogs left right of Inl _ \<Rightarrow> 0 | Inr sign \<Rightarrow> sign) logs = ordered"
    unfolding ordered_def using assms(1) by (intro js_sort_cong) (simp add: compareLogs_key)
  moreover have "logs = ordered" if "length logs < 2"
    using that by (cases logs rule: remdups_adj.cases) (auto simp: ordered_def)
  ultimately have sort: "sort_logs logs = ok ordered" by (auto simp: sort_logs_def)
  have "sorted_wrt (\<lambda>l r. log_key l \<le> log_key r) ordered"
    using log_order.sorted_js_sort [of logs] by (simp add: ordered_def)
  then have "sorted (map log_key ordered)" by (simp add: sorted_wrt_map)
  moreover have "distinct (map log_key ordered)"
    using assms(2) by (metis mset_js_sort mset_map mset_eq_imp_distinct_iff ordered_def)
  ultimately have "sorted_wrt (<) (map log_key ordered)" by (simp add: strict_sorted_iff)
  then have "in_order ordered" by (simp add: sorted_wrt_map)
  with sort show thesis by (rule that) (simp add: ordered_def)
qed

definition within :: "LogRange \<Rightarrow> TransactionLog \<Rightarrow> bool" where
  "within r log \<longleftrightarrow> lr_fromBlock r \<le> block_of log \<and> block_of log \<le> lr_toBlock r"

text \<open>An endpoint that follows a chain answers a range with the chain's logs of it, or fails.\<close>

definition answers_from :: "TransactionLog list \<Rightarrow> (LogRange \<Rightarrow> TransactionLog list result) \<Rightarrow> bool" where
  "answers_from chain read \<longleftrightarrow> (\<forall>r. read r = ok (filter (within r) chain) \<or> \<not> succeeds (read r))"

lemma merge_range_in_order:
  assumes "in_order cache" and "in_order chain" and "\<forall>log \<in> set cache \<union> set chain. numbered log"
  obtains merged where "merge_range cache r (filter (within r) chain) = ok merged" and "in_order merged"
    and "set merged = {log \<in> set cache. \<not> within r log} \<union> {log \<in> set chain. within r log}"
proof -
  let ?logs = "filter (\<lambda>log. \<not> within r log) cache @ filter (within r) chain"
  have "distinct (map log_key (filter (\<lambda>log. \<not> within r log) cache))" "distinct (map log_key (filter (within r) chain))"
    using assms(1,2) by (auto intro!: in_order_distinct sorted_wrt_filter)
  moreover have "log_key ` set (filter (\<lambda>log. \<not> within r log) cache) \<inter> log_key ` set (filter (within r) chain) = {}"
    by (auto simp: within_def log_key_def)
  ultimately have distinct: "distinct (map log_key ?logs)" by simp
  have numbered: "\<forall>log \<in> set ?logs. numbered log" using assms(3) by auto
  obtain merged where merged: "sort_logs ?logs = ok merged" "in_order merged" "set merged = set ?logs"
    using sort_logs_in_order [OF numbered distinct] .
  have "mapR logBlockNumber cache = ok (map block_of cache)"
    using assms(3) by (intro mapR_ok) (simp add: logBlockNumber_ok)
  moreover have "filter (\<lambda>log. block_of log < lr_fromBlock r \<or> block_of log > lr_toBlock r) cache =
      filter (\<lambda>log. \<not> within r log) cache"
    by (rule filter_cong) (auto simp: within_def)
  ultimately have "merge_range cache r (filter (within r) chain) = ok merged"
    using merged(1) by (simp add: merge_range_def)
  with merged(2,3) show thesis by (intro that) auto
qed

lemma scan_ranges_merges:
  assumes "in_order chain" and "answers_from chain read"
  shows "in_order cache \<Longrightarrow> \<forall>log \<in> set cache \<union> set chain. numbered log \<Longrightarrow>
    scan_ranges read cache ranges = (scanned, outcome) \<Longrightarrow>
    in_order scanned \<and> ((\<forall>r \<in> set ranges. succeeds (read r)) \<longrightarrow> succeeds outcome) \<and> (\<exists>finished. set finished \<subseteq> set ranges \<and> (succeeds outcome \<longrightarrow> finished = ranges) \<and>
      set scanned = {log \<in> set cache. \<not> (\<exists>r \<in> set finished. within r log)} \<union> {log \<in> set chain. \<exists>r \<in> set finished. within r log})"
proof (induction ranges arbitrary: cache)
  case Nil
  then show ?case by (auto intro!: exI [of _ "[]"])
next
  case (Cons r ranges)
  show ?case
  proof (cases "succeeds (read r)")
    case False
    then obtain e where "read r = Inl e" by (cases "read r") auto
    with Cons.prems show ?thesis by (auto intro!: exI [of _ "[]"])
  next
    case True
    then have read: "read r = ok (filter (within r) chain)" using assms(2) by (auto simp: answers_from_def)
    obtain merged where merged: "merge_range cache r (filter (within r) chain) = ok merged" "in_order merged"
        "set merged = {log \<in> set cache. \<not> within r log} \<union> {log \<in> set chain. within r log}"
      using merge_range_in_order [OF Cons.prems(1) assms(1) Cons.prems(2)] by blast
    have "scan_ranges read merged ranges = (scanned, outcome)"
      using Cons.prems(3) by (simp add: read merged(1))
    moreover have "\<forall>log \<in> set merged \<union> set chain. numbered log" using Cons.prems(2) merged(3) by auto
    ultimately obtain finished where "in_order scanned" "(\<forall>r \<in> set ranges. succeeds (read r)) \<longrightarrow> succeeds outcome" "set finished \<subseteq> set ranges" "succeeds outcome \<longrightarrow> finished = ranges"
        "set scanned = {log \<in> set merged. \<not> (\<exists>r \<in> set finished. within r log)} \<union> {log \<in> set chain. \<exists>r \<in> set finished. within r log}"
      using Cons.IH [OF merged(2)] by blast
    then show ?thesis using merged(3) by (intro conjI exI [of _ "r # finished"]) auto
  qed
qed

section \<open>Replaying the logs of a report\<close>

text \<open>What one log makes of the entry of its own report.\<close>

definition log_step :: "TransactionLog \<Rightarrow> step_event \<Rightarrow> OpenOracleGame option \<Rightarrow> DisputeStepSnapshot" where
  "log_step log event game =
     \<lparr>ds_amount1 = map_option (\<lambda>g. bigint_to_string (og_currentAmount1 g)) game,
      ds_amount2 = map_option (\<lambda>g. bigint_to_string (og_currentAmount2 g)) game,
      ds_blockNumber = bigint_to_string (block_of log), ds_event = event,
      ds_reporter = map_option og_currentReporter game, ds_transactionHash = tl_transactionHash log\<rparr>"

definition report_after :: "oracle_library \<Rightarrow> ActiveReport option \<Rightarrow> TransactionLog \<Rightarrow> ActiveReport option" where
  "report_after lib known log =
     (if is_settlement lib log then
        map_option (\<lambda>report. report \<lparr>ar_settled := True, ar_steps := ar_steps report @ [log_step log SettledStep None]\<rparr>) known
      else case decode_preimage lib (tl_data log) (id_of log) of
        Inl _ \<Rightarrow> known
      | Inr latest \<Rightarrow> Some \<lparr>ar_latest = latest, ar_settled = False,
          ar_steps = (case known of None \<Rightarrow> [] | Some report \<Rightarrow> ar_steps report) @
            [log_step log (if log_signature log = Some (toLowerCase (OPEN_ORACLE_REPORT_SUBMITTED_TOPIC lib))
              then SubmittedStep else DisputedStep) (Some (sp_game latest))]\<rparr>)"

text \<open>A log of the oracle as the endpoint returns it: of one of the three events, and decodable.\<close>

definition oracle_log :: "oracle_library \<Rightarrow> TransactionLog \<Rightarrow> bool" where
  "oracle_log lib log \<longleftrightarrow>
     \<not> tl_removed log \<and> numbered log \<and> succeeds (reportId log) \<and>
     (is_settlement lib log \<or>
      log_signature log \<in> {Some (toLowerCase (OPEN_ORACLE_REPORT_SUBMITTED_TOPIC lib)), Some (toLowerCase (OPEN_ORACLE_REPORT_DISPUTED_TOPIC lib))}
      \<and> succeeds (decode_preimage lib (tl_data log) (id_of log)))"

lemma apply_log_effect:
  assumes "oracle_log lib log"
  obtains reports' where "apply_log lib reports log = (reports', ok ())"
    and "map_of reports' = (map_of reports)(id_of log := report_after lib (map_of reports (id_of log)) log)"
proof -
  obtain i where i: "reportId log = ok i" using assms by (auto simp: oracle_log_def succeeds_iff)
  then have id: "id_of log = i" by (simp add: id_of_def)
  have block: "logBlockNumber log = ok (block_of log)" using assms by (simp add: oracle_log_def logBlockNumber_ok)
  have removed: "\<not> tl_removed log" using assms by (simp add: oracle_log_def)
  show thesis
  proof (cases "is_settlement lib log")
    case True
    show ?thesis
    proof (cases "map_of reports i")
      case None
      with True removed show ?thesis
        by (intro that [of reports]) (auto simp: apply_log_def i id report_after_def)
    next
      case (Some current)
      with True removed show ?thesis
        by (intro that) (auto simp: apply_log_def i id block report_after_def log_step_def update_conv' Let_def)
    qed
  next
    case False
    then obtain latest where latest: "decode_preimage lib (tl_data log) i = ok latest"
      using assms by (auto simp: oracle_log_def id succeeds_iff)
    from False assms have "log_signature log = Some (toLowerCase (OPEN_ORACLE_REPORT_SUBMITTED_TOPIC lib)) \<or>
        log_signature log = Some (toLowerCase (OPEN_ORACLE_REPORT_DISPUTED_TOPIC lib))"
      by (simp add: oracle_log_def)
    then have "apply_log lib reports log = (AList.update i (the (report_after lib (map_of reports i) log)) reports, ok ())"
      using False removed by (auto simp: apply_log_def i id block latest report_after_def log_step_def)
    moreover have "report_after lib (map_of reports i) log = Some (the (report_after lib (map_of reports i) log))"
      using False by (simp add: report_after_def id latest)
    ultimately show ?thesis by (intro that) (auto simp: id update_conv')
  qed
qed

lemma applyLogs_replays:
  assumes "\<forall>log \<in> set logs. oracle_log lib log"
  obtains reports' where "applyLogs lib reports logs = (reports', ok ())"
    and "\<And>i. map_of reports' i = foldl (report_after lib) (map_of reports i) (filter (\<lambda>log. id_of log = i) logs)"
  using assms
proof (induction logs arbitrary: reports thesis)
  case Nil
  then show ?case by simp
next
  case (Cons log logs)
  from Cons.prems(2) have "oracle_log lib log" by simp
  then obtain next_reports where step: "apply_log lib reports log = (next_reports, ok ())"
      "map_of next_reports = (map_of reports)(id_of log := report_after lib (map_of reports (id_of log)) log)"
    by (rule apply_log_effect)
  from Cons.prems(2) obtain final where "applyLogs lib next_reports logs = (final, ok ())"
      "\<And>i. map_of final i = foldl (report_after lib) (map_of next_reports i) (filter (\<lambda>log. id_of log = i) logs)"
    using Cons.IH [of next_reports] by auto
  with step show ?case by (intro Cons.prems(1)) auto
qed

lemma applyLogs_distinct: "distinct (map fst reports) \<Longrightarrow> distinct (map fst (fst (applyLogs lib reports logs)))"
proof (induction logs arbitrary: reports)
  case (Cons log logs)
  have "distinct (map fst (fst (apply_log lib reports log)))"
    using Cons.prems by (simp add: apply_log_def Let_def distinct_update split: sum.split option.split)
  with Cons.IH show ?case by (auto split: prod.split sum.split simp: prod_eq_iff)
qed simp

text \<open>
  Two entries that agree on what the arbitrager decides by: the latest state and whether it is
  settled. The path shown of the smaller one is the end of the other's.
\<close>

definition same_report :: "ActiveReport \<Rightarrow> ActiveReport \<Rightarrow> bool" where
  "same_report r r' \<longleftrightarrow> ar_latest r = ar_latest r' \<and> ar_settled r = ar_settled r' \<and> suffix (ar_steps r) (ar_steps r')"

abbreviation log_window :: "oracle_library \<Rightarrow> int \<Rightarrow> TransactionLog list \<Rightarrow> TransactionLog list" where
  "log_window lib start \<equiv> window_of start block_of (is_settlement lib)"

abbreviation logs_of :: "int \<Rightarrow> TransactionLog list \<Rightarrow> TransactionLog list" where
  "logs_of i \<equiv> filter (\<lambda>log. id_of log = i)"

text \<open>The logs of a report, from its submission: nothing follows a settlement.\<close>

definition report_life :: "oracle_library \<Rightarrow> TransactionLog list \<Rightarrow> bool" where
  "report_life lib logs \<longleftrightarrow>
     logs \<noteq> [] \<longrightarrow> \<not> is_settlement lib (hd logs) \<and> (\<forall>log \<in> set (butlast logs). \<not> is_settlement lib log)"

lemma report_after_same:
  "rel_option same_report known known' \<Longrightarrow> rel_option same_report (report_after lib known log) (report_after lib known' log)"
  by (cases known; cases known')
    (auto simp: report_after_def same_report_def suffix_def split: sum.splits)

lemma replay_same:
  "rel_option same_report known known' \<Longrightarrow>
    rel_option same_report (foldl (report_after lib) known logs) (foldl (report_after lib) known' logs)"
  by (induction logs arbitrary: known known') (simp_all add: report_after_same)

lemma report_after_state:
  assumes "oracle_log lib log" and "\<not> is_settlement lib log"
  shows "rel_option same_report (report_after lib None log) (report_after lib known log)"
  using assms
  by (auto simp: report_after_def same_report_def oracle_log_def succeeds_iff suffix_def split: option.splits)

lemma report_life_settled_last:
  assumes "report_life lib logs" and "logs = xs @ log # ys" and "is_settlement lib log"
  shows "ys = [] \<and> xs \<noteq> [] \<and> \<not> is_settlement lib (last xs)"
proof -
  have "ys = []"
  proof (rule ccontr)
    assume "ys \<noteq> []"
    then have "log \<in> set (butlast logs)" by (simp add: assms(2) butlast_append)
    with assms show False by (auto simp: report_life_def)
  qed
  moreover have "xs \<noteq> []" using assms by (auto simp: report_life_def)
  ultimately show ?thesis using assms by (auto simp: report_life_def)
qed

text \<open>Replaying the window of a report gives what replaying all its logs gives.\<close>

lemma window_replays:
  assumes "sorted_wrt (\<lambda>l r. block_of l \<le> block_of r) logs" and "\<forall>log \<in> set logs. oracle_log lib log" and "report_life lib logs"
  shows "if \<exists>log \<in> set logs. is_settlement lib log \<and> block_of log < start
    then log_window lib start logs = []
    else rel_option same_report (foldl (report_after lib) None (log_window lib start logs)) (foldl (report_after lib) None logs)"
proof -
  define old where "old = filter (\<lambda>log. block_of log < start) logs"
  define new where "new = filter (\<lambda>log. start \<le> block_of log) logs"
  have logs: "logs = old @ new"
    using sorted_window_split [OF assms(1)] by (simp add: old_def new_def)
  have window: "log_window lib start logs = (if old = [] \<or> is_settlement lib (last old) then [] else [last old]) @ new"
    by (simp add: window_of_def Let_def old_def new_def)
  show ?thesis
  proof (cases "\<exists>log \<in> set logs. is_settlement lib log \<and> block_of log < start")
    case True
    then obtain log where log: "log \<in> set old" "is_settlement lib log" by (auto simp: old_def)
    then obtain xs ys where "old = xs @ log # ys" by (auto dest: split_list)
    moreover from this have "ys @ new = []"
      using report_life_settled_last [OF assms(3), of xs log "ys @ new"] log(2) logs by simp
    ultimately have "log_window lib start logs = []" using log(2) by (simp add: window)
    with True show ?thesis by simp
  next
    case False
    then have state: "\<not> is_settlement lib log" if "log \<in> set old" for log using that by (auto simp: old_def)
    have "rel_option same_report (foldl (report_after lib) None (log_window lib start logs)) (foldl (report_after lib) None logs)"
    proof (cases old rule: rev_cases)
      case Nil
      have "same_report r r" for r by (simp add: same_report_def)
      then have "rel_option same_report x x" for x by (cases x) auto
      moreover have "log_window lib start logs = logs" using window logs Nil by simp
      ultimately show ?thesis by simp
    next
      case (snoc front newest)
      with state have "\<not> is_settlement lib newest" by simp
      moreover from this have "rel_option same_report (report_after lib None newest)
          (report_after lib (foldl (report_after lib) None front) newest)"
        using assms(2) snoc logs by (intro report_after_state) simp_all
      ultimately show ?thesis using snoc by (simp add: window replay_same) (simp add: logs replay_same)
    qed
    with False show ?thesis by (simp only: if_False)
  qed
qed

lemma report_after_latest:
  "report_after lib known log = Some report \<Longrightarrow>
    (\<exists>before. known = Some before \<and> ar_latest before = ar_latest report) \<or>
    decode_preimage lib (tl_data log) (id_of log) = ok (ar_latest report)"
  by (auto simp: report_after_def split: if_splits sum.splits)

lemma replay_latest_decoded:
  "foldl (report_after lib) None logs = Some report \<Longrightarrow>
    \<exists>log \<in> set logs. decode_preimage lib (tl_data log) (id_of log) = ok (ar_latest report)"
proof (induction logs arbitrary: report rule: rev_induct)
  case (snoc log logs)
  then have "report_after lib (foldl (report_after lib) None logs) log = Some report" by simp
  then show ?case using snoc.IH by (fastforce dest: report_after_latest)
qed simp

lemma replay_known:
  assumes "log \<in> set logs" and "oracle_log lib log" and "\<not> is_settlement lib log"
  shows "foldl (report_after lib) None logs \<noteq> None"
proof -
  have keeps: "foldl (report_after lib) (Some report) rest \<noteq> None" for report rest
    by (induction rest arbitrary: report) (auto simp: report_after_def split: sum.splits)
  obtain xs ys where "logs = xs @ log # ys" using assms(1) by (auto dest: split_list)
  moreover have "report_after lib known log \<noteq> None" for known
    using assms(2,3) by (auto simp: report_after_def oracle_log_def succeeds_iff)
  ultimately show ?thesis using keeps by (metis foldl_Cons foldl_append not_None_eq)
qed

end
