(* ===== verification/Report_Replay.thy ===== *)
theory Report_Replay
  imports Report_Window
begin

text \<open>
  The poll against the chain. \<open>cache_holds\<close> is the invariant of the cache between polls, failed
  ones included; \<open>window_known\<close> holds after a poll that read its logs; \<open>follows\<close> are
  the runs of polls. The refinement theorem compares the bounded cache with a replay of the whole chain.
\<close>

section \<open>The cache between polls\<close>































end
