(* ===== verification/Rpc_Errors.thy ===== *)
theory Rpc_Errors
  imports Block_Sync
begin

text \<open>
  The errors of RPC requests and how the bots class them: the error part of
  \<open>bots/shared/src/ethereum/rpc-resilience.ts\<close> and \<open>operationalFailureDisposition\<close> of
  \<open>monitoring/resilience.ts\<close>. The regular expressions of the code are written as the predicates on
  text that they denote. Objects live in a store, as in \<open>Block_Sync\<close>, here with
  their class; \<open>String(value)\<close> of what is not an \<open>Error\<close> is an argument.
\<close>

section \<open>Text\<close>

definition is_word_char :: "char \<Rightarrow> bool" where
  "is_word_char c \<longleftrightarrow> is_digit c \<or> c = CHR ''_'' \<or>
     (let n = of_char c :: nat in 65 \<le> n \<and> n \<le> 90 \<or> 97 \<le> n \<and> n \<le> 122)"

text \<open>A match that starts at a word boundary, for patterns that begin with a word character.\<close>

fun at_boundary :: "(string \<Rightarrow> bool) \<Rightarrow> bool \<Rightarrow> string \<Rightarrow> bool" where
  "at_boundary matches inside [] \<longleftrightarrow> False"
| "at_boundary matches inside (c # cs) \<longleftrightarrow> \<not> inside \<and> matches (c # cs) \<or> at_boundary matches (is_word_char c) cs"

definition ends_word :: "string \<Rightarrow> bool" where
  "ends_word rest \<longleftrightarrow> (case rest of [] \<Rightarrow> True | c # _ \<Rightarrow> \<not> is_word_char c)"

text \<open>\<open>http (408|425|429|5\d\d)\b\<close> at the start of a text.\<close>

definition http_retry_status :: "string \<Rightarrow> bool" where
  "http_retry_status s \<longleftrightarrow> has_prefix ''http '' s \<and>
     (let code = take 3 (drop 5 s)
      in (code = ''408'' \<or> code = ''425'' \<or> code = ''429'' \<or>
           length code = 3 \<and> code ! 0 = CHR ''5'' \<and> is_digit (code ! 1) \<and> is_digit (code ! 2)) \<and>
         ends_word (drop 8 s))"

section \<open>Errors\<close>

datatype error_class = PlainError | RpcErrorClass | EndpointPoolFailureClass | EndpointCheckFailureClass | ConnectivityDegradedClass

datatype error_code = NumberCode int | TextCode string

datatype OperationalFailureDisposition = ConnectivityDegraded | SafetyPaused

datatype endpoint_kind = PrivateRelay | PublicRpc | ReadRpc

datatype check_status = CheckFailed | CheckHealthy

record EndpointCheck =
  ec_chainId :: "int option"
  ec_checkedAt :: string
  ec_error :: "string option"
  ec_failureDisposition :: "OperationalFailureDisposition option"
  ec_kind :: endpoint_kind
  ec_status :: check_status
  ec_target :: string

record classified_error = error_object +
  ce_class :: error_class
  ce_name :: string
  ce_code :: "error_code option"
  ce_checks :: "EndpointCheck list"

text \<open>The objects that exist, and the text of a value that is not an \<open>Error\<close>.\<close>

record error_world =
  ew_objects :: "(nat \<times> classified_error) list"
  ew_String :: "thrown_value \<Rightarrow> string"

text \<open>What the pool throws: a value that was thrown to it, an \<open>Error\<close> it makes, or its own failure class.\<close>

datatype pool_error =
  Existing thrown_value
| NewError string "pool_error option"
| EndpointPoolFailure "(string \<times> string) list"

definition error_of :: "error_world \<Rightarrow> thrown_value \<Rightarrow> classified_error option" where
  "error_of world value = (case value of
     ErrorRef ref \<Rightarrow> (case map_of (ew_objects world) ref of
         None \<Rightarrow> None
       | Some object \<Rightarrow> if eo_isError object then Some object else None)
   | _ \<Rightarrow> None)"

definition text_message :: "classified_error \<Rightarrow> string" where
  "text_message object = (case eo_message object of None \<Rightarrow> [] | Some text \<Rightarrow> text)"

definition pool_failure_message :: "(string \<times> string) list \<Rightarrow> string" where
  "pool_failure_message failures =
     ''Every read RPC is unavailable: '' @ join_with ''; '' (map (\<lambda>(error, target). target @ '': '' @ error) failures)"

definition errorMessage :: "error_world \<Rightarrow> pool_error \<Rightarrow> string" where
  "errorMessage world error = (case error of
     Existing thrown \<Rightarrow> (case error_of world thrown of
         Some object \<Rightarrow> text_message object
       | None \<Rightarrow> ew_String world thrown)
   | NewError message _ \<Rightarrow> message
   | EndpointPoolFailure failures \<Rightarrow> pool_failure_message failures)"

definition is_error :: "error_world \<Rightarrow> pool_error \<Rightarrow> bool" where
  "is_error world error = (case error of Existing thrown \<Rightarrow> error_of world thrown \<noteq> None | _ \<Rightarrow> True)"

definition is_pool_failure :: "error_world \<Rightarrow> pool_error \<Rightarrow> bool" where
  "is_pool_failure world error = (case error of
     Existing thrown \<Rightarrow> (case error_of world thrown of
         Some object \<Rightarrow> ce_class object = EndpointPoolFailureClass
       | None \<Rightarrow> False)
   | NewError _ _ \<Rightarrow> False
   | EndpointPoolFailure _ \<Rightarrow> True)"

section \<open>Which failures move on to another endpoint\<close>

definition retryable_text :: "string \<Rightarrow> string \<Rightarrow> bool" where
  "retryable_text name text =
     (let message = toLowerCase text
      in name = ''AbortError'' \<or> name = ''TimeoutError'' \<or> text_includes message ''fetch failed''
         \<or> text_includes message ''unable to connect'' \<or> text_includes message ''connection refused''
         \<or> text_includes message ''dns'')"

definition retryableRpcFailure :: "error_world \<Rightarrow> pool_error \<Rightarrow> bool" where
  "retryableRpcFailure world error =
     (if is_pool_failure world error then True
      else case error of
        Existing thrown \<Rightarrow> (case error_of world thrown of
            None \<Rightarrow> False
          | Some object \<Rightarrow>
              if ce_class object = RpcErrorClass then
                (case ce_code object of
                   Some (NumberCode code) \<Rightarrow> code = 408 \<or> code = 425 \<or> code = 429 \<or> code \<ge> 500
                 | Some (TextCode _) \<Rightarrow> False
                 | None \<Rightarrow>
                     let message = toLowerCase (text_message object)
                     in text_includes message ''timed out'' \<or> http_retry_status message)
              else retryable_text (ce_name object) (text_message object))
      | NewError message _ \<Rightarrow> retryable_text ''Error'' message
      | EndpointPoolFailure _ \<Rightarrow> True)"

text \<open>The cause walk of \<open>historyUnavailableError\<close>, through the errors the pool makes.\<close>

fun history_unavailable :: "error_world \<Rightarrow> pool_error \<Rightarrow> bool" where
  "history_unavailable world (Existing thrown) =
     historyUnavailableError (map (\<lambda>(ref, object). (ref, error_object.truncate object)) (ew_objects world)) thrown"
| "history_unavailable world (NewError message cause) =
     (history_message message \<or> (case cause of None \<Rightarrow> False | Some inner \<Rightarrow> history_unavailable world inner))"
| "history_unavailable world (EndpointPoolFailure failures) = history_message (pool_failure_message failures)"

definition endpointFailoverEligible :: "error_world \<Rightarrow> string \<Rightarrow> pool_error \<Rightarrow> bool" where
  "endpointFailoverEligible world method error \<longleftrightarrow>
     retryableRpcFailure world error \<or> method = ''eth_getLogs'' \<and> history_unavailable world error"

section \<open>Messages\<close>

definition safeErrorMessage :: "error_world \<Rightarrow> pool_error \<Rightarrow> string \<Rightarrow> string \<Rightarrow> string" where
  "safeErrorMessage world error url target = replace_all url target (errorMessage world error)"

definition endpointRequestFailureDetail :: "error_world \<Rightarrow> pool_error \<Rightarrow> string \<Rightarrow> string \<Rightarrow> string \<Rightarrow> string" where
  "endpointRequestFailureDetail world error url target method =
     (let detail = safeErrorMessage world error url target;
          normalizedDetail = strip_prefix (''RPC '' @ target @ '' '') detail
      in if text_includes normalizedDetail method
         then (if has_prefix ''HTTP '' normalizedDetail then ''returned '' @ normalizedDetail else normalizedDetail)
         else if has_prefix ''HTTP '' normalizedDetail
         then ''returned '' @ normalizedDetail @ '' while calling '' @ method
         else ''failed while calling '' @ method @ '': '' @ normalizedDetail)"

definition endpointRequestFailure :: "error_world \<Rightarrow> pool_error \<Rightarrow> string \<Rightarrow> string \<Rightarrow> string \<Rightarrow> pool_error" where
  "endpointRequestFailure world error url target method =
     NewError (''RPC '' @ target @ '' '' @ endpointRequestFailureDetail world error url target method) (Some error)"

text \<open>\<open>/\bRPC https?:\/\//\<close> and \<open>/\beth_[A-Za-z0-9_]+\b/\<close>: the error already has its context.\<close>

definition has_rpc_context :: "string \<Rightarrow> bool" where
  "has_rpc_context detail \<longleftrightarrow>
     at_boundary (\<lambda>s. has_prefix ''RPC http://'' s \<or> has_prefix ''RPC https://'' s) False detail \<and>
     at_boundary (\<lambda>s. has_prefix ''eth_'' s \<and> (case drop 4 s of [] \<Rightarrow> False | c # _ \<Rightarrow> is_word_char c)) False detail"

definition rpcFailureWithContext :: "error_world \<Rightarrow> pool_error \<Rightarrow> string \<Rightarrow> string \<Rightarrow> pool_error" where
  "rpcFailureWithContext world error target method =
     (if is_pool_failure world error then error
      else
        let detail = errorMessage world error
        in if has_rpc_context detail then (if is_error world error then error else NewError detail None)
           else
             let normalizedDetail = strip_prefix (''RPC '' @ target @ '' '') detail
             in NewError
               (if text_includes normalizedDetail method then ''RPC '' @ target @ '' '' @ normalizedDetail
                else ''RPC '' @ target @ '' failed while calling '' @ method @ '': '' @ normalizedDetail) (Some error))"

section \<open>Pausing or waiting\<close>

text \<open>
  \<open>operationalFailureDisposition\<close> follows causes and stops only at an error that is its own cause:
  on a longer cycle without a telling error the recursion does not end, which is the value \<open>None\<close>.
\<close>

definition http_retry_anywhere :: "string \<Rightarrow> bool" where
  "http_retry_anywhere message = at_boundary http_retry_status False message"

definition degraded_text :: "string \<Rightarrow> string \<Rightarrow> bool" where
  "degraded_text name text =
     (let message = toLowerCase text
      in name = ''AbortError'' \<or> name = ''HttpRequestError'' \<or> name = ''NetworkError'' \<or> name = ''TimeoutError''
         \<or> text_includes message ''http request failed'' \<or> text_includes message ''timed out''
         \<or> text_includes message ''connection refused'' \<or> text_includes message ''unable to connect''
         \<or> text_includes message ''fetch failed'' \<or> http_retry_anywhere message)"

text \<open>What an error says by itself; \<open>None\<close> when its cause decides.\<close>

definition own_disposition :: "classified_error \<Rightarrow> OperationalFailureDisposition option" where
  "own_disposition object =
     (if ce_class object = ConnectivityDegradedClass \<or> ce_class object = EndpointPoolFailureClass then Some ConnectivityDegraded
      else if ce_class object = EndpointCheckFailureClass then
        (let failedChecks = filter (\<lambda>check. ec_status check = CheckFailed) (ce_checks object)
         in if failedChecks \<noteq> [] \<and> list_all (\<lambda>check. ec_failureDisposition check = Some ConnectivityDegraded) failedChecks
            then Some ConnectivityDegraded else Some SafetyPaused)
      else if ce_class object = RpcErrorClass \<and> ce_code object \<noteq> None then Some SafetyPaused
      else
        let message = toLowerCase (text_message object)
        in if ce_class object = RpcErrorClass \<and>
              (text_includes message ''timed out'' \<or> text_includes message ''fetch failed'' \<or> http_retry_status message)
           then Some ConnectivityDegraded
           else if degraded_text (ce_name object) (text_message object) then Some ConnectivityDegraded
           else None)"

partial_function (option) operationalFailureDisposition ::
  "error_world \<Rightarrow> thrown_value \<Rightarrow> OperationalFailureDisposition option" where
  "operationalFailureDisposition world error =
     (case error_of world error of
        None \<Rightarrow> Some SafetyPaused
      | Some object \<Rightarrow>
          (case own_disposition object of
             Some disposition \<Rightarrow> Some disposition
           | None \<Rightarrow>
               if eo_cause object \<noteq> error then operationalFailureDisposition world (eo_cause object)
               else Some SafetyPaused))"

text \<open>The recursion of the code: from an error that does not tell, to another value it names as its cause.\<close>

definition cause_step :: "error_world \<Rightarrow> thrown_value \<Rightarrow> thrown_value \<Rightarrow> bool" where
  "cause_step world error cause \<longleftrightarrow>
     (\<exists>object. error_of world error = Some object \<and> own_disposition object = None \<and> eo_cause object = cause \<and> cause \<noteq> error)"

lemma cause_step_unique: "cause_step world error a \<Longrightarrow> cause_step world error b \<Longrightarrow> a = b"
  by (auto simp: cause_step_def)

lemma disposition_step:
  "cause_step world error cause \<Longrightarrow> operationalFailureDisposition world error = operationalFailureDisposition world cause"
  by (subst operationalFailureDisposition.simps) (auto simp: cause_step_def)

lemma disposition_steps:
  "(cause_step world)\<^sup>*\<^sup>* error cause \<Longrightarrow> operationalFailureDisposition world error = operationalFailureDisposition world cause"
  by (induction rule: converse_rtranclp_induct) (simp_all add: disposition_step)

definition own_answer :: "error_world \<Rightarrow> thrown_value \<Rightarrow> OperationalFailureDisposition" where
  "own_answer world error =
     (case error_of world error of None \<Rightarrow> SafetyPaused
      | Some object \<Rightarrow> (case own_disposition object of None \<Rightarrow> SafetyPaused | Some disposition \<Rightarrow> disposition))"

lemma disposition_end:
  "\<nexists>cause. cause_step world error cause \<Longrightarrow> operationalFailureDisposition world error = Some (own_answer world error)"
  by (subst operationalFailureDisposition.simps) (auto simp: cause_step_def own_answer_def split: option.splits)

lemma disposition_reached:
  assumes returned: "operationalFailureDisposition world error = Some disposition"
  shows "\<exists>cause. (cause_step world)\<^sup>*\<^sup>* error cause \<and> (\<nexists>next. cause_step world cause next) \<and> own_answer world cause = disposition"
proof (rule operationalFailureDisposition.raw_induct
    [where P = "\<lambda>world error disposition. \<exists>cause. (cause_step world)\<^sup>*\<^sup>* error cause \<and>
        (\<nexists>next. cause_step world cause next) \<and> own_answer world cause = disposition", OF _ returned])
  fix recurse world error disposition
  assume IH: "\<And>world error disposition. recurse world error = Some disposition \<Longrightarrow>
      \<exists>cause. (cause_step world)\<^sup>*\<^sup>* error cause \<and> (\<nexists>next. cause_step world cause next) \<and> own_answer world cause = disposition"
    and result: "(case error_of world error of
        None \<Rightarrow> Some SafetyPaused
      | Some object \<Rightarrow>
          (case own_disposition object of
             Some disposition \<Rightarrow> Some disposition
           | None \<Rightarrow> if eo_cause object \<noteq> error then recurse world (eo_cause object) else Some SafetyPaused)) = Some disposition"
  show "\<exists>cause. (cause_step world)\<^sup>*\<^sup>* error cause \<and> (\<nexists>next. cause_step world cause next) \<and> own_answer world cause = disposition"
  proof (cases "\<exists>cause. cause_step world error cause")
    case True
    then obtain cause where step: "cause_step world error cause" ..
    with result have "recurse world cause = Some disposition" by (auto simp: cause_step_def)
    from IH [OF this] converse_rtranclp_into_rtranclp [of "cause_step world", OF step] show ?thesis by blast
  next
    case False
    with result have "own_answer world error = disposition"
      by (auto simp: cause_step_def own_answer_def split: option.splits if_splits)
    with False show ?thesis by blast
  qed
qed

lemma chain_in_store: "cause_step world error cause \<Longrightarrow> error \<in> ErrorRef ` fst ` set (ew_objects world)"
  by (auto simp: cause_step_def error_of_def image_image dest!: map_of_SomeD split: thrown_value.splits option.splits if_splits)
    (metis fst_conv image_eqI)

lemma disposition_cycle:
  assumes "operationalFailureDisposition world error = None"
  obtains cause where "(cause_step world)\<^sup>*\<^sup>* error cause" "(cause_step world)\<^sup>+\<^sup>+ cause cause"
proof -
  define follow where "follow current = (SOME cause. cause_step world current cause)" for current
  have follow: "cause_step world current (follow current) \<and> operationalFailureDisposition world (follow current) = None"
    if "operationalFailureDisposition world current = None" for current
  proof -
    from that have "\<exists>cause. cause_step world current cause" using disposition_end by fastforce
    then have "cause_step world current (follow current)" unfolding follow_def by (rule someI_ex)
    with that show ?thesis by (simp add: disposition_step)
  qed
  define at where "at n = (follow ^^ n) error" for n
  have none: "operationalFailureDisposition world (at n) = None" for n
    by (induction n) (simp_all add: at_def assms follow)
  then have steps: "cause_step world (at n) (at (Suc n))" for n using follow by (simp add: at_def)
  then have "range at \<subseteq> ErrorRef ` fst ` set (ew_objects world)" using chain_in_store by blast
  then have "finite (range at)" by (rule finite_subset) simp
  then have "\<not> inj at" using finite_imageD by (metis infinite_UNIV_nat)
  then obtain m n where "at m = at n" "m < n" by (metis injI linorder_neqE_nat)
  have forward: "(cause_step world)\<^sup>*\<^sup>* (at i) (at (i + k))" for i k
    by (induction k) (auto intro: rtranclp.rtrancl_into_rtrancl steps)
  have "(cause_step world)\<^sup>*\<^sup>* (at (Suc m)) (at n)"
    using forward [of "Suc m" "n - Suc m"] \<open>m < n\<close> by simp
  then have "(cause_step world)\<^sup>+\<^sup>+ (at m) (at m)"
    using steps [of m] \<open>at m = at n\<close> by (metis rtranclp_into_tranclp2)
  moreover have "(cause_step world)\<^sup>*\<^sup>* error (at m)" using forward [of 0 m] by (simp add: at_def)
  ultimately show ?thesis by (rule that [rotated])
qed

lemma cycle_goes_on:
  assumes "(cause_step world)\<^sup>*\<^sup>* error final" and "(cause_step world)\<^sup>+\<^sup>+ error error"
  shows "\<exists>next. cause_step world final next"
proof -
  from assms have "(cause_step world)\<^sup>+\<^sup>+ final final"
  proof (induction rule: rtranclp_induct)
    case (step y z)
    from step.IH [OF step.prems] obtain y' where "cause_step world y y'" "(cause_step world)\<^sup>*\<^sup>* y' y" by (metis tranclpD)
    then have "(cause_step world)\<^sup>*\<^sup>* z y" using step.hyps(2) cause_step_unique by metis
    with step.hyps(2) show ?case by (metis rtranclp_into_tranclp1)
  qed
  then show ?thesis by (metis tranclpD)
qed

text \<open>
  C25: The classification of an operational failure: it degrades the connectivity only when an
  error on the chain of causes, the first that tells, says so; every other failure pauses; and
  it does not return exactly when the causes run into a cycle of several silent errors (a walk of the causes in
  the block synchronisation stops there).
\<close>

theorem failure_disposition_returns_iff:
  "(operationalFailureDisposition world error = Some disposition \<longleftrightarrow>
      (\<exists>final. (cause_step world)\<^sup>*\<^sup>* error final \<and> (\<nexists>cause. cause_step world final cause) \<and> own_answer world final = disposition)) \<and>
   (operationalFailureDisposition world error = None \<longleftrightarrow>
      (\<exists>cause. (cause_step world)\<^sup>*\<^sup>* error cause \<and> (cause_step world)\<^sup>+\<^sup>+ cause cause))"
proof (intro conjI iffI)
  assume "operationalFailureDisposition world error = Some disposition"
  then show "\<exists>final. (cause_step world)\<^sup>*\<^sup>* error final \<and> (\<nexists>cause. cause_step world final cause) \<and> own_answer world final = disposition"
    by (rule disposition_reached)
next
  assume "\<exists>final. (cause_step world)\<^sup>*\<^sup>* error final \<and> (\<nexists>cause. cause_step world final cause) \<and> own_answer world final = disposition"
  then show "operationalFailureDisposition world error = Some disposition"
    using disposition_steps disposition_end by metis
next
  assume "operationalFailureDisposition world error = None"
  then show "\<exists>cause. (cause_step world)\<^sup>*\<^sup>* error cause \<and> (cause_step world)\<^sup>+\<^sup>+ cause cause"
    by (rule disposition_cycle) blast
next
  assume "\<exists>cause. (cause_step world)\<^sup>*\<^sup>* error cause \<and> (cause_step world)\<^sup>+\<^sup>+ cause cause"
  then obtain cause where cycle: "(cause_step world)\<^sup>*\<^sup>* error cause" "(cause_step world)\<^sup>+\<^sup>+ cause cause" by blast
  show "operationalFailureDisposition world error = None"
  proof (cases "operationalFailureDisposition world cause")
    case None
    with disposition_steps [OF cycle(1)] show ?thesis by simp
  next
    case (Some disposition)
    then show ?thesis using disposition_reached cycle_goes_on [OF _ cycle(2)] by blast
  qed
qed

end
