(* ===== verification/Rpc_Pool.thy ===== *)
theory Rpc_Pool
  imports Rpc_Errors Complex_Main
begin

text \<open>
  The pool of RPC endpoints the bots read the chain through, \<open>createRpcEndpointPool\<close> of
  \<open>bots/shared/src/ethereum/rpc-resilience.ts\<close>. The state is that of its closure: the health of
  each endpoint, in the order of the URLs, and the preferred index; an endpoint is named by its
  index. Requests overlap: one that has called an endpoint waits for its reply, and a settled
  reply is picked up later, so the steps are a relation over the requests in flight. A clock reading,
  a random number and a reply are parts of an event. A random number is a rational; rounding is of
  the exact product. Times are those a \<open>Date\<close> can hold, and parsing a URL is an argument.
\<close>

section \<open>Dates\<close>

text \<open>\<open>new Date(milliseconds).toISOString()\<close>: the calendar date of a day since 1970 and the time of day.\<close>

definition civil_date :: "int \<Rightarrow> int \<times> int \<times> int" where
  "civil_date days =
     (let z = days + 719468;
          era = z div 146097;
          day_of_era = z mod 146097;
          year_of_era = (day_of_era - day_of_era div 1460 + day_of_era div 36524 - day_of_era div 146096) div 365;
          day_of_year = day_of_era - (365 * year_of_era + year_of_era div 4 - year_of_era div 100);
          shifted_month = (5 * day_of_year + 2) div 153;
          month = (if shifted_month < 10 then shifted_month + 3 else shifted_month - 9)
      in (year_of_era + era * 400 + (if month \<le> 2 then 1 else 0), month, day_of_year - (153 * shifted_month + 2) div 5 + 1))"

text \<open>The decimal digits of a number that has at most \<open>width\<close> of them.\<close>

definition pad_number :: "nat \<Rightarrow> int \<Rightarrow> string" where
  "pad_number width n = map (\<lambda>k. digit_char (nat (n div 10 ^ k mod 10))) (rev [0..<width])"

definition toISOString :: "int \<Rightarrow> string" where
  "toISOString milliseconds =
     (let (year, month, day) = civil_date (milliseconds div 86400000);
          time = milliseconds mod 86400000
      in (if 0 \<le> year \<and> year \<le> 9999 then pad_number 4 year
          else (if year < 0 then ''-'' else ''+'') @ pad_number 6 \<bar>year\<bar>)
         @ ''-'' @ pad_number 2 month @ ''-'' @ pad_number 2 day
         @ ''T'' @ pad_number 2 (time div 3600000) @ '':'' @ pad_number 2 (time div 60000 mod 60)
         @ '':'' @ pad_number 2 (time div 1000 mod 60) @ ''.'' @ pad_number 3 (time mod 1000) @ ''Z'')"

section \<open>The pool\<close>

datatype RpcEndpointStatus = Degraded | Healthy | Offline | Unknown

record RpcEndpointHealth =
  eh_consecutiveFailures :: int
  eh_error :: "string option"
  eh_lastFailureAt :: "string option"
  eh_lastSuccessAt :: "string option"
  eh_latencyMilliseconds :: "int option"
  eh_nextRetryAt :: "string option"
  eh_status :: RpcEndpointStatus
  eh_target :: string

record MutableEndpointHealth = RpcEndpointHealth +
  eh_nextRetryMilliseconds :: int
  eh_url :: string

record RpcEndpointPoolOptions =
  po_baseCooldownMilliseconds :: "int option"
  po_maximumCooldownMilliseconds :: "int option"
  po_timeoutMilliseconds :: "int option"

record pool_settings =
  ps_timeoutMilliseconds :: int
  ps_baseCooldownMilliseconds :: int
  ps_maximumCooldownMilliseconds :: int

datatype request_scope = Pooled | Bound nat

datatype rpc_value = TextResult string | ListResult string | NullResult | ObjectResult string | OtherResult string

text \<open>
  Where a request stands: waiting for the reply of an endpoint it called at some time; with an accepted
  reply, or a refused one, it has not yet acted on; finished.
\<close>

datatype request_phase =
  Calling nat int
| Answered nat rpc_value
| Refused nat pool_error
| Finished "pool_error + rpc_value"

record RpcRequestContext =
  rc_method :: string
  rc_target :: string

record pool_request =
  pq_scope :: request_scope
  pq_method :: string
  pq_remaining :: "nat list"
  pq_failures :: "(string \<times> string) list"
  pq_context :: "RpcRequestContext option"
  pq_phase :: request_phase

record endpoint_pool =
  pl_endpoints :: "MutableEndpointHealth list"
  pl_preferredIndex :: nat
  pl_requests :: "pool_request list"

definition validatedInteger :: "int \<Rightarrow> string \<Rightarrow> int \<Rightarrow> int \<Rightarrow> int result" where
  "validatedInteger n label minimum maximum =
     (if n < minimum \<or> n > maximum
      then throw (label @ '' must be an integer from '' @ bigint_to_string minimum @ '' to '' @ bigint_to_string maximum)
      else ok n)"

text \<open>\<open>[...new Set(values)]\<close>.\<close>

definition unique_values :: "'a list \<Rightarrow> 'a list" where
  "unique_values xs = rev (remdups (rev xs))"

definition initial_endpoint :: "string \<Rightarrow> string \<Rightarrow> MutableEndpointHealth" where
  "initial_endpoint url target = \<lparr>eh_consecutiveFailures = 0, eh_error = None, eh_lastFailureAt = None, eh_lastSuccessAt = None,
     eh_latencyMilliseconds = None, eh_nextRetryAt = None, eh_status = Unknown, eh_target = target,
     eh_nextRetryMilliseconds = 0, eh_url = url\<rparr>"

definition createRpcEndpointPool ::
  "(string \<Rightarrow> string result) \<Rightarrow> string list \<Rightarrow> RpcEndpointPoolOptions \<Rightarrow> (pool_settings \<times> endpoint_pool) result" where
  "createRpcEndpointPool origin urls options =
     (let uniqueUrls = unique_values urls in
      if uniqueUrls = [] then throw ''RPC endpoint pool requires at least one URL'' else
      bindR (validatedInteger (case po_timeoutMilliseconds options of None \<Rightarrow> 15000 | Some n \<Rightarrow> n) ''RPC timeoutMilliseconds'' 1 300000)
      (\<lambda>timeout. bindR (validatedInteger (case po_baseCooldownMilliseconds options of None \<Rightarrow> 1000 | Some n \<Rightarrow> n)
          ''RPC baseCooldownMilliseconds'' 1 300000)
      (\<lambda>base. bindR (validatedInteger (case po_maximumCooldownMilliseconds options of None \<Rightarrow> 30000 | Some n \<Rightarrow> n)
          ''RPC maximumCooldownMilliseconds'' base 3600000)
      (\<lambda>maximum. bindR (mapR (\<lambda>url. bindR (origin url) (\<lambda>target. ok (initial_endpoint url target))) uniqueUrls)
      (\<lambda>endpoints. ok (\<lparr>ps_timeoutMilliseconds = timeout, ps_baseCooldownMilliseconds = base, ps_maximumCooldownMilliseconds = maximum\<rparr>,
          \<lparr>pl_endpoints = endpoints, pl_preferredIndex = 0, pl_requests = []\<rparr>))))))"

definition totalTimeoutMilliseconds :: "pool_settings \<Rightarrow> endpoint_pool \<Rightarrow> int" where
  "totalTimeoutMilliseconds settings pool =
     min 300000 (ps_timeoutMilliseconds settings * int (length (pl_endpoints pool)) + 1000)"

section \<open>One endpoint\<close>

definition is_quantity :: "string \<Rightarrow> bool" where
  "is_quantity s \<longleftrightarrow> has_prefix ''0x'' s \<and> drop 2 s \<noteq> [] \<and> list_all is_hex_digit (drop 2 s)"

definition is_hex_data :: "string \<Rightarrow> bool" where
  "is_hex_data s \<longleftrightarrow> has_prefix ''0x'' s \<and> even (length (drop 2 s)) \<and> list_all is_hex_digit (drop 2 s)"

definition quantityMethods :: "string list" where
  "quantityMethods = [''eth_blockNumber'', ''eth_chainId'', ''eth_estimateGas'', ''eth_gasPrice'', ''eth_getBalance'', ''eth_getTransactionCount'']"

definition validateRpcResult :: "string \<Rightarrow> rpc_value \<Rightarrow> pool_error + rpc_value" where
  "validateRpcResult method reply =
     (if method \<in> set quantityMethods \<and> (case reply of TextResult s \<Rightarrow> \<not> is_quantity s | _ \<Rightarrow> True)
      then Inl (NewError (''RPC returned an invalid '' @ method @ '' quantity'') None)
      else if (method = ''eth_call'' \<or> method = ''eth_getCode'') \<and> (case reply of TextResult s \<Rightarrow> \<not> is_hex_data s | _ \<Rightarrow> True)
      then Inl (NewError (''RPC returned invalid data for '' @ method) None)
      else if method = ''eth_getLogs'' \<and> (case reply of ListResult _ \<Rightarrow> False | _ \<Rightarrow> True)
      then Inl (NewError ''RPC returned invalid logs'' None)
      else if method = ''eth_getBlockByNumber'' \<and> (case reply of NullResult \<Rightarrow> False | ObjectResult _ \<Rightarrow> False | _ \<Rightarrow> True)
      then Inl (NewError ''RPC returned an invalid block'' None)
      else Inr reply)"

text \<open>A reply as \<open>requestEndpoint\<close> sees it: what the transport threw, or a validated result.\<close>

definition checked_reply :: "string \<Rightarrow> thrown_value + rpc_value \<Rightarrow> pool_error + rpc_value" where
  "checked_reply method reply = (case reply of Inl thrown \<Rightarrow> Inl (Existing thrown) | Inr result \<Rightarrow> validateRpcResult method result)"

definition endpoint_succeeded :: "int \<Rightarrow> int \<Rightarrow> MutableEndpointHealth \<Rightarrow> MutableEndpointHealth" where
  "endpoint_succeeded startedAt completedAt endpoint = endpoint
     \<lparr>eh_consecutiveFailures := 0, eh_error := None, eh_lastSuccessAt := Some (toISOString completedAt),
      eh_latencyMilliseconds := Some (max 0 (completedAt - startedAt)), eh_nextRetryAt := None,
      eh_nextRetryMilliseconds := 0, eh_status := Healthy\<rparr>"

definition math_round :: "rat \<Rightarrow> int" where
  "math_round x = \<lfloor>x + 1 / 2\<rfloor>"

definition jittered :: "int \<Rightarrow> int \<Rightarrow> int \<Rightarrow> rat \<Rightarrow> int" where
  "jittered base maximum failures random =
     (let cooldown = min maximum (base * 2 ^ nat (min (failures - 1) 20))
      in min maximum (math_round (of_int cooldown * (1 + max 0 (min 1 random) * (1 / 5)))))"

definition endpoint_failed ::
  "error_world \<Rightarrow> pool_settings \<Rightarrow> int \<Rightarrow> int \<Rightarrow> rat \<Rightarrow> pool_error \<Rightarrow> MutableEndpointHealth \<Rightarrow> MutableEndpointHealth" where
  "endpoint_failed world settings startedAt failedAt random error endpoint =
     (let failures = eh_consecutiveFailures endpoint + 1;
          nextRetry = failedAt +
            jittered (ps_baseCooldownMilliseconds settings) (ps_maximumCooldownMilliseconds settings) failures random
      in endpoint
        \<lparr>eh_consecutiveFailures := failures, eh_error := Some (safeErrorMessage world error (eh_url endpoint) (eh_target endpoint)),
         eh_lastFailureAt := Some (toISOString failedAt), eh_latencyMilliseconds := Some (max 0 (failedAt - startedAt)),
         eh_nextRetryMilliseconds := nextRetry, eh_nextRetryAt := Some (toISOString nextRetry),
         eh_status := (if failures = 1 then Degraded else Offline)\<rparr>)"

definition endpoint_after_reply ::
  "error_world \<Rightarrow> pool_settings \<Rightarrow> string \<Rightarrow> int \<Rightarrow> int \<Rightarrow> rat \<Rightarrow> thrown_value + rpc_value \<Rightarrow> MutableEndpointHealth \<Rightarrow> MutableEndpointHealth" where
  "endpoint_after_reply world settings method startedAt time random reply endpoint =
     (case checked_reply method reply of
        Inr _ \<Rightarrow> endpoint_succeeded startedAt time endpoint
      | Inl error \<Rightarrow>
          if endpointFailoverEligible world method error
          then endpoint_failed world settings startedAt time random error endpoint
          else endpoint)"

section \<open>Requests\<close>

definition orderedEndpoints :: "int \<Rightarrow> endpoint_pool \<Rightarrow> nat list" where
  "orderedEndpoints currentTime pool =
     (let endpoints = pl_endpoints pool;
          indices = [0..<length endpoints];
          rotated = drop (pl_preferredIndex pool) indices @ take (pl_preferredIndex pool) indices;
          eligible = filter (\<lambda>i. eh_nextRetryMilliseconds (endpoints ! i) \<le> currentTime) rotated;
          recoveryProbes = filter (\<lambda>i. eh_status (endpoints ! i) = Degraded \<or> eh_status (endpoints ! i) = Offline) eligible
      in if eligible = [] then [] else recoveryProbes @ filter (\<lambda>i. i \<notin> set recoveryProbes) eligible)"

definition cooling_text :: "string \<Rightarrow> MutableEndpointHealth \<Rightarrow> string" where
  "cooling_text method endpoint =
     ''cooling down until '' @ (case eh_nextRetryAt endpoint of None \<Rightarrow> ''the next retry window'' | Some time \<Rightarrow> time)
       @ '' before calling '' @ method"

definition failure_detail :: "error_world \<Rightarrow> string \<Rightarrow> MutableEndpointHealth \<Rightarrow> pool_error \<Rightarrow> string \<times> string" where
  "failure_detail world method endpoint error =
     (endpointRequestFailureDetail world error (eh_url endpoint) (eh_target endpoint) method, eh_target endpoint)"

text \<open>\<open>request\<close> of the pooled transport.\<close>

definition begin_request :: "string \<Rightarrow> int \<Rightarrow> endpoint_pool \<Rightarrow> endpoint_pool" where
  "begin_request method time pool =
     (let (remaining, phase) = (case orderedEndpoints time pool of
            [] \<Rightarrow> ([], Finished (Inl (EndpointPoolFailure (map (\<lambda>endpoint. (cooling_text method endpoint, eh_target endpoint)) (pl_endpoints pool)))))
          | first # rest \<Rightarrow> (rest, Calling first time))
      in pool \<lparr>pl_requests := pl_requests pool @
           [\<lparr>pq_scope = Pooled, pq_method = method, pq_remaining = remaining, pq_failures = [], pq_context = None, pq_phase = phase\<rparr>]\<rparr>)"

text \<open>\<open>request\<close> of the transport for one endpoint.\<close>

definition begin_bound_request :: "nat \<Rightarrow> string \<Rightarrow> int \<Rightarrow> endpoint_pool \<Rightarrow> endpoint_pool" where
  "begin_bound_request i method time pool =
     (let endpoint = pl_endpoints pool ! i;
          phase = (if eh_nextRetryMilliseconds endpoint > time
                   then Finished (Inl (EndpointPoolFailure [(cooling_text method endpoint, eh_target endpoint)]))
                   else Calling i time)
      in pool \<lparr>pl_requests := pl_requests pool @
           [\<lparr>pq_scope = Bound i, pq_method = method, pq_remaining = [], pq_failures = [], pq_context = None, pq_phase = phase\<rparr>]\<rparr>)"

definition transportFor :: "string \<Rightarrow> endpoint_pool \<Rightarrow> nat result" where
  "transportFor url pool =
     (case List.find (\<lambda>i. eh_url (pl_endpoints pool ! i) = url) [0..<length (pl_endpoints pool)] of
        None \<Rightarrow> throw ''Cannot create an RPC transport outside the endpoint pool''
      | Some i \<Rightarrow> ok i)"

text \<open>The reply of the called endpoint arrives.\<close>

definition receive_reply ::
  "error_world \<Rightarrow> pool_settings \<Rightarrow> nat \<Rightarrow> int \<Rightarrow> rat \<Rightarrow> thrown_value + rpc_value \<Rightarrow> endpoint_pool \<Rightarrow> endpoint_pool" where
  "receive_reply world settings r time random reply pool =
     (let request = pl_requests pool ! r in
      case pq_phase request of
        Calling i startedAt \<Rightarrow>
          let endpoint = pl_endpoints pool ! i;
              request' = (case checked_reply (pq_method request) reply of
                  Inr result \<Rightarrow> request \<lparr>pq_context := Some \<lparr>rc_method = pq_method request, rc_target = eh_target endpoint\<rparr>,
                      pq_phase := Answered i result\<rparr>
                | Inl error \<Rightarrow> request \<lparr>pq_phase := Refused i error\<rparr>)
          in pool \<lparr>pl_endpoints := (pl_endpoints pool)[i := endpoint_after_reply world settings (pq_method request) startedAt time random reply endpoint],
                   pl_requests := (pl_requests pool)[r := request']\<rparr>
      | _ \<Rightarrow> pool)"

text \<open>The request goes on after the reply: it returns, throws, or calls the next candidate.\<close>

definition resume_request :: "error_world \<Rightarrow> nat \<Rightarrow> int \<Rightarrow> endpoint_pool \<Rightarrow> endpoint_pool" where
  "resume_request world r time pool =
     (let request = pl_requests pool ! r;
          proceed = (\<lambda>request'. pool \<lparr>pl_requests := (pl_requests pool)[r := request']\<rparr>)
      in case pq_phase request of
        Answered i result \<Rightarrow>
          (let pool' = proceed (request \<lparr>pq_phase := Finished (Inr result)\<rparr>)
           in if pq_scope request = Pooled then pool' \<lparr>pl_preferredIndex := i\<rparr> else pool')
      | Refused i error \<Rightarrow>
          (let endpoint = pl_endpoints pool ! i; method = pq_method request in
           if \<not> endpointFailoverEligible world method error
           then proceed (request \<lparr>pq_phase := Finished (Inl (endpointRequestFailure world error (eh_url endpoint) (eh_target endpoint) method))\<rparr>)
           else
             let failures = pq_failures request @ [failure_detail world method endpoint error]
             in case pq_remaining request of
                  [] \<Rightarrow> proceed (request \<lparr>pq_failures := failures, pq_phase := Finished (Inl (EndpointPoolFailure failures))\<rparr>)
                | next # rest \<Rightarrow> proceed (request \<lparr>pq_failures := failures, pq_remaining := rest, pq_phase := Calling next time\<rparr>))
      | _ \<Rightarrow> pool)"

definition prefer_endpoint :: "string \<Rightarrow> endpoint_pool \<Rightarrow> endpoint_pool result" where
  "prefer_endpoint url pool =
     (case List.find (\<lambda>i. eh_url (pl_endpoints pool ! i) = url) [0..<length (pl_endpoints pool)] of
        None \<Rightarrow> throw ''Cannot prefer an RPC URL outside the endpoint pool''
      | Some i \<Rightarrow> ok (pool \<lparr>pl_preferredIndex := i\<rparr>))"

definition pool_snapshot :: "endpoint_pool \<Rightarrow> RpcEndpointHealth list" where
  "pool_snapshot pool = map RpcEndpointHealth.truncate (pl_endpoints pool)"

text \<open>The error of \<open>contextualRequest\<close>, under the context of the last accepted reply.\<close>

definition contextual_failure ::
  "error_world \<Rightarrow> (string \<Rightarrow> string result) \<Rightarrow> string \<Rightarrow> string \<Rightarrow> string option \<Rightarrow> RpcRequestContext option \<Rightarrow> pool_error \<Rightarrow> pool_error result" where
  "contextual_failure world origin defaultUrl method url context_seen error =
     (case context_seen of
        Some seen \<Rightarrow> ok (rpcFailureWithContext world error (rc_target seen) (rc_method seen))
      | None \<Rightarrow> bindR (origin (case url of None \<Rightarrow> defaultUrl | Some u \<Rightarrow> u))
          (\<lambda>target. ok (rpcFailureWithContext world error target method)))"

section \<open>Runs\<close>

datatype pool_event =
  BeginPooled string int
| BeginBound string string int
| Receive nat int rat "thrown_value + rpc_value"
| Resume nat int
| Prefer string

definition waiting :: "request_phase \<Rightarrow> bool" where
  "waiting phase \<longleftrightarrow> (case phase of Calling _ _ \<Rightarrow> True | _ \<Rightarrow> False)"

definition resumable :: "request_phase \<Rightarrow> bool" where
  "resumable phase \<longleftrightarrow> (case phase of Answered _ _ \<Rightarrow> True | Refused _ _ \<Rightarrow> True | _ \<Rightarrow> False)"

inductive pool_step :: "error_world \<Rightarrow> pool_settings \<Rightarrow> endpoint_pool \<Rightarrow> pool_event \<Rightarrow> endpoint_pool \<Rightarrow> bool"
  for world settings pool where
  step_pooled: "pool_step world settings pool (BeginPooled method time) (begin_request method time pool)"
| step_bound: "transportFor url pool = ok i \<Longrightarrow>
    pool_step world settings pool (BeginBound url method time) (begin_bound_request i method time pool)"
| step_receive: "r < length (pl_requests pool) \<Longrightarrow> waiting (pq_phase (pl_requests pool ! r)) \<Longrightarrow>
    pool_step world settings pool (Receive r time random reply) (receive_reply world settings r time random reply pool)"
| step_resume: "r < length (pl_requests pool) \<Longrightarrow> resumable (pq_phase (pl_requests pool ! r)) \<Longrightarrow>
    pool_step world settings pool (Resume r time) (resume_request world r time pool)"
| step_prefer: "prefer_endpoint url pool = ok pool' \<Longrightarrow> pool_step world settings pool (Prefer url) pool'"

inductive pool_run :: "error_world \<Rightarrow> pool_settings \<Rightarrow> endpoint_pool \<Rightarrow> pool_event list \<Rightarrow> endpoint_pool \<Rightarrow> bool"
  for world settings pool where
  run_start: "pool_run world settings pool [] pool"
| run_more: "pool_run world settings pool events pool' \<Longrightarrow> pool_step world settings pool' event pool'' \<Longrightarrow>
    pool_run world settings pool (events @ [event]) pool''"

end
