(* ===== verification/Rpc_Pool_Runs.thy ===== *)
theory Rpc_Pool_Runs
  imports Rpc_Pool
begin

text \<open>
  The runs of the endpoint pool. \<open>endpoint_ok\<close> is the invariant of an endpoint's health;
  \<open>failover\<close> specifies a pooled request as a recursion over its candidates and replies, and
  \<open>story\<close> is the simulation that carries the specification through every interleaving.
\<close>

section \<open>The health of the endpoints\<close>

definition cooldown_floor :: "pool_settings \<Rightarrow> int \<Rightarrow> int" where
  "cooldown_floor settings failures =
     min (ps_maximumCooldownMilliseconds settings) (ps_baseCooldownMilliseconds settings * 2 ^ nat (min (failures - 1) 20))"

text \<open>
  What the fields of an endpoint say together when no reply came later than \<open>latest\<close>: the status
  counts consecutive failures, an endpoint that last answered is free, and one that last failed rests from
  that failure for its exponential cooldown at least and the maximum at most.
\<close>

definition endpoint_ok :: "pool_settings \<Rightarrow> int \<Rightarrow> MutableEndpointHealth \<Rightarrow> bool" where
  "endpoint_ok settings latest endpoint \<longleftrightarrow>
     (let failures = eh_consecutiveFailures endpoint; next = eh_nextRetryMilliseconds endpoint in
      0 \<le> failures \<and> (eh_status endpoint = Degraded \<longleftrightarrow> failures = 1) \<and> (eh_status endpoint = Offline \<longleftrightarrow> 2 \<le> failures) \<and>
      (eh_status endpoint = Healthy \<longrightarrow> eh_lastSuccessAt endpoint \<noteq> None) \<and>
      (if failures = 0 then next = 0 \<and> eh_nextRetryAt endpoint = None \<and> eh_error endpoint = None
       else \<exists>failedAt \<le> latest. eh_lastFailureAt endpoint = Some (toISOString failedAt) \<and>
         eh_nextRetryAt endpoint = Some (toISOString next) \<and> eh_error endpoint \<noteq> None \<and>
         failedAt + cooldown_floor settings failures \<le> next \<and> next \<le> failedAt + ps_maximumCooldownMilliseconds settings))"

definition settings_ok :: "pool_settings \<Rightarrow> bool" where
  "settings_ok settings \<longleftrightarrow> 1 \<le> ps_baseCooldownMilliseconds settings \<and>
     ps_baseCooldownMilliseconds settings \<le> ps_maximumCooldownMilliseconds settings"

lemma jittered_bounds:
  assumes "settings_ok settings"
  shows "cooldown_floor settings failures \<le> jittered (ps_baseCooldownMilliseconds settings) (ps_maximumCooldownMilliseconds settings) failures random"
    and "jittered (ps_baseCooldownMilliseconds settings) (ps_maximumCooldownMilliseconds settings) failures random \<le> ps_maximumCooldownMilliseconds settings"
proof -
  let ?floor = "cooldown_floor settings failures" and ?share = "max 0 (min 1 random) * (1 / 5)"
  have nonneg: "0 \<le> ?floor" using assms by (simp add: cooldown_floor_def settings_ok_def)
  then have "of_int ?floor * 1 \<le> of_int ?floor * (1 + ?share)" by (intro mult_left_mono) auto
  then have "?floor \<le> math_round (of_int ?floor * (1 + ?share))"
    unfolding math_round_def le_floor_iff by linarith
  moreover have "?floor \<le> ps_maximumCooldownMilliseconds settings" by (simp add: cooldown_floor_def)
  ultimately show "?floor \<le> jittered (ps_baseCooldownMilliseconds settings) (ps_maximumCooldownMilliseconds settings) failures random"
    by (simp add: jittered_def cooldown_floor_def Let_def)
  show "jittered (ps_baseCooldownMilliseconds settings) (ps_maximumCooldownMilliseconds settings) failures random \<le> ps_maximumCooldownMilliseconds settings"
    by (simp add: jittered_def Let_def)
qed

lemma endpoint_ok_later: "endpoint_ok settings latest endpoint \<Longrightarrow> latest \<le> latest' \<Longrightarrow> endpoint_ok settings latest' endpoint"
  unfolding endpoint_ok_def Let_def by (meson order_trans)

lemma endpoint_ok_initial [simp]: "endpoint_ok settings latest (initial_endpoint url target)"
  by (simp add: endpoint_ok_def initial_endpoint_def)

lemma endpoint_ok_after_reply:
  assumes "settings_ok settings" "endpoint_ok settings latest endpoint" "time \<le> latest"
  shows "endpoint_ok settings latest (endpoint_after_reply world settings method startedAt time random reply endpoint)"
proof -
  have "endpoint_ok settings latest (endpoint_succeeded startedAt time endpoint)"
    by (simp add: endpoint_ok_def endpoint_succeeded_def)
  moreover have "endpoint_ok settings latest (endpoint_failed world settings startedAt time random error endpoint)" for error
    using assms(2,3) jittered_bounds [OF assms(1)]
    by (auto simp: endpoint_ok_def endpoint_failed_def Let_def split: if_splits intro!: exI [of _ time])
  ultimately show ?thesis using assms(2) by (simp add: endpoint_after_reply_def split: sum.split)
qed

lemma identity_after_reply [simp]:
  "eh_url (endpoint_after_reply world settings method startedAt time random reply endpoint) = eh_url endpoint"
  "eh_target (endpoint_after_reply world settings method startedAt time random reply endpoint) = eh_target endpoint"
  by (simp_all add: endpoint_after_reply_def endpoint_succeeded_def endpoint_failed_def Let_def split: sum.split)

definition identities :: "endpoint_pool \<Rightarrow> (string \<times> string) list" where
  "identities pool = map (\<lambda>endpoint. (eh_url endpoint, eh_target endpoint)) (pl_endpoints pool)"

text \<open>Only a reply changes an endpoint, and only the one that was called.\<close>

lemma endpoints_after:
  "pl_endpoints (begin_request method time pool) = pl_endpoints pool"
  "pl_endpoints (begin_bound_request i method time pool) = pl_endpoints pool"
  "pl_endpoints (resume_request world r time pool) = pl_endpoints pool"
  "prefer_endpoint url pool = ok pool' \<Longrightarrow> pl_endpoints pool' = pl_endpoints pool"
  "pl_endpoints (receive_reply world settings r time random reply pool) =
     (case pq_phase (pl_requests pool ! r) of
        Calling i startedAt \<Rightarrow> (pl_endpoints pool)
          [i := endpoint_after_reply world settings (pq_method (pl_requests pool ! r)) startedAt time random reply (pl_endpoints pool ! i)]
      | _ \<Rightarrow> pl_endpoints pool)"
  by (auto simp: begin_request_def begin_bound_request_def resume_request_def prefer_endpoint_def receive_reply_def Let_def
      split: list.splits request_phase.splits option.splits)

lemma map_list_update_same: "(\<And>x. f (g x) = f x) \<Longrightarrow> map f (xs[i := g (xs ! i)]) = map f xs"
  by (metis list_update_beyond list_update_id map_update not_le)

lemma in_set_update:
  assumes "x \<in> set (xs[i := f (xs ! i)])"
  obtains "x \<in> set xs" | y where "y \<in> set xs" "x = f y"
  using assms set_update_subset_insert [of xs i "f (xs ! i)"]
  by (metis insertE list_update_beyond not_le nth_mem subsetD)

lemma identities_step: "pool_step world settings pool event pool' \<Longrightarrow> identities pool' = identities pool"
  by (induction rule: pool_step.induct)
    (auto simp: identities_def endpoints_after map_list_update_same split: request_phase.split)

lemma identities_run: "pool_run world settings pool events pool' \<Longrightarrow> identities pool' = identities pool"
  by (induction rule: pool_run.induct) (simp_all add: identities_step)

text \<open>Events whose replies come by a given time.\<close>

definition replied_by :: "int \<Rightarrow> pool_event \<Rightarrow> bool" where
  "replied_by latest event \<longleftrightarrow> (case event of Receive _ time _ _ \<Rightarrow> time \<le> latest | _ \<Rightarrow> True)"

lemma endpoints_ok_step:
  assumes "pool_step world settings pool event pool'" "settings_ok settings" "replied_by latest event"
    and "\<forall>endpoint \<in> set (pl_endpoints pool). endpoint_ok settings latest endpoint"
  shows "\<forall>endpoint \<in> set (pl_endpoints pool'). endpoint_ok settings latest endpoint"
  using assms(1)
proof cases
  case (step_receive r time random reply)
  then show ?thesis
    using assms endpoint_ok_after_reply [OF assms(2)]
    by (auto simp: endpoints_after replied_by_def split: request_phase.splits elim!: in_set_update)
qed (use assms(4) in \<open>auto simp: endpoints_after\<close>)

lemma endpoints_ok_run:
  assumes "pool_run world settings pool events pool'" "settings_ok settings" "list_all (replied_by latest) events"
    and "\<forall>endpoint \<in> set (pl_endpoints pool). endpoint_ok settings latest endpoint"
  shows "\<forall>endpoint \<in> set (pl_endpoints pool'). endpoint_ok settings latest endpoint"
  using assms by (induction rule: pool_run.induct) (auto intro: endpoints_ok_step [rule_format])

lemma set_unique_values [simp]: "set (unique_values xs) = set xs"
  by (simp add: unique_values_def)

lemma distinct_unique_values [simp]: "distinct (unique_values xs)"
  by (simp add: unique_values_def)

lemma mapR_all: "mapR f xs = ok ys \<Longrightarrow> list_all2 (\<lambda>x y. f x = ok y) xs ys"
  by (induction f xs arbitrary: ys rule: mapR.induct) (auto simp: bindR_eq_Inr_iff)

lemma created_pool:
  assumes "createRpcEndpointPool origin urls options = ok (settings, pool)"
  shows "settings_ok settings" and "map fst (identities pool) = unique_values urls" and "pl_requests pool = []"
    and "\<forall>endpoint \<in> set (pl_endpoints pool). endpoint_ok settings latest endpoint"
proof -
  obtain timeout base maximum endpoints where
      bounds: "1 \<le> base" "base \<le> maximum"
    and endpoints: "mapR (\<lambda>url. bindR (origin url) (\<lambda>target. ok (initial_endpoint url target))) (unique_values urls) = ok endpoints"
    and made: "settings = \<lparr>ps_timeoutMilliseconds = timeout, ps_baseCooldownMilliseconds = base, ps_maximumCooldownMilliseconds = maximum\<rparr>"
      "pool = \<lparr>pl_endpoints = endpoints, pl_preferredIndex = 0, pl_requests = []\<rparr>"
    using assms by (auto simp: createRpcEndpointPool_def Let_def bindR_eq_Inr_iff validatedInteger_def split: if_splits)
  have initial: "list_all2 (\<lambda>url endpoint. \<exists>target. endpoint = initial_endpoint url target) (unique_values urls) endpoints"
    using mapR_all [OF endpoints] by (rule list_all2_mono) (auto simp: bindR_eq_Inr_iff)
  then have "list_all2 (\<lambda>url endpoint. eh_url endpoint = url) (unique_values urls) endpoints"
    by (rule list_all2_mono) (auto simp: initial_endpoint_def)
  then have "map eh_url endpoints = unique_values urls"
    by (induction rule: list_all2_induct) simp_all
  then show "map fst (identities pool) = unique_values urls"
    by (simp add: identities_def made comp_def)
  show "settings_ok settings" "pl_requests pool = []" using bounds by (simp_all add: made settings_ok_def)
  show "\<forall>endpoint \<in> set (pl_endpoints pool). endpoint_ok settings latest endpoint"
    using initial endpoint_ok_initial by (fastforce simp: made in_set_conv_nth list_all2_conv_all_nth)
qed

definition unhealthy :: "MutableEndpointHealth \<Rightarrow> bool" where
  "unhealthy endpoint \<longleftrightarrow> eh_status endpoint = Degraded \<or> eh_status endpoint = Offline"

text \<open>The candidates of a request: every free endpoint once, those to be probed again first.\<close>

lemma sorted_wrt_all: "(\<And>x y. x \<in> set xs \<Longrightarrow> y \<in> set xs \<Longrightarrow> P x y) \<Longrightarrow> sorted_wrt P xs"
  by (induction xs) simp_all

lemma orderedEndpoints_as:
  obtains eligible where
    "orderedEndpoints time pool = filter (\<lambda>i. unhealthy (pl_endpoints pool ! i)) eligible @ filter (\<lambda>i. \<not> unhealthy (pl_endpoints pool ! i)) eligible"
    and "distinct eligible"
    and "set eligible = {i. i < length (pl_endpoints pool) \<and> eh_nextRetryMilliseconds (pl_endpoints pool ! i) \<le> time}"
proof
  define indices where "indices = [0..<length (pl_endpoints pool)]"
  define rotated where "rotated = drop (pl_preferredIndex pool) indices @ take (pl_preferredIndex pool) indices"
  define eligible where "eligible = filter (\<lambda>i. eh_nextRetryMilliseconds (pl_endpoints pool ! i) \<le> time) rotated"
  have "distinct indices" by (simp add: indices_def)
  then have "distinct rotated"
    using set_take_disj_set_drop_if_distinct [of indices "pl_preferredIndex pool" "pl_preferredIndex pool"]
    by (simp add: rotated_def Int_commute)
  then show "distinct eligible" by (simp add: eligible_def)
  have "set rotated = set indices"
    unfolding rotated_def by (metis append_take_drop_id set_append sup_commute)
  then show "set eligible = {i. i < length (pl_endpoints pool) \<and> eh_nextRetryMilliseconds (pl_endpoints pool ! i) \<le> time}"
    by (auto simp: eligible_def indices_def)
  have "orderedEndpoints time pool =
      (if eligible = [] then [] else
       filter (\<lambda>i. unhealthy (pl_endpoints pool ! i)) eligible @
       filter (\<lambda>i. i \<notin> set (filter (\<lambda>i. unhealthy (pl_endpoints pool ! i)) eligible)) eligible)"
    unfolding orderedEndpoints_def Let_def unhealthy_def eligible_def rotated_def indices_def by (rule refl)
  moreover have "filter (\<lambda>i. i \<notin> set (filter (\<lambda>i. unhealthy (pl_endpoints pool ! i)) eligible)) eligible =
      filter (\<lambda>i. \<not> unhealthy (pl_endpoints pool ! i)) eligible"
    by (rule filter_cong) auto
  ultimately show "orderedEndpoints time pool = filter (\<lambda>i. unhealthy (pl_endpoints pool ! i)) eligible @
      filter (\<lambda>i. \<not> unhealthy (pl_endpoints pool ! i)) eligible"
    by (cases eligible) simp_all
qed

lemma orderedEndpoints_candidates:
  "distinct (orderedEndpoints time pool)"
  "set (orderedEndpoints time pool) =
     {i. i < length (pl_endpoints pool) \<and> eh_nextRetryMilliseconds (pl_endpoints pool ! i) \<le> time}"
  "sorted_wrt (\<lambda>i j. unhealthy (pl_endpoints pool ! j) \<longrightarrow> unhealthy (pl_endpoints pool ! i)) (orderedEndpoints time pool)"
proof -
  obtain eligible where ordered: "orderedEndpoints time pool =
      filter (\<lambda>i. unhealthy (pl_endpoints pool ! i)) eligible @ filter (\<lambda>i. \<not> unhealthy (pl_endpoints pool ! i)) eligible"
    and eligible: "distinct eligible"
      "set eligible = {i. i < length (pl_endpoints pool) \<and> eh_nextRetryMilliseconds (pl_endpoints pool ! i) \<le> time}"
    by (rule orderedEndpoints_as)
  show "distinct (orderedEndpoints time pool)" unfolding ordered using eligible(1) by auto
  show "set (orderedEndpoints time pool) =
      {i. i < length (pl_endpoints pool) \<and> eh_nextRetryMilliseconds (pl_endpoints pool ! i) \<le> time}"
    unfolding ordered eligible(2) [symmetric] by auto
  show "sorted_wrt (\<lambda>i j. unhealthy (pl_endpoints pool ! j) \<longrightarrow> unhealthy (pl_endpoints pool ! i)) (orderedEndpoints time pool)"
    unfolding ordered sorted_wrt_append by (intro conjI sorted_wrt_all) auto
qed

text \<open>
  C15: In every run of a pool, however its requests overlap, the endpoints are the given URLs in
  order, and the health of each is consistent: its status counts consecutive failures, and after a
  failure it rests at least its exponential cooldown and at most the maximum. So a request that
  starts the maximum cooldown after the last reply has every endpoint as a candidate exactly
  once, those that last failed before all others.
\<close>

theorem endpoint_pool_recovers:
  assumes "createRpcEndpointPool origin urls options = ok (settings, pool)"
    and "pool_run world settings pool events pool'" and "list_all (replied_by latest) events"
    and "0 \<le> time" and "latest + ps_maximumCooldownMilliseconds settings \<le> time"
  shows "map eh_url (pl_endpoints pool') = unique_values urls \<and>
    (\<forall>endpoint \<in> set (pl_endpoints pool'). endpoint_ok settings latest endpoint) \<and>
    distinct (orderedEndpoints time pool') \<and> set (orderedEndpoints time pool') = {..<length (unique_values urls)} \<and>
    sorted_wrt (\<lambda>i j. unhealthy (pl_endpoints pool' ! j) \<longrightarrow> unhealthy (pl_endpoints pool' ! i)) (orderedEndpoints time pool')"
proof -
  note created = created_pool [OF assms(1)]
  have urls: "map eh_url (pl_endpoints pool') = unique_values urls"
    using arg_cong [OF identities_run [OF assms(2)], of "map fst"] created(2) by (simp add: identities_def comp_def)
  have healthy: "\<forall>endpoint \<in> set (pl_endpoints pool'). endpoint_ok settings latest endpoint"
    using endpoints_ok_run [OF assms(2) created(1) assms(3) created(4)] .
  then have "eh_nextRetryMilliseconds endpoint \<le> time" if "endpoint \<in> set (pl_endpoints pool')" for endpoint
    using that assms(4,5) by (fastforce simp: endpoint_ok_def Let_def split: if_splits)
  moreover have "length (pl_endpoints pool') = length (unique_values urls)" by (metis urls length_map)
  ultimately have "set (orderedEndpoints time pool') = {..<length (unique_values urls)}"
    by (auto simp: orderedEndpoints_candidates(2))
  with urls healthy show ?thesis
    using orderedEndpoints_candidates(1,3) by blast
qed

section \<open>What a request returns\<close>

text \<open>
  The specification of a pooled request: it tries its candidates in order, one reply each, until
  one is accepted or refused for a reason no other endpoint can mend. \<open>None\<close>: the replies are too
  few or too many.
\<close>

fun failover :: "error_world \<Rightarrow> string \<Rightarrow> (string \<times> string) list \<Rightarrow> nat list \<Rightarrow> (thrown_value + rpc_value) list
    \<Rightarrow> (string \<times> string) list \<Rightarrow> (pool_error + rpc_value) option" where
  "failover world method endpoints [] replies failures = (if replies = [] then Some (Inl (EndpointPoolFailure failures)) else None)"
| "failover world method endpoints (i # rest) [] failures = None"
| "failover world method endpoints (i # rest) (reply # replies) failures =
     (let (url, target) = endpoints ! i in
      case checked_reply method reply of
        Inr result \<Rightarrow> if replies = [] then Some (Inr result) else None
      | Inl error \<Rightarrow>
          if endpointFailoverEligible world method error
          then failover world method endpoints rest replies (failures @ [(endpointRequestFailureDetail world error url target method, target)])
          else if replies = [] then Some (Inl (endpointRequestFailure world error url target method)) else None)"

definition replies_to :: "nat \<Rightarrow> pool_event list \<Rightarrow> (thrown_value + rpc_value) list" where
  "replies_to r events = concat (map (\<lambda>event. case event of
     Receive r' _ _ reply \<Rightarrow> if r' = r then [reply] else [] | _ \<Rightarrow> []) events)"

lemma replies_to_snoc:
  "replies_to r (events @ [event]) = replies_to r events @
     (case event of Receive r' _ _ reply \<Rightarrow> if r' = r then [reply] else [] | _ \<Rightarrow> [])"
  by (simp add: replies_to_def)

text \<open>What the specification makes of the replies a request still gets.\<close>

definition continues_as :: "error_world \<Rightarrow> (string \<times> string) list \<Rightarrow> pool_request \<Rightarrow> (thrown_value + rpc_value) list
    \<Rightarrow> (pool_error + rpc_value) option" where
  "continues_as world endpoints request later = (case pq_phase request of
     Calling i _ \<Rightarrow> failover world (pq_method request) endpoints (i # pq_remaining request) later (pq_failures request)
   | Answered _ result \<Rightarrow> if later = [] then Some (Inr result) else None
   | Refused i error \<Rightarrow>
       (let (url, target) = endpoints ! i in
        if endpointFailoverEligible world (pq_method request) error
        then failover world (pq_method request) endpoints (pq_remaining request) later
          (pq_failures request @ [(endpointRequestFailureDetail world error url target (pq_method request), target)])
        else if later = [] then Some (Inl (endpointRequestFailure world error url target (pq_method request))) else None)
   | Finished outcome \<Rightarrow> if later = [] then Some outcome else None)"

definition indices_ok :: "nat \<Rightarrow> pool_request \<Rightarrow> bool" where
  "indices_ok n request \<longleftrightarrow> (\<forall>i \<in> set (pq_remaining request). i < n) \<and>
     (case pq_phase request of Calling i _ \<Rightarrow> i < n | Refused i _ \<Rightarrow> i < n | _ \<Rightarrow> True)"

definition receive_effect :: "string \<Rightarrow> thrown_value + rpc_value \<Rightarrow> pool_request \<Rightarrow> pool_request \<Rightarrow> bool" where
  "receive_effect target reply request request' \<longleftrightarrow> (\<exists>i startedAt. pq_phase request = Calling i startedAt \<and>
     request' = (case checked_reply (pq_method request) reply of
        Inr result \<Rightarrow> request \<lparr>pq_context := Some \<lparr>rc_method = pq_method request, rc_target = target\<rparr>, pq_phase := Answered i result\<rparr>
      | Inl error \<Rightarrow> request \<lparr>pq_phase := Refused i error\<rparr>))"

lemma continues_after_reply:
  assumes "receive_effect target reply request request'"
  shows "continues_as world endpoints request (reply # later) = continues_as world endpoints request' later"
    and "indices_ok n request \<Longrightarrow> indices_ok n request'" and "pq_method request' = pq_method request" and "pq_scope request' = pq_scope request"
  using assms
  by (cases "checked_reply (pq_method request) reply";
      auto simp: receive_effect_def continues_as_def indices_ok_def split: prod.split)+

lemma receive_reply_requests:
  assumes "waiting (pq_phase (pl_requests pool ! r))"
  obtains request' target where "pl_requests (receive_reply world settings r time random reply pool) = (pl_requests pool)[r := request']"
    "receive_effect target reply (pl_requests pool ! r) request'"
  using assms
  by (cases "pq_phase (pl_requests pool ! r)") (auto simp: waiting_def receive_reply_def receive_effect_def Let_def)

definition resume_effect :: "error_world \<Rightarrow> (string \<times> string) list \<Rightarrow> int \<Rightarrow> pool_request \<Rightarrow> pool_request \<Rightarrow> bool" where
  "resume_effect world endpoints time request request' \<longleftrightarrow>
     (case pq_phase request of
        Answered _ result \<Rightarrow> request' = request \<lparr>pq_phase := Finished (Inr result)\<rparr>
      | Refused i error \<Rightarrow>
          (let (url, target) = endpoints ! i; method = pq_method request;
               failures = pq_failures request @ [(endpointRequestFailureDetail world error url target method, target)]
           in request' =
            (if \<not> endpointFailoverEligible world method error
             then request \<lparr>pq_phase := Finished (Inl (endpointRequestFailure world error url target method))\<rparr>
             else case pq_remaining request of
                [] \<Rightarrow> request \<lparr>pq_failures := failures, pq_phase := Finished (Inl (EndpointPoolFailure failures))\<rparr>
              | next # rest \<Rightarrow> request \<lparr>pq_failures := failures, pq_remaining := rest, pq_phase := Calling next time\<rparr>))
      | _ \<Rightarrow> False)"

lemma continues_after_resume:
  assumes "resume_effect world endpoints time request request'"
  shows "continues_as world endpoints request later = continues_as world endpoints request' later"
    and "indices_ok n request \<Longrightarrow> indices_ok n request'" and "pq_method request' = pq_method request" and "pq_scope request' = pq_scope request"
  using assms
  by (auto simp: resume_effect_def continues_as_def indices_ok_def Let_def split: request_phase.splits prod.splits list.splits if_splits)

lemma resume_requests:
  assumes "resumable (pq_phase (pl_requests pool ! r))" and "indices_ok (length (pl_endpoints pool)) (pl_requests pool ! r)"
  obtains request' where "pl_requests (resume_request world r time pool) = (pl_requests pool)[r := request']"
    "resume_effect world (identities pool) time (pl_requests pool ! r) request'"
  using assms
  by (cases "pq_phase (pl_requests pool ! r)")
    (auto simp: resumable_def resume_request_def resume_effect_def indices_ok_def identities_def failure_detail_def Let_def split: list.split)

lemma length_identities: "identities pool' = identities pool \<Longrightarrow> length (pl_endpoints pool') = length (pl_endpoints pool)"
  by (metis identities_def length_map)

text \<open>Request \<open>r\<close> started, by \<open>method\<close> at \<open>time\<close>, in the state \<open>started\<close>.\<close>

definition begun :: "error_world \<Rightarrow> pool_settings \<Rightarrow> endpoint_pool \<Rightarrow> pool_event list \<Rightarrow> nat \<Rightarrow> string \<Rightarrow> int \<Rightarrow> endpoint_pool \<Rightarrow> bool" where
  "begun world settings pool events r method time started \<longleftrightarrow>
     (\<exists>before rest. events = before @ BeginPooled method time # rest \<and> pool_run world settings pool before started) \<and>
     length (pl_requests started) = r"

lemma begun_later: "begun world settings pool events r method time started \<Longrightarrow> begun world settings pool (events @ [event]) r method time started"
  by (fastforce simp: begun_def)

definition cooling_failure :: "string \<Rightarrow> endpoint_pool \<Rightarrow> pool_error" where
  "cooling_failure method pool =
     EndpointPoolFailure (map (\<lambda>endpoint. (cooling_text method endpoint, eh_target endpoint)) (pl_endpoints pool))"

text \<open>
  The story of a request: the candidates it took when it started, and that its replies so far and its
  state together still follow the specification.
\<close>

definition story :: "error_world \<Rightarrow> pool_settings \<Rightarrow> endpoint_pool \<Rightarrow> pool_event list \<Rightarrow> nat \<Rightarrow> pool_request \<Rightarrow> bool" where
  "story world settings pool events r request \<longleftrightarrow>
     indices_ok (length (pl_endpoints pool)) request \<and>
     (pq_scope request = Pooled \<longrightarrow>
       (\<exists>time started. begun world settings pool events r (pq_method request) time started \<and>
          (if orderedEndpoints time started = []
           then replies_to r events = [] \<and> pq_phase request = Finished (Inl (cooling_failure (pq_method request) started))
           else \<forall>later. failover world (pq_method request) (identities pool) (orderedEndpoints time started) (replies_to r events @ later) [] =
              continues_as world (identities pool) request later)))"

lemma story_unchanged:
  assumes "story world settings pool events r request" and "replies_to r (events @ [event]) = replies_to r events"
  shows "story world settings pool (events @ [event]) r request"
  using assms(1) unfolding story_def assms(2) by (meson begun_later)

lemma story_moved:
  assumes "story world settings pool events r request"
    and "\<And>later. continues_as world (identities pool) request (replies @ later) = continues_as world (identities pool) request' later"
    and "indices_ok (length (pl_endpoints pool)) request \<Longrightarrow> indices_ok (length (pl_endpoints pool)) request'"
    and "pq_method request' = pq_method request" "pq_scope request' = pq_scope request"
    and "replies_to r (events @ [event]) = replies_to r events @ replies"
    and "\<nexists>outcome. pq_phase request = Finished outcome"
  shows "story world settings pool (events @ [event]) r request'"
proof -
  have "\<exists>time started. begun world settings pool (events @ [event]) r (pq_method request') time started \<and> orderedEndpoints time started \<noteq> [] \<and>
      (\<forall>later. failover world (pq_method request') (identities pool) (orderedEndpoints time started) (replies_to r (events @ [event]) @ later) [] =
         continues_as world (identities pool) request' later)"
    if "pq_scope request' = Pooled"
  proof -
    from that assms(1,7) obtain time started where begun: "begun world settings pool events r (pq_method request') time started"
      and some: "orderedEndpoints time started \<noteq> []"
      and follows: "\<And>later. failover world (pq_method request') (identities pool) (orderedEndpoints time started) (replies_to r events @ later) [] =
         continues_as world (identities pool) request later"
      unfolding story_def assms(4,5) by meson
    have "failover world (pq_method request') (identities pool) (orderedEndpoints time started) (replies_to r (events @ [event]) @ later) [] =
        continues_as world (identities pool) request' later" for later
      using follows [of "replies @ later"] by (simp add: assms(2,6))
    with begun_later [OF begun] some show ?thesis by blast
  qed
  then show ?thesis using assms(1,3) unfolding story_def by meson
qed

lemma story_begins:
  assumes "pool_run world settings pool events started" and "length (pl_requests started) = r" and "replies_to r events = []"
    and "length (pl_endpoints started) = length (pl_endpoints pool)"
    and "pl_requests (begin_request method time started) = pl_requests started @ [request]"
  shows "story world settings pool (events @ [BeginPooled method time]) r request"
proof -
  have begun: "begun world settings pool (events @ [BeginPooled method time]) r method time started"
    using assms(1,2) by (auto simp: begun_def)
  have none: "replies_to r (events @ [BeginPooled method time]) = []" by (simp add: replies_to_snoc assms(3))
  have bound: "i < length (pl_endpoints pool)" if "i \<in> set (orderedEndpoints time started)" for i
    using that assms(4) by (simp add: orderedEndpoints_candidates(2))
  show ?thesis
  proof (cases "orderedEndpoints time started")
    case Nil
    then have "pq_method request = method \<and> pq_remaining request = [] \<and> pq_phase request = Finished (Inl (cooling_failure method started))"
      using assms(5) by (auto simp: begin_request_def cooling_failure_def)
    with begun none Nil show ?thesis by (auto simp: story_def indices_ok_def)
  next
    case (Cons first rest)
    then have "request = \<lparr>pq_scope = Pooled, pq_method = method, pq_remaining = rest, pq_failures = [], pq_context = None,
        pq_phase = Calling first time\<rparr>"
      using assms(5) by (auto simp: begin_request_def)
    with begun none Cons bound show ?thesis
      by (auto simp: story_def indices_ok_def continues_as_def intro!: exI [of _ time] exI [of _ started])
  qed
qed

definition stories :: "error_world \<Rightarrow> pool_settings \<Rightarrow> endpoint_pool \<Rightarrow> pool_event list \<Rightarrow> endpoint_pool \<Rightarrow> bool" where
  "stories world settings pool events pool' \<longleftrightarrow>
     (\<forall>r < length (pl_requests pool'). story world settings pool events r (pl_requests pool' ! r)) \<and>
     (\<forall>r \<ge> length (pl_requests pool'). replies_to r events = [])"

lemma stories_update:
  assumes "stories world settings pool events pool'" and "pl_requests pool'' = (pl_requests pool')[r := request']"
    and "r < length (pl_requests pool')"
    and "\<And>r'. r' \<noteq> r \<Longrightarrow> replies_to r' (events @ [event]) = replies_to r' events"
    and "story world settings pool events r (pl_requests pool' ! r) \<Longrightarrow> story world settings pool (events @ [event]) r request'"
  shows "stories world settings pool (events @ [event]) pool''"
proof -
  have "story world settings pool (events @ [event]) r' (pl_requests pool'' ! r')" if "r' < length (pl_requests pool')" for r'
    using that assms story_unchanged by (cases "r' = r") (auto simp: stories_def)
  moreover have "replies_to r' (events @ [event]) = []" if "r' \<ge> length (pl_requests pool')" for r'
    using that assms by (auto simp: stories_def)
  ultimately show ?thesis by (simp add: stories_def assms(2))
qed

lemma stories_append:
  assumes "stories world settings pool events pool'" and "pl_requests pool'' = pl_requests pool' @ new"
    and "\<And>r'. replies_to r' (events @ [event]) = replies_to r' events"
    and "\<And>request. new = [request] \<Longrightarrow> story world settings pool (events @ [event]) (length (pl_requests pool')) request"
    and "length new \<le> 1"
  shows "stories world settings pool (events @ [event]) pool''"
proof -
  have "story world settings pool (events @ [event]) r (pl_requests pool'' ! r)" if "r < length (pl_requests pool'')" for r
  proof (cases "r < length (pl_requests pool')")
    case True
    with assms(1,3) show ?thesis by (auto simp: stories_def assms(2) nth_append intro: story_unchanged)
  next
    case False
    with that assms(2,5) obtain request where "new = [request]" "r = length (pl_requests pool')"
      by (cases new) auto
    with assms(2,4) show ?thesis by simp
  qed
  with assms(1) show ?thesis by (auto simp: stories_def assms(2,3))
qed

lemma stories_run:
  assumes "pool_run world settings pool events pool'" and "pl_requests pool = []"
  shows "stories world settings pool events pool'"
  using assms
proof (induction rule: pool_run.induct)
  case run_start
  then show ?case by (simp add: stories_def replies_to_def)
next
  case (run_more events pool' event pool'')
  note IH = run_more.IH [OF run_more.prems]
  have ids: "identities pool' = identities pool" by (rule identities_run [OF run_more.hyps(1)])
  note same_length = length_identities [OF this]
  from run_more.hyps(2) show ?case
  proof cases
    case (step_pooled meth time)
    obtain request where new: "pl_requests pool'' = pl_requests pool' @ [request]"
      by (cases "orderedEndpoints time pool'") (auto simp: step_pooled begin_request_def)
    have "replies_to (length (pl_requests pool')) events = []" using IH by (simp add: stories_def)
    note story_begins [OF run_more.hyps(1) refl this same_length new [unfolded step_pooled]]
    with IH new show ?thesis
      by (intro stories_append [where new = "[request]"]) (auto simp: step_pooled replies_to_snoc)
  next
    case (step_bound url i meth time)
    then have "i < length (pl_endpoints pool)" by (auto simp: transportFor_def same_length dest: find_Some_in split: option.splits)
    with step_bound IH show ?thesis
      by (intro stories_append [where new = "[last (pl_requests pool'')]"])
        (auto simp: begin_bound_request_def replies_to_snoc story_def indices_ok_def Let_def)
  next
    case (step_receive r time random reply)
    obtain request' target where moved: "pl_requests pool'' = (pl_requests pool')[r := request']"
        "receive_effect target reply (pl_requests pool' ! r) request'"
      using receive_reply_requests [OF step_receive(4)] step_receive(2) by metis
    note next_state = continues_after_reply [OF moved(2)]
    have "story world settings pool (events @ [event]) r request'"
      if "story world settings pool events r (pl_requests pool' ! r)"
      using that next_state step_receive(4)
      by (intro story_moved [where replies = "[reply]"]) (auto simp: step_receive(1) replies_to_snoc waiting_def)
    with IH moved(1) step_receive(1,3) show ?thesis
      by (intro stories_update) (auto simp: replies_to_snoc)
  next
    case (step_resume r time)
    have "indices_ok (length (pl_endpoints pool')) (pl_requests pool' ! r)"
      using IH step_resume(3) same_length by (simp add: stories_def story_def)
    then obtain request' where moved: "pl_requests pool'' = (pl_requests pool')[r := request']"
        "resume_effect world (identities pool) time (pl_requests pool' ! r) request'"
      using resume_requests [OF step_resume(4)] step_resume(2) ids by metis
    note next_state = continues_after_resume [OF moved(2)]
    have "story world settings pool (events @ [event]) r request'"
      if "story world settings pool events r (pl_requests pool' ! r)"
      using that next_state step_resume(4)
      by (intro story_moved [where replies = "[]"]) (auto simp: step_resume(1) replies_to_snoc resumable_def)
    with IH moved(1) step_resume(1,3) show ?thesis
      by (intro stories_update) (auto simp: replies_to_snoc)
  next
    case (step_prefer url)
    then show ?thesis
      by (intro stories_append [OF IH, where new = "[]"]) (auto simp: prefer_endpoint_def replies_to_snoc split: option.splits)
  qed
qed

text \<open>
  C3: However requests overlap, a pooled request that ends returns exactly what trying its
  candidates one after the other returns: with the endpoints that were free when it started, in
  their order then, and the replies it got, each contacted endpoint giving one. It fails as a whole
  when no endpoint was free or each of them failed in a way another could mend, and its error names
  each of them.
\<close>

theorem pooled_request_is_failover:
  assumes "createRpcEndpointPool origin urls options = ok (settings, pool)"
    and "pool_run world settings pool events pool'" and "r < length (pl_requests pool')"
    and "pq_scope (pl_requests pool' ! r) = Pooled" and "pq_phase (pl_requests pool' ! r) = Finished outcome"
  shows "\<exists>time started. begun world settings pool events r (pq_method (pl_requests pool' ! r)) time started \<and>
    (let method = pq_method (pl_requests pool' ! r); candidates = orderedEndpoints time started; replies = replies_to r events in
     if candidates = [] then replies = [] \<and> outcome = Inl (cooling_failure method started)
     else failover world method (identities pool) candidates replies [] = Some outcome)"
proof -
  have "story world settings pool events r (pl_requests pool' ! r)"
    using stories_run [OF assms(2) created_pool(3) [OF assms(1)]] assms(3) by (simp add: stories_def)
  then obtain time started where begun: "begun world settings pool events r (pq_method (pl_requests pool' ! r)) time started"
    and follows: "if orderedEndpoints time started = []
      then replies_to r events = [] \<and> pq_phase (pl_requests pool' ! r) = Finished (Inl (cooling_failure (pq_method (pl_requests pool' ! r)) started))
      else \<forall>later. failover world (pq_method (pl_requests pool' ! r)) (identities pool) (orderedEndpoints time started) (replies_to r events @ later) [] =
         continues_as world (identities pool) (pl_requests pool' ! r) later"
    using assms(4) by (auto simp: story_def)
  have "failover world (pq_method (pl_requests pool' ! r)) (identities pool) (orderedEndpoints time started) (replies_to r events) [] = Some outcome"
    if "orderedEndpoints time started \<noteq> []"
    using that follows assms(5) by (auto simp: continues_as_def dest: spec [of _ "[]"])
  with begun follows assms(5) show ?thesis unfolding Let_def by (auto split: if_splits)
qed

section \<open>A run\<close>

text \<open>The steps as a function.\<close>

definition perform :: "error_world \<Rightarrow> pool_settings \<Rightarrow> pool_event \<Rightarrow> endpoint_pool \<Rightarrow> endpoint_pool option" where
  "perform world settings event pool = (case event of
     BeginPooled method time \<Rightarrow> Some (begin_request method time pool)
   | BeginBound url method time \<Rightarrow> (case transportFor url pool of Inl _ \<Rightarrow> None | Inr i \<Rightarrow> Some (begin_bound_request i method time pool))
   | Receive r time random reply \<Rightarrow>
       (if r < length (pl_requests pool) \<and> waiting (pq_phase (pl_requests pool ! r))
        then Some (receive_reply world settings r time random reply pool) else None)
   | Resume r time \<Rightarrow>
       (if r < length (pl_requests pool) \<and> resumable (pq_phase (pl_requests pool ! r))
        then Some (resume_request world r time pool) else None)
   | Prefer url \<Rightarrow> (case prefer_endpoint url pool of Inl _ \<Rightarrow> None | Inr pool' \<Rightarrow> Some pool'))"

lemma perform_step: "perform world settings event pool = Some pool' \<longleftrightarrow> pool_step world settings pool event pool'"
  by (cases event) (auto simp: perform_def pool_step.simps split: sum.splits)

fun perform_all :: "error_world \<Rightarrow> pool_settings \<Rightarrow> pool_event list \<Rightarrow> endpoint_pool \<Rightarrow> endpoint_pool option" where
  "perform_all world settings [] pool = Some pool"
| "perform_all world settings (event # events) pool =
     (case perform world settings event pool of None \<Rightarrow> None | Some pool' \<Rightarrow> perform_all world settings events pool')"

lemma perform_all_snoc:
  "perform_all world settings (events @ [event]) pool =
     (case perform_all world settings events pool of None \<Rightarrow> None | Some pool' \<Rightarrow> perform world settings event pool')"
  by (induction events arbitrary: pool) (auto split: option.split)

lemma perform_all_run: "perform_all world settings events pool = Some pool' \<longleftrightarrow> pool_run world settings pool events pool'"
proof (induction events arbitrary: pool' rule: rev_induct)
  case Nil
  then show ?case by (auto simp: pool_run.simps [of _ _ _ "[]"])
next
  case (snoc event events)
  have "pool_run world settings pool (events @ [event]) pool' \<longleftrightarrow>
      (\<exists>between. pool_run world settings pool events between \<and> pool_step world settings between event pool')"
    by (auto elim: pool_run.cases intro: run_more)
  then show ?case by (auto simp: perform_all_snoc perform_step snoc.IH [symmetric] split: option.split)
qed

definition sample_world :: error_world where
  "sample_world = \<lparr>ew_objects = [(0, \<lparr>eo_isError = True, eo_message = Some ''fetch failed'', eo_cause = OtherValue,
      ce_class = PlainError, ce_name = ''TypeError'', ce_code = None, ce_checks = []\<rparr>)], ew_String = (\<lambda>_. ''undefined'')\<rparr>"

definition sample_urls :: "string list" where
  "sample_urls = [''https://one.test/key'', ''https://two.test/key'', ''https://one.test/key'']"

definition sample_origin :: "string \<Rightarrow> string result" where
  "sample_origin url = ok (take 16 url)"

definition sample_options :: RpcEndpointPoolOptions where
  "sample_options = \<lparr>po_baseCooldownMilliseconds = Some 100, po_maximumCooldownMilliseconds = None, po_timeoutMilliseconds = None\<rparr>"

text \<open>Two requests overlap; the first endpoint fails both and the second answers the first request.\<close>

definition sample_events :: "pool_event list" where
  "sample_events = [BeginPooled ''eth_chainId'' 1000, BeginPooled ''eth_blockNumber'' 1001,
     Receive 0 1005 (1 / 2) (Inl (ErrorRef 0)), Receive 1 1006 0 (Inl (ErrorRef 0)), Resume 0 1007,
     Receive 0 1010 0 (Inr (TextResult ''0x1'')), Resume 0 1011]"

lemma sample_run:
  obtains settings pool pool' where "createRpcEndpointPool sample_origin sample_urls sample_options = ok (settings, pool)"
    and "perform_all sample_world settings sample_events pool = Some pool'"
    and "map eh_consecutiveFailures (pl_endpoints pool') = [2, 0]" "map eh_status (pl_endpoints pool') = [Offline, Healthy]"
    and "orderedEndpoints 1200 pool' = [1]" "ps_maximumCooldownMilliseconds settings = 30000"
    and "0 < length (pl_requests pool')" "pq_scope (pl_requests pool' ! 0) = Pooled" "pq_method (pl_requests pool' ! 0) = ''eth_chainId''"
    and "pq_phase (pl_requests pool' ! 0) = Finished (Inr (TextResult ''0x1''))"
proof -
  have "case createRpcEndpointPool sample_origin sample_urls sample_options of
      Inl _ \<Rightarrow> False
    | Inr (settings, pool) \<Rightarrow>
       (case perform_all sample_world settings sample_events pool of
          None \<Rightarrow> False
        | Some pool' \<Rightarrow> map eh_consecutiveFailures (pl_endpoints pool') = [2, 0] \<and> map eh_status (pl_endpoints pool') = [Offline, Healthy] \<and>
            orderedEndpoints 1200 pool' = [1] \<and> ps_maximumCooldownMilliseconds settings = 30000 \<and>
            0 < length (pl_requests pool') \<and> pq_scope (pl_requests pool' ! 0) = Pooled \<and>
            pq_method (pl_requests pool' ! 0) = ''eth_chainId'' \<and> pq_phase (pl_requests pool' ! 0) = Finished (Inr (TextResult ''0x1'')))"
    by code_simp
  then show ?thesis by (auto intro: that split: sum.splits option.splits)
qed

theorem endpoint_pool_recovers_witness:
  "case createRpcEndpointPool sample_origin sample_urls sample_options of
     Inl _ \<Rightarrow> False
   | Inr (settings, pool) \<Rightarrow>
       (case perform_all sample_world settings sample_events pool of
          None \<Rightarrow> False
        | Some pool' \<Rightarrow>
            map eh_consecutiveFailures (pl_endpoints pool') = [2, 0] \<and> map eh_status (pl_endpoints pool') = [Offline, Healthy] \<and>
            orderedEndpoints 1200 pool' = [1] \<and> set (orderedEndpoints 31010 pool') = {..<2} \<and>
            map eh_url (pl_endpoints pool') = unique_values sample_urls)"
proof -
  obtain settings pool pool' where pool: "createRpcEndpointPool sample_origin sample_urls sample_options = ok (settings, pool)"
    and run: "perform_all sample_world settings sample_events pool = Some pool'"
    and state: "map eh_consecutiveFailures (pl_endpoints pool') = [2, 0]" "map eh_status (pl_endpoints pool') = [Offline, Healthy]"
      "orderedEndpoints 1200 pool' = [1]" "ps_maximumCooldownMilliseconds settings = 30000"
    using sample_run by metis
  have "length (unique_values sample_urls) = 2" by code_simp
  have "list_all (replied_by 1010) sample_events" by (simp add: sample_events_def replied_by_def)
  from endpoint_pool_recovers [OF pool run [unfolded perform_all_run] this, of 31010] state \<open>length (unique_values sample_urls) = 2\<close>
  have "set (orderedEndpoints 31010 pool') = {..<2} \<and> map eh_url (pl_endpoints pool') = unique_values sample_urls" by simp
  with pool run state show ?thesis by simp
qed

theorem pooled_request_is_failover_witness:
  "case createRpcEndpointPool sample_origin sample_urls sample_options of
     Inl _ \<Rightarrow> False
   | Inr (settings, pool) \<Rightarrow>
       \<exists>time started. begun sample_world settings pool sample_events 0 ''eth_chainId'' time started \<and>
         replies_to 0 sample_events = [Inl (ErrorRef 0), Inr (TextResult ''0x1'')] \<and>
         failover sample_world ''eth_chainId'' (identities pool) (orderedEndpoints time started) (replies_to 0 sample_events) [] =
           Some (Inr (TextResult ''0x1''))"
proof -
  obtain settings pool pool' where pool: "createRpcEndpointPool sample_origin sample_urls sample_options = ok (settings, pool)"
    and run: "perform_all sample_world settings sample_events pool = Some pool'"
    and state: "0 < length (pl_requests pool')" "pq_scope (pl_requests pool' ! 0) = Pooled"
      "pq_phase (pl_requests pool' ! 0) = Finished (Inr (TextResult ''0x1''))"
    and called: "pq_method (pl_requests pool' ! 0) = ''eth_chainId''"
    using sample_run by metis
  have replies: "replies_to 0 sample_events = [Inl (ErrorRef 0), Inr (TextResult ''0x1'')]"
    by (simp add: replies_to_def sample_events_def)
  from pooled_request_is_failover [OF pool run [unfolded perform_all_run] state]
  obtain time started where begun: "begun sample_world settings pool sample_events 0 ''eth_chainId'' time started"
    and outcome: "failover sample_world ''eth_chainId'' (identities pool) (orderedEndpoints time started) (replies_to 0 sample_events) [] =
        Some (Inr (TextResult ''0x1''))"
    by (auto simp: Let_def replies called split: if_splits)
  with begun outcome replies show ?thesis by (auto simp: pool)
qed

end
