(* ===== verification/Report_Form.thy ===== *)
theory Report_Form
  imports Bid_Form Arbitrage
begin

text \<open>
  The form that creates a standalone oracle report: \<open>getOpenOracleCreateValidation\<close>,
  \<open>parseOpenOracleCreateFormSubmission\<close> and the fee fields of
  \<open>ui/zoltar/ts/features/open-oracle/lib/openOracle.ts\<close>, the parameter checks of
  \<open>protocol/openOracleValidation.ts\<close>, and the whole-number fields of
  \<open>coreShared/ts/lib/integerInput.ts\<close>. Address parsing (\<open>isAddress\<close>, \<open>getAddress\<close>) is third-party code and
  an argument.
\<close>

section \<open>Whole numbers and addresses\<close>

definition bigintToSafeNumber :: "int \<Rightarrow> string \<Rightarrow> int result" where
  "bigintToSafeNumber n label =
     (if n < - 9007199254740991 \<or> n > 9007199254740991 then throw (label @ '' exceeds the JavaScript safe integer range'') else ok n)"

text \<open>\<open>/^-?\d+$/\<close> and \<open>/^0x[0-9a-fA-F]+$/\<close>\<close>

definition is_whole_number :: "string \<Rightarrow> bool" where
  "is_whole_number s \<longleftrightarrow> all_digits s \<or> starts_with s (CHR ''-'') \<and> all_digits (tl s)"

definition is_hex_number :: "string \<Rightarrow> bool" where
  "is_hex_number s \<longleftrightarrow> has_prefix ''0x'' s \<and> drop 2 s \<noteq> [] \<and> list_all is_hex_digit (drop 2 s)"

definition tryParseBigIntInput :: "string \<Rightarrow> int option result" where
  "tryParseBigIntInput input =
     (let trimmed = trim input in
      if trimmed = [] \<or> \<not> is_whole_number trimmed \<and> \<not> is_hex_number trimmed then ok None
      else bindR (bigint_of_string trimmed) (\<lambda>n. ok (Some n)))"

definition parseBigIntInput :: "string \<Rightarrow> string \<Rightarrow> int result" where
  "parseBigIntInput input label =
     (let trimmed = trim input in
      if trimmed = [] then throw (label @ '' is required'')
      else bindR (tryParseBigIntInput trimmed) (\<lambda>parsed. case parsed of
          None \<Rightarrow> throw (label @ '' must be a whole number'')
        | Some n \<Rightarrow> ok n))"

record address_library =
  al_isAddress :: "string \<Rightarrow> bool"
  al_getAddress :: "string \<Rightarrow> string"

definition tryParseAddressInput :: "address_library \<Rightarrow> string \<Rightarrow> string option" where
  "tryParseAddressInput lib input =
     (let trimmed = trim input in if trimmed = [] \<or> \<not> al_isAddress lib trimmed then None else Some (al_getAddress lib trimmed))"

definition parseAddressInput :: "address_library \<Rightarrow> string \<Rightarrow> string \<Rightarrow> string result" where
  "parseAddressInput lib input label =
     (let trimmed = trim input in
      if trimmed = [] then throw (label @ '' is required'')
      else case tryParseAddressInput lib input of
        None \<Rightarrow> throw (label @ '' must be a valid address: '' @ trimmed)
      | Some address \<Rightarrow> ok address)"

section \<open>Parameters\<close>

definition OPEN_ORACLE_MULTIPLIER_PRECISION :: int where "OPEN_ORACLE_MULTIPLIER_PRECISION = 100"
definition OPEN_ORACLE_UINT16_MAX :: int where "OPEN_ORACLE_UINT16_MAX = 2 ^ 16 - 1"
definition OPEN_ORACLE_UINT24_MAX :: int where "OPEN_ORACLE_UINT24_MAX = 2 ^ 24 - 1"
definition OPEN_ORACLE_UINT48_MAX :: int where "OPEN_ORACLE_UINT48_MAX = 2 ^ 48 - 1"
definition OPEN_ORACLE_UINT96_MAX :: int where "OPEN_ORACLE_UINT96_MAX = 2 ^ 96 - 1"
definition OPEN_ORACLE_UINT128_MAX :: int where "OPEN_ORACLE_UINT128_MAX = 2 ^ 128 - 1"

record OpenOracleCreateValidationParameters =
  cq_disputeDelay :: int
  cq_escalationHalt :: int
  cq_exactToken1Report :: int
  cq_initialToken2Amount :: int
  cq_ethValueAttoEth :: int
  cq_feePercentage :: int
  cq_multiplier :: int
  cq_protocolFee :: int
  cq_settlementTime :: int
  cq_settlerRewardAttoEth :: int
  cq_token1Address :: string
  cq_token2Address :: string

text \<open>The fields of the form, in the order of \<open>OPEN_ORACLE_CREATE_FIELD_ORDER\<close>.\<close>

datatype OpenOracleCreateField =
  Token1AddressField | Token2AddressField | ExactToken1ReportField | InitialToken2AmountField | EscalationHaltField | EthValueField
| SettlerRewardField | SettlementTimeField | DisputeDelayField | MultiplierField | FeePercentageField | ProtocolFeeField

definition OPEN_ORACLE_CREATE_FIELD_ORDER :: "OpenOracleCreateField list" where
  "OPEN_ORACLE_CREATE_FIELD_ORDER = [Token1AddressField, Token2AddressField, ExactToken1ReportField, InitialToken2AmountField,
     EscalationHaltField, EthValueField, SettlerRewardField, SettlementTimeField, DisputeDelayField, MultiplierField,
     FeePercentageField, ProtocolFeeField]"

text \<open>The first violated parameter, under the field of the form that shows it.\<close>

definition getOpenOracleCreateParameterValidation ::
  "OpenOracleCreateValidationParameters \<Rightarrow> bool \<Rightarrow> (OpenOracleCreateField \<times> string) option" where
  "getOpenOracleCreateParameterValidation p skipToken1MagnitudeValidation =
     (let token1 = Some (cq_token1Address p); token2 = Some (cq_token2Address p) in
      if sameAddress_ui token1 token2 then Some (Token2AddressField, ''Base and quote tokens must use different addresses.'')
      else if sameAddress_ui token1 (Some zeroAddress)
      then Some (Token1AddressField, ''Direct Open Oracle reports currently require two ERC-20 token addresses.'')
      else if sameAddress_ui token2 (Some zeroAddress)
      then Some (Token2AddressField, ''Direct Open Oracle reports currently require two ERC-20 token addresses.'')
      else if cq_exactToken1Report p \<le> 0 then Some (ExactToken1ReportField, ''Base token amount must be greater than zero.'')
      else if \<not> skipToken1MagnitudeValidation \<and> cq_exactToken1Report p > OPEN_ORACLE_UINT128_MAX
      then Some (ExactToken1ReportField, ''Base token amount exceeds the contract maximum.'')
      else if cq_initialToken2Amount p \<le> 0 then Some (InitialToken2AmountField, ''Quote token amount must be greater than zero.'')
      else if cq_initialToken2Amount p > OPEN_ORACLE_UINT128_MAX
      then Some (InitialToken2AmountField, ''Quote token amount exceeds the contract maximum.'')
      else if cq_escalationHalt p < 0 then Some (EscalationHaltField, ''Escalation halt must be non-negative.'')
      else if \<not> skipToken1MagnitudeValidation \<and> cq_escalationHalt p > OPEN_ORACLE_UINT128_MAX
      then Some (EscalationHaltField, ''Escalation halt exceeds the contract maximum.'')
      else if cq_ethValueAttoEth p < 0 then Some (EthValueField, ''ETH value to send must be non-negative.'')
      else if cq_ethValueAttoEth p > OPEN_ORACLE_UINT96_MAX then Some (EthValueField, ''ETH value to send exceeds the contract maximum.'')
      else if cq_settlerRewardAttoEth p < 0 then Some (SettlerRewardField, ''Settler reward must be non-negative.'')
      else if cq_settlerRewardAttoEth p > OPEN_ORACLE_UINT96_MAX
      then Some (SettlerRewardField, ''Settler reward exceeds the contract maximum.'')
      else if cq_ethValueAttoEth p \<noteq> cq_settlerRewardAttoEth p
      then Some (EthValueField, ''ETH value to send must equal the settler reward for ERC-20 token pairs.'')
      else if cq_settlementTime p < 0 then Some (SettlementTimeField, ''Enter a valid settlement time.'')
      else if cq_settlementTime p > OPEN_ORACLE_UINT48_MAX
      then Some (SettlementTimeField, ''Settlement time exceeds the contract maximum.'')
      else if cq_disputeDelay p < 0 then Some (DisputeDelayField, ''Enter a valid dispute delay.'')
      else if cq_disputeDelay p > OPEN_ORACLE_UINT24_MAX then Some (DisputeDelayField, ''Dispute delay exceeds the contract maximum.'')
      else if cq_settlementTime p \<le> cq_disputeDelay p
      then Some (SettlementTimeField, ''Settlement time must be greater than dispute delay.'')
      else if cq_multiplier p < OPEN_ORACLE_MULTIPLIER_PRECISION then Some (MultiplierField, ''Multiplier must be at least 1.00x.'')
      else if cq_multiplier p > OPEN_ORACLE_UINT16_MAX then Some (MultiplierField, ''Multiplier exceeds the contract maximum.'')
      else if cq_feePercentage p < 0 then Some (FeePercentageField, ''Fee percentage must be non-negative.'')
      else if cq_feePercentage p > OPEN_ORACLE_UINT24_MAX
      then Some (FeePercentageField, ''Fee percentage exceeds the contract maximum.'')
      else if cq_protocolFee p < 0 then Some (ProtocolFeeField, ''Protocol fee must be non-negative.'')
      else if cq_protocolFee p > OPEN_ORACLE_UINT24_MAX then Some (ProtocolFeeField, ''Protocol fee exceeds the contract maximum.'')
      else if cq_feePercentage p + cq_protocolFee p > OPEN_ORACLE_PERCENTAGE_PRECISION
      then Some (ProtocolFeeField, ''Fee percentage plus protocol fee must not exceed 100%.'')
      else None)"

section \<open>The form\<close>

record OpenOracleCreateFormState =
  cf_ethValue :: string
  cf_exactToken1Report :: string
  cf_initialToken2Amount :: string
  cf_escalationHalt :: string
  cf_feePercentage :: string
  cf_multiplier :: string
  cf_protocolFee :: string
  cf_settlementTime :: string
  cf_settlerRewardEthAmount :: string
  cf_token1Address :: string
  cf_token2Address :: string
  cf_disputeDelay :: string

record OpenOracleCreateValidation =
  cv_fieldErrors :: "(OpenOracleCreateField \<times> string) list"
  cv_firstInvalidField :: "OpenOracleCreateField option"
  cv_isValid :: bool
  cv_message :: "string option"

definition getOpenOracleCreateAddressValidationMessage :: "address_library \<Rightarrow> string \<Rightarrow> bool \<Rightarrow> string option" where
  "getOpenOracleCreateAddressValidationMessage lib addressInput base =
     (if tryParseAddressInput lib addressInput \<noteq> None then None
      else Some (if base then ''Enter a valid base token address.'' else ''Enter a valid quote token address.''))"

definition normalizeOpenOracleUnknownScaleDecimalInput :: "string \<Rightarrow> string" where
  "normalizeOpenOracleUnknownScaleDecimalInput input =
     (let trimmed = trim input in
      if trimmed = [] then trimmed
      else if trimmed = ''.'' \<or> trimmed = ''-.'' then trimmed
      else if starts_with trimmed (CHR ''.'') then ''0'' @ trimmed
      else if ends_with trimmed (CHR ''.'') then trimmed @ ''0''
      else trimmed)"

definition isZeroOpenOracleDecimalInput :: "string \<Rightarrow> bool" where
  "isZeroOpenOracleDecimalInput s = list_all (\<lambda>c. c = CHR ''0'') (remove1 (CHR ''.'') (remove1 (CHR ''-'') s))"

definition getOpenOracleUnknownScaleDecimalValidationMessage ::
  "bool \<Rightarrow> string \<Rightarrow> string \<Rightarrow> string \<Rightarrow> string option \<Rightarrow> string option" where
  "getOpenOracleUnknownScaleDecimalValidationMessage allowZero input invalidMessage negativeMessage zeroMessage =
     (let normalized = normalizeOpenOracleUnknownScaleDecimalInput input in
      if normalized = [] \<or> \<not> is_decimal_text normalized then Some invalidMessage
      else if starts_with normalized (CHR ''-'') then Some negativeMessage
      else if \<not> allowZero \<and> isZeroOpenOracleDecimalInput normalized
      then Some (case zeroMessage of None \<Rightarrow> negativeMessage | Some message \<Rightarrow> message)
      else None)"

definition setOpenOracleCreateFieldError ::
  "OpenOracleCreateField \<Rightarrow> string option \<Rightarrow> (OpenOracleCreateField \<times> string) list \<Rightarrow> (OpenOracleCreateField \<times> string) list" where
  "setOpenOracleCreateFieldError field message fieldErrors =
     (case message of None \<Rightarrow> fieldErrors
      | Some text \<Rightarrow> if map_of fieldErrors field \<noteq> None then fieldErrors else fieldErrors @ [(field, text)])"

text \<open>
  An amount field: of a token whose decimals are not loaded only the shape of the text is checked, and a
  placeholder stands for the amount.
\<close>

definition read_amount_field :: "string \<Rightarrow> nat option \<Rightarrow> bool \<Rightarrow> string \<Rightarrow> string \<Rightarrow> string option \<Rightarrow> int \<Rightarrow> (int option \<times> string option) result" where
  "read_amount_field input decimals allowZero invalidMessage negativeMessage zeroMessage placeholder =
     (case decimals of
        None \<Rightarrow>
          let validationMessage = getOpenOracleUnknownScaleDecimalValidationMessage allowZero input invalidMessage negativeMessage zeroMessage
          in ok (if validationMessage \<noteq> None then None else Some placeholder, validationMessage)
      | Some units \<Rightarrow> bindR (tryParseDecimalInput input units) (\<lambda>amount. ok (amount, if amount = None then Some invalidMessage else None)))"

definition missing :: "'a option \<Rightarrow> string \<Rightarrow> string option" where
  "missing x message = (if x = None then Some message else None)"

definition parameter_error :: "(OpenOracleCreateField \<times> string) option \<Rightarrow> (OpenOracleCreateField \<times> string) list \<Rightarrow> (OpenOracleCreateField \<times> string) list" where
  "parameter_error validation fieldErrors = (case validation of
     None \<Rightarrow> fieldErrors
   | Some (field, message) \<Rightarrow> setOpenOracleCreateFieldError field (Some message) fieldErrors)"

definition validation_of :: "(OpenOracleCreateField \<times> string) list \<Rightarrow> OpenOracleCreateValidation" where
  "validation_of fieldErrors =
     (let firstInvalidField = List.find (\<lambda>field. map_of fieldErrors field \<noteq> None) OPEN_ORACLE_CREATE_FIELD_ORDER
      in \<lparr>cv_fieldErrors = fieldErrors, cv_firstInvalidField = firstInvalidField, cv_isValid = (firstInvalidField = None),
         cv_message = (case firstInvalidField of None \<Rightarrow> None | Some field \<Rightarrow> map_of fieldErrors field)\<rparr>)"

definition getOpenOracleCreateValidation ::
  "address_library \<Rightarrow> OpenOracleCreateFormState \<Rightarrow> nat option \<Rightarrow> nat option \<Rightarrow> OpenOracleCreateValidation result" where
  "getOpenOracleCreateValidation lib form token1Decimals token2Decimals =
     (let token1AddressValidationMessage = getOpenOracleCreateAddressValidationMessage lib (cf_token1Address form) True;
          token2AddressValidationMessage = getOpenOracleCreateAddressValidationMessage lib (cf_token2Address form) False in
      bindR (if token1AddressValidationMessage = None
             then bindR (parseAddressInput lib (cf_token1Address form) ''Base token address'') (\<lambda>a. ok (Some a)) else ok None) (\<lambda>token1Address.
      bindR (if token2AddressValidationMessage = None
             then bindR (parseAddressInput lib (cf_token2Address form) ''Quote token address'') (\<lambda>a. ok (Some a)) else ok None) (\<lambda>token2Address.
      bindR (read_amount_field (cf_exactToken1Report form) token1Decimals False ''Enter a valid base token amount.''
          ''Base token amount must be greater than zero.'' (Some ''Base token amount must be greater than zero.'') 1) (\<lambda>(exactToken1Report, exactToken1Message).
      bindR (read_amount_field (cf_initialToken2Amount form) token2Decimals False ''Enter a valid quote token amount.''
          ''Quote token amount must be greater than zero.'' (Some ''Quote token amount must be greater than zero.'') 1) (\<lambda>(initialToken2Amount, initialToken2Message).
      bindR (read_amount_field (cf_escalationHalt form) token1Decimals True ''Enter a valid escalation halt.''
          ''Escalation halt must be non-negative.'' None 0) (\<lambda>(escalationHalt, escalationHaltMessage).
      bindR (tryParseDecimalInput (cf_ethValue form) 18) (\<lambda>ethValue.
      bindR (tryParseDecimalInput (cf_settlerRewardEthAmount form) 18) (\<lambda>settlerRewardAttoEth.
      bindR (tryParseBigIntInput (cf_settlementTime form)) (\<lambda>settlementTime.
      bindR (tryParseBigIntInput (cf_disputeDelay form)) (\<lambda>disputeDelay.
      bindR (tryParseBigIntInput (cf_multiplier form)) (\<lambda>multiplier.
      bindR (tryParseDecimalInput (cf_feePercentage form) 5) (\<lambda>feePercentage.
      bindR (tryParseDecimalInput (cf_protocolFee form) 5) (\<lambda>protocolFee.
        let validMultiplier = (case multiplier of None \<Rightarrow> None | Some n \<Rightarrow> if n < 0 then None else Some n);
            fieldErrors = foldl (\<lambda>fieldErrors (field, message). setOpenOracleCreateFieldError field message fieldErrors) []
              [(Token1AddressField, token1AddressValidationMessage), (Token2AddressField, token2AddressValidationMessage),
               (ExactToken1ReportField, exactToken1Message), (InitialToken2AmountField, initialToken2Message),
               (EscalationHaltField, escalationHaltMessage), (EthValueField, missing ethValue ''Enter a valid ETH value to send.''),
               (SettlerRewardField, missing settlerRewardAttoEth ''Enter a valid settler reward.''),
               (SettlementTimeField, missing settlementTime ''Enter a valid settlement time.''),
               (DisputeDelayField, missing disputeDelay ''Enter a valid dispute delay.''),
               (MultiplierField, missing validMultiplier ''Enter a valid multiplier.''),
               (FeePercentageField, missing feePercentage ''Enter a valid fee percentage.''),
               (ProtocolFeeField, missing protocolFee ''Enter a valid protocol fee.'')];
            validation = (case (token1Address, token2Address, exactToken1Report, initialToken2Amount, escalationHalt, ethValue,
                settlerRewardAttoEth, settlementTime, disputeDelay, validMultiplier, feePercentage, protocolFee) of
              (Some token1, Some token2, Some exact1, Some initial2, Some halt, Some eth, Some reward, Some settlement, Some delay,
               Some multiple, Some fee, Some protocol) \<Rightarrow>
                getOpenOracleCreateParameterValidation
                  \<lparr>cq_disputeDelay = delay, cq_escalationHalt = halt, cq_exactToken1Report = exact1, cq_initialToken2Amount = initial2,
                   cq_ethValueAttoEth = eth, cq_feePercentage = fee, cq_multiplier = multiple, cq_protocolFee = protocol,
                   cq_settlementTime = settlement, cq_settlerRewardAttoEth = reward, cq_token1Address = token1, cq_token2Address = token2\<rparr>
                  (token1Decimals = None)
            | _ \<Rightarrow> None)
        in ok (validation_of (parameter_error validation fieldErrors)))))))))))))))"

text \<open>A fee percentage has five decimal places.\<close>

definition parseOpenOracleFeePercentageInput :: "string \<Rightarrow> string \<Rightarrow> int result" where
  "parseOpenOracleFeePercentageInput input label =
     (let trimmed = trim input in
      if trimmed = [] then throw (label @ '' is required'')
      else bindR (tryParseDecimalInput trimmed 5) (\<lambda>parsed. case parsed of
          None \<Rightarrow> throw (label @ '' must be a decimal percentage'')
        | Some n \<Rightarrow>
            if n < 0 then throw (label @ '' must be non-negative'')
            else if n > MAX_SAFE_INTEGER then throw (label @ '' exceeds the maximum safe integer range'')
            else bigintToSafeNumber n label))"

definition safe_number_field :: "string \<Rightarrow> string \<Rightarrow> int result" where
  "safe_number_field input label = bindR (parseBigIntInput input label) (\<lambda>n. bigintToSafeNumber n label)"

definition parseOpenOracleCreateFormSubmission ::
  "address_library \<Rightarrow> OpenOracleCreateFormState \<Rightarrow> nat \<Rightarrow> nat \<Rightarrow> OpenOracleCreateValidationParameters result" where
  "parseOpenOracleCreateFormSubmission lib form token1Decimals token2Decimals =
     bindR (getOpenOracleCreateValidation lib form (Some token1Decimals) (Some token2Decimals)) (\<lambda>validation.
       case cv_message validation of
         Some message \<Rightarrow> throw message
       | None \<Rightarrow>
           bindR (safe_number_field (cf_disputeDelay form) ''Dispute delay'') (\<lambda>disputeDelay.
           bindR (parseDecimalInput (cf_escalationHalt form) ''Escalation halt'' token1Decimals) (\<lambda>escalationHalt.
           bindR (parseDecimalInput (cf_exactToken1Report form) ''Base token amount'' token1Decimals) (\<lambda>exactToken1Report.
           bindR (parseDecimalInput (cf_initialToken2Amount form) ''Quote token amount'' token2Decimals) (\<lambda>initialToken2Amount.
           bindR (parseDecimalInput (cf_ethValue form) ''ETH value'' 18) (\<lambda>ethValueAttoEth.
           bindR (parseOpenOracleFeePercentageInput (cf_feePercentage form) ''Fee percentage'') (\<lambda>feePercentage.
           bindR (safe_number_field (cf_multiplier form) ''Multiplier'') (\<lambda>multiplier.
           bindR (parseOpenOracleFeePercentageInput (cf_protocolFee form) ''Protocol fee'') (\<lambda>protocolFee.
           bindR (safe_number_field (cf_settlementTime form) ''Settlement time'') (\<lambda>settlementTime.
           bindR (parseDecimalInput (cf_settlerRewardEthAmount form) ''Settler reward'' 18) (\<lambda>settlerRewardAttoEth.
           bindR (parseAddressInput lib (cf_token1Address form) ''Base token address'') (\<lambda>token1Address.
           bindR (parseAddressInput lib (cf_token2Address form) ''Quote token address'') (\<lambda>token2Address.
             ok \<lparr>cq_disputeDelay = disputeDelay, cq_escalationHalt = escalationHalt, cq_exactToken1Report = exactToken1Report,
               cq_initialToken2Amount = initialToken2Amount, cq_ethValueAttoEth = ethValueAttoEth, cq_feePercentage = feePercentage,
               cq_multiplier = multiplier, cq_protocolFee = protocolFee, cq_settlementTime = settlementTime,
               cq_settlerRewardAttoEth = settlerRewardAttoEth, cq_token1Address = token1Address, cq_token2Address = token2Address\<rparr>)))))))))))))"

section \<open>Printed percentages\<close>

text \<open>\<open>formatScaledBigInt\<close>; the integer part is grouped by commas.\<close>

definition formatScaledBigInt :: "int \<Rightarrow> int \<Rightarrow> nat \<Rightarrow> bool \<Rightarrow> string" where
  "formatScaledBigInt n scale minimumFractionDigits groupInteger =
     (let isNegative = n < 0;
          absoluteValue = (if isNegative then - n else n);
          integerPart = absoluteValue sdiv scale;
          fractionPart = absoluteValue smod scale;
          scaleDigits = length (bigint_to_string scale) - 1;
          trimmedFraction = strip_trailing_zeros (padStart scaleDigits (CHR ''0'') (bigint_to_string fractionPart));
          fractionText = padEnd minimumFractionDigits (CHR ''0'') trimmedFraction;
          integerText = (if groupInteger
            then map (\<lambda>c. if c = CHR '' '' then CHR '','' else c) (formatGroupedInteger integerPart)
            else bigint_to_string integerPart)
      in (if isNegative then ''-'' else '''') @ integerText @ (if fractionText = [] then '''' else ''.'' @ fractionText))"

text \<open>Of a defined value; the screen shows a dash for an undefined one.\<close>

definition formatOpenOracleFeePercentage :: "int \<Rightarrow> string" where
  "formatOpenOracleFeePercentage feePercentage = formatScaledBigInt feePercentage 100000 0 True @ ''%''"

definition formatOpenOracleFeePercentageInput :: "int \<Rightarrow> string" where
  "formatOpenOracleFeePercentageInput feePercentage = formatScaledBigInt feePercentage 100000 0 False"

definition formatOpenOracleMultiplier :: "int \<Rightarrow> string" where
  "formatOpenOracleMultiplier multiplier = formatScaledBigInt multiplier 100 2 False @ ''x''"

section \<open>The wallet of the creator\<close>

definition getWalletConnectionActiveAppChainGuardState :: "NetworkProfile \<Rightarrow> bool \<Rightarrow> bool \<Rightarrow> string option \<Rightarrow> GuardState" where
  "getWalletConnectionActiveAppChainGuardState profile isOnActiveAppChain walletConnected walletRequiredReason =
     (if \<not> walletConnected then \<lparr>gs_blocked = True, gs_reason = Some (getWalletRequiredReason walletRequiredReason)\<rparr>
      else if \<not> isOnActiveAppChain then
        \<lparr>gs_blocked = True, gs_reason = Some (case getWrongNetworkMessage profile of
           None \<Rightarrow> mainnetRequiredReason | Some message \<Rightarrow> message)\<rparr>
      else \<lparr>gs_blocked = False, gs_reason = None\<rparr>)"

definition getOpenOracleCreateGuardMessage :: "NetworkProfile \<Rightarrow> string \<Rightarrow> bool \<Rightarrow> string \<Rightarrow> bool \<Rightarrow> int option \<Rightarrow> string option result" where
  "getOpenOracleCreateGuardMessage profile ethValueInput isOnActiveAppChain settlerRewardInput walletConnected walletBalanceAttoEth =
     (let walletGuardState = getWalletConnectionActiveAppChainGuardState profile isOnActiveAppChain walletConnected
            (Some ''Connect a wallet before creating a standalone Open Oracle report.'') in
      if gs_blocked walletGuardState then ok (gs_reason walletGuardState)
      else bindR (tryParseDecimalInput ethValueInput 18) (\<lambda>parsedValue. case parsedValue of
          None \<Rightarrow> ok (Some ''Enter a valid ETH value to send.'')
        | Some ethValue \<Rightarrow>
            bindR (tryParseDecimalInput settlerRewardInput 18) (\<lambda>parsedReward. case parsedReward of
                None \<Rightarrow> ok (Some ''Enter a valid settler reward.'')
              | Some settlerRewardAttoEth \<Rightarrow>
                  if ethValue < settlerRewardAttoEth then ok (Some ''ETH value to send must be at least the settler reward.'')
                  else case walletBalanceAttoEth of
                    None \<Rightarrow> ok (Some ''Loading wallet ETH balance.'')
                  | Some balance \<Rightarrow>
                      if ethValue > balance
                      then bindR (formatAdditionalCurrencyBalance (ethValue - balance) ''ETH'' 18) (\<lambda>shown.
                        ok (Some (''Need '' @ shown @ '' in this wallet to create the selected standalone Open Oracle report.'')))
                      else ok None)))"

section \<open>What the form submits\<close>

lemma sdiv_pow10: "0 \<le> n \<Longrightarrow> n sdiv (10 ^ k) = n div (10 ^ k)" "0 \<le> n \<Longrightarrow> n smod (10 ^ k) = n mod (10 ^ k)" for n :: int
  by (simp_all add: sdiv_nonneg smod_nonneg)

lemma bigint_of_whole_number:
  assumes "is_whole_number s \<or> is_hex_number s"
  shows "\<exists>n. bigint_of_string s = ok n"
proof -
  have digit: "c \<noteq> CHR ''-'' \<and> c \<noteq> CHR ''+'' \<and> \<not> is_space c" if "is_digit c" for c
    using that by (auto simp: is_digit_def is_space_def)
  have space: "\<not> is_space (CHR ''-'')" "\<not> is_space (CHR ''0'')" by (simp_all add: is_space_def)
  have hex: "\<not> is_space c" if "is_hex_digit c" for c
    using that by (auto simp: is_hex_digit_def is_digit_def is_space_def lower_char_def split: if_splits)
  have trimmed: "trim s = s" if "s \<noteq> []" "\<not> is_space (hd s)" "\<not> is_space (last s)"
    using that by (intro trim_no_spaces) simp
  consider (digits) "all_digits s" | (negative) "starts_with s (CHR ''-'')" "all_digits (tl s)" | (hex) "is_hex_number s"
    using assms by (auto simp: is_whole_number_def)
  then show ?thesis
  proof cases
    case digits
    then show ?thesis by (simp add: bigint_of_string_def trim_digits Let_def all_digits_def)
  next
    case negative
    then have "hd s = CHR ''-''" "s \<noteq> []" "last s = last (tl s)" "tl s \<noteq> []"
      by (auto simp: starts_with_def all_digits_def split: list.splits)
    moreover from this negative have "is_digit (last s)" by (auto simp: all_digits_def list_all_iff)
    ultimately have "trim s = s" using space digit by (intro trimmed) auto
    moreover have "\<not> all_digits s" using \<open>hd s = CHR ''-''\<close> \<open>s \<noteq> []\<close> digit by (cases s) (auto simp: all_digits_def)
    ultimately show ?thesis using negative \<open>hd s = CHR ''-''\<close> \<open>s \<noteq> []\<close> by (simp add: bigint_of_string_def Let_def)
  next
    case hex: hex
    then have shape: "take 2 s = ''0x''" "drop 2 s \<noteq> []" "list_all is_hex_digit (drop 2 s)"
      by (simp_all add: is_hex_number_def has_prefix_def numeral_2_eq_2)
    then have s: "s = ''0x'' @ drop 2 s" by (metis append_take_drop_id)
    have "last s = last (drop 2 s)" using shape(2) by (subst s) (simp add: last_append)
    moreover have "is_hex_digit (last (drop 2 s))" using shape(2,3) last_in_set unfolding list_all_iff by blast
    ultimately have "\<not> is_space (last s)" using \<open>\<And>c. is_hex_digit c \<Longrightarrow> \<not> is_space c\<close> by metis
    moreover have "hd s = CHR ''0''" "s \<noteq> []" by (subst s, simp)+
    ultimately have "trim s = s" using space by (intro trimmed) auto
    moreover have "\<not> all_digits s" by (subst s) (simp add: all_digits_def is_digit_def)
    moreover have "toLowerCase (take 2 s) = ''0x''" unfolding shape(1) by code_simp
    ultimately show ?thesis using shape \<open>hd s = CHR ''0''\<close> \<open>s \<noteq> []\<close> by (simp add: bigint_of_string_def Let_def)
  qed
qed

lemma parse_bigint_total: "\<exists>n. tryParseBigIntInput input = ok n"
  using bigint_of_whole_number [of "trim input"] by (auto simp: tryParseBigIntInput_def Let_def)

lemma parsed_not_blank:
  "tryParseDecimalInput input units = ok (Some v) \<Longrightarrow> trim input \<noteq> []"
  "tryParseBigIntInput input = ok (Some n) \<Longrightarrow> trim input \<noteq> []"
  by (auto simp: tryParseDecimalInput_def tryParseBigIntInput_def Let_def)

lemma parse_trimmed:
  "tryParseDecimalInput (trim input) units = tryParseDecimalInput input units"
  "tryParseBigIntInput (trim input) = tryParseBigIntInput input"
  by (simp_all only: tryParseDecimalInput_def tryParseBigIntInput_def trim_trim)

lemma parse_decimal_parsed:
  assumes "tryParseDecimalInput input units = ok (Some v)"
  shows "parseDecimalInput input label units = ok v"
  using parsed_not_blank(1) [OF assms] by (simp add: parseDecimalInput_def Let_def parse_trimmed assms)

lemma parse_bigint_parsed:
  assumes "tryParseBigIntInput input = ok (Some n)"
  shows "parseBigIntInput input label = ok n"
  using parsed_not_blank(2) [OF assms] by (simp add: parseBigIntInput_def Let_def parse_trimmed assms)

lemma parse_fee_parsed:
  assumes "tryParseDecimalInput input 5 = ok (Some v)" and "0 \<le> v" "v \<le> MAX_SAFE_INTEGER"
  shows "parseOpenOracleFeePercentageInput input label = ok v"
  using parsed_not_blank(1) [OF assms(1)] assms(2,3)
  by (simp add: parseOpenOracleFeePercentageInput_def Let_def parse_trimmed assms(1) bigintToSafeNumber_def MAX_SAFE_INTEGER_def)

lemma parse_address_parsed: "tryParseAddressInput lib input = Some address \<Longrightarrow> parseAddressInput lib input label = ok address"
  by (auto simp: parseAddressInput_def tryParseAddressInput_def Let_def split: if_splits)

text \<open>The errors of the fields.\<close>

lemma set_error_eq_Nil: "setOpenOracleCreateFieldError field message errors = [] \<longleftrightarrow> errors = [] \<and> message = None"
  by (auto simp: setOpenOracleCreateFieldError_def split: option.splits)

lemma set_errors_eq_Nil:
  "foldl (\<lambda>errors (field, message). setOpenOracleCreateFieldError field message errors) errors entries = [] \<longleftrightarrow>
     errors = [] \<and> list_all (\<lambda>(field, message). message = None) entries"
proof (induction entries arbitrary: errors)
  case (Cons entry entries)
  then show ?case by (cases entry) (simp add: set_error_eq_Nil conj_ac)
qed simp

lemma first_invalid_None: "List.find (\<lambda>field. map_of errors field \<noteq> None) OPEN_ORACLE_CREATE_FIELD_ORDER = None \<longleftrightarrow> errors = []"
proof -
  have "field \<in> set OPEN_ORACLE_CREATE_FIELD_ORDER" for field by (cases field) (simp_all add: OPEN_ORACLE_CREATE_FIELD_ORDER_def)
  then show ?thesis by (cases errors) (auto simp: find_None_iff)
qed

definition fits_contract :: "OpenOracleCreateValidationParameters \<Rightarrow> bool" where
  "fits_contract p \<longleftrightarrow>
     0 < cq_exactToken1Report p \<and> cq_exactToken1Report p < 2 ^ 128 \<and> 0 < cq_initialToken2Amount p \<and> cq_initialToken2Amount p < 2 ^ 128 \<and>
     0 \<le> cq_escalationHalt p \<and> cq_escalationHalt p < 2 ^ 128 \<and>
     0 \<le> cq_settlerRewardAttoEth p \<and> cq_settlerRewardAttoEth p < 2 ^ 96 \<and> cq_ethValueAttoEth p = cq_settlerRewardAttoEth p \<and>
     0 \<le> cq_disputeDelay p \<and> cq_disputeDelay p < 2 ^ 24 \<and> cq_disputeDelay p < cq_settlementTime p \<and> cq_settlementTime p < 2 ^ 48 \<and>
     100 \<le> cq_multiplier p \<and> cq_multiplier p < 2 ^ 16 \<and>
     0 \<le> cq_feePercentage p \<and> 0 \<le> cq_protocolFee p \<and> cq_feePercentage p + cq_protocolFee p \<le> 10 ^ 7 \<and>
     \<not> sameAddress_ui (Some (cq_token1Address p)) (Some (cq_token2Address p)) \<and>
     \<not> sameAddress_ui (Some (cq_token1Address p)) (Some zeroAddress) \<and> \<not> sameAddress_ui (Some (cq_token2Address p)) (Some zeroAddress)"

lemma parameters_fit: "getOpenOracleCreateParameterValidation p False = None \<Longrightarrow> fits_contract p"
  unfolding getOpenOracleCreateParameterValidation_def Let_def fits_contract_def OPEN_ORACLE_UINT16_MAX_def OPEN_ORACLE_UINT24_MAX_def
    OPEN_ORACLE_UINT48_MAX_def OPEN_ORACLE_UINT96_MAX_def OPEN_ORACLE_UINT128_MAX_def OPEN_ORACLE_MULTIPLIER_PRECISION_def
    OPEN_ORACLE_PERCENTAGE_PRECISION_def
  by (simp split: if_split_asm)

lemma amount_field_loaded:
  "read_amount_field input (Some units) allowZero invalid negative zero placeholder =
     bindR (tryParseDecimalInput input units) (\<lambda>amount. ok (amount, missing amount invalid))"
  by (simp add: read_amount_field_def missing_def)

lemma missing_None [simp]: "missing x message = None \<longleftrightarrow> x \<noteq> None"
  by (simp add: missing_def)

lemma parameter_error_Nil: "parameter_error validation errors = [] \<longleftrightarrow> errors = [] \<and> validation = None"
  by (auto simp: parameter_error_def set_error_eq_Nil split: option.splits)

text \<open>
  C10: The form that creates a report, once both tokens are loaded: validation always returns; the submission
  returns parameters exactly when the form is valid, and otherwise throws the message shown. The
  parameters submitted are those the fields say and fit the contract: amounts, rewards, times and the
  multiplier within their widths, the dispute delay below the settlement time, both fees together at most 100%,
  two different tokens, neither of them native.
\<close>

theorem valid_form_submits:
  "case getOpenOracleCreateValidation lib form (Some token1Decimals) (Some token2Decimals) of
     Inl _ \<Rightarrow> False
   | Inr validation \<Rightarrow>
       (case parseOpenOracleCreateFormSubmission lib form token1Decimals token2Decimals of
          Inl error \<Rightarrow> \<not> cv_isValid validation \<and> (\<exists>message. cv_message validation = Some message \<and> error = Error message)
        | Inr p \<Rightarrow> cv_isValid validation \<and> fits_contract p \<and>
            tryParseDecimalInput (cf_exactToken1Report form) token1Decimals = ok (Some (cq_exactToken1Report p)) \<and>
            tryParseDecimalInput (cf_initialToken2Amount form) token2Decimals = ok (Some (cq_initialToken2Amount p)) \<and>
            tryParseDecimalInput (cf_escalationHalt form) token1Decimals = ok (Some (cq_escalationHalt p)) \<and>
            tryParseDecimalInput (cf_ethValue form) 18 = ok (Some (cq_ethValueAttoEth p)) \<and>
            tryParseDecimalInput (cf_settlerRewardEthAmount form) 18 = ok (Some (cq_settlerRewardAttoEth p)) \<and>
            tryParseDecimalInput (cf_feePercentage form) 5 = ok (Some (cq_feePercentage p)) \<and>
            tryParseDecimalInput (cf_protocolFee form) 5 = ok (Some (cq_protocolFee p)) \<and>
            tryParseBigIntInput (cf_settlementTime form) = ok (Some (cq_settlementTime p)) \<and>
            tryParseBigIntInput (cf_disputeDelay form) = ok (Some (cq_disputeDelay p)) \<and>
            tryParseBigIntInput (cf_multiplier form) = ok (Some (cq_multiplier p)) \<and>
            tryParseAddressInput lib (cf_token1Address form) = Some (cq_token1Address p) \<and>
            tryParseAddressInput lib (cf_token2Address form) = Some (cq_token2Address p))"
proof -
  obtain exact1 initial2 halt eth reward settlement delay multiplier fee protocol where parsed:
      "tryParseDecimalInput (cf_exactToken1Report form) token1Decimals = ok exact1"
      "tryParseDecimalInput (cf_initialToken2Amount form) token2Decimals = ok initial2"
      "tryParseDecimalInput (cf_escalationHalt form) token1Decimals = ok halt"
      "tryParseDecimalInput (cf_ethValue form) 18 = ok eth" "tryParseDecimalInput (cf_settlerRewardEthAmount form) 18 = ok reward"
      "tryParseBigIntInput (cf_settlementTime form) = ok settlement" "tryParseBigIntInput (cf_disputeDelay form) = ok delay"
      "tryParseBigIntInput (cf_multiplier form) = ok multiplier"
      "tryParseDecimalInput (cf_feePercentage form) 5 = ok fee" "tryParseDecimalInput (cf_protocolFee form) 5 = ok protocol"
    using parse_input_total parse_bigint_total by metis
  define address1 where "address1 = tryParseAddressInput lib (cf_token1Address form)"
  define address2 where "address2 = tryParseAddressInput lib (cf_token2Address form)"
  note addresses = address1_def [symmetric] address2_def [symmetric]
  have address_results:
      "bindR (if getOpenOracleCreateAddressValidationMessage lib (cf_token1Address form) base = None
        then bindR (parseAddressInput lib (cf_token1Address form) label) (\<lambda>a. ok (Some a)) else ok None) k = k address1"
      "bindR (if getOpenOracleCreateAddressValidationMessage lib (cf_token2Address form) base = None
        then bindR (parseAddressInput lib (cf_token2Address form) label) (\<lambda>a. ok (Some a)) else ok None) k = k address2" for base label
      and k :: "string option \<Rightarrow> OpenOracleCreateValidation result"
    using parse_address_parsed [of lib "cf_token1Address form"] parse_address_parsed [of lib "cf_token2Address form"]
    by (auto simp: getOpenOracleCreateAddressValidationMessage_def addresses)
  define validMultiplier where "validMultiplier = (case multiplier of None \<Rightarrow> None | Some n \<Rightarrow> if n < 0 then None else Some n)"
  define fields where "fields = foldl (\<lambda>errors (field, message). setOpenOracleCreateFieldError field message errors) []
      [(Token1AddressField, getOpenOracleCreateAddressValidationMessage lib (cf_token1Address form) True),
       (Token2AddressField, getOpenOracleCreateAddressValidationMessage lib (cf_token2Address form) False),
       (ExactToken1ReportField, missing exact1 ''Enter a valid base token amount.''),
       (InitialToken2AmountField, missing initial2 ''Enter a valid quote token amount.''),
       (EscalationHaltField, missing halt ''Enter a valid escalation halt.''), (EthValueField, missing eth ''Enter a valid ETH value to send.''),
       (SettlerRewardField, missing reward ''Enter a valid settler reward.''),
       (SettlementTimeField, missing settlement ''Enter a valid settlement time.''),
       (DisputeDelayField, missing delay ''Enter a valid dispute delay.''),
       (MultiplierField, missing validMultiplier ''Enter a valid multiplier.''),
       (FeePercentageField, missing fee ''Enter a valid fee percentage.''),
       (ProtocolFeeField, missing protocol ''Enter a valid protocol fee.'')]"
  define checked where "checked = (case (address1, address2, exact1, initial2, halt, eth, reward, settlement, delay, validMultiplier, fee, protocol) of
      (Some token1, Some token2, Some exact1, Some initial2, Some halt, Some eth, Some reward, Some settlement, Some delay,
       Some multiple, Some fee, Some protocol) \<Rightarrow>
        getOpenOracleCreateParameterValidation
          \<lparr>cq_disputeDelay = delay, cq_escalationHalt = halt, cq_exactToken1Report = exact1, cq_initialToken2Amount = initial2,
           cq_ethValueAttoEth = eth, cq_feePercentage = fee, cq_multiplier = multiple, cq_protocolFee = protocol,
           cq_settlementTime = settlement, cq_settlerRewardAttoEth = reward, cq_token1Address = token1, cq_token2Address = token2\<rparr> False
    | _ \<Rightarrow> None)"
  define errors where "errors = parameter_error checked fields"
  have validated: "getOpenOracleCreateValidation lib form (Some token1Decimals) (Some token2Decimals) = ok (validation_of errors)"
    unfolding getOpenOracleCreateValidation_def Let_def address_results amount_field_loaded parsed bindR_simps prod.case
    unfolding errors_def fields_def checked_def validMultiplier_def prod.case by (simp only: option.distinct)
  have message: "cv_isValid (validation_of errors) \<longleftrightarrow> errors = []"
    "errors = [] \<Longrightarrow> cv_message (validation_of errors) = None"
    "errors \<noteq> [] \<Longrightarrow> \<exists>message. cv_message (validation_of errors) = Some message"
    using first_invalid_None [of errors]
    by (auto simp: validation_of_def Let_def split: option.split dest!: find_Some_in)
  show ?thesis
  proof (cases "errors = []")
    case False
    then show ?thesis using message by (auto simp: validated parseOpenOracleCreateFormSubmission_def)
  next
    case True
    then have valid: "fields = []" "checked = None" by (simp_all add: errors_def parameter_error_Nil)
    then obtain a1 a2 v1 v2 vh ve vr vs vd vm vf vp where loaded: "address1 = Some a1" "address2 = Some a2" "exact1 = Some v1" "initial2 = Some v2"
        "halt = Some vh" "eth = Some ve" "reward = Some vr" "settlement = Some vs" "delay = Some vd" "validMultiplier = Some vm"
        "fee = Some vf" "protocol = Some vp"
      using valid(1) unfolding fields_def set_errors_eq_Nil
      by (auto simp: getOpenOracleCreateAddressValidationMessage_def addresses split: if_splits)
    define p where "p = \<lparr>cq_disputeDelay = vd, cq_escalationHalt = vh, cq_exactToken1Report = v1, cq_initialToken2Amount = v2,
        cq_ethValueAttoEth = ve, cq_feePercentage = vf, cq_multiplier = vm, cq_protocolFee = vp,
        cq_settlementTime = vs, cq_settlerRewardAttoEth = vr, cq_token1Address = a1, cq_token2Address = a2\<rparr>"
    have fits: "fits_contract p" using valid(2) by (intro parameters_fit) (simp add: checked_def loaded p_def)
    have multiplier: "multiplier = Some vm" using loaded(10) by (auto simp: validMultiplier_def split: option.splits if_splits)
    note parsed' = parsed [unfolded loaded multiplier]
    have safe: "bigintToSafeNumber vd label = ok vd" "bigintToSafeNumber vm label = ok vm" "bigintToSafeNumber vs label = ok vs" for label
      using fits by (simp_all add: bigintToSafeNumber_def fits_contract_def p_def)
    have fees: "parseOpenOracleFeePercentageInput (cf_feePercentage form) label = ok vf"
        "parseOpenOracleFeePercentageInput (cf_protocolFee form) label = ok vp" for label
      using fits parsed' by (auto intro!: parse_fee_parsed simp: fits_contract_def p_def MAX_SAFE_INTEGER_def)
    note reads = parsed'(1-5) [THEN parse_decimal_parsed] parsed'(6-8) [THEN parse_bigint_parsed]
    have address_reads: "parseAddressInput lib (cf_token1Address form) label = ok a1" "parseAddressInput lib (cf_token2Address form) label = ok a2" for label
      using loaded(1,2) by (auto intro: parse_address_parsed simp: addresses)
    have "parseOpenOracleCreateFormSubmission lib form token1Decimals token2Decimals = ok p"
      unfolding parseOpenOracleCreateFormSubmission_def validated bindR_simps message(2) [OF True] option.case
        safe_number_field_def reads safe fees address_reads p_def by (rule refl)
    moreover have "cv_isValid (validation_of errors)" using message(1) True by simp
    ultimately show ?thesis using fits parsed' loaded(1,2) by (simp add: validated p_def addresses)
  qed
qed

lemma strip_zeros: "strip_trailing_zeros s = [] \<Longrightarrow> digits_value s = 0"
  using strip_trailing_decomp [of s "CHR ''0''"] by (metis append_Nil digits_value_replicate_zero)

lemma scaled_as_units: "formatScaledBigInt n 100000 0 False = formatUnits n 5"
proof -
  have scale: "length (bigint_to_string 100000) = 6" by (simp add: bigint_to_string_def nat_digits.simps)
  have zero: "strip_trailing_zeros (padStart 5 (CHR ''0'') (bigint_to_string 0)) = []" by code_simp
  have nonzero: "strip_trailing_zeros (padStart 5 (CHR ''0'') (bigint_to_string m)) \<noteq> []" if "0 < m" for m
  proof
    assume "strip_trailing_zeros (padStart 5 (CHR ''0'') (bigint_to_string m)) = []"
    from strip_zeros [OF this] that show False by (simp add: bigint_to_string_def)
  qed
  have "0 \<le> \<bar>n\<bar> smod 100000" by (simp add: smod_nonneg)
  then show ?thesis
    using zero nonzero [of "\<bar>n\<bar> smod 100000"]
    by (cases "\<bar>n\<bar> smod 100000 = 0") (auto simp: formatScaledBigInt_def formatUnits_def scale padEnd_def Let_def abs_if)
qed

text \<open>A fee printed into its field is submitted as it was.\<close>

lemma fee_percentage_round_trip:
  assumes "0 \<le> fee" and "fee \<le> MAX_SAFE_INTEGER"
  shows "parseOpenOracleFeePercentageInput (formatOpenOracleFeePercentageInput fee) label = ok fee"
  using assms by (intro parse_fee_parsed) (simp_all add: formatOpenOracleFeePercentageInput_def scaled_as_units parse_formatted)

end
