(* ===== verification/Write_Errors.thy ===== *)
theory Write_Errors
  imports Js_Strings
begin

text \<open>
  The texts the screens show for a failed write, \<open>ui/coreShared/ts/lib/errors.ts\<close>: collecting the
  texts of an error and its causes, cleaning one, and composing the message. A thrown value is a text, an
  array, an object in a store or something else; what \<open>JSON.stringify\<close> gives for an object
  (\<open>None\<close> for \<open>undefined\<close> or a \<open>TypeError\<close>) is a field of it. The regular expressions are
  written as the functions they are.
\<close>

section \<open>White space and prefixes\<close>

function collapse_spaces :: "string \<Rightarrow> string" where
  "collapse_spaces [] = []"
| "collapse_spaces (c # cs) = (if is_space c then CHR '' '' # collapse_spaces (dropWhile is_space cs) else c # collapse_spaces cs)"
  by pat_completeness auto
termination by (relation "measure length") (auto simp: less_Suc_eq_le length_dropWhile_le)

definition normalizeWhitespace :: "string \<Rightarrow> string" where
  "normalizeWhitespace s = collapse_spaces (trim s)"

text \<open>Whether a text starts with a pattern without regard to case, and what follows.\<close>

definition after_prefix :: "string \<Rightarrow> string \<Rightarrow> string option" where
  "after_prefix part s =
     (if toLowerCase (take (length part) s) = toLowerCase part \<and> length part \<le> length s then Some (drop (length part) s) else None)"

definition drop_one_of :: "string \<Rightarrow> string \<Rightarrow> string" where
  "drop_one_of characters s = (case s of [] \<Rightarrow> [] | c # cs \<Rightarrow> if c \<in> set characters then cs else s)"

text \<open>One match of \<open>part(?:...)?\s*\<close>, an optional character of a set and white space after the part.\<close>

definition wrapper :: "string \<Rightarrow> string \<Rightarrow> string \<Rightarrow> string option" where
  "wrapper part characters s = map_option (\<lambda>rest. dropWhile is_space (drop_one_of characters rest)) (after_prefix part s)"

text \<open>One match of \<open>failed to [^:.]+[:.]\s*\<close>.\<close>

definition failed_to_wrapper :: "string \<Rightarrow> string option" where
  "failed_to_wrapper s = (case after_prefix ''failed to '' s of
     None \<Rightarrow> None
   | Some rest \<Rightarrow>
       let action = takeWhile (\<lambda>c. c \<noteq> CHR '':'' \<and> c \<noteq> CHR ''.'') rest; tail = drop (length action) rest
       in if action = [] \<or> tail = [] then None else Some (dropWhile is_space (tl tail)))"

text \<open>\<open>replace(/^(...)+/i, '')\<close> for a pattern whose matches are not empty.\<close>

function strip_repeated :: "(string \<Rightarrow> string option) \<Rightarrow> string \<Rightarrow> string" where
  "strip_repeated pattern s =
     (case pattern s of None \<Rightarrow> s | Some rest \<Rightarrow> if length rest < length s then strip_repeated pattern rest else s)"
  by pat_completeness auto
termination by (relation "measure (\<lambda>(_, s). length s)") auto

declare strip_repeated.simps [simp del]

section \<open>Collecting\<close>

datatype thrown_input = TextInput string | ArrayInput "thrown_input list" | ObjectInput nat | OtherInput

record thrown_object =
  wo_shortMessage :: thrown_input
  wo_details :: thrown_input
  wo_message :: thrown_input
  wo_metaMessages :: thrown_input
  wo_cause :: thrown_input
  wo_serialized :: "string option"

type_synonym thrown_objects = "(nat \<times> thrown_object) list"

definition readStringValue :: "thrown_input \<Rightarrow> string option" where
  "readStringValue input = (case input of TextInput s \<Rightarrow> Some (normalizeWhitespace s) | _ \<Rightarrow> None)"

text \<open>What is read when it is a text that is not empty.\<close>

definition read_text :: "thrown_input \<Rightarrow> string list" where
  "read_text input = (case readStringValue input of None \<Rightarrow> [] | Some s \<Rightarrow> if s = [] then [] else [s])"

definition readStringArrayValues :: "thrown_input \<Rightarrow> string list" where
  "readStringArrayValues input = (case input of ArrayInput items \<Rightarrow> concat (map read_text items) | _ \<Rightarrow> [])"

function collect_details :: "thrown_objects \<Rightarrow> nat list \<Rightarrow> thrown_input \<Rightarrow> string list" where
  "collect_details objects seen error =
     (case error of
        TextInput _ \<Rightarrow> read_text error
      | ArrayInput _ \<Rightarrow> readStringArrayValues error
      | OtherInput \<Rightarrow> []
      | ObjectInput ref \<Rightarrow>
          (if ref \<in> set seen then [] else
           case map_of objects ref of
             None \<Rightarrow> []
           | Some object \<Rightarrow>
               let details = read_text (wo_shortMessage object) @ read_text (wo_details object) @ read_text (wo_message object)
                     @ readStringArrayValues (wo_metaMessages object) @ collect_details objects (ref # seen) (wo_cause object)
               in if details \<noteq> [] then details
                  else (case wo_serialized object of None \<Rightarrow> [] | Some s \<Rightarrow> [s])))"
  by pat_completeness auto
termination
proof (relation "measure (\<lambda>(objects, seen, _). card (fst ` set objects - set seen))")
  fix objects :: thrown_objects and seen error ref object
  assume "error = ObjectInput ref" "ref \<notin> set seen" "map_of objects ref = Some object"
  then have "ref \<in> fst ` set objects - set seen" by (auto dest: map_of_SomeD intro: rev_image_eqI)
  then have "fst ` set objects - set (ref # seen) \<subset> fst ` set objects - set seen" by auto
  then show "((objects, ref # seen, wo_cause object), (objects, seen, error))
      \<in> measure (\<lambda>(objects, seen, _). card (fst ` set objects - set seen))"
    by (simp add: psubset_card_mono)
qed simp

declare collect_details.simps [simp del]

definition collectErrorDetails :: "thrown_objects \<Rightarrow> thrown_input \<Rightarrow> string list" where
  "collectErrorDetails objects error = collect_details objects [] error"

section \<open>Cleaning\<close>

definition is_sentence_end :: "char \<Rightarrow> bool" where
  "is_sentence_end c \<longleftrightarrow> c = CHR ''.'' \<or> c = CHR ''!'' \<or> c = CHR ''?''"

definition normalizeComparableMessage :: "string \<Rightarrow> string" where
  "normalizeComparableMessage message = toLowerCase (rev (dropWhile is_sentence_end (rev (normalizeWhitespace message))))"

definition ensureSentence :: "string \<Rightarrow> string" where
  "ensureSentence message = (if message \<noteq> [] \<and> is_sentence_end (last message) then message else message @ ''.'')"

definition stripMatchingPrefix :: "string \<Rightarrow> string option \<Rightarrow> string" where
  "stripMatchingPrefix message leading = (case leading of
     None \<Rightarrow> message
   | Some p \<Rightarrow>
       let normalizedPrefix = normalizeWhitespace p
       in if normalizedPrefix = [] then message else strip_repeated (wrapper normalizedPrefix '':.'') message)"

definition wrapperPatterns :: "(string \<Rightarrow> string option) list" where
  "wrapperPatterns = [failed_to_wrapper, wrapper ''internal json-rpc error'' ''.:'', wrapper ''transaction execution reverted'' '':'',
     wrapper ''execution reverted'' '':'', wrapper ''call reverted'' '':'', wrapper ''reverted'' '':'', wrapper ''error:'' '''']"

definition stripErrorWrappers :: "string \<Rightarrow> string" where
  "stripErrorWrappers detail = normalizeWhitespace (foldl (\<lambda>sanitized pattern. strip_repeated pattern sanitized) detail wrapperPatterns)"

definition isJsonOnlyValue :: "string \<Rightarrow> bool" where
  "isJsonOnlyValue s \<longleftrightarrow> s \<noteq> [] \<and> (hd s = CHR ''{'' \<and> last s = CHR ''}'' \<or> hd s = CHR ''['' \<and> last s = CHR '']'')"

definition isGenericErrorDetail :: "string \<Rightarrow> bool" where
  "isGenericErrorDetail s \<longleftrightarrow>
     (let comparable = normalizeComparableMessage s
      in comparable = '''' \<or> comparable = ''[object object]'' \<or> comparable = ''unknown error'' \<or> comparable = ''for an unknown reason'')"

definition getKnownTransactionErrorDetail :: "string list \<Rightarrow> string option" where
  "getKnownTransactionErrorDetail details =
     (if list_ex (\<lambda>detail. text_includes (toLowerCase detail) ''stale price'') details
      then Some (''The pool'' @ [CHR 0x27] @ ''s oracle price expired. Request a new price in Price Oracle, then retry.'') else None)"

definition getContractNoDataDetail :: "string \<Rightarrow> string option" where
  "getContractNoDataDetail s =
     (let normalized = toLowerCase s in
      if \<not> text_includes normalized ''returned no data'' \<and> \<not> text_includes normalized ''no data'' then None
      else if \<not> text_includes normalized ''contract function'' \<and> \<not> text_includes normalized ''0x'' then None
      else Some ''No contract data was returned. Check that the selected network or simulation scenario has deployed contracts, then refresh.'')"

text \<open>The loop \<open>while (sanitized !== previous)\<close>: strip wrappers until nothing changes.\<close>

definition odd_spaces :: "string \<Rightarrow> nat" where
  "odd_spaces s = length (filter (\<lambda>c. is_space c \<and> c \<noteq> CHR '' '') s)"

lemma collapse_spaces_measure:
  "length (collapse_spaces s) < length s \<or>
   length (collapse_spaces s) = length s \<and> (odd_spaces (collapse_spaces s) < odd_spaces s \<or> collapse_spaces s = s)"
proof (induction s rule: collapse_spaces.induct)
  case (2 c cs)
  show ?case
  proof (cases "is_space c")
    case False
    with 2 show ?thesis by (auto simp: odd_spaces_def)
  next
    case True
    have le: "length (dropWhile is_space cs) \<le> length cs" by (rule length_dropWhile_le)
    show ?thesis
    proof (cases "dropWhile is_space cs = cs")
      case same: True
      with True 2(1) [OF True] show ?thesis by (auto simp: odd_spaces_def)
    next
      case False
      then have "length (dropWhile is_space cs) < length cs"
        by (cases cs) (auto simp: le_less_Suc_eq length_dropWhile_le less_Suc_eq_le split: if_splits)
      with True 2(1) [OF True] show ?thesis by auto
    qed
  qed
qed (simp add: odd_spaces_def)

lemma trim_measure: "length (trim s) < length s \<or> trim s = s"
proof -
  have drop: "length (dropWhile is_space t) < length t \<or> dropWhile is_space t = t" for t
    by (induction t) auto
  show ?thesis
    using drop [of s] drop [of "rev (dropWhile is_space s)"] by (auto simp: trim_def)
qed

lemma normalize_measure:
  "length (normalizeWhitespace s) < length s \<or>
   length (normalizeWhitespace s) = length s \<and> (odd_spaces (normalizeWhitespace s) < odd_spaces s \<or> normalizeWhitespace s = s)"
  using trim_measure [of s] collapse_spaces_measure [of "trim s"] by (auto simp: normalizeWhitespace_def)

lemma strip_repeated_measure: "length (strip_repeated pattern s) < length s \<or> strip_repeated pattern s = s"
proof (induction pattern s rule: strip_repeated.induct)
  case (1 pattern s)
  show ?case
  proof (cases "pattern s")
    case (Some rest)
    then have "strip_repeated pattern s = (if length rest < length s then strip_repeated pattern rest else s)"
      by (subst strip_repeated.simps) simp
    with 1 [OF Some] show ?thesis by (cases "length rest < length s") auto
  qed (simp add: strip_repeated.simps)
qed

lemma strip_all_measure: "length (foldl (\<lambda>s pattern. strip_repeated pattern s) s patterns) < length s \<or> foldl (\<lambda>s pattern. strip_repeated pattern s) s patterns = s"
proof (induction patterns rule: rev_induct)
  case (snoc pattern patterns)
  then show ?case
    using strip_repeated_measure [of pattern "foldl (\<lambda>s pattern. strip_repeated pattern s) s patterns"] by auto
qed simp

lemma strip_wrappers_measure:
  "length (stripErrorWrappers s) < length s \<or>
   length (stripErrorWrappers s) = length s \<and> (odd_spaces (stripErrorWrappers s) < odd_spaces s \<or> stripErrorWrappers s = s)"
  using strip_all_measure [of s wrapperPatterns]
    normalize_measure [of "foldl (\<lambda>sanitized pattern. strip_repeated pattern sanitized) s wrapperPatterns"]
  unfolding stripErrorWrappers_def by (elim disjE) auto

function strip_all_wrappers :: "string \<Rightarrow> string" where
  "strip_all_wrappers sanitized =
     (let stripped = stripErrorWrappers sanitized in if stripped = sanitized then sanitized else strip_all_wrappers stripped)"
  by pat_completeness auto
termination
proof (relation "measures [length, odd_spaces]")
  fix sanitized stripped
  assume "stripped = stripErrorWrappers sanitized" "stripped \<noteq> sanitized"
  then show "(stripped, sanitized) \<in> measures [length, odd_spaces]"
    using strip_wrappers_measure [of sanitized] by auto
qed simp

declare strip_all_wrappers.simps [simp del]

definition sanitizeErrorDetail :: "string option \<Rightarrow> string option \<Rightarrow> string option" where
  "sanitizeErrorDetail detail fallbackMessage = (case detail of
     None \<Rightarrow> None
   | Some given \<Rightarrow>
       let normalized = normalizeWhitespace given in
       if normalized = [] then None
       else
         let stripped = strip_all_wrappers (stripMatchingPrefix normalized fallbackMessage);
             sanitized = (if stripped \<noteq> [] \<and> last stripped = CHR ''.'' then butlast stripped else stripped)
         in if sanitized = [] \<or> isJsonOnlyValue sanitized \<or> isGenericErrorDetail sanitized then None
            else if (case fallbackMessage of None \<Rightarrow> False
                     | Some fallback \<Rightarrow> normalizeComparableMessage sanitized = normalizeComparableMessage fallback) then None
            else case getContractNoDataDetail sanitized of
              Some contractNoDataDetail \<Rightarrow> Some contractNoDataDetail
            | None \<Rightarrow> Some (if length sanitized > 160 then rev (dropWhile is_space (rev (take 157 sanitized))) @ ''...'' else sanitized))"

definition getErrorDetail :: "thrown_objects \<Rightarrow> thrown_input \<Rightarrow> string option \<Rightarrow> string option" where
  "getErrorDetail objects error fallbackMessage =
     (let details = collectErrorDetails objects error in
      case getKnownTransactionErrorDetail details of
        Some known \<Rightarrow> Some known
      | None \<Rightarrow> (case List.find (\<lambda>s. s \<noteq> None) (map (\<lambda>detail. sanitizeErrorDetail (Some detail) fallbackMessage) details) of
          None \<Rightarrow> None
        | Some sanitized \<Rightarrow> sanitized))"

section \<open>Messages\<close>

definition closeableErrorPatterns :: "string list" where
  "closeableErrorPatterns = [''user rejected the request'', ''user rejected request'', ''user denied transaction signature'',
     ''user denied message signature'', ''user denied account authorization'', ''action canceled in wallet'']"

definition isCloseableErrorMessage :: "string option \<Rightarrow> bool" where
  "isCloseableErrorMessage message = (case message of
     None \<Rightarrow> False
   | Some text \<Rightarrow>
       let normalizedMessage = toLowerCase text
       in text_includes normalizedMessage ([CHR 0x22] @ ''code'' @ [CHR 0x22] @ '':4001'') \<or>
          text_includes normalizedMessage ([CHR 0x27] @ ''code'' @ [CHR 0x27] @ '':4001'') \<or>
          text_includes normalizedMessage ''code 4001'' \<or>
          list_ex (text_includes normalizedMessage) closeableErrorPatterns)"

definition getCloseableMessage :: "thrown_objects \<Rightarrow> thrown_input \<Rightarrow> string option" where
  "getCloseableMessage objects error = List.find (\<lambda>detail. isCloseableErrorMessage (Some detail)) (collectErrorDetails objects error)"

definition technicalWriteErrorPatterns :: "string list" where
  "technicalWriteErrorPatterns = [''allowance'', ''balance'', ''call reverted'', ''connector'', ''erc20'', ''estimategas'',
     ''execution reverted'', ''fee'', ''gas'', ''insufficient funds'', ''internal json-rpc'', ''json-rpc'', ''network'', ''nonce'',
     ''replacement transaction'', ''reverted'', ''rpc'', ''transaction'', ''transfer'', ''underpriced'']"

definition shouldUseStandaloneWriteMessage :: "string \<Rightarrow> bool" where
  "shouldUseStandaloneWriteMessage detail = (case detail of
     [] \<Rightarrow> False
   | firstCharacter # _ \<Rightarrow>
       if list_ex (text_includes (toLowerCase detail)) technicalWriteErrorPatterns then False
       else firstCharacter \<noteq> lower_char firstCharacter)"

definition appendReason :: "string \<Rightarrow> string option \<Rightarrow> string" where
  "appendReason fallbackMessage detail = (case detail of
     None \<Rightarrow> fallbackMessage
   | Some reason \<Rightarrow> ensureSentence fallbackMessage @ '' Reason: '' @ reason)"

definition rewriteWriteFallbackMessage :: "string \<Rightarrow> string" where
  "rewriteWriteFallbackMessage fallbackMessage =
     (let normalizedFallback = normalizeWhitespace fallbackMessage in
      if \<not> has_prefix ''failed to '' (toLowerCase normalizedFallback) then ''Transaction failed. '' @ normalizedFallback
      else ''Transaction failed while attempting to '' @ drop 10 normalizedFallback)"

definition formatWriteErrorMessage :: "thrown_objects \<Rightarrow> thrown_input \<Rightarrow> string \<Rightarrow> string" where
  "formatWriteErrorMessage objects error fallbackMessage =
     (if getCloseableMessage objects error \<noteq> None then ''Action canceled in wallet.''
      else
        let detail = getErrorDetail objects error (Some fallbackMessage);
            rewrittenFallback = rewriteWriteFallbackMessage fallbackMessage
        in case detail of
             None \<Rightarrow> ensureSentence rewrittenFallback
           | Some shown \<Rightarrow> if shouldUseStandaloneWriteMessage shown then shown else appendReason rewrittenFallback detail)"

definition getErrorMessage :: "thrown_objects \<Rightarrow> thrown_input \<Rightarrow> string \<Rightarrow> string" where
  "getErrorMessage objects error fallbackMessage =
     (if getCloseableMessage objects error \<noteq> None then ''Action canceled in wallet.''
      else appendReason fallbackMessage (getErrorDetail objects error (Some fallbackMessage)))"

end
