(* ===== verification/Token_Approval.thy ===== *)
theory Token_Approval
  imports Decimal_Text Write_Errors
begin

text \<open>
  Token approvals on the screens, \<open>ui/coreShared/ts/lib/tokenApproval.ts\<close>: what an action still needs,
  the amount field, and the messages.
\<close>

definition maxUint200 :: int where "maxUint200 = 2 ^ 200 - 1"
definition maxUint256_amount :: int where "maxUint256_amount = 2 ^ 256 - 1"

record TokenApprovalRequirement =
  ap_approvedAmount :: "int option"
  ap_hasSufficientApproval :: bool
  ap_neededAmount :: "int option"
  ap_requiredAmount :: "int option"
  ap_targetAmount :: "int option"

definition deriveTokenApprovalRequirement :: "int option \<Rightarrow> int option \<Rightarrow> TokenApprovalRequirement" where
  "deriveTokenApprovalRequirement requiredAmount approvedAmount = (case requiredAmount of
     None \<Rightarrow> \<lparr>ap_approvedAmount = approvedAmount, ap_hasSufficientApproval = False, ap_neededAmount = None,
        ap_requiredAmount = requiredAmount, ap_targetAmount = None\<rparr>
   | Some required \<Rightarrow>
       if required \<le> 0 then \<lparr>ap_approvedAmount = approvedAmount, ap_hasSufficientApproval = True, ap_neededAmount = Some 0,
          ap_requiredAmount = requiredAmount, ap_targetAmount = None\<rparr>
       else
         let hasSufficientApproval = (case approvedAmount of None \<Rightarrow> False | Some approved \<Rightarrow> approved \<ge> required);
             neededAmount = (case approvedAmount of
               None \<Rightarrow> None
             | Some approved \<Rightarrow> Some (if approved \<ge> required then 0 else required - approved))
         in \<lparr>ap_approvedAmount = approvedAmount, ap_hasSufficientApproval = hasSufficientApproval, ap_neededAmount = neededAmount,
              ap_requiredAmount = requiredAmount, ap_targetAmount = (if hasSufficientApproval then None else requiredAmount)\<rparr>)"

datatype ParsedTokenApprovalAmount = CustomAmount int | DefaultAmount | MaxAmount int

definition parseTokenApprovalAmountInput :: "string \<Rightarrow> string \<Rightarrow> nat \<Rightarrow> ParsedTokenApprovalAmount result" where
  "parseTokenApprovalAmountInput input label units =
     (let trimmed = trim input in
      if trimmed = [] then ok DefaultAmount
      else if toLowerCase trimmed = ''max'' then ok (MaxAmount maxUint256_amount)
      else bindR (parseDecimalInput trimmed label units) (\<lambda>amount. ok (CustomAmount amount)))"

definition shouldDisplayMaxTokenApprovalAmount :: "int option \<Rightarrow> bool" where
  "shouldDisplayMaxTokenApprovalAmount amount = (case amount of None \<Rightarrow> False | Some n \<Rightarrow> n > maxUint200)"

text \<open>\<open>label?.trim() || 'token'\<close>\<close>

definition label_or_token :: "string option \<Rightarrow> string" where
  "label_or_token tokenLabel = (case tokenLabel of None \<Rightarrow> ''token'' | Some label \<Rightarrow> if trim label = [] then ''token'' else trim label)"

definition formatTokenApprovalUnavailableMessage :: "string option \<Rightarrow> string option \<Rightarrow> string option \<Rightarrow> string" where
  "formatTokenApprovalUnavailableMessage actionLabel reason tokenLabel =
     (''Unable to verify '' @ label_or_token tokenLabel @ '' approval'' @
       (case actionLabel of None \<Rightarrow> '''' | Some action \<Rightarrow> '' before '' @ action) @ ''.'') @
     (case sanitizeErrorDetail reason None of None \<Rightarrow> '''' | Some sanitizedReason \<Rightarrow> '' Reason: '' @ sanitizedReason @ ''.'') @
     '' Retry loading the approval status before continuing.''"

definition formatTokenApprovalNeededMessage :: "string \<Rightarrow> TokenApprovalRequirement \<Rightarrow> string \<Rightarrow> nat \<Rightarrow> string option result" where
  "formatTokenApprovalNeededMessage actionLabel requirement tokenLabel tokenUnits = (case ap_neededAmount requirement of
     None \<Rightarrow> ok None
   | Some needed \<Rightarrow>
       if needed \<le> 0 then ok None
       else case (case ap_targetAmount requirement of None \<Rightarrow> ap_requiredAmount requirement | Some target \<Rightarrow> Some target) of
         None \<Rightarrow> ok None
       | Some _ \<Rightarrow> bindR (formatAdditionalCurrencyBalance needed tokenLabel tokenUnits) (\<lambda>shown.
           ok (Some (''Need '' @ shown @ '' approved before '' @ actionLabel @ ''.''))))"

definition formatTokenApprovalPartialMessage :: "string \<Rightarrow> int \<Rightarrow> int \<Rightarrow> string \<Rightarrow> nat \<Rightarrow> string option result" where
  "formatTokenApprovalPartialMessage actionLabel nextApprovedAmount requiredAmount tokenLabel tokenUnits =
     (if nextApprovedAmount \<ge> requiredAmount then ok None
      else bindR (formatCurrencyBalanceWithUnit nextApprovedAmount tokenLabel tokenUnits) (\<lambda>shownNext.
        bindR (formatAdditionalCurrencyBalance (requiredAmount - nextApprovedAmount) tokenLabel tokenUnits) (\<lambda>shownMissing.
          ok (Some (''Approving '' @ shownNext @ '' will still leave '' @ shownMissing @ '' needed before '' @ actionLabel @ ''.'')))))"

definition resolveTokenApprovalStatusMessage ::
  "string \<Rightarrow> string option \<Rightarrow> string \<Rightarrow> string option \<Rightarrow> int option \<Rightarrow> int option \<Rightarrow> TokenApprovalRequirement \<Rightarrow> string \<Rightarrow> nat \<Rightarrow> string option result" where
  "resolveTokenApprovalStatusMessage actionLabel amountValidationMessage draftAmount guardMessage nextApprovalAmount requiredAmount
      requirement tokenLabel tokenUnits =
     (if guardMessage \<noteq> None then ok guardMessage
      else if amountValidationMessage \<noteq> None then ok amountValidationMessage
      else if trim draftAmount = [] then formatTokenApprovalNeededMessage actionLabel requirement tokenLabel tokenUnits
      else case (nextApprovalAmount, requiredAmount) of
        (Some next, Some required) \<Rightarrow> formatTokenApprovalPartialMessage actionLabel next required tokenLabel tokenUnits
      | _ \<Rightarrow> ok None)"

lemma sufficient_approval_iff:
  "ap_hasSufficientApproval (deriveTokenApprovalRequirement (Some required) (Some approved)) \<longleftrightarrow> required \<le> 0 \<or> required \<le> approved"
  by (simp add: deriveTokenApprovalRequirement_def Let_def)

end
