(* ===== verification/Dispute_Screen.thy ===== *)
theory Dispute_Screen
  imports Report_Form Token_Approval Reporting
begin

text \<open>
  The dispute screen of the open oracle, \<open>ui/zoltar/ts/features/open-oracle/lib/openOracle.ts\<close> with
  \<open>protocol/openOracleMath.ts\<close>: which action a report offers, what a dispute costs, and the reasons that
  block its submission. A displayed amount or duration is text; fields no operation reads are left out.
\<close>

section \<open>Amounts\<close>

definition OPEN_ORACLE_BOUNTY_BUFFER_NUMERATOR :: int where "OPEN_ORACLE_BOUNTY_BUFFER_NUMERATOR = 12"
definition OPEN_ORACLE_BOUNTY_BUFFER_DENOMINATOR :: int where "OPEN_ORACLE_BOUNTY_BUFFER_DENOMINATOR = 10"
definition OPEN_ORACLE_INITIAL_REPORT_FUNDING_BUFFER :: int where "OPEN_ORACLE_INITIAL_REPORT_FUNDING_BUFFER = 2"

definition addOpenOracleBountyBuffer :: "int \<Rightarrow> int" where
  "addOpenOracleBountyBuffer requiredBountyAttoEth =
     (if requiredBountyAttoEth \<le> 0 then requiredBountyAttoEth
      else (requiredBountyAttoEth * OPEN_ORACLE_BOUNTY_BUFFER_NUMERATOR + OPEN_ORACLE_BOUNTY_BUFFER_DENOMINATOR - 1)
        sdiv OPEN_ORACLE_BOUNTY_BUFFER_DENOMINATOR)"

definition addOpenOracleInitialReportFundingBuffer :: "int \<Rightarrow> int result" where
  "addOpenOracleInitialReportFundingBuffer requiredAmount =
     (if requiredAmount < 0 then Inl (RangeError ''Required initial report funding cannot be negative'')
      else ok (requiredAmount * OPEN_ORACLE_INITIAL_REPORT_FUNDING_BUFFER))"

datatype token_key = Token1 | Token2

definition getOpenOracleDisputeSwapTokenKey :: "int \<Rightarrow> int \<Rightarrow> int \<Rightarrow> int \<Rightarrow> token_key" where
  "getOpenOracleDisputeSwapTokenKey currentAmount1 currentAmount2 newAmount1 newAmount2 =
     (if newAmount2 * currentAmount1 > currentAmount2 * newAmount1 then Token2 else Token1)"

section \<open>The report\<close>

record OpenOracleReportDetails =
  od_currentAmount1 :: int
  od_currentAmount2 :: int
  od_currentBlockNumber :: int
  od_currentReporter :: string
  od_currentTime :: int
  od_disputeDelay :: int
  od_disputeOccurred :: bool
  od_escalationHalt :: int
  od_feePercentage :: int
  od_isDistributed :: bool
  od_multiplier :: int
  od_protocolFee :: int
  od_reportTimestamp :: int
  od_settlementTime :: int
  od_timeType :: bool
  od_token1 :: string
  od_token1Symbol :: string
  od_token2 :: string
  od_token2Symbol :: string

datatype OpenOracleReportStatus = PendingReport | DisputedReport | SettledReport

datatype OpenOracleSelectedReportActionMode = DisputeMode | SettleMode | ReadOnlyMode

record OpenOracleReportActionAvailability =
  av_canAct :: bool
  av_message :: "string option"

definition getOpenOracleReportStatus :: "OpenOracleReportDetails \<Rightarrow> OpenOracleReportStatus result" where
  "getOpenOracleReportStatus report =
     (if od_reportTimestamp report = 0 \<or> od_currentReporter report = zeroAddress
      then throw ''Open Oracle report is missing its atomic initial report''
      else if od_isDistributed report then ok SettledReport
      else if od_disputeOccurred report then ok DisputedReport
      else ok PendingReport)"

datatype status_tone = DangerTone | MutedTone | OkTone

definition getOpenOracleReportStatusTone :: "OpenOracleReportStatus \<Rightarrow> status_tone" where
  "getOpenOracleReportStatusTone status =
     (case status of PendingReport \<Rightarrow> MutedTone | DisputedReport \<Rightarrow> DangerTone | SettledReport \<Rightarrow> OkTone)"

definition hasOpenOracleAtomicInitialReport :: "OpenOracleReportDetails \<Rightarrow> bool" where
  "hasOpenOracleAtomicInitialReport report \<longleftrightarrow> od_reportTimestamp report \<noteq> 0 \<and> od_currentReporter report \<noteq> zeroAddress"

definition getOpenOracleLifecycleClockValue :: "OpenOracleReportDetails \<Rightarrow> int" where
  "getOpenOracleLifecycleClockValue report = (if od_timeType report then od_currentTime report else od_currentBlockNumber report)"

definition SECONDS_PER_MINUTE :: int where "SECONDS_PER_MINUTE = 60"
definition SECONDS_PER_HOUR :: int where "SECONDS_PER_HOUR = 60 * SECONDS_PER_MINUTE"
definition SECONDS_PER_DAY :: int where "SECONDS_PER_DAY = 24 * SECONDS_PER_HOUR"

definition formatDuration :: "int \<Rightarrow> string" where
  "formatDuration seconds =
     (if seconds \<le> 0 then ''0m''
      else if seconds < SECONDS_PER_MINUTE then ''less than a minute''
      else
        let days = seconds sdiv SECONDS_PER_DAY;
            hours = (seconds smod SECONDS_PER_DAY) sdiv SECONDS_PER_HOUR;
            minutes = (seconds smod SECONDS_PER_HOUR) sdiv SECONDS_PER_MINUTE
        in if days > 0 then bigint_to_string days @ ''d '' @ bigint_to_string hours @ ''h '' @ bigint_to_string minutes @ ''m''
           else if hours > 0 then bigint_to_string hours @ ''h '' @ bigint_to_string minutes @ ''m''
           else bigint_to_string minutes @ ''m'')"

definition formatOpenOracleLifecycleRemaining :: "int \<Rightarrow> bool \<Rightarrow> string" where
  "formatOpenOracleLifecycleRemaining remaining timeType =
     (if timeType then formatDuration remaining
      else bigint_to_string remaining @ '' block'' @ (if remaining = 1 then '''' else ''s''))"

definition getOpenOracleDisputeAvailability :: "OpenOracleReportDetails \<Rightarrow> OpenOracleReportActionAvailability" where
  "getOpenOracleDisputeAvailability report =
     (if \<not> hasOpenOracleAtomicInitialReport report
      then \<lparr>av_canAct = False, av_message = Some ''This report is invalid because its atomic initial report is missing.''\<rparr>
      else if od_isDistributed report then \<lparr>av_canAct = False, av_message = Some ''This report is already settled.''\<rparr>
      else
        let currentClock = getOpenOracleLifecycleClockValue report;
            disputeStart = od_reportTimestamp report + od_disputeDelay report;
            settlementStart = od_reportTimestamp report + od_settlementTime report
        in if currentClock < disputeStart then \<lparr>av_canAct = False, av_message = Some ''This report is not ready to dispute.''\<rparr>
           else if currentClock \<ge> settlementStart
           then \<lparr>av_canAct = False, av_message = Some ''Dispute window closed. Settle report instead.''\<rparr>
           else \<lparr>av_canAct = True, av_message = None\<rparr>)"

definition getOpenOracleSettleAvailability :: "OpenOracleReportDetails \<Rightarrow> OpenOracleReportActionAvailability" where
  "getOpenOracleSettleAvailability report =
     (if \<not> hasOpenOracleAtomicInitialReport report
      then \<lparr>av_canAct = False, av_message = Some ''This report is invalid because its atomic initial report is missing.''\<rparr>
      else if od_isDistributed report then \<lparr>av_canAct = False, av_message = Some ''This report is already settled.''\<rparr>
      else
        let currentClock = getOpenOracleLifecycleClockValue report;
            settlementStart = od_reportTimestamp report + od_settlementTime report
        in if currentClock < settlementStart
           then \<lparr>av_canAct = False, av_message = Some (''This report can be settled in '' @
              formatOpenOracleLifecycleRemaining (settlementStart - currentClock) (od_timeType report) @ '' if no disputes occur.'')\<rparr>
           else \<lparr>av_canAct = True, av_message = None\<rparr>)"

definition getOpenOracleSelectedReportActionMode :: "OpenOracleReportDetails \<Rightarrow> OpenOracleSelectedReportActionMode result" where
  "getOpenOracleSelectedReportActionMode report =
     bindR (getOpenOracleReportStatus report) (\<lambda>status. case status of
        SettledReport \<Rightarrow> ok ReadOnlyMode
      | _ \<Rightarrow>
          if \<not> av_canAct (getOpenOracleDisputeAvailability report) \<and> av_canAct (getOpenOracleSettleAvailability report)
          then ok SettleMode else ok DisputeMode)"

section \<open>What a dispute costs\<close>

definition resolveOpenOracleDisputeToken1Contribution :: "int \<Rightarrow> bool \<Rightarrow> int \<Rightarrow> int \<Rightarrow> int \<Rightarrow> token_key \<Rightarrow> int" where
  "resolveOpenOracleDisputeToken1Contribution feePercentage isSelfDispute oldAmount1 protocolFee requiredToken1Contribution tokenToSwap =
     (if tokenToSwap = Token1 then
        let protocolFeeAmountAttoEth = (oldAmount1 * protocolFee) sdiv OPEN_ORACLE_PERCENTAGE_PRECISION in
        if isSelfDispute then requiredToken1Contribution - oldAmount1 + protocolFeeAmountAttoEth
        else
          let fee = (oldAmount1 * feePercentage) sdiv OPEN_ORACLE_PERCENTAGE_PRECISION
          in requiredToken1Contribution + oldAmount1 + fee + protocolFeeAmountAttoEth
      else if requiredToken1Contribution > oldAmount1 then requiredToken1Contribution - oldAmount1 else 0)"

definition resolveOpenOracleDisputeToken2Contribution :: "int \<Rightarrow> bool \<Rightarrow> int \<Rightarrow> int \<Rightarrow> int \<Rightarrow> token_key \<Rightarrow> int" where
  "resolveOpenOracleDisputeToken2Contribution feePercentage isSelfDispute newAmount2 oldAmount2 protocolFee tokenToSwap =
     (if tokenToSwap = Token1 then (if newAmount2 \<ge> oldAmount2 then newAmount2 - oldAmount2 else 0)
      else
        let protocolFeeAmountAttoEth = (oldAmount2 * protocolFee) sdiv OPEN_ORACLE_PERCENTAGE_PRECISION in
        if isSelfDispute then
          let token2Needed = newAmount2 + protocolFeeAmountAttoEth
          in if token2Needed \<ge> oldAmount2 then token2Needed - oldAmount2 else 0
        else
          let fee = (oldAmount2 * feePercentage) sdiv OPEN_ORACLE_PERCENTAGE_PRECISION
          in newAmount2 + oldAmount2 + fee + protocolFeeAmountAttoEth)"

section \<open>Messages\<close>

datatype gate_kind = HiddenLoading | Visible

record OpenOracleGateMessage =
  gm_kind :: gate_kind
  gm_message :: string

definition createHiddenLoadingGateMessage :: "string \<Rightarrow> OpenOracleGateMessage" where
  "createHiddenLoadingGateMessage message = \<lparr>gm_kind = HiddenLoading, gm_message = message\<rparr>"

definition createVisibleGateMessage :: "string \<Rightarrow> OpenOracleGateMessage" where
  "createVisibleGateMessage message = \<lparr>gm_kind = Visible, gm_message = message\<rparr>"

definition resolveOpenOracleTokenLabel :: "string \<Rightarrow> string option \<Rightarrow> string option \<Rightarrow> string" where
  "resolveOpenOracleTokenLabel fallbackLabel tokenAddress tokenSymbol =
     (case map_option trim tokenSymbol of
        Some (c # cs) \<Rightarrow> c # cs
      | _ \<Rightarrow> (case map_option trim tokenAddress of Some (c # cs) \<Rightarrow> c # cs | _ \<Rightarrow> fallbackLabel))"

definition formatOpenOracleDisputeApprovalStatusUnavailableMessage :: "string option \<Rightarrow> string \<Rightarrow> string" where
  "formatOpenOracleDisputeApprovalStatusUnavailableMessage reason tokenLabel =
     formatTokenApprovalUnavailableMessage (Some ''disputing the report'') reason (Some tokenLabel)"

definition formatOpenOracleDisputeBalanceStatusUnavailableMessage :: "string option \<Rightarrow> string \<Rightarrow> string" where
  "formatOpenOracleDisputeBalanceStatusUnavailableMessage reason tokenLabel =
     ''Unable to verify '' @ label_or_token (Some tokenLabel) @ '' balance for this dispute.'' @
     (case sanitizeErrorDetail reason None of None \<Rightarrow> '''' | Some sanitizedReason \<Rightarrow> '' Reason: '' @ sanitizedReason @ ''.'') @
     '' Retry loading the report or balance status before disputing this report.''"

definition formatOpenOracleDisputeInsufficientBalanceMessage :: "int \<Rightarrow> int \<Rightarrow> nat option \<Rightarrow> string \<Rightarrow> string result" where
  "formatOpenOracleDisputeInsufficientBalanceMessage available required tokenDecimals tokenLabel =
     (let units = (case tokenDecimals of None \<Rightarrow> 18 | Some d \<Rightarrow> d) in
      bindR (formatCurrencyBalance required units) (\<lambda>shownRequired. bindR (formatCurrencyBalance available units) (\<lambda>shownAvailable.
        ok (''Insufficient '' @ tokenLabel @ '' balance for this dispute. Need '' @ shownRequired @ '', wallet has '' @ shownAvailable @ ''.''))))"

definition formatOpenOracleSettleWriteErrorMessage :: "thrown_objects \<Rightarrow> thrown_input \<Rightarrow> string \<Rightarrow> string" where
  "formatOpenOracleSettleWriteErrorMessage objects error fallbackMessage =
     (let genericMessage = formatWriteErrorMessage objects error fallbackMessage in
      if genericMessage = ''Action canceled in wallet.'' then genericMessage
      else case getErrorDetail objects error (Some fallbackMessage) of
        None \<Rightarrow> ''Transaction failed while settling the report. Try again; the latest report state will be checked automatically.''
      | Some detail \<Rightarrow>
          let normalizedDetail = toLowerCase detail in
          if genericMessage = detail then detail
          else if text_includes normalizedDetail ''0x98bdb2e0'' \<or> text_includes normalizedDetail ''invalidgaslimit'' \<or>
            text_includes normalizedDetail ''invalid gas limit''
          then ''This report requires a higher settlement gas limit because it executes a callback on settlement. Retry with the updated UI.''
          else if text_includes normalizedDetail ''settletooearly'' \<or> text_includes normalizedDetail ''settlement''
          then ''This report is not ready to settle.''
          else if text_includes normalizedDetail ''alreadysettled'' \<or> text_includes normalizedDetail ''report settled''
          then ''This report is already settled.''
          else if text_includes normalizedDetail ''noreportyet'' \<or> text_includes normalizedDetail ''no initial report''
          then ''This report is invalid because its atomic initial report is missing.''
          else ''Transaction failed while settling the report. Reason: '' @ detail)"

definition formatOpenOracleDisputeWriteErrorMessage :: "thrown_objects \<Rightarrow> thrown_input \<Rightarrow> string \<Rightarrow> string" where
  "formatOpenOracleDisputeWriteErrorMessage objects error fallbackMessage =
     (let genericMessage = formatWriteErrorMessage objects error fallbackMessage in
      if genericMessage = ''Action canceled in wallet.'' then genericMessage
      else case getErrorDetail objects error (Some fallbackMessage) of
        None \<Rightarrow> ''Transaction failed while disputing the report. Try again; the latest report state will be checked automatically.''
      | Some detail \<Rightarrow>
          let normalizedDetail = toLowerCase detail in
          if genericMessage = detail then detail
          else if text_includes normalizedDetail ''disputetooearly'' \<or> text_includes normalizedDetail ''dispute too early''
          then ''This report is not ready to dispute.''
          else if text_includes normalizedDetail ''disputetoolate'' \<or> text_includes normalizedDetail ''dispute period expired''
          then ''Dispute window closed. Settle report instead.''
          else if text_includes normalizedDetail ''alreadysettled'' \<or> text_includes normalizedDetail ''report settled''
          then ''This report is already settled.''
          else if text_includes normalizedDetail ''noreporttodispute'' \<or> text_includes normalizedDetail ''no report to dispute''
          then ''This report is invalid because its atomic initial report is missing.''
          else ''Transaction failed while disputing the report. Reason: '' @ detail)"

section \<open>Submitting a dispute\<close>

datatype OpenOracleDisputeInputField = NewAmount1Input | NewAmount2Input | TokenToSwapInput

record OpenOracleDisputeSubmissionDetails =
  dd_blockMessage :: "OpenOracleGateMessage option"
  dd_canSubmit :: bool
  dd_expectedNewAmount1 :: "int option"
  dd_inputFieldErrors :: "(OpenOracleDisputeInputField \<times> string) list"
  dd_inputBlockMessage :: "OpenOracleGateMessage option"
  dd_newAmount1 :: "int option"
  dd_newAmount2 :: "int option"
  dd_token1Approval :: TokenApprovalRequirement
  dd_token1ContributionAmount :: "int option"
  dd_token1Decimals :: "nat option"
  dd_token2Approval :: TokenApprovalRequirement
  dd_token2ContributionAmount :: "int option"
  dd_token2Decimals :: "nat option"

text \<open>What the screen knows of the wallet and of one token.\<close>

record token_holding =
  th_approvedAmount :: "int option"
  th_allowanceError :: "string option"
  th_balance :: "int option"
  th_balanceError :: "string option"
  th_decimals :: "nat option"

record dispute_inputs =
  di_accountAddress :: "string option"
  di_newAmount1Input :: string
  di_newAmount2Input :: string
  di_tokenToSwap :: token_key
  di_reportDetails :: "OpenOracleReportDetails option"
  di_token1 :: token_holding
  di_token2 :: token_holding

definition expected_new_amount :: "OpenOracleReportDetails \<Rightarrow> int" where
  "expected_new_amount report =
     (if od_escalationHalt report > od_currentAmount1 report then
        let multiplied = (od_currentAmount1 report * od_multiplier report) sdiv OPEN_ORACLE_MULTIPLIER_PRECISION
        in if multiplied > od_escalationHalt report then od_escalationHalt report else multiplied
      else od_currentAmount1 report + 1)"

text \<open>The block of the inputs, with the field it belongs to.\<close>

definition dispute_input_block ::
  "OpenOracleReportDetails \<Rightarrow> string \<Rightarrow> string \<Rightarrow> nat option \<Rightarrow> nat option \<Rightarrow> int option \<Rightarrow> int option \<Rightarrow> int option \<Rightarrow> token_key
    \<Rightarrow> (OpenOracleGateMessage \<times> OpenOracleDisputeInputField option) option" where
  "dispute_input_block report token1Label token2Label token1Decimals token2Decimals newAmount1 newAmount2 expectedNewAmount1 disputeTokenToSwap =
     (let disputeAvailability = getOpenOracleDisputeAvailability report in
      if \<not> av_canAct disputeAvailability
      then Some (createVisibleGateMessage (case av_message disputeAvailability of
        None \<Rightarrow> ''This report is not ready to dispute.'' | Some message \<Rightarrow> message), None)
      else case token1Decimals of
        None \<Rightarrow> Some (createHiddenLoadingGateMessage (''Loading '' @ token1Label @ '' decimal metadata.''), None)
      | Some units1 \<Rightarrow> (case token2Decimals of
        None \<Rightarrow> Some (createHiddenLoadingGateMessage (''Loading '' @ token2Label @ '' decimal metadata.''), None)
      | Some units2 \<Rightarrow> (case newAmount1 of
        None \<Rightarrow> Some (createVisibleGateMessage ''Enter a valid new base token amount.'', Some NewAmount1Input)
      | Some amount1 \<Rightarrow>
        if (case newAmount2 of None \<Rightarrow> True | Some n \<Rightarrow> n \<le> 0)
        then Some (createVisibleGateMessage ''Enter a valid new quote token amount greater than zero.'', Some NewAmount2Input)
        else (case (newAmount2, expectedNewAmount1) of
          (Some amount2, Some expected) \<Rightarrow>
            if amount1 \<noteq> expected
            then Some (createVisibleGateMessage (''New base token amount must be exactly '' @
              formatCurrencyInputBalance expected units1 @ '' for this dispute.''), Some NewAmount1Input)
            else
              let expectedSwapToken = getOpenOracleDisputeSwapTokenKey (od_currentAmount1 report) (od_currentAmount2 report) amount1 amount2 in
              if expectedSwapToken \<noteq> disputeTokenToSwap then
                let expectedTokenLabel = (if expectedSwapToken = Token1 then token1Label else token2Label);
                    selectedTokenLabel = (if disputeTokenToSwap = Token1 then token1Label else token2Label)
                in Some (createVisibleGateMessage (''These amounts would swap out '' @ expectedTokenLabel @ '', not '' @ selectedTokenLabel @
                  ''. Select '' @ expectedTokenLabel @ '' or change the proposed price.''), Some TokenToSwapInput)
              else None
        | _ \<Rightarrow> Some (createVisibleGateMessage ''Unable to determine the required new base token amount.'', None)))))"

text \<open>The block of the wallet, once the inputs are in order.\<close>

definition dispute_wallet_block ::
  "string \<Rightarrow> string \<Rightarrow> token_holding \<Rightarrow> token_holding \<Rightarrow> int option \<Rightarrow> int option \<Rightarrow> TokenApprovalRequirement \<Rightarrow> TokenApprovalRequirement
    \<Rightarrow> OpenOracleGateMessage option result" where
  "dispute_wallet_block token1Label token2Label token1 token2 token1ContributionAmount token2ContributionAmount token1Approval token2Approval =
     (let visible = (\<lambda>message. ok (Some (createVisibleGateMessage message))); hidden = (\<lambda>message. ok (Some (createHiddenLoadingGateMessage message)));
          short = (\<lambda>balance contribution. case contribution of None \<Rightarrow> False | Some required \<Rightarrow> balance < required) in
      if th_approvedAmount token1 = None \<and> th_allowanceError token1 \<noteq> None
      then visible (formatOpenOracleDisputeApprovalStatusUnavailableMessage (th_allowanceError token1) token1Label)
      else if th_approvedAmount token2 = None \<and> th_allowanceError token2 \<noteq> None
      then visible (formatOpenOracleDisputeApprovalStatusUnavailableMessage (th_allowanceError token2) token2Label)
      else if th_balance token1 = None \<and> th_balanceError token1 \<noteq> None
      then visible (formatOpenOracleDisputeBalanceStatusUnavailableMessage (th_balanceError token1) token1Label)
      else if th_balance token2 = None \<and> th_balanceError token2 \<noteq> None
      then visible (formatOpenOracleDisputeBalanceStatusUnavailableMessage (th_balanceError token2) token2Label)
      else case th_balance token1 of
        None \<Rightarrow> hidden (''Loading current '' @ token1Label @ '' balance.'')
      | Some balance1 \<Rightarrow> (case th_balance token2 of
        None \<Rightarrow> hidden (''Loading current '' @ token2Label @ '' balance.'')
      | Some balance2 \<Rightarrow>
        if short balance1 token1ContributionAmount
        then bindR (formatOpenOracleDisputeInsufficientBalanceMessage balance1 (the token1ContributionAmount) (th_decimals token1) token1Label) visible
        else if short balance2 token2ContributionAmount
        then bindR (formatOpenOracleDisputeInsufficientBalanceMessage balance2 (the token2ContributionAmount) (th_decimals token2) token2Label) visible
        else if th_approvedAmount token1 = None then hidden (''Loading current '' @ token1Label @ '' approval.'')
        else if th_approvedAmount token2 = None then hidden (''Loading current '' @ token2Label @ '' approval.'')
        else if \<not> ap_hasSufficientApproval token1Approval then visible (token1Label @ '' approval required'')
        else if \<not> ap_hasSufficientApproval token2Approval then visible (token2Label @ '' approval required'')
        else ok None))"

definition deriveOpenOracleDisputeSubmissionDetails :: "dispute_inputs \<Rightarrow> OpenOracleDisputeSubmissionDetails result" where
  "deriveOpenOracleDisputeSubmissionDetails inputs =
     (let reportDetails = di_reportDetails inputs; token1 = di_token1 inputs; token2 = di_token2 inputs;
          token1Label = resolveOpenOracleTokenLabel ''Token1'' (map_option od_token1 reportDetails) (map_option od_token1Symbol reportDetails);
          token2Label = resolveOpenOracleTokenLabel ''Token2'' (map_option od_token2 reportDetails) (map_option od_token2Symbol reportDetails);
          expectedNewAmount1 = map_option expected_new_amount reportDetails in
      bindR (case th_decimals token1 of None \<Rightarrow> ok None | Some units \<Rightarrow> tryParseDecimalInput (di_newAmount1Input inputs) units) (\<lambda>newAmount1.
      bindR (case th_decimals token2 of None \<Rightarrow> ok None | Some units \<Rightarrow> tryParseDecimalInput (di_newAmount2Input inputs) units) (\<lambda>newAmount2.
        let token1ContributionAmount = (case (reportDetails, newAmount2, expectedNewAmount1) of
              (Some report, Some _, Some expected) \<Rightarrow> Some (resolveOpenOracleDisputeToken1Contribution (od_feePercentage report)
                (sameAddress_ui (di_accountAddress inputs) (Some (od_currentReporter report))) (od_currentAmount1 report)
                (od_protocolFee report) expected (di_tokenToSwap inputs))
            | _ \<Rightarrow> None);
            token2ContributionAmount = (case (reportDetails, newAmount2) of
              (Some report, Some amount2) \<Rightarrow> Some (resolveOpenOracleDisputeToken2Contribution (od_feePercentage report)
                (sameAddress_ui (di_accountAddress inputs) (Some (od_currentReporter report))) amount2 (od_currentAmount2 report)
                (od_protocolFee report) (di_tokenToSwap inputs))
            | _ \<Rightarrow> None);
            token1Approval = deriveTokenApprovalRequirement token1ContributionAmount (th_approvedAmount token1);
            token2Approval = deriveTokenApprovalRequirement token2ContributionAmount (th_approvedAmount token2);
            inputBlock = (case reportDetails of
              None \<Rightarrow> Some (createVisibleGateMessage ''Select a report first'', None)
            | Some report \<Rightarrow> dispute_input_block report token1Label token2Label (th_decimals token1) (th_decimals token2)
                newAmount1 newAmount2 expectedNewAmount1 (di_tokenToSwap inputs)) in
        bindR (case inputBlock of
            Some (message, _) \<Rightarrow> ok (Some message)
          | None \<Rightarrow> dispute_wallet_block token1Label token2Label token1 token2 token1ContributionAmount token2ContributionAmount
              token1Approval token2Approval) (\<lambda>blockMessage.
          ok \<lparr>dd_blockMessage = blockMessage, dd_canSubmit = (blockMessage = None), dd_expectedNewAmount1 = expectedNewAmount1,
              dd_inputFieldErrors = (case inputBlock of Some (message, Some field) \<Rightarrow> [(field, gm_message message)] | _ \<Rightarrow> []),
              dd_inputBlockMessage = map_option fst inputBlock, dd_newAmount1 = newAmount1, dd_newAmount2 = newAmount2,
              dd_token1Approval = token1Approval, dd_token1ContributionAmount = token1ContributionAmount,
              dd_token1Decimals = th_decimals token1, dd_token2Approval = token2Approval,
              dd_token2ContributionAmount = token2ContributionAmount, dd_token2Decimals = th_decimals token2\<rparr>))))"

section \<open>The price on display\<close>

datatype price_tone = DangerPrice | SuccessPrice

definition getOraclePriceValidityPresentation :: "int \<Rightarrow> int \<Rightarrow> int option \<Rightarrow> (string \<times> price_tone) option" where
  "getOraclePriceValidityPresentation currentTimestamp lastSettlementTimestamp priceValidUntilTimestamp =
     (if lastSettlementTimestamp = 0 then None
      else case (case priceValidUntilTimestamp of
          Some timestamp \<Rightarrow> Some timestamp
        | None \<Rightarrow> getOracleManagerPriceValidUntilTimestamp (Some lastSettlementTimestamp)) of
        None \<Rightarrow> None
      | Some validUntilTimestamp \<Rightarrow> (case getTimeRemaining (Some validUntilTimestamp) currentTimestamp of
          None \<Rightarrow> None
        | Some timeRemaining \<Rightarrow>
            if timeRemaining = 0 then
              let expiredFor = (if currentTimestamp > validUntilTimestamp then currentTimestamp - validUntilTimestamp else 0)
              in Some (''(expired '' @ (if expiredFor = 0 then ''less than a minute'' else formatDuration expiredFor) @ '' ago)'', DangerPrice)
            else Some (''(Valid for '' @ formatDuration timeRemaining @ '')'', SuccessPrice)))"

section \<open>The screen and the bot\<close>

text \<open>The screen shows a report of which the bot decoded the same game.\<close>

definition shows_game :: "OpenOracleReportDetails \<Rightarrow> OpenOracleGame \<Rightarrow> bool" where
  "shows_game report game \<longleftrightarrow>
     od_currentAmount1 report = og_currentAmount1 game \<and> od_currentAmount2 report = og_currentAmount2 game \<and>
     od_escalationHalt report = og_escalationHalt game \<and> od_multiplier report = og_multiplier game \<and>
     od_feePercentage report = og_feePercentage game \<and> od_protocolFee report = og_protocolFee game \<and>
     od_token1 report = og_token1 game \<and> od_token2 report = og_token2 game"

lemma expected_amount_of_bot: "shows_game report game \<Longrightarrow> expected_new_amount report = calculateNextAmount1 game"
  by (simp add: expected_new_amount_def calculateNextAmount1_def shows_game_def OPEN_ORACLE_MULTIPLIER_PRECISION_def Let_def)

lemma swap_of_bot:
  assumes "shows_game report game"
  shows "deriveTokenToSwap game new1 new2 =
    (case getOpenOracleDisputeSwapTokenKey (od_currentAmount1 report) (od_currentAmount2 report) new1 new2 of
       Token1 \<Rightarrow> og_token1 game | Token2 \<Rightarrow> og_token2 game)"
  using assms by (simp add: deriveTokenToSwap_def getOpenOracleDisputeSwapTokenKey_def shows_game_def)

lemma contributions_of_bot:
  assumes "shows_game report game" and "toLowerCase (og_token1 game) \<noteq> toLowerCase (og_token2 game)"
    and "cost = calculateContribution game (case key of Token1 \<Rightarrow> og_token1 game | Token2 \<Rightarrow> og_token2 game) (og_token1 game) new1 new2"
  shows "resolveOpenOracleDisputeToken1Contribution (od_feePercentage report) False (od_currentAmount1 report) (od_protocolFee report) new1 key =
      ta_token1 cost"
    and "resolveOpenOracleDisputeToken2Contribution (od_feePercentage report) False new2 (od_currentAmount2 report) (od_protocolFee report) key =
      ta_token2 cost"
  using assms
  by (cases key; auto simp: resolveOpenOracleDisputeToken1Contribution_def resolveOpenOracleDisputeToken2Contribution_def
      calculateContribution_def calculateFee_def shows_game_def Let_def)+

lemma dispute_input_block_None:
  assumes "dispute_input_block report label1 label2 units1 units2 new1 new2 (Some expected) key = None"
  obtains amount2 where "av_canAct (getOpenOracleDisputeAvailability report)" "new1 = Some expected" "new2 = Some amount2" "0 < amount2"
    "key = getOpenOracleDisputeSwapTokenKey (od_currentAmount1 report) (od_currentAmount2 report) expected amount2"
  using assms by (auto simp: dispute_input_block_def Let_def not_le split: if_splits option.splits)

lemma dispute_wallet_block_None:
  assumes "dispute_wallet_block label1 label2 token1 token2 (Some cost1) (Some cost2) approval1 approval2 = ok None"
  obtains balance1 balance2 where "th_balance token1 = Some balance1" "cost1 \<le> balance1" "th_balance token2 = Some balance2" "cost2 \<le> balance2"
    "th_approvedAmount token1 \<noteq> None" "th_approvedAmount token2 \<noteq> None"
    "ap_hasSufficientApproval approval1" "ap_hasSufficientApproval approval2"
  using assms
  by (auto simp: dispute_wallet_block_def Let_def bindR_eq_Inr_iff not_less split: if_splits option.splits)

lemma dispute_window:
  "av_canAct (getOpenOracleDisputeAvailability report) \<longleftrightarrow>
     hasOpenOracleAtomicInitialReport report \<and> \<not> od_isDistributed report \<and>
     od_reportTimestamp report + od_disputeDelay report \<le> getOpenOracleLifecycleClockValue report \<and>
     getOpenOracleLifecycleClockValue report < od_reportTimestamp report + od_settlementTime report"
  by (simp add: getOpenOracleDisputeAvailability_def Let_def)

text \<open>
  C6: A dispute of another's report that the screen lets one submit is the dispute the arbitrage bot would
  build for the same game: the next amount of the first token, the token to swap that the price implies, and
  the contributions of the bot. It is inside the dispute window, and the wallet holds and has approved
  both contributions. (One's own report costs less, and the bot never disputes it.)
\<close>

theorem submittable_dispute_agrees_with_bot:
  assumes "deriveOpenOracleDisputeSubmissionDetails inputs = ok details" and "dd_canSubmit details"
    and "di_reportDetails inputs = Some report" and "shows_game report game"
    and "toLowerCase (og_token1 game) \<noteq> toLowerCase (og_token2 game)"
    and "\<not> sameAddress_ui (di_accountAddress inputs) (Some (od_currentReporter report))"
  shows "\<exists>new2 cost1 cost2 balance1 balance2 approved1 approved2.
    (let new1 = calculateNextAmount1 game; swap = deriveTokenToSwap game new1 new2;
         cost = calculateContribution game swap (og_token1 game) new1 new2 in
     dd_newAmount1 details = Some new1 \<and> dd_newAmount2 details = Some new2 \<and> 0 < new2 \<and>
     swap = (case di_tokenToSwap inputs of Token1 \<Rightarrow> og_token1 game | Token2 \<Rightarrow> og_token2 game) \<and>
     dd_token1ContributionAmount details = Some cost1 \<and> cost1 = ta_token1 cost \<and>
     dd_token2ContributionAmount details = Some cost2 \<and> cost2 = ta_token2 cost) \<and>
    th_balance (di_token1 inputs) = Some balance1 \<and> cost1 \<le> balance1 \<and> th_balance (di_token2 inputs) = Some balance2 \<and> cost2 \<le> balance2 \<and>
    th_approvedAmount (di_token1 inputs) = Some approved1 \<and> cost1 \<le> max 0 approved1 \<and>
    th_approvedAmount (di_token2 inputs) = Some approved2 \<and> cost2 \<le> max 0 approved2 \<and>
    \<not> od_isDistributed report \<and>
    od_reportTimestamp report + od_disputeDelay report \<le> getOpenOracleLifecycleClockValue report \<and>
    getOpenOracleLifecycleClockValue report < od_reportTimestamp report + od_settlementTime report"
proof -
  define self where "self = False"
  define key where "key = di_tokenToSwap inputs"
  define label1 where "label1 = resolveOpenOracleTokenLabel ''Token1'' (Some (od_token1 report)) (Some (od_token1Symbol report))"
  define label2 where "label2 = resolveOpenOracleTokenLabel ''Token2'' (Some (od_token2 report)) (Some (od_token2Symbol report))"
  define cost1 where "cost1 = resolveOpenOracleDisputeToken1Contribution (od_feePercentage report) self (od_currentAmount1 report)
      (od_protocolFee report) (expected_new_amount report) key"
  define cost2 where "cost2 = (\<lambda>new2. resolveOpenOracleDisputeToken2Contribution (od_feePercentage report) self new2 (od_currentAmount2 report)
      (od_protocolFee report) key)"
  define costs1 where "costs1 = (\<lambda>new2. case new2 of None \<Rightarrow> None | Some (_ :: int) \<Rightarrow> Some cost1)"
  define costs2 where "costs2 = map_option cost2"
  define approval1 where "approval1 = (\<lambda>new2. deriveTokenApprovalRequirement (costs1 new2) (th_approvedAmount (di_token1 inputs)))"
  define approval2 where "approval2 = (\<lambda>new2. deriveTokenApprovalRequirement (costs2 new2) (th_approvedAmount (di_token2 inputs)))"
  obtain new1 new2 where inputs_ok: "dispute_input_block report label1 label2 (th_decimals (di_token1 inputs)) (th_decimals (di_token2 inputs))
        new1 new2 (Some (expected_new_amount report)) key = None"
    and wallet_ok: "dispute_wallet_block label1 label2 (di_token1 inputs) (di_token2 inputs) (costs1 new2) (costs2 new2)
        (approval1 new2) (approval2 new2) = ok None"
    and shown: "dd_newAmount1 details = new1" "dd_newAmount2 details = new2"
      "dd_token1ContributionAmount details = costs1 new2" "dd_token2ContributionAmount details = costs2 new2"
    using assms(1,2)
    using assms(6)
    unfolding deriveOpenOracleDisputeSubmissionDetails_def assms(3) Let_def option.map
    by (auto simp: bindR_eq_Inr_iff self_def key_def label1_def label2_def cost1_def cost2_def costs1_def costs2_def approval1_def approval2_def
        map_option_case split: option.splits)
  from inputs_ok obtain amount2 where window: "av_canAct (getOpenOracleDisputeAvailability report)"
    and new: "new1 = Some (expected_new_amount report)" "new2 = Some amount2" "0 < amount2"
    and swap: "key = getOpenOracleDisputeSwapTokenKey (od_currentAmount1 report) (od_currentAmount2 report) (expected_new_amount report) amount2"
    by (rule dispute_input_block_None)
  have costs: "costs1 new2 = Some cost1" "costs2 new2 = Some (cost2 amount2)" by (simp_all add: new costs1_def costs2_def)
  from wallet_ok [unfolded costs] obtain balance1 balance2 where balances: "th_balance (di_token1 inputs) = Some balance1" "cost1 \<le> balance1"
      "th_balance (di_token2 inputs) = Some balance2" "cost2 amount2 \<le> balance2"
    and approved: "th_approvedAmount (di_token1 inputs) \<noteq> None" "th_approvedAmount (di_token2 inputs) \<noteq> None"
      "ap_hasSufficientApproval (approval1 new2)" "ap_hasSufficientApproval (approval2 new2)"
    by (rule dispute_wallet_block_None)
  from approved obtain approved1 approved2 where approvals: "th_approvedAmount (di_token1 inputs) = Some approved1" "cost1 \<le> max 0 approved1"
      "th_approvedAmount (di_token2 inputs) = Some approved2" "cost2 amount2 \<le> max 0 approved2"
    by (auto simp: approval1_def approval2_def costs sufficient_approval_iff le_max_iff_disj)
  have swap_token: "deriveTokenToSwap game (calculateNextAmount1 game) amount2 = (case key of Token1 \<Rightarrow> og_token1 game | Token2 \<Rightarrow> og_token2 game)"
    using swap_of_bot [OF assms(4)] swap by (simp add: expected_amount_of_bot [OF assms(4)])
  define cost where "cost = calculateContribution game (case key of Token1 \<Rightarrow> og_token1 game | Token2 \<Rightarrow> og_token2 game) (og_token1 game)
      (calculateNextAmount1 game) amount2"
  note contributions = contributions_of_bot [OF assms(4,5) cost_def]
  have cost1: "cost1 = ta_token1 cost"
    unfolding cost1_def self_def expected_amount_of_bot [OF assms(4)] by (rule contributions(1))
  have cost2: "cost2 amount2 = ta_token2 cost"
    unfolding cost2_def self_def by (rule contributions(2))
  have amounts: "dd_newAmount1 details = Some (calculateNextAmount1 game)" "dd_newAmount2 details = Some amount2"
    using shown(1,2) new(1,2) expected_amount_of_bot [OF assms(4)] by simp_all
  have paid: "dd_token1ContributionAmount details = Some cost1" "dd_token2ContributionAmount details = Some (cost2 amount2)"
    using shown(3,4) costs by simp_all
  note open_window = window [unfolded dispute_window, THEN conjunct2]
  show ?thesis
    unfolding Let_def key_def [symmetric]
    by (rule exI [of _ amount2], rule exI [of _ cost1], rule exI [of _ "cost2 amount2"], rule exI [of _ balance1],
        rule exI [of _ balance2], rule exI [of _ approved1], rule exI [of _ approved2])
      (intro conjI amounts new(3) refl paid swap_token cost1 [unfolded cost_def, folded swap_token] cost2 [unfolded cost_def, folded swap_token] balances approvals open_window [THEN conjunct1]
        open_window [THEN conjunct2, THEN conjunct1] open_window [THEN conjunct2, THEN conjunct2])
qed

definition sample_report :: OpenOracleReportDetails where
  "sample_report = \<lparr>od_currentAmount1 = 100, od_currentAmount2 = 100, od_currentBlockNumber = 9, od_currentReporter = ''0xab'',
     od_currentTime = 1050, od_disputeDelay = 10, od_disputeOccurred = False, od_escalationHalt = 1000, od_feePercentage = 10000,
     od_isDistributed = False, od_multiplier = 150, od_protocolFee = 100000, od_reportTimestamp = 1000, od_settlementTime = 100,
     od_timeType = True, od_token1 = ''0x1a'', od_token1Symbol = ''REP'', od_token2 = ''0x2b'', od_token2Symbol = ''WETH''\<rparr>"

definition sample_dispute :: dispute_inputs where
  "sample_dispute = \<lparr>di_accountAddress = Some ''0xCD'', di_newAmount1Input = ''1.5'', di_newAmount2Input = ''2'', di_tokenToSwap = Token2,
     di_reportDetails = Some sample_report,
     di_token1 = \<lparr>th_approvedAmount = Some 50, th_allowanceError = None, th_balance = Some 60, th_balanceError = None, th_decimals = Some 2\<rparr>,
     di_token2 = \<lparr>th_approvedAmount = Some 1000, th_allowanceError = None, th_balance = Some 400, th_balanceError = None, th_decimals = Some 2\<rparr>\<rparr>"

lemma sample_dispute_submittable:
  "(case deriveOpenOracleDisputeSubmissionDetails sample_dispute of Inr details \<Rightarrow> dd_canSubmit details | _ \<Rightarrow> False)"
  by code_simp

definition sample_disputed_game :: OpenOracleGame where
  "sample_disputed_game = \<lparr>og_callbackContract = ''0x0'', og_callbackGasLimit = 0, og_currentAmount1 = 100, og_currentAmount2 = 100,
     og_currentReporter = ''0xab'', og_disputeDelay = 10, og_escalationHalt = 1000, og_feePercentage = 10000, og_flags = 0,
     og_lastReportOppoTime = 0, og_multiplier = 150, og_numReports = 1, og_protocolFee = 100000, og_protocolFeeRecipient = ''0x0'',
     og_reportTimestamp = 1000, og_settlementTime = 100, og_settlementTimestamp = 0, og_settlerRewardAttoEth = 0,
     og_token1 = ''0x1a'', og_token2 = ''0x2b''\<rparr>"

theorem submittable_dispute_agrees_with_bot_witness:
  "\<exists>details new2. deriveOpenOracleDisputeSubmissionDetails sample_dispute = ok details \<and> dd_canSubmit details \<and>
     dd_newAmount1 details = Some (calculateNextAmount1 sample_disputed_game) \<and> dd_newAmount2 details = Some new2 \<and>
     deriveTokenToSwap sample_disputed_game (calculateNextAmount1 sample_disputed_game) new2 = ''0x2b''"
proof -
  obtain details where details: "deriveOpenOracleDisputeSubmissionDetails sample_dispute = ok details" "dd_canSubmit details"
    using sample_dispute_submittable by (auto split: sum.splits)
  have report: "di_reportDetails sample_dispute = Some sample_report" and key: "di_tokenToSwap sample_dispute = Token2"
    by (simp_all add: sample_dispute_def)
  have same_game: "shows_game sample_report sample_disputed_game"
    by (simp add: shows_game_def sample_report_def sample_disputed_game_def)
  have tokens: "toLowerCase (og_token1 sample_disputed_game) \<noteq> toLowerCase (og_token2 sample_disputed_game)"
    by code_simp
  have other: "\<not> sameAddress_ui (di_accountAddress sample_dispute) (Some (od_currentReporter sample_report))" by code_simp
  have swapped: "og_token2 sample_disputed_game = ''0x2b''" by (simp add: sample_disputed_game_def)
  show ?thesis
    using submittable_dispute_agrees_with_bot [OF details report same_game tokens other] details
    unfolding Let_def key token_key.case swapped by blast
qed

end
