(* ===== verification/Read_Quorum.thy ===== *)
theory Read_Quorum
  imports Rpc_Errors
begin

text \<open>
  Reads by quorum: \<open>bots/shared/src/monitoring/read-quorum.ts\<close> and \<open>rpc-quorum-policy.ts\<close>.
  Every endpoint is asked, and the answers count as equal when their canonical texts are. An answer is
  a tree of JavaScript values; a number is an integer or is not finite; \<open>Object.entries\<close> of an
  object is the list of its fields. The rejection of an answer is an error of the pool of
  endpoints (\<open>Rpc_Errors\<close>). A result of \<open>None\<close> is a call that does not return.
\<close>

section \<open>The policy\<close>

definition rpcQuorumRequirement :: "(string \<Rightarrow> string option) \<Rightarrow> nat result" where
  "rpcQuorumRequirement environment =
     (let configured = environment ''ZOLTAR_BOT_RPC_QUORUM'' in
      if configured = None \<or> configured = Some ''1'' then ok 1
      else if configured = Some ''2'' then ok 2
      else throw ''ZOLTAR_BOT_RPC_QUORUM must be 1 or 2'')"

definition configuredReadRpcEndpointMinimum :: "nat \<Rightarrow> nat" where
  "configuredReadRpcEndpointMinimum requirement = (if requirement = 1 then 1 else 3)"

definition configuredQuorumRpcUrlMinimum :: "nat \<Rightarrow> nat" where
  "configuredQuorumRpcUrlMinimum requirement = configuredReadRpcEndpointMinimum requirement - 1"

definition rpcQuorumDescription :: "nat \<Rightarrow> string" where
  "rpcQuorumDescription requirement = (if requirement = 1 then ''one RPC endpoint'' else ''two independent RPC endpoints'')"

section \<open>Canonical texts\<close>

datatype js_value =
  BigintValue int
| UndefinedValue
| NullValue
| BooleanValue bool
| NumberValue int
| NonFiniteValue
| TextValue string
| ArrayValue "js_value list"
| ObjectValue "(string \<times> js_value) list"
| UnsupportedValue string

text \<open>\<open>JSON.stringify\<close> of a text.\<close>

definition lower_hex_digit :: "nat \<Rightarrow> char" where
  "lower_hex_digit n = (if n < 10 then digit_char n else char_of (87 + n))"

definition json_escape :: "char \<Rightarrow> string" where
  "json_escape c =
     (let n = of_char c :: nat in
      if n = 34 \<or> n = 92 then [CHR 0x5C, c]
      else if n = 8 then [CHR 0x5C, CHR ''b'']
      else if n = 9 then [CHR 0x5C, CHR ''t'']
      else if n = 10 then [CHR 0x5C, CHR ''n'']
      else if n = 12 then [CHR 0x5C, CHR ''f'']
      else if n = 13 then [CHR 0x5C, CHR ''r'']
      else if n < 32 then [CHR 0x5C, CHR ''u'', CHR ''0'', CHR ''0'', lower_hex_digit (n div 16), lower_hex_digit (n mod 16)]
      else [c])"

definition json_text :: "string \<Rightarrow> string" where
  "json_text s = [CHR 0x22] @ concat (map json_escape s) @ [CHR 0x22]"

lemma mapR_cong [fundef_cong]:
  assumes "xs = ys" and "\<And>x. x \<in> set ys \<Longrightarrow> f x = g x"
  shows "mapR f xs = mapR g ys"
proof -
  have "(\<And>x. x \<in> set zs \<Longrightarrow> f x = g x) \<Longrightarrow> mapR f zs = mapR g zs" for zs
    by (induction zs) simp_all
  with assms show ?thesis by simp
qed

definition compareEntries :: "string \<times> js_value \<Rightarrow> string \<times> js_value \<Rightarrow> int" where
  "compareEntries left right = localeCompare (fst left) (fst right)"

lemma entry_smaller: "(key, child) \<in> set entries \<Longrightarrow> size child < Suc (size_list (size_prod (\<lambda>x. 0) size) entries)"
  by (induction entries) auto

function canonical :: "js_value \<Rightarrow> string result" where
  "canonical (BigintValue n) = ok (''bigint:'' @ bigint_to_string n)"
| "canonical UndefinedValue = ok ''undefined''"
| "canonical NullValue = ok ''null''"
| "canonical (BooleanValue b) = ok (if b then ''true'' else ''false'')"
| "canonical (NumberValue n) = ok (bigint_to_string n)"
| "canonical NonFiniteValue = ok ''null''"
| "canonical (TextValue s) = ok (json_text s)"
| "canonical (ArrayValue items) =
     bindR (mapR canonical items) (\<lambda>texts. ok (''['' @ join_with '','' texts @ '']''))"
| "canonical (ObjectValue entries) =
     bindR (mapR (\<lambda>(key, child). bindR (canonical child) (\<lambda>text. ok (json_text key @ '':'' @ text)))
         (js_sort compareEntries entries)) (\<lambda>texts. ok (''{'' @ join_with '','' texts @ ''}''))"
| "canonical (UnsupportedValue type) = throw (''Unsupported quorum value type: '' @ type)"
  by pat_completeness auto
termination
  by (relation "measure size") (auto intro: entry_smaller simp: less_Suc_eq_le size_list_estimation')

section \<open>Answers that agree\<close>

fun find_disagreement :: "string \<Rightarrow> (string \<times> js_value) list \<Rightarrow> (string \<times> js_value) option result" where
  "find_disagreement expected [] = ok None"
| "find_disagreement expected (observation # rest) =
     bindR (canonical (snd observation)) (\<lambda>text.
       if text \<noteq> expected then ok (Some observation) else find_disagreement expected rest)"

text \<open>An observation is an endpoint with the value it returned.\<close>

definition quorumValue :: "string \<Rightarrow> (string \<times> js_value) list \<Rightarrow> nat \<Rightarrow> js_value result" where
  "quorumValue label observations requirement =
     (let uniqueEndpoints = remdups (map fst observations) in
      if length uniqueEndpoints < requirement then throw (label @ '' requires at least '' @ rpcQuorumDescription requirement)
      else case observations of
        [] \<Rightarrow> throw (label @ '' requires at least '' @ rpcQuorumDescription requirement)
      | first # _ \<Rightarrow>
          bindR (canonical (snd first)) (\<lambda>expected.
          bindR (find_disagreement expected observations) (\<lambda>disagreement. case disagreement of
            Some other \<Rightarrow> throw (''RPC disagreement for '' @ label @ '': '' @ fst first @ '' and '' @ fst other @ '' returned different values'')
          | None \<Rightarrow> ok (snd first))))"

section \<open>Answers that are available\<close>

datatype 'a settled = Fulfilled 'a | Rejected pool_error

text \<open>What a read by quorum throws: the reason of a rejection, an error of its own, or that too few endpoints answered.\<close>

datatype quorum_error = RejectionReason pool_error | OwnError js_error | ConnectivityDegradedError string

type_synonym 'a quorum_result = "(quorum_error + 'a) option"

fun failure_disposition :: "error_world \<Rightarrow> pool_error \<Rightarrow> OperationalFailureDisposition option" where
  "failure_disposition world (Existing thrown) = operationalFailureDisposition world thrown"
| "failure_disposition world (NewError message cause) =
     (if degraded_text ''Error'' message then Some ConnectivityDegraded
      else case cause of None \<Rightarrow> Some SafetyPaused | Some inner \<Rightarrow> failure_disposition world inner)"
| "failure_disposition world (EndpointPoolFailure failures) = Some ConnectivityDegraded"

text \<open>The first rejection that pauses; the search does not return when the disposition of an earlier one does not.\<close>

fun find_safety_failure :: "error_world \<Rightarrow> 'a settled list \<Rightarrow> pool_error option option" where
  "find_safety_failure world [] = Some None"
| "find_safety_failure world (Fulfilled _ # rest) = find_safety_failure world rest"
| "find_safety_failure world (Rejected reason # rest) =
     (case failure_disposition world reason of
        None \<Rightarrow> None
      | Some SafetyPaused \<Rightarrow> Some (Some reason)
      | Some ConnectivityDegraded \<Rightarrow> find_safety_failure world rest)"

definition fulfilled_values :: "'a settled list \<Rightarrow> 'a list" where
  "fulfilled_values settled = concat (map (\<lambda>result. case result of Fulfilled answer \<Rightarrow> [answer] | Rejected _ \<Rightarrow> []) settled)"

definition availableSettledValues :: "error_world \<Rightarrow> 'a settled list \<Rightarrow> 'a list quorum_result" where
  "availableSettledValues world settled =
     (case find_safety_failure world settled of
        None \<Rightarrow> None
      | Some (Some reason) \<Rightarrow> Some (Inl (RejectionReason reason))
      | Some None \<Rightarrow> Some (Inr (fulfilled_values settled)))"

definition bindQ :: "'a quorum_result \<Rightarrow> ('a \<Rightarrow> 'b quorum_result) \<Rightarrow> 'b quorum_result" where
  "bindQ m f = (case m of None \<Rightarrow> None | Some (Inl e) \<Rightarrow> Some (Inl e) | Some (Inr x) \<Rightarrow> f x)"

definition own_result :: "'a result \<Rightarrow> 'a quorum_result" where
  "own_result r = (case r of Inl e \<Rightarrow> Some (Inl (OwnError e)) | Inr x \<Rightarrow> Some (Inr x))"

lemma bindQ_eq_Some_Inr: "bindQ m f = Some (Inr y) \<longleftrightarrow> (\<exists>x. m = Some (Inr x) \<and> f x = Some (Inr y))"
  by (auto simp: bindQ_def split: option.splits sum.splits)

lemma own_result_eq_Inr [simp]: "own_result r = Some (Inr x) \<longleftrightarrow> r = ok x"
  by (cases r) (simp_all add: own_result_def)

definition settledQuorumValue ::
  "error_world \<Rightarrow> string \<Rightarrow> (string \<times> js_value) settled list \<Rightarrow> nat \<Rightarrow> js_value quorum_result" where
  "settledQuorumValue world label settled requirement =
     bindQ (availableSettledValues world settled) (\<lambda>available.
       if length available < requirement then
         let failures = concat (map (\<lambda>result. case result of Rejected reason \<Rightarrow> [errorMessage world reason] | Fulfilled _ \<Rightarrow> []) settled)
         in Some (Inl (ConnectivityDegradedError (label @ '' requires at least '' @
              (if requirement = 1 then ''one available RPC endpoint'' else ''two available independent RPC endpoints'') @
              (if failures = [] then [] else ''; '' @ join_with ''; '' failures))))
       else own_result (quorumValue label available requirement))"

definition settled_map :: "('a \<Rightarrow> 'b) \<Rightarrow> 'a settled \<Rightarrow> 'b settled" where
  "settled_map f result = (case result of Fulfilled answer \<Rightarrow> Fulfilled (f answer) | Rejected reason \<Rightarrow> Rejected reason)"

text \<open>The answer of every endpoint is an argument.\<close>

definition readWithQuorum :: "error_world \<Rightarrow> string \<Rightarrow> string list \<Rightarrow> (string \<Rightarrow> js_value settled) \<Rightarrow> nat \<Rightarrow> js_value quorum_result" where
  "readWithQuorum world label endpoints read requirement =
     settledQuorumValue world label (map (\<lambda>endpoint. settled_map (Pair endpoint) (read endpoint)) endpoints) requirement"

section \<open>Canonical texts tell values apart\<close>

text \<open>Values are the same up to the order of the fields of objects.\<close>

function same_value :: "js_value \<Rightarrow> js_value \<Rightarrow> bool" where
  "same_value (ObjectValue entries) w =
     (case w of
        ObjectValue others \<Rightarrow> length entries = length others \<and>
          list_all (\<lambda>(key, child). case map_of others key of None \<Rightarrow> False | Some other \<Rightarrow> same_value child other) entries
      | _ \<Rightarrow> False)"
| "same_value (ArrayValue items) w =
     (case w of ArrayValue others \<Rightarrow> length items = length others \<and> list_all (\<lambda>(x, y). same_value x y) (zip items others) | _ \<Rightarrow> False)"
| "same_value (BigintValue n) w = (w = BigintValue n)"
| "same_value UndefinedValue w = (w = UndefinedValue)"
| "same_value NullValue w = (w = NullValue)"
| "same_value (BooleanValue b) w = (w = BooleanValue b)"
| "same_value (NumberValue n) w = (w = NumberValue n)"
| "same_value NonFiniteValue w = (w = NonFiniteValue)"
| "same_value (TextValue s) w = (w = TextValue s)"
| "same_value (UnsupportedValue s) w = (w = UnsupportedValue s)"
  by pat_completeness auto
termination
  by (relation "measure (\<lambda>(v, w). size v)")
    (auto intro: entry_smaller dest!: set_zip_leftD simp: less_Suc_eq_le size_list_estimation')

text \<open>Values the readers return: objects have distinct fields, numbers are finite, nothing is unsupported.\<close>

fun plain_value :: "js_value \<Rightarrow> bool" where
  "plain_value NonFiniteValue = False"
| "plain_value (UnsupportedValue _) = False"
| "plain_value (ArrayValue items) = list_all plain_value items"
| "plain_value (ObjectValue entries) = (distinct (map fst entries) \<and> list_all (\<lambda>(_, child). plain_value child) entries)"
| "plain_value _ = True"

subsection \<open>Texts of strings and numbers\<close>

lemma hex_digit_inject: "m < 16 \<Longrightarrow> n < 16 \<Longrightarrow> lower_hex_digit m = lower_hex_digit n \<Longrightarrow> m = n"
proof -
  assume bounds: "m < 16" "n < 16" and "lower_hex_digit m = lower_hex_digit n"
  then have "(of_char (lower_hex_digit m) :: nat) = of_char (lower_hex_digit n)" by simp
  with bounds show ?thesis by (simp add: lower_hex_digit_def digit_char_def split: if_splits)
qed

lemma hex_pair_inject:
  assumes "lower_hex_digit (m div 16) = lower_hex_digit (n div 16)" "lower_hex_digit (m mod 16) = lower_hex_digit (n mod 16)"
    and "m < 32" "n < 32"
  shows "m = n"
proof -
  have "m div 16 = n div 16" "m mod 16 = n mod 16" using assms by (auto intro: hex_digit_inject)
  then show ?thesis by (metis div_mult_mod_eq)
qed

lemma escape_first:
  "json_escape c = [c] \<and> c \<noteq> CHR 0x5C \<and> c \<noteq> CHR 0x22 \<or> (\<exists>x xs. json_escape c = CHR 0x5C # x # xs)"
  by (auto simp: json_escape_def Let_def)

lemma of_char_cong: "(of_char c :: nat) = of_char d \<Longrightarrow> c = d"
  by simp

lemma escape_forms:
  assumes "json_escape c \<noteq> [c]"
  shows "(c = CHR 0x22 \<or> c = CHR 0x5C) \<and> json_escape c = [CHR 0x5C, c] \<or>
    (of_char c :: nat) < 32 \<and> (\<exists>x xs. json_escape c = CHR 0x5C # x # xs \<and> x \<in> set ''btnfru'')"
proof (cases "(of_char c :: nat) = 34 \<or> (of_char c :: nat) = 92")
  case True
  then have "c = CHR 0x22 \<or> c = CHR 0x5C" 
    by (elim disjE) (auto intro: of_char_cong)
  with True show ?thesis by (auto simp: json_escape_def)
next
  case False
  with assms show ?thesis by (auto simp: json_escape_def Let_def split: if_splits)
qed

lemma escape_prefix_free:
  assumes "json_escape c @ r = json_escape d @ s"
  shows "c = d \<and> r = s"
proof (cases "json_escape c = [c] \<or> json_escape d = [d]")
  case True
  with assms escape_first [of c] escape_first [of d] show ?thesis by auto
next
  case False
  have "(of_char c :: nat) = of_char d \<and> r = s"
  proof (cases "(of_char c :: nat) < 32 \<and> (of_char d :: nat) < 32")
    case True
    with assms show ?thesis
      by (auto simp: json_escape_def Let_def simp del: of_char_eq_iff split: if_splits dest: hex_pair_inject)
  next
    case 2: False
    with assms escape_forms [of c] escape_forms [of d] False show ?thesis by auto
  qed
  then show ?thesis using of_char_cong by blast
qed


lemma json_text_prefix_free:
  assumes "json_text s @ r = json_text t @ q"
  shows "s = t \<and> r = q"
proof -
  have unique: "concat (map json_escape s) @ CHR 0x22 # r = concat (map json_escape t) @ CHR 0x22 # q \<Longrightarrow> s = t \<and> r = q" for s t
  proof (induction s arbitrary: t)
    case Nil
    then show ?case
    proof (cases t)
      case t: (Cons d t')
      with Nil escape_first [of d] show ?thesis by auto
    qed simp
  next
    case (Cons c s)
    show ?case
    proof (cases t)
      case Nil
      with Cons.prems escape_first [of c] show ?thesis by auto
    next
      case t: (Cons d t')
      with Cons.prems have "json_escape c @ concat (map json_escape s) @ CHR 0x22 # r = json_escape d @ concat (map json_escape t') @ CHR 0x22 # q"
        by simp
      from escape_prefix_free [OF this] Cons.IH [of t'] t show ?thesis by simp
    qed
  qed
  from assms show ?thesis by (intro unique) (simp add: json_text_def)
qed

lemma bigint_to_string_inject: "bigint_to_string m = bigint_to_string n \<Longrightarrow> m = n"
proof -
  assume eq: "bigint_to_string m = bigint_to_string n"
  have no_minus: "nat_digits a \<noteq> CHR ''-'' # s" for a s
  proof
    assume "nat_digits a = CHR ''-'' # s"
    then have "is_digit (CHR ''-'')" using nat_digits_digits [of "CHR ''-''" a] by simp
    then show False by (simp add: is_digit_def)
  qed
  have inject: "nat_digits a = nat_digits b \<Longrightarrow> a = b" for a b by (metis digits_value_nat_digits)
  from eq no_minus no_minus [symmetric] show "m = n"
    by (auto simp: bigint_to_string_def split: if_splits dest!: inject)
qed

text \<open>What may follow the text of a value.\<close>

definition delimited :: "string \<Rightarrow> bool" where
  "delimited r \<longleftrightarrow> r = [] \<or> hd r \<in> {CHR '','', CHR '']'', CHR ''}''}"

definition number_char :: "char \<Rightarrow> bool" where
  "number_char c \<longleftrightarrow> is_digit c \<or> c = CHR ''-''"

lemma number_chars: "list_all number_char (bigint_to_string n)"
  by (auto simp: bigint_to_string_def list_all_iff number_char_def dest: nat_digits_digits)

lemma number_prefix_free:
  assumes "bigint_to_string m @ r = bigint_to_string n @ s" and "delimited r" "delimited s"
  shows "m = n"
proof -
  have "takeWhile number_char (bigint_to_string k @ t) = bigint_to_string k" if "delimited t" for k t
  proof -
    have "takeWhile number_char t = []" using that
      by (cases t) (auto simp: delimited_def number_char_def is_digit_def)
    with number_chars [of k] show ?thesis by (simp add: takeWhile_append2 list_all_iff)
  qed
  with assms have "bigint_to_string m = bigint_to_string n" by metis
  then show ?thesis by (rule bigint_to_string_inject)
qed

subsection \<open>Texts of values\<close>

text \<open>The first character of a text tells the constructor.\<close>

definition char_kind :: "char \<Rightarrow> nat" where
  "char_kind c = (if c = CHR ''b'' then 1 else if c = CHR ''u'' then 2 else if c = CHR ''n'' then 3 else if c = CHR ''t'' then 4
     else if c = CHR ''f'' then 5 else if number_char c then 6 else if c = CHR 0x22 then 7 else if c = CHR ''['' then 8
     else if c = CHR ''{'' then 9 else 0)"

fun value_kind :: "js_value \<Rightarrow> nat" where
  "value_kind (BigintValue _) = 1"
| "value_kind UndefinedValue = 2"
| "value_kind NullValue = 3"
| "value_kind NonFiniteValue = 3"
| "value_kind (BooleanValue b) = (if b then 4 else 5)"
| "value_kind (NumberValue _) = 6"
| "value_kind (TextValue _) = 7"
| "value_kind (ArrayValue _) = 8"
| "value_kind (ObjectValue _) = 9"
| "value_kind (UnsupportedValue _) = 10"

lemma number_first: "bigint_to_string n \<noteq> [] \<and> number_char (hd (bigint_to_string n))"
proof -
  have "bigint_to_string n \<noteq> []" by (simp add: bigint_to_string_def)
  with number_chars [of n] show ?thesis by (cases "bigint_to_string n") auto
qed

lemma canonical_first:
  assumes "canonical v = ok a"
  shows "a \<noteq> []" and "char_kind (hd a) = value_kind v"
proof -
  have number: "char_kind c = 6" if "number_char c" for c
    using that by (auto simp: char_kind_def number_char_def is_digit_def)
  have "a \<noteq> [] \<and> char_kind (hd a) = value_kind v"
  proof (cases v)
    case (NumberValue n)
    with assms number_first [of n] number show ?thesis by auto
  next
    case (BooleanValue b)
    with assms show ?thesis by (cases b) (auto simp: char_kind_def number_char_def is_digit_def)
  qed (use assms in \<open>auto simp: char_kind_def json_text_def number_char_def is_digit_def bindR_eq_Inr_iff\<close>)
  then show "a \<noteq> []" and "char_kind (hd a) = value_kind v" by simp_all
qed

lemma first_not_delimiter:
  assumes "canonical v = ok a"
  shows "hd a \<notin> {CHR '','', CHR '']'', CHR ''}''}"
proof -
  have "canonical v = ok a \<Longrightarrow> value_kind v \<noteq> 0" by (cases v) auto
  moreover have "char_kind c = 0" if "c \<in> {CHR '','', CHR '']'', CHR ''}''}" for c
    using that by (auto simp: char_kind_def number_char_def is_digit_def)
  ultimately show ?thesis using canonical_first(2) [OF assms] assms by metis
qed

lemma same_kind:
  assumes "canonical v = ok a" "canonical w = ok b" "a @ r = b @ s"
  shows "value_kind v = value_kind w"
  using canonical_first [OF assms(1)] canonical_first [OF assms(2)] assms(3)
  by (metis hd_append2)

text \<open>A list of texts behind its separators, up to the closing bracket.\<close>

definition tail_texts :: "string list \<Rightarrow> string" where
  "tail_texts texts = concat (map ((@) '','') texts)"

lemma tail_texts_simps [simp]: "tail_texts [] = []" "tail_texts (t # ts) = CHR '','' # t @ tail_texts ts"
  by (simp_all add: tail_texts_def)

lemma join_with_texts: "join_with '','' texts = (case texts of [] \<Rightarrow> [] | t # ts \<Rightarrow> t @ tail_texts ts)"
  by (cases texts) (simp_all add: join_with_def tail_texts_def)

lemma tail_texts_delimited: "c \<in> {CHR '']'', CHR ''}''} \<Longrightarrow> delimited (tail_texts ts @ c # r)"
  by (cases ts) (auto simp: delimited_def)

lemma tail_texts_unique:
  assumes "list_all2 P xs ts" "list_all2 P ys us"
    and "\<And>x t y u r s. x \<in> set xs \<Longrightarrow> y \<in> set ys \<Longrightarrow> P x t \<Longrightarrow> P y u \<Longrightarrow> delimited r \<Longrightarrow> delimited s \<Longrightarrow> t @ r = u @ s \<Longrightarrow> S x y \<and> t = u"
    and close: "c \<in> {CHR '']'', CHR ''}''}"
    and "tail_texts ts @ c # r = tail_texts us @ c # s"
  shows "list_all2 S xs ys \<and> ts = us"
  using assms(1,2,3,5)
proof (induction arbitrary: ys us rule: list_all2_induct)
  case Nil
  then show ?case using close by (cases us) auto
next
  case (Cons x xs t ts)
  show ?case
  proof (cases us)
    case Nil
    with Cons.prems(3) close show ?thesis by auto
  next
    case us: (Cons u us')
    with Cons.prems(1) obtain y ys' where ys: "ys = y # ys'" and "P y u" "list_all2 P ys' us'"
      by (auto simp: list_all2_Cons2)
    from Cons.prems(3) us have texts: "t @ tail_texts ts @ c # r = u @ tail_texts us' @ c # s" by simp
    with Cons.prems(2) [of x y t u] \<open>P x t\<close> \<open>P y u\<close> ys tail_texts_delimited [OF close] have "S x y" "t = u" by auto
    moreover have "list_all2 S xs ys' \<and> ts = us'"
    proof (rule Cons.IH [OF \<open>list_all2 P ys' us'\<close>])
      show "tail_texts ts @ c # r = tail_texts us' @ c # s" using texts \<open>t = u\<close> by simp
      show "S x' y' \<and> t' = u'"
        if "x' \<in> set xs" "y' \<in> set ys'" "P x' t'" "P y' u'" "delimited r'" "delimited s'" "t' @ r' = u' @ s'" for x' t' y' u' r' s'
        using that Cons.prems(2) [of x' y' t' u' r' s'] ys by simp
    qed
    ultimately show ?thesis using ys us by simp
  qed
qed

lemma join_unique:
  assumes "list_all2 P xs ts" "list_all2 P ys us"
    and unique: "\<And>x t y u r s. x \<in> set xs \<Longrightarrow> y \<in> set ys \<Longrightarrow> P x t \<Longrightarrow> P y u \<Longrightarrow> delimited r \<Longrightarrow> delimited s \<Longrightarrow> t @ r = u @ s \<Longrightarrow> S x y \<and> t = u"
    and first: "\<And>x t. x \<in> set xs \<union> set ys \<Longrightarrow> P x t \<Longrightarrow> t \<noteq> [] \<and> hd t \<notin> {CHR '','', CHR '']'', CHR ''}''}"
    and close: "c \<in> {CHR '']'', CHR ''}''}"
    and joined: "join_with '','' ts @ c # r = join_with '','' us @ c # s"
  shows "list_all2 S xs ys \<and> ts = us"
proof (cases "ts = [] \<or> us = []")
  case True
  have starts: "t @ q \<noteq> c # r'" if "x \<in> set xs \<union> set ys" "P x t" for x t q r'
    using first [OF that] close by (cases t) auto
  have "ts = [] \<and> us = []"
  proof (cases ts)
    case Nil
    show ?thesis
    proof (cases us)
      case (Cons u us')
      with assms(2) obtain y ys' where "ys = y # ys'" "P y u" by (auto simp: list_all2_Cons2)
      with starts [of y u, symmetric] joined Nil Cons show ?thesis by (auto simp: join_with_texts)
    qed (use Nil in simp)
  next
    case (Cons t ts')
    with assms(1) obtain x xs' where "xs = x # xs'" "P x t" by (auto simp: list_all2_Cons2)
    with starts [of x t] joined True Cons show ?thesis by (auto simp: join_with_texts)
  qed
  with assms(1,2) show ?thesis by simp
next
  case False
  with joined have "tail_texts ts @ c # r = tail_texts us @ c # s" by (auto simp: join_with_texts split: list.splits)
  from tail_texts_unique [where S = S, OF assms(1,2) _ close this] unique show ?thesis by blast
qed


lemma mapR_relates: "mapR f xs = ok ts \<longleftrightarrow> list_all2 (\<lambda>x t. f x = ok t) xs ts"
proof (induction xs arbitrary: ts)
  case Nil
  then show ?case by (cases ts) auto
next
  case (Cons x xs)
  then show ?case by (cases ts) (auto simp: bindR_eq_Inr_iff)
qed

definition entry_text :: "string \<times> js_value \<Rightarrow> string result" where
  "entry_text = (\<lambda>(key, child). bindR (canonical child) (\<lambda>text. ok (json_text key @ '':'' @ text)))"

lemma canonical_ArrayValue:
  "canonical (ArrayValue items) = ok a \<longleftrightarrow>
     (\<exists>texts. list_all2 (\<lambda>x t. canonical x = ok t) items texts \<and> a = ''['' @ join_with '','' texts @ '']'')"
  by (auto simp: bindR_eq_Inr_iff mapR_relates)

lemma canonical_ObjectValue:
  "canonical (ObjectValue entries) = ok a \<longleftrightarrow>
     (\<exists>texts. list_all2 (\<lambda>x t. entry_text x = ok t) (js_sort compareEntries entries) texts \<and> a = ''{'' @ join_with '','' texts @ ''}'')"
  by (auto simp: bindR_eq_Inr_iff mapR_relates entry_text_def)

text \<open>The fields of two objects that correspond one by one, in whatever order each lists them.\<close>

lemma same_fields:
  assumes "list_all2 (\<lambda>(key, child) (key', child'). key = key' \<and> same_value child child') (js_sort cmp entries) (js_sort cmp others)"
    and "distinct (map fst others)"
  shows "same_value (ObjectValue entries) (ObjectValue others)"
proof -
  have "length entries = length others" using list_all2_lengthD [OF assms(1)] by simp
  moreover have "\<exists>child'. map_of others key = Some child' \<and> same_value child child'" if "(key, child) \<in> set entries" for key child
  proof -
    from that have "(key, child) \<in> set (js_sort cmp entries)" by simp
    then obtain i where i: "i < length (js_sort cmp entries)" "js_sort cmp entries ! i = (key, child)" by (auto simp only: in_set_conv_nth)
    with list_all2_nthD [OF assms(1), of i] list_all2_lengthD [OF assms(1)] obtain child' where
      "js_sort cmp others ! i = (key, child')" "same_value child child'" "i < length (js_sort cmp others)" by auto
    then have "(key, child') \<in> set others" by (metis nth_mem set_js_sort)
    with assms(2) \<open>same_value child child'\<close> show ?thesis by auto
  qed
  ultimately show ?thesis by (fastforce simp: list_all_iff)
qed

lemma canonical_unique:
  assumes "canonical v = ok a" "canonical w = ok b" "plain_value v" "plain_value w" "delimited r" "delimited s" "a @ r = b @ s"
  shows "same_value v w \<and> a = b"
  using assms
proof (induction v arbitrary: w a b r s)
  case (ArrayValue items)
  from same_kind [OF ArrayValue.prems(1,2,7)] obtain others where w: "w = ArrayValue others"
    by (cases w) (auto split: if_splits)
  from ArrayValue.prems(1) obtain ts where ts: "list_all2 (\<lambda>x t. canonical x = ok t) items ts" "a = ''['' @ join_with '','' ts @ '']''"
    unfolding canonical_ArrayValue by blast
  from ArrayValue.prems(2) obtain us where us: "list_all2 (\<lambda>x t. canonical x = ok t) others us" "b = ''['' @ join_with '','' us @ '']''"
    unfolding w canonical_ArrayValue by blast
  have "list_all2 same_value items others \<and> ts = us"
  proof (rule join_unique [OF ts(1) us(1)])
    show "same_value x y \<and> t = u"
      if "x \<in> set items" "y \<in> set others" "canonical x = ok t" "canonical y = ok u" "delimited r'" "delimited s'" "t @ r' = u @ s'"
      for x t y u r' s'
      using ArrayValue.IH [OF that(1,3,4) _ _ that(5,6,7)] ArrayValue.prems(3,4) w that(1,2) by (auto simp: list_all_iff)
    show "t \<noteq> [] \<and> hd t \<notin> {CHR '','', CHR '']'', CHR ''}''}" if "canonical x = ok t" for x t
      using canonical_first(1) [OF that] first_not_delimiter [OF that] by blast
    show "CHR '']'' \<in> {CHR '']'', CHR ''}''}" by simp
    show "join_with '','' ts @ CHR '']'' # r = join_with '','' us @ CHR '']'' # s" using ArrayValue.prems(7) ts us by simp
  qed
  then show ?case using w ts us by (auto simp: list_all2_iff list_all_iff)
next
  case (ObjectValue entries)
  from same_kind [OF ObjectValue.prems(1,2,7)] obtain others where w: "w = ObjectValue others"
    by (cases w) (auto split: if_splits)
  from ObjectValue.prems(1) obtain ts where ts: "list_all2 (\<lambda>x t. entry_text x = ok t) (js_sort compareEntries entries) ts"
      "a = ''{'' @ join_with '','' ts @ ''}''" unfolding canonical_ObjectValue by blast
  from ObjectValue.prems(2) obtain us where us: "list_all2 (\<lambda>x t. entry_text x = ok t) (js_sort compareEntries others) us"
      "b = ''{'' @ join_with '','' us @ ''}''" unfolding w canonical_ObjectValue by blast
  have "list_all2 (\<lambda>(key, child) (key', child'). key = key' \<and> same_value child child')
      (js_sort compareEntries entries) (js_sort compareEntries others) \<and> ts = us"
  proof (rule join_unique [OF ts(1) us(1)])
    show "(case x of (key, child) \<Rightarrow> \<lambda>(key', child'). key = key' \<and> same_value child child') y \<and> t = u"
      if that: "x \<in> set (js_sort compareEntries entries)" "y \<in> set (js_sort compareEntries others)" "entry_text x = ok t" "entry_text y = ok u"
        "delimited r'" "delimited s'" "t @ r' = u @ s'" for x t y u r' s'
    proof -
      obtain key child key' child' where xy: "x = (key, child)" "y = (key', child')" by (cases x; cases y)
      with that(3,4) obtain tc uc where texts: "canonical child = ok tc" "t = json_text key @ '':'' @ tc"
          "canonical child' = ok uc" "u = json_text key' @ '':'' @ uc"
        by (auto simp: entry_text_def bindR_eq_Inr_iff)
      with that(7) have "json_text key @ CHR '':'' # tc @ r' = json_text key' @ CHR '':'' # uc @ s'" by simp
      from json_text_prefix_free [OF this] have "key = key'" "tc @ r' = uc @ s'" by simp_all
      moreover have "same_value child child' \<and> tc = uc"
      proof (rule ObjectValue.IH [OF _ _ texts(1) texts(3) _ _ that(5) that(6) \<open>tc @ r' = uc @ s'\<close>, of x])
        show "x \<in> set entries" using that(1) by simp
        show "child \<in> Basic_BNFs.snds x" using xy by simp
        show "plain_value child" using ObjectValue.prems(3) that(1) xy by (auto simp: list_all_iff)
        show "plain_value child'" using ObjectValue.prems(4) w that(2) xy by (auto simp: list_all_iff)
      qed
      ultimately show ?thesis using xy texts by simp
    qed
    show "t \<noteq> [] \<and> hd t \<notin> {CHR '','', CHR '']'', CHR ''}''}" if "entry_text x = ok t" for x t
      using that by (cases x) (auto simp: entry_text_def bindR_eq_Inr_iff json_text_def)
    show "CHR ''}'' \<in> {CHR '']'', CHR ''}''}" by simp
    show "join_with '','' ts @ CHR ''}'' # r = join_with '','' us @ CHR ''}'' # s" using ObjectValue.prems(7) ts us by simp
  qed
  then show ?case using ObjectValue.prems(4) w ts us same_fields [of compareEntries entries others] by simp
next
  case (NumberValue n)
  from same_kind [OF NumberValue.prems(1,2,7)] obtain m where "w = NumberValue m" by (cases w) (auto split: if_splits)
  with NumberValue.prems number_prefix_free [of n r m s] show ?case by auto
next
  case (BigintValue n)
  from same_kind [OF BigintValue.prems(1,2,7)] obtain m where "w = BigintValue m" by (cases w) (auto split: if_splits)
  with BigintValue.prems number_prefix_free [of n r m s] show ?case by auto
next
  case (TextValue t)
  from same_kind [OF TextValue.prems(1,2,7)] obtain u where "w = TextValue u" by (cases w) (auto split: if_splits)
  with TextValue.prems json_text_prefix_free [of t r u s] show ?case by auto
next
  case (BooleanValue c)
  from same_kind [OF BooleanValue.prems(1,2,7)] show ?case
    using BooleanValue.prems by (cases w) (auto split: if_splits)
next
  case UndefinedValue
  from same_kind [OF UndefinedValue.prems(1,2,7)] show ?case using UndefinedValue.prems by (cases w) (auto split: if_splits)
next
  case NullValue
  from same_kind [OF NullValue.prems(1,2,7)] show ?case using NullValue.prems by (cases w) (auto split: if_splits)
qed simp_all

subsection \<open>The same value has one text\<close>

lemma of_char_lower: "(of_char (lower_char c) :: nat) = (if is_upper_char c then of_char c + 32 else of_char c)"
  by (simp add: lower_char_def is_upper_char_def)

lemma collation_key_inject: "collation_key s = collation_key t \<Longrightarrow> s = t"
proof -
  assume eq: "collation_key s = collation_key t"
  have inject: "c = d" if "lower_char c = lower_char d" "is_upper_char c = is_upper_char d" for c d
  proof -
    from that(1) have "(of_char (lower_char c) :: nat) = of_char (lower_char d)" by simp
    with that(2) have "(of_char c :: nat) = of_char d" unfolding of_char_lower by (simp split: if_splits)
    then show ?thesis by simp
  qed
  from eq have lower: "map (\<lambda>c. of_char (lower_char c) :: nat) s = map (\<lambda>c. of_char (lower_char c)) t"
    and upper: "map is_upper_char s = map is_upper_char t" by (simp_all add: collation_key_def)
  from upper have lengths: "length s = length t" by (rule map_eq_imp_length_eq)
  have "s ! i = t ! i" if i: "i < length s" for i
  proof (rule inject)
    from i lengths have j: "i < length t" by simp
    have "map (\<lambda>c. of_char (lower_char c) :: nat) s ! i = map (\<lambda>c. of_char (lower_char c)) t ! i" by (simp only: lower)
    then show "lower_char (s ! i) = lower_char (t ! i)" unfolding nth_map [OF i] nth_map [OF j] by (simp only: of_char_eq_iff)
    have "map is_upper_char s ! i = map is_upper_char t ! i" by (simp only: upper)
    then show "is_upper_char (s ! i) = is_upper_char (t ! i)" unfolding nth_map [OF i] nth_map [OF j] .
  qed
  with lengths show ?thesis by (rule nth_equalityI)
qed

interpretation entry_order: comparator compareEntries
  by (rule comparator_by_key [of _ "\<lambda>e. collation_key (fst e)"]) (simp add: compareEntries_def localeCompare_le_iff)

text \<open>Two lists of fields with the same distinct keys are sorted into the same order of keys.\<close>

lemma sorted_keys:
  assumes "distinct (map fst entries)" "distinct (map fst others)" "fst ` set entries = fst ` set others"
  shows "map fst (js_sort compareEntries entries) = map fst (js_sort compareEntries others)"
proof -
  have sorted: "sorted (map (\<lambda>e. collation_key (fst e)) (js_sort compareEntries es))" for es
    using entry_order.sorted_js_sort [of es] by (simp add: sorted_wrt_map compareEntries_def localeCompare_le_iff)
  have distinct: "distinct (map (\<lambda>e. collation_key (fst e)) (js_sort compareEntries es))" if "distinct (map fst es)" for es
  proof -
    have "mset (map fst (js_sort compareEntries es)) = mset (map fst es)" by simp
    with that have "distinct (map fst (js_sort compareEntries es))" by (metis distinct_count_atmost_1 set_mset_mset)
    then have "distinct (map collation_key (map fst (js_sort compareEntries es)))"
      using collation_key_inject by (subst distinct_map) (auto intro: inj_onI)
    then show ?thesis by (simp add: comp_def)
  qed
  have "map (\<lambda>e. collation_key (fst e)) (js_sort compareEntries entries) = map (\<lambda>e. collation_key (fst e)) (js_sort compareEntries others)"
    using assms by (intro sorted_distinct_set_unique sorted distinct) (simp_all add: image_image [symmetric, of collation_key fst])
  then have "map collation_key (map fst (js_sort compareEntries entries)) = map collation_key (map fst (js_sort compareEntries others))"
    by (simp add: comp_def)
  then show ?thesis using collation_key_inject by (metis inj_onI map_inj_on)
qed


lemma all_related: "(\<And>x. x \<in> set xs \<Longrightarrow> \<exists>t. P x t) \<Longrightarrow> \<exists>ts. list_all2 P xs ts"
proof (induction xs)
  case (Cons x xs)
  then obtain t ts where "P x t" "list_all2 P xs ts" by (meson list.set_intros)
  then have "list_all2 P (x # xs) (t # ts)" by simp
  then show ?case by blast
qed auto

lemma canonical_plain: "plain_value v \<Longrightarrow> \<exists>a. canonical v = ok a"
proof (induction v)
  case (ArrayValue items)
  then have "\<exists>ts. list_all2 (\<lambda>x t. canonical x = ok t) items ts" by (intro all_related) (auto simp: list_all_iff)
  then show ?case unfolding canonical_ArrayValue by blast
next
  case (ObjectValue entries)
  have "\<exists>t. entry_text x = ok t" if "x \<in> set (js_sort compareEntries entries)" for x
  proof -
    obtain key child where x: "x = (key, child)" by (cases x)
    with that ObjectValue.prems have "plain_value child" by (auto simp: list_all_iff)
    with ObjectValue.IH [of x child] that x obtain t where "canonical child = ok t" by auto
    then show ?thesis using x by (simp add: entry_text_def)
  qed
  then have "\<exists>ts. list_all2 (\<lambda>x t. entry_text x = ok t) (js_sort compareEntries entries) ts" by (rule all_related)
  then show ?case unfolding canonical_ObjectValue by blast
qed simp_all

lemma same_keys:
  assumes "length entries = length others" "distinct (map fst entries)" "distinct (map fst others)" "fst ` set entries \<subseteq> fst ` set others"
  shows "fst ` set entries = fst ` set others"
proof -
  have "card (fst ` set entries) = card (fst ` set others)"
    using assms(1-3) by (metis distinct_card length_map list.set_map)
  then show ?thesis using assms(4) by (intro card_subset_eq) simp_all
qed

lemma canonical_same:
  assumes "same_value v w" "plain_value v" "plain_value w" "canonical v = ok a"
  shows "canonical w = ok a"
  using assms
proof (induction v arbitrary: w a)
  case (ArrayValue items)
  then obtain others where w: "w = ArrayValue others" "length items = length others" "\<forall>(x, y) \<in> set (zip items others). same_value x y"
    by (auto simp: list_all_iff split: js_value.splits)
  from ArrayValue.prems(4) obtain ts where ts: "list_all2 (\<lambda>x t. canonical x = ok t) items ts" "a = ''['' @ join_with '','' ts @ '']''"
    unfolding canonical_ArrayValue by blast
  have "canonical (others ! i) = ok (ts ! i)" if "i < length others" for i
  proof (rule ArrayValue.IH [of "items ! i"])
    show "items ! i \<in> set items" using that w by simp
    show "same_value (items ! i) (others ! i)" using that w by (auto simp: set_zip)
    show "plain_value (items ! i)" "plain_value (others ! i)" using that ArrayValue.prems(2,3) w by (simp_all add: list_all_length)
    show "canonical (items ! i) = ok (ts ! i)" using ts that w by (simp add: list_all2_conv_all_nth)
  qed
  then have "list_all2 (\<lambda>x t. canonical x = ok t) others ts" using ts w by (simp add: list_all2_conv_all_nth)
  then show ?case unfolding w canonical_ArrayValue using ts by blast
next
  case (ObjectValue entries)
  then obtain others where w: "w = ObjectValue others" "length entries = length others"
      "\<forall>(key, child) \<in> set entries. \<exists>other. map_of others key = Some other \<and> same_value child other"
    by (fastforce simp: list_all_iff split: js_value.splits option.splits)
  let ?sort = "js_sort compareEntries"
  have keys: "distinct (map fst entries)" "distinct (map fst others)" using ObjectValue.prems(2,3) w by simp_all
  have "fst ` set entries \<subseteq> fst ` set others" using w(3) by (force dest: map_of_SomeD)
  then have order: "map fst (?sort entries) = map fst (?sort others)"
    by (intro sorted_keys same_keys keys w(2))
  from ObjectValue.prems(4) obtain ts where ts: "list_all2 (\<lambda>x t. entry_text x = ok t) (?sort entries) ts"
      "a = ''{'' @ join_with '','' ts @ ''}''" unfolding canonical_ObjectValue by blast
  have "entry_text (?sort others ! i) = ok (ts ! i)" if i: "i < length others" for i
  proof -
    obtain key child where e: "?sort entries ! i = (key, child)" by (cases "?sort entries ! i")
    obtain key' child' where e': "?sort others ! i = (key', child')" by (cases "?sort others ! i")
    have members: "(key, child) \<in> set entries" "(key', child') \<in> set others"
      using e e' i w(2) by (metis length_js_sort nth_mem set_js_sort)+
    have "key = key'" using order e e' i w(2) by (metis fst_conv length_js_sort nth_map)
    with members w(3) keys have "same_value child child'" by fastforce
    moreover have "plain_value child" "plain_value child'" using ObjectValue.prems(2,3) w members by (auto simp: list_all_iff)
    moreover obtain tc where tc: "canonical child = ok tc" "ts ! i = json_text key @ '':'' @ tc"
      using ts(1) e i w(2) by (fastforce simp: list_all2_conv_all_nth entry_text_def bindR_eq_Inr_iff)
    ultimately have "canonical child' = ok tc"
      using ObjectValue.IH [of "(key, child)" child child' tc] members by simp
    then show ?thesis using e' tc \<open>key = key'\<close> by (simp add: entry_text_def)
  qed
  then have "list_all2 (\<lambda>x t. entry_text x = ok t) (?sort others) ts" using ts w(2) by (simp add: list_all2_conv_all_nth)
  then show ?case unfolding w canonical_ObjectValue using ts by blast
qed simp_all

lemma canonical_texts_agree:
  assumes "plain_value v" "plain_value w"
  shows "canonical v = canonical w \<longleftrightarrow> same_value v w"
proof -
  obtain a b where texts: "canonical v = ok a" "canonical w = ok b" using assms canonical_plain by metis
  have "same_value v w" if "a = b"
    using canonical_unique [OF texts assms, of "[]" "[]"] that by (simp add: delimited_def)
  moreover have "a = b" if "same_value v w"
    using canonical_same [OF that assms texts(1)] texts(2) by simp
  ultimately show ?thesis using texts by auto
qed

section \<open>What a quorum stands for\<close>

lemma find_disagreement_None:
  assumes "\<forall>observation \<in> set observations. plain_value (snd observation)"
  shows "find_disagreement expected observations = ok None \<longleftrightarrow>
    (\<forall>observation \<in> set observations. canonical (snd observation) = ok expected)"
  using assms
proof (induction observations)
  case (Cons observation rest)
  from Cons.prems canonical_plain [of "snd observation"] obtain a where "canonical (snd observation) = ok a" by auto
  with Cons show ?case by auto
qed simp

lemma quorum_value_iff:
  assumes "\<forall>observation \<in> set observations. plain_value (snd observation)"
  shows "quorumValue label observations requirement = ok v \<longleftrightarrow>
    requirement \<le> card (fst ` set observations) \<and> observations \<noteq> [] \<and> v = snd (hd observations) \<and>
    (\<forall>observation \<in> set observations. same_value v (snd observation))"
proof (cases observations)
  case Nil
  then show ?thesis by (simp add: quorumValue_def Let_def)
next
  case (Cons first rest)
  with assms have plain: "plain_value (snd first)" by simp
  then obtain a where a: "canonical (snd first) = ok a" using canonical_plain by blast
  have "(canonical (snd observation) = ok a) = same_value (snd first) (snd observation)" if "observation \<in> set observations" for observation
    using canonical_texts_agree [OF plain, of "snd observation"] assms that a by metis
  then have agreed: "find_disagreement a observations = ok None \<longleftrightarrow>
      (\<forall>observation \<in> set observations. same_value (snd first) (snd observation))"
    using find_disagreement_None [OF assms, of a] by blast
  have count: "length (remdups (map fst observations)) = card (fst ` set observations)"
    by (simp add: length_remdups_card_conv)
  have "quorumValue label observations requirement = ok v \<longleftrightarrow>
      requirement \<le> card (fst ` set observations) \<and> find_disagreement a observations = ok None \<and> v = snd first"
    unfolding quorumValue_def Let_def count using Cons a
    by (auto simp: bindR_eq_Inr_iff not_less split: option.splits)
  with agreed Cons show ?thesis by auto
qed

lemma find_safety_failure_None:
  "find_safety_failure world settled = Some None \<longleftrightarrow>
     (\<forall>reason. Rejected reason \<in> set settled \<longrightarrow> failure_disposition world reason = Some ConnectivityDegraded)"
proof (induction settled)
  case (Cons result rest)
  then show ?case
    by (cases result) (auto split: option.splits OperationalFailureDisposition.splits)
qed simp

lemma available_values_iff:
  "availableSettledValues world settled = Some (Inr available) \<longleftrightarrow>
     available = fulfilled_values settled \<and>
     (\<forall>reason. Rejected reason \<in> set settled \<longrightarrow> failure_disposition world reason = Some ConnectivityDegraded)"
  unfolding find_safety_failure_None [symmetric] by (auto simp: availableSettledValues_def split: option.splits)

lemma set_fulfilled_values: "set (fulfilled_values settled) = {answer. Fulfilled answer \<in> set settled}"
  by (force simp: fulfilled_values_def split: settled.splits)

lemma settled_quorum_iff:
  assumes "\<forall>endpoint v. Fulfilled (endpoint, v) \<in> set settled \<longrightarrow> plain_value v"
  shows "settledQuorumValue world label settled requirement = Some (Inr v) \<longleftrightarrow>
    (\<forall>reason. Rejected reason \<in> set settled \<longrightarrow> failure_disposition world reason = Some ConnectivityDegraded) \<and>
    requirement \<le> card (fst ` set (fulfilled_values settled)) \<and> fulfilled_values settled \<noteq> [] \<and> v = snd (hd (fulfilled_values settled)) \<and>
    (\<forall>(endpoint, w) \<in> set (fulfilled_values settled). same_value v w)"
proof -
  have "\<forall>observation \<in> set (fulfilled_values settled). plain_value (snd observation)"
    using assms by (auto simp: set_fulfilled_values)
  note agreed = quorum_value_iff [OF this, of label requirement v]
  have enough: "requirement \<le> length (fulfilled_values settled)" if "requirement \<le> card (fst ` set (fulfilled_values settled))"
    using that card_length [of "map fst (fulfilled_values settled)"] by simp
  show ?thesis
    unfolding settledQuorumValue_def bindQ_eq_Some_Inr available_values_iff Let_def
    using agreed enough by (auto simp: not_less)
qed

lemma settled_map_eq:
  "settled_map f result = Fulfilled y \<longleftrightarrow> (\<exists>answer. result = Fulfilled answer \<and> y = f answer)"
  "settled_map f result = Rejected reason \<longleftrightarrow> result = Rejected reason"
  by (cases result; auto simp: settled_map_def)+

text \<open>The first endpoint that answers, and the endpoints that answer at all.\<close>

lemma fulfilled_of_reads:
  "fulfilled_values (map (\<lambda>endpoint. settled_map (Pair endpoint) (read endpoint)) endpoints) =
     concat (map (\<lambda>endpoint. case read endpoint of Fulfilled v \<Rightarrow> [(endpoint, v)] | Rejected _ \<Rightarrow> []) endpoints)"
  by (induction endpoints) (auto simp: fulfilled_values_def settled_map_def split: settled.splits)

definition first_answering :: "(string \<Rightarrow> js_value settled) \<Rightarrow> string list \<Rightarrow> string option" where
  "first_answering read endpoints = List.find (\<lambda>endpoint. case read endpoint of Fulfilled _ \<Rightarrow> True | Rejected _ \<Rightarrow> False) endpoints"

lemma first_answer:
  "observations = concat (map (\<lambda>endpoint. case read endpoint of Fulfilled v \<Rightarrow> [(endpoint, v)] | Rejected _ \<Rightarrow> []) endpoints) \<Longrightarrow>
     observations \<noteq> [] \<and> v = snd (hd observations) \<longleftrightarrow>
     (\<exists>endpoint. first_answering read endpoints = Some endpoint \<and> read endpoint = Fulfilled v)"
proof (induction endpoints arbitrary: observations)
  case (Cons endpoint endpoints)
  then show ?case by (cases "read endpoint") (auto simp: first_answering_def)
qed (simp add: first_answering_def)

text \<open>
  C9: A read by quorum returns a value exactly when at least the required number of different endpoints
  answered, every answer is that value up to the order of fields, the value is that of the first endpoint
  that answered, and every endpoint that did not answer failed by connectivity only.
\<close>

theorem quorum_read_iff:
  assumes "\<forall>endpoint v. read endpoint = Fulfilled v \<longrightarrow> plain_value v"
  shows "readWithQuorum world label endpoints read requirement = Some (Inr v) \<longleftrightarrow>
    requirement \<le> card {endpoint \<in> set endpoints. \<exists>w. read endpoint = Fulfilled w} \<and>
    (\<exists>endpoint. first_answering read endpoints = Some endpoint \<and> read endpoint = Fulfilled v) \<and>
    (\<forall>endpoint \<in> set endpoints. case read endpoint of
         Fulfilled w \<Rightarrow> same_value v w
       | Rejected reason \<Rightarrow> failure_disposition world reason = Some ConnectivityDegraded)"
proof -
  define settled where "settled = map (\<lambda>endpoint. settled_map (Pair endpoint) (read endpoint)) endpoints"
  have members: "Fulfilled (endpoint, w) \<in> set settled \<longleftrightarrow> endpoint \<in> set endpoints \<and> read endpoint = Fulfilled w"
    "Rejected reason \<in> set settled \<longleftrightarrow> (\<exists>endpoint \<in> set endpoints. read endpoint = Rejected reason)" for endpoint w reason
    unfolding settled_def set_map image_iff eq_commute [of "Fulfilled _"] eq_commute [of "Rejected _"] settled_map_eq by blast+
  have plain: "\<forall>endpoint v. Fulfilled (endpoint, v) \<in> set settled \<longrightarrow> plain_value v" using assms members by blast
  have answers: "fst ` set (fulfilled_values settled) = {endpoint \<in> set endpoints. \<exists>w. read endpoint = Fulfilled w}"
    by (auto simp: set_fulfilled_values members image_iff)
  have same: "(\<forall>(endpoint, w) \<in> set (fulfilled_values settled). same_value v w) \<longleftrightarrow>
      (\<forall>endpoint \<in> set endpoints. \<forall>w. read endpoint = Fulfilled w \<longrightarrow> same_value v w)"
    by (auto simp: set_fulfilled_values members)
  have each: "(\<forall>endpoint \<in> set endpoints. case read endpoint of Fulfilled w \<Rightarrow> same_value v w
        | Rejected reason \<Rightarrow> failure_disposition world reason = Some ConnectivityDegraded) \<longleftrightarrow>
      (\<forall>endpoint \<in> set endpoints. \<forall>w. read endpoint = Fulfilled w \<longrightarrow> same_value v w) \<and>
      (\<forall>reason. Rejected reason \<in> set settled \<longrightarrow> failure_disposition world reason = Some ConnectivityDegraded)"
    by (auto simp: members split: settled.splits)
  have "readWithQuorum world label endpoints read requirement = settledQuorumValue world label settled requirement"
    by (simp add: readWithQuorum_def settled_def)
  also have "\<dots> = Some (Inr v) \<longleftrightarrow>
      (\<forall>reason. Rejected reason \<in> set settled \<longrightarrow> failure_disposition world reason = Some ConnectivityDegraded) \<and>
      requirement \<le> card {endpoint \<in> set endpoints. \<exists>w. read endpoint = Fulfilled w} \<and>
      (fulfilled_values settled \<noteq> [] \<and> v = snd (hd (fulfilled_values settled))) \<and>
      (\<forall>endpoint \<in> set endpoints. \<forall>w. read endpoint = Fulfilled w \<longrightarrow> same_value v w)"
    unfolding settled_quorum_iff [OF plain] answers same by simp
  also have "fulfilled_values settled \<noteq> [] \<and> v = snd (hd (fulfilled_values settled)) \<longleftrightarrow>
      (\<exists>endpoint. first_answering read endpoints = Some endpoint \<and> read endpoint = Fulfilled v)"
    by (rule first_answer) (simp only: settled_def fulfilled_of_reads)
  finally show ?thesis unfolding each by blast
qed

definition sample_answers :: "string \<Rightarrow> js_value settled" where
  "sample_answers endpoint =
     (if endpoint = ''a'' then Rejected (NewError ''fetch failed'' None)
      else if endpoint = ''b'' then Fulfilled (ObjectValue [(''hash'', TextValue ''0x1''), (''number'', BigintValue 7)])
      else Fulfilled (ObjectValue [(''number'', BigintValue 7), (''hash'', TextValue ''0x1'')]))"

definition empty_world :: error_world where
  "empty_world = \<lparr>ew_objects = [], ew_String = (\<lambda>_. '''')\<rparr>"

theorem quorum_read_iff_witness:
  "readWithQuorum empty_world ''head'' [''a'', ''b'', ''c''] sample_answers 2 =
     Some (Inr (ObjectValue [(''hash'', TextValue ''0x1''), (''number'', BigintValue 7)]))"
proof -
  have plain: "\<forall>endpoint v. sample_answers endpoint = Fulfilled v \<longrightarrow> plain_value v"
    by (auto simp: sample_answers_def split: if_splits)
  have answered: "{endpoint \<in> set [''a'', ''b'', ''c'']. \<exists>w. sample_answers endpoint = Fulfilled w} = {''b'', ''c''}"
    by (auto simp: sample_answers_def)
  have degraded: "degraded_text ''Error'' ''fetch failed''" by code_simp
  show ?thesis
    unfolding quorum_read_iff [OF plain] answered
    by (intro conjI exI [of _ "''b''"]) (simp_all add: sample_answers_def first_answering_def degraded)
qed

end
