(* ===== verification/Canonical_Finality.thy ===== *)
theory Canonical_Finality
  imports Read_Quorum
begin

text \<open>
  When a receipt counts as final: \<open>bots/shared/src/execution/canonical-finality.ts\<close>. A reader of
  blocks is the settled answers it gives: the head it reports and the hash of each block; a block
  without a hash is \<open>None\<close>. No block number is asked for twice, so an answer is a function of it.
\<close>

record CanonicalBlockReader =
  br_getBlock :: "int \<Rightarrow> string option settled"
  br_getBlockNumber :: "int settled"

text \<open>What one reader says of the block of the receipt and of the block that confirms it.\<close>

definition reader_ancestry :: "string \<Rightarrow> int \<Rightarrow> int \<Rightarrow> CanonicalBlockReader \<Rightarrow> (string \<times> string) settled" where
  "reader_ancestry label finalityBlockNumber receiptBlockNumber reader =
     (case br_getBlock reader finalityBlockNumber of
        Rejected reason \<Rightarrow> Rejected reason
      | Fulfilled None \<Rightarrow> Rejected (NewError (label @ '' finality descendant is unavailable'') None)
      | Fulfilled (Some descendantHash) \<Rightarrow>
          (case br_getBlock reader receiptBlockNumber of
             Rejected reason \<Rightarrow> Rejected reason
           | Fulfilled None \<Rightarrow> Rejected (NewError (label @ '' receipt block is missing its canonical hash'') None)
           | Fulfilled (Some receiptBlockHash) \<Rightarrow> Fulfilled (descendantHash, receiptBlockHash)))"

definition ancestry_value :: "string \<times> string \<Rightarrow> js_value" where
  "ancestry_value = (\<lambda>(descendantHash, receiptBlockHash).
     ObjectValue [(''descendantHash'', TextValue descendantHash), (''receiptBlockHash'', TextValue receiptBlockHash)])"

definition receipt_hash_of :: "js_value \<Rightarrow> string" where
  "receipt_hash_of ancestry = (case ancestry of
     ObjectValue [_, (_, TextValue receiptBlockHash)] \<Rightarrow> receiptBlockHash | _ \<Rightarrow> [])"

definition confirmCanonicalReceiptFinality ::
  "error_world \<Rightarrow> CanonicalBlockReader list \<Rightarrow> string list \<Rightarrow> string \<Rightarrow> string \<Rightarrow> int \<Rightarrow> int \<Rightarrow> int option \<Rightarrow> nat \<Rightarrow> bool quorum_result" where
  "confirmCanonicalReceiptFinality world readers endpoints label receiptBlockHash receiptBlockNumber confirmationBlocks knownMinimumHead requirement =
     (if length readers \<noteq> length endpoints then own_result (throw (label @ '' block readers and endpoints differ''))
      else if length readers < requirement
      then own_result (throw (label @ '' requires at least '' @ (if requirement = 1 then ''one block reader'' else ''two independent block readers'')))
      else if confirmationBlocks < 1 then own_result (throw (label @ '' confirmation depth must be positive''))
      else
        let finalityBlockNumber = receiptBlockNumber + confirmationBlocks in
        bindQ (case knownMinimumHead of
            None \<Rightarrow>
              bindQ (availableSettledValues world (map br_getBlockNumber readers)) (\<lambda>heads.
                if length heads < requirement
                then Some (Inl (ConnectivityDegradedError (label @ '' finality head requires at least '' @
                  (if requirement = 1 then ''one available RPC endpoint'' else ''two available independent RPC endpoints''))))
                else Some (Inr (\<not> list_ex (\<lambda>head. head < finalityBlockNumber) heads)))
          | Some head \<Rightarrow> Some (Inr (\<not> head < finalityBlockNumber))) (\<lambda>reached.
        if \<not> reached then Some (Inr False)
        else
          bindQ (settledQuorumValue world (label @ '' finality ancestry'')
              (map (\<lambda>(reader, endpoint). settled_map (\<lambda>answer. (endpoint, ancestry_value answer))
                 (reader_ancestry label finalityBlockNumber receiptBlockNumber reader)) (zip readers endpoints)) requirement) (\<lambda>ancestry.
            if toLowerCase (receipt_hash_of ancestry) \<noteq> toLowerCase receiptBlockHash
            then own_result (throw (label @ '' receipt is no longer canonical''))
            else Some (Inr True))))"

section \<open>What a confirmed receipt has behind it\<close>

lemma plain_ancestry [simp]: "plain_value (ancestry_value answer)"
  by (simp add: ancestry_value_def split: prod.splits)

lemma same_ancestry [simp]: "same_value (ancestry_value x) (ancestry_value y) \<longleftrightarrow> x = y"
  by (auto simp: ancestry_value_def split: prod.splits)

lemma receipt_hash_of_ancestry [simp]: "receipt_hash_of (ancestry_value x) = snd x"
  by (simp add: receipt_hash_of_def ancestry_value_def split: prod.splits)

lemma reader_ancestry_Fulfilled:
  "reader_ancestry label finality number reader = Fulfilled (descendant, hash) \<longleftrightarrow>
     br_getBlock reader finality = Fulfilled (Some descendant) \<and> br_getBlock reader number = Fulfilled (Some hash)"
  by (auto simp: reader_ancestry_def split: settled.splits option.splits)

text \<open>
  C8: A receipt is confirmed only when at least the required number of different endpoints gave its hash
  for its block and one and the same hash for the block that many confirmations above it; when any endpoint
  that answered otherwise is none but those that failed by connectivity; and when no known head is below
  the confirming block.
\<close>

theorem confirmed_receipt_is_final:
  assumes "confirmCanonicalReceiptFinality world readers endpoints label receiptHash number confirmations known requirement = Some (Inr True)"
  shows "\<exists>descendant hash. sameText hash receiptHash \<and>
    (let agree = {i. i < length readers \<and> br_getBlock (readers ! i) (number + confirmations) = Fulfilled (Some descendant) \<and>
                   br_getBlock (readers ! i) number = Fulfilled (Some hash)} in
     requirement \<le> card ((!) endpoints ` agree) \<and>
     (\<forall>i < length readers. i \<in> agree \<or> (\<exists>reason. reader_ancestry label (number + confirmations) number (readers ! i) = Rejected reason \<and>
        failure_disposition world reason = Some ConnectivityDegraded))) \<and>
    0 < confirmations \<and>
    (case known of
       Some head \<Rightarrow> number + confirmations \<le> head
     | None \<Rightarrow> \<forall>i < length readers. (case br_getBlockNumber (readers ! i) of
         Fulfilled head \<Rightarrow> number + confirmations \<le> head
       | Rejected reason \<Rightarrow> failure_disposition world reason = Some ConnectivityDegraded))"
proof -
  let ?finality = "number + confirmations"
  let ?ancestry = "reader_ancestry label ?finality number"
  define settled where "settled = map (\<lambda>(reader, endpoint). settled_map (\<lambda>answer. (endpoint, ancestry_value answer)) (?ancestry reader)) (zip readers endpoints)"
  from assms have lengths: "length readers = length endpoints" and positive: "0 < confirmations"
    by (auto simp: confirmCanonicalReceiptFinality_def own_result_def split: if_splits)
  from assms lengths positive obtain v where head: "(case known of
       Some head \<Rightarrow> ?finality \<le> head
     | None \<Rightarrow> (\<exists>heads. availableSettledValues world (map br_getBlockNumber readers) = Some (Inr heads) \<and> list_all (\<lambda>head. ?finality \<le> head) heads))"
    and quorum: "settledQuorumValue world (label @ '' finality ancestry'') settled requirement = Some (Inr v)"
    and hash: "toLowerCase (receipt_hash_of v) = toLowerCase receiptHash"
    by (auto simp: confirmCanonicalReceiptFinality_def Let_def bindQ_eq_Some_Inr own_result_def settled_def list_all_iff list_ex_iff not_less
        split: if_splits option.splits)
  have at: "(\<exists>i < length readers. x = settled_map (\<lambda>answer. (endpoints ! i, ancestry_value answer)) (?ancestry (readers ! i))) \<longleftrightarrow> x \<in> set settled" for x
    using lengths by (auto simp: settled_def set_zip image_iff)
  have members: "Fulfilled (endpoint, w) \<in> set settled \<longleftrightarrow>
      (\<exists>i < length readers. \<exists>answer. ?ancestry (readers ! i) = Fulfilled answer \<and> endpoint = endpoints ! i \<and> w = ancestry_value answer)"
    "Rejected reason \<in> set settled \<longleftrightarrow> (\<exists>i < length readers. ?ancestry (readers ! i) = Rejected reason)" for endpoint w reason
    unfolding at [symmetric] eq_commute [of "Fulfilled _"] eq_commute [of "Rejected _"] settled_map_eq by blast+
  have plain: "\<forall>endpoint v. Fulfilled (endpoint, v) \<in> set settled \<longrightarrow> plain_value v" using members by auto
  from quorum [unfolded settled_quorum_iff [OF plain]]
  have rejected: "\<forall>reason. Rejected reason \<in> set settled \<longrightarrow> failure_disposition world reason = Some ConnectivityDegraded"
    and enough: "requirement \<le> card (fst ` set (fulfilled_values settled))"
    and first: "fulfilled_values settled \<noteq> []" "v = snd (hd (fulfilled_values settled))"
    and same: "\<forall>(endpoint, w) \<in> set (fulfilled_values settled). same_value v w" by auto
  have "hd (fulfilled_values settled) \<in> set (fulfilled_values settled)" using first(1) by simp
  with first(2) obtain e where "Fulfilled (e, v) \<in> set settled" by (metis mem_Collect_eq prod.collapse set_fulfilled_values)
  then obtain descendant h where v: "v = ancestry_value (descendant, h)" using members by auto
  define agree where "agree = {i. i < length readers \<and> br_getBlock (readers ! i) ?finality = Fulfilled (Some descendant) \<and>
      br_getBlock (readers ! i) number = Fulfilled (Some h)}"
  have answer: "i \<in> agree" if "i < length readers" "?ancestry (readers ! i) = Fulfilled answer" for i answer
  proof -
    from that members have "(endpoints ! i, ancestry_value answer) \<in> set (fulfilled_values settled)"
      unfolding set_fulfilled_values by blast
    with same v have "answer = (descendant, h)" by auto
    with that show ?thesis by (simp add: agree_def reader_ancestry_Fulfilled)
  qed
  have "fst ` set (fulfilled_values settled) \<subseteq> (!) endpoints ` agree"
    using answer by (auto simp: set_fulfilled_values members)
  moreover have "finite ((!) endpoints ` agree)" by (simp add: agree_def)
  ultimately have "requirement \<le> card ((!) endpoints ` agree)"
    using enough card_mono le_trans by metis
  moreover have "i \<in> agree \<or> (\<exists>reason. ?ancestry (readers ! i) = Rejected reason \<and> failure_disposition world reason = Some ConnectivityDegraded)"
    if "i < length readers" for i
    using answer [OF that] rejected members that by (cases "?ancestry (readers ! i)") blast+
  moreover have "sameText h receiptHash" using hash v by (simp add: sameText_def)
  moreover have "(case known of
       Some head \<Rightarrow> ?finality \<le> head
     | None \<Rightarrow> \<forall>i < length readers. (case br_getBlockNumber (readers ! i) of
         Fulfilled head \<Rightarrow> ?finality \<le> head
       | Rejected reason \<Rightarrow> failure_disposition world reason = Some ConnectivityDegraded))"
    using head by (auto simp: available_values_iff set_fulfilled_values list_all_iff image_iff split: option.splits settled.splits)
      (metis nth_mem)+
  ultimately show ?thesis using positive unfolding agree_def Let_def by blast
qed

definition sample_reader :: CanonicalBlockReader where
  "sample_reader = \<lparr>br_getBlock = (\<lambda>number. Fulfilled (Some (if number = 100 then ''0xAB'' else ''0xCD''))), br_getBlockNumber = Fulfilled 113\<rparr>"

definition failing_reader :: CanonicalBlockReader where
  "failing_reader = \<lparr>br_getBlock = (\<lambda>_. Rejected (NewError ''fetch failed'' None)), br_getBlockNumber = Rejected (EndpointPoolFailure [])\<rparr>"

lemma sample_hash: "toLowerCase ''0xAB'' = ''0xab''" "toLowerCase ''0xab'' = ''0xab''" "degraded_text ''Error'' ''fetch failed''"
  by code_simp+

lemma sample_confirmed:
  "confirmCanonicalReceiptFinality empty_world [sample_reader, failing_reader, sample_reader] [''a'', ''b'', ''c''] ''receipt'' ''0xab'' 100 12 None 2
     = Some (Inr True)"
  by (simp add: confirmCanonicalReceiptFinality_def availableSettledValues_def fulfilled_values_def bindQ_def settledQuorumValue_def
      quorumValue_def ancestry_value_def reader_ancestry_def settled_map_def sample_reader_def failing_reader_def own_result_def
      receipt_hash_of_def sample_hash)

theorem confirmed_receipt_is_final_witness:
  "\<exists>descendant hash. sameText hash ''0xab'' \<and>
     2 \<le> card ((!) [''a'', ''b'', ''c''] ` {i. i < length [sample_reader, failing_reader, sample_reader] \<and>
       br_getBlock ([sample_reader, failing_reader, sample_reader] ! i) (100 + 12) = Fulfilled (Some descendant) \<and>
       br_getBlock ([sample_reader, failing_reader, sample_reader] ! i) 100 = Fulfilled (Some hash)})"
  using confirmed_receipt_is_final [OF sample_confirmed] unfolding Let_def by blast

end
