(* ===== verification/Polling.thy ===== *)
theory Polling
  imports Rpc_Pool_Runs
begin

text \<open>
  The polling of the bots: \<open>bestSuccessful\<close>, \<open>retryDelayMilliseconds\<close> and
  \<open>pollUntilStopped\<close> of \<open>bots/shared/src/monitoring/resilience.ts\<close>. An attempt
  or a poll that throws is the left of a sum; the polls to come are a list, and a loop that has used
  them up goes on.
\<close>

section \<open>The best attempt\<close>

text \<open>The best value so far, with the errors that were reported, in order.\<close>

fun best_loop :: "('a \<Rightarrow> int) \<Rightarrow> ('e + 'a) list \<Rightarrow> 'a option \<Rightarrow> 'e list \<Rightarrow> 'a option \<times> 'e list" where
  "best_loop score [] best errors = (best, errors)"
| "best_loop score (Inl error # attempts) best errors = best_loop score attempts best (errors @ [error])"
| "best_loop score (Inr answer # attempts) best errors =
     best_loop score attempts
       (case best of None \<Rightarrow> Some answer | Some current \<Rightarrow> if score answer > score current then Some answer else best) errors"

definition bestSuccessful :: "('e + 'a) list \<Rightarrow> ('a \<Rightarrow> int) \<Rightarrow> 'a option \<times> 'e list" where
  "bestSuccessful attempts score = best_loop score attempts None []"

section \<open>The delay of a retry\<close>

definition retryDelayMilliseconds :: "int \<Rightarrow> int \<Rightarrow> rat \<Rightarrow> int result" where
  "retryDelayMilliseconds baseMilliseconds consecutiveFailures random =
     (if baseMilliseconds > MAX_SAFE_INTEGER \<or> baseMilliseconds < 1 then throw ''Retry base delay must be a positive integer''
      else if consecutiveFailures > MAX_SAFE_INTEGER \<or> consecutiveFailures < 0
      then throw ''Consecutive failures must be a non-negative integer''
      else if consecutiveFailures = 0 then ok baseMilliseconds
      else
        let exponential = min 300000 (baseMilliseconds * 2 ^ nat (min (consecutiveFailures - 1) 20))
        in ok (min 300000 (math_round (of_int exponential * (1 + max 0 (min 1 random) * (1 / 5))))))"

section \<open>The loop\<close>

datatype PollResult = PollStop | PollGoOn | PollDeferred

text \<open>The state of the loop: the failures in a row, what was waited for, and the errors reported.\<close>

record 'e poll_state =
  po_consecutiveFailures :: int
  po_waits :: "int list"
  po_errors :: "'e list"

datatype 'e poll_end = Returned | Threw 'e | Continues

fun pollUntilStopped :: "bool \<Rightarrow> ('e + PollResult) list \<Rightarrow> 'e poll_state \<Rightarrow> 'e poll_state \<times> 'e poll_end" where
  "pollUntilStopped once [] state = (state, Continues)"
| "pollUntilStopped once (Inr result # polls) state =
     (if result = PollStop then (state, Returned)
      else
        let failures = (if result = PollGoOn then 0 else po_consecutiveFailures state)
        in pollUntilStopped once polls (state\<lparr>po_consecutiveFailures := failures, po_waits := po_waits state @ [failures]\<rparr>))"
| "pollUntilStopped once (Inl error # polls) state =
     (if once then (state, Threw error)
      else
        let failures = po_consecutiveFailures state + 1
        in pollUntilStopped once polls (state\<lparr>po_consecutiveFailures := failures, po_waits := po_waits state @ [failures],
             po_errors := po_errors state @ [error]\<rparr>))"

section \<open>Bounds\<close>

lemma best_loop_result:
  "best_loop score attempts best errors = (result, reported) \<Longrightarrow>
     reported = errors @ concat (map (\<lambda>attempt. case attempt of Inl e \<Rightarrow> [e] | Inr _ \<Rightarrow> []) attempts) \<and>
     (result = None \<longleftrightarrow> best = None \<and> (\<forall>a. Inr a \<notin> set attempts)) \<and>
     (\<forall>a. result = Some a \<longrightarrow> (best = Some a \<or> Inr a \<in> set attempts) \<and> (\<forall>b. best = Some b \<or> Inr b \<in> set attempts \<longrightarrow> score b \<le> score a))"
proof (induction score attempts best errors rule: best_loop.induct)
  case (3 score answer attempts best errors)
  define current where "current = (case best of None \<Rightarrow> answer | Some b \<Rightarrow> if score answer > score b then answer else b)"
  have better: "(case best of None \<Rightarrow> Some answer | Some b \<Rightarrow> if score answer > score b then Some answer else best) = Some current"
    by (simp add: current_def split: option.splits)
  have current: "current = answer \<or> best = Some current" "score answer \<le> score current" "\<And>b. best = Some b \<Longrightarrow> score b \<le> score current"
    by (auto simp: current_def split: option.splits)
  from "3.prems" have "best_loop score attempts (Some current) errors = (result, reported)" by (simp add: better)
  from "3.IH" [unfolded better, OF this] current show ?case by auto (metis order_trans)+
qed auto

text \<open>The best value is that of an attempt, and no attempt scores more; there is none only when every attempt fails.\<close>

lemma best_successful:
  assumes "bestSuccessful attempts score = (result, reported)"
  shows "(result = None \<longleftrightarrow> (\<forall>a. Inr a \<notin> set attempts)) \<and>
    (\<forall>a. result = Some a \<longrightarrow> Inr a \<in> set attempts \<and> (\<forall>b. Inr b \<in> set attempts \<longrightarrow> score b \<le> score a))"
  using best_loop_result [OF assms [unfolded bestSuccessful_def]] by auto

text \<open>After a failure the delay is at least the exponential one and at most five minutes.\<close>

lemma retry_delay_bounds:
  assumes "retryDelayMilliseconds base failures random = ok delay" and "0 < failures" "base \<le> 300000"
  shows "min 300000 (base * 2 ^ nat (min (failures - 1) 20)) \<le> delay \<and> delay \<le> 300000"
proof -
  from assms have "delay = jittered base 300000 failures random" and "1 \<le> base"
    by (auto simp: retryDelayMilliseconds_def jittered_def Let_def split: if_splits)
  with assms(3) show ?thesis
    using jittered_bounds [of "\<lparr>ps_timeoutMilliseconds = 0, ps_baseCooldownMilliseconds = base, ps_maximumCooldownMilliseconds = 300000\<rparr>" failures random]
    by (simp add: settings_ok_def cooldown_floor_def)
qed

end
