(* ===== verification/Fork_Migration.thy ===== *)
theory Fork_Migration
  imports Js_Map Liquidation
begin

text \<open>
  Forked universes and the migration of the bot's vaults: \<open>bots/liquidator/src/core/fork-migration.ts\<close>,
  the guards of \<open>executeVaultMigration\<close>, \<open>staged-operations.ts\<close> and the exposure limits of
  \<open>execution/liquidation-executor.ts\<close>. A universe identifier is a bigint; the maps of the code are
  keyed by its text, which is the identifier again. Fields that no modelled operation reads are left out.
\<close>

section \<open>Observations\<close>

record StagedOperationObservation =
  so_operationAmountAttoRepOrAttoEth :: int
  so_isPendingSettlement :: bool
  so_operation :: int
  so_operator :: string
  so_receiverVault :: string
  so_snapshotTotalRepBackingUnits :: int
  so_snapshotTargetOpenInterestAttoEth :: int
  so_snapshotTargetBackingUnits :: int
  so_snapshotTotalPoolHeldAttoRep :: int
  so_targetVault :: string

record UniverseObservation =
  un_id :: int
  un_outcomeIndex :: "int option"
  un_parentId :: "int option"

record PoolObservation =
  ob_address :: string
  ob_approvedUniverse :: bool
  ob_botVault :: VaultPosition
  ob_candidates :: "LiquidationCandidate list"
  ob_forkActivationTime :: int
  ob_isPriceValid :: bool
  ob_lastPrice :: int
  ob_manager :: string
  ob_minimumToken1ReportAttoEth :: int
  ob_minimumVaultRepDepositAttoRep :: int
  ob_multiplierBps :: int
  ob_parent :: string
  ob_pendingReportId :: int
  ob_pendingReportSponsor :: string
  ob_repToken :: string
  ob_requestPriceCostAttoEth :: int
  ob_selected :: bool
  ob_securityPoolForker :: string
  ob_stagedOperations :: "StagedOperationObservation list"
  ob_systemState :: int
  ob_universeId :: int

definition zero_address :: string where
  "zero_address = ''0x0000000000000000000000000000000000000000''"

section \<open>Eligible pools\<close>

definition FORK_MIGRATION_WINDOW_SECONDS :: int where "FORK_MIGRATION_WINDOW_SECONDS = 8 * 7 * 24 * 60 * 60"

definition hasVaultPosition :: "PoolObservation \<Rightarrow> bool" where
  "hasVaultPosition pool \<longleftrightarrow> vp_backingUnits (ob_botVault pool) > 0 \<or> vp_openInterestAttoEth (ob_botVault pool) > 0"

definition hasBotStagedOperation :: "PoolObservation \<Rightarrow> bool" where
  "hasBotStagedOperation pool \<longleftrightarrow>
     (let vault = toLowerCase (vp_address (ob_botVault pool)) in
      list_ex (\<lambda>operation. toLowerCase (so_operator operation) = vault \<or> toLowerCase (so_receiverVault operation) = vault \<or>
        toLowerCase (so_targetVault operation) = vault) (ob_stagedOperations pool))"

definition isPoolExecutionEligible :: "PoolObservation \<Rightarrow> bool" where
  "isPoolExecutionEligible pool \<longleftrightarrow> ob_selected pool \<and> ob_approvedUniverse pool \<and> ob_systemState pool = 0"

definition isVaultMigrationSourceEligible :: "PoolObservation \<Rightarrow> int \<Rightarrow> bool" where
  "isVaultMigrationSourceEligible pool currentTimestamp \<longleftrightarrow>
     (if \<not> ob_selected pool \<or> ob_systemState pool \<noteq> 1 \<or> \<not> hasVaultPosition pool \<or> hasBotStagedOperation pool \<or> ob_forkActivationTime pool = 0
      then False
      else currentTimestamp \<le> ob_forkActivationTime pool + FORK_MIGRATION_WINDOW_SECONDS)"

definition inheritedChildPoolSelections :: "PoolObservation list \<Rightarrow> string list \<Rightarrow> PoolObservation list" where
  "inheritedChildPoolSelections pools selectedPools =
     (let selectedAddresses = set (map toLowerCase selectedPools) in
      filter (\<lambda>pool.
        if \<not> ob_approvedUniverse pool \<or> ob_parent pool = zero_address \<or> toLowerCase (ob_address pool) \<in> selectedAddresses then False
        else case List.find (\<lambda>candidate. toLowerCase (ob_address candidate) = toLowerCase (ob_parent pool)) pools of
            None \<Rightarrow> False
          | Some parent \<Rightarrow> ob_selected parent) pools)"

section \<open>The selection of universes\<close>

text \<open>\<open>universesById\<close>: a later universe replaces an earlier one with its identifier.\<close>

definition universe_by_id :: "UniverseObservation list \<Rightarrow> int \<Rightarrow> UniverseObservation option" where
  "universe_by_id universes = map_of (rev (map (\<lambda>universe. (un_id universe, universe)) universes))"

lemma universe_by_id_id: "universe_by_id universes i = Some universe \<Longrightarrow> un_id universe = i \<and> universe \<in> set universes"
  by (auto simp: universe_by_id_def dest!: map_of_SomeD)

text \<open>
  The walk from an approved universe to its root, which records the child chosen of every parent. The
  universe it stands at is the one of the identifier.
\<close>

function lineage_loop :: "UniverseObservation list \<Rightarrow> int \<Rightarrow> int list \<Rightarrow> (int \<times> int) list \<Rightarrow> (int \<times> int) list result" where
  "lineage_loop universes childId visited childChoiceByParent =
     (case universe_by_id universes childId of
        None \<Rightarrow> ok childChoiceByParent
      | Some child \<Rightarrow> (case un_parentId child of
          None \<Rightarrow> ok childChoiceByParent
        | Some parentId \<Rightarrow>
            if childId \<in> set visited
            then throw (''Universe '' @ bigint_to_string childId @ '' has a cyclic parent lineage'')
            else if (case map_of childChoiceByParent parentId of None \<Rightarrow> False | Some selectedChild \<Rightarrow> selectedChild \<noteq> childId)
            then throw (''Select only one truthful child of universe '' @ bigint_to_string parentId)
            else if universe_by_id universes parentId = None
            then throw (''Universe '' @ bigint_to_string childId @ '' references unknown parent universe '' @ bigint_to_string parentId)
            else lineage_loop universes parentId (childId # visited) (AList.update parentId childId childChoiceByParent)))"
  by pat_completeness auto
termination
proof (relation "measure (\<lambda>(universes, childId, visited, choices). card (un_id ` set universes - set visited))", goal_cases)
  case 1
  show ?case by simp
next
  case (2 universes childId visited choices child parentId)
  then have "childId \<in> un_id ` set universes" using universe_by_id_id by blast
  with 2 have "un_id ` set universes - set (childId # visited) \<subset> un_id ` set universes - set visited" by auto
  then have "card (un_id ` set universes - set (childId # visited)) < card (un_id ` set universes - set visited)"
    by (intro psubset_card_mono) simp_all
  then show ?case by simp
qed

declare lineage_loop.simps [simp del]

fun lineages_loop :: "UniverseObservation list \<Rightarrow> int list \<Rightarrow> (int \<times> int) list \<Rightarrow> (int \<times> int) list result" where
  "lineages_loop universes [] childChoiceByParent = ok childChoiceByParent"
| "lineages_loop universes (approvedId # rest) childChoiceByParent =
     bindR (lineage_loop universes approvedId [] childChoiceByParent) (lineages_loop universes rest)"

definition validateApprovedUniverseSelection :: "UniverseObservation list \<Rightarrow> int list \<Rightarrow> unit result" where
  "validateApprovedUniverseSelection universes approvedUniverses =
     (case List.find (\<lambda>universe. universe_by_id universes universe = None) approvedUniverses of
        Some unknown \<Rightarrow> throw (''Universe '' @ bigint_to_string unknown @ '' is not present in the Zoltar universe tree'')
      | None \<Rightarrow> bindR (lineages_loop universes approvedUniverses []) (\<lambda>_. ok ()))"

section \<open>The migration\<close>

record VaultMigration =
  vm_childPool :: "PoolObservation option"
  vm_childUniverse :: UniverseObservation
  vm_deadline :: int
  vm_outcomeIndex :: int
  vm_parent :: PoolObservation

fun migration_loop ::
  "PoolObservation list \<Rightarrow> UniverseObservation list \<Rightarrow> int list \<Rightarrow> int \<Rightarrow> PoolObservation list \<Rightarrow> VaultMigration option result" where
  "migration_loop pools universes approvedUniverses currentTimestamp [] = ok None"
| "migration_loop pools universes approvedUniverses currentTimestamp (parent # rest) =
     (if \<not> isVaultMigrationSourceEligible parent currentTimestamp
      then migration_loop pools universes approvedUniverses currentTimestamp rest
      else case filter (\<lambda>universe. un_parentId universe = Some (ob_universeId parent) \<and> un_id universe \<in> set approvedUniverses) universes of
          [] \<Rightarrow> migration_loop pools universes approvedUniverses currentTimestamp rest
        | childUniverse # _ \<Rightarrow> (case un_outcomeIndex childUniverse of
            None \<Rightarrow> migration_loop pools universes approvedUniverses currentTimestamp rest
          | Some outcomeIndex \<Rightarrow>
              let childPool = List.find (\<lambda>pool. toLowerCase (ob_parent pool) = toLowerCase (ob_address parent) \<and>
                    ob_universeId pool = un_id childUniverse) pools
              in if (case childPool of None \<Rightarrow> False
                     | Some pool \<Rightarrow> toLowerCase (ob_securityPoolForker pool) \<noteq> toLowerCase (ob_securityPoolForker parent))
                 then throw (''Forker mismatch between parent pool '' @ ob_address parent @ '' and child pool '' @ ob_address (the childPool))
                 else ok (Some \<lparr>vm_childPool = childPool, vm_childUniverse = childUniverse,
                   vm_deadline = ob_forkActivationTime parent + FORK_MIGRATION_WINDOW_SECONDS,
                   vm_outcomeIndex = outcomeIndex, vm_parent = parent\<rparr>)))"

definition selectVaultMigration ::
  "PoolObservation list \<Rightarrow> UniverseObservation list \<Rightarrow> int list \<Rightarrow> StrategySettings \<Rightarrow> int \<Rightarrow> VaultMigration option result" where
  "selectVaultMigration pools universes approvedUniverses strategy currentTimestamp =
     (if \<not> ss_allowAutomaticVaultMigrations strategy then ok None
      else bindR (validateApprovedUniverseSelection universes approvedUniverses) (\<lambda>_.
        migration_loop pools universes approvedUniverses currentTimestamp pools))"

text \<open>The checks \<open>executeVaultMigration\<close> makes before it submits.\<close>

definition vault_migration_checks :: "int list \<Rightarrow> VaultMigration \<Rightarrow> unit result" where
  "vault_migration_checks approvedUniverses migration =
     (if ob_systemState (vm_parent migration) \<noteq> 1 then throw ''Vault migration parent is not forked''
      else if un_id (vm_childUniverse migration) \<notin> set approvedUniverses then throw ''Vault migration child universe is not approved''
      else if un_parentId (vm_childUniverse migration) \<noteq> Some (ob_universeId (vm_parent migration))
      then throw ''Vault migration child universe does not descend from the parent universe''
      else if (case vm_childPool migration of None \<Rightarrow> False
               | Some pool \<Rightarrow> toLowerCase (ob_parent pool) \<noteq> toLowerCase (ob_address (vm_parent migration)))
      then throw ''Vault migration child pool does not descend from the parent pool''
      else ok ())"

section \<open>Staged operations and exposure\<close>

definition hasStagedLiquidation :: "StagedOperationObservation list \<Rightarrow> string \<Rightarrow> string \<Rightarrow> bool" where
  "hasStagedLiquidation operations operator target \<longleftrightarrow>
     list_ex (\<lambda>operation. so_operation operation = 0 \<and> toLowerCase (so_operator operation) = toLowerCase operator \<and>
       toLowerCase (so_targetVault operation) = toLowerCase target) operations"

text \<open>What one staged liquidation may bring the receiver, at the buffered price.\<close>

definition reserved_of_operation :: "int \<Rightarrow> PoolObservation \<Rightarrow> StagedOperationObservation \<Rightarrow> int" where
  "reserved_of_operation bufferedPrice pool operation =
     (if so_operation operation \<noteq> 0 \<or> toLowerCase (so_receiverVault operation) \<noteq> toLowerCase (vp_address (ob_botVault pool)) then 0
      else
        let snapshotVaultRepBackingAttoRep =
              (if so_snapshotTotalRepBackingUnits operation = 0 then so_snapshotTargetBackingUnits operation sdiv PRICE_PRECISION
               else (so_snapshotTargetBackingUnits operation * so_snapshotTotalPoolHeldAttoRep operation) sdiv so_snapshotTotalRepBackingUnits operation);
            estimatedAttoRep =
              (so_operationAmountAttoRepOrAttoEth operation * bufferedPrice * (BPS_DENOMINATOR_bot + LIQUIDATION_REP_BONUS_BPS_bot) +
               PRICE_PRECISION * BPS_DENOMINATOR_bot - 1) sdiv (PRICE_PRECISION * BPS_DENOMINATOR_bot)
        in if so_isPendingSettlement operation \<or> so_operationAmountAttoRepOrAttoEth operation = so_snapshotTargetOpenInterestAttoEth operation
           then (if estimatedAttoRep > snapshotVaultRepBackingAttoRep then estimatedAttoRep else snapshotVaultRepBackingAttoRep)
           else (if estimatedAttoRep < snapshotVaultRepBackingAttoRep then estimatedAttoRep else snapshotVaultRepBackingAttoRep))"

definition reservedLiquidationRep :: "PoolObservation \<Rightarrow> StrategySettings \<Rightarrow> int" where
  "reservedLiquidationRep pool strategy =
     (let referencePrice = (if ob_lastPrice pool > 0 then ob_lastPrice pool else ss_fallbackRepPerEthPrice strategy);
          bufferedPrice = (referencePrice * ss_stalePriceFundingBufferBps strategy + BPS_DENOMINATOR_bot - 1) sdiv BPS_DENOMINATOR_bot
      in foldl (\<lambda>total operation. total + reserved_of_operation bufferedPrice pool operation) 0 (ob_stagedOperations pool))"

definition assertRepLimits :: "int \<Rightarrow> int \<Rightarrow> int \<Rightarrow> int \<Rightarrow> int \<Rightarrow> int \<Rightarrow> unit result" where
  "assertRepLimits acquiredAmountAttoRep currentPoolAttoRep currentTotalAttoRep depositAmountAttoRep maximumPoolAttoRep maximumTotalAttoRep =
     (if currentPoolAttoRep + depositAmountAttoRep + acquiredAmountAttoRep > maximumPoolAttoRep
      then throw ''REP deployment would exceed strategy.maximumAttoRepPerPool''
      else if currentTotalAttoRep + depositAmountAttoRep + acquiredAmountAttoRep > maximumTotalAttoRep
      then throw ''REP deployment would exceed strategy.maximumTotalDeployedRep''
      else ok ())"

definition assertRepExposureLimits ::
  "StrategySettings \<Rightarrow> PoolObservation list \<Rightarrow> PoolObservation \<Rightarrow> int \<Rightarrow> int \<Rightarrow> unit result" where
  "assertRepExposureLimits strategy pools pool depositAmountAttoRep acquiredAmountAttoRep =
     (let poolReservedAttoRep = reservedLiquidationRep pool strategy;
          totalDeployedAttoRep = foldl (\<lambda>total observedPool. total + vp_vaultAttoRepBacking (ob_botVault observedPool) +
            reservedLiquidationRep observedPool strategy) 0 pools
      in assertRepLimits acquiredAmountAttoRep (vp_vaultAttoRepBacking (ob_botVault pool) + poolReservedAttoRep) totalDeployedAttoRep
           depositAmountAttoRep (ss_maximumAttoRepPerPool strategy) (ss_maximumTotalDeployedRep strategy))"


section \<open>What a valid selection is\<close>

text \<open>A universe of the tree and its parent, and the root a lineage ends in.\<close>

definition child_of :: "UniverseObservation list \<Rightarrow> int \<Rightarrow> int \<Rightarrow> bool" where
  "child_of universes child parent \<longleftrightarrow> (\<exists>universe. universe_by_id universes child = Some universe \<and> un_parentId universe = Some parent)"

definition is_root :: "UniverseObservation list \<Rightarrow> int \<Rightarrow> bool" where
  "is_root universes root \<longleftrightarrow> (\<exists>universe. universe_by_id universes root = Some universe \<and> un_parentId universe = None)"

definition lineage :: "UniverseObservation list \<Rightarrow> int \<Rightarrow> int set" where
  "lineage universes universe = {ancestor. (child_of universes)\<^sup>*\<^sup>* universe ancestor}"

lemma child_of_unique: "child_of universes x p \<Longrightarrow> child_of universes x q \<Longrightarrow> p = q"
  by (auto simp: child_of_def)

lemma root_no_parent: "is_root universes x \<Longrightarrow> \<not> child_of universes x p"
  by (auto simp: is_root_def child_of_def)

lemma reaches_child: "child_of universes x p \<Longrightarrow> (child_of universes)\<^sup>*\<^sup>* x a \<longleftrightarrow> a = x \<or> (child_of universes)\<^sup>*\<^sup>* p a"
  by (metis child_of_unique converse_rtranclpE converse_rtranclp_into_rtranclp rtranclp.rtrancl_refl)

lemma reaches_root: "is_root universes x \<Longrightarrow> (child_of universes)\<^sup>*\<^sup>* x a \<longleftrightarrow> a = x"
  by (metis converse_rtranclpE root_no_parent rtranclp.rtrancl_refl)

lemma lineage_root [simp]: "is_root universes x \<Longrightarrow> lineage universes x = {x}"
  by (auto simp: lineage_def reaches_root)

lemma lineage_child: "child_of universes x p \<Longrightarrow> lineage universes x = insert x (lineage universes p)"
  by (auto simp: lineage_def reaches_child)

lemma lineage_self [simp]: "x \<in> lineage universes x"
  by (simp add: lineage_def)

lemma lineage_trans: "y \<in> lineage universes x \<Longrightarrow> z \<in> lineage universes y \<Longrightarrow> z \<in> lineage universes x"
  by (auto simp: lineage_def)

text \<open>The walk succeeds on a lineage with a root whose choices agree with those made before, and adds its own.\<close>

definition grounded :: "UniverseObservation list \<Rightarrow> int \<Rightarrow> bool" where
  "grounded universes x \<longleftrightarrow> (\<exists>root \<in> lineage universes x. is_root universes root)"

lemma grounded_child: "child_of universes x p \<Longrightarrow> grounded universes x \<longleftrightarrow> grounded universes p"
  by (auto simp: grounded_def lineage_child dest: root_no_parent)

lemma lineage_loop_root: "is_root universes x \<Longrightarrow> lineage_loop universes x visited choices = ok choices"
  by (subst lineage_loop.simps) (auto simp: is_root_def)

lemma lineage_loop_child:
  assumes "child_of universes x p"
  shows "lineage_loop universes x visited choices =
    (if x \<in> set visited then throw (''Universe '' @ bigint_to_string x @ '' has a cyclic parent lineage'')
     else if map_of choices p \<noteq> None \<and> map_of choices p \<noteq> Some x
     then throw (''Select only one truthful child of universe '' @ bigint_to_string p)
     else if universe_by_id universes p = None
     then throw (''Universe '' @ bigint_to_string x @ '' references unknown parent universe '' @ bigint_to_string p)
     else lineage_loop universes p (x # visited) (AList.update p x choices))"
  using assms by (subst lineage_loop.simps) (auto simp: child_of_def split: option.splits)

lemma known_cases:
  assumes "universe_by_id universes x \<noteq> None"
  obtains (root) "is_root universes x" | (child) p where "child_of universes x p"
proof -
  from assms obtain universe where "universe_by_id universes x = Some universe" by blast
  then show thesis using root child by (cases "un_parentId universe") (auto simp: is_root_def child_of_def)
qed

text \<open>The choices a walk adds are those of its lineage.\<close>

definition chosen :: "UniverseObservation list \<Rightarrow> int \<Rightarrow> int \<Rightarrow> int \<Rightarrow> bool" where
  "chosen universes x child parent \<longleftrightarrow> child \<in> lineage universes x \<and> child_of universes child parent"

lemma chosen_child: "child_of universes x p \<Longrightarrow> chosen universes x c q \<longleftrightarrow> c = x \<and> q = p \<or> chosen universes p c q"
  by (auto simp: chosen_def lineage_child dest: child_of_unique)

lemma chosen_root: "is_root universes x \<Longrightarrow> \<not> chosen universes x c q"
  by (auto simp: chosen_def dest: root_no_parent)

lemma lineage_loop_sound:
  assumes "universe_by_id universes x \<noteq> None" and "lineage_loop universes x visited choices = ok choices'"
  shows "grounded universes x \<and> map_of choices \<subseteq>\<^sub>m map_of choices' \<and> (\<forall>c q. chosen universes x c q \<longrightarrow> map_of choices' q = Some c)"
  using assms
proof (induction universes x visited choices arbitrary: choices' rule: lineage_loop.induct)
  case (1 universes x visited choices)
  from "1.prems"(1) show ?case
  proof (cases rule: known_cases)
    case root
    with "1.prems"(2) show ?thesis by (auto simp: lineage_loop_root chosen_root grounded_def)
  next
    case (child p)
    then obtain universe where universe: "universe_by_id universes x = Some universe" "un_parentId universe = Some p" by (auto simp: child_of_def)
    from "1.prems"(2) have parts: "x \<notin> set visited" "map_of choices p = None \<or> map_of choices p = Some x" "universe_by_id universes p \<noteq> None"
        "lineage_loop universes p (x # visited) (AList.update p x choices) = ok choices'"
      by (auto simp: lineage_loop_child [OF child] split: if_splits)
    have "grounded universes p \<and> map_of (AList.update p x choices) \<subseteq>\<^sub>m map_of choices' \<and> (\<forall>c q. chosen universes p c q \<longrightarrow> map_of choices' q = Some c)"
      using parts by (intro "1.IH" [OF universe]) (auto split: option.splits)
    moreover have "map_of choices \<subseteq>\<^sub>m map_of (AList.update p x choices)"
      using parts(2) by (auto simp: update_conv' map_le_def)
    moreover have "map_of (AList.update p x choices) p = Some x" by (simp add: update_conv')
    ultimately show ?thesis
      using grounded_child [OF child] chosen_child [OF child]
      by (auto dest: map_le_trans simp: map_le_def) (metis domIff option.discI)+
  qed
qed

lemma lineage_not_cyclic:
  assumes "grounded universes x" "child_of universes x p"
  shows "x \<notin> lineage universes p"
proof
  assume "x \<in> lineage universes p"
  then have reach: "(child_of universes)\<^sup>*\<^sup>* p x" by (simp add: lineage_def)
  have closed: "(child_of universes)\<^sup>*\<^sup>* p a \<Longrightarrow> (child_of universes)\<^sup>*\<^sup>* a x" for a
  proof (induction rule: rtranclp_induct)
    case base
    show ?case by (rule reach)
  next
    case (step a b)
    show ?case
    proof (cases "a = x")
      case True
      with step.hyps(2) assms(2) child_of_unique reach show ?thesis by metis
    next
      case False
      with step.IH step.hyps(2) show ?thesis using reaches_child by metis
    qed
  qed
  from assms grounded_child obtain root where "is_root universes root" "(child_of universes)\<^sup>*\<^sup>* p root"
    by (auto simp: grounded_def lineage_def)
  with closed have "(child_of universes)\<^sup>*\<^sup>* root x" by blast
  with \<open>is_root universes root\<close> have "x = root" using reaches_root by blast
  with \<open>is_root universes root\<close> assms(2) root_no_parent show False by blast
qed

lemma lineage_loop_complete:
  assumes "grounded universes x" and "set visited \<inter> lineage universes x = {}"
    and "\<And>c q d. chosen universes x c q \<Longrightarrow> map_of choices q = Some d \<Longrightarrow> d = c"
  shows "\<exists>choices'. lineage_loop universes x visited choices = ok choices' \<and>
    (\<forall>q d. map_of choices' q = Some d \<longrightarrow> map_of choices q = Some d \<or> chosen universes x d q)"
proof -
  from assms(1) obtain root where root: "is_root universes root" "(child_of universes)\<^sup>*\<^sup>* x root" by (auto simp: grounded_def lineage_def)
  from root(2) assms show ?thesis
  proof (induction arbitrary: visited choices rule: converse_rtranclp_induct)
    case base
    with root(1) show ?case by (auto simp: lineage_loop_root)
  next
    case (step x p)
    have "universe_by_id universes p \<noteq> None"
      using step.hyps(2) root(1) by (cases rule: converse_rtranclpE) (auto simp: is_root_def child_of_def)
    moreover have "x \<notin> set visited" using step.prems(2) by auto
    moreover have "map_of choices p = None \<or> map_of choices p = Some x"
      using step.prems(3) [of x p] chosen_child [OF step.hyps(1)] by (cases "map_of choices p") auto
    ultimately have loop: "lineage_loop universes x visited choices = lineage_loop universes p (x # visited) (AList.update p x choices)"
      by (auto simp: lineage_loop_child [OF step.hyps(1)])
    have acyclic: "x \<notin> lineage universes p" by (rule lineage_not_cyclic [OF step.prems(1) step.hyps(1)])
    have "\<exists>choices'. lineage_loop universes p (x # visited) (AList.update p x choices) = ok choices' \<and>
        (\<forall>q d. map_of choices' q = Some d \<longrightarrow> map_of (AList.update p x choices) q = Some d \<or> chosen universes p d q)"
    proof (rule step.IH)
      show "grounded universes p" using step.prems(1) grounded_child [OF step.hyps(1)] by simp
      show "set (x # visited) \<inter> lineage universes p = {}" using acyclic step.prems(2) lineage_child [OF step.hyps(1)] by auto
      show "d = c" if chosen: "chosen universes p c q" and "map_of (AList.update p x choices) q = Some d" for c q d
      proof (cases "q = p")
        case True
        then have "child_of universes c p" "c \<in> lineage universes p" using chosen by (auto simp: chosen_def)
        moreover from this have "p \<in> lineage universes p" "grounded universes c"
          using step.prems(1) grounded_child [OF step.hyps(1)] grounded_child by auto
        ultimately have False using lineage_not_cyclic by blast
        then show ?thesis ..
      next
        case False
        with that step.prems(3) [of c q d] chosen_child [OF step.hyps(1)] show ?thesis by (simp add: update_conv')
      qed
    qed
    with loop chosen_child [OF step.hyps(1)] show ?case by (auto simp: update_conv' split: if_splits)
  qed
qed

lemma lineages_loop_sound:
  assumes "\<forall>a \<in> set approved. universe_by_id universes a \<noteq> None" and "lineages_loop universes approved choices = ok choices'"
  shows "(\<forall>a \<in> set approved. grounded universes a) \<and> map_of choices \<subseteq>\<^sub>m map_of choices' \<and>
    (\<forall>a \<in> set approved. \<forall>c q. chosen universes a c q \<longrightarrow> map_of choices' q = Some c)"
  using assms
proof (induction approved arbitrary: choices)
  case (Cons a approved)
  then obtain between where first: "lineage_loop universes a [] choices = ok between" and rest: "lineages_loop universes approved between = ok choices'"
    by (auto simp: bindR_eq_Inr_iff)
  from Cons.prems(1) have "universe_by_id universes a \<noteq> None" by simp
  from lineage_loop_sound [OF this first] have walk: "grounded universes a" "map_of choices \<subseteq>\<^sub>m map_of between"
    "\<And>c q. chosen universes a c q \<Longrightarrow> map_of between q = Some c" by auto
  have later: "\<forall>a \<in> set approved. grounded universes a" "map_of between \<subseteq>\<^sub>m map_of choices'"
    "\<And>b c q. b \<in> set approved \<Longrightarrow> chosen universes b c q \<Longrightarrow> map_of choices' q = Some c"
    using Cons.IH [OF _ rest] Cons.prems(1) by auto
  have "map_of choices' q = Some c" if "chosen universes a c q" for c q
    using walk(3) [OF that] later(2) by (metis domI map_le_def)
  with walk(1,2) later show ?case by (auto intro: map_le_trans)
qed simp

lemma lineages_loop_complete:
  assumes "\<forall>a \<in> set approved. grounded universes a"
    and "\<And>q d. map_of choices q = Some d \<Longrightarrow> \<exists>b \<in> earlier. chosen universes b d q"
    and "\<And>a b c d q. a \<in> earlier \<union> set approved \<Longrightarrow> b \<in> earlier \<union> set approved \<Longrightarrow> chosen universes a c q \<Longrightarrow> chosen universes b d q \<Longrightarrow> c = d"
  shows "\<exists>choices'. lineages_loop universes approved choices = ok choices'"
  using assms
proof (induction approved arbitrary: choices earlier)
  case (Cons a approved)
  have "\<exists>between. lineage_loop universes a [] choices = ok between \<and>
      (\<forall>q d. map_of between q = Some d \<longrightarrow> map_of choices q = Some d \<or> chosen universes a d q)"
  proof (rule lineage_loop_complete)
    show "d = c" if "chosen universes a c q" "map_of choices q = Some d" for c q d
      using Cons.prems(2) [OF that(2)] Cons.prems(3) that(1) by (metis UnCI list.set_intros(1))
  qed (use Cons.prems(1) in simp_all)
  then obtain between where first: "lineage_loop universes a [] choices = ok between"
    and added: "\<And>q d. map_of between q = Some d \<Longrightarrow> map_of choices q = Some d \<or> chosen universes a d q" by blast
  have "\<exists>choices'. lineages_loop universes approved between = ok choices'"
  proof (rule Cons.IH [of _ "insert a earlier"])
    show "\<exists>b \<in> insert a earlier. chosen universes b d q" if "map_of between q = Some d" for q d
      using added [OF that] Cons.prems(2) by blast
    show "c = d" if "x \<in> insert a earlier \<union> set approved" "y \<in> insert a earlier \<union> set approved" "chosen universes x c q" "chosen universes y d q"
      for x y c d q using Cons.prems(3) [of x y c q d] that by auto
  qed (use Cons.prems(1) in simp)
  with first show ?case by simp
qed simp

lemma grounded_known: "grounded universes x \<Longrightarrow> universe_by_id universes x \<noteq> None"
proof -
  assume "grounded universes x"
  then obtain root where root: "is_root universes root" "(child_of universes)\<^sup>*\<^sup>* x root" by (auto simp: grounded_def lineage_def)
  from root(2) show ?thesis
    using root(1) by (cases rule: converse_rtranclpE) (auto simp: is_root_def child_of_def)
qed

definition single_child :: "UniverseObservation list \<Rightarrow> int list \<Rightarrow> bool" where
  "single_child universes approved \<longleftrightarrow>
     (\<forall>a \<in> set approved. \<forall>b \<in> set approved. \<forall>c \<in> lineage universes a. \<forall>d \<in> lineage universes b. \<forall>parent.
        child_of universes c parent \<and> child_of universes d parent \<longrightarrow> c = d)"

lemma validated_iff:
  "validateApprovedUniverseSelection universes approved = ok () \<longleftrightarrow>
     (\<forall>a \<in> set approved. grounded universes a) \<and> single_child universes approved"
proof
  assume ok: "validateApprovedUniverseSelection universes approved = ok ()"
  then have known: "\<forall>a \<in> set approved. universe_by_id universes a \<noteq> None"
    by (auto simp: validateApprovedUniverseSelection_def find_None_iff split: option.splits)
  from ok obtain choices' where "lineages_loop universes approved [] = ok choices'"
    by (auto simp: validateApprovedUniverseSelection_def bindR_eq_Inr_iff split: option.splits)
  from lineages_loop_sound [OF known this] have grounded: "\<forall>a \<in> set approved. grounded universes a"
    and final: "\<forall>a \<in> set approved. \<forall>c q. chosen universes a c q \<longrightarrow> map_of choices' q = Some c" by auto
  have "single_child universes approved"
    unfolding single_child_def
  proof (intro ballI allI impI)
    fix a b c d parent
    assume "a \<in> set approved" "b \<in> set approved" "c \<in> lineage universes a" "d \<in> lineage universes b"
      and "child_of universes c parent \<and> child_of universes d parent"
    with final have "map_of choices' parent = Some c" "map_of choices' parent = Some d" by (auto simp: chosen_def)
    then show "c = d" by simp
  qed
  with grounded show "(\<forall>a \<in> set approved. grounded universes a) \<and> single_child universes approved" by blast
next
  assume valid: "(\<forall>a \<in> set approved. grounded universes a) \<and> single_child universes approved"
  have "universe_by_id universes a \<noteq> None" if "grounded universes a" for a
    using that by (rule grounded_known)
  with valid have "List.find (\<lambda>a. universe_by_id universes a = None) approved = None" by (auto simp: find_None_iff)
  moreover have "c = d" if "a \<in> {} \<union> set approved" "b \<in> {} \<union> set approved" "chosen universes a c q" "chosen universes b d q" for a b c d q
    using valid that unfolding chosen_def single_child_def by blast
  then have "\<exists>choices'. lineages_loop universes approved [] = ok choices'"
    using valid by (intro lineages_loop_complete [where earlier = "{}"]) simp_all
  ultimately show "validateApprovedUniverseSelection universes approved = ok ()"
    by (auto simp: validateApprovedUniverseSelection_def)
qed

text \<open>Approved universes of one tree lie on one line of descent.\<close>

lemma single_child_linear:
  assumes "single_child universes approved" "a \<in> set approved" "b \<in> set approved" "z \<in> lineage universes a" "z \<in> lineage universes b"
  shows "a \<in> lineage universes b \<or> b \<in> lineage universes a"
proof -
  have "x \<in> lineage universes b \<or> b \<in> lineage universes x" if "(child_of universes)\<^sup>*\<^sup>* x z" "x \<in> lineage universes a" for x
    using that
  proof (induction rule: converse_rtranclp_induct)
    case base
    show ?case using assms(5) by simp
  next
    case (step x p)
    have "p \<in> lineage universes a" using step.hyps(1) step.prems by (auto simp: lineage_def)
    with step.IH consider "p \<in> lineage universes b" "p \<noteq> b" | "b \<in> lineage universes p" by (metis lineage_self)
    then show ?case
    proof cases
      case 1
      then obtain y where "y \<in> lineage universes b" "child_of universes y p"
        by (auto simp: lineage_def elim: rtranclp.cases)
      with assms(1-3) step.hyps(1) step.prems have "x = y" unfolding single_child_def by blast
      with \<open>y \<in> lineage universes b\<close> show ?thesis by simp
    next
      case 2
      with lineage_child [OF step.hyps(1)] show ?thesis by blast
    qed
  qed
  from this [of a] assms(4) show ?thesis by (simp add: lineage_def)
qed


section \<open>The migration that is selected\<close>

lemma migration_loop_result:
  assumes "migration_loop pools universes approved now candidates = ok (Some migration)"
  shows "vm_parent migration \<in> set candidates \<and> isVaultMigrationSourceEligible (vm_parent migration) now \<and>
    vm_deadline migration = ob_forkActivationTime (vm_parent migration) + FORK_MIGRATION_WINDOW_SECONDS \<and>
    vm_childUniverse migration \<in> set universes \<and> un_outcomeIndex (vm_childUniverse migration) = Some (vm_outcomeIndex migration) \<and>
    un_parentId (vm_childUniverse migration) = Some (ob_universeId (vm_parent migration)) \<and> un_id (vm_childUniverse migration) \<in> set approved \<and>
    (\<forall>pool. vm_childPool migration = Some pool \<longrightarrow> pool \<in> set pools \<and> toLowerCase (ob_parent pool) = toLowerCase (ob_address (vm_parent migration)) \<and>
       ob_universeId pool = un_id (vm_childUniverse migration) \<and>
       toLowerCase (ob_securityPoolForker pool) = toLowerCase (ob_securityPoolForker (vm_parent migration)))"
  using assms
proof (induction candidates)
  case (Cons parent rest)
  show ?case
  proof (cases "migration_loop pools universes approved now rest = ok (Some migration)")
    case True
    with Cons.IH show ?thesis by simp
  next
    case False
    with Cons.prems obtain childUniverse others outcome where
      eligible: "isVaultMigrationSourceEligible parent now"
      and children: "filter (\<lambda>universe. un_parentId universe = Some (ob_universeId parent) \<and> un_id universe \<in> set approved) universes = childUniverse # others"
      and outcome: "un_outcomeIndex childUniverse = Some outcome"
      by (auto split: if_splits list.splits option.splits)
    define childPool where "childPool = List.find (\<lambda>pool. toLowerCase (ob_parent pool) = toLowerCase (ob_address parent) \<and>
        ob_universeId pool = un_id childUniverse) pools"
    have forker: "\<not> (case childPool of None \<Rightarrow> False | Some pool \<Rightarrow> toLowerCase (ob_securityPoolForker pool) \<noteq> toLowerCase (ob_securityPoolForker parent))"
      and migration: "migration = \<lparr>vm_childPool = childPool, vm_childUniverse = childUniverse,
        vm_deadline = ob_forkActivationTime parent + FORK_MIGRATION_WINDOW_SECONDS, vm_outcomeIndex = outcome, vm_parent = parent\<rparr>"
      using Cons.prems eligible unfolding migration_loop.simps children list.case outcome option.case Let_def childPool_def [symmetric]
      by (auto split: if_splits)
    from children have "childUniverse \<in> set (filter (\<lambda>universe. un_parentId universe = Some (ob_universeId parent) \<and> un_id universe \<in> set approved) universes)"
      by (metis list.set_intros(1))
    then have child: "childUniverse \<in> set universes" "un_parentId childUniverse = Some (ob_universeId parent)" "un_id childUniverse \<in> set approved"
      by auto
    have "pool \<in> set pools \<and> toLowerCase (ob_parent pool) = toLowerCase (ob_address parent) \<and> ob_universeId pool = un_id childUniverse"
      if "childPool = Some pool" for pool
      using find_Some_in [OF that [unfolded childPool_def]] by simp
    with eligible forker migration child outcome show ?thesis by auto
  qed
qed simp

lemma universe_by_id_distinct:
  assumes "distinct (map un_id universes)" "universe \<in> set universes"
  shows "universe_by_id universes (un_id universe) = Some universe"
proof -
  have "distinct (map fst (rev (map (\<lambda>u. (un_id u, u)) universes)))" using assms(1) by (simp add: rev_map [symmetric] comp_def)
  then show ?thesis unfolding universe_by_id_def using assms(2) by (intro map_of_is_SomeI) auto
qed

text \<open>
  C40: A vault migration is selected only from a pool that may still migrate, into the only child universe
  the operator approved of the pool's universe: every approved universe that descends from the pool's
  universe is that child or descends from it. The later checks of the executor pass.
\<close>

theorem vault_migration_to_truthful_child:
  assumes "selectVaultMigration pools universes approved strategy now = ok (Some migration)" and "distinct (map un_id universes)"
  shows "vm_parent migration \<in> set pools \<and> isVaultMigrationSourceEligible (vm_parent migration) now \<and> now \<le> vm_deadline migration \<and>
    vault_migration_checks approved migration = ok () \<and>
    (\<forall>a \<in> set approved. \<forall>universe. universe \<in> lineage universes a \<and> child_of universes universe (ob_universeId (vm_parent migration)) \<longrightarrow>
       universe = un_id (vm_childUniverse migration)) \<and>
    (\<forall>a \<in> set approved. ob_universeId (vm_parent migration) \<in> lineage universes a \<longrightarrow>
       a = ob_universeId (vm_parent migration) \<or> un_id (vm_childUniverse migration) \<in> lineage universes a)"
proof -
  let ?parent = "ob_universeId (vm_parent migration)" and ?child = "un_id (vm_childUniverse migration)"
  from assms(1) have valid: "validateApprovedUniverseSelection universes approved = ok ()"
    and loop: "migration_loop pools universes approved now pools = ok (Some migration)"
    by (auto simp: selectVaultMigration_def bindR_eq_Inr_iff split: if_splits)
  note result = migration_loop_result [OF loop]
  from result have child: "child_of universes ?child ?parent"
    using universe_by_id_distinct [OF assms(2)] by (auto simp: child_of_def)
  have unique: "universe = ?child" if "a \<in> set approved" "universe \<in> lineage universes a" "child_of universes universe ?parent" for a universe
    using valid [unfolded validated_iff] result child that lineage_self unfolding single_child_def by blast
  have "?child \<in> lineage universes a" if "a \<in> set approved" "?parent \<in> lineage universes a" "a \<noteq> ?parent" for a
  proof -
    from that(2,3) obtain y where "y \<in> lineage universes a" "child_of universes y ?parent"
      by (auto simp: lineage_def elim: rtranclp.cases)
    with unique [OF that(1)] show ?thesis by blast
  qed
  moreover have "now \<le> vm_deadline migration" "ob_systemState (vm_parent migration) = 1"
    using result by (auto simp: isVaultMigrationSourceEligible_def split: if_splits)
  moreover from this result have "vault_migration_checks approved migration = ok ()"
    by (auto simp: vault_migration_checks_def split: option.splits)
  ultimately show ?thesis using result unique by blast
qed

definition sample_vault :: VaultPosition where
  "sample_vault = \<lparr>vp_address = ''0xb0'', vp_backingUnits = 5, vp_badDebtAttoEth = 0, vp_capacityOwnershipAttoRep = 0,
     vp_claimableFeesAttoEth = 0, vp_disputeStakedAttoRep = 0, vp_openInterestAttoEth = 0, vp_vaultAttoRepBacking = 5\<rparr>"

definition sample_forked_pool :: PoolObservation where
  "sample_forked_pool = \<lparr>ob_address = ''0xAA'', ob_approvedUniverse = True, ob_botVault = sample_vault, ob_candidates = [],
     ob_forkActivationTime = 1000, ob_isPriceValid = True, ob_lastPrice = 1, ob_manager = ''0xee'', ob_minimumToken1ReportAttoEth = 0,
     ob_minimumVaultRepDepositAttoRep = 0, ob_multiplierBps = 20000, ob_parent = zero_address, ob_pendingReportId = 0,
     ob_pendingReportSponsor = zero_address, ob_repToken = ''0xcc'', ob_requestPriceCostAttoEth = 0, ob_selected = True,
     ob_securityPoolForker = ''0xdd'', ob_stagedOperations = [], ob_systemState = 1, ob_universeId = 0\<rparr>"

definition sample_universes :: "UniverseObservation list" where
  "sample_universes = [\<lparr>un_id = 0, un_outcomeIndex = None, un_parentId = None\<rparr>, \<lparr>un_id = 1, un_outcomeIndex = Some 0, un_parentId = Some 0\<rparr>,
     \<lparr>un_id = 2, un_outcomeIndex = Some 1, un_parentId = Some 0\<rparr>]"

lemma sample_migration_selected:
  "(case selectVaultMigration [sample_forked_pool] sample_universes [0, 2] (sampleStrategy\<lparr>ss_allowAutomaticVaultMigrations := True\<rparr>) 2000 of
      Inr (Some migration) \<Rightarrow> True | _ \<Rightarrow> False)"
  by code_simp

theorem vault_migration_to_truthful_child_witness:
  "\<exists>migration. selectVaultMigration [sample_forked_pool] sample_universes [0, 2] (sampleStrategy\<lparr>ss_allowAutomaticVaultMigrations := True\<rparr>) 2000
      = ok (Some migration) \<and> isVaultMigrationSourceEligible (vm_parent migration) 2000 \<and>
     vault_migration_checks [0, 2] migration = ok ()"
proof -
  from sample_migration_selected obtain migration where migration: "selectVaultMigration [sample_forked_pool] sample_universes [0, 2]
      (sampleStrategy\<lparr>ss_allowAutomaticVaultMigrations := True\<rparr>) 2000 = ok (Some migration)"
    by (auto split: sum.splits option.splits)
  have "distinct (map un_id sample_universes)" by (simp add: sample_universes_def)
  from vault_migration_to_truthful_child [OF migration this] migration show ?thesis by blast
qed

end
