(* ===== verification/Receipts.thy ===== *)
theory Receipts
  imports Canonical_Finality
begin

text \<open>
  What the liquidator reads in a receipt: \<open>finalizedReceiptWithQuorum\<close> of
  \<open>bots/liquidator/src/execution/recovery.ts\<close>, \<open>receipt-validation.ts\<close> and \<open>core/staged-outcome.ts\<close>.
  The decoder of event logs is an argument; \<open>None\<close> is a log it throws on. An answer of an
  endpoint is the settled promise of \<open>getTransactionReceipt\<close>.
\<close>

section \<open>Receipts and events\<close>

record TransactionLog =
  xl_address :: string
  xl_data :: string
  xl_topics :: "string list"

datatype receipt_status = Success | Reverted

text \<open>The fields the code reads, and those it only compares.\<close>

record TransactionReceipt =
  rx_blockHash :: string
  rx_blockNumber :: int
  rx_logs :: "TransactionLog list"
  rx_status :: receipt_status
  rx_transactionHash :: string
  rx_others :: "(string \<times> js_value) list"

datatype coordinator_event =
  ExecutedStagedOperation (ev_operation: int) (ev_operationId: int) (ev_success: bool) (ev_errorMessage: string)
| StagedOperationQueued (ev_isPendingSlot: bool) (ev_operation: int) (ev_operationAmount: int) (ev_operationId: int)
    (ev_operator: string) (ev_targetVault: string)
| LiquidationRouteStaged (ev_operationId: int) (ev_operator: string) (ev_receiverVault: string) (ev_requestedDebt: int) (ev_targetVault: string)
| PendingOperationRecoveryConsumed (ev_operation: int) (ev_operationId: int)
| OtherEvent

type_synonym event_decoder = "TransactionLog \<Rightarrow> coordinator_event option"

section \<open>What a receipt must show\<close>

datatype ReceiptExpectation =
  AnyTransaction
| StagedSuccess string int
| PendingLiquidation int string string string string

fun requireSuccessfulStagedOperation :: "event_decoder \<Rightarrow> TransactionLog list \<Rightarrow> string \<Rightarrow> int \<Rightarrow> unit result" where
  "requireSuccessfulStagedOperation decode [] coordinator operation =
     throw ''Coordinator receipt did not confirm the staged operation outcome''"
| "requireSuccessfulStagedOperation decode (log # logs) coordinator operation =
     (if toLowerCase (xl_address log) \<noteq> toLowerCase coordinator then requireSuccessfulStagedOperation decode logs coordinator operation
      else case decode log of
        Some (ExecutedStagedOperation executed operationId success message) \<Rightarrow>
          if executed \<noteq> operation then requireSuccessfulStagedOperation decode logs coordinator operation
          else if \<not> success then throw (''Staged operation failed: '' @ message)
          else ok ()
      | _ \<Rightarrow> requireSuccessfulStagedOperation decode logs coordinator operation)"

text \<open>One log of \<open>requirePendingStagedOperation\<close>: the identifiers found so far of the queued and the routed operation.\<close>

definition read_pending_log ::
  "event_decoder \<Rightarrow> string \<Rightarrow> string \<Rightarrow> string \<Rightarrow> string \<Rightarrow> int \<Rightarrow> int option \<times> int option \<Rightarrow> TransactionLog \<Rightarrow> int option \<times> int option" where
  "read_pending_log decode coordinator operator receiver target amount ids log =
     (if toLowerCase (xl_address log) \<noteq> toLowerCase coordinator then ids
      else case decode log of
        Some (StagedOperationQueued isPendingSlot operation operationAmount operationId queuedOperator targetVault) \<Rightarrow>
          if operation = 0 \<and> toLowerCase queuedOperator = toLowerCase operator \<and> toLowerCase targetVault = toLowerCase target \<and>
             operationAmount = amount \<and> isPendingSlot
          then (Some operationId, snd ids) else ids
      | Some (LiquidationRouteStaged operationId stagedOperator receiverVault requestedDebt targetVault) \<Rightarrow>
          if toLowerCase stagedOperator = toLowerCase operator \<and> toLowerCase receiverVault = toLowerCase receiver \<and>
             toLowerCase targetVault = toLowerCase target \<and> requestedDebt = amount
          then (fst ids, Some operationId) else ids
      | _ \<Rightarrow> ids)"

definition requirePendingStagedOperation ::
  "event_decoder \<Rightarrow> TransactionLog list \<Rightarrow> string \<Rightarrow> string \<Rightarrow> string \<Rightarrow> string \<Rightarrow> int \<Rightarrow> int result" where
  "requirePendingStagedOperation decode logs coordinator operator receiver target amount =
     (case foldl (read_pending_log decode coordinator operator receiver target amount) (None, None) logs of
        (Some queuedOperationId, Some routedOperationId) \<Rightarrow>
          if queuedOperationId = routedOperationId then ok queuedOperationId
          else throw ''Coordinator did not place the liquidation in a pending settlement slot''
      | _ \<Rightarrow> throw ''Coordinator did not place the liquidation in a pending settlement slot'')"

text \<open>The identifier of the queued operation, when the expectation is of one.\<close>

definition validateReceiptExpectation :: "event_decoder \<Rightarrow> TransactionReceipt \<Rightarrow> ReceiptExpectation \<Rightarrow> int option result" where
  "validateReceiptExpectation decode receipt expectation = (case expectation of
     AnyTransaction \<Rightarrow> ok None
   | StagedSuccess coordinator operation \<Rightarrow>
       bindR (requireSuccessfulStagedOperation decode (rx_logs receipt) coordinator operation) (\<lambda>_. ok None)
   | PendingLiquidation amount coordinator operator receiver target \<Rightarrow>
       bindR (requirePendingStagedOperation decode (rx_logs receipt) coordinator operator receiver target amount) (\<lambda>operationId. ok (Some operationId)))"

section \<open>The outcome of a staged operation\<close>

record StagedOperationOutcome =
  oc_errorMessage :: string
  oc_operation :: int
  oc_operationId :: int
  oc_success :: bool

definition stagedOperationOutcome :: "event_decoder \<Rightarrow> TransactionLog \<Rightarrow> int \<Rightarrow> StagedOperationOutcome option" where
  "stagedOperationOutcome decode log operationId = (case decode log of
     Some (ExecutedStagedOperation operation executedId success message) \<Rightarrow>
       if executedId = operationId
       then Some \<lparr>oc_errorMessage = message, oc_operation = operation, oc_operationId = executedId, oc_success = success\<rparr> else None
   | Some (PendingOperationRecoveryConsumed operation consumedId) \<Rightarrow>
       if consumedId = operationId
       then Some \<lparr>oc_errorMessage = ''Pending operation was consumed during oracle recovery'', oc_operation = operation,
         oc_operationId = consumedId, oc_success = False\<rparr> else None
   | _ \<Rightarrow> None)"

section \<open>Receipts by quorum\<close>

definition PRIVATE_INTENT_FINALITY_BLOCKS :: int where "PRIVATE_INTENT_FINALITY_BLOCKS = 12"

definition missingReceipt :: "error_world \<Rightarrow> pool_error \<Rightarrow> bool" where
  "missingReceipt world error \<longleftrightarrow> is_error world error \<and> text_includes (errorMessage world error) ''could not be found''"

definition log_value :: "TransactionLog \<Rightarrow> js_value" where
  "log_value log = ObjectValue [(''address'', TextValue (xl_address log)), (''data'', TextValue (xl_data log)),
     (''topics'', ArrayValue (map TextValue (xl_topics log)))]"

definition status_text :: "receipt_status \<Rightarrow> string" where
  "status_text status = (case status of Success \<Rightarrow> ''success'' | Reverted \<Rightarrow> ''reverted'')"

definition evidence_value :: "TransactionReceipt \<Rightarrow> js_value" where
  "evidence_value receipt = ObjectValue [(''blockHash'', TextValue (rx_blockHash receipt)), (''blockNumber'', BigintValue (rx_blockNumber receipt)),
     (''hash'', TextValue (rx_transactionHash receipt)), (''logs'', ArrayValue (map log_value (rx_logs receipt))),
     (''status'', TextValue (status_text (rx_status receipt)))]"

definition answer_value :: "TransactionReceipt option \<Rightarrow> js_value" where
  "answer_value answer = (case answer of
     None \<Rightarrow> ObjectValue [(''evidence'', UndefinedValue), (''receipt'', UndefinedValue)]
   | Some receipt \<Rightarrow> ObjectValue [(''evidence'', evidence_value receipt), (''receipt'', ObjectValue (rx_others receipt))])"

text \<open>The answer of one endpoint; that there is no receipt is an answer too.\<close>

definition receipt_answer :: "error_world \<Rightarrow> TransactionReceipt settled \<Rightarrow> TransactionReceipt option settled" where
  "receipt_answer world answer = (case answer of
     Fulfilled receipt \<Rightarrow> Fulfilled (Some receipt)
   | Rejected reason \<Rightarrow> if missingReceipt world reason then Fulfilled None else Rejected reason)"

datatype receipt_result = NotObserved | ObservedOnly | Finalized TransactionReceipt

text \<open>The answer behind a value: the value of a quorum is that of the first endpoint that answered.\<close>

definition answered :: "TransactionReceipt option settled list \<Rightarrow> js_value \<Rightarrow> TransactionReceipt option" where
  "answered answers v = (case List.find (\<lambda>answer. answer_value answer = v) (fulfilled_values answers) of
     None \<Rightarrow> None | Some answer \<Rightarrow> answer)"

definition finalizedReceiptWithQuorum ::
  "error_world \<Rightarrow> CanonicalBlockReader list \<Rightarrow> string list \<Rightarrow> TransactionReceipt settled list \<Rightarrow> string \<Rightarrow> nat \<Rightarrow> receipt_result quorum_result" where
  "finalizedReceiptWithQuorum world readers endpoints receipts hash requirement =
     (let answers = map (receipt_answer world) receipts in
      bindQ (settledQuorumValue world (''receipt '' @ hash)
          (map (\<lambda>(endpoint, answer). settled_map (\<lambda>receipt. (endpoint, answer_value receipt)) answer) (zip endpoints answers)) requirement) (\<lambda>agreed.
        case answered answers agreed of
          None \<Rightarrow> Some (Inr NotObserved)
        | Some receipt \<Rightarrow>
            bindQ (confirmCanonicalReceiptFinality world readers endpoints (''transaction '' @ hash) (rx_blockHash receipt) (rx_blockNumber receipt)
                PRIVATE_INTENT_FINALITY_BLOCKS None requirement) (\<lambda>final.
              Some (Inr (if final then Finalized receipt else ObservedOnly)))))"

end
