(* ===== verification/Relay_Submission.thy ===== *)
theory Relay_Submission
  imports Read_Quorum Rpc_Pool "HOL-Library.AList"
begin

text \<open>
  Signing and submission: \<open>bots/shared/src/execution/transaction-submission.ts\<close>. Arguments stand for
  what is outside: the parser of URLs (\<open>None\<close> is its \<open>TypeError\<close>), the origin of a URL, keccak, the
  signer, and the endpoints. A relay answers a request with a status and a body, or rejects; a body that is
  not JSON is a \<open>SyntaxError\<close>. Settings and answers are trees of JSON values.
\<close>

section \<open>Settings\<close>

datatype SubmissionMode = PrivateMode | PublicMode

record SubmissionSettings =
  sx_minimumBundleRelaySuccesses :: int
  sx_mode :: SubmissionMode
  sx_relayUrls :: "string list"

record parsed_url =
  uh_hostname :: string
  uh_password :: string
  uh_protocol :: string
  uh_text :: string
  uh_username :: string

type_synonym url_parser = "string \<Rightarrow> parsed_url option"

definition relayUrl :: "url_parser \<Rightarrow> string \<Rightarrow> string result" where
  "relayUrl URL url =
     (if length url > 2048 then throw ''Relay URLs must not exceed 2048 characters''
      else case URL url of
        None \<Rightarrow> throw ''Invalid relay URL''
      | Some parsed \<Rightarrow>
          let loopback = (uh_hostname parsed = ''127.0.0.1'' \<or> uh_hostname parsed = ''localhost'' \<or> uh_hostname parsed = ''[::1]'')
          in if uh_protocol parsed \<noteq> ''https:'' \<and> \<not> (uh_protocol parsed = ''http:'' \<and> loopback)
             then throw ''Relay URL must use HTTPS or loopback HTTP''
             else if uh_username parsed \<noteq> [] \<or> uh_password parsed \<noteq> [] then throw ''Relay URLs must not contain embedded credentials''
             else if text_includes url ''?'' then throw ''Relay URLs must not contain query parameters''
             else if text_includes url ''#'' then throw ''Relay URLs must not contain fragments''
             else ok (uh_text parsed))"

text \<open>A property of an object, \<open>undefined\<close> when it has none of the name.\<close>

definition property :: "(string \<times> js_value) list \<Rightarrow> string \<Rightarrow> js_value" where
  "property entries name = (case map_of entries name of None \<Rightarrow> UndefinedValue | Some v \<Rightarrow> v)"

fun text_items :: "js_value list \<Rightarrow> string list option" where
  "text_items [] = Some []"
| "text_items (TextValue s # rest) = map_option ((#) s) (text_items rest)"
| "text_items (_ # rest) = None"

definition private_count_message :: string where
  "private_count_message = ''Minimum bundle relay successes must be an integer between 1 and the configured private relay count''"

definition validateSubmissionSettings :: "url_parser \<Rightarrow> js_value \<Rightarrow> SubmissionSettings result" where
  "validateSubmissionSettings URL settings = (case settings of
     ObjectValue entries \<Rightarrow>
       let keys = map fst entries in
       if list_ex (\<lambda>key. key \<noteq> ''minimumBundleRelaySuccesses'' \<and> key \<noteq> ''mode'' \<and> key \<noteq> ''relayUrls'') keys \<or>
          \<not> List.member keys ''mode'' \<or> \<not> List.member keys ''relayUrls''
       then throw ''Submission settings require mode, relayUrls, and optional minimumBundleRelaySuccesses''
       else
         bindR (if property entries ''mode'' = TextValue ''public'' then ok PublicMode
                else if property entries ''mode'' = TextValue ''private'' then ok PrivateMode
                else throw ''Submission mode must be public or private'') (\<lambda>mode.
         case property entries ''relayUrls'' of
           ArrayValue items \<Rightarrow> (case text_items items of
               None \<Rightarrow> throw ''Relay URLs must be an array of strings''
             | Some rawRelayUrls \<Rightarrow>
                 if length rawRelayUrls > 8 then throw ''At most 8 relay URLs are supported''
                 else
                   bindR (mapR (\<lambda>url. relayUrl URL (trim url)) rawRelayUrls) (\<lambda>normalizedRelayUrls.
                   let relayUrls = unique_values normalizedRelayUrls;
                       maximumRelaySuccesses = (if mode = PrivateMode then int (length relayUrls) else 8);
                       refused = throw (if mode = PrivateMode then private_count_message
                         else ''Minimum bundle relay successes must be an integer between 1 and 8'');
                       chosen = property entries ''minimumBundleRelaySuccesses''
                   in if mode = PrivateMode \<and> relayUrls = [] then throw ''Private submission requires at least one relay URL''
                      else case (if chosen = UndefinedValue \<or> chosen = NullValue then NumberValue 1 else chosen) of
                          NumberValue minimum \<Rightarrow>
                            if MAX_SAFE_INTEGER < minimum \<or> minimum < 1 \<or> minimum > maximumRelaySuccesses then refused
                            else ok \<lparr>sx_minimumBundleRelaySuccesses = minimum, sx_mode = mode, sx_relayUrls = relayUrls\<rparr>
                        | _ \<Rightarrow> refused))
         | _ \<Rightarrow> throw ''Relay URLs must be an array of strings'')
   | _ \<Rightarrow> throw ''Submission settings must be a JSON object'')"

section \<open>Signing\<close>

record BlockTransaction =
  bt_from :: string
  bt_gas :: int
  bt_hash :: string
  bt_input :: string
  bt_maxFeePerGas :: int
  bt_maxPriorityFeePerGas :: int
  bt_nonce :: int
  bt_to :: string
  bt_value :: int

record SignedTransaction =
  sg_hash :: string
  sg_lastValidBlockNumber :: "int option"
  sg_maxBlockNumber :: int
  sg_serializedTransaction :: string
  sg_transaction :: BlockTransaction

record signing_parameters =
  sp_baseFeePerGas :: int
  sp_blockNumber :: int
  sp_chainId :: int
  sp_data :: string
  sp_from :: string
  sp_gasEstimate :: int
  sp_lastValidBlockNumber :: "int option"
  sp_nonce :: int
  sp_to :: string
  sp_value :: "int option"

text \<open>What the signer is asked to sign.\<close>

record unsigned_transaction =
  ux_chainId :: int
  ux_data :: string
  ux_gas :: int
  ux_maxFeePerGas :: int
  ux_maxPriorityFeePerGas :: int
  ux_nonce :: int
  ux_to :: string
  ux_value :: "int option"

definition assertSubmissionWindowOpen :: "int option \<Rightarrow> int \<Rightarrow> unit result" where
  "assertSubmissionWindowOpen lastValidBlockNumber currentBlockNumber = (case lastValidBlockNumber of
     None \<Rightarrow> ok ()
   | Some lastValid \<Rightarrow> if currentBlockNumber \<ge> lastValid then throw ''Transaction validity window expired before submission'' else ok ())"

definition paddedTransactionGas :: "int \<Rightarrow> int" where
  "paddedTransactionGas gasEstimate = gasEstimate + gasEstimate sdiv 5 + 10000"

definition prepareSignedTransaction ::
  "(string \<Rightarrow> string) \<Rightarrow> (unsigned_transaction \<Rightarrow> string result) \<Rightarrow> signing_parameters \<Rightarrow> SignedTransaction result" where
  "prepareSignedTransaction keccak256 signTransaction p =
     bindR (assertSubmissionWindowOpen (sp_lastValidBlockNumber p) (sp_blockNumber p)) (\<lambda>_.
     let maxPriorityFeePerGas = 2 * 10 ^ 9;
         gas = paddedTransactionGas (sp_gasEstimate p);
         maxFeePerGas = sp_baseFeePerGas p * 2 + maxPriorityFeePerGas
     in bindR (signTransaction \<lparr>ux_chainId = sp_chainId p, ux_data = sp_data p, ux_gas = gas, ux_maxFeePerGas = maxFeePerGas,
            ux_maxPriorityFeePerGas = maxPriorityFeePerGas, ux_nonce = sp_nonce p, ux_to = sp_to p, ux_value = sp_value p\<rparr>) (\<lambda>serializedTransaction.
        let hash = keccak256 serializedTransaction;
            defaultMaxBlockNumber = sp_blockNumber p + 25
        in ok \<lparr>sg_hash = hash, sg_lastValidBlockNumber = sp_lastValidBlockNumber p,
             sg_maxBlockNumber = (case sp_lastValidBlockNumber p of None \<Rightarrow> defaultMaxBlockNumber
               | Some lastValid \<Rightarrow> if lastValid > defaultMaxBlockNumber then defaultMaxBlockNumber else lastValid),
             sg_serializedTransaction = serializedTransaction,
             sg_transaction = \<lparr>bt_from = sp_from p, bt_gas = gas, bt_hash = hash, bt_input = sp_data p, bt_maxFeePerGas = maxFeePerGas,
               bt_maxPriorityFeePerGas = maxPriorityFeePerGas, bt_nonce = sp_nonce p, bt_to = sp_to p,
               bt_value = (case sp_value p of None \<Rightarrow> 0 | Some amount \<Rightarrow> amount)\<rparr>\<rparr>))"

section \<open>Requests to a relay\<close>

datatype relay_request =
  CallBundle int int "string list"
| SendBundle int "string list"
| SendPrivateTransaction int string

record relay_response =
  rr_json :: "js_value result"
  rr_ok :: bool
  rr_status :: int

type_synonym relay_endpoint = "relay_request \<Rightarrow> string \<Rightarrow> relay_response result"

definition responseError :: "int \<Rightarrow> string \<Rightarrow> string" where
  "responseError code message = ''RPC '' @ bigint_to_string code @ '': '' @ message"

text \<open>The error an envelope carries: its code and message, when they are well formed.\<close>

definition envelope_error :: "js_value \<Rightarrow> (int \<times> string) option" where
  "envelope_error error = (case error of
     ObjectValue entries \<Rightarrow> (case (property entries ''code'', property entries ''message'') of
         (NumberValue code, TextValue message) \<Rightarrow> Some (code, message) | _ \<Rightarrow> None)
   | _ \<Rightarrow> None)"

definition authenticatedRelayRequest :: "relay_endpoint \<Rightarrow> relay_request \<Rightarrow> string \<Rightarrow> js_value result" where
  "authenticatedRelayRequest relay request url =
     bindR (relay request url) (\<lambda>response.
       case rr_json response of
         Inl (SyntaxError _) \<Rightarrow> throw (''Relay returned non-JSON HTTP '' @ bigint_to_string (rr_status response))
       | Inl e \<Rightarrow> Inl e
       | Inr (ObjectValue envelope) \<Rightarrow>
           let hasResult = List.member (map fst envelope) ''result'';
               hasError = List.member (map fst envelope) ''error''
           in if property envelope ''jsonrpc'' \<noteq> TextValue ''2.0'' \<or> property envelope ''id'' \<noteq> NumberValue 1 \<or> hasResult = hasError
              then throw ''Relay returned an invalid JSON-RPC envelope''
              else if hasError then
                (case envelope_error (property envelope ''error'') of
                   None \<Rightarrow> throw ''Relay returned an invalid JSON-RPC error''
                 | Some (code, message) \<Rightarrow> throw (responseError code message))
              else if \<not> rr_ok response then throw (''Relay returned HTTP '' @ bigint_to_string (rr_status response) @ '' with a JSON-RPC result'')
              else ok (property envelope ''result'')
       | Inr _ \<Rightarrow> throw ''Relay returned an invalid JSON-RPC envelope'')"

text \<open>\<open>^0x[0-9a-fA-F]+$\<close> or \<open>^[0-9]+$\<close>.\<close>

definition quantity_text :: "string \<Rightarrow> bool" where
  "quantity_text s \<longleftrightarrow> take 2 s = ''0x'' \<and> drop 2 s \<noteq> [] \<and> list_all is_hex_digit (drop 2 s) \<or> all_digits s"

definition rpcQuantity :: "js_value \<Rightarrow> string \<Rightarrow> int result" where
  "rpcQuantity quantity label = (case quantity of
     NumberValue n \<Rightarrow> if n \<le> MAX_SAFE_INTEGER \<and> n \<ge> 0 then ok n else throw (''Relay returned invalid '' @ label)
   | TextValue s \<Rightarrow> if quantity_text s then bigint_of_string s else throw (''Relay returned invalid '' @ label)
   | _ \<Rightarrow> throw (''Relay returned invalid '' @ label))"

text \<open>The hash of a bundle and those of its transactions.\<close>

definition bundleIdentity :: "(string \<Rightarrow> string) \<Rightarrow> string list \<Rightarrow> string \<times> string list" where
  "bundleIdentity keccak256 transactions =
     (let transactionHashes = map keccak256 transactions
      in (keccak256 (''0x'' @ concat (map (drop 2) transactionHashes)), transactionHashes))"

section \<open>Simulation of a bundle\<close>

definition present :: "js_value \<Rightarrow> bool" where
  "present v \<longleftrightarrow> v \<noteq> UndefinedValue \<and> v \<noteq> NullValue \<and> v \<noteq> TextValue []"

text \<open>The loop over the results, with the gas used so far; \<open>String\<close> of a value is an argument.\<close>

fun simulation_results ::
  "(js_value \<Rightarrow> string) \<Rightarrow> string list \<Rightarrow> js_value list \<Rightarrow> int \<Rightarrow> int result" where
  "simulation_results text_of expected [] transactionGasUsed = ok transactionGasUsed"
| "simulation_results text_of expected (ObjectValue entries # rest) transactionGasUsed =
     (let error = property entries ''error''; revert = property entries ''revert'';
          hasError = present error;
          hasRevert = (present revert \<and> revert \<noteq> TextValue ''0x'')
      in if hasError \<or> hasRevert then throw (''Bundle simulation reverted: '' @ text_of (if hasError then error else revert))
         else case (expected, property entries ''txHash'') of
           (expectedHash # others, TextValue returnedHash) \<Rightarrow>
             if toLowerCase returnedHash \<noteq> toLowerCase expectedHash
             then throw ''Relay returned simulation results for a different transaction order''
             else
               bindR (rpcQuantity (property entries ''gasUsed'') ''transaction gas usage'') (\<lambda>gasUsed.
                 if gasUsed = 0 then throw ''Relay returned zero transaction gas usage''
                 else simulation_results text_of others rest (transactionGasUsed + gasUsed))
         | _ \<Rightarrow> throw ''Relay returned simulation results for a different transaction order'')"
| "simulation_results text_of expected (_ # rest) transactionGasUsed = throw ''Relay returned an invalid transaction simulation result''"

definition check_simulation ::
  "(string \<Rightarrow> string) \<Rightarrow> (js_value \<Rightarrow> string) \<Rightarrow> string list \<Rightarrow> int \<Rightarrow> js_value \<Rightarrow> int result" where
  "check_simulation keccak256 text_of transactions stateBlockNumber simulation = (case simulation of
     ObjectValue entries \<Rightarrow>
       bindR (rpcQuantity (property entries ''stateBlockNumber'') ''simulation state block number'') (\<lambda>returnedStateBlockNumber.
       if returnedStateBlockNumber \<noteq> stateBlockNumber then throw ''Relay simulated the bundle against an unexpected state block''
       else
         let (bundleHash, transactionHashes) = bundleIdentity keccak256 transactions in
         if (case property entries ''bundleHash'' of TextValue returned \<Rightarrow> toLowerCase returned \<noteq> toLowerCase bundleHash | _ \<Rightarrow> True)
         then throw ''Relay returned a simulation for a different bundle''
         else case property entries ''results'' of
           ArrayValue results \<Rightarrow>
             if length results \<noteq> length transactions then throw ''Relay returned incomplete bundle simulation results''
             else
               bindR (simulation_results text_of transactionHashes results 0) (\<lambda>transactionGasUsed.
               bindR (rpcQuantity (property entries ''totalGasUsed'') ''bundle gas usage'') (\<lambda>totalGasUsed.
               if totalGasUsed \<noteq> transactionGasUsed then throw ''Relay returned inconsistent bundle gas usage''
               else ok totalGasUsed))
         | _ \<Rightarrow> throw ''Relay returned incomplete bundle simulation results'')
   | _ \<Rightarrow> throw ''Relay returned an invalid bundle simulation'')"

definition simulateBundle ::
  "(string \<Rightarrow> string) \<Rightarrow> (js_value \<Rightarrow> string) \<Rightarrow> relay_endpoint \<Rightarrow> string list \<Rightarrow> int \<Rightarrow> int \<Rightarrow> string \<Rightarrow> int result" where
  "simulateBundle keccak256 text_of relay transactions stateBlockNumber targetBlockNumber url =
     (if transactions = [] then throw ''Bundle must contain at least one transaction''
      else bindR (authenticatedRelayRequest relay (CallBundle targetBlockNumber stateBlockNumber transactions) url)
        (check_simulation keccak256 text_of transactions stateBlockNumber))"

section \<open>Results of several targets\<close>

record SubmissionTargetResult =
  xt_error :: "string option"
  xt_target :: string

datatype submission_error = SubmissionFailure string "SubmissionTargetResult list" | OtherFailure js_error

definition rejectionMessage :: "js_error \<Rightarrow> string" where
  "rejectionMessage reason = (case reason of
     DivisionByZero \<Rightarrow> ''Division by zero'' | SyntaxError text \<Rightarrow> text | RangeError text \<Rightarrow> text | Error text \<Rightarrow> text)"

definition failure_text :: "SubmissionTargetResult \<Rightarrow> string" where
  "failure_text result = xt_target result @ '': '' @ (case xt_error result of None \<Rightarrow> ''unknown error'' | Some error \<Rightarrow> error)"

definition failure_texts :: "SubmissionTargetResult list \<Rightarrow> string" where
  "failure_texts failedTargets = join_with ''; '' (map failure_text failedTargets)"

text \<open>What every target answered, in the order of the targets: those that accepted, and the failures.\<close>

definition accepted_targets :: "(string \<times> 'a result) list \<Rightarrow> (string \<times> 'a) list" where
  "accepted_targets settled =
     concat (map (\<lambda>(url, result). case result of Inr answer \<Rightarrow> [(url, answer)] | Inl _ \<Rightarrow> []) settled)"

definition failed_targets :: "(string \<Rightarrow> string) \<Rightarrow> (string \<times> 'a result) list \<Rightarrow> SubmissionTargetResult list" where
  "failed_targets endpointLabel settled =
     concat (map (\<lambda>(url, result). case result of Inr _ \<Rightarrow> []
       | Inl reason \<Rightarrow> [\<lparr>xt_error = Some (rejectionMessage reason), xt_target = endpointLabel url\<rparr>]) settled)"

definition simulateSignedBundleEveryRelay ::
  "(string \<Rightarrow> string) \<Rightarrow> (js_value \<Rightarrow> string) \<Rightarrow> (string \<Rightarrow> string) \<Rightarrow> relay_endpoint \<Rightarrow> string list \<Rightarrow> int option \<Rightarrow>
   string list \<Rightarrow> int \<Rightarrow> int \<Rightarrow> submission_error + SubmissionTargetResult list \<times> (string \<times> int) list" where
  "simulateSignedBundleEveryRelay keccak256 text_of endpointLabel relay relayUrls minimum transactions stateBlockNumber targetBlockNumber =
     (let minimumSuccessfulRelays = (case minimum of None \<Rightarrow> 1 | Some n \<Rightarrow> n) in
      if MAX_SAFE_INTEGER < minimumSuccessfulRelays \<or> minimumSuccessfulRelays < 1 \<or> minimumSuccessfulRelays > int (length relayUrls)
      then Inl (OtherFailure (Error ''Bundle simulation relay threshold must be between 1 and the configured relay count''))
      else
        let settled = map (\<lambda>url. (url, simulateBundle keccak256 text_of relay transactions stateBlockNumber targetBlockNumber url)) relayUrls;
            successful = accepted_targets settled;
            failedTargets = failed_targets endpointLabel settled
        in if int (length successful) < minimumSuccessfulRelays
           then Inl (SubmissionFailure (''Bundle simulation required '' @ bigint_to_string minimumSuccessfulRelays @
             '' successful relays but received '' @ bigint_to_string (int (length successful)) @ '': '' @ failure_texts failedTargets) failedTargets)
           else Inr (failedTargets, successful))"

section \<open>Submission of a bundle\<close>

text \<open>The hash a relay returns must be that of the bundle.\<close>

definition check_bundle_hash :: "string \<Rightarrow> js_value \<Rightarrow> unit result" where
  "check_bundle_hash expectedBundleHash answer = (case answer of
     ObjectValue entries \<Rightarrow> (case property entries ''bundleHash'' of
         TextValue bundleHash \<Rightarrow>
           if toLowerCase bundleHash = toLowerCase expectedBundleHash then ok () else throw ''Relay returned an unexpected bundle hash''
       | _ \<Rightarrow> throw ''Relay returned an unexpected bundle hash'')
   | _ \<Rightarrow> throw ''Relay returned an invalid bundle hash'')"

record SubmittedTargets =
  xb_acceptedTargets :: "string list"
  xb_failedTargets :: "SubmissionTargetResult list"

definition submitSignedBundle ::
  "(string \<Rightarrow> string) \<Rightarrow> (string \<Rightarrow> string) \<Rightarrow> relay_endpoint \<Rightarrow> string list \<Rightarrow> int option \<Rightarrow> string list \<Rightarrow> int \<Rightarrow> submission_error + SubmittedTargets" where
  "submitSignedBundle keccak256 endpointLabel relay relayUrls minimum transactions targetBlockNumber =
     (if transactions = [] then Inl (OtherFailure (Error ''Bundle must contain at least one transaction''))
      else let minimumSuccessfulRelays = (case minimum of None \<Rightarrow> 1 | Some n \<Rightarrow> n) in
      if MAX_SAFE_INTEGER < minimumSuccessfulRelays \<or> minimumSuccessfulRelays < 1 \<or> minimumSuccessfulRelays > int (length relayUrls)
      then Inl (OtherFailure (Error ''Bundle submission relay threshold must be between 1 and the configured relay count''))
      else
        let expectedBundleHash = fst (bundleIdentity keccak256 transactions);
            settled = map (\<lambda>url. (url, bindR (authenticatedRelayRequest relay (SendBundle targetBlockNumber transactions) url)
              (check_bundle_hash expectedBundleHash))) relayUrls;
            acceptedTargets = map (endpointLabel \<circ> fst) (accepted_targets settled);
            failedTargets = failed_targets endpointLabel settled
        in if int (length acceptedTargets) < minimumSuccessfulRelays then
             (if acceptedTargets = [] \<and> minimumSuccessfulRelays = 1
              then Inl (SubmissionFailure (''Every private relay rejected the bundle: '' @ failure_texts failedTargets) failedTargets)
              else Inl (SubmissionFailure (''Bundle submission required '' @ bigint_to_string minimumSuccessfulRelays @
                '' accepting relays but received '' @ bigint_to_string (int (length acceptedTargets)) @ '': '' @ failure_texts failedTargets) failedTargets))
           else Inr \<lparr>xb_acceptedTargets = acceptedTargets, xb_failedTargets = failedTargets\<rparr>)"

section \<open>Submission of a transaction\<close>

definition check_transaction_hash :: "string \<Rightarrow> js_value \<Rightarrow> unit result" where
  "check_transaction_hash hash answer = (case answer of
     TextValue returned \<Rightarrow> if toLowerCase returned \<noteq> toLowerCase hash then throw (''Relay returned unexpected transaction hash '' @ returned) else ok ()
   | _ \<Rightarrow> throw ''Relay returned an invalid transaction hash'')"

definition sendPrivateTransaction :: "relay_endpoint \<Rightarrow> string \<Rightarrow> int \<Rightarrow> string \<Rightarrow> string \<Rightarrow> unit result" where
  "sendPrivateTransaction relay hash maxBlockNumber serializedTransaction url =
     bindR (authenticatedRelayRequest relay (SendPrivateTransaction maxBlockNumber serializedTransaction) url) (check_transaction_hash hash)"

text \<open>The hash a public endpoint returns; \<open>publicSubmit\<close> is the caller's.\<close>

definition public_result :: "string \<Rightarrow> string result \<Rightarrow> unit result" where
  "public_result hash result = bindR result (\<lambda>returned.
     if toLowerCase returned = toLowerCase hash then ok () else throw (''Public RPC returned unexpected transaction hash '' @ returned))"

record SubmittedTransaction = SubmittedTargets +
  xs_hash :: string
  xs_mode :: SubmissionMode

definition submitSignedTransaction ::
  "(string \<Rightarrow> string) \<Rightarrow> relay_endpoint \<Rightarrow> (string \<Rightarrow> string \<Rightarrow> string result) \<Rightarrow> string list \<Rightarrow> SubmissionSettings \<Rightarrow>
   string \<Rightarrow> int \<Rightarrow> string \<Rightarrow> submission_error + SubmittedTransaction" where
  "submitSignedTransaction endpointLabel relay publicSubmit publicRpcUrls settings hash maxBlockNumber serializedTransaction =
     (let settled = (case sx_mode settings of
            PublicMode \<Rightarrow> map (\<lambda>url. (url, public_result hash (publicSubmit url serializedTransaction))) publicRpcUrls
          | PrivateMode \<Rightarrow> map (\<lambda>url. (url, sendPrivateTransaction relay hash maxBlockNumber serializedTransaction url)) (sx_relayUrls settings));
          acceptedTargets = map (endpointLabel \<circ> fst) (accepted_targets settled);
          failedTargets = failed_targets endpointLabel settled
      in if acceptedTargets = []
         then Inl (SubmissionFailure ((case sx_mode settings of PublicMode \<Rightarrow> ''Every public RPC rejected the transaction: ''
             | PrivateMode \<Rightarrow> ''Every private relay rejected the transaction: '') @ failure_texts failedTargets) failedTargets)
         else Inr \<lparr>xb_acceptedTargets = acceptedTargets, xb_failedTargets = failedTargets, xs_hash = hash, xs_mode = sx_mode settings\<rparr>)"

text \<open>The last result of every target, in the order the targets were first seen.\<close>

definition mergeSubmissionFailures :: "SubmissionTargetResult list \<Rightarrow> submission_error \<Rightarrow> SubmissionTargetResult list" where
  "mergeSubmissionFailures previous error =
     (let latest = (case error of
            SubmissionFailure message failedTargets \<Rightarrow> failedTargets
          | OtherFailure e \<Rightarrow> [\<lparr>xt_error = Some (rejectionMessage e), xt_target = ''private relay resubmission''\<rparr>])
      in map snd (foldl (\<lambda>merged result. AList.update (xt_target result) result merged) [] (previous @ latest)))"

section \<open>What an accepted simulation says\<close>

text \<open>One result: the transaction ran, under its hash, without an error, and used gas.\<close>

definition executed_transaction :: "string \<Rightarrow> js_value \<Rightarrow> int \<Rightarrow> bool" where
  "executed_transaction hash result gasUsed \<longleftrightarrow> 0 < gasUsed \<and> (\<exists>entries returned.
     result = ObjectValue entries \<and> \<not> present (property entries ''error'') \<and>
     (present (property entries ''revert'') \<longrightarrow> property entries ''revert'' = TextValue ''0x'') \<and>
     property entries ''txHash'' = TextValue returned \<and> sameText returned hash \<and>
     rpcQuantity (property entries ''gasUsed'') ''transaction gas usage'' = ok gasUsed)"

lemma trim_unspaced: "list_all (\<lambda>c. \<not> is_space c) s \<Longrightarrow> trim s = s"
proof -
  assume "list_all (\<lambda>c. \<not> is_space c) s"
  then have nonspace: "\<forall>c \<in> set s. \<not> is_space c" by (simp add: list_all_iff)
  have "dropWhile is_space xs = xs" if "\<forall>c \<in> set xs. \<not> is_space c" for xs using that by (cases xs) auto
  from this [of s] this [of "rev s"] nonspace show ?thesis unfolding trim_def by simp
qed

lemma hex_not_space: "is_hex_digit c \<Longrightarrow> \<not> is_space c"
  by (auto simp: is_hex_digit_def is_space_def is_digit_def of_char_lower is_upper_char_def split: if_splits)

lemma hex_text_not_negative:
  assumes "take 2 s = ''0x''" and "list_all is_hex_digit (drop 2 s)"
  shows "hd (trim s) = CHR ''0''"
proof -
  have s: "s = ''0x'' @ drop 2 s" using assms(1) append_take_drop_id [of 2 s] by simp
  have "list_all (\<lambda>c. \<not> is_space c) (''0x'' @ drop 2 s)"
    using assms(2) hex_not_space by (auto simp: list_all_iff is_space_def)
  then have "trim s = ''0x'' @ drop 2 s" using s trim_unspaced by metis
  then show ?thesis by simp
qed

lemma rpcQuantity_nonneg: "rpcQuantity quantity label = ok n \<Longrightarrow> 0 \<le> n"
  using hex_text_not_negative
  by (fastforce simp: rpcQuantity_def quantity_text_def bigint_of_string_def trim_digits Let_def split: js_value.splits if_splits)

lemma simulation_results_executed:
  "simulation_results text_of hashes results used = ok totalGas \<Longrightarrow> length results = length hashes \<Longrightarrow>
    \<exists>gas. list_all2 (\<lambda>(hash, result). executed_transaction hash result) (zip hashes results) gas \<and> totalGas = used + sum_list gas"
proof (induction results arbitrary: hashes used)
  case Nil
  then show ?case by auto
next
  case (Cons item rest)
  obtain hash others where hashes: "hashes = hash # others" using Cons.prems(2) by (cases hashes) auto
  obtain entries where item: "item = ObjectValue entries" using Cons.prems(1) by (cases item) auto
  from Cons.prems(1) obtain returned gasUsed where result:
      "\<not> present (property entries ''error'')" "present (property entries ''revert'') \<longrightarrow> property entries ''revert'' = TextValue ''0x''"
      "property entries ''txHash'' = TextValue returned" "toLowerCase returned = toLowerCase hash"
      "rpcQuantity (property entries ''gasUsed'') ''transaction gas usage'' = ok gasUsed" "gasUsed \<noteq> 0"
      "simulation_results text_of others rest (used + gasUsed) = ok totalGas"
    unfolding hashes item by (auto simp: Let_def bindR_eq_Inr_iff split: if_splits js_value.splits)
  from Cons.IH [OF result(7)] obtain gas where "list_all2 (\<lambda>(hash, result). executed_transaction hash result) (zip others rest) gas"
      "totalGas = used + gasUsed + sum_list gas"
    using hashes Cons.prems(2) by auto
  moreover have "executed_transaction hash item gasUsed"
    using result rpcQuantity_nonneg [OF result(5)] by (auto simp: executed_transaction_def sameText_def item)
  ultimately show ?case unfolding hashes by (intro exI [of _ "gasUsed # gas"]) simp
qed

text \<open>A relay's answer to \<open>eth_callBundle\<close>: it is for this bundle, at this block, and every transaction ran, in order.\<close>

definition simulated_bundle :: "(string \<Rightarrow> string) \<Rightarrow> string list \<Rightarrow> int \<Rightarrow> js_value \<Rightarrow> int \<Rightarrow> bool" where
  "simulated_bundle keccak256 transactions stateBlockNumber simulation totalGas \<longleftrightarrow> (\<exists>entries returned results gas.
     simulation = ObjectValue entries \<and>
     rpcQuantity (property entries ''stateBlockNumber'') ''simulation state block number'' = ok stateBlockNumber \<and>
     property entries ''bundleHash'' = TextValue returned \<and> sameText returned (fst (bundleIdentity keccak256 transactions)) \<and>
     property entries ''results'' = ArrayValue results \<and> length results = length transactions \<and>
     list_all2 (\<lambda>(hash, result). executed_transaction hash result) (zip (map keccak256 transactions) results) gas \<and>
     totalGas = sum_list gas \<and> rpcQuantity (property entries ''totalGasUsed'') ''bundle gas usage'' = ok totalGas)"

lemma check_simulation_simulated:
  assumes "check_simulation keccak256 text_of transactions stateBlockNumber simulation = ok totalGas"
  shows "simulated_bundle keccak256 transactions stateBlockNumber simulation totalGas"
proof -
  from assms obtain entries returned results where answer: "simulation = ObjectValue entries"
      "rpcQuantity (property entries ''stateBlockNumber'') ''simulation state block number'' = ok stateBlockNumber"
      "property entries ''bundleHash'' = TextValue returned" "sameText returned (fst (bundleIdentity keccak256 transactions))"
      "property entries ''results'' = ArrayValue results" "length results = length transactions"
      "rpcQuantity (property entries ''totalGasUsed'') ''bundle gas usage'' = ok totalGas"
    and run: "simulation_results text_of (map keccak256 transactions) results 0 = ok totalGas"
    by (auto simp: check_simulation_def bundleIdentity_def Let_def bindR_eq_Inr_iff sameText_def split: if_splits js_value.splits)
  from simulation_results_executed [OF run] answer(6) obtain gas where
      "list_all2 (\<lambda>(hash, result). executed_transaction hash result) (zip (map keccak256 transactions) results) gas" "totalGas = 0 + sum_list gas"
    by auto
  with answer show ?thesis unfolding simulated_bundle_def by auto
qed

lemma simulated_gas_positive:
  assumes "simulated_bundle keccak256 transactions stateBlockNumber simulation totalGas" and "transactions \<noteq> []"
  shows "0 < totalGas"
proof -
  from assms(1) obtain results gas where run: "length results = length transactions" "totalGas = sum_list gas"
      "list_all2 (\<lambda>(hash, result). executed_transaction hash result) (zip (map keccak256 transactions) results) gas"
    by (auto simp: simulated_bundle_def)
  have positive: "\<forall>used \<in> set gas. 0 < used"
    using run(1,3) by (auto simp: list_all2_conv_all_nth in_set_conv_nth executed_transaction_def split_beta)
  moreover have "gas \<noteq> []" using run(1,3) assms(2) by (auto dest!: list_all2_lengthD)
  then obtain used others where "gas = used # others" by (cases gas) auto
  moreover have "0 \<le> sum_list others" using calculation by (intro sum_list_nonneg) (auto intro: less_imp_le)
  ultimately show ?thesis using run(2) by simp
qed

text \<open>What a relay returned, once the envelope of its answer is checked.\<close>

definition relay_result :: "relay_endpoint \<Rightarrow> relay_request \<Rightarrow> string \<Rightarrow> js_value \<Rightarrow> bool" where
  "relay_result relay request url answer \<longleftrightarrow> (\<exists>response envelope.
     relay request url = ok response \<and> rr_ok response \<and> rr_json response = ok (ObjectValue envelope) \<and>
     property envelope ''jsonrpc'' = TextValue ''2.0'' \<and> property envelope ''id'' = NumberValue 1 \<and>
     ''error'' \<notin> fst ` set envelope \<and> property envelope ''result'' = answer)"

lemma authenticated_result:
  assumes "authenticatedRelayRequest relay request url = ok answer"
  shows "relay_result relay request url answer"
proof -
  from assms obtain response where response: "relay request url = ok response"
    by (auto simp: authenticatedRelayRequest_def bindR_eq_Inr_iff)
  note checked = assms [unfolded authenticatedRelayRequest_def response bindR_simps]
  from checked obtain v where v: "rr_json response = ok v" by (cases "rr_json response") (auto split: js_error.splits)
  from checked [unfolded v] obtain envelope where envelope: "v = ObjectValue envelope" by (cases v) auto
  from checked [unfolded v envelope] have "property envelope ''jsonrpc'' = TextValue ''2.0''" "property envelope ''id'' = NumberValue 1"
      "''error'' \<notin> fst ` set envelope" "rr_ok response" "property envelope ''result'' = answer"
    by (simp_all add: Let_def split: if_splits option.splits prod.splits)
  with response v envelope show ?thesis by (simp add: relay_result_def)
qed

text \<open>
  C11: A bundle counts as simulated only when enough of the configured relays ran it. Every relay that counts returned, in a
  valid envelope, the hash of exactly these transactions, the block asked for, and for each of them, in order, a
  result under its own hash, without an error or a revert and with positive gas, which add up to the gas reported. Every
  other relay is among the failures.
\<close>

theorem simulated_bundle_is_authentic:
  assumes "simulateSignedBundleEveryRelay keccak256 text_of endpointLabel relay relayUrls minimum transactions stateBlockNumber targetBlockNumber =
    Inr (failures, successful)"
  shows "(case minimum of None \<Rightarrow> 1 | Some n \<Rightarrow> n) \<le> int (length successful) \<and> 0 < length successful \<and>
    length successful + length failures = length relayUrls \<and>
    list_all (\<lambda>(url, totalGas). url \<in> set relayUrls \<and> 0 < totalGas \<and>
      (\<exists>simulation. relay_result relay (CallBundle targetBlockNumber stateBlockNumber transactions) url simulation \<and>
         simulated_bundle keccak256 transactions stateBlockNumber simulation totalGas)) successful"
proof -
  let ?run = "simulateBundle keccak256 text_of relay transactions stateBlockNumber targetBlockNumber"
  define settled where "settled = map (\<lambda>url. (url, ?run url)) relayUrls"
  from assms have minimum: "(case minimum of None \<Rightarrow> 1 | Some n \<Rightarrow> n) \<le> int (length (accepted_targets settled))"
      "1 \<le> (case minimum of None \<Rightarrow> 1 | Some n \<Rightarrow> n)"
    and results: "successful = accepted_targets settled" "failures = failed_targets endpointLabel settled"
    by (auto simp: simulateSignedBundleEveryRelay_def settled_def Let_def split: if_splits)
  have counted: "length (accepted_targets results) + length (failed_targets endpointLabel results) = length results" for results :: "(string \<times> int result) list"
    by (induction results) (auto simp: accepted_targets_def failed_targets_def split: sum.splits)
  have members: "(url, answer) \<in> set (accepted_targets settled) \<longleftrightarrow> url \<in> set relayUrls \<and> ?run url = ok answer" for url answer
    by (auto simp: accepted_targets_def settled_def split: sum.splits)
  have authentic: "0 < totalGas \<and> (\<exists>simulation. relay_result relay (CallBundle targetBlockNumber stateBlockNumber transactions) url simulation \<and>
      simulated_bundle keccak256 transactions stateBlockNumber simulation totalGas)" if "?run url = ok totalGas" for url totalGas
  proof -
    from that obtain simulation where simulation: "transactions \<noteq> []"
        "authenticatedRelayRequest relay (CallBundle targetBlockNumber stateBlockNumber transactions) url = ok simulation"
        "check_simulation keccak256 text_of transactions stateBlockNumber simulation = ok totalGas"
      by (auto simp: simulateBundle_def bindR_eq_Inr_iff split: if_splits)
    note simulated = check_simulation_simulated [OF simulation(3)]
    then have "0 < totalGas" by (rule simulated_gas_positive) (rule simulation(1))
    with simulated authenticated_result [OF simulation(2)] show ?thesis by blast
  qed
  show ?thesis
    using minimum counted [of settled] members authentic
    by (auto simp: results list_all_iff) (simp add: settled_def)
qed


text \<open>Two relays simulate a bundle of two transactions; a third is not reached.\<close>

definition sample_simulation :: js_value where
  "sample_simulation = ObjectValue [(''stateBlockNumber'', TextValue ''0x10''), (''bundleHash'', TextValue ''#0x''),
     (''results'', ArrayValue [ObjectValue [(''txHash'', TextValue ''#a''), (''gasUsed'', NumberValue 21000)],
       ObjectValue [(''txHash'', TextValue ''#B''), (''gasUsed'', TextValue ''0x64''), (''revert'', TextValue ''0x'')]]),
     (''totalGasUsed'', NumberValue 21100)]"

definition sample_relay :: relay_endpoint where
  "sample_relay request url = (if url = ''c'' then throw ''unreachable'' else
     ok \<lparr>rr_json = ok (ObjectValue [(''jsonrpc'', TextValue ''2.0''), (''id'', NumberValue 1), (''result'', sample_simulation)]),
       rr_ok = True, rr_status = 200\<rparr>)"

theorem simulated_bundle_is_authentic_witness:
  "case simulateSignedBundleEveryRelay (\<lambda>text. CHR ''#'' # text) (\<lambda>_. []) id sample_relay [''a'', ''b'', ''c''] (Some 2) [''a'', ''b''] 16 17 of
     Inl _ \<Rightarrow> False
   | Inr (failures, successful) \<Rightarrow> 2 \<le> int (length successful) \<and> length successful + length failures = 3"
proof -
  have "case simulateSignedBundleEveryRelay (\<lambda>text. CHR ''#'' # text) (\<lambda>_. []) id sample_relay [''a'', ''b'', ''c''] (Some 2) [''a'', ''b''] 16 17 of
      Inl _ \<Rightarrow> False | Inr _ \<Rightarrow> True" by code_simp
  then obtain failures successful where simulated:
      "simulateSignedBundleEveryRelay (\<lambda>text. CHR ''#'' # text) (\<lambda>_. []) id sample_relay [''a'', ''b'', ''c''] (Some 2) [''a'', ''b''] 16 17
        = Inr (failures, successful)" by (auto split: sum.splits)
  from simulated_bundle_is_authentic [OF simulated] show ?thesis by (simp add: simulated)
qed

end
