(* ===== verification/Submission_Journal.thy ===== *)
theory Submission_Journal
  imports Receipts Relay_Submission Fork_Migration
begin

text \<open>
  The journal of signed transactions of the liquidator: \<open>submitCall\<close> of
  \<open>bots/liquidator/src/execution/liquidation-executor.ts\<close>, \<open>recoverPendingTransactions\<close> of
  \<open>recovery.ts\<close>, \<open>core/cycle-control.ts\<close>, \<open>core/transaction-reconciliation.ts\<close> and the journal part of
  \<open>state/operator-state.ts\<close>.

  An operation passes the state of the bot and the history of its effects: what was awaited, checked,
  saved, recorded and submitted. Everything outside is an environment that answers from the history so far, so it
  may answer the same question differently at different times; a pause may come at any await. A read by
  quorum is its result. The history tells what a crash leaves: the state on the disk is the last one saved.
  It also notes what was established of a transaction, a final receipt, an expiry, a final replacement, and which
  blocks were searched for the outcome of a staged operation.
\<close>

section \<open>The state\<close>

datatype IntentKind = DeploymentIntent | DepositIntent | FeesIntent | LiquidationIntent | MigrationIntent | WithdrawalIntent

datatype ActivityKind = ConfigurationActivity | ErrorActivity | RecoveryActivity | ScanActivity | IntentActivity IntentKind

datatype ActivityStatus = Confirmed | DryRun | Failed | Info | Pending

record Activity =
  ac_details :: "string option"
  ac_hash :: "string option"
  ac_kind :: ActivityKind
  ac_message :: string
  ac_status :: ActivityStatus

record CandidateOutcome = StagedOperationOutcome +
  co_blockHash :: string
  co_blockNumber :: int
  co_transactionHash :: string

text \<open>A log with its place in the chain, which an answer may leave out.\<close>

record ChainLog = TransactionLog +
  xl_blockHash :: "string option"
  xl_blockNumber :: "int option"
  xl_transactionHash :: "string option"

record PendingStagedOperation =
  pg_candidateOutcome :: "CandidateOutcome option"
  pg_coordinator :: string
  pg_historicalRecoveryComplete :: bool
  pg_latestRecoveryBlock :: "int option"
  pg_nextHistoricalBlock :: "int option"
  pg_operationId :: int
  pg_queuedBlock :: int
  pg_recoveryAnchorBlock :: "int option"
  pg_recoveryAnchorHash :: "string option"
  pg_target :: string

record PendingTransactionIntent =
  pt_hash :: string
  pt_kind :: IntentKind
  pt_label :: string
  pt_maxBlockNumber :: int
  pt_mode :: SubmissionMode
  pt_nonce :: int
  pt_receiptExpectation :: ReceiptExpectation
  pt_requiresMarketEvidence :: bool
  pt_sender :: string
  pt_serializedTransaction :: string
  pt_submissionBlock :: int

text \<open>The fields that are saved and that the operations below change.\<close>

record RuntimeState =
  rt_activities :: "Activity list"
  rt_pendingStagedOperations :: "PendingStagedOperation list"
  rt_pendingTransactions :: "PendingTransactionIntent list"

definition initialRuntimeState :: RuntimeState where
  "initialRuntimeState = \<lparr>rt_activities = [], rt_pendingStagedOperations = [], rt_pendingTransactions = []\<rparr>"

text \<open>The settings the operations read; the wallet is the account of the signer.\<close>

record OperatorSettings =
  os_approvedUniverses :: "int list"
  os_chainId :: int
  os_historicalLogRecovery :: bool
  os_logLookbackBlocks :: int
  os_publicRpcUrls :: "string list"
  os_readEndpoints :: "string list"
  os_rpcQuorum :: nat
  os_securityPoolFactory :: string
  os_selectedPools :: "string list"
  os_strategy :: StrategySettings
  os_submission :: SubmissionSettings
  os_wallet :: string
  os_weth :: string

section \<open>Effects and operations\<close>

datatype history_event =
  Awaited
| MarketConfirmed
| Saved RuntimeState
| Recorded Activity
| Submitted string
| FinalReceipt string
| Expired string
| Replaced string string
| Scanned string int int int
| RecoveryReset string int
| Restarted

type_synonym history = "history_event list"

datatype cycle_error =
  ReadFailure quorum_error
| SubmissionError submission_error
| TransactionAwaitingCanonicalFinality string string

abbreviation own_error :: "string \<Rightarrow> cycle_error" where
  "own_error message \<equiv> ReadFailure (OwnError (Error message))"

text \<open>An await may never be answered: the operation then hangs until the process is stopped.\<close>

datatype 'a outcome = Returned 'a | Threw cycle_error | Hangs

type_synonym 'a operation = "RuntimeState \<times> history \<Rightarrow> 'a outcome \<times> RuntimeState \<times> history"

definition returning :: "'a \<Rightarrow> 'a operation" where
  "returning x = (\<lambda>(state, past). (Returned x, state, past))"

definition throwing :: "string \<Rightarrow> 'a operation" where
  "throwing message = (\<lambda>(state, past). (Threw (own_error message), state, past))"

definition andThen :: "'a operation \<Rightarrow> ('a \<Rightarrow> 'b operation) \<Rightarrow> 'b operation" where
  "andThen m f = (\<lambda>s. case m s of
     (Returned x, s') \<Rightarrow> f x s'
   | (Threw e, s') \<Rightarrow> (Threw e, s')
   | (Hangs, s') \<Rightarrow> (Hangs, s'))"

definition catching :: "'a operation \<Rightarrow> (cycle_error \<Rightarrow> 'a operation) \<Rightarrow> 'a operation" where
  "catching m handler = (\<lambda>s. case m s of (Threw e, s') \<Rightarrow> handler e s' | r \<Rightarrow> r)"

definition rethrowing :: "cycle_error \<Rightarrow> 'a operation" where
  "rethrowing e = (\<lambda>(state, past). (Threw e, state, past))"

definition reading :: "(RuntimeState \<Rightarrow> 'a) \<Rightarrow> 'a operation" where
  "reading f = (\<lambda>(state, past). (Returned (f state), state, past))"

definition updating :: "(RuntimeState \<Rightarrow> RuntimeState) \<Rightarrow> unit operation" where
  "updating f = (\<lambda>(state, past). (Returned (), f state, past))"

definition emitting :: "history_event \<Rightarrow> unit operation" where
  "emitting event = (\<lambda>(state, past). (Returned (), state, past @ [event]))"

definition lifting :: "'a result \<Rightarrow> 'a operation" where
  "lifting r = (\<lambda>(state, past). (case r of Inl e \<Rightarrow> Threw (ReadFailure (OwnError e)) | Inr x \<Rightarrow> Returned x, state, past))"

definition awaiting :: "(history \<Rightarrow> 'a quorum_result) \<Rightarrow> 'a operation" where
  "awaiting answer = (\<lambda>(state, past).
     (case answer past of None \<Rightarrow> Hangs | Some (Inl e) \<Rightarrow> Threw (ReadFailure e) | Some (Inr x) \<Rightarrow> Returned x, state, past @ [Awaited]))"

definition when_then :: "bool \<Rightarrow> string \<Rightarrow> unit operation" where
  "when_then condition message = (if condition then throwing message else returning ())"

section \<open>The environment\<close>

text \<open>A save writes the whole state, or throws before or after it has.\<close>

datatype save_answer = Written | NotWritten cycle_error | WrittenUnsynced cycle_error

text \<open>The calls of contracts the bot makes, with the arguments it passes.\<close>

datatype contract_call =
  Approve string int
| DepositRepToVault int int
| DeployOriginSecurityPool int int int int
| MigrateVault string int
| RedeemFees string
| StageLiquidation string string int string int int int
| StageOperation int string int int int int
| WrapEth

record signing_block =
  sb_baseFeePerGas :: "int option"
  sb_number :: "int option"

record environment =
  en_allowance :: "history \<Rightarrow> string \<Rightarrow> string \<Rightarrow> int quorum_result"
  en_balance :: "history \<Rightarrow> string \<Rightarrow> int quorum_result"
  en_blockNumbers :: "history \<Rightarrow> int settled list"
  en_canSign :: bool
  en_canonicalBlockHash :: "history \<Rightarrow> int \<Rightarrow> string quorum_result"
  en_chainIdOf :: "string \<Rightarrow> int option"
  en_decode :: event_decoder
  en_endpointLabel :: "string \<Rightarrow> string"
  en_keccak256 :: "string \<Rightarrow> string"
  en_logs :: "history \<Rightarrow> string \<Rightarrow> int \<Rightarrow> int \<Rightarrow> ChainLog list settled list"
  en_encodeFunctionData :: "contract_call \<Rightarrow> string"
  en_marketAllows :: "history \<Rightarrow> PoolObservation \<Rightarrow> bool"
  en_paused :: "history \<Rightarrow> bool"
  en_pendingNonce :: "history \<Rightarrow> int quorum_result"
  en_persistSettings :: "history \<Rightarrow> unit quorum_result"
  en_priceStillAllowed :: "history \<Rightarrow> PoolObservation \<Rightarrow> bool quorum_result"
  en_publicSubmit :: "history \<Rightarrow> string \<Rightarrow> string \<Rightarrow> string result"
  en_readers :: "history \<Rightarrow> CanonicalBlockReader list"
  en_receipts :: "history \<Rightarrow> string \<Rightarrow> TransactionReceipt settled list"
  en_relay :: "history \<Rightarrow> relay_endpoint"
  en_save :: "history \<Rightarrow> save_answer"
  en_sign :: "history \<Rightarrow> unsigned_transaction \<Rightarrow> string result"
  en_signingBlock :: "history \<Rightarrow> signing_block quorum_result"
  en_simulation :: "history \<Rightarrow> unit quorum_result"
  en_waitForReceipt :: "history \<Rightarrow> unit quorum_result"
  en_world :: error_world

section \<open>State and disk\<close>

definition recordActivity :: "Activity \<Rightarrow> unit operation" where
  "recordActivity activity =
     andThen (updating (\<lambda>state. state\<lparr>rt_activities := take 500 (activity # rt_activities state)\<rparr>)) (\<lambda>_. emitting (Recorded activity))"

definition saveDurableState :: "environment \<Rightarrow> unit operation" where
  "saveDurableState env = (\<lambda>(state, past). case en_save env past of
     Written \<Rightarrow> (Returned (), state, past @ [Saved state])
   | NotWritten e \<Rightarrow> (Threw e, state, past @ [Awaited])
   | WrittenUnsynced e \<Rightarrow> (Threw e, state, past @ [Saved state]))"

definition assertExecutionActive :: "environment \<Rightarrow> unit operation" where
  "assertExecutionActive env = (\<lambda>(state, past).
     when_then (en_paused env past) ''Operator paused before transaction submission'' (state, past))"

text \<open>Removing the intent of a transaction, in memory.\<close>

definition forgetIntent :: "string \<Rightarrow> unit operation" where
  "forgetIntent hash = updating (\<lambda>state. state\<lparr>rt_pendingTransactions :=
     filter (\<lambda>intent. toLowerCase (pt_hash intent) \<noteq> toLowerCase hash) (rt_pendingTransactions state)\<rparr>)"

definition resolveRecoveredIntentJournal :: "string \<Rightarrow> receipt_status option \<Rightarrow> bool operation" where
  "resolveRecoveredIntentJournal hash receiptStatus =
     (if receiptStatus = None then returning False else andThen (forgetIntent hash) (\<lambda>_. returning True))"

definition recoveredIntentCanBeResubmitted :: "PendingTransactionIntent \<Rightarrow> bool" where
  "recoveredIntentCanBeResubmitted intent \<longleftrightarrow> \<not> pt_requiresMarketEvidence intent"

definition assertIntentSender :: "string \<Rightarrow> string \<Rightarrow> unit result" where
  "assertIntentSender intentSender activeSender =
     (if toLowerCase intentSender \<noteq> toLowerCase activeSender
      then throw (''Pending transaction belongs to '' @ intentSender @ '', but the active signer is '' @ activeSender) else ok ())"

section \<open>Submitting a call\<close>

record Call =
  ca_data :: string
  ca_gas :: int
  ca_label :: string
  ca_preSubmit :: "PoolObservation option"
  ca_receiptExpectation :: "ReceiptExpectation option"
  ca_to :: string
  ca_value :: "int option"

definition maximumFeePerGas :: "int \<Rightarrow> int" where
  "maximumFeePerGas baseFeePerGas = baseFeePerGas * 2 + 2 * 10 ^ 9"

definition assertGasCostLimit :: "int \<Rightarrow> int \<Rightarrow> int \<Rightarrow> string \<Rightarrow> unit result" where
  "assertGasCostLimit gasEstimate maxFeePerGas maximumGasCost label =
     (if maxFeePerGas * paddedTransactionGas gasEstimate > maximumGasCost
      then throw (label @ '' estimated gas ceiling exceeds strategy.maximumGasCostAttoEth'') else ok ())"

text \<open>The check of the market that price-dependent calls carry as \<open>preSubmit\<close>, of the price of a pool.\<close>

definition assertMarketPriceStillAllowed :: "environment \<Rightarrow> PoolObservation \<Rightarrow> unit operation" where
  "assertMarketPriceStillAllowed env pool =
     andThen (awaiting (\<lambda>past. en_priceStillAllowed env past pool)) (\<lambda>allowed.
       if allowed then emitting MarketConfirmed
       else throwing ''Market consensus expired or no longer confirms the price before transaction submission'')"

definition pre_submit :: "environment \<Rightarrow> Call \<Rightarrow> unit operation" where
  "pre_submit env call = (case ca_preSubmit call of None \<Rightarrow> returning () | Some pool \<Rightarrow> assertMarketPriceStillAllowed env pool)"

definition finalized_receipt :: "environment \<Rightarrow> OperatorSettings \<Rightarrow> string \<Rightarrow> receipt_result operation" where
  "finalized_receipt env settings hash =
     andThen (awaiting (\<lambda>past. finalizedReceiptWithQuorum (en_world env) (en_readers env past) (os_readEndpoints settings)
       (en_receipts env past hash) hash (os_rpcQuorum settings))) (\<lambda>result.
     case result of
       Finalized receipt \<Rightarrow> andThen (emitting (FinalReceipt hash)) (\<lambda>_. returning result)
     | _ \<Rightarrow> returning result)"

definition requireFinalizedTransactionReceipt :: "string \<Rightarrow> string \<Rightarrow> receipt_result \<Rightarrow> TransactionReceipt operation" where
  "requireFinalizedTransactionReceipt label hash result = (case result of
     Finalized receipt \<Rightarrow> returning receipt
   | NotObserved \<Rightarrow> throwing (label @ '' receipt disappeared before canonical finality'')
   | ObservedOnly \<Rightarrow> rethrowing (TransactionAwaitingCanonicalFinality label hash))"

text \<open>The signed transaction goes to the endpoints; what they answer decides whether the call returns.\<close>

definition submit_signed :: "environment \<Rightarrow> OperatorSettings \<Rightarrow> string \<Rightarrow> int \<Rightarrow> string \<Rightarrow> unit operation" where
  "submit_signed env settings hash maxBlockNumber serializedTransaction = andThen (emitting (Submitted hash)) (\<lambda>_ (state, past).
     (case submitSignedTransaction (en_endpointLabel env) (en_relay env past) (en_publicSubmit env past) (os_publicRpcUrls settings)
         (os_submission settings) hash maxBlockNumber serializedTransaction of
        Inl e \<Rightarrow> Threw (SubmissionError e) | Inr _ \<Rightarrow> Returned (), state, past))"

text \<open>The operation a receipt queued is remembered until its outcome is known.\<close>

definition queue_staged_operation :: "ReceiptExpectation \<Rightarrow> TransactionReceipt \<Rightarrow> int option \<Rightarrow> unit operation" where
  "queue_staged_operation expectation receipt queuedOperationId = (case (queuedOperationId, expectation) of
     (Some operationId, PendingLiquidation amount coordinator operator receiver target) \<Rightarrow>
       updating (\<lambda>state. state\<lparr>rt_pendingStagedOperations := rt_pendingStagedOperations state @
         [\<lparr>pg_candidateOutcome = None, pg_coordinator = coordinator, pg_historicalRecoveryComplete = False, pg_latestRecoveryBlock = None,
           pg_nextHistoricalBlock = None, pg_operationId = operationId, pg_queuedBlock = rx_blockNumber receipt,
           pg_recoveryAnchorBlock = None, pg_recoveryAnchorHash = None, pg_target = target\<rparr>]\<rparr>)
   | _ \<Rightarrow> returning ())"

definition call_details :: "Call \<Rightarrow> string" where
  "call_details call = ''to='' @ ca_to call @ '' data='' @ ca_data call @ '' value='' @
     bigint_to_string (case ca_value call of None \<Rightarrow> 0 | Some amount \<Rightarrow> amount)"

definition signed_intent :: "OperatorSettings \<Rightarrow> Call \<Rightarrow> IntentKind \<Rightarrow> int \<Rightarrow> SignedTransaction \<Rightarrow> PendingTransactionIntent" where
  "signed_intent settings call kind submissionBlock signed =
     \<lparr>pt_hash = sg_hash signed, pt_kind = kind, pt_label = ca_label call, pt_maxBlockNumber = sg_maxBlockNumber signed,
      pt_mode = sx_mode (os_submission settings), pt_nonce = bt_nonce (sg_transaction signed),
      pt_receiptExpectation = (case ca_receiptExpectation call of None \<Rightarrow> AnyTransaction | Some expectation \<Rightarrow> expectation),
      pt_requiresMarketEvidence = (ca_preSubmit call \<noteq> None), pt_sender = os_wallet settings,
      pt_serializedTransaction = sg_serializedTransaction signed, pt_submissionBlock = submissionBlock\<rparr>"

text \<open>The first part of \<open>submitCall\<close>: reads, checks and signing.\<close>

definition sign_call :: "environment \<Rightarrow> OperatorSettings \<Rightarrow> Call \<Rightarrow> IntentKind \<Rightarrow> PendingTransactionIntent operation" where
  "sign_call env settings call kind =
     andThen (assertExecutionActive env) (\<lambda>_.
     andThen (when_then (\<not> en_canSign env) ''Execution signer cannot sign transactions'') (\<lambda>_.
     andThen (awaiting (en_signingBlock env)) (\<lambda>block.
     case (sb_number block, sb_baseFeePerGas block) of
       (Some blockNumber, Some baseFeePerGas) \<Rightarrow>
         andThen (assertExecutionActive env) (\<lambda>_.
         andThen (lifting (assertGasCostLimit (ca_gas call) (maximumFeePerGas baseFeePerGas)
           (ss_maximumGasCostAttoEth (os_strategy settings)) (ca_label call))) (\<lambda>_.
         andThen (awaiting (en_simulation env)) (\<lambda>_.
         andThen (assertExecutionActive env) (\<lambda>_.
         andThen (recordActivity \<lparr>ac_details = Some (call_details call), ac_hash = None, ac_kind = IntentActivity kind,
           ac_message = ''Preparing: '' @ ca_label call, ac_status = Info\<rparr>) (\<lambda>_.
         andThen (saveDurableState env) (\<lambda>_.
         andThen (awaiting (en_pendingNonce env)) (\<lambda>nonce.
         andThen (assertExecutionActive env) (\<lambda>_.
         andThen (awaiting (\<lambda>past. own_result (prepareSignedTransaction (en_keccak256 env) (en_sign env past)
           \<lparr>sp_baseFeePerGas = baseFeePerGas, sp_blockNumber = blockNumber, sp_chainId = os_chainId settings, sp_data = ca_data call,
            sp_from = os_wallet settings, sp_gasEstimate = ca_gas call, sp_lastValidBlockNumber = None, sp_nonce = nonce, sp_to = ca_to call,
            sp_value = ca_value call\<rparr>))) (\<lambda>signed.
         andThen (pre_submit env call) (\<lambda>_.
         returning (signed_intent settings call kind blockNumber signed)))))))))))
     | _ \<Rightarrow> throwing ''Latest block is missing number or base fee'')))"

text \<open>The second part: the intent is saved, checked once more, and submitted.\<close>

definition persist_intent :: "environment \<Rightarrow> PendingTransactionIntent \<Rightarrow> unit operation" where
  "persist_intent env intent =
     andThen (updating (\<lambda>state. state\<lparr>rt_pendingTransactions := rt_pendingTransactions state @ [intent]\<rparr>)) (\<lambda>_.
     andThen (recordActivity \<lparr>ac_details = None, ac_hash = Some (pt_hash intent), ac_kind = IntentActivity (pt_kind intent),
       ac_message = ''Signed intent persisted: '' @ pt_label intent, ac_status = Pending\<rparr>) (\<lambda>_.
     saveDurableState env))"

definition abandon_intent :: "environment \<Rightarrow> PendingTransactionIntent \<Rightarrow> cycle_error \<Rightarrow> unit operation" where
  "abandon_intent env intent error =
     andThen (forgetIntent (pt_hash intent)) (\<lambda>_.
     andThen (recordActivity \<lparr>ac_details = None, ac_hash = Some (pt_hash intent), ac_kind = IntentActivity (pt_kind intent),
       ac_message = ''Persisted intent abandoned after final market check: '' @ pt_label intent, ac_status = Failed\<rparr>) (\<lambda>_.
     andThen (saveDurableState env) (\<lambda>_. rethrowing error)))"

text \<open>The third part: the receipt of what was submitted.\<close>

definition confirm_intent :: "environment \<Rightarrow> OperatorSettings \<Rightarrow> PendingTransactionIntent \<Rightarrow> string operation" where
  "confirm_intent env settings intent =
     andThen (awaiting (en_waitForReceipt env)) (\<lambda>_.
     andThen (finalized_receipt env settings (pt_hash intent)) (\<lambda>receiptResult.
     andThen (requireFinalizedTransactionReceipt (pt_label intent) (pt_hash intent) receiptResult) (\<lambda>receipt.
     andThen (when_then (rx_status receipt \<noteq> Success) (pt_label intent @ '' reverted in transaction '' @ rx_transactionHash receipt)) (\<lambda>_.
     andThen (lifting (validateReceiptExpectation (en_decode env) receipt (pt_receiptExpectation intent))) (\<lambda>queuedOperationId.
     andThen (queue_staged_operation (pt_receiptExpectation intent) receipt queuedOperationId) (\<lambda>_.
     andThen (forgetIntent (rx_transactionHash receipt)) (\<lambda>_.
     andThen (recordActivity \<lparr>ac_details = None, ac_hash = Some (rx_transactionHash receipt), ac_kind = IntentActivity (pt_kind intent),
       ac_message = pt_label intent, ac_status = Confirmed\<rparr>) (\<lambda>_.
     andThen (saveDurableState env) (\<lambda>_.
     returning (rx_transactionHash receipt))))))))))"

definition submitCall :: "environment \<Rightarrow> OperatorSettings \<Rightarrow> Call \<Rightarrow> IntentKind \<Rightarrow> string operation" where
  "submitCall env settings call kind =
     andThen (sign_call env settings call kind) (\<lambda>intent.
     andThen (persist_intent env intent) (\<lambda>_.
     andThen (assertExecutionActive env) (\<lambda>_.
     andThen (catching (pre_submit env call) (abandon_intent env intent)) (\<lambda>_.
     andThen (submit_signed env settings (pt_hash intent) (pt_maxBlockNumber intent) (pt_serializedTransaction intent)) (\<lambda>_.
     confirm_intent env settings intent)))))"

section \<open>Recovering the journal\<close>

datatype RecoveryAction = Resubmit | ExpirePrivate | Retain

definition ambiguousRecoveryAction :: "PendingTransactionIntent \<Rightarrow> int list \<Rightarrow> RecoveryAction" where
  "ambiguousRecoveryAction intent canonicalHeads =
     (if \<not> pt_requiresMarketEvidence intent then Resubmit
      else if pt_mode intent = PrivateMode \<and> canonicalHeads \<noteq> [] \<and>
        list_all (\<lambda>head. head \<ge> pt_maxBlockNumber intent + PRIVATE_INTENT_FINALITY_BLOCKS) canonicalHeads then ExpirePrivate
      else Retain)"

definition requireRecoveredTransactionSuccess :: "receipt_status \<Rightarrow> string \<Rightarrow> unit result" where
  "requireRecoveredTransactionSuccess status hash =
     (if status = Reverted then throw (''Recovered transaction '' @ hash @ '' reverted'') else ok ())"

definition recovered_activity :: "PendingTransactionIntent \<Rightarrow> receipt_status \<Rightarrow> Activity" where
  "recovered_activity intent status =
     \<lparr>ac_details = None, ac_hash = Some (pt_hash intent), ac_kind = IntentActivity (pt_kind intent),
      ac_message = (if status = Success then ''Recovered confirmation: '' else ''Recovered revert: '') @ pt_label intent,
      ac_status = (if status = Success then Confirmed else Failed)\<rparr>"

text \<open>An intent whose receipt is final leaves the journal.\<close>

definition recover_final :: "environment \<Rightarrow> PendingTransactionIntent \<Rightarrow> TransactionReceipt \<Rightarrow> bool operation" where
  "recover_final env intent receipt =
     andThen (lifting (if rx_status receipt = Success
       then validateReceiptExpectation (en_decode env) receipt (pt_receiptExpectation intent) else ok None)) (\<lambda>queuedOperationId.
     andThen (queue_staged_operation (pt_receiptExpectation intent) receipt queuedOperationId) (\<lambda>_.
     andThen (resolveRecoveredIntentJournal (pt_hash intent) (Some (rx_status receipt))) (\<lambda>_.
     andThen (recordActivity (recovered_activity intent (rx_status receipt))) (\<lambda>_.
     andThen (saveDurableState env) (\<lambda>_.
     andThen (lifting (requireRecoveredTransactionSuccess (rx_status receipt) (pt_hash intent))) (\<lambda>_.
     returning False))))))"

definition expire_private :: "environment \<Rightarrow> PendingTransactionIntent \<Rightarrow> bool operation" where
  "expire_private env intent =
     andThen (awaiting (\<lambda>past. en_canonicalBlockHash env past (pt_maxBlockNumber intent + PRIVATE_INTENT_FINALITY_BLOCKS))) (\<lambda>_.
     andThen (emitting (Expired (pt_hash intent))) (\<lambda>_.
     andThen (forgetIntent (pt_hash intent)) (\<lambda>_.
     andThen (recordActivity \<lparr>ac_details = None, ac_hash = Some (pt_hash intent), ac_kind = IntentActivity (pt_kind intent),
       ac_message = ''Private price-dependent intent expired after canonical finality without inclusion: '' @ pt_label intent,
       ac_status = Failed\<rparr>) (\<lambda>_.
     andThen (saveDurableState env) (\<lambda>_.
     returning False)))))"

definition resubmit_intent :: "environment \<Rightarrow> OperatorSettings \<Rightarrow> PendingTransactionIntent \<Rightarrow> bool operation" where
  "resubmit_intent env settings intent =
     andThen (when_then (\<not> recoveredIntentCanBeResubmitted intent)
       (''Price-dependent transaction '' @ pt_hash intent @ '' cannot be resubmitted without fresh market evidence'')) (\<lambda>_.
     andThen (when_then (\<not> en_canSign env) ''Execution signer cannot authenticate transaction recovery'') (\<lambda>_.
     andThen (submit_signed env settings (pt_hash intent) (pt_maxBlockNumber intent) (pt_serializedTransaction intent)) (\<lambda>_.
     returning True)))"

definition retained_message :: "PendingTransactionIntent \<Rightarrow> string" where
  "retained_message intent = ''Price-dependent transaction '' @ pt_hash intent @ '' remains ambiguous; '' @
     (case pt_mode intent of PublicMode \<Rightarrow> ''manual reconciliation or a later receipt is required''
      | PrivateMode \<Rightarrow> ''private validity and '' @ bigint_to_string PRIVATE_INTENT_FINALITY_BLOCKS @ '' canonical confirmation blocks must pass'')"

text \<open>One intent of the journal: \<open>True\<close> ends the recovery of this cycle.\<close>

definition recover_intent :: "environment \<Rightarrow> OperatorSettings \<Rightarrow> PendingTransactionIntent \<Rightarrow> bool operation" where
  "recover_intent env settings intent =
     andThen (lifting (assertIntentSender (pt_sender intent) (os_wallet settings))) (\<lambda>_.
     andThen (when_then (en_chainIdOf env (pt_serializedTransaction intent) \<noteq> Some (os_chainId settings))
       (''Pending transaction '' @ pt_hash intent @ '' was signed for a different chain'')) (\<lambda>_.
     andThen (finalized_receipt env settings (pt_hash intent)) (\<lambda>receiptResult.
     case receiptResult of
       Finalized receipt \<Rightarrow> recover_final env intent receipt
     | ObservedOnly \<Rightarrow> returning True
     | NotObserved \<Rightarrow>
         andThen (awaiting (en_pendingNonce env)) (\<lambda>nonce.
         andThen (when_then (nonce > pt_nonce intent) (''Transaction '' @ pt_hash intent @ '' has no receipt but signer nonce '' @
           bigint_to_string (pt_nonce intent) @ '' was consumed; manual reconciliation is required'')) (\<lambda>_.
         andThen (awaiting (\<lambda>past. bindQ (availableSettledValues (en_world env) (en_blockNumbers env past)) (\<lambda>blocks.
           if length blocks < os_rpcQuorum settings
           then Some (Inl (ConnectivityDegradedError (''Transaction '' @ pt_hash intent @ '' recovery does not satisfy the configured RPC quorum requirement'')))
           else Some (Inr blocks)))) (\<lambda>blocks.
         case ambiguousRecoveryAction intent blocks of
           ExpirePrivate \<Rightarrow> expire_private env intent
         | Retain \<Rightarrow> throwing (retained_message intent)
         | Resubmit \<Rightarrow> resubmit_intent env settings intent))))))"

fun recover_loop :: "environment \<Rightarrow> OperatorSettings \<Rightarrow> PendingTransactionIntent list \<Rightarrow> bool operation" where
  "recover_loop env settings [] = returning False"
| "recover_loop env settings (intent # rest) =
     andThen (recover_intent env settings intent) (\<lambda>blocked. if blocked then returning True else recover_loop env settings rest)"

definition recoverPendingTransactions :: "environment \<Rightarrow> OperatorSettings \<Rightarrow> bool operation" where
  "recoverPendingTransactions env settings = andThen (reading rt_pendingTransactions) (recover_loop env settings)"

section \<open>Reconciling a replaced transaction\<close>

record FinalizedReplacementEvidence =
  fe_blockHash :: string
  fe_blockNumber :: int
  fe_from :: string
  fe_hash :: string
  fe_nonce :: int
  fe_status :: receipt_status

text \<open>The first hash is that of the intent, the second that of its replacement.\<close>

definition is_hash :: "string \<Rightarrow> bool" where
  "is_hash s \<longleftrightarrow> take 2 s = ''0x'' \<and> length s = 66 \<and> list_all is_hex_digit (drop 2 s)"

definition transactionHash :: "js_value \<Rightarrow> string \<Rightarrow> string result" where
  "transactionHash hash label = (case hash of
     TextValue s \<Rightarrow> if is_hash s then ok s else throw (label @ '' must be a transaction hash'')
   | _ \<Rightarrow> throw (label @ '' must be a transaction hash''))"

definition parseTransactionReconciliation :: "js_value \<Rightarrow> (string \<times> string) result" where
  "parseTransactionReconciliation request = (case request of
     ObjectValue entries \<Rightarrow>
       bindR (transactionHash (property entries ''intentHash'') ''intentHash'') (\<lambda>intentHash.
       bindR (transactionHash (property entries ''replacementHash'') ''replacementHash'') (\<lambda>replacementHash.
       ok (intentHash, replacementHash)))
   | _ \<Rightarrow> throw ''Transaction reconciliation request must be an object'')"

definition validateReconciliationIntentChain :: "(string \<Rightarrow> int option) \<Rightarrow> string \<Rightarrow> int \<Rightarrow> unit result" where
  "validateReconciliationIntentChain chainIdOf serializedTransaction chainId =
     (if chainIdOf serializedTransaction \<noteq> Some chainId then throw ''Pending transaction intent was signed for a different chain'' else ok ())"

definition validateFinalizedReplacement ::
  "(string \<Rightarrow> string result) \<Rightarrow> PendingTransactionIntent \<Rightarrow> string \<Rightarrow> FinalizedReplacementEvidence \<Rightarrow> unit result" where
  "validateFinalizedReplacement getAddress intent requestedHash replacement =
     (if toLowerCase (fe_hash replacement) = toLowerCase (pt_hash intent)
      then throw ''Use automatic receipt recovery for the original transaction hash''
      else if toLowerCase (fe_hash replacement) \<noteq> toLowerCase requestedHash then throw ''Replacement RPC returned another transaction''
      else bindR (getAddress (fe_from replacement)) (\<lambda>from.
        if toLowerCase from \<noteq> toLowerCase (pt_sender intent) then throw ''Replacement transaction was sent by another account''
        else if fe_nonce replacement \<noteq> pt_nonce intent then throw ''Replacement transaction did not consume the pending intent nonce''
        else ok ()))"

text \<open>The readers are the evidence, the heads and the canonical hashes they give.\<close>

definition verifyFinalizedReplacement ::
  "(string \<Rightarrow> string result) \<Rightarrow> PendingTransactionIntent \<Rightarrow> string \<Rightarrow> int \<Rightarrow> FinalizedReplacementEvidence option \<Rightarrow>
   int list quorum_result \<Rightarrow> (int \<Rightarrow> string quorum_result) \<Rightarrow> FinalizedReplacementEvidence quorum_result" where
  "verifyFinalizedReplacement getAddress intent requestedHash finalityBlocks evidence currentHeads canonicalBlockHash = (case evidence of
     None \<Rightarrow> own_result (throw ''Replacement transaction is not confirmed by the RPC quorum'')
   | Some replacement \<Rightarrow>
       bindQ (own_result (validateFinalizedReplacement getAddress intent requestedHash replacement)) (\<lambda>_.
       let finalityBlock = fe_blockNumber replacement + finalityBlocks in
       bindQ currentHeads (\<lambda>heads.
       if list_ex (\<lambda>head. head < finalityBlock) heads
       then own_result (throw ''Replacement transaction has not reached the required canonical finality depth'')
       else bindQ (canonicalBlockHash (fe_blockNumber replacement)) (\<lambda>receiptBlockHash.
         if toLowerCase receiptBlockHash \<noteq> toLowerCase (fe_blockHash replacement)
         then own_result (throw ''Replacement transaction receipt is no longer canonical'')
         else bindQ (canonicalBlockHash finalityBlock) (\<lambda>_. Some (Inr replacement))))))"

text \<open>The reconciled state is saved before it becomes the state of the bot.\<close>

definition commitReconciledIntent :: "environment \<Rightarrow> string \<Rightarrow> Activity \<Rightarrow> unit operation" where
  "commitReconciledIntent env hash activity = (\<lambda>(state, past).
     (case andThen (forgetIntent hash) (\<lambda>_. andThen (recordActivity activity) (\<lambda>_.
         andThen (emitting (Replaced hash (case ac_hash activity of None \<Rightarrow> [] | Some replacement \<Rightarrow> replacement))) (\<lambda>_.
         saveDurableState env))) (state, past) of
        (Returned _, reconciled, past') \<Rightarrow> (Returned (), reconciled, past')
      | (Threw e, reconciled, past') \<Rightarrow> (Threw e, state, past')
      | (Hangs, reconciled, past') \<Rightarrow> (Hangs, state, past')))"

definition reconcileTransaction ::
  "environment \<Rightarrow> OperatorSettings \<Rightarrow> (string \<Rightarrow> string result) \<Rightarrow> (history \<Rightarrow> FinalizedReplacementEvidence option quorum_result) \<Rightarrow>
   js_value \<Rightarrow> unit operation" where
  "reconcileTransaction env settings getAddress replacementEvidence request =
     andThen (\<lambda>(state, past). when_then (\<not> en_paused env past) ''Pause the bot before reconciling a replacement transaction'' (state, past)) (\<lambda>_.
     andThen (lifting (parseTransactionReconciliation request)) (\<lambda>(intentHash, replacementHash).
     andThen (reading (\<lambda>state. List.find (\<lambda>candidate. toLowerCase (pt_hash candidate) = toLowerCase intentHash) (rt_pendingTransactions state))) (\<lambda>found.
     case found of
       None \<Rightarrow> throwing ''Pending transaction intent was not found''
     | Some intent \<Rightarrow>
         andThen (lifting (validateReconciliationIntentChain (en_chainIdOf env) (pt_serializedTransaction intent) (os_chainId settings))) (\<lambda>_.
         andThen (awaiting replacementEvidence) (\<lambda>evidence.
         andThen (awaiting (\<lambda>past. verifyFinalizedReplacement getAddress intent replacementHash PRIVATE_INTENT_FINALITY_BLOCKS evidence
           (bindQ (availableSettledValues (en_world env) (en_blockNumbers env past)) (\<lambda>heads.
              if length heads < os_rpcQuorum settings
              then Some (Inl (ConnectivityDegradedError ''Replacement reconciliation does not satisfy the configured RPC quorum requirement''))
              else Some (Inr heads)))
           (en_canonicalBlockHash env past))) (\<lambda>replacement.
         commitReconciledIntent env (pt_hash intent)
           \<lparr>ac_details = Some (''original='' @ pt_hash intent @ '' replacement='' @ fe_hash replacement @ '' nonce='' @
              bigint_to_string (pt_nonce intent) @ '' replacementStatus='' @ status_text (fe_status replacement)),
            ac_hash = Some (fe_hash replacement), ac_kind = RecoveryActivity,
            ac_message = ''Finalized replacement reconciled: '' @ pt_label intent, ac_status = Confirmed\<rparr>))))))"

end
