(* ===== verification/Staged_Recovery.thy ===== *)
theory Staged_Recovery
  imports Submission_Journal
begin

text \<open>
  The outcome of staged operations: \<open>reconcilePendingStagedOperations\<close> of
  \<open>bots/liquidator/src/execution/recovery.ts\<close> with its cursor. The newest blocks are searched first, older ones
  in steps, until the event of the operation is found and final. An operation is known by its
  coordinator and identifier, which are distinct in the list.
\<close>

section \<open>The cursor\<close>

definition MAXIMUM_RECOVERY_LOG_RANGE :: int where "MAXIMUM_RECOVERY_LOG_RANGE = 256"

definition stagedOperationRecoveryRanges :: "int \<Rightarrow> int \<Rightarrow> LogRange list result" where
  "stagedOperationRecoveryRanges queuedBlock head =
     bindR (latestLogRange head MAXIMUM_RECOVERY_LOG_RANGE) (\<lambda>recent.
       newestFirstScanRanges (if lr_fromBlock recent > queuedBlock then lr_fromBlock recent else queuedBlock) head MAXIMUM_RECOVERY_LOG_RANGE)"

definition recordStagedRecoveryChunk ::
  "PendingStagedOperation \<Rightarrow> LogRange \<Rightarrow> CandidateOutcome option \<Rightarrow> bool \<Rightarrow> PendingStagedOperation" where
  "recordStagedRecoveryChunk pending chunk outcome historical =
     (if outcome \<noteq> None then pending\<lparr>pg_candidateOutcome := outcome\<rparr>
      else if historical then
        (if lr_fromBlock chunk = pg_queuedBlock pending
         then pending\<lparr>pg_nextHistoricalBlock := None, pg_historicalRecoveryComplete := True\<rparr>
         else pending\<lparr>pg_nextHistoricalBlock := Some (lr_fromBlock chunk - 1)\<rparr>)
      else
        let latest = (case pg_latestRecoveryBlock pending of None \<Rightarrow> 0 | Some block \<Rightarrow> block);
            advanced = pending\<lparr>pg_latestRecoveryBlock :=
              (if lr_toBlock chunk > latest then Some (lr_toBlock chunk) else pg_latestRecoveryBlock pending)\<rparr>
        in if pg_nextHistoricalBlock pending = None \<and> \<not> pg_historicalRecoveryComplete pending \<and> lr_fromBlock chunk > pg_queuedBlock pending
           then advanced\<lparr>pg_nextHistoricalBlock := Some (lr_fromBlock chunk - 1)\<rparr> else advanced)"

definition recordStagedRecoveryGap :: "PendingStagedOperation \<Rightarrow> int \<Rightarrow> int \<Rightarrow> PendingStagedOperation" where
  "recordStagedRecoveryGap pending cursorFromBlock latestFromBlock =
     (if latestFromBlock \<le> cursorFromBlock then pending
      else
        let newestMissingBlock = latestFromBlock - 1
        in pending\<lparr>pg_nextHistoricalBlock := (case pg_nextHistoricalBlock pending of
               None \<Rightarrow> Some newestMissingBlock
             | Some block \<Rightarrow> Some (if newestMissingBlock > block then newestMissingBlock else block)),
             pg_historicalRecoveryComplete := False\<rparr>)"

definition nextStagedHistoricalRecoveryRange :: "PendingStagedOperation \<Rightarrow> int \<Rightarrow> LogRange option" where
  "nextStagedHistoricalRecoveryRange pending maximumBlocks = (case pg_nextHistoricalBlock pending of
     None \<Rightarrow> None
   | Some block \<Rightarrow>
       if block < pg_queuedBlock pending then None
       else
         let availableBlocks = block - pg_queuedBlock pending + 1;
             requestedBlocks = (if maximumBlocks < availableBlocks then maximumBlocks else availableBlocks)
         in Some (log_range (block - requestedBlocks + 1) block))"

definition stagedRecoveryAnchorMatches :: "PendingStagedOperation \<Rightarrow> int \<Rightarrow> string option \<Rightarrow> bool" where
  "stagedRecoveryAnchorMatches pending head observedHash = (case (pg_recoveryAnchorBlock pending, pg_recoveryAnchorHash pending) of
     (Some block, Some hash) \<Rightarrow> block \<le> head \<and> (case observedHash of None \<Rightarrow> False | Some observed \<Rightarrow> toLowerCase observed = toLowerCase hash)
   | _ \<Rightarrow> True)"

text \<open>A cursor whose anchor left the chain starts again.\<close>

definition reset_cursor :: "PendingStagedOperation \<Rightarrow> PendingStagedOperation" where
  "reset_cursor pending = pending\<lparr>pg_candidateOutcome := None, pg_historicalRecoveryComplete := False, pg_latestRecoveryBlock := None,
     pg_nextHistoricalBlock := None, pg_recoveryAnchorBlock := None, pg_recoveryAnchorHash := None\<rparr>"

section \<open>Searching a range\<close>

definition outcome_of_log :: "event_decoder \<Rightarrow> int \<Rightarrow> ChainLog \<Rightarrow> CandidateOutcome list result" where
  "outcome_of_log decode operationId entry = (case stagedOperationOutcome decode (TransactionLog.truncate entry) operationId of
     None \<Rightarrow> ok []
   | Some decoded \<Rightarrow> (case (xl_blockHash entry, xl_blockNumber entry, xl_transactionHash entry) of
       (Some blockHash, Some blockNumber, Some hash) \<Rightarrow>
         ok [\<lparr>oc_errorMessage = oc_errorMessage decoded, oc_operation = oc_operation decoded, oc_operationId = oc_operationId decoded,
           oc_success = oc_success decoded, co_blockHash = blockHash, co_blockNumber = blockNumber, co_transactionHash = hash\<rparr>]
     | _ \<Rightarrow> throw ''Staged-operation outcome log is missing canonical identity''))"

definition endpoint_outcomes :: "event_decoder \<Rightarrow> int \<Rightarrow> ChainLog list settled \<Rightarrow> CandidateOutcome list settled" where
  "endpoint_outcomes decode operationId answer = (case answer of
     Rejected reason \<Rightarrow> Rejected reason
   | Fulfilled logs \<Rightarrow> (case mapR (outcome_of_log decode operationId) logs of
       Inl e \<Rightarrow> Rejected (NewError (rejectionMessage e) None)
     | Inr outcomes \<Rightarrow> Fulfilled (concat outcomes)))"

definition outcome_value :: "CandidateOutcome \<Rightarrow> js_value" where
  "outcome_value outcome = ObjectValue [(''errorMessage'', TextValue (oc_errorMessage outcome)), (''operation'', BigintValue (oc_operation outcome)),
     (''operationId'', BigintValue (oc_operationId outcome)), (''success'', BooleanValue (oc_success outcome)),
     (''blockHash'', TextValue (co_blockHash outcome)), (''blockNumber'', BigintValue (co_blockNumber outcome)),
     (''transactionHash'', TextValue (co_transactionHash outcome))]"

definition outcomes_value :: "CandidateOutcome list \<Rightarrow> js_value" where
  "outcomes_value outcomes = ArrayValue (map outcome_value outcomes)"

text \<open>The outcomes that a quorum of endpoints found in a range.\<close>

definition agreed_outcomes ::
  "error_world \<Rightarrow> event_decoder \<Rightarrow> string list \<Rightarrow> nat \<Rightarrow> int \<Rightarrow> LogRange \<Rightarrow> ChainLog list settled list \<Rightarrow> CandidateOutcome list quorum_result" where
  "agreed_outcomes world decode endpoints requirement operationId chunk logs =
     (let answers = map (endpoint_outcomes decode operationId) logs in
      bindQ (settledQuorumValue world (''staged operation '' @ bigint_to_string operationId @ '' blocks '' @
          bigint_to_string (lr_fromBlock chunk) @ ''-'' @ bigint_to_string (lr_toBlock chunk))
          (map (\<lambda>(endpoint, answer). settled_map (\<lambda>outcomes. (endpoint, outcomes_value outcomes)) answer) (zip endpoints answers)) requirement)
        (\<lambda>agreed. Some (Inr (case List.find (\<lambda>outcomes. outcomes_value outcomes = agreed) (fulfilled_values answers) of
           None \<Rightarrow> [] | Some outcomes \<Rightarrow> outcomes))))"

definition scanRange :: "environment \<Rightarrow> OperatorSettings \<Rightarrow> PendingStagedOperation \<Rightarrow> LogRange \<Rightarrow> CandidateOutcome option operation" where
  "scanRange env settings pending chunk =
     andThen (awaiting (\<lambda>past. agreed_outcomes (en_world env) (en_decode env) (os_readEndpoints settings) (os_rpcQuorum settings)
       (pg_operationId pending) chunk (en_logs env past (pg_coordinator pending) (lr_fromBlock chunk) (lr_toBlock chunk)))) (\<lambda>outcomes.
     if length outcomes > 1
     then throwing (''Coordinator returned multiple outcomes for staged operation '' @ bigint_to_string (pg_operationId pending))
     else andThen (emitting (Scanned (pg_coordinator pending) (pg_operationId pending) (lr_fromBlock chunk) (lr_toBlock chunk))) (\<lambda>_.
       returning (case outcomes of [] \<Rightarrow> None | outcome # _ \<Rightarrow> Some outcome)))"

section \<open>Reconciling one operation\<close>

definition same_operation :: "PendingStagedOperation \<Rightarrow> PendingStagedOperation \<Rightarrow> bool" where
  "same_operation a b \<longleftrightarrow> toLowerCase (pg_coordinator a) = toLowerCase (pg_coordinator b) \<and> pg_operationId a = pg_operationId b"

text \<open>Writing the fields of the operation.\<close>

definition write_pending :: "PendingStagedOperation \<Rightarrow> unit operation" where
  "write_pending pending = updating (\<lambda>state. state\<lparr>rt_pendingStagedOperations :=
     map (\<lambda>other. if same_operation other pending then pending else other) (rt_pendingStagedOperations state)\<rparr>)"

definition drop_pending :: "PendingStagedOperation \<Rightarrow> unit operation" where
  "drop_pending pending = updating (\<lambda>state. state\<lparr>rt_pendingStagedOperations :=
     filter (\<lambda>other. \<not> same_operation other pending) (rt_pendingStagedOperations state)\<rparr>)"

definition smallest_head :: "int list \<Rightarrow> int result" where
  "smallest_head heads = (case heads of
     [] \<Rightarrow> throw ''Reduce of empty array with no initial value''
   | head # rest \<Rightarrow> ok (foldl (\<lambda>minimum next. if next < minimum then next else minimum) head rest))"

definition canonicalRecoveryHash :: "environment \<Rightarrow> int \<Rightarrow> string operation" where
  "canonicalRecoveryHash env blockNumber = awaiting (\<lambda>past. en_canonicalBlockHash env past blockNumber)"

definition retainRecoveryAnchor :: "environment \<Rightarrow> PendingStagedOperation \<Rightarrow> int \<Rightarrow> PendingStagedOperation operation" where
  "retainRecoveryAnchor env pending blockNumber =
     (let anchorBlock = (case pg_recoveryAnchorBlock pending of None \<Rightarrow> blockNumber
            | Some block \<Rightarrow> if block > blockNumber then block else blockNumber);
          moved = pending\<lparr>pg_recoveryAnchorBlock := Some anchorBlock\<rparr>
      in andThen (write_pending moved) (\<lambda>_.
         andThen (canonicalRecoveryHash env anchorBlock) (\<lambda>hash.
         let anchored = moved\<lparr>pg_recoveryAnchorHash := Some hash\<rparr>
         in andThen (write_pending anchored) (\<lambda>_. returning anchored))))"

text \<open>One chunk: search it, move the cursor and its anchor, save.\<close>

definition search_chunk ::
  "environment \<Rightarrow> OperatorSettings \<Rightarrow> bool \<Rightarrow> PendingStagedOperation \<Rightarrow> LogRange \<Rightarrow> (PendingStagedOperation \<times> CandidateOutcome option) operation" where
  "search_chunk env settings historical pending chunk =
     andThen (scanRange env settings pending chunk) (\<lambda>outcome.
     let recorded = recordStagedRecoveryChunk pending chunk outcome historical
     in andThen (write_pending recorded) (\<lambda>_.
        andThen (retainRecoveryAnchor env recorded (lr_toBlock chunk)) (\<lambda>anchored.
        andThen (saveDurableState env) (\<lambda>_.
        returning (anchored, outcome)))))"

fun search_newest ::
  "environment \<Rightarrow> OperatorSettings \<Rightarrow> PendingStagedOperation \<Rightarrow> LogRange list \<Rightarrow> (PendingStagedOperation \<times> CandidateOutcome option) operation" where
  "search_newest env settings pending [] = returning (pending, None)"
| "search_newest env settings pending (chunk # rest) =
     andThen (search_chunk env settings False pending chunk) (\<lambda>(searched, outcome).
       if outcome \<noteq> None then returning (searched, outcome) else search_newest env settings searched rest)"

text \<open>The lowest head of a quorum, and the cursor when its anchor is still on the chain.\<close>

definition recovery_head :: "environment \<Rightarrow> OperatorSettings \<Rightarrow> PendingStagedOperation \<Rightarrow> int operation" where
  "recovery_head env settings pending =
     awaiting (\<lambda>past. bindQ (availableSettledValues (en_world env) (en_blockNumbers env past)) (\<lambda>heads.
       if length heads < os_rpcQuorum settings
       then Some (Inl (ConnectivityDegradedError (''Staged operation '' @ bigint_to_string (pg_operationId pending) @
         '' recovery does not satisfy the configured RPC quorum requirement'')))
       else own_result (smallest_head heads)))"

definition checked_cursor :: "environment \<Rightarrow> PendingStagedOperation \<Rightarrow> int \<Rightarrow> PendingStagedOperation operation" where
  "checked_cursor env pending toBlock =
     andThen (case pg_recoveryAnchorBlock pending of
         Some block \<Rightarrow> if block \<le> toBlock then andThen (canonicalRecoveryHash env block) (\<lambda>hash. returning (Some hash)) else returning None
       | None \<Rightarrow> returning None) (\<lambda>observedRecoveryAnchor.
     if stagedRecoveryAnchorMatches pending toBlock observedRecoveryAnchor then returning pending
     else
       let fresh = reset_cursor pending
       in andThen (write_pending fresh) (\<lambda>_.
          andThen (emitting (RecoveryReset (pg_coordinator pending) (pg_operationId pending))) (\<lambda>_.
          andThen (saveDurableState env) (\<lambda>_.
          returning fresh))))"

definition search_outcome ::
  "environment \<Rightarrow> OperatorSettings \<Rightarrow> PendingStagedOperation \<Rightarrow> int \<Rightarrow> (PendingStagedOperation \<times> CandidateOutcome option) operation" where
  "search_outcome env settings pending toBlock =
     (let maximumBlocks = os_logLookbackBlocks settings in
      andThen (lifting (latestLogRange toBlock maximumBlocks)) (\<lambda>recent.
      let cursorFromBlock = (case pg_latestRecoveryBlock pending of None \<Rightarrow> pg_queuedBlock pending | Some block \<Rightarrow> block + 1);
          latestFromBlock = (if lr_fromBlock recent > cursorFromBlock then lr_fromBlock recent else cursorFromBlock);
          marked = recordStagedRecoveryGap pending cursorFromBlock latestFromBlock
      in andThen (write_pending marked) (\<lambda>_.
         andThen (if pg_candidateOutcome marked = None \<and> latestFromBlock \<le> toBlock
                  then andThen (lifting (newestFirstScanRanges latestFromBlock toBlock maximumBlocks)) (search_newest env settings marked)
                  else returning (marked, pg_candidateOutcome marked)) (\<lambda>(searched, outcome).
         case nextStagedHistoricalRecoveryRange searched maximumBlocks of
           Some chunk \<Rightarrow>
             if outcome = None \<and> os_historicalLogRecovery settings then search_chunk env settings True searched chunk
             else returning (searched, outcome)
         | None \<Rightarrow> returning (searched, outcome)))))"

text \<open>The message of an error that is an \<open>Error\<close>.\<close>

definition cycle_error_text :: "error_world \<Rightarrow> cycle_error \<Rightarrow> string option" where
  "cycle_error_text world error = (case error of
     ReadFailure (RejectionReason reason) \<Rightarrow> if is_error world reason then Some (errorMessage world reason) else None
   | ReadFailure (OwnError e) \<Rightarrow> Some (rejectionMessage e)
   | ReadFailure (ConnectivityDegradedError message) \<Rightarrow> Some message
   | SubmissionError (SubmissionFailure message _) \<Rightarrow> Some message
   | SubmissionError (OtherFailure e) \<Rightarrow> Some (rejectionMessage e)
   | TransactionAwaitingCanonicalFinality label hash \<Rightarrow> Some (label @ '' transaction '' @ hash @ '' is awaiting canonical finality''))"

definition outcome_final :: "environment \<Rightarrow> OperatorSettings \<Rightarrow> PendingStagedOperation \<Rightarrow> CandidateOutcome \<Rightarrow> int \<Rightarrow> bool operation" where
  "outcome_final env settings pending outcome toBlock =
     catching (awaiting (\<lambda>past. confirmCanonicalReceiptFinality (en_world env) (en_readers env past) (os_readEndpoints settings)
         (''staged operation '' @ bigint_to_string (pg_operationId pending)) (co_blockHash outcome) (co_blockNumber outcome)
         PRIVATE_INTENT_FINALITY_BLOCKS (Some toBlock) (os_rpcQuorum settings)))
       (\<lambda>error. case cycle_error_text (en_world env) error of
          Some message \<Rightarrow>
            if text_includes message ''receipt is no longer canonical''
            then andThen (write_pending (pending\<lparr>pg_candidateOutcome := None\<rparr>)) (\<lambda>_. andThen (saveDurableState env) (\<lambda>_. returning False))
            else rethrowing error
        | None \<Rightarrow> rethrowing error)"

definition settle_outcome :: "environment \<Rightarrow> PendingStagedOperation \<Rightarrow> CandidateOutcome \<Rightarrow> unit operation" where
  "settle_outcome env pending outcome =
     andThen (drop_pending pending) (\<lambda>_.
     andThen (recordActivity \<lparr>ac_details = Some (''coordinator='' @ pg_coordinator pending @ '' operation='' @
         bigint_to_string (pg_operationId pending) @ '' target='' @ pg_target pending), ac_hash = None, ac_kind = IntentActivity LiquidationIntent,
       ac_message = (if oc_success outcome then ''Staged liquidation settled successfully''
         else ''Staged liquidation failed: '' @ oc_errorMessage outcome),
       ac_status = (if oc_success outcome then Confirmed else Failed)\<rparr>) (\<lambda>_.
     andThen (saveDurableState env) (\<lambda>_.
     when_then (\<not> oc_success outcome) (''Staged liquidation '' @ bigint_to_string (pg_operationId pending) @ '' failed: '' @ oc_errorMessage outcome))))"

definition reconcile_one :: "environment \<Rightarrow> OperatorSettings \<Rightarrow> PendingStagedOperation \<Rightarrow> unit operation" where
  "reconcile_one env settings pending =
     andThen (recovery_head env settings pending) (\<lambda>toBlock.
     andThen (checked_cursor env pending toBlock) (\<lambda>cursor.
     andThen (search_outcome env settings cursor toBlock) (\<lambda>(searched, found). case found of
       None \<Rightarrow> returning ()
     | Some outcome \<Rightarrow>
         if oc_operation outcome \<noteq> 0 \<or> oc_operationId outcome \<noteq> pg_operationId pending
         then throwing (''Coordinator returned an invalid outcome for staged operation '' @ bigint_to_string (pg_operationId pending))
         else andThen (outcome_final env settings searched outcome toBlock) (\<lambda>finalized.
           if \<not> finalized then returning () else settle_outcome env searched outcome))))"

text \<open>Every operation is taken as it is in the state when its turn comes.\<close>

fun reconcile_loop :: "environment \<Rightarrow> OperatorSettings \<Rightarrow> PendingStagedOperation list \<Rightarrow> unit operation" where
  "reconcile_loop env settings [] = returning ()"
| "reconcile_loop env settings (pending # rest) =
     andThen (reading (\<lambda>state. List.find (same_operation pending) (rt_pendingStagedOperations state))) (\<lambda>current.
     andThen (case current of None \<Rightarrow> returning () | Some operation \<Rightarrow> reconcile_one env settings operation) (\<lambda>_.
     reconcile_loop env settings rest))"

definition reconcilePendingStagedOperations :: "environment \<Rightarrow> OperatorSettings \<Rightarrow> unit operation" where
  "reconcilePendingStagedOperations env settings = andThen (reading rt_pendingStagedOperations) (reconcile_loop env settings)"

end
