(* ===== verification/Liquidator_Execution.thy ===== *)
theory Liquidator_Execution
  imports Staged_Recovery
begin

text \<open>
  What the liquidator does with what it decides: \<open>bots/liquidator/src/execution/liquidation-executor.ts\<close>,
  \<open>selectedCandidate\<close> of \<open>core/candidate-selection.ts\<close>, and the part of a cycle of \<open>cli/run.ts\<close> that executes.
  The scan of the chain and the wallet's balances come from the environment.
\<close>

section \<open>Reads of the wallet\<close>

definition MAX_UINT256 :: int where "MAX_UINT256 = 2 ^ 256 - 1"

definition agreedErc20Balance :: "environment \<Rightarrow> string \<Rightarrow> int operation" where
  "agreedErc20Balance env token = awaiting (\<lambda>past. en_balance env past token)"

definition agreedErc20Allowance :: "environment \<Rightarrow> string \<Rightarrow> string \<Rightarrow> int operation" where
  "agreedErc20Allowance env token spender = awaiting (\<lambda>past. en_allowance env past token spender)"

definition plain_call :: "environment \<Rightarrow> contract_call \<Rightarrow> int \<Rightarrow> string \<Rightarrow> string \<Rightarrow> Call" where
  "plain_call env call gas label to =
     \<lparr>ca_data = en_encodeFunctionData env call, ca_gas = gas, ca_label = label, ca_preSubmit = None, ca_receiptExpectation = None,
      ca_to = to, ca_value = None\<rparr>"

section \<open>Pools and migrations\<close>

record DesiredPoolSettings =
  dq_initialReportPriorityFeeAttoEthPerGas :: int
  dq_questionId :: int
  dq_statoblastSecurityMultiplierBps :: int
  dq_universeId :: int

definition executeOriginPoolDeployment :: "environment \<Rightarrow> OperatorSettings \<Rightarrow> DesiredPoolSettings \<Rightarrow> unit operation" where
  "executeOriginPoolDeployment env settings desired =
     andThen (when_then (\<not> ss_allowAutomaticPoolCreation (os_strategy settings)) ''Automatic origin-pool creation is disabled'') (\<lambda>_.
     andThen (when_then (dq_universeId desired \<notin> set (os_approvedUniverses settings)) ''Desired origin pool universe is not approved'') (\<lambda>_.
     andThen (submitCall env settings
       (plain_call env (DeployOriginSecurityPool (dq_universeId desired) (dq_questionId desired) (dq_statoblastSecurityMultiplierBps desired)
          (dq_initialReportPriorityFeeAttoEthPerGas desired)) 7000000
          (''Deploy origin security pool for question '' @ bigint_to_string (dq_questionId desired) @ '' in universe '' @
            bigint_to_string (dq_universeId desired)) (os_securityPoolFactory settings)) DeploymentIntent) (\<lambda>_.
     returning ())))"

definition executeVaultMigration :: "environment \<Rightarrow> OperatorSettings \<Rightarrow> VaultMigration \<Rightarrow> unit operation" where
  "executeVaultMigration env settings migration =
     andThen (lifting (vault_migration_checks (os_approvedUniverses settings) migration)) (\<lambda>_.
     andThen (submitCall env settings
       (plain_call env (MigrateVault (ob_address (vm_parent migration)) (vm_outcomeIndex migration)) 4000000
          (''Migrate liquidator vault to approved universe '' @ bigint_to_string (un_id (vm_childUniverse migration)))
          (ob_securityPoolForker (vm_parent migration))) MigrationIntent) (\<lambda>_.
     returning ()))"

section \<open>Funding\<close>

definition ensureAllowance ::
  "environment \<Rightarrow> OperatorSettings \<Rightarrow> string \<Rightarrow> string \<Rightarrow> int \<Rightarrow> IntentKind \<Rightarrow> PoolObservation option \<Rightarrow> unit operation" where
  "ensureAllowance env settings token spender amount kind priceStillAllowed =
     andThen (agreedErc20Allowance env token spender) (\<lambda>allowance.
     if allowance \<ge> amount then returning ()
     else andThen (submitCall env settings
         ((plain_call env (Approve spender amount) 80000
            (''Approve '' @ (if kind = DepositIntent then ''pool'' else ''oracle'') @ '' REP funding'') token)\<lparr>ca_preSubmit := priceStillAllowed\<rparr>) kind)
       (\<lambda>_. returning ()))"

definition depositRepToVault ::
  "environment \<Rightarrow> OperatorSettings \<Rightarrow> PoolObservation list \<Rightarrow> PoolObservation \<Rightarrow> int \<Rightarrow> PoolObservation option \<Rightarrow> int \<Rightarrow> unit operation" where
  "depositRepToVault env settings pools pool amountAttoRep priceStillAllowed targetHealthFactorBps =
     (if amountAttoRep = 0 then returning ()
      else
        andThen (lifting (assertRepExposureLimits (os_strategy settings) pools pool amountAttoRep 0)) (\<lambda>_.
        andThen (when_then (\<not> ss_allowAutomaticDeposits (os_strategy settings)) ''Candidate requires REP but automatic deposits are disabled'') (\<lambda>_.
        andThen (agreedErc20Balance env (ob_repToken pool)) (\<lambda>walletBalance.
        andThen (when_then (walletBalance < amountAttoRep + ss_walletAttoRepReserve (os_strategy settings))
          ''Wallet REP reserve would be breached by the required pool deposit'') (\<lambda>_.
        andThen (ensureAllowance env settings (ob_repToken pool) (ob_address pool) amountAttoRep DepositIntent priceStillAllowed) (\<lambda>_.
        andThen (submitCall env settings
            ((plain_call env (DepositRepToVault amountAttoRep targetHealthFactorBps) 300000 ''Deposit REP for liquidator vault health''
               (ob_address pool))\<lparr>ca_preSubmit := priceStillAllowed\<rparr>) DepositIntent) (\<lambda>_.
        returning ())))))))"

section \<open>Liquidation\<close>

text \<open>A top-up so large that it would add capacity is refused; any other is deposited as backing only.\<close>

definition liquidationExecutionStep :: "int \<Rightarrow> int option result" where
  "liquidationExecutionStep topUpAttoRep =
     (if topUpAttoRep = 0 then ok None
      else if (topUpAttoRep * BPS_DENOMINATOR_bot) sdiv MAX_UINT256 \<noteq> 0
      then throw ''Liquidation top-up is too large for a backing-only deposit''
      else ok (Some MAX_UINT256))"

definition buffered_price :: "int \<Rightarrow> int \<Rightarrow> int" where
  "buffered_price price bufferBps = (price * bufferBps + BPS_DENOMINATOR_bot - 1) sdiv BPS_DENOMINATOR_bot"

definition conservativeStaleTopUp :: "StrategySettings \<Rightarrow> PoolObservation \<Rightarrow> LiquidationCandidate \<Rightarrow> int result" where
  "conservativeStaleTopUp strategy pool candidate =
     (let referencePrice = (if ob_lastPrice pool > 0 then ob_lastPrice pool else ss_fallbackRepPerEthPrice strategy);
          vault = ob_botVault pool
      in if referencePrice = 0 then throw ''Stale unseeded oracle requires strategy.fallbackRepPerEthPrice''
         else
           bindR (requiredRepForOpenInterest (vp_openInterestAttoEth vault + lc_debtToMoveAttoEth candidate) (ob_multiplierBps pool)
               (buffered_price referencePrice (ss_stalePriceFundingBufferBps strategy)) (ss_vaultTargetHealthBps strategy)
               (vp_disputeStakedAttoRep vault)) (\<lambda>requiredAttoRep.
           let conservativeTopUp = (if requiredAttoRep > vp_vaultAttoRepBacking vault then requiredAttoRep - vp_vaultAttoRepBacking vault else 0)
           in ok (if conservativeTopUp > lc_topUpAttoRep candidate then conservativeTopUp else lc_topUpAttoRep candidate)))"

definition assertStaleLiquidationExposureBound :: "LiquidationCandidate \<Rightarrow> unit result" where
  "assertStaleLiquidationExposureBound candidate =
     (if lc_requestedDebtAttoEth candidate \<ge> vp_openInterestAttoEth (lc_target candidate)
      then throw ''Stale full-close liquidation cannot guarantee the configured REP exposure limits'' else ok ())"

text \<open>The WETH and REP of an initial report, and the price it proposes.\<close>

definition initial_report_amounts :: "StrategySettings \<Rightarrow> PoolObservation \<Rightarrow> (int \<times> int \<times> int) result" where
  "initial_report_amounts strategy pool =
     (if ob_requestPriceCostAttoEth pool > ss_maximumOracleRequestCostAttoEth strategy
      then throw ''Oracle request cost exceeds strategy.maximumOracleRequestCostAttoEth''
      else let proposedPrice = (if ob_lastPrice pool > 0 then ob_lastPrice pool else ss_fallbackRepPerEthPrice strategy) in
        if proposedPrice = 0 then throw ''Stale unseeded oracle requires strategy.fallbackRepPerEthPrice''
        else
          let initialAttoWeth = ob_minimumToken1ReportAttoEth pool + ob_minimumToken1ReportAttoEth pool sdiv 50 + 1;
              initialAttoRep = (initialAttoWeth * proposedPrice + 10 ^ 18 - 1) sdiv 10 ^ 18
          in ok (initialAttoWeth, initialAttoRep, proposedPrice))"

definition fundStaleOracle :: "environment \<Rightarrow> OperatorSettings \<Rightarrow> PoolObservation \<Rightarrow> int \<Rightarrow> (int \<times> int) operation" where
  "fundStaleOracle env settings pool reservedTopUpAttoRep =
     andThen (lifting (initial_report_amounts (os_strategy settings) pool)) (\<lambda>(initialAttoWeth, initialAttoRep, proposedPrice).
     andThen (agreedErc20Balance env (ob_repToken pool)) (\<lambda>currentAttoRep.
     andThen (when_then (currentAttoRep < initialAttoRep + reservedTopUpAttoRep + ss_walletAttoRepReserve (os_strategy settings))
       ''Oracle initial report would breach the wallet REP reserve'') (\<lambda>_.
     andThen (agreedErc20Balance env (os_weth settings)) (\<lambda>currentAttoWeth.
     andThen (if currentAttoWeth < initialAttoWeth
       then andThen (submitCall env settings
           ((plain_call env WrapEth 80000 ''Wrap ETH for oracle initial report'' (os_weth settings))
             \<lparr>ca_preSubmit := Some pool, ca_value := Some (initialAttoWeth - currentAttoWeth)\<rparr>) LiquidationIntent) (\<lambda>_. returning ())
       else returning ()) (\<lambda>_.
     andThen (ensureAllowance env settings (ob_repToken pool) (ob_manager pool) initialAttoRep LiquidationIntent (Some pool)) (\<lambda>_.
     andThen (agreedErc20Allowance env (os_weth settings) (ob_manager pool)) (\<lambda>wethAllowanceAttoEth.
     andThen (if wethAllowanceAttoEth < initialAttoWeth
       then andThen (submitCall env settings
           ((plain_call env (Approve (ob_manager pool) initialAttoWeth) 80000 ''Approve oracle WETH funding'' (os_weth settings))
             \<lparr>ca_preSubmit := Some pool\<rparr>) LiquidationIntent) (\<lambda>_. returning ())
       else returning ()) (\<lambda>_.
     returning (initialAttoWeth, proposedPrice)))))))))"

definition zero_approval :: string where
  "zero_approval = ''0x'' @ replicate 64 (CHR ''0'')"

definition liquidation_call :: "environment \<Rightarrow> OperatorSettings \<Rightarrow> PoolObservation \<Rightarrow> LiquidationCandidate \<Rightarrow> bool \<Rightarrow> int \<times> int \<Rightarrow> Call" where
  "liquidation_call env settings pool candidate usesExistingPendingReport funding =
     \<lparr>ca_data = en_encodeFunctionData env (StageLiquidation (vp_address (lc_target candidate)) (os_wallet settings)
        (lc_requestedDebtAttoEth candidate) zero_approval (ss_stagedOperationValidForSeconds (os_strategy settings)) (snd funding) (fst funding)),
      ca_gas = (if ob_isPriceValid pool then 1000000 else 2000000),
      ca_label = (if ob_isPriceValid pool then ''Execute security-pool liquidation''
        else if usesExistingPendingReport then ''Queue liquidation behind the existing price report''
        else ''Queue liquidation and request a fresh REP price''),
      ca_preSubmit = Some pool,
      ca_receiptExpectation = Some (if ob_isPriceValid pool then StagedSuccess (ob_manager pool) 0
        else PendingLiquidation (lc_requestedDebtAttoEth candidate) (ob_manager pool) (os_wallet settings) (os_wallet settings)
          (vp_address (lc_target candidate))),
      ca_to = ob_manager pool,
      ca_value = Some (if ob_isPriceValid pool \<or> usesExistingPendingReport then 0 else ob_requestPriceCostAttoEth pool)\<rparr>"

text \<open>What has to be deposited before a candidate is liquidated, within the exposure limits.\<close>

definition liquidation_top_up :: "OperatorSettings \<Rightarrow> PoolObservation list \<Rightarrow> PoolObservation \<Rightarrow> LiquidationCandidate \<Rightarrow> int result" where
  "liquidation_top_up settings pools pool candidate =
     (let strategy = os_strategy settings in
      bindR (if ob_isPriceValid pool then ok () else assertStaleLiquidationExposureBound candidate) (\<lambda>_.
      bindR (if ob_isPriceValid pool then ok (lc_topUpAttoRep candidate) else conservativeStaleTopUp strategy pool candidate) (\<lambda>topUpAttoRep.
      let acquisitionPrice = (if ob_isPriceValid pool then pr_price (lc_pool candidate)
            else buffered_price (pr_price (lc_pool candidate)) (ss_stalePriceFundingBufferBps strategy))
      in bindR (conservativeLiquidationRep (lc_debtToMoveAttoEth candidate) (lc_target candidate) acquisitionPrice) (\<lambda>acquiredRepCeiling.
         bindR (assertRepExposureLimits strategy pools pool topUpAttoRep acquiredRepCeiling) (\<lambda>_.
         ok topUpAttoRep)))))"

definition executeLiquidation ::
  "environment \<Rightarrow> OperatorSettings \<Rightarrow> PoolObservation list \<Rightarrow> PoolObservation \<Rightarrow> LiquidationCandidate \<Rightarrow> unit operation" where
  "executeLiquidation env settings pools pool candidate =
     andThen (lifting (liquidation_top_up settings pools pool candidate)) (\<lambda>topUpAttoRep.
     andThen (lifting (liquidationExecutionStep topUpAttoRep)) (\<lambda>executionStep. case executionStep of
       Some targetHealthFactorBps \<Rightarrow>
         andThen (depositRepToVault env settings pools pool topUpAttoRep (Some pool) targetHealthFactorBps) (\<lambda>_.
         andThen (recordActivity \<lparr>ac_details = Some (''pool='' @ ob_address pool @ '' target='' @ vp_address (lc_target candidate) @
             '' topUpAttoRep='' @ bigint_to_string topUpAttoRep), ac_hash = None, ac_kind = IntentActivity LiquidationIntent,
           ac_message = ''Liquidation top-up deposited; live pool state must be rescanned before staging'', ac_status = Info\<rparr>) (\<lambda>_.
         saveDurableState env))
     | None \<Rightarrow>
         let usesExistingPendingReport = (\<not> ob_isPriceValid pool \<and> ob_pendingReportId pool > 0) in
         andThen (when_then (usesExistingPendingReport \<and> toLowerCase (ob_pendingReportSponsor pool) \<noteq> toLowerCase (os_wallet settings))
           ''A different sponsor owns the pool pending price report'') (\<lambda>_.
         andThen (if ob_isPriceValid pool \<or> usesExistingPendingReport then returning (0, 0) else fundStaleOracle env settings pool 0) (\<lambda>oracleFunding.
         andThen (submitCall env settings (liquidation_call env settings pool candidate usesExistingPendingReport oracleFunding) LiquidationIntent) (\<lambda>_.
         returning ())))))"

section \<open>Maintenance\<close>

datatype VaultMaintenancePlan = PlanDeposit int | PlanWithdraw int | PlanFees

definition vault_risk_context :: "PoolObservation \<Rightarrow> PoolRiskContext" where
  "vault_risk_context pool =
     \<lparr>pr_address = ob_address pool, pr_denominator = 0, pr_feeEligibleCapacityOwnershipAttoRep = 0, pr_manager = ob_manager pool,
      pr_minimumSecurityBondDebtAttoEth = 0, pr_minimumVaultRepDepositAttoRep = ob_minimumVaultRepDepositAttoRep pool,
      pr_minLiquidationPriceDistanceBps = 0, pr_multiplierBps = ob_multiplierBps pool, pr_price = ob_lastPrice pool,
      pr_settlementCollateralAttoEth = 0, pr_totalAttoRep = 0, pr_totalCapacityOwnershipAttoRep = 0\<rparr>"

definition planVaultMaintenance ::
  "PoolObservation \<Rightarrow> StrategySettings \<Rightarrow> string \<Rightarrow> bool \<Rightarrow> bool \<Rightarrow> VaultMaintenancePlan option result" where
  "planVaultMaintenance pool strategy walletAddress priceDependentMaintenanceAllowed prioritizeLiquidationCandidate =
     (let vault = ob_botVault pool;
          fees = (if vp_claimableFeesAttoEth vault > 0 \<and> vp_claimableFeesAttoEth vault \<ge> ss_redeemFeesAboveAttoEth strategy
            then Some PlanFees else None)
      in if priceDependentMaintenanceAllowed \<and> ob_lastPrice pool > 0 then
        bindR (vaultHealthBps (vp_vaultAttoRepBacking vault) (vp_openInterestAttoEth vault) (ob_multiplierBps pool) (ob_lastPrice pool)
            (vp_disputeStakedAttoRep vault)) (\<lambda>health.
        if vp_openInterestAttoEth vault > 0 \<and> (case health of None \<Rightarrow> False | Some h \<Rightarrow> h < ss_vaultTopUpHealthBps strategy) then
          bindR (requiredRepForOpenInterest (vp_openInterestAttoEth vault) (ob_multiplierBps pool) (ob_lastPrice pool)
              (ss_vaultTargetHealthBps strategy) (vp_disputeStakedAttoRep vault)) (\<lambda>targetAttoRep.
          ok (Some (PlanDeposit (if targetAttoRep > vp_vaultAttoRepBacking vault then targetAttoRep - vp_vaultAttoRepBacking vault else 0))))
        else if \<not> prioritizeLiquidationCandidate \<and> ss_allowAutomaticWithdrawals strategy \<and> ob_isPriceValid pool \<and>
             toLowerCase (vp_address vault) = toLowerCase walletAddress then
          bindR (surplusRepForWithdrawal vault (vault_risk_context pool) strategy) (\<lambda>surplusAttoRep.
          ok (if surplusAttoRep > 0 then Some (PlanWithdraw surplusAttoRep) else fees))
        else ok fees)
      else ok fees)"

definition maintainVault :: "environment \<Rightarrow> OperatorSettings \<Rightarrow> PoolObservation list \<Rightarrow> PoolObservation \<Rightarrow> bool operation" where
  "maintainVault env settings pools pool =
     (if \<not> isPoolExecutionEligible pool then returning False
      else
        andThen (awaiting (\<lambda>past. en_priceStillAllowed env past pool)) (\<lambda>priceAllowed.
        andThen (lifting (planVaultMaintenance pool (os_strategy settings) (os_wallet settings) priceAllowed (ob_candidates pool \<noteq> []))) (\<lambda>plan.
        case plan of
          Some (PlanDeposit amountAttoRep) \<Rightarrow>
            andThen (depositRepToVault env settings pools pool amountAttoRep (Some pool) (ss_vaultTargetHealthBps (os_strategy settings)))
              (\<lambda>_. returning True)
        | Some (PlanWithdraw amountAttoRep) \<Rightarrow>
            andThen (submitCall env settings
              ((plain_call env (StageOperation 1 (os_wallet settings) amountAttoRep (ss_stagedOperationValidForSeconds (os_strategy settings)) 0 0)
                 700000 ''Withdraw surplus REP from liquidator vault'' (ob_manager pool))
                \<lparr>ca_preSubmit := Some pool, ca_receiptExpectation := Some (StagedSuccess (ob_manager pool) 1)\<rparr>) WithdrawalIntent)
              (\<lambda>_. returning True)
        | Some PlanFees \<Rightarrow>
            andThen (submitCall env settings
              (plain_call env (RedeemFees (os_wallet settings)) 250000 ''Redeem security-pool ETH fees'' (ob_address pool)) FeesIntent)
              (\<lambda>_. returning True)
        | None \<Rightarrow> returning False)))"

definition isVaultHealthyEnoughForExecution :: "PoolObservation \<Rightarrow> bool result" where
  "isVaultHealthyEnoughForExecution pool =
     bindR (vaultHealthBps (vp_vaultAttoRepBacking (ob_botVault pool)) (vp_openInterestAttoEth (ob_botVault pool)) (ob_multiplierBps pool)
         (ob_lastPrice pool) (vp_disputeStakedAttoRep (ob_botVault pool)))
       (\<lambda>health. ok (case health of None \<Rightarrow> True | Some h \<Rightarrow> h \<ge> BPS_DENOMINATOR_bot))"

section \<open>A cycle\<close>

text \<open>What the scan of a cycle found; a desired pool that is not deployed has the zero address.\<close>

record pool_scan =
  sn_desiredPools :: "(string \<times> DesiredPoolSettings) list"
  sn_pools :: "PoolObservation list"
  sn_timestamp :: int
  sn_universes :: "UniverseObservation list"

definition selectedCandidate ::
  "PoolObservation list \<Rightarrow> StrategySettings \<Rightarrow> (PoolObservation \<Rightarrow> bool) \<Rightarrow> (LiquidationCandidate \<times> PoolObservation) option" where
  "selectedCandidate pools strategy allowed =
     (let pool_of = (\<lambda>candidate. List.find (\<lambda>pool. toLowerCase (ob_address pool) = toLowerCase (pr_address (lc_pool candidate))) pools)
      in case selectAllowedCandidate (concat (map ob_candidates pools)) (ss_candidatePriority strategy)
          (\<lambda>candidate. case pool_of candidate of None \<Rightarrow> False | Some pool \<Rightarrow> allowed pool) of
        None \<Rightarrow> None
      | Some candidate \<Rightarrow> map_option (Pair candidate) (pool_of candidate))"

definition recoveryWorkBlocksExecution :: "environment \<Rightarrow> OperatorSettings \<Rightarrow> bool operation" where
  "recoveryWorkBlocksExecution env settings =
     andThen (recoverPendingTransactions env settings) (\<lambda>blocked.
     if blocked then returning True
     else andThen (reconcilePendingStagedOperations env settings) (\<lambda>_.
       reading (\<lambda>state. rt_pendingTransactions state \<noteq> [] \<or> rt_pendingStagedOperations state \<noteq> [])))"

fun maintain_loop :: "environment \<Rightarrow> OperatorSettings \<Rightarrow> PoolObservation list \<Rightarrow> PoolObservation list \<Rightarrow> bool operation" where
  "maintain_loop env settings pools [] = returning False"
| "maintain_loop env settings pools (pool # rest) =
     andThen (maintainVault env settings pools pool) (\<lambda>maintained.
       if maintained then andThen (saveDurableState env) (\<lambda>_. returning True) else maintain_loop env settings pools rest)"

definition liquidate_best :: "environment \<Rightarrow> OperatorSettings \<Rightarrow> PoolObservation list \<Rightarrow> unit operation" where
  "liquidate_best env settings pools =
     andThen (\<lambda>(state, past). (Returned (selectedCandidate pools (os_strategy settings) (\<lambda>pool.
         toLowerCase (ob_address pool) \<in> set (map toLowerCase (os_selectedPools settings)) \<and>
         liquidationExecutionAllowed (ob_lastPrice pool) (en_marketAllows env past pool))), state, past)) (\<lambda>selected.
     case selected of
       None \<Rightarrow> saveDurableState env
     | Some (candidate, pool) \<Rightarrow>
         andThen (lifting (evaluateCandidate (lc_pool candidate) (lc_target candidate) (ob_botVault pool) (os_strategy settings))) (\<lambda>current.
         case current of
           None \<Rightarrow> returning ()
         | Some currentCandidate \<Rightarrow>
             andThen (executeLiquidation env settings pools pool currentCandidate) (\<lambda>_. saveDurableState env)))"

definition missing_desired_pool :: "OperatorSettings \<Rightarrow> pool_scan \<Rightarrow> DesiredPoolSettings option" where
  "missing_desired_pool settings scan =
     map_option snd (List.find (\<lambda>(address, desired). address = zero_address \<and> dq_universeId desired \<in> set (os_approvedUniverses settings))
       (sn_desiredPools scan))"

definition execute_migration :: "environment \<Rightarrow> OperatorSettings \<Rightarrow> pool_scan \<Rightarrow> unit operation" where
  "execute_migration env settings scan =
     andThen (lifting (selectVaultMigration (sn_pools scan) (sn_universes scan) (os_approvedUniverses settings) (os_strategy settings)
       (sn_timestamp scan))) (\<lambda>migration. case migration of
       Some selected \<Rightarrow>
         andThen (case vm_childPool selected of
             Some childPool \<Rightarrow>
               if toLowerCase (ob_address childPool) \<in> set (map toLowerCase (os_selectedPools settings)) then returning ()
               else awaiting (en_persistSettings env)
           | None \<Rightarrow> returning ()) (\<lambda>_.
         andThen (executeVaultMigration env settings selected) (\<lambda>_. saveDurableState env))
     | None \<Rightarrow>
         andThen (maintain_loop env settings (sn_pools scan) (sn_pools scan)) (\<lambda>maintained.
           if maintained then returning () else liquidate_best env settings (sn_pools scan)))"

definition execute_scan :: "environment \<Rightarrow> OperatorSettings \<Rightarrow> pool_scan \<Rightarrow> unit operation" where
  "execute_scan env settings scan =
     andThen (recoveryWorkBlocksExecution env settings) (\<lambda>blocked.
     if blocked then saveDurableState env
     else case missing_desired_pool settings scan of
       Some desired \<Rightarrow>
         if ss_allowAutomaticPoolCreation (os_strategy settings)
         then andThen (executeOriginPoolDeployment env settings desired) (\<lambda>_. saveDurableState env)
         else execute_migration env settings scan
     | None \<Rightarrow> execute_migration env settings scan)"

text \<open>\<open>operationalFailureDisposition\<close> of what a cycle throws; \<open>None\<close> is that it does not return.\<close>

definition cycle_disposition :: "error_world \<Rightarrow> cycle_error \<Rightarrow> OperationalFailureDisposition option" where
  "cycle_disposition world error = (case error of
     ReadFailure (RejectionReason reason) \<Rightarrow> failure_disposition world reason
   | ReadFailure (ConnectivityDegradedError message) \<Rightarrow> Some ConnectivityDegraded
   | ReadFailure (OwnError e) \<Rightarrow> Some (if degraded_text ''Error'' (rejectionMessage e) then ConnectivityDegraded else SafetyPaused)
   | SubmissionError (SubmissionFailure message _) \<Rightarrow> Some (if degraded_text ''SubmissionFailure'' message then ConnectivityDegraded else SafetyPaused)
   | SubmissionError (OtherFailure e) \<Rightarrow> Some (if degraded_text ''Error'' (rejectionMessage e) then ConnectivityDegraded else SafetyPaused)
   | TransactionAwaitingCanonicalFinality label hash \<Rightarrow> Some (if degraded_text ''TransactionAwaitingCanonicalFinality''
       (label @ '' transaction '' @ hash @ '' is awaiting canonical finality'') then ConnectivityDegraded else SafetyPaused))"

text \<open>The end of a cycle that failed: the failure is recorded and saved, as far as saving works; a save that fails is ignored.\<close>

definition end_failed_cycle :: "environment \<Rightarrow> cycle_error \<Rightarrow> unit operation" where
  "end_failed_cycle env error = (case error of
     TransactionAwaitingCanonicalFinality label hash \<Rightarrow> saveDurableState env
   | _ \<Rightarrow>
       andThen (awaiting (\<lambda>_. map_option Inr (cycle_disposition (en_world env) error))) (\<lambda>disposition.
       andThen (if disposition = SafetyPaused then emitting Awaited else returning ()) (\<lambda>_.
       andThen (recordActivity \<lparr>ac_details = cycle_error_text (en_world env) error, ac_hash = None, ac_kind = ErrorActivity,
         ac_message = (if disposition = ConnectivityDegraded then ''RPC connectivity degraded; execution remains blocked until recovery''
           else ''Live execution paused after a safety fault''), ac_status = Failed\<rparr>) (\<lambda>_.
       andThen (catching (saveDurableState env) (\<lambda>_. returning ())) (\<lambda>_.
       rethrowing error)))))"

definition run_cycle :: "environment \<Rightarrow> OperatorSettings \<Rightarrow> pool_scan \<Rightarrow> unit operation" where
  "run_cycle env settings scan = catching (execute_scan env settings scan) (end_failed_cycle env)"

section \<open>Limits of a liquidation\<close>

lemma foldl_exposure:
  "foldl (\<lambda>total pool. total + backing pool + reserved pool) (start :: int) pools = start + sum_list (map (\<lambda>pool. backing pool + reserved pool) pools)"
  by (induction pools arbitrary: start) auto

text \<open>The price a stale pool is funded at: the last one, or the operator's when there is none, raised by the buffer.\<close>

definition funding_price :: "StrategySettings \<Rightarrow> PoolObservation \<Rightarrow> int" where
  "funding_price strategy pool =
     buffered_price (if ob_lastPrice pool > 0 then ob_lastPrice pool else ss_fallbackRepPerEthPrice strategy) (ss_stalePriceFundingBufferBps strategy)"

lemma stale_top_up_covers:
  assumes "conservativeStaleTopUp strategy pool candidate = ok topUp"
    and "nonneg_vault (ob_botVault pool)" and "0 < ob_multiplierBps pool" and "0 \<le> ss_vaultTargetHealthBps strategy"
    and "0 < funding_price strategy pool" and "0 \<le> lc_debtToMoveAttoEth candidate"
    and oi: "oi = vp_openInterestAttoEth (ob_botVault pool) + lc_debtToMoveAttoEth candidate" "0 < oi"
  shows "lc_topUpAttoRep candidate \<le> topUp \<and>
    (\<exists>health. vaultHealthBps (vp_vaultAttoRepBacking (ob_botVault pool) + topUp) oi (ob_multiplierBps pool) (funding_price strategy pool)
        (vp_disputeStakedAttoRep (ob_botVault pool)) = ok (Some health) \<and> ss_vaultTargetHealthBps strategy \<le> health)"
proof -
  let ?vault = "ob_botVault pool" and ?m = "ob_multiplierBps pool" and ?price = "funding_price strategy pool"
  let ?backing = "vp_vaultAttoRepBacking ?vault" and ?disp = "vp_disputeStakedAttoRep ?vault" and ?h = "ss_vaultTargetHealthBps strategy"
  from assms(1) obtain required where required: "requiredRepForOpenInterest oi ?m ?price ?h ?disp = ok required"
    and topUp: "topUp = max (if required > ?backing then required - ?backing else 0) (lc_topUpAttoRep candidate)"
    by (auto simp: conservativeStaleTopUp_def Let_def bindR_eq_Inr_iff funding_price_def oi(1) max_def split: if_splits)
  have nonneg: "0 \<le> ?backing" "0 \<le> ?disp" using assms(2) by (simp_all add: nonneg_vault_def)
  have covered: "required \<le> ?backing + topUp" "0 \<le> ?backing + topUp" "lc_topUpAttoRep candidate \<le> topUp"
    using nonneg by (auto simp: topUp)
  obtain health where health: "vaultHealthBps (?backing + topUp) oi ?m ?price ?disp = ok (Some health)"
    using health_value [OF oi(2) assms(5,3) covered(2) nonneg(2)] by blast
  have "?h \<le> health"
    using health_covers [OF assms(3,5) _ covered(2) nonneg(2) assms(4) required covered(1) health] oi(2) by simp
  with health covered(3) show ?thesis by blast
qed

text \<open>
  C12: What the bot adds for a liquidation. Together with what the vaults hold, what staged operations reserve, and
  what the liquidation acquires at a conservative price, the top-up stays within the limits for the pool and for all
  pools; it is never less than the candidate asks for. While the price is stale, no target is closed in full,
  and with the added debt the vault keeps its target health at the funding price, which is above the last one.
\<close>

theorem liquidation_within_limits:
  assumes "liquidation_top_up settings pools pool candidate = ok topUp"
    and "nonneg_vault (ob_botVault pool)" and "0 < ob_multiplierBps pool" and "0 < lc_debtToMoveAttoEth candidate"
    and strategy: "strategy = os_strategy settings" "0 \<le> ss_vaultTargetHealthBps strategy"
    and "\<not> ob_isPriceValid pool \<longrightarrow> 0 < funding_price strategy pool"
  shows "\<exists>acquired.
    conservativeLiquidationRep (lc_debtToMoveAttoEth candidate) (lc_target candidate)
      (if ob_isPriceValid pool then pr_price (lc_pool candidate)
       else buffered_price (pr_price (lc_pool candidate)) (ss_stalePriceFundingBufferBps strategy)) = ok acquired \<and>
    vp_vaultAttoRepBacking (ob_botVault pool) + reservedLiquidationRep pool strategy + topUp + acquired \<le> ss_maximumAttoRepPerPool strategy \<and>
    sum_list (map (\<lambda>observed. vp_vaultAttoRepBacking (ob_botVault observed) + reservedLiquidationRep observed strategy) pools) + topUp + acquired
      \<le> ss_maximumTotalDeployedRep strategy \<and>
    lc_topUpAttoRep candidate \<le> topUp \<and>
    (\<not> ob_isPriceValid pool \<longrightarrow>
      lc_requestedDebtAttoEth candidate < vp_openInterestAttoEth (lc_target candidate) \<and>
      (\<exists>health. vaultHealthBps (vp_vaultAttoRepBacking (ob_botVault pool) + topUp)
          (vp_openInterestAttoEth (ob_botVault pool) + lc_debtToMoveAttoEth candidate) (ob_multiplierBps pool) (funding_price strategy pool)
          (vp_disputeStakedAttoRep (ob_botVault pool)) = ok (Some health) \<and> ss_vaultTargetHealthBps strategy \<le> health))"
proof -
  from assms(1) obtain acquired where acquired:
      "conservativeLiquidationRep (lc_debtToMoveAttoEth candidate) (lc_target candidate)
        (if ob_isPriceValid pool then pr_price (lc_pool candidate)
         else buffered_price (pr_price (lc_pool candidate)) (ss_stalePriceFundingBufferBps strategy)) = ok acquired"
      "assertRepExposureLimits strategy pools pool topUp acquired = ok ()"
    and top_up: "(if ob_isPriceValid pool then ok (lc_topUpAttoRep candidate) else conservativeStaleTopUp strategy pool candidate) = ok topUp"
    and partial: "\<not> ob_isPriceValid pool \<longrightarrow> assertStaleLiquidationExposureBound candidate = ok ()"
    unfolding liquidation_top_up_def strategy(1) [symmetric] Let_def
    by (auto simp: bindR_eq_Inr_iff split: if_splits)
  have limits: "vp_vaultAttoRepBacking (ob_botVault pool) + reservedLiquidationRep pool strategy + topUp + acquired \<le> ss_maximumAttoRepPerPool strategy"
      "sum_list (map (\<lambda>observed. vp_vaultAttoRepBacking (ob_botVault observed) + reservedLiquidationRep observed strategy) pools) + topUp + acquired
        \<le> ss_maximumTotalDeployedRep strategy"
    using acquired(2) by (auto simp: assertRepExposureLimits_def assertRepLimits_def foldl_exposure split: if_splits)
  show ?thesis
  proof (cases "ob_isPriceValid pool")
    case True
    with acquired(1) limits top_up show ?thesis by auto
  next
    case False
    have "0 < vp_openInterestAttoEth (ob_botVault pool) + lc_debtToMoveAttoEth candidate"
      using assms(2,4) by (simp add: nonneg_vault_def)
    with False top_up assms(4,7) have "lc_topUpAttoRep candidate \<le> topUp \<and>
        (\<exists>health. vaultHealthBps (vp_vaultAttoRepBacking (ob_botVault pool) + topUp)
          (vp_openInterestAttoEth (ob_botVault pool) + lc_debtToMoveAttoEth candidate) (ob_multiplierBps pool) (funding_price strategy pool)
          (vp_disputeStakedAttoRep (ob_botVault pool)) = ok (Some health) \<and> ss_vaultTargetHealthBps strategy \<le> health)"
      by (intro stale_top_up_covers assms(2,3) strategy(2)) simp_all
    moreover have "lc_requestedDebtAttoEth candidate < vp_openInterestAttoEth (lc_target candidate)"
      using partial False by (auto simp: assertStaleLiquidationExposureBound_def split: if_splits)
    ultimately show ?thesis using acquired(1) limits False by blast
  qed
qed

definition sample_caller :: VaultPosition where
  "sample_caller = sampleCaller\<lparr>vp_backingUnits := 500, vp_vaultAttoRepBacking := 500\<rparr>"

definition sample_strategy :: StrategySettings where
  "sample_strategy = sampleStrategy\<lparr>ss_allowAutomaticPoolCreation := True, ss_maximumGasCostAttoEth := 10 ^ 18,
     ss_maximumLiquidationDebtAttoEth := 40, ss_stalePriceFundingBufferBps := 10000\<rparr>"


definition sample_candidate :: LiquidationCandidate where
  "sample_candidate = (case evaluateCandidate samplePool sampleTarget sample_caller sample_strategy of Inr (Some c) \<Rightarrow> c | _ \<Rightarrow> undefined)"

definition sample_stale_pool :: PoolObservation where
  "sample_stale_pool = sample_forked_pool\<lparr>ob_address := ''0xc'', ob_botVault := sample_caller, ob_candidates := [sample_candidate],
     ob_isPriceValid := False, ob_lastPrice := 10 ^ 18, ob_manager := ''0xd'', ob_pendingReportId := 5, ob_pendingReportSponsor := ''0xAA'',
     ob_systemState := 0\<rparr>"

definition sample_settings :: OperatorSettings where
  "sample_settings = \<lparr>os_approvedUniverses = [0], os_chainId = 1, os_historicalLogRecovery = False, os_logLookbackBlocks = 10,
     os_publicRpcUrls = [''https://rpc''], os_readEndpoints = [''https://rpc''], os_rpcQuorum = 1, os_securityPoolFactory = ''0xfa'',
     os_selectedPools = [''0xc''], os_strategy = sample_strategy,
     os_submission = \<lparr>sx_minimumBundleRelaySuccesses = 1, sx_mode = PublicMode, sx_relayUrls = []\<rparr>, os_wallet = ''0xaa'', os_weth = ''0xee''\<rparr>"


lemma sample_evaluated:
  "evaluateCandidate samplePool sampleTarget sample_caller sample_strategy = ok (Some sample_candidate)"
proof -
  have "case evaluateCandidate samplePool sampleTarget sample_caller sample_strategy of Inr (Some c) \<Rightarrow> True | _ \<Rightarrow> False" by code_simp
  then show ?thesis by (auto simp: sample_candidate_def split: sum.splits option.splits)
qed

lemma sample_candidate_fields: "lc_pool sample_candidate = samplePool" "lc_target sample_candidate = sampleTarget"
  "lc_requestedDebtAttoEth sample_candidate = 40"
  by code_simp+

lemma sample_top_up: "liquidation_top_up sample_settings [sample_stale_pool] sample_stale_pool sample_candidate = ok 0"
  by code_simp

theorem liquidation_within_limits_witness:
  "\<exists>acquired health. 500 + reservedLiquidationRep sample_stale_pool sample_strategy + acquired \<le> 1000 \<and>
     vaultHealthBps 500 (lc_debtToMoveAttoEth sample_candidate) 20000 (10 ^ 18) 0 = ok (Some health) \<and> 12000 \<le> health"
proof -
  have facts: "nonneg_vault (ob_botVault sample_stale_pool)" "0 < ob_multiplierBps sample_stale_pool" "0 < lc_debtToMoveAttoEth sample_candidate"
      "0 \<le> ss_vaultTargetHealthBps sample_strategy" "funding_price sample_strategy sample_stale_pool = 10 ^ 18" "\<not> ob_isPriceValid sample_stale_pool"
    by code_simp+
  have sample_values: "os_strategy sample_settings = sample_strategy" "ss_maximumAttoRepPerPool sample_strategy = 1000"
      "ss_vaultTargetHealthBps sample_strategy = 12000" "vp_vaultAttoRepBacking (ob_botVault sample_stale_pool) = 500"
      "vp_openInterestAttoEth (ob_botVault sample_stale_pool) = 0" "vp_disputeStakedAttoRep (ob_botVault sample_stale_pool) = 0"
      "ob_multiplierBps sample_stale_pool = 20000"
    by code_simp+
  show ?thesis
    using liquidation_within_limits [OF sample_top_up facts(1-3) sample_values(1) [symmetric] facts(4)] facts(5,6) unfolding sample_values by auto
qed

end
