(* ===== verification/Submission_Safety.thy ===== *)
theory Submission_Safety
  imports Liquidator_Execution
begin

text \<open>
  The journal on the disk and the transactions handed out: what a history tells, the invariant of the liquidator, and
  the rules of the operations that submit and recover. The proofs follow the operations with
  triples: what holds before, after a return, and after a throw or a hang.
\<close>

section \<open>What a history tells\<close>

definition disk_state :: "history \<Rightarrow> RuntimeState" where
  "disk_state past = foldl (\<lambda>disk event. case event of Saved state \<Rightarrow> state | _ \<Rightarrow> disk) initialRuntimeState past"

text \<open>The transactions handed to an endpoint since their last final receipt, expiry or replacement.\<close>

definition unresolved :: "history \<Rightarrow> string set" where
  "unresolved past = foldl (\<lambda>hashes event. case event of
     Submitted hash \<Rightarrow> insert (toLowerCase hash) hashes
   | FinalReceipt hash \<Rightarrow> hashes - {toLowerCase hash}
   | Expired hash \<Rightarrow> hashes - {toLowerCase hash}
   | Replaced hash _ \<Rightarrow> hashes - {toLowerCase hash}
   | _ \<Rightarrow> hashes) {} past"

definition journal_hashes :: "PendingTransactionIntent list \<Rightarrow> string set" where
  "journal_hashes intents = (\<lambda>intent. toLowerCase (pt_hash intent)) ` set intents"

text \<open>
  The blocks searched for an operation since its cursor was last reset: those the state in memory builds on, and those the
  saved state builds on.
\<close>

definition operation_key :: "PendingStagedOperation \<Rightarrow> string \<times> int" where
  "operation_key pending = (toLowerCase (pg_coordinator pending), pg_operationId pending)"

type_synonym searched_blocks = "string \<times> int \<Rightarrow> int set"

definition search_step :: "searched_blocks \<times> searched_blocks \<Rightarrow> history_event \<Rightarrow> searched_blocks \<times> searched_blocks" where
  "search_step searched event = (case event of
     Scanned coordinator operationId lo hi \<Rightarrow>
       let key = (toLowerCase coordinator, operationId) in ((fst searched)(key := fst searched key \<union> {lo..hi}), snd searched)
   | RecoveryReset coordinator operationId \<Rightarrow> ((fst searched)((toLowerCase coordinator, operationId) := {}), snd searched)
   | Saved _ \<Rightarrow> (fst searched, fst searched)
   | Restarted \<Rightarrow> (snd searched, snd searched)
   | _ \<Rightarrow> searched)"

definition searches :: "history \<Rightarrow> searched_blocks \<times> searched_blocks" where
  "searches past = foldl search_step (\<lambda>_. {}, \<lambda>_. {}) past"

lemma history_snoc [simp]:
  "disk_state (past @ [event]) = (case event of Saved state \<Rightarrow> state | _ \<Rightarrow> disk_state past)"
  "unresolved (past @ [event]) = (case event of
     Submitted hash \<Rightarrow> insert (toLowerCase hash) (unresolved past)
   | FinalReceipt hash \<Rightarrow> unresolved past - {toLowerCase hash}
   | Expired hash \<Rightarrow> unresolved past - {toLowerCase hash}
   | Replaced hash _ \<Rightarrow> unresolved past - {toLowerCase hash}
   | _ \<Rightarrow> unresolved past)"
  "searches (past @ [event]) = search_step (searches past) event"
  by (simp_all add: disk_state_def unresolved_def searches_def split: history_event.split)

lemma history_Nil [simp]:
  "disk_state [] = initialRuntimeState" "unresolved [] = {}" "searches [] = (\<lambda>_. {}, \<lambda>_. {})"
  by (simp_all add: disk_state_def unresolved_def searches_def)

section \<open>The invariant\<close>

text \<open>Every block a cursor has passed was searched or is still to be searched.\<close>

definition cursor_covers :: "PendingStagedOperation \<Rightarrow> int set \<Rightarrow> bool" where
  "cursor_covers pending blocks \<longleftrightarrow>
     (\<forall>latest block. pg_latestRecoveryBlock pending = Some latest \<longrightarrow> pg_queuedBlock pending \<le> block \<longrightarrow> block \<le> latest \<longrightarrow>
        block \<in> blocks \<or> (\<exists>oldest. pg_nextHistoricalBlock pending = Some oldest \<and> block \<le> oldest))"

definition cursors_cover :: "PendingStagedOperation list \<Rightarrow> searched_blocks \<Rightarrow> bool" where
  "cursors_cover operations searched \<longleftrightarrow> (\<forall>pending \<in> set operations. cursor_covers pending (searched (operation_key pending)))"

text \<open>When a transaction may be handed to the endpoints.\<close>

definition sound_submission :: "history \<Rightarrow> string \<Rightarrow> bool" where
  "sound_submission past hash \<longleftrightarrow>
     (\<exists>intent. rt_pendingTransactions (disk_state past) = [intent] \<and> sameText (pt_hash intent) hash \<and>
        unresolved past \<subseteq> {toLowerCase hash} \<and>
        (pt_requiresMarketEvidence intent \<longrightarrow> unresolved past = {} \<and> past \<noteq> [] \<and> last past = MarketConfirmed))"

text \<open>What a crash at the end of a history finds on the disk.\<close>

definition durable :: "history \<Rightarrow> bool" where
  "durable past \<longleftrightarrow>
     unresolved past \<subseteq> journal_hashes (rt_pendingTransactions (disk_state past)) \<and>
     length (rt_pendingTransactions (disk_state past)) \<le> 1 \<and>
     cursors_cover (rt_pendingStagedOperations (disk_state past)) (snd (searches past)) \<and>
     (\<forall>before hash. past = before @ [Submitted hash] \<longrightarrow> sound_submission before hash)"

definition always_durable :: "history \<Rightarrow> bool" where
  "always_durable past \<longleftrightarrow> (\<forall>p. prefix p past \<longrightarrow> durable p)"

lemma always_durable_snoc: "always_durable (past @ [event]) \<longleftrightarrow> always_durable past \<and> durable (past @ [event])"
  unfolding always_durable_def by (auto simp: prefix_snoc)

lemma always_durable_last: "always_durable past \<Longrightarrow> durable past"
  by (simp add: always_durable_def)

lemma always_durable_prefix: "always_durable past \<Longrightarrow> prefix p past \<Longrightarrow> always_durable p"
  by (auto simp: always_durable_def)

text \<open>
  A phase: the journal in memory, a bound of what is unresolved, and whether the journal is saved.
\<close>

definition phase :: "PendingTransactionIntent list \<Rightarrow> string set \<Rightarrow> bool \<Rightarrow> RuntimeState \<times> history \<Rightarrow> bool" where
  "phase intents hashes saved s \<longleftrightarrow>
     always_durable (snd s) \<and> rt_pendingTransactions (fst s) = intents \<and> length intents \<le> 1 \<and>
     unresolved (snd s) \<subseteq> hashes \<and> hashes \<subseteq> journal_hashes intents \<and>
     cursors_cover (rt_pendingStagedOperations (fst s)) (fst (searches (snd s))) \<and>
     (saved \<longrightarrow> rt_pendingTransactions (disk_state (snd s)) = intents)"

definition safe :: "RuntimeState \<times> history \<Rightarrow> bool" where
  "safe s \<longleftrightarrow> (\<exists>intents hashes. phase intents hashes False s)"

lemma phase_safe: "phase intents hashes saved s \<Longrightarrow> safe s"
  by (auto simp: safe_def phase_def)

lemma phase_unsaved: "phase intents hashes saved s \<Longrightarrow> phase intents hashes False s"
  by (simp add: phase_def)

section \<open>Triples\<close>

definition triple ::
  "(RuntimeState \<times> history \<Rightarrow> bool) \<Rightarrow> 'a operation \<Rightarrow> ('a \<Rightarrow> RuntimeState \<times> history \<Rightarrow> bool) \<Rightarrow> (RuntimeState \<times> history \<Rightarrow> bool) \<Rightarrow> bool" where
  "triple P m Q E \<longleftrightarrow> (\<forall>s. P s \<longrightarrow> (case m s of (Returned x, s') \<Rightarrow> Q x s' | (_, s') \<Rightarrow> E s'))"

named_theorems op_rules \<open>triples of the operations\<close>

lemma triple_andThen:
  "triple P m R E \<Longrightarrow> (\<And>x. triple (R x) (f x) Q E) \<Longrightarrow> triple P (andThen m f) Q E"
  by (fastforce simp: triple_def andThen_def split: prod.splits outcome.splits)

lemma andThen_lifting_ok: "andThen (lifting (ok x)) f = f x"
  by (auto simp: andThen_def lifting_def fun_eq_iff)

lemma andThen_assoc: "andThen (andThen m f) g = andThen m (\<lambda>x. andThen (f x) g)"
  by (auto simp: andThen_def fun_eq_iff split: prod.splits outcome.splits)

lemma triple_catching:
  "triple P m Q R \<Longrightarrow> (\<And>e. triple R (handler e) Q E) \<Longrightarrow> (\<And>s. R s \<Longrightarrow> E s) \<Longrightarrow> triple P (catching m handler) Q E"
  by (fastforce simp: triple_def catching_def split: prod.splits outcome.splits)

lemma triple_weaken:
  "triple P' m Q' E' \<Longrightarrow> (\<And>s. P s \<Longrightarrow> P' s) \<Longrightarrow> (\<And>x s. Q' x s \<Longrightarrow> Q x s) \<Longrightarrow> (\<And>s. E' s \<Longrightarrow> E s) \<Longrightarrow> triple P m Q E"
  by (fastforce simp: triple_def split: prod.splits outcome.splits)

lemma triple_returning: "(\<And>s. P s \<Longrightarrow> Q x s) \<Longrightarrow> triple P (returning x) Q E"
  by (simp add: triple_def returning_def split: prod.splits)

lemma returning_rule [op_rules]: "triple P (returning x) (\<lambda>_. P) E"
  by (simp add: triple_def returning_def split: prod.splits)

lemma triple_throwing: "(\<And>s. P s \<Longrightarrow> E s) \<Longrightarrow> triple P (throwing message) Q E"
  by (simp add: triple_def throwing_def split: prod.splits)

lemma triple_rethrowing: "(\<And>s. P s \<Longrightarrow> E s) \<Longrightarrow> triple P (rethrowing e) Q E"
  by (simp add: triple_def rethrowing_def split: prod.splits)

lemma triple_when_then: "(\<And>s. P s \<Longrightarrow> E s) \<Longrightarrow> triple P (when_then c message) (\<lambda>_ s. P s \<and> \<not> c) E"
  by (simp add: triple_def when_then_def throwing_def returning_def split: prod.splits)

lemma triple_lifting: "(\<And>s. P s \<Longrightarrow> E s) \<Longrightarrow> triple P (lifting r) (\<lambda>x s. P s \<and> r = ok x) E"
  by (auto simp: triple_def lifting_def split: prod.splits sum.splits)

lemma triple_reading: "triple P (reading f) (\<lambda>x s. P s \<and> x = f (fst s)) E"
  by (auto simp: triple_def reading_def split: prod.splits)

lemma triple_updating: "triple (\<lambda>s. Q () (f (fst s), snd s)) (updating f) Q E"
  by (auto simp: triple_def updating_def split: prod.splits)

lemma triple_emitting: "triple (\<lambda>s. Q () (fst s, snd s @ [event])) (emitting event) Q E"
  by (auto simp: triple_def emitting_def split: prod.splits)

lemma triple_pre: "(\<And>s. P s \<Longrightarrow> c \<and> P' s) \<Longrightarrow> (c \<Longrightarrow> triple P' m Q E) \<Longrightarrow> triple P m Q E"
  by (fastforce simp: triple_def split: prod.splits outcome.splits)


section \<open>Steps of the operations\<close>

text \<open>Events that neither save nor submit nor reset.\<close>

definition harmless :: "history_event \<Rightarrow> bool" where
  "harmless event \<longleftrightarrow> (case event of Submitted _ \<Rightarrow> False | Saved _ \<Rightarrow> False | Scanned _ _ _ _ \<Rightarrow> False | RecoveryReset _ _ \<Rightarrow> False | Restarted \<Rightarrow> False | _ \<Rightarrow> True)"

lemma harmless_simps [simp]:
  "harmless Awaited" "harmless MarketConfirmed" "harmless (Recorded activity)" "harmless (FinalReceipt hash)"
  "harmless (Expired hash)" "harmless (Replaced hash replacement)"
  by (simp_all add: harmless_def)

lemma harmless_event:
  assumes "harmless event"
  shows "disk_state (past @ [event]) = disk_state past" "unresolved (past @ [event]) \<subseteq> unresolved past"
    "searches (past @ [event]) = searches past" "event \<noteq> Submitted hash"
  using assms by (auto simp: harmless_def search_step_def split: history_event.splits)

lemma durable_harmless: "durable past \<Longrightarrow> harmless event \<Longrightarrow> durable (past @ [event])"
  using harmless_event(1,2,3) [where event = event and past = past] by (auto simp: durable_def harmless_def)

lemma phase_harmless:
  assumes "phase intents hashes saved (state, past)" and "harmless event"
  shows "phase intents hashes saved (state, past @ [event])"
  using assms harmless_event(1,2,3) [OF assms(2), where past = past]
  by (auto simp: phase_def always_durable_snoc intro: durable_harmless always_durable_last)

lemma phase_resolved:
  assumes "phase intents hashes saved (state, past)" and "event \<in> {FinalReceipt hash, Expired hash, Replaced hash replacement}"
  shows "phase intents (hashes - {toLowerCase hash}) saved (state, past @ [event])"
proof -
  have "harmless event" using assms(2) by auto
  from phase_harmless [OF assms(1) this] assms show ?thesis by (auto simp: phase_def)
qed

lemma phase_saved:
  assumes "phase intents hashes saved (state, past)"
  shows "phase intents hashes True (state, past @ [Saved state])"
  using assms by (auto simp: phase_def always_durable_snoc durable_def cursors_cover_def search_step_def)

lemma phase_activities: "phase intents hashes saved (state\<lparr>rt_activities := activities\<rparr>, past) \<longleftrightarrow> phase intents hashes saved (state, past)"
  by (simp add: phase_def)

lemma phase_submitted:
  assumes "phase [intent] hashes True (state, past)" and "sameText (pt_hash intent) hash" and "hashes \<subseteq> {toLowerCase hash}"
    and "pt_requiresMarketEvidence intent \<Longrightarrow> hashes = {} \<and> past \<noteq> [] \<and> last past = MarketConfirmed"
  shows "phase [intent] {toLowerCase hash} True (state, past @ [Submitted hash])"
proof -
  have "sound_submission past hash" using assms by (auto simp: sound_submission_def phase_def)
  moreover have "toLowerCase hash \<in> journal_hashes [intent]" using assms(2) by (simp add: journal_hashes_def sameText_def)
  ultimately have "durable (past @ [Submitted hash])"
    using assms by (auto simp: durable_def phase_def search_step_def dest!: always_durable_last)
  with \<open>toLowerCase hash \<in> _\<close> assms show ?thesis by (auto simp: phase_def always_durable_snoc search_step_def)
qed

lemma phase_appended:
  assumes "phase [] {} saved (state, past)"
  shows "phase [intent] {} False (state\<lparr>rt_pendingTransactions := rt_pendingTransactions state @ [intent]\<rparr>, past)"
  using assms by (auto simp: phase_def)

lemma phase_forgotten:
  assumes "phase [intent] {} saved (state, past)" and "toLowerCase (pt_hash intent) = toLowerCase hash"
  shows "phase [] {} False (state\<lparr>rt_pendingTransactions :=
    filter (\<lambda>intent. toLowerCase (pt_hash intent) \<noteq> toLowerCase hash) (rt_pendingTransactions state)\<rparr>, past)"
  using assms by (auto simp: phase_def)

subsection \<open>Triples of the operations\<close>

lemma awaiting_rule [op_rules]:
  "(\<And>s. phase intents hashes saved s \<Longrightarrow> E s) \<Longrightarrow>
   triple (phase intents hashes saved) (awaiting answer) (\<lambda>_. phase intents hashes saved) E"
  by (auto simp: triple_def awaiting_def phase_harmless split: prod.splits option.splits sum.splits)

lemma recordActivity_rule [op_rules]:
  "triple (phase intents hashes saved) (recordActivity activity) (\<lambda>_. phase intents hashes saved) E"
  unfolding recordActivity_def
  by (auto simp: triple_def andThen_def updating_def emitting_def phase_harmless phase_activities split: prod.splits)

lemma save_rule [op_rules]:
  assumes "\<And>s saved. phase intents hashes saved s \<Longrightarrow> E s"
  shows "triple (phase intents hashes saved) (saveDurableState env) (\<lambda>_. phase intents hashes True) E"
  unfolding triple_def saveDurableState_def
  by (auto intro: assms [OF phase_harmless] assms [OF phase_saved] phase_saved split: prod.splits save_answer.splits)

lemma active_rule [op_rules]:
  "(\<And>s. P s \<Longrightarrow> E s) \<Longrightarrow> triple P (assertExecutionActive env) (\<lambda>_. P) E"
  by (auto simp: triple_def assertExecutionActive_def when_then_def throwing_def returning_def split: prod.splits)

lemma lifting_rule [op_rules]: "(\<And>s. P s \<Longrightarrow> E s) \<Longrightarrow> triple P (lifting r) (\<lambda>_. P) E"
  by (simp add: triple_def lifting_def split: prod.splits sum.splits)

lemma when_then_rule [op_rules]: "(\<And>s. P s \<Longrightarrow> E s) \<Longrightarrow> triple P (when_then c message) (\<lambda>_. P) E"
  by (simp add: triple_def when_then_def throwing_def returning_def split: prod.splits)

lemma queue_rule [op_rules]:
  "triple (phase intents hashes saved) (queue_staged_operation expectation receipt queued) (\<lambda>_. phase intents hashes saved) E"
  by (auto simp: queue_staged_operation_def triple_def updating_def returning_def phase_def cursors_cover_def cursor_covers_def
      split: prod.splits option.splits ReceiptExpectation.splits)

lemma forget_rule:
  "toLowerCase (pt_hash intent) = toLowerCase hash \<Longrightarrow>
   triple (phase [intent] {} saved) (forgetIntent hash) (\<lambda>_. phase [] {} False) E"
  by (auto simp: forgetIntent_def triple_def updating_def intro!: phase_forgotten)

text \<open>A receipt of the endpoint is that of the transaction it was asked for.\<close>

definition honest_receipts :: "environment \<Rightarrow> bool" where
  "honest_receipts env \<longleftrightarrow> (\<forall>past hash receipt. Fulfilled receipt \<in> set (en_receipts env past hash) \<longrightarrow> sameText (rx_transactionHash receipt) hash)"

lemma finalized_receipt_hash:
  assumes "finalizedReceiptWithQuorum world readers endpoints receipts hash requirement = Some (Inr (Finalized receipt))"
  shows "Fulfilled receipt \<in> set receipts"
proof -
  have "Some receipt \<in> set (fulfilled_values (map (receipt_answer world) receipts))"
    using assms by (auto simp: finalizedReceiptWithQuorum_def Let_def bindQ_eq_Some_Inr answered_def
        split: option.splits if_splits dest!: find_Some_in)
  then show ?thesis by (auto simp: set_fulfilled_values receipt_answer_def split: settled.splits if_splits)
qed

lemma finalized_receipt_rule:
  assumes "honest_receipts env" and "\<And>s. phase [intent] hashes saved s \<Longrightarrow> E s"
  shows "triple (phase [intent] hashes saved) (finalized_receipt env settings hash)
    (\<lambda>result. case result of
       Finalized receipt \<Rightarrow> (\<lambda>s. sameText (rx_transactionHash receipt) hash \<and> phase [intent] (hashes - {toLowerCase hash}) saved s)
     | _ \<Rightarrow> phase [intent] hashes saved) E"
  unfolding finalized_receipt_def
proof (rule triple_andThen)
  show "triple (phase [intent] hashes saved) (awaiting (\<lambda>past. finalizedReceiptWithQuorum (en_world env) (en_readers env past)
      (os_readEndpoints settings) (en_receipts env past hash) hash (os_rpcQuorum settings)))
    (\<lambda>result s. (\<forall>receipt. result = Finalized receipt \<longrightarrow> sameText (rx_transactionHash receipt) hash) \<and> phase [intent] hashes saved s) E"
    using assms finalized_receipt_hash
    by (fastforce simp: triple_def awaiting_def honest_receipts_def phase_harmless split: prod.splits option.splits sum.splits)
  show "triple (\<lambda>s. (\<forall>receipt. result = Finalized receipt \<longrightarrow> sameText (rx_transactionHash receipt) hash) \<and> phase [intent] hashes saved s)
      (case result of Finalized receipt \<Rightarrow> andThen (emitting (FinalReceipt hash)) (\<lambda>_. returning result) | _ \<Rightarrow> returning result)
      (\<lambda>result. case result of
         Finalized receipt \<Rightarrow> (\<lambda>s. sameText (rx_transactionHash receipt) hash \<and> phase [intent] (hashes - {toLowerCase hash}) saved s)
       | _ \<Rightarrow> phase [intent] hashes saved) E" for result
    by (auto simp: triple_def andThen_def emitting_def returning_def split: prod.splits receipt_result.splits intro: phase_resolved)
qed


section \<open>Submitting and recovering\<close>

lemma triple_case_option:
  "(v = None \<Longrightarrow> triple P a Q E) \<Longrightarrow> (\<And>x. v = Some x \<Longrightarrow> triple P (f x) Q E) \<Longrightarrow>
   triple P (case v of None \<Rightarrow> a | Some x \<Rightarrow> f x) Q E"
  by (cases v) simp_all

lemma triple_if: "(c \<Longrightarrow> triple P a Q E) \<Longrightarrow> (\<not> c \<Longrightarrow> triple P b Q E) \<Longrightarrow> triple P (if c then a else b) Q E"
  by simp

lemma triple_true: "triple (\<lambda>s. c \<and> P s) m Q E \<longleftrightarrow> (c \<longrightarrow> triple P m Q E)"
  by (cases c) (simp_all add: triple_def split: outcome.splits)

lemma emitting_rule [op_rules]: "harmless event \<Longrightarrow> triple (phase intents hashes saved) (emitting event) (\<lambda>_. phase intents hashes saved) E"
  by (auto simp: triple_def emitting_def intro: phase_harmless)

lemma pre_submit_rule:
  assumes "\<And>s. phase intents hashes saved s \<Longrightarrow> E s"
  shows "triple (phase intents hashes saved) (pre_submit env call)
    (\<lambda>_ s. phase intents hashes saved s \<and> (ca_preSubmit call \<noteq> None \<longrightarrow> snd s \<noteq> [] \<and> last (snd s) = MarketConfirmed)) E"
  unfolding pre_submit_def assertMarketPriceStillAllowed_def
proof (rule triple_case_option)
  fix pool assume pool: "ca_preSubmit call = Some pool"
  have "triple (phase intents hashes saved) (emitting MarketConfirmed)
      (\<lambda>_ s. phase intents hashes saved s \<and> (ca_preSubmit call \<noteq> None \<longrightarrow> snd s \<noteq> [] \<and> last (snd s) = MarketConfirmed)) E"
    by (auto simp: triple_def emitting_def intro: phase_harmless)
  then show "triple (phase intents hashes saved) (andThen (awaiting (\<lambda>past. en_priceStillAllowed env past pool)) (\<lambda>allowed.
      if allowed then emitting MarketConfirmed
      else throwing ''Market consensus expired or no longer confirms the price before transaction submission''))
    (\<lambda>_ s. phase intents hashes saved s \<and> (ca_preSubmit call \<noteq> None \<longrightarrow> snd s \<noteq> [] \<and> last (snd s) = MarketConfirmed)) E"
    by - (rule triple_andThen awaiting_rule triple_if triple_throwing assms | assumption)+
qed (auto intro: triple_returning)

lemma sign_pre_submit:
  "triple (phase intents hashes saved) (pre_submit env call) (\<lambda>_. phase intents hashes saved) safe"
  by (rule triple_weaken [OF pre_submit_rule]) (auto intro: phase_safe)

lemma sign_call_rule:
  "triple (phase [] {} saved) (sign_call env settings call kind)
    (\<lambda>intent s. pt_requiresMarketEvidence intent = (ca_preSubmit call \<noteq> None) \<and> phase [] {} True s) safe"
  unfolding sign_call_def prod.case
  by (rule triple_andThen triple_case_option op_rules triple_throwing sign_pre_submit triple_returning | erule phase_safe)+
    (simp add: signed_intent_def)

lemma persist_rule:
  "triple (phase [] {} saved) (persist_intent env intent) (\<lambda>_. phase [intent] {} True) safe"
  unfolding persist_intent_def
proof (rule triple_andThen)
  show "triple (phase [] {} saved) (updating (\<lambda>state. state\<lparr>rt_pendingTransactions := rt_pendingTransactions state @ [intent]\<rparr>))
    (\<lambda>_. phase [intent] {} False) safe"
    by (auto simp: triple_def updating_def intro!: phase_appended)
qed (rule triple_andThen op_rules | erule phase_safe)+

lemma abandon_rule:
  "triple (phase [intent] {} saved) (abandon_intent env intent error) Q safe"
  unfolding abandon_intent_def
  by (rule triple_andThen forget_rule refl op_rules triple_rethrowing | erule phase_safe)+

lemma submit_rule:
  assumes "sameText (pt_hash intent) hash" and "hashes \<subseteq> {toLowerCase hash}"
  shows "triple (\<lambda>s. phase [intent] hashes True s \<and> (pt_requiresMarketEvidence intent \<longrightarrow> hashes = {} \<and> snd s \<noteq> [] \<and> last (snd s) = MarketConfirmed))
    (submit_signed env settings hash maxBlockNumber serialized) (\<lambda>_. phase [intent] {toLowerCase hash} True) safe"
  unfolding submit_signed_def
  using assms by (auto simp: triple_def andThen_def emitting_def intro!: phase_submitted phase_safe [OF phase_submitted] split: prod.splits sum.splits)

lemma require_final_rule:
  "triple (case result of
       Finalized receipt \<Rightarrow> (\<lambda>s. sameText (rx_transactionHash receipt) hash \<and> phase [intent] ({toLowerCase hash} - {toLowerCase hash}) True s)
     | _ \<Rightarrow> phase [intent] {toLowerCase hash} True)
    (requireFinalizedTransactionReceipt label hash result)
    (\<lambda>receipt s. sameText (rx_transactionHash receipt) hash \<and> phase [intent] {} True s) safe"
  by (cases result) (auto simp: requireFinalizedTransactionReceipt_def intro!: triple_throwing triple_rethrowing triple_returning intro: phase_safe)

lemma confirm_rule:
  assumes "honest_receipts env"
  shows "triple (phase [intent] {toLowerCase (pt_hash intent)} True) (confirm_intent env settings intent) (\<lambda>_. phase [] {} True) safe"
  unfolding confirm_intent_def
  apply (rule triple_andThen [OF awaiting_rule], erule phase_safe)
  apply (rule triple_andThen [OF finalized_receipt_rule], rule assms, erule phase_safe)
  apply (rule triple_andThen [OF require_final_rule])
  apply (unfold triple_true)
  apply (rule impI triple_andThen forget_rule op_rules triple_returning | erule phase_safe | assumption | simp add: sameText_def)+
  done

lemma submitCall_rule:
  assumes honest: "honest_receipts env"
  shows "triple (phase [] {} saved) (submitCall env settings call kind) (\<lambda>_. phase [] {} True) safe"
  unfolding submitCall_def
proof (intro triple_andThen)
  show "triple (phase [] {} saved) (sign_call env settings call kind)
    (\<lambda>intent s. pt_requiresMarketEvidence intent = (ca_preSubmit call \<noteq> None) \<and> phase [] {} True s) safe"
    by (rule sign_call_rule)
  fix intent
  show "triple (\<lambda>s. pt_requiresMarketEvidence intent = (ca_preSubmit call \<noteq> None) \<and> phase [] {} True s) (persist_intent env intent)
    (\<lambda>_ s. pt_requiresMarketEvidence intent = (ca_preSubmit call \<noteq> None) \<and> phase [intent] {} True s) safe"
    unfolding triple_true by (intro impI triple_weaken [OF persist_rule]) auto
  show "triple (\<lambda>s. pt_requiresMarketEvidence intent = (ca_preSubmit call \<noteq> None) \<and> phase [intent] {} True s) (assertExecutionActive env)
    (\<lambda>_ s. pt_requiresMarketEvidence intent = (ca_preSubmit call \<noteq> None) \<and> phase [intent] {} True s) safe"
    by (rule active_rule) (auto intro: phase_safe)
  show "triple (\<lambda>s. pt_requiresMarketEvidence intent = (ca_preSubmit call \<noteq> None) \<and> phase [intent] {} True s)
      (catching (pre_submit env call) (abandon_intent env intent))
      (\<lambda>_ s. phase [intent] {} True s \<and>
        (pt_requiresMarketEvidence intent \<longrightarrow> {} = ({} :: string set) \<and> snd s \<noteq> [] \<and> last (snd s) = MarketConfirmed)) safe"
    unfolding triple_true
  proof (rule impI, rule triple_catching)
    assume requires: "pt_requiresMarketEvidence intent = (ca_preSubmit call \<noteq> None)"
    show "triple (phase [intent] {} True) (pre_submit env call) (\<lambda>_ s. phase [intent] {} True s \<and>
        (pt_requiresMarketEvidence intent \<longrightarrow> {} = ({} :: string set) \<and> snd s \<noteq> [] \<and> last (snd s) = MarketConfirmed)) (phase [intent] {} True)"
      using requires by (intro triple_weaken [OF pre_submit_rule]) auto
  qed (auto intro: phase_safe abandon_rule)
  show "triple (\<lambda>s. phase [intent] {} True s \<and>
        (pt_requiresMarketEvidence intent \<longrightarrow> {} = ({} :: string set) \<and> snd s \<noteq> [] \<and> last (snd s) = MarketConfirmed))
      (submit_signed env settings (pt_hash intent) (pt_maxBlockNumber intent) (pt_serializedTransaction intent))
      (\<lambda>_. phase [intent] {toLowerCase (pt_hash intent)} True) safe"
    by (rule submit_rule) auto
  show "triple (phase [intent] {toLowerCase (pt_hash intent)} True) (confirm_intent env settings intent) (\<lambda>_. phase [] {} True) safe"
    by (rule confirm_rule [OF honest])
qed

lemma resolve_some: "resolveRecoveredIntentJournal hash (Some status) = andThen (forgetIntent hash) (\<lambda>_. returning True)"
  by (simp add: resolveRecoveredIntentJournal_def)

lemma recover_final_rule:
  "triple (phase [intent] {} saved) (recover_final env intent receipt) (\<lambda>blocked s. \<not> blocked \<and> phase [] {} True s) safe"
  unfolding recover_final_def resolve_some
  by (rule triple_andThen op_rules forget_rule refl triple_returning | erule phase_safe | rule conjI, simp, assumption)+

lemma expire_rule:
  "triple (phase [intent] {toLowerCase (pt_hash intent)} saved) (expire_private env intent) (\<lambda>blocked s. \<not> blocked \<and> phase [] {} True s) safe"
proof -
  have "triple (phase [intent] {toLowerCase (pt_hash intent)} saved) (emitting (Expired (pt_hash intent))) (\<lambda>_. phase [intent] {} saved) safe"
    by (auto simp: triple_def emitting_def dest: phase_resolved [where event = "Expired (pt_hash intent)" and hash = "pt_hash intent"])
  then show ?thesis
    unfolding expire_private_def
    apply -
    apply (rule triple_andThen [OF awaiting_rule], erule phase_safe)
    apply (rule triple_andThen, assumption)
    apply (rule triple_andThen op_rules forget_rule refl triple_returning | erule phase_safe | rule conjI, simp, assumption)+
    done
qed

lemma resubmit_rule:
  assumes "hashes \<subseteq> {toLowerCase (pt_hash intent)}"
  shows "triple (phase [intent] hashes True) (resubmit_intent env settings intent) (\<lambda>blocked. if blocked then safe else phase [] {} True) safe"
proof -
  have first: "triple (phase [intent] hashes True) (when_then (\<not> recoveredIntentCanBeResubmitted intent) message)
    (\<lambda>_ s. phase [intent] hashes True s \<and>
      (pt_requiresMarketEvidence intent \<longrightarrow> hashes = {} \<and> snd s \<noteq> [] \<and> last (snd s) = MarketConfirmed)) safe" for message
  proof (rule triple_weaken)
    show "triple (phase [intent] hashes True) (when_then (\<not> recoveredIntentCanBeResubmitted intent) message)
      (\<lambda>_ s. phase [intent] hashes True s \<and> \<not> \<not> recoveredIntentCanBeResubmitted intent) safe"
      by (rule triple_when_then) (erule phase_safe)
  qed (auto simp: recoveredIntentCanBeResubmitted_def)
  show ?thesis
    unfolding resubmit_intent_def
    by (rule triple_andThen [OF first], rule triple_andThen [OF when_then_rule], (auto intro: phase_safe)[1],
      rule triple_andThen [OF submit_rule triple_returning]) (use assms in \<open>auto intro: phase_safe\<close>)
qed

lemma triple_blocked:
  "triple P m (\<lambda>blocked s. \<not> blocked \<and> phase [] {} True s) safe \<Longrightarrow> triple P m (\<lambda>blocked. if blocked then safe else phase [] {} True) safe"
  by (erule triple_weaken) auto

lemma recover_intent_rule:
  assumes "honest_receipts env" and "hashes \<subseteq> {toLowerCase (pt_hash intent)}"
  shows "triple (phase [intent] hashes True) (recover_intent env settings intent) (\<lambda>blocked. if blocked then safe else phase [] {} True) safe"
proof -
  have final: "triple (phase [intent] (hashes - {toLowerCase (pt_hash intent)}) True) (recover_final env intent receipt)
      (\<lambda>blocked. if blocked then safe else phase [] {} True) safe" for receipt
    using assms(2) by (intro triple_blocked triple_weaken [OF recover_final_rule]) (auto simp: phase_def)
  have ambiguous: "triple (phase [intent] hashes True)
      (case ambiguousRecoveryAction intent blocks of
         ExpirePrivate \<Rightarrow> expire_private env intent | Retain \<Rightarrow> throwing (retained_message intent) | Resubmit \<Rightarrow> resubmit_intent env settings intent)
      (\<lambda>blocked. if blocked then safe else phase [] {} True) safe" for blocks
  proof (cases "ambiguousRecoveryAction intent blocks")
    case ExpirePrivate
    have "triple (phase [intent] hashes True) (expire_private env intent) (\<lambda>blocked s. \<not> blocked \<and> phase [] {} True s) safe"
      using assms(2) by (intro triple_weaken [OF expire_rule [of intent True]]) (auto simp: phase_def journal_hashes_def)
    with ExpirePrivate show ?thesis by (auto intro: triple_blocked)
  qed (auto intro: triple_throwing resubmit_rule [OF assms(2)] phase_safe)
  show ?thesis
    unfolding recover_intent_def
    apply (rule triple_andThen [OF lifting_rule], erule phase_safe)
    apply (rule triple_andThen [OF when_then_rule], erule phase_safe)
    apply (rule triple_andThen [OF finalized_receipt_rule [OF assms(1)]], erule phase_safe)
    subgoal for checked active result
    proof (cases result)
      case NotObserved
      then show ?thesis
        by simp (rule triple_andThen op_rules ambiguous | erule phase_safe)+
    next
      case ObservedOnly
      then show ?thesis by (auto intro!: triple_returning intro: phase_safe)
    next
      case (Finalized receipt)
      then show ?thesis using final by (simp add: triple_true)
    qed
    done
qed

lemma recoverPending_rule:
  assumes "honest_receipts env"
  shows "triple (phase intents hashes True) (recoverPendingTransactions env settings) (\<lambda>blocked. if blocked then safe else phase [] {} True) safe"
proof (cases "length intents \<le> 1 \<and> hashes \<subseteq> journal_hashes intents")
  case True
  then consider (none) "intents = []" "hashes = {}" | (one) intent where "intents = [intent]" "hashes \<subseteq> {toLowerCase (pt_hash intent)}"
    by (cases intents) (auto simp: journal_hashes_def)
  then have loop: "triple (phase intents hashes True) (recover_loop env settings intents) (\<lambda>blocked. if blocked then safe else phase [] {} True) safe"
  proof cases
    case none
    then show ?thesis by (auto intro!: triple_returning)
  next
    case one
    then show ?thesis
      by (auto intro!: triple_andThen [OF recover_intent_rule [OF assms one(2)]] triple_returning triple_if)
  qed
  have "recoverPendingTransactions env settings s = recover_loop env settings intents s" if "phase intents hashes True s" for s
    using that by (cases s) (auto simp: recoverPendingTransactions_def andThen_def reading_def phase_def)
  with loop show ?thesis by (simp add: triple_def)
next
  case False
  then show ?thesis by (auto simp: triple_def phase_def)
qed

end
