(* ===== verification/Crash_Safety.thy ===== *)
theory Crash_Safety
  imports Submission_Safety
begin

text \<open>
  Why the liquidator may be stopped at any moment. Runs of the bot are cycles, crashes inside a cycle or a
  reconciliation, and reconciliations; a crash leaves what was saved last. The rules of the search for
  outcomes, of a cycle and of a reconciliation keep the invariant of \<open>Submission_Safety\<close>; two
  cycles are evaluated, and two gaps are shown at the end.
\<close>

section \<open>Searching for outcomes\<close>

definition tracking :: "PendingTransactionIntent list \<Rightarrow> string set \<Rightarrow> PendingStagedOperation \<Rightarrow> RuntimeState \<times> history \<Rightarrow> bool" where
  "tracking intents hashes pending s \<longleftrightarrow>
     phase intents hashes True s \<and> cursor_covers pending (fst (searches (snd s)) (operation_key pending))"

text \<open>The blocks of a range were searched, and what lies below it is covered.\<close>

definition searched_range :: "PendingStagedOperation \<Rightarrow> LogRange \<Rightarrow> RuntimeState \<times> history \<Rightarrow> bool" where
  "searched_range pending chunk s \<longleftrightarrow> {lr_fromBlock chunk..lr_toBlock chunk} \<subseteq> fst (searches (snd s)) (operation_key pending)"

definition covered_below :: "PendingStagedOperation \<Rightarrow> int \<Rightarrow> int set \<Rightarrow> bool" where
  "covered_below pending start blocks \<longleftrightarrow>
     (\<forall>block. pg_queuedBlock pending \<le> block \<longrightarrow> block < start \<longrightarrow>
        block \<in> blocks \<or> (\<exists>oldest. pg_nextHistoricalBlock pending = Some oldest \<and> block \<le> oldest))"

lemma same_operation_key: "same_operation a b \<longleftrightarrow> operation_key a = operation_key b"
  by (simp add: same_operation_def operation_key_def)

lemma cursor_covers_mono: "cursor_covers pending blocks \<Longrightarrow> blocks \<subseteq> larger \<Longrightarrow> cursor_covers pending larger"
  unfolding cursor_covers_def by blast

lemma covered_below_mono: "covered_below pending start blocks \<Longrightarrow> blocks \<subseteq> larger \<Longrightarrow> covered_below pending start larger"
  unfolding covered_below_def by blast

lemma reset_covers [simp]:
  "cursor_covers (reset_cursor pending) blocks" "operation_key (reset_cursor pending) = operation_key pending"
  "pg_latestRecoveryBlock (reset_cursor pending) = None"
  by (simp_all add: cursor_covers_def reset_cursor_def operation_key_def)

lemma anchored_covers [simp]:
  "cursor_covers (pending\<lparr>pg_recoveryAnchorBlock := block\<rparr>) blocks = cursor_covers pending blocks"
  "cursor_covers (pending\<lparr>pg_recoveryAnchorHash := hash\<rparr>) blocks = cursor_covers pending blocks"
  "cursor_covers (pending\<lparr>pg_candidateOutcome := outcome\<rparr>) blocks = cursor_covers pending blocks"
  "operation_key (pending\<lparr>pg_recoveryAnchorBlock := block\<rparr>) = operation_key pending"
  "operation_key (pending\<lparr>pg_recoveryAnchorHash := hash\<rparr>) = operation_key pending"
  "operation_key (pending\<lparr>pg_candidateOutcome := outcome\<rparr>) = operation_key pending"
  by (simp_all add: cursor_covers_def operation_key_def)

lemma chunk_key [simp]: "operation_key (recordStagedRecoveryChunk pending chunk outcome historical) = operation_key pending"
  by (simp add: recordStagedRecoveryChunk_def operation_key_def Let_def)

lemma gap_key [simp]: "operation_key (recordStagedRecoveryGap pending cursor latest) = operation_key pending"
  by (simp add: recordStagedRecoveryGap_def operation_key_def Let_def)

lemma historical_chunk_covers:
  assumes "cursor_covers pending blocks" and "{lr_fromBlock chunk..lr_toBlock chunk} \<subseteq> blocks"
    and "pg_nextHistoricalBlock pending = Some (lr_toBlock chunk)"
  shows "cursor_covers (recordStagedRecoveryChunk pending chunk outcome True) blocks"
  using assms by (fastforce simp: cursor_covers_def recordStagedRecoveryChunk_def subset_iff)

lemma newest_chunk_covers:
  assumes "cursor_covers pending blocks" and "{lr_fromBlock chunk..lr_toBlock chunk} \<subseteq> blocks"
    and "covered_below pending (lr_fromBlock chunk) blocks"
  shows "cursor_covers (recordStagedRecoveryChunk pending chunk outcome False) blocks"
  using assms by (fastforce simp: cursor_covers_def covered_below_def recordStagedRecoveryChunk_def Let_def subset_iff)

lemma gap_covers:
  assumes "cursor_covers pending blocks"
    and "cursor = (case pg_latestRecoveryBlock pending of None \<Rightarrow> pg_queuedBlock pending | Some block \<Rightarrow> block + 1)"
    and "latest \<ge> cursor"
  shows "cursor_covers (recordStagedRecoveryGap pending cursor latest) blocks"
    "covered_below (recordStagedRecoveryGap pending cursor latest) latest blocks"
proof -
  show "cursor_covers (recordStagedRecoveryGap pending cursor latest) blocks"
    using assms(1) by (fastforce simp: cursor_covers_def recordStagedRecoveryGap_def Let_def split: option.splits)
  show "covered_below (recordStagedRecoveryGap pending cursor latest) latest blocks"
    using assms by (fastforce simp: cursor_covers_def covered_below_def recordStagedRecoveryGap_def Let_def split: option.splits if_splits)
qed

lemma newest_single:
  assumes "latestLogRange toBlock maximumBlocks = ok recent" and "lr_fromBlock recent \<le> start" and "start \<le> toBlock"
  shows "newestFirstScanRanges start toBlock maximumBlocks = ok [log_range start toBlock]"
  using assms
  by (subst newestFirstScanRanges_def, subst newest_first_loop.simps)
    (auto simp: latestLogRange_def Let_def newest_first_loop.simps [of _ start] split: if_splits)

lemma tracking_phase: "tracking intents hashes pending s \<Longrightarrow> phase intents hashes True s"
  by (simp add: tracking_def)

lemma tracking_safe: "tracking intents hashes pending s \<Longrightarrow> safe s"
  by (auto simp: tracking_def intro: phase_safe)

lemma tracking_awaiting:
  "triple (tracking intents hashes pending) (awaiting answer) (\<lambda>_. tracking intents hashes pending) safe"
  by (auto simp: triple_def awaiting_def tracking_def phase_harmless search_step_def intro: phase_safe [OF phase_harmless]
      split: prod.splits option.splits sum.splits)

lemma tracking_save:
  "triple (tracking intents hashes pending) (saveDurableState env) (\<lambda>_. tracking intents hashes pending) safe"
  by (auto simp: triple_def saveDurableState_def tracking_def search_step_def
      intro: phase_saved phase_safe [OF phase_harmless] phase_safe [OF phase_saved] split: prod.splits save_answer.splits)

lemma tracking_write:
  "triple (\<lambda>s. tracking intents hashes pending s) (write_pending pending) (\<lambda>_. tracking intents hashes pending) E"
  by (auto simp: triple_def write_pending_def updating_def tracking_def phase_def cursors_cover_def same_operation_key)

lemma tracking_drop:
  "triple (tracking intents hashes pending) (drop_pending other) (\<lambda>_. phase intents hashes True) E"
  by (auto simp: triple_def drop_pending_def updating_def tracking_def phase_def cursors_cover_def)

lemma phase_search_event:
  assumes "phase intents hashes saved (state, past)" and "event = Scanned coordinator operationId lo hi \<or> event = RecoveryReset coordinator operationId"
    and "cursors_cover (rt_pendingStagedOperations state) (fst (search_step (searches past) event))"
  shows "phase intents hashes saved (state, past @ [event])"
proof -
  have "snd (search_step (searches past) event) = snd (searches past)" "disk_state (past @ [event]) = disk_state past"
      "unresolved (past @ [event]) = unresolved past" "\<And>hash. event \<noteq> Submitted hash"
    using assms(2) by (auto simp: search_step_def Let_def)
  then show ?thesis using assms by (auto simp: phase_def always_durable_snoc durable_def dest!: always_durable_last)
qed

lemma tracking_reset:
  "triple (tracking intents hashes (reset_cursor pending))
     (andThen (write_pending (reset_cursor pending)) (\<lambda>_. emitting (RecoveryReset (pg_coordinator pending) (pg_operationId pending))))
     (\<lambda>_. tracking intents hashes (reset_cursor pending)) safe"
proof (rule triple_andThen)
  let ?all_reset = "\<lambda>s. \<forall>other \<in> set (rt_pendingStagedOperations (fst s)).
    operation_key other = operation_key pending \<longrightarrow> pg_latestRecoveryBlock other = None"
  show "triple (tracking intents hashes (reset_cursor pending)) (write_pending (reset_cursor pending))
    (\<lambda>_ s. tracking intents hashes (reset_cursor pending) s \<and> ?all_reset s) safe"
    by (auto simp: triple_def write_pending_def updating_def tracking_def phase_def cursors_cover_def same_operation_key)
  show "triple (\<lambda>s. tracking intents hashes (reset_cursor pending) s \<and> ?all_reset s)
    (emitting (RecoveryReset (pg_coordinator pending) (pg_operationId pending))) (\<lambda>_. tracking intents hashes (reset_cursor pending)) safe"
    by (auto simp: triple_def emitting_def tracking_def intro!: phase_search_event)
      (auto simp: phase_def cursors_cover_def search_step_def operation_key_def cursor_covers_def)
qed

lemma scan_event:
  "triple (tracking intents hashes pending)
    (emitting (Scanned (pg_coordinator pending) (pg_operationId pending) (lr_fromBlock chunk) (lr_toBlock chunk)))
    (\<lambda>_ s. tracking intents hashes pending s \<and> searched_range pending chunk s) safe"
  by (auto simp: triple_def emitting_def tracking_def searched_range_def search_step_def operation_key_def Let_def
      intro!: phase_search_event elim!: cursor_covers_mono)
    (auto simp: phase_def cursors_cover_def operation_key_def Let_def intro: cursor_covers_mono)

lemma anchor_rule:
  "triple (tracking intents hashes pending) (retainRecoveryAnchor env pending blockNumber) (tracking intents hashes) safe"
proof -
  have moved: "tracking intents hashes pending s \<Longrightarrow> tracking intents hashes (pending\<lparr>pg_recoveryAnchorBlock := block\<rparr>) s" for s block
    by (simp add: tracking_def)
  have anchored: "tracking intents hashes pending s \<Longrightarrow> tracking intents hashes (pending\<lparr>pg_recoveryAnchorHash := hash\<rparr>) s" for pending s hash
    by (simp add: tracking_def)
  show ?thesis
    unfolding retainRecoveryAnchor_def Let_def canonicalRecoveryHash_def
    apply (rule triple_andThen [OF triple_weaken [OF tracking_write]], erule moved, assumption, assumption)
    apply (rule triple_andThen [OF tracking_awaiting])
    apply (rule triple_andThen [OF triple_weaken [OF tracking_write]], erule anchored, assumption, assumption)
    apply (rule triple_returning, assumption)
    done
qed

definition tracking_below ::
  "PendingTransactionIntent list \<Rightarrow> string set \<Rightarrow> PendingStagedOperation \<Rightarrow> int \<Rightarrow> RuntimeState \<times> history \<Rightarrow> bool" where
  "tracking_below intents hashes pending start s \<longleftrightarrow>
     tracking intents hashes pending s \<and> covered_below pending start (fst (searches (snd s)) (operation_key pending))"

lemma tracking_below_safe: "tracking_below intents hashes pending start s \<Longrightarrow> safe s"
  by (auto simp: tracking_below_def intro: tracking_safe)

lemma scan_below_rule:
  "triple (tracking_below intents hashes pending start) (scanRange env settings pending chunk)
     (\<lambda>_ s. tracking_below intents hashes pending start s \<and> searched_range pending chunk s) safe"
proof -
  have wait: "triple (tracking_below intents hashes pending start) (awaiting answer) (\<lambda>_. tracking_below intents hashes pending start) safe" for answer
    by (auto simp: triple_def awaiting_def tracking_below_def tracking_def phase_harmless search_step_def
        intro: phase_safe [OF phase_harmless] split: prod.splits option.splits sum.splits)
  have "triple (tracking_below intents hashes pending start)
      (emitting (Scanned (pg_coordinator pending) (pg_operationId pending) (lr_fromBlock chunk) (lr_toBlock chunk)))
      (\<lambda>_ s. tracking_below intents hashes pending start s \<and> searched_range pending chunk s) safe"
    using scan_event [of intents hashes pending chunk]
    by (fastforce simp: triple_def emitting_def tracking_below_def search_step_def operation_key_def Let_def intro: covered_below_mono)
  then show ?thesis
    unfolding scanRange_def
    by - (rule triple_andThen wait triple_if triple_throwing returning_rule | erule tracking_below_safe | assumption)+
qed

lemma chunk_rule:
  assumes "\<And>blocks outcome. cursor_covers pending blocks \<Longrightarrow> covered_below pending start blocks \<Longrightarrow>
      {lr_fromBlock chunk..lr_toBlock chunk} \<subseteq> blocks \<Longrightarrow> cursor_covers (recordStagedRecoveryChunk pending chunk outcome historical) blocks"
  shows "triple (tracking_below intents hashes pending start) (search_chunk env settings historical pending chunk)
    (\<lambda>(searched, outcome). tracking intents hashes searched) safe"
proof -
  have recorded: "tracking intents hashes (recordStagedRecoveryChunk pending chunk outcome historical) s"
    if "tracking_below intents hashes pending start s \<and> searched_range pending chunk s" for outcome s
    using that assms by (auto simp: tracking_below_def tracking_def searched_range_def)
  show ?thesis
    unfolding search_chunk_def Let_def
    apply (rule triple_andThen [OF scan_below_rule])
    apply (rule triple_andThen [OF triple_weaken [OF tracking_write]], erule recorded, assumption, assumption)
    apply (rule triple_andThen [OF anchor_rule])
    apply (rule triple_andThen [OF tracking_save])
    apply (rule triple_returning, simp)
    done
qed

lemma newest_rule:
  "triple (tracking_below intents hashes pending start) (search_newest env settings pending [log_range start toBlock])
    (\<lambda>(searched, outcome). tracking intents hashes searched) safe"
proof -
  have "triple (tracking_below intents hashes pending start) (search_chunk env settings False pending (log_range start toBlock))
      (\<lambda>(searched, outcome). tracking intents hashes searched) safe"
    by (rule chunk_rule) (rule newest_chunk_covers; simp)
  then show ?thesis
    by (auto intro!: triple_andThen triple_returning split: prod.splits)
qed

lemma historical_rule:
  assumes "nextStagedHistoricalRecoveryRange pending maximumBlocks = Some chunk"
  shows "triple (tracking intents hashes pending) (search_chunk env settings True pending chunk)
    (\<lambda>(searched, outcome). tracking intents hashes searched) safe"
proof -
  have "pg_nextHistoricalBlock pending = Some (lr_toBlock chunk)"
    using assms by (auto simp: nextStagedHistoricalRecoveryRange_def Let_def split: option.splits if_splits)
  then have "triple (tracking_below intents hashes pending (pg_queuedBlock pending)) (search_chunk env settings True pending chunk)
      (\<lambda>(searched, outcome). tracking intents hashes searched) safe"
    by (intro chunk_rule historical_chunk_covers)
  then show ?thesis by (rule triple_weaken) (auto simp: tracking_below_def covered_below_def)
qed

text \<open>Where the search of the newest blocks starts, and the cursor with the gap below it marked.\<close>

definition search_start :: "PendingStagedOperation \<Rightarrow> LogRange \<Rightarrow> int" where
  "search_start pending recent =
     (let cursor = (case pg_latestRecoveryBlock pending of None \<Rightarrow> pg_queuedBlock pending | Some block \<Rightarrow> block + 1)
      in if lr_fromBlock recent > cursor then lr_fromBlock recent else cursor)"

definition marked_cursor :: "PendingStagedOperation \<Rightarrow> LogRange \<Rightarrow> PendingStagedOperation" where
  "marked_cursor pending recent = recordStagedRecoveryGap pending
     (case pg_latestRecoveryBlock pending of None \<Rightarrow> pg_queuedBlock pending | Some block \<Rightarrow> block + 1) (search_start pending recent)"

lemma marked_tracking:
  assumes "tracking intents hashes pending s"
  shows "tracking intents hashes (marked_cursor pending recent) s"
    "tracking_below intents hashes (marked_cursor pending recent) (search_start pending recent) s"
  using assms gap_covers [of pending _ _ "search_start pending recent"]
  by (auto simp: tracking_below_def tracking_def marked_cursor_def search_start_def Let_def)

lemma marked_write:
  "triple (tracking intents hashes pending) (write_pending (marked_cursor pending recent))
    (\<lambda>_. tracking_below intents hashes (marked_cursor pending recent) (search_start pending recent)) safe"
  unfolding triple_def
proof (intro allI impI)
  fix s assume tracking: "tracking intents hashes pending s"
  then have "covered_below (marked_cursor pending recent) (search_start pending recent)
      (fst (searches (snd s)) (operation_key (marked_cursor pending recent)))"
    using marked_tracking(2) by (simp add: tracking_below_def)
  moreover have "snd (snd (write_pending (marked_cursor pending recent) s)) = snd s"
    by (simp add: write_pending_def updating_def split: prod.splits)
  moreover have "case write_pending (marked_cursor pending recent) s of
      (Returned x, s') \<Rightarrow> tracking intents hashes (marked_cursor pending recent) s' | (_, s') \<Rightarrow> safe s'"
    by (rule tracking_write [unfolded triple_def, rule_format]) (rule marked_tracking(1) [OF tracking])
  ultimately show "case write_pending (marked_cursor pending recent) s of
      (Returned x, s') \<Rightarrow> tracking_below intents hashes (marked_cursor pending recent) (search_start pending recent) s' | (_, s') \<Rightarrow> safe s'"
    by (auto simp: tracking_below_def split: prod.splits outcome.splits)
qed

lemma marked_search:
  assumes "latestLogRange toBlock maximumBlocks = ok recent"
  shows "triple (tracking_below intents hashes marked (search_start pending recent))
    (if pg_candidateOutcome marked = None \<and> search_start pending recent \<le> toBlock
     then andThen (lifting (newestFirstScanRanges (search_start pending recent) toBlock maximumBlocks)) (search_newest env settings marked)
     else returning (marked, pg_candidateOutcome marked))
    (\<lambda>(searched, outcome). tracking intents hashes searched) safe"
proof (rule triple_if)
  assume "pg_candidateOutcome marked = None \<and> search_start pending recent \<le> toBlock"
  then have "newestFirstScanRanges (search_start pending recent) toBlock maximumBlocks = ok [log_range (search_start pending recent) toBlock]"
    using newest_single [OF assms] by (auto simp: search_start_def Let_def)
  then show "triple (tracking_below intents hashes marked (search_start pending recent))
    (andThen (lifting (newestFirstScanRanges (search_start pending recent) toBlock maximumBlocks)) (search_newest env settings marked))
    (\<lambda>(searched, outcome). tracking intents hashes searched) safe"
    by (simp only: andThen_lifting_ok newest_rule)
qed (auto intro!: triple_returning simp: tracking_below_def)

lemma search_rule:
  "triple (tracking intents hashes pending) (search_outcome env settings pending toBlock)
    (\<lambda>(searched, outcome). tracking intents hashes searched) safe"
proof -
  have historical: "triple (case result of (searched, outcome) \<Rightarrow> tracking intents hashes searched)
      (case result of (searched, outcome) \<Rightarrow>
        case nextStagedHistoricalRecoveryRange searched maximumBlocks of
          Some chunk \<Rightarrow> if outcome = None \<and> os_historicalLogRecovery settings then search_chunk env settings True searched chunk
            else returning (searched, outcome)
        | None \<Rightarrow> returning (searched, outcome)) (\<lambda>(searched, outcome). tracking intents hashes searched) safe" for result maximumBlocks
    by (auto intro!: triple_returning historical_rule split: prod.splits option.splits)
  show ?thesis
    unfolding search_outcome_def Let_def
    apply (rule triple_andThen [OF triple_lifting], erule tracking_safe)
    subgoal for recent
      apply (rule triple_pre [where c = "latestLogRange toBlock (os_logLookbackBlocks settings) = ok recent"
            and P' = "tracking intents hashes pending"], blast)
      apply (fold search_start_def [unfolded Let_def] marked_cursor_def)
      apply (rule triple_andThen [OF marked_write])
      apply (rule triple_andThen [OF marked_search], assumption)
      apply (rule historical)
      done
    done
qed

lemma cursor_rule:
  "triple (tracking intents hashes pending) (checked_cursor env pending toBlock) (tracking intents hashes) safe"
proof -
  have "triple (tracking intents hashes (reset_cursor pending))
      (andThen (andThen (write_pending (reset_cursor pending)) (\<lambda>_.
       emitting (RecoveryReset (pg_coordinator pending) (pg_operationId pending)))) (\<lambda>_.
       andThen (saveDurableState env) (\<lambda>_. returning (reset_cursor pending)))) (tracking intents hashes) safe"
    by (rule triple_andThen tracking_reset tracking_save triple_returning | assumption)+
  then have reset: "triple (tracking intents hashes pending)
      (andThen (write_pending (reset_cursor pending)) (\<lambda>_.
       andThen (emitting (RecoveryReset (pg_coordinator pending) (pg_operationId pending))) (\<lambda>_.
       andThen (saveDurableState env) (\<lambda>_. returning (reset_cursor pending))))) (tracking intents hashes) safe"
    unfolding andThen_assoc by (rule triple_weaken) (auto simp: tracking_def)
  show ?thesis
    unfolding checked_cursor_def canonicalRecoveryHash_def Let_def
    by (rule triple_andThen [where R = "\<lambda>_. tracking intents hashes pending"], rule triple_case_option,
        (rule triple_if triple_andThen tracking_awaiting triple_returning reset | assumption)+)
qed

lemma final_rule:
  "triple (tracking intents hashes pending) (outcome_final env settings pending outcome toBlock) (\<lambda>_. phase intents hashes True) safe"
proof -
  have wait: "triple (tracking intents hashes pending) (awaiting answer) (\<lambda>_. phase intents hashes True) (tracking intents hashes pending)" for answer
    by (auto simp: triple_def awaiting_def tracking_def phase_harmless search_step_def split: prod.splits option.splits sum.splits)
  have forget: "triple (tracking intents hashes pending) (andThen (write_pending (pending\<lparr>pg_candidateOutcome := None\<rparr>)) (\<lambda>_.
      andThen (saveDurableState env) (\<lambda>_. returning False))) (\<lambda>_. phase intents hashes True) safe"
  proof (rule triple_andThen)
    show "triple (tracking intents hashes pending) (write_pending (pending\<lparr>pg_candidateOutcome := None\<rparr>))
      (\<lambda>_. tracking intents hashes (pending\<lparr>pg_candidateOutcome := None\<rparr>)) safe"
      by (rule triple_weaken [OF tracking_write]) (simp_all add: tracking_def)
  qed (auto intro!: triple_andThen [OF tracking_save] triple_returning intro: tracking_phase)
  show ?thesis
    unfolding outcome_final_def
    by (rule triple_catching [OF wait])
      (rule triple_case_option triple_if triple_rethrowing forget | erule tracking_safe)+
qed

lemma settle_rule:
  "triple (phase intents hashes True) (settle_outcome env pending outcome) (\<lambda>_. phase intents hashes True) safe"
proof -
  have "triple (phase intents hashes True) (drop_pending pending) (\<lambda>_. phase intents hashes True) safe"
    by (auto simp: triple_def drop_pending_def updating_def phase_def cursors_cover_def)
  then show ?thesis
    unfolding settle_outcome_def by - (rule triple_andThen op_rules | assumption | erule phase_safe)+
qed

lemma reconcile_one_rule:
  "triple (tracking intents hashes pending) (reconcile_one env settings pending) (\<lambda>_. phase intents hashes True) safe"
proof -
  have settle: "triple (case result of (searched, outcome) \<Rightarrow> tracking intents hashes searched)
      (case result of (searched, found) \<Rightarrow> case found of
         None \<Rightarrow> returning ()
       | Some outcome \<Rightarrow>
           if oc_operation outcome \<noteq> 0 \<or> oc_operationId outcome \<noteq> pg_operationId pending
           then throwing (''Coordinator returned an invalid outcome for staged operation '' @ bigint_to_string (pg_operationId pending))
           else andThen (outcome_final env settings searched outcome toBlock) (\<lambda>finalized.
             if \<not> finalized then returning () else settle_outcome env searched outcome)) (\<lambda>_. phase intents hashes True) safe" for result toBlock
    by (cases result)
      (auto intro!: triple_returning triple_throwing triple_andThen [OF final_rule] settle_rule
        intro: tracking_phase tracking_safe split: option.splits)
  show ?thesis
    unfolding reconcile_one_def recovery_head_def
    by (rule triple_andThen tracking_awaiting cursor_rule search_rule settle)+
qed

lemma reconcile_loop_rule:
  "triple (phase intents hashes True) (reconcile_loop env settings operations) (\<lambda>_. phase intents hashes True) safe"
proof (induction operations)
  case (Cons pending operations)
  have "triple (phase intents hashes True) (reading (\<lambda>state. List.find (same_operation pending) (rt_pendingStagedOperations state)))
      (\<lambda>current s. phase intents hashes True s \<and> (\<forall>operation. current = Some operation \<longrightarrow> tracking intents hashes operation s)) safe"
    by (auto simp: triple_def reading_def tracking_def phase_def cursors_cover_def dest: find_Some_in)
  moreover have "triple (\<lambda>s. phase intents hashes True s \<and> (\<forall>operation. current = Some operation \<longrightarrow> tracking intents hashes operation s))
      (case current of None \<Rightarrow> returning () | Some operation \<Rightarrow> reconcile_one env settings operation) (\<lambda>_. phase intents hashes True) safe" for current
    by (cases current) (auto intro!: triple_returning intro: triple_weaken [OF reconcile_one_rule])
  ultimately show ?case using Cons by (auto intro!: triple_andThen)
qed (auto intro: triple_returning)

lemma reconcile_rule [op_rules]:
  "triple (phase intents hashes True) (reconcilePendingStagedOperations env settings) (\<lambda>_. phase intents hashes True) safe"
  unfolding reconcilePendingStagedOperations_def
  by (rule triple_andThen [where R = "\<lambda>_. phase intents hashes True"], rule triple_weaken [OF triple_reading], assumption, simp, assumption,
      rule reconcile_loop_rule)

section \<open>A cycle\<close>

text \<open>An operation that starts and ends with an empty, saved journal.\<close>

abbreviation idle :: "RuntimeState \<times> history \<Rightarrow> bool" where
  "idle \<equiv> phase [] {} True"

lemma blocks_rule:
  assumes "honest_receipts env"
  shows "triple (phase intents hashes True) (recoveryWorkBlocksExecution env settings) (\<lambda>blocked. if blocked then safe else idle) safe"
proof -
  have "triple (if blocked then safe else idle)
      (if blocked then returning True else andThen (reconcilePendingStagedOperations env settings) (\<lambda>_.
        reading (\<lambda>state. rt_pendingTransactions state \<noteq> [] \<or> rt_pendingStagedOperations state \<noteq> [])))
      (\<lambda>blocked. if blocked then safe else idle) safe" for blocked
  proof -
    have "triple idle (reading (\<lambda>state. rt_pendingTransactions state \<noteq> [] \<or> rt_pendingStagedOperations state \<noteq> []))
        (\<lambda>blocked. if blocked then safe else idle) safe"
      by (auto simp: triple_def reading_def intro: phase_safe)
    then show ?thesis
      by (cases blocked) (auto intro!: triple_returning intro: triple_andThen [OF reconcile_rule])
  qed
  then show ?thesis
    unfolding recoveryWorkBlocksExecution_def by (rule triple_andThen [OF recoverPending_rule [OF assms]])
qed

lemma safe_save_rule: "triple safe (saveDurableState env) (\<lambda>_. safe) safe"
  by (auto simp: safe_def triple_def saveDurableState_def split: prod.splits save_answer.splits)
    (blast intro: phase_harmless harmless_simps phase_unsaved [OF phase_saved])+


lemma call_rule [op_rules]:
  "honest_receipts env \<Longrightarrow> triple idle (submitCall env settings call kind) (\<lambda>_. idle) safe"
  by (rule submitCall_rule)

lemma allowance_rule [op_rules]:
  assumes "honest_receipts env"
  shows "triple idle (ensureAllowance env settings token spender amount kind price) (\<lambda>_. idle) safe"
  unfolding ensureAllowance_def agreedErc20Allowance_def
  by (rule triple_andThen triple_if op_rules assms | erule phase_safe)+

lemma deposit_rule [op_rules]:
  assumes "honest_receipts env"
  shows "triple idle (depositRepToVault env settings pools pool amount price health) (\<lambda>_. idle) safe"
  unfolding depositRepToVault_def agreedErc20Balance_def
  by (rule triple_andThen triple_if op_rules assms | erule phase_safe)+

lemma oracle_rule [op_rules]:
  assumes "honest_receipts env"
  shows "triple idle (fundStaleOracle env settings pool reserved) (\<lambda>_. idle) safe"
proof -
  have prod: "(\<And>a b c. triple P (f a b c) Q E) \<Longrightarrow> triple P (case v of (a, b, c) \<Rightarrow> f a b c) Q E" for P v Q E and f :: "int \<Rightarrow> int \<Rightarrow> int \<Rightarrow> (int \<times> int) operation"
    by (cases v) simp
  show ?thesis
    unfolding fundStaleOracle_def agreedErc20Balance_def agreedErc20Allowance_def
    by (rule prod triple_andThen triple_if op_rules assms | erule phase_safe)+
qed

lemma liquidation_rule [op_rules]:
  assumes "honest_receipts env"
  shows "triple idle (executeLiquidation env settings pools pool candidate) (\<lambda>_. idle) safe"
  unfolding executeLiquidation_def Let_def
  by (rule triple_andThen triple_case_option triple_if op_rules assms | erule phase_safe)+

lemma maintain_rule [op_rules]:
  assumes "honest_receipts env"
  shows "triple idle (maintainVault env settings pools pool) (\<lambda>_. idle) safe"
proof -
  have plans: "(\<And>x. triple P (d x) Q E) \<Longrightarrow> (\<And>x. triple P (w x) Q E) \<Longrightarrow> triple P f Q E \<Longrightarrow>
      triple P (case v of PlanDeposit x \<Rightarrow> d x | PlanWithdraw x \<Rightarrow> w x | PlanFees \<Rightarrow> f) Q E" for P v Q E d w and f :: "bool operation"
    by (cases v) simp_all
  show ?thesis
    unfolding maintainVault_def
    by (rule plans triple_andThen triple_case_option triple_if op_rules assms | erule phase_safe)+
qed

lemma maintain_loop_rule [op_rules]:
  assumes "honest_receipts env"
  shows "triple idle (maintain_loop env settings pools remaining) (\<lambda>_. idle) safe"
proof (induction remaining)
  case (Cons pool remaining)
  show ?case
    unfolding maintain_loop.simps
    by (rule triple_andThen triple_if Cons op_rules assms | erule phase_safe)+
qed (auto intro: returning_rule)

lemma liquidate_rule [op_rules]:
  assumes "honest_receipts env"
  shows "triple idle (liquidate_best env settings pools) (\<lambda>_. idle) safe"
proof -
  have choose: "triple P (\<lambda>(state, past). (Returned (choice past), state, past)) (\<lambda>_. P) E" for P E and choice :: "history \<Rightarrow> 'z"
    by (auto simp: triple_def)
  have pair: "(\<And>a b. triple P (f a b) Q E) \<Longrightarrow> triple P (case v of (a, b) \<Rightarrow> f a b) Q E"
    for P v Q E and f :: "LiquidationCandidate \<Rightarrow> PoolObservation \<Rightarrow> unit operation"
    by (cases v) simp
  show ?thesis
    unfolding liquidate_best_def
    by (rule choose pair triple_andThen triple_case_option op_rules assms | erule phase_safe)+
qed

lemma migration_rule [op_rules]:
  assumes "honest_receipts env"
  shows "triple idle (execute_migration env settings scan) (\<lambda>_. idle) safe"
  unfolding execute_migration_def executeVaultMigration_def
  by (rule triple_andThen triple_case_option triple_if op_rules assms | erule phase_safe)+

lemma scan_cycle_rule:
  assumes "honest_receipts env"
  shows "triple (phase intents hashes True) (execute_scan env settings scan) (\<lambda>_. safe) safe"
proof -
  have idle: "triple idle (case missing_desired_pool settings scan of
       Some desired \<Rightarrow>
         if ss_allowAutomaticPoolCreation (os_strategy settings)
         then andThen (executeOriginPoolDeployment env settings desired) (\<lambda>_. saveDurableState env)
         else execute_migration env settings scan
     | None \<Rightarrow> execute_migration env settings scan) (\<lambda>_. idle) safe"
    unfolding executeOriginPoolDeployment_def
    by (rule triple_andThen triple_case_option triple_if op_rules assms | erule phase_safe)+
  show ?thesis
    unfolding execute_scan_def
    by (rule triple_andThen [OF blocks_rule [OF assms]])
      (auto intro: safe_save_rule triple_weaken [OF idle] phase_safe)
qed

lemma safe_harmless: "safe (state, past) \<Longrightarrow> harmless event \<Longrightarrow> safe (state, past @ [event])"
  by (auto simp: safe_def dest: phase_harmless)

lemma failed_cycle_rule: "triple safe (end_failed_cycle env error) (\<lambda>_. safe) safe"
proof -
  have wait: "triple safe (awaiting answer) (\<lambda>_. safe) safe" for answer
    by (auto simp: triple_def awaiting_def safe_harmless split: prod.splits option.splits sum.splits)
  have emit: "triple safe (emitting Awaited) (\<lambda>_. safe) safe"
    by (auto simp: triple_def emitting_def safe_harmless)
  have activity: "triple safe (recordActivity activity) (\<lambda>_. safe) safe" for activity
    by (auto simp: triple_def recordActivity_def andThen_def updating_def emitting_def safe_def phase_activities)
      (blast intro: phase_harmless harmless_simps)
  show ?thesis
    unfolding end_failed_cycle_def
    by (cases error)
      ((simp only: cycle_error.case, (rule safe_save_rule triple_andThen triple_catching wait emit activity triple_if returning_rule triple_rethrowing | assumption)+)+)
qed

lemma cycle_rule:
  "honest_receipts env \<Longrightarrow> triple (phase intents hashes True) (run_cycle env settings scan) (\<lambda>_. safe) safe"
  unfolding run_cycle_def by (rule triple_catching [OF scan_cycle_rule failed_cycle_rule])


section \<open>A reconciliation\<close>

lemma commit_rule:
  "triple (phase [intent] hashes True) (commitReconciledIntent env (pt_hash intent) activity) (\<lambda>_. safe) safe"
  unfolding triple_def
proof (intro allI impI)
  fix s assume start: "phase [intent] hashes True s"
  obtain state past where s: "s = (state, past)" by (cases s)
  let ?replaced = "Replaced (pt_hash intent) (case ac_hash activity of None \<Rightarrow> [] | Some replacement \<Rightarrow> replacement)"
  let ?reconciled = "state\<lparr>rt_pendingTransactions := filter (\<lambda>other. toLowerCase (pt_hash other) \<noteq> toLowerCase (pt_hash intent)) (rt_pendingTransactions state),
      rt_activities := take 500 (activity # rt_activities state)\<rparr>"
  let ?past = "(past @ [Recorded activity]) @ [?replaced]"
  have "phase [intent] hashes True (state, past @ [Recorded activity])" using start by (simp add: s phase_harmless)
  then have "phase [intent] (hashes - {toLowerCase (pt_hash intent)}) True (state, ?past)" by (rule phase_resolved) simp
  then have memory: "phase [intent] {} True (state, ?past)" using start by (auto simp: phase_def journal_hashes_def s)
  then have reconciled: "phase [] {} False (?reconciled, ?past)" by (auto simp: phase_def)
  have "phase [intent] {} False (state, ?past @ [Saved ?reconciled])"
    using phase_saved [OF reconciled] memory by (auto simp: phase_def search_step_def)
  with phase_saved [OF reconciled] phase_harmless [OF memory harmless_simps(1)]
  show "case commitReconciledIntent env (pt_hash intent) activity s of (Returned x, s') \<Rightarrow> safe s' | (_, s') \<Rightarrow> safe s'"
    by (auto simp: s commitReconciledIntent_def andThen_def forgetIntent_def recordActivity_def updating_def emitting_def
        saveDurableState_def dest: phase_safe split: save_answer.splits prod.splits outcome.splits)
qed

lemma reconciliation_rule:
  "triple (phase intents hashes True) (reconcileTransaction env settings getAddress evidence request) (\<lambda>_. safe) safe"
proof -
  have paused: "triple P (\<lambda>(state, past). when_then (\<not> en_paused env past) message (state, past)) (\<lambda>_. P) P" for P message
    by (auto simp: triple_def when_then_def throwing_def returning_def)
  have found: "triple (\<lambda>s. phase intents hashes True s \<and> intents = [intent])
      (andThen (lifting (validateReconciliationIntentChain (en_chainIdOf env) (pt_serializedTransaction intent) (os_chainId settings))) (\<lambda>_.
       andThen (awaiting evidence) (\<lambda>evidence.
       andThen (awaiting (answer evidence)) (\<lambda>replacement.
       commitReconciledIntent env (pt_hash intent) (activity replacement))))) (\<lambda>_. safe) safe" for intent answer activity
  proof (rule triple_pre [where c = "intents = [intent]" and P' = "phase [intent] hashes True"])
    show "triple (phase [intent] hashes True)
      (andThen (lifting (validateReconciliationIntentChain (en_chainIdOf env) (pt_serializedTransaction intent) (os_chainId settings))) (\<lambda>_.
       andThen (awaiting evidence) (\<lambda>evidence.
       andThen (awaiting (answer evidence)) (\<lambda>replacement.
       commitReconciledIntent env (pt_hash intent) (activity replacement))))) (\<lambda>_. safe) safe"
      by (rule triple_andThen op_rules commit_rule | erule phase_safe)+
  qed auto
  have lookup: "triple (phase intents hashes True)
      (reading (\<lambda>state. List.find (\<lambda>candidate. toLowerCase (pt_hash candidate) = toLowerCase hash) (rt_pendingTransactions state)))
      (\<lambda>found s. phase intents hashes True s \<and> (\<forall>intent. found = Some intent \<longrightarrow> intents = [intent])) safe" for hash
    by (auto simp: triple_def reading_def phase_def dest!: find_Some_in)
      (metis (no_types, opaque_lifting) One_nat_def le_SucE le_zero_eq length_0_conv length_Suc_conv list.distinct(1) list.set_cases set_ConsD)
  show ?thesis
    unfolding reconcileTransaction_def
    apply (rule triple_andThen [OF triple_weaken [OF paused]], assumption, assumption, erule phase_safe)
    apply (rule triple_andThen [OF lifting_rule], erule phase_safe)
    subgoal for unit request
      apply (cases request)
      apply (simp only: prod.case)
      apply (rule triple_andThen [OF lookup])
      apply (rule triple_case_option)
       apply (auto intro!: triple_throwing intro: phase_safe)[1]
      apply (rule triple_weaken [OF found])
        apply auto
      done
    done
qed

section \<open>Runs\<close>

text \<open>
  The bot may make a cycle or a reconciliation in any environment, and may stop at any event of one. A cycle
  that ends leaves its journal saved: the one case left out is a process that goes on after the last save of a failed cycle failed
  too (\<open>unsaved_intent_is_resubmitted\<close> below shows what happens then).
\<close>

definition journal_saved :: "RuntimeState \<times> history \<Rightarrow> bool" where
  "journal_saved s \<longleftrightarrow> rt_pendingTransactions (disk_state (snd s)) = rt_pendingTransactions (fst s)"

inductive bot_reaches :: "RuntimeState \<times> history \<Rightarrow> bool" where
  starts: "bot_reaches (initialRuntimeState, [])"
| cycles: "bot_reaches s \<Longrightarrow> honest_receipts env \<Longrightarrow> run_cycle env settings scan s = (result, s') \<Longrightarrow> journal_saved s' \<Longrightarrow> bot_reaches s'"
| crashes: "bot_reaches s \<Longrightarrow> honest_receipts env \<Longrightarrow> run_cycle env settings scan s = (result, s') \<Longrightarrow> prefix (snd s) past \<Longrightarrow> prefix past (snd s') \<Longrightarrow>
    bot_reaches (disk_state past, past @ [Restarted])"
| reconciles: "bot_reaches s \<Longrightarrow> reconcileTransaction env settings getAddress evidence request s = (done_result, s') \<Longrightarrow>
    journal_saved s' \<Longrightarrow> bot_reaches s'"
| reconcile_crashes: "bot_reaches s \<Longrightarrow> reconcileTransaction env settings getAddress evidence request s = (done_result, s') \<Longrightarrow>
    prefix (snd s) past \<Longrightarrow> prefix past (snd s') \<Longrightarrow> bot_reaches (disk_state past, past @ [Restarted])"

definition bot_invariant :: "RuntimeState \<times> history \<Rightarrow> bool" where
  "bot_invariant s \<longleftrightarrow> (\<exists>intents hashes. phase intents hashes True s)"

lemma safe_saved: "safe s \<Longrightarrow> journal_saved s \<Longrightarrow> bot_invariant s"
  by (auto simp: safe_def bot_invariant_def journal_saved_def phase_def)

lemma safe_restart:
  assumes "safe s" and "prefix past (snd s)"
  shows "bot_invariant (disk_state past, past @ [Restarted])"
proof -
  have always: "always_durable past" using assms by (auto simp: safe_def phase_def intro: always_durable_prefix)
  then have durable: "durable past" by (rule always_durable_last)
  then have "durable (past @ [Restarted])" by (auto simp: durable_def search_step_def)
  with always durable
  have "phase (rt_pendingTransactions (disk_state past)) (unresolved past) True (disk_state past, past @ [Restarted])"
    by (auto simp: phase_def always_durable_snoc durable_def search_step_def)
  then show ?thesis by (auto simp: bot_invariant_def)
qed

lemma triple_result: "triple P m (\<lambda>_. Q) Q \<Longrightarrow> P s \<Longrightarrow> m s = (result, s') \<Longrightarrow> Q s'"
  unfolding triple_def by (drule spec [of _ s]) (auto split: outcome.splits)

lemma cycle_safe:
  "bot_invariant s \<Longrightarrow> honest_receipts env \<Longrightarrow> run_cycle env settings scan s = (result, s') \<Longrightarrow> safe s'"
  unfolding bot_invariant_def using triple_result [OF cycle_rule] by blast

lemma reconciliation_safe:
  "bot_invariant s \<Longrightarrow> reconcileTransaction env settings getAddress evidence request s = (result, s') \<Longrightarrow> safe s'"
  unfolding bot_invariant_def using triple_result [OF reconciliation_rule] by blast

lemma bot_reaches_invariant: "bot_reaches s \<Longrightarrow> bot_invariant s"
proof (induction rule: bot_reaches.induct)
  case starts
  have "durable []" by (simp add: durable_def initialRuntimeState_def cursors_cover_def)
  then show ?case
    by (auto simp: bot_invariant_def phase_def always_durable_def initialRuntimeState_def cursors_cover_def)
qed (blast intro: safe_saved safe_restart cycle_safe reconciliation_safe)+

lemma always_durable_submission:
  assumes "always_durable (before @ Submitted hash # after)"
  shows "sound_submission before hash"
proof -
  have "durable (before @ [Submitted hash])" using assms by (auto simp: always_durable_def)
  then show ?thesis by (simp add: durable_def)
qed


text \<open>
  C2: In every run of the bot, with crashes at any event, reads that fail or hang and saves that fail, as long as a cycle that
  ends without a crash leaves its journal saved and a receipt has the hash asked for: whenever a signed transaction
  is handed to an endpoint its intent is the one intent of the journal on the disk, no other transaction is unresolved, and if
  it depends on a price it was never handed out before without being resolved and the market was confirmed right before. What is
  handed out and has no final receipt, expiry or replacement yet is in the journal on the disk, which holds at most one intent.
\<close>

theorem crash_safe_submission:
  assumes "bot_reaches (state, past)"
  shows "unresolved past \<subseteq> journal_hashes (rt_pendingTransactions (disk_state past)) \<and>
    length (rt_pendingTransactions (disk_state past)) \<le> 1 \<and>
    (\<forall>before hash after. past = before @ Submitted hash # after \<longrightarrow>
      (\<exists>intent. rt_pendingTransactions (disk_state before) = [intent] \<and> sameText (pt_hash intent) hash \<and>
        unresolved before \<subseteq> {toLowerCase hash} \<and>
        (pt_requiresMarketEvidence intent \<longrightarrow> unresolved before = {} \<and> before \<noteq> [] \<and> last before = MarketConfirmed)))"
proof -
  from bot_reaches_invariant [OF assms] have always: "always_durable past"
    by (auto simp: bot_invariant_def phase_def)
  then have "durable past" by (rule always_durable_last)
  moreover have "sound_submission before hash" if "past = before @ Submitted hash # after" for before hash after
    using always_durable_submission always that by blast
  ultimately show ?thesis by (auto simp: durable_def sound_submission_def)
qed

text \<open>
  C5: In every run of the bot, with crashes and reset cursors, under the same two conditions, a block between the one that queued a
  staged operation and the latest block its cursor claims was searched for the outcome since the cursor was last reset, or
  is still to be searched: it is not above the next historical block.
\<close>

theorem staged_search_misses_no_block:
  assumes "bot_reaches (state, past)" and "pending \<in> set (rt_pendingStagedOperations state)"
    and "pg_latestRecoveryBlock pending = Some latest" and "pg_queuedBlock pending \<le> block" and "block \<le> latest"
  shows "block \<in> fst (searches past) (operation_key pending) \<or>
    (\<exists>oldest. pg_nextHistoricalBlock pending = Some oldest \<and> block \<le> oldest)"
proof -
  from bot_reaches_invariant [OF assms(1)] have "cursors_cover (rt_pendingStagedOperations state) (fst (searches past))"
    by (auto simp: bot_invariant_def phase_def)
  with assms(2-5) show ?thesis by (auto simp: cursors_cover_def cursor_covers_def)
qed

section \<open>Two cycles\<close>

text \<open>
  A liquidation with a stale price: the first cycle queues it, the second searches for its outcome. The definitions are evaluated by
  rewriting, one operation after the other.
\<close>

lemmas operation_defs = andThen_def catching_def returning_def throwing_def rethrowing_def reading_def updating_def emitting_def lifting_def
  awaiting_def when_then_def saveDurableState_def assertExecutionActive_def recordActivity_def forgetIntent_def

lemmas cycle_defs = run_cycle_def execute_scan_def recoveryWorkBlocksExecution_def recoverPendingTransactions_def
  reconcilePendingStagedOperations_def missing_desired_pool_def executeOriginPoolDeployment_def submitCall_def sign_call_def
  persist_intent_def pre_submit_def submit_signed_def confirm_intent_def

definition sample_scan :: pool_scan where
  "sample_scan = \<lparr>sn_desiredPools = [], sn_pools = [sample_stale_pool], sn_timestamp = 0,
     sn_universes = [\<lparr>un_id = 0, un_outcomeIndex = None, un_parentId = None\<rparr>]\<rparr>"

definition sample_receipt :: TransactionReceipt where
  "sample_receipt = \<lparr>rx_blockHash = ''0xb4'', rx_blockNumber = 4, rx_logs = [\<lparr>xl_address = ''0xd'', xl_data = ''queued'', xl_topics = []\<rparr>,
     \<lparr>xl_address = ''0xd'', xl_data = ''routed'', xl_topics = []\<rparr>], rx_status = Success, rx_transactionHash = ''0xAB'', rx_others = []\<rparr>"

definition sample_environment :: environment where
  "sample_environment = \<lparr>en_allowance = \<lambda>_ _ _. None, en_balance = \<lambda>_ _. None, en_blockNumbers = \<lambda>_. [Fulfilled 20], en_canSign = True,
     en_canonicalBlockHash = \<lambda>_ _. Some (Inr ''0xb20''), en_chainIdOf = \<lambda>_. Some 1,
     en_decode = \<lambda>log. if xl_data log = ''queued'' then Some (StagedOperationQueued True 0 40 9 ''0xaa'' ''0xa'')
       else Some (LiquidationRouteStaged 9 ''0xaa'' ''0xaa'' 40 ''0xa''),
     en_endpointLabel = \<lambda>url. url, en_keccak256 = \<lambda>_. ''0xAB'', en_logs = \<lambda>_ _ _ _. [Fulfilled []], en_encodeFunctionData = \<lambda>_. ''0x00'',
     en_marketAllows = \<lambda>_ _. True, en_paused = \<lambda>_. False, en_pendingNonce = \<lambda>_. Some (Inr 3), en_persistSettings = \<lambda>_. Some (Inr ()),
     en_priceStillAllowed = \<lambda>_ _. Some (Inr True), en_publicSubmit = \<lambda>_ _ _. ok ''0xab'',
     en_readers = \<lambda>_. [\<lparr>br_getBlock = \<lambda>number. Fulfilled (Some (if number = 4 then ''0xb4'' else ''0xb16'')), br_getBlockNumber = Fulfilled 20\<rparr>],
     en_receipts = \<lambda>_ hash. if sameText ''0xAB'' hash then [Fulfilled sample_receipt] else [],
     en_relay = \<lambda>_ _ _. throw ''no relay'', en_save = \<lambda>_. Written, en_sign = \<lambda>_ _. ok ''0x02'',
     en_signingBlock = \<lambda>_. Some (Inr \<lparr>sb_baseFeePerGas = Some 1, sb_number = Some 3\<rparr>), en_simulation = \<lambda>_. Some (Inr ()),
     en_waitForReceipt = \<lambda>_. Some (Inr ()), en_world = \<lparr>ew_objects = [], ew_String = \<lambda>_. []\<rparr>\<rparr>"

definition sample_queueing :: "RuntimeState \<times> history" where
  "sample_queueing = snd (run_cycle sample_environment sample_settings sample_scan (initialRuntimeState, []))"

definition sample_operation :: PendingStagedOperation where
  "sample_operation = \<lparr>pg_candidateOutcome = None, pg_coordinator = ''0xd'', pg_historicalRecoveryComplete = False, pg_latestRecoveryBlock = None,
     pg_nextHistoricalBlock = None, pg_operationId = 9, pg_queuedBlock = 4, pg_recoveryAnchorBlock = None, pg_recoveryAnchorHash = None,
     pg_target = ''0xa''\<rparr>"

lemma sample_environment_fields:
  "en_canSign sample_environment = (True)"
  "en_canonicalBlockHash sample_environment = (\<lambda>_ _. Some (Inr ''0xb20''))"
  "en_endpointLabel sample_environment = (\<lambda>url. url)"
  "en_keccak256 sample_environment = (\<lambda>_. ''0xAB'')"
  "en_encodeFunctionData sample_environment = (\<lambda>_. ''0x00'')"
  "en_marketAllows sample_environment = (\<lambda>_ _. True)"
  "en_paused sample_environment = (\<lambda>_. False)"
  "en_pendingNonce sample_environment = (\<lambda>_. Some (Inr 3))"
  "en_persistSettings sample_environment = (\<lambda>_. Some (Inr ()))"
  "en_priceStillAllowed sample_environment = (\<lambda>_ _. Some (Inr True))"
  "en_publicSubmit sample_environment = (\<lambda>_ _ _. ok ''0xab'')"
  "en_relay sample_environment = (\<lambda>_ _ _. throw ''no relay'')"
  "en_save sample_environment = (\<lambda>_. Written)"
  "en_sign sample_environment = (\<lambda>_ _. ok ''0x02'')"
  "en_signingBlock sample_environment = (\<lambda>_. Some (Inr \<lparr>sb_baseFeePerGas = Some 1, sb_number = Some 3\<rparr>))"
  "en_simulation sample_environment = (\<lambda>_. Some (Inr ()))"
  "en_waitForReceipt sample_environment = (\<lambda>_. Some (Inr ()))"
  by (simp_all add: sample_environment_def)

lemma sample_settings_fields: "os_approvedUniverses sample_settings = [0]" "os_chainId sample_settings = 1"
  "os_historicalLogRecovery sample_settings = False" "os_logLookbackBlocks sample_settings = 10"
  "os_publicRpcUrls sample_settings = [''https://rpc'']" "os_readEndpoints sample_settings = [''https://rpc'']"
  "os_rpcQuorum sample_settings = 1" "os_selectedPools sample_settings = [''0xc'']" "os_strategy sample_settings = sample_strategy"
  "os_submission sample_settings = \<lparr>sx_minimumBundleRelaySuccesses = 1, sx_mode = PublicMode, sx_relayUrls = []\<rparr>"
  "os_wallet sample_settings = ''0xaa''"
  by (simp_all add: sample_settings_def)

lemma sample_pool_fields: "ob_address sample_stale_pool = ''0xc''" "ob_botVault sample_stale_pool = sample_caller"
  "ob_candidates sample_stale_pool = [sample_candidate]" "\<not> ob_isPriceValid sample_stale_pool" "ob_lastPrice sample_stale_pool = 10 ^ 18"
  "ob_manager sample_stale_pool = ''0xd''" "ob_pendingReportId sample_stale_pool = 5" "ob_pendingReportSponsor sample_stale_pool = ''0xAA''"
  "isPoolExecutionEligible sample_stale_pool"
  by (simp_all add: sample_stale_pool_def sample_forked_pool_def isPoolExecutionEligible_def)

lemma sample_strategy_fields: "ss_maximumGasCostAttoEth sample_strategy = 10 ^ 18" "ss_stagedOperationValidForSeconds sample_strategy = 60"
  by (simp_all add: sample_strategy_def sampleStrategy_def)

lemma sample_scan_fields: "sn_desiredPools sample_scan = []" "sn_pools sample_scan = [sample_stale_pool]"
  by (simp_all add: sample_scan_def)

lemma sample_maintenance: "planVaultMaintenance sample_stale_pool sample_strategy ''0xaa'' True True = ok None"
  by code_simp

lemma sample_selection: "selectVaultMigration [sample_stale_pool] (sn_universes sample_scan) [0] sample_strategy (sn_timestamp sample_scan) = ok None"
  by code_simp

lemma sample_liquidated_first: "allowed sample_stale_pool \<Longrightarrow> selectedCandidate [sample_stale_pool] sample_strategy allowed = Some (sample_candidate, sample_stale_pool)"
  by (simp add: selectedCandidate_def selectAllowedCandidate_def sortCandidates_def sample_stale_pool_def samplePool_def
    sample_candidate_fields)

lemma sample_texts: "toLowerCase ''0xab'' = ''0xab''" "toLowerCase ''0xAB'' = ''0xab''" "toLowerCase ''0xaa'' = ''0xaa''" "toLowerCase ''0xAA'' = ''0xaa''"
    "toLowerCase ''0xd'' = ''0xd''" "toLowerCase ''0xc'' = ''0xc''" "toLowerCase ''0xb20'' = ''0xb20''"
  by code_simp+

lemma single_endpoint_quorum:
  assumes "plain_value v"
  shows "settledQuorumValue world label [Fulfilled (endpoint, v)] (Suc 0) = Some (Inr v)"
proof -
  from assms obtain a where "canonical v = ok a" using canonical_plain by blast
  then show ?thesis
    by (simp add: settledQuorumValue_def availableSettledValues_def fulfilled_values_def bindQ_def own_result_def quorumValue_def bindR_def)
qed

lemma sample_answer: "plain_value (answer_value (Some sample_receipt))"
  by (simp add: answer_value_def evidence_value_def sample_receipt_def log_value_def status_text_def)

lemma sample_finalized:
  "finalizedReceiptWithQuorum (en_world sample_environment) (en_readers sample_environment past) [''https://rpc'']
     (en_receipts sample_environment past ''0xAB'') ''0xAB'' (Suc 0) = Some (Inr (Finalized sample_receipt))"
proof -
  have "en_receipts sample_environment past ''0xAB'' = [Fulfilled sample_receipt]"
    "en_readers sample_environment past =
       [\<lparr>br_getBlock = \<lambda>number. Fulfilled (Some (if number = 4 then ''0xb4'' else ''0xb16'')), br_getBlockNumber = Fulfilled 20\<rparr>]"
    by (simp_all add: sample_environment_def)
  then show ?thesis
    by (simp add: finalizedReceiptWithQuorum_def receipt_answer_def settled_map_def single_endpoint_quorum sample_answer bindQ_def answered_def
        fulfilled_values_def confirmCanonicalReceiptFinality_def availableSettledValues_def reader_ancestry_def ancestry_value_def
        receipt_hash_of_def PRIVATE_INTENT_FINALITY_BLOCKS_def own_result_def) (simp add: sample_receipt_def)
qed

lemma sample_expectation:
  "validateReceiptExpectation (en_decode sample_environment) sample_receipt (PendingLiquidation 40 ''0xd'' ''0xaa'' ''0xaa'' ''0xa'') = ok (Some 9)"
  by code_simp

lemma sample_receipt_fields: "rx_blockNumber sample_receipt = 4" "rx_status sample_receipt = Success" "rx_transactionHash sample_receipt = ''0xAB''"
  "vp_address sampleTarget = ''0xa''"
  by (simp_all add: sample_receipt_def sampleTarget_def)

lemmas sample_facts = sample_texts sample_finalized sample_expectation sample_receipt_fields
  sample_evaluated sample_candidate_fields sample_top_up sample_maintenance sample_selection sample_liquidated_first



lemmas sample_run_defs = operation_defs cycle_defs sample_facts sample_settings_fields sample_pool_fields sample_strategy_fields sample_scan_fields
  sample_environment_fields initialRuntimeState_def execute_migration_def maintainVault_def liquidate_best_def executeLiquidation_def
  liquidationExecutionStep_def assertMarketPriceStillAllowed_def finalized_receipt_def requireFinalizedTransactionReceipt_def
  queue_staged_operation_def liquidation_call_def signed_intent_def call_details_def prepareSignedTransaction_def
  assertSubmissionWindowOpen_def own_result_def assertGasCostLimit_def maximumFeePerGas_def paddedTransactionGas_def
  submitSignedTransaction_def accepted_targets_def public_result_def liquidationExecutionAllowed_def Let_def

definition sample_submission :: history where
  "sample_submission = takeWhile (\<lambda>event. event \<noteq> FinalReceipt ''0xAB'') (snd sample_queueing)"

definition queued_as_planned :: "RuntimeState \<times> history \<Rightarrow> bool" where
  "queued_as_planned s \<longleftrightarrow> rt_pendingTransactions (fst s) = [] \<and> rt_pendingStagedOperations (fst s) = [sample_operation] \<and>
     rt_pendingTransactions (disk_state (snd s)) = [] \<and> unresolved (takeWhile (\<lambda>event. event \<noteq> FinalReceipt ''0xAB'') (snd s)) = {''0xab''}"

lemma sample_queued: "queued_as_planned sample_queueing"
  unfolding sample_queueing_def
  apply (simp add: sample_run_defs)
  apply (unfold queued_as_planned_def fst_conv snd_conv)
  apply (simp add: sample_operation_def disk_state_def unresolved_def sample_texts)
  done

definition sample_searched :: PendingStagedOperation where
  "sample_searched = sample_operation\<lparr>pg_latestRecoveryBlock := Some 20, pg_nextHistoricalBlock := Some 10, pg_recoveryAnchorBlock := Some 20,
     pg_recoveryAnchorHash := Some ''0xb20''\<rparr>"

definition searched_as_planned :: "RuntimeState \<times> history \<Rightarrow> bool" where
  "searched_as_planned s \<longleftrightarrow> rt_pendingTransactions (fst s) = [] \<and> rt_pendingTransactions (disk_state (snd s)) = [] \<and>
     rt_pendingStagedOperations (fst s) = [sample_searched]"

lemma sample_ranges: "latestLogRange 20 10 = ok (log_range 11 20)" "newestFirstScanRanges 11 20 10 = ok [log_range 11 20]"
  by code_simp+

lemma sample_outcomes:
  "agreed_outcomes (en_world sample_environment) (en_decode sample_environment) [''https://rpc''] (Suc 0) 9 chunk
     (en_logs sample_environment past ''0xd'' first final) = Some (Inr [])"
proof -
  have "en_logs sample_environment past ''0xd'' first final = [Fulfilled []]" by (simp add: sample_environment_def)
  then show ?thesis
    by (simp add: agreed_outcomes_def endpoint_outcomes_def bindQ_def outcomes_value_def settled_map_def single_endpoint_quorum fulfilled_values_def)
qed

lemma sample_head:
  "recovery_head sample_environment sample_settings pending (state, past) = (Returned 20, state, past @ [Awaited])"
proof -
  have "en_blockNumbers sample_environment past = [Fulfilled 20]" by (simp add: sample_environment_def)
  then show ?thesis
    by (simp add: recovery_head_def awaiting_def availableSettledValues_def fulfilled_values_def bindQ_def own_result_def smallest_head_def
        sample_settings_fields)
qed

lemma sample_search:
  assumes "rt_pendingTransactions state = []" and "rt_pendingStagedOperations state = [sample_operation]"
  shows "searched_as_planned (snd (run_cycle sample_environment sample_settings sample_scan (state, past)))"
  apply (simp add: assms sample_run_defs sample_operation_def sample_head same_operation_def
    reconcile_one_def checked_cursor_def search_outcome_def search_chunk_def write_pending_def
    sample_ranges sample_outcomes stagedRecoveryAnchorMatches_def recordStagedRecoveryGap_def
    scanRange_def recordStagedRecoveryChunk_def retainRecoveryAnchor_def canonicalRecoveryHash_def nextStagedHistoricalRecoveryRange_def)
  apply (unfold searched_as_planned_def fst_conv snd_conv)
  apply (simp add: assms disk_state_def sample_searched_def sample_operation_def)
  done

lemma honest_sample: "honest_receipts sample_environment"
  by (auto simp: honest_receipts_def sample_environment_def sample_receipt_def sameText_def split: if_splits)

lemma sample_first_cycle:
  "\<exists>result. run_cycle sample_environment sample_settings sample_scan (initialRuntimeState, []) = (result, sample_queueing)"
  by (simp add: sample_queueing_def prod_eq_iff)

lemma queueing_reached: "bot_reaches sample_queueing"
proof -
  obtain result where "run_cycle sample_environment sample_settings sample_scan (initialRuntimeState, []) = (result, sample_queueing)"
    using sample_first_cycle by blast
  moreover have "journal_saved sample_queueing" using sample_queued by (simp add: queued_as_planned_def journal_saved_def)
  ultimately show ?thesis using bot_reaches.starts honest_sample bot_reaches.cycles by blast
qed

text \<open>A crash right after the submission: the transaction has no receipt yet, and is in the journal on the disk.\<close>

theorem crash_safe_submission_witness:
  "unresolved (sample_submission @ [Restarted]) = {''0xab''} \<and>
   ''0xab'' \<in> journal_hashes (rt_pendingTransactions (disk_state (sample_submission @ [Restarted]))) \<and>
   length (rt_pendingTransactions (disk_state (sample_submission @ [Restarted]))) \<le> 1"
proof -
  obtain result where "run_cycle sample_environment sample_settings sample_scan (initialRuntimeState, []) = (result, sample_queueing)"
    using sample_first_cycle by blast
  moreover have "prefix sample_submission (snd sample_queueing)"
    unfolding sample_submission_def by (rule takeWhile_is_prefix)
  ultimately have "bot_reaches (disk_state sample_submission, sample_submission @ [Restarted])"
    using bot_reaches.crashes [OF bot_reaches.starts honest_sample] by simp
  from crash_safe_submission [OF this] show ?thesis
    using sample_queued by (auto simp: queued_as_planned_def sample_submission_def unresolved_def)
qed

text \<open>
  The search of the second cycle reads blocks 11 to 20 and leaves the older ones, back to block 4, to be searched.
\<close>

theorem staged_search_misses_no_block_witness:
  "case snd (run_cycle sample_environment sample_settings sample_scan sample_queueing) of (state, past) \<Rightarrow>
     rt_pendingStagedOperations state = [sample_searched] \<and> 15 \<in> fst (searches past) (operation_key sample_searched)"
proof -
  obtain state past where queueing: "sample_queueing = (state, past)" by fastforce
  obtain result state' past' where cycle: "run_cycle sample_environment sample_settings sample_scan (state, past) = (result, state', past')"
    by (metis prod_cases3)
  have searched: "searched_as_planned (state', past')"
    using sample_search [of state past] sample_queued by (simp add: queueing cycle queued_as_planned_def)
  then have "bot_reaches (state', past')"
    using queueing_reached bot_reaches.cycles [OF _ honest_sample cycle]
    by (simp add: queueing searched_as_planned_def journal_saved_def)
  from staged_search_misses_no_block [OF this, of sample_searched 20 15] show ?thesis
    using searched by (simp add: queueing cycle searched_as_planned_def sample_searched_def sample_operation_def)
qed


section \<open>Two gaps\<close>

text \<open>
  A contract may emit that a staged operation failed without reverting. Then the receipt of the transaction is a success,
  its expectation fails, and recovery throws before it changes the journal, in every cycle; and reconciliation
  refuses the receipt's own hash. No operation of the bot removes the intent.
\<close>

lemma failed_expectation_never_recovered:
  assumes "rx_status receipt = Success" and "validateReceiptExpectation (en_decode env) receipt (pt_receiptExpectation intent) = Inl e"
  shows "recover_final env intent receipt (state, past) = (Threw (ReadFailure (OwnError e)), state, past)"
    and "toLowerCase (fe_hash replacement) = toLowerCase (pt_hash intent) \<Longrightarrow>
      validateFinalizedReplacement getAddress intent hash replacement =
        throw ''Use automatic receipt recovery for the original transaction hash''"
  using assms by (simp_all add: recover_final_def andThen_def lifting_def validateFinalizedReplacement_def)

text \<open>
  The disk fills up after the first save: the intent is signed but not saved, the cycle ends, and its last save fails too. The next
  cycle of the same process takes the intent from memory and submits it, while the journal on the disk is empty.
\<close>

definition full_disk :: environment where
  "full_disk = sample_environment
     \<lparr>en_save := \<lambda>past. if list_ex (\<lambda>event. case event of Saved _ \<Rightarrow> True | _ \<Rightarrow> False) past then NotWritten (own_error ''no space left on device'') else Written,
      en_receipts := \<lambda>_ _. [Rejected (NewError ''receipt could not be found'' None)], en_blockNumbers := \<lambda>_. [Fulfilled 20]\<rparr>"

definition deploying_scan :: pool_scan where
  "deploying_scan = sample_scan\<lparr>sn_desiredPools := [(zero_address, \<lparr>dq_initialReportPriorityFeeAttoEthPerGas = 1, dq_questionId = 7,
     dq_statoblastSecurityMultiplierBps = 20000, dq_universeId = 0\<rparr>)]\<rparr>"

definition unsaved_as_planned :: "RuntimeState \<times> history \<Rightarrow> bool" where
  "unsaved_as_planned s \<longleftrightarrow> rt_pendingTransactions (disk_state (snd s)) = [] \<and> (\<exists>state. Saved state \<in> set (snd s)) \<and>
     (\<exists>intent. rt_pendingTransactions (fst s) = [intent] \<and> pt_hash intent = ''0xAB'' \<and> pt_mode intent = PublicMode \<and> pt_nonce intent = 3 \<and>
       \<not> pt_requiresMarketEvidence intent \<and> pt_sender intent = ''0xaa'')"

lemma sample_creates_pools: "ss_allowAutomaticPoolCreation sample_strategy"
  by (simp add: sample_strategy_def)

lemma unsaved_intent_in_memory:
  "unsaved_as_planned (snd (run_cycle full_disk sample_settings deploying_scan (initialRuntimeState, [])))"
  apply (simp add: sample_run_defs full_disk_def deploying_scan_def end_failed_cycle_def cycle_disposition_def plain_call_def sample_creates_pools)
  apply (simp add: unsaved_as_planned_def disk_state_def)
  done

lemma full_disk_unobserved:
  "finalizedReceiptWithQuorum (en_world sample_environment) readers [''https://rpc'']
     [Rejected (NewError ''receipt could not be found'' None)] hash (Suc 0) = Some (Inr NotObserved)"
proof -
  have "missingReceipt (en_world sample_environment) (NewError ''receipt could not be found'' None)" by code_simp
  then show ?thesis
    by (simp add: finalizedReceiptWithQuorum_def receipt_answer_def settled_map_def single_endpoint_quorum answer_value_def bindQ_def answered_def
        fulfilled_values_def)
qed

text \<open>The submission of the second cycle is the last event before its closing save.\<close>

lemma unsaved_intent_is_resubmitted:
  assumes "unsaved_as_planned (state, past)"
  shows "\<exists>before result state' after. rt_pendingTransactions (disk_state before) = [] \<and> 
    run_cycle full_disk sample_settings deploying_scan (state, past) = (result, state', before @ Submitted ''0xAB'' # after)"
proof -
  obtain intent where intent: "rt_pendingTransactions state = [intent]" "pt_hash intent = ''0xAB''" "pt_mode intent = PublicMode"
      "pt_nonce intent = 3" "\<not> pt_requiresMarketEvidence intent" "pt_sender intent = ''0xaa''"
    using assms by (auto simp: unsaved_as_planned_def)
  have chain: "en_chainIdOf sample_environment serialized = Some 1" for serialized by (simp add: sample_environment_def)
  have recovered: "recover_intent full_disk sample_settings intent (state, past) =
      (Returned True, state, past @ [Awaited, Awaited, Awaited, Submitted ''0xAB''])"
    using intent
    by (simp add: chain recover_intent_def operation_defs full_disk_def sample_environment_fields sample_settings_fields
        finalized_receipt_def full_disk_unobserved assertIntentSender_def sample_texts availableSettledValues_def fulfilled_values_def bindQ_def
        ambiguousRecoveryAction_def resubmit_intent_def recoveredIntentCanBeResubmitted_def submit_signed_def submitSignedTransaction_def
        accepted_targets_def public_result_def Let_def)
  let ?before = "past @ [Awaited, Awaited, Awaited]"
  have save: "en_save full_disk (past @ later) = NotWritten (own_error ''no space left on device'')" for later
    using assms by (force simp: full_disk_def unsaved_as_planned_def list_ex_iff)
  have "\<exists>result state' after. run_cycle full_disk sample_settings deploying_scan (state, past) = (result, state', ?before @ Submitted ''0xAB'' # after)"
    by (simp add: run_cycle_def execute_scan_def recoveryWorkBlocksExecution_def recoverPendingTransactions_def operation_defs intent recovered save
       end_failed_cycle_def cycle_disposition_def)
  moreover have "rt_pendingTransactions (disk_state ?before) = []"
    using assms by (simp add: unsaved_as_planned_def disk_state_def)
  ultimately show ?thesis by blast
qed

end
