(* ===== verification/Spec2Isabelle.thy ===== *)
theory Spec2Isabelle
  imports Trading_Math Js_Strings Escalation_Math Liquidation Protocol_Config Vault_Ui Open_Oracle Arbitrage Truth_Auction Block_Sync Rpc_Queue Bid_Form Reporting Market_Consensus Report_Replay Rpc_Pool_Runs Dispute_Screen Canonical_Finality Polling Fork_Migration Crash_Safety
begin

text \<open>
  A verification library for the off-chain TypeScript code of Zoltar and Augur Statoblast: the
  arithmetic the screens and the bots share, the logic the screens derive from loaded contract
  state, and the decision and monitoring code of the liquidator and of the open-oracle arbitrager.
  Paths below are relative to \<open>src/\<close>.

  \<^bold>\<open>How the parts interact.\<close> \<open>shared/ts\<close> holds pure arithmetic and codecs over bigints; the bots
  (\<open>bots/liquidator\<close>, \<open>bots/open-oracle-arbitrager\<close>) and the screens (\<open>ui\<close>) call
  it. The bots follow the chain through \<open>bots/shared\<close>: block ranges and cursors
  (\<open>Block_Sync\<close>), a pool of RPC endpoints, event logs replayed into a report map
  (\<open>Report_Log\<close>), a market price agreed by independent sources (\<open>Market_Consensus\<close>); on
  that state they decide (\<open>Liquidation\<close>, \<open>Arbitrage\<close>). The liquidator saves what it signs before it
  submits it and recovers it by quorum reads (\<open>Submission_Journal\<close>, \<open>Crash_Safety\<close>). The screens show what the same
  arithmetic says of a vault (\<open>Vault_Ui\<close>), an auction (\<open>Truth_Auction\<close>,
  \<open>Bid_Form\<close>) and a reporting game (\<open>Reporting\<close>), so several properties are agreements
  between a screen and a bot or between an estimate and the settlement it estimates.

  \<^bold>\<open>Conventions.\<close> A bigint is an \<open>int\<close> and division truncates (\<open>Zoltar_Prelude\<close>).
  A function that may throw returns \<open>'a result\<close>, a sum of \<open>js_error\<close> and the value;
  one that changes state before it throws returns the state beside its outcome. \<open>undefined\<close>
  is \<open>None\<close>. A \<open>Map\<close> is an association list in insertion order (\<open>Js_Map\<close>). Text
  is ASCII (\<open>Js_Strings\<close>). Bytes are 8-bit words. Records carry the field names of the code
  under a short prefix.

  \<^bold>\<open>Theories.\<close>
  \<^item> \<open>Zoltar_Prelude\<close>: errors as values, bigint division, rounding up (locale
    \<open>ceil_division\<close>, interpreted on every rounding-up division of the code), stable sorting by
    a comparator (locale \<open>comparator\<close>, interpreted on every comparator).
  \<^item> \<open>Js_Strings\<close>, \<open>Js_Map\<close>: the string and map operations the code uses.
  \<^item> \<open>Amm_Curve\<close>, \<open>Bisection\<close>: the contracts (locales) of constant-product quotes
    and of a bisection for the greatest accepted candidate.
  \<^item> \<open>Trading_Math\<close>: \<open>shared/ts/trading/math.ts\<close>, \<open>positions.ts\<close>. Quotes are optimal
    for their constraint, exact-output is the least input, the bisection of \<open>maximumInsuredExit\<close>
    returns and finds the greatest exit, entering and leaving never pays.
  \<^item> \<open>Escalation_Math\<close>: \<open>shared/ts/escalationMath.ts\<close>. Bounds and monotonicity of the cost
    curve, for which arguments its inverse returns, the deposit projection, solvency of claims.
  \<^item> \<open>Liquidation\<close>: \<open>shared/ts/liquidation.ts\<close>, \<open>bots/liquidator/src/core/strategy.ts\<close>.
    Health against required backing, funded transfers, sound candidates, safe withdrawals.
  \<^item> \<open>Protocol_Config\<close>: \<open>shared/ts/protocolConfig.ts\<close>. Precedence and validation.
  \<^item> \<open>Vault_Ui\<close>: \<open>liquidation.ts\<close> and \<open>securityVault.ts\<close> of the security-pool screens.
    Agreement with the bot, conservation of a simulated liquidation, safe withdrawals.
  \<^item> \<open>Open_Oracle\<close>: \<open>shared/ts/openOracle.ts\<close>, \<open>oracleInitialReport.ts\<close>. The packed
    235-byte state round-trips exactly for the states that fit; the priority-fee bound.
  \<^item> \<open>Arbitrage\<close>: \<open>bots/open-oracle-arbitrager/src/core\<close>. Quotes, funding, policy and
    risk limits.
  \<^item> \<open>Tick_Price\<close>: \<open>shared/ts/truthAuctionTickMath.ts\<close> and \<open>truthAuctionMath.ts\<close>.
    Error bound of the fixed-point powers, and what every tick search finds.
  \<^item> \<open>Truth_Auction\<close>, \<open>Bid_Form\<close>: \<open>truthAuctionBook.ts\<close>, \<open>truthAuctionSettlement.ts\<close>
    and the bid form. What the book shows is what settlement pays; textual and arithmetic range
    checks agree.
  \<^item> \<open>Decimal_Text\<close>: \<open>parseUnits\<close>, \<open>formatUnits\<close>, decimal fields, balance texts.
  \<^item> \<open>Reporting\<close>: \<open>reportingDomain.ts\<close>. Suggestions, estimated returns, timers.
  \<^item> \<open>Block_Sync\<close>: \<open>bots/shared/src/monitoring/block-sync.ts\<close>. Rescanned reorganisations,
    completeness of the adaptive fetch.
  \<^item> \<open>Report_Log\<close>, \<open>Report_Window\<close>, \<open>Report_Replay\<close>: \<open>oracle-log-state.ts\<close>,
    \<open>compactFinalityWindow\<close>, and the log part of a poll in \<open>operator.ts\<close>. Any run of polls
    (step relation \<open>follows\<close>) through the cache refines a replay of the whole chain for the reports
    it keeps: the newest 256.
  \<^item> \<open>Rpc_Errors\<close>, \<open>Rpc_Pool\<close>, \<open>Rpc_Pool_Runs\<close>: \<open>rpc-resilience.ts\<close> and the failure
    disposition of \<open>resilience.ts\<close>. Overlapping requests as a step relation (\<open>pool_step\<close>); each
    refines a sequential failover, and the health of the endpoints is an invariant.
  \<^item> \<open>Write_Errors\<close>, \<open>Token_Approval\<close>: \<open>ui/coreShared/ts/lib/errors.ts\<close>, \<open>tokenApproval.ts\<close>.
  \<^item> \<open>Report_Form\<close>, \<open>Dispute_Screen\<close>: \<open>ui/zoltar/ts/features/open-oracle/lib/openOracle.ts\<close>,
    \<open>openOracleValidation.ts\<close>, \<open>openOracleMath.ts\<close>. A form without errors submits parameters the
    contract accepts; a dispute the screen lets one submit is the one the arbitrage bot would build.
  \<^item> \<open>Read_Quorum\<close>, \<open>Canonical_Finality\<close>: \<open>read-quorum.ts\<close>, \<open>rpc-quorum-policy.ts\<close>,
    \<open>execution/canonical-finality.ts\<close>. Canonical texts tell values apart up to the order of fields, so
    a quorum is an agreement of endpoints, and a confirmed receipt has one behind it.
  \<^item> \<open>Polling\<close>: the retry delay and the polling loop of \<open>resilience.ts\<close>.
  \<^item> \<open>Fork_Migration\<close>: the liquidator's \<open>fork-migration.ts\<close> and the exposure limits of
    its executor. A vault migrates only into the truthful child the operator approved.
  \<^item> \<open>Receipts\<close>, \<open>Relay_Submission\<close>: \<open>execution/receipt-validation.ts\<close> and
    \<open>finalizedReceiptWithQuorum\<close> of the liquidator, and \<open>transaction-submission.ts\<close> of
    \<open>bots/shared/src/execution\<close>: settings, signing, relays. What an accepted bundle simulation says.
  \<^item> \<open>Submission_Journal\<close>, \<open>Staged_Recovery\<close>, \<open>Liquidator_Execution\<close>: the journal of
    signed intents, its recovery and manual reconciliation, the search for the outcome of staged operations, the
    executor, and the executing part of a cycle of \<open>cli/run.ts\<close>, as operations over the state in memory and
    a history of effects. A liquidation stays within the operator's limits.
  \<^item> \<open>Submission_Safety\<close>, \<open>Crash_Safety\<close>: the invariant of journal, disk and history, triples
    for every operation, and runs with crashes (\<open>bot_reaches\<close>). Nothing is submitted that the journal on
    the disk does not hold, and no block is lost from a search.
  \<^item> \<open>Rpc_Queue\<close>: \<open>augurScan/src/rpc-request-queue.ts\<close>, as a step relation.
  \<^item> \<open>Market_Consensus\<close>: \<open>bots/shared/src/monitoring/market-consensus.ts\<close>.

  \<^bold>\<open>Termination.\<close> Every loop is a structural \<open>fun\<close> or a \<open>function\<close> with a measure
  (interval length for bisections and range loops, unseen objects for cause walks, a lexicographic
  pair for the adaptive fetch). The one loop that may run for ever, the normalisation of the
  fixed-point logarithm, is a \<open>partial_function (option)\<close>: \<open>None\<close> is not returning, and
  \<open>escalation_time_returns_iff\<close> says exactly when it returns. No fuel is used.

  \<^bold>\<open>Parameters.\<close> Code outside the repository is an argument: RPC endpoints and canonical-block
  readers, keccak, hexadecimal coding and checksums, the process environment, the clock, the wallet's
  network. The environment of the liquidator answers from the history so far; a read may fail or never return,
  and a save may fail before or after it has written. Properties that need documented behaviour of such code state it as a
  hypothesis and have a witness that instantiates it.

  \<^bold>\<open>Not modelled.\<close> The Solidity contracts (another language, with their own proofs of use);
  the execution and recovery of the arbitrager, whose decisions are modelled; the JSON files behind the
  liquidator's saves (a save writes the whole state or fails) and its scan of the chain and reads of contracts, which
  are answers of the environment; dashboards, HTTP servers and the browser explorer (rendering);
  React components and hooks; the in-browser chain simulation; ABI coding, signing and transports of
  \<open>shared/ts/ethereum.ts\<close>; documentation tools, build scripts, generated artifacts and tests.
\<close>

end
